(* ===== verification/Grotto_Prelude.thy ===== *)
theory Grotto_Prelude
  imports Main "HOL-Library.Word" "HOL-Library.AList" "HOL-Library.Char_ord"
    "HOL-Library.List_Lexorder"
begin

text \<open>
  Shared vocabulary of the development: the types that name C++ data (bytes, byte strings,
  session handles, time stamps), the character classes of the C locale, decimal printing,
  the model of the unordered containers, little-endian integer fields, and the lemma
  collections the component theories add to.

  A \<open>std::string\<close> is a list of 8-bit characters, a \<open>std::vector<uint8_t>\<close> or a protobuf
  \<open>bytes\<close> field a list of 8-bit words.  An \<open>unordered_set\<close> that the code iterates over is a
  duplicate-free list whose order stands for one iteration order of the container; an
  \<open>unordered_map\<close> that the code iterates over is an association list with distinct keys, and
  one that is only looked up is a partial function.  Time points are integers of nanoseconds.
\<close>

named_theorems inv_intros \<open>introduction rules for component invariants\<close>
named_theorems frame_simps \<open>what an operation leaves unchanged\<close>

type_synonym byte = "8 word"
type_synonym bytes = "8 word list"
type_synonym u32 = "32 word"
type_synonym u64 = "64 word"
type_synonym user_id = string
type_synonym sid = nat

subsection \<open>Character classes of the C locale\<close>

definition code :: "char \<Rightarrow> nat" where
  "code c = of_char c"

definition c_isupper :: "char \<Rightarrow> bool" where
  "c_isupper c \<longleftrightarrow> 65 \<le> code c \<and> code c \<le> 90"

definition c_islower :: "char \<Rightarrow> bool" where
  "c_islower c \<longleftrightarrow> 97 \<le> code c \<and> code c \<le> 122"

definition c_isdigit :: "char \<Rightarrow> bool" where
  "c_isdigit c \<longleftrightarrow> 48 \<le> code c \<and> code c \<le> 57"

definition c_isalnum :: "char \<Rightarrow> bool" where
  "c_isalnum c \<longleftrightarrow> c_isupper c \<or> c_islower c \<or> c_isdigit c"

definition c_isspace :: "char \<Rightarrow> bool" where
  "c_isspace c \<longleftrightarrow> code c = 32 \<or> (9 \<le> code c \<and> code c \<le> 13)"

definition c_tolower :: "char \<Rightarrow> char" where
  "c_tolower c = (if c_isupper c then char_of (code c + 32) else c)"

abbreviation lower_string :: "string \<Rightarrow> string" where
  "lower_string \<equiv> map c_tolower"

lemmas char_class_defs =
  c_isupper_def c_islower_def c_isdigit_def c_isalnum_def c_isspace_def code_def

lemma code_less [simp]: "code c < 256"
  by (simp add: code_def)

lemma char_of_code [simp]: "char_of (code c) = c"
  by (simp add: code_def)

lemma code_char_of [simp]: "n < 256 \<Longrightarrow> code (char_of n) = n"
  by (simp add: code_def of_char_of)

lemma code_inject: "code a = code b \<longleftrightarrow> a = b"
  by (metis char_of_code)

lemma c_tolower_not_upper: "\<not> c_isupper (c_tolower c)"
  by (auto simp: c_tolower_def c_isupper_def)

lemma c_tolower_idem [simp]: "c_tolower (c_tolower c) = c_tolower c"
  using c_tolower_not_upper [of c] by (simp add: c_tolower_def)

lemma lower_string_idem [simp]: "lower_string (lower_string s) = lower_string s"
  by simp

lemma c_isalnum_tolower [simp]: "c_isalnum (c_tolower c) = c_isalnum c"
  by (auto simp: c_tolower_def c_isalnum_def c_isupper_def c_islower_def c_isdigit_def)

lemma c_isdigit_not_alpha: "c_isdigit c \<Longrightarrow> \<not> c_isupper c \<and> \<not> c_islower c"
  by (auto simp: char_class_defs)

subsection \<open>Decimal printing\<close>

fun show_nat :: "nat \<Rightarrow> string" where
  "show_nat n = (if n < 10 then [char_of (48 + n)] else show_nat (n div 10) @ [char_of (48 + n mod 10)])"

declare show_nat.simps [simp del]

definition show_int :: "int \<Rightarrow> string" where
  "show_int i = (if i < 0 then CHR ''-'' # show_nat (nat (- i)) else show_nat (nat i))"

fun read_nat :: "nat \<Rightarrow> string \<Rightarrow> nat" where
  "read_nat acc [] = acc"
| "read_nat acc (c # cs) = read_nat (10 * acc + (code c - 48)) cs"

lemma read_nat_append: "read_nat a (s @ t) = read_nat (read_nat a s) t"
  by (induction s arbitrary: a) simp_all

lemma read_show_nat: "read_nat 0 (show_nat n) = n"
proof (induction n rule: show_nat.induct)
  case (1 n)
  show ?case
  proof (cases "n < 10")
    case True
    then show ?thesis by (simp add: show_nat.simps [of n])
  next
    case False
    with 1 have "read_nat 0 (show_nat (n div 10)) = n div 10" by simp
    then have "read_nat 0 (show_nat n) = 10 * (n div 10) + n mod 10"
      using False by (simp add: show_nat.simps [of n] read_nat_append)
    then show ?thesis by simp
  qed
qed

lemma show_nat_inject [simp]: "show_nat m = show_nat n \<longleftrightarrow> m = n"
  by (metis read_show_nat)

lemma show_nat_digits: "c \<in> set (show_nat n) \<Longrightarrow> c_isdigit c"
proof (induction n rule: show_nat.induct)
  case (1 n)
  have d: "c_isdigit (char_of (48 + k))" if "k < 10" for k :: nat
    using that by (simp add: c_isdigit_def)
  show ?case
  proof (cases "n < 10")
    case True
    with "1.prems" show ?thesis by (auto simp: show_nat.simps [of n] d)
  next
    case False
    then have "c \<in> set (show_nat (n div 10)) \<or> c = char_of (48 + n mod 10)"
      using "1.prems" by (auto simp: show_nat.simps [of n])
    with "1.IH" False show ?thesis by (auto intro: d)
  qed
qed

lemma show_nat_not_Nil [simp]: "show_nat n \<noteq> []"
  by (simp add: show_nat.simps)

subsection \<open>Joining and splitting strings\<close>

fun join_with :: "string \<Rightarrow> string list \<Rightarrow> string" where
  "join_with sep [] = []"
| "join_with sep [x] = x"
| "join_with sep (x # y # r) = x @ sep @ join_with sep (y # r)"

definition starts_with :: "string \<Rightarrow> string \<Rightarrow> bool" where
  "starts_with p s \<longleftrightarrow> take (length p) s = p"

definition ends_with :: "string \<Rightarrow> string \<Rightarrow> bool" where
  "ends_with p s \<longleftrightarrow> length p \<le> length s \<and> drop (length s - length p) s = p"

text \<open>\<open>find\<close> and \<open>rfind\<close> of \<open>std::string\<close>: the position of the first or last occurrence.\<close>

fun str_find_from :: "nat \<Rightarrow> string \<Rightarrow> string \<Rightarrow> nat option" where
  "str_find_from i p [] = (if p = [] then Some i else None)"
| "str_find_from i p (c # s) =
     (if starts_with p (c # s) then Some i else str_find_from (Suc i) p s)"

definition str_find :: "string \<Rightarrow> string \<Rightarrow> nat option" where
  "str_find p s = str_find_from 0 p s"

fun str_rfind_from :: "nat \<Rightarrow> string \<Rightarrow> string \<Rightarrow> nat option" where
  "str_rfind_from i p [] = (if p = [] then Some i else None)"
| "str_rfind_from i p (c # s) =
     (case str_rfind_from (Suc i) p s of
        Some j \<Rightarrow> Some j
      | None \<Rightarrow> (if starts_with p (c # s) then Some i else None))"

definition str_rfind :: "string \<Rightarrow> string \<Rightarrow> nat option" where
  "str_rfind p s = str_rfind_from 0 p s"

subsection \<open>Unordered sets as duplicate-free lists\<close>

definition uinsert :: "'a \<Rightarrow> 'a list \<Rightarrow> 'a list" where
  "uinsert x xs = (if x \<in> set xs then xs else xs @ [x])"

definition uerase :: "'a \<Rightarrow> 'a list \<Rightarrow> 'a list" where
  "uerase x xs = filter (\<lambda>y. y \<noteq> x) xs"

lemma set_uinsert [simp]: "set (uinsert x xs) = insert x (set xs)"
  by (auto simp: uinsert_def)

lemma set_uerase [simp]: "set (uerase x xs) = set xs - {x}"
  by (auto simp: uerase_def)

lemma distinct_uinsert [simp]: "distinct (uinsert x xs) = distinct xs"
  by (simp add: uinsert_def)

lemma distinct_uerase [simp]: "distinct xs \<Longrightarrow> distinct (uerase x xs)"
  by (simp add: uerase_def)

lemma uinsert_not_Nil [simp]: "uinsert x xs \<noteq> []"
  by (cases xs) (auto simp: uinsert_def)

subsection \<open>Unordered maps as association lists\<close>

abbreviation mput :: "'k \<Rightarrow> 'v \<Rightarrow> ('k \<times> 'v) list \<Rightarrow> ('k \<times> 'v) list" where
  "mput \<equiv> AList.update"

abbreviation mdel :: "'k \<Rightarrow> ('k \<times> 'v) list \<Rightarrow> ('k \<times> 'v) list" where
  "mdel \<equiv> AList.delete"

abbreviation keys_distinct :: "('k \<times> 'v) list \<Rightarrow> bool" where
  "keys_distinct m \<equiv> distinct (map fst m)"

lemma map_of_mput [simp]: "map_of (mput k v m) = (map_of m)(k \<mapsto> v)"
  by (rule update_conv')

lemma map_of_mdel [simp]: "map_of (mdel k m) = (map_of m)(k := None)"
  by (rule delete_conv')

lemma keys_distinct_mput [simp]: "keys_distinct m \<Longrightarrow> keys_distinct (mput k v m)"
  by (rule distinct_update)

lemma keys_distinct_mdel [simp]: "keys_distinct m \<Longrightarrow> keys_distinct (mdel k m)"
  by (rule distinct_delete)

lemma map_of_member:
  "keys_distinct m \<Longrightarrow> (k, v) \<in> set m \<longleftrightarrow> map_of m k = Some v"
  by (simp add: map_of_eq_Some_iff)

lemma map_of_key: "map_of m k = Some v \<Longrightarrow> k \<in> fst ` set m"
  by (metis domI dom_map_of_conv_image_fst)

lemma map_of_no_key: "map_of m k = None \<longleftrightarrow> k \<notin> fst ` set m"
  by (metis domIff dom_map_of_conv_image_fst)

lemma fst_set_mput [simp]: "fst ` set (mput k v m) = insert k (fst ` set m)"
  by (simp flip: dom_map_of_conv_image_fst)

lemma fst_set_mdel [simp]: "fst ` set (mdel k m) = fst ` set m - {k}"
  by (simp flip: dom_map_of_conv_image_fst)

lemma map_of_filter_key:
  "map_of (filter (\<lambda>(k, v). P k) m) k = (if P k then map_of m k else None)"
  by (induction m) auto

lemma keys_filter_entry:
  "keys_distinct m \<Longrightarrow> k \<in> fst ` set (filter (\<lambda>(k, v). P k v) m) \<longleftrightarrow>
     (case map_of m k of None \<Rightarrow> False | Some v \<Rightarrow> P k v)"
  by (auto simp: image_iff split: option.split) (metis map_of_is_SomeI option.inject)

lemma map_of_filter_entry:
  "keys_distinct m \<Longrightarrow> map_of (filter (\<lambda>(k, v). P k v) m) k =
     (case map_of m k of None \<Rightarrow> None | Some v \<Rightarrow> if P k v then Some v else None)"
proof (induction m)
  case (Cons e m)
  obtain k' v where e: "e = (k', v)" by (cases e)
  have "map_of m k' = None" using Cons.prems e by (simp add: map_of_no_key)
  with Cons e show ?case by (cases "k = k'") (auto split: option.splits)
qed simp

subsection \<open>Fixed-width integer fields\<close>

fun le_bytes :: "nat \<Rightarrow> nat \<Rightarrow> bytes" where
  "le_bytes 0 v = []"
| "le_bytes (Suc n) v = word_of_nat v # le_bytes n (v div 256)"

fun le_value :: "bytes \<Rightarrow> nat" where
  "le_value [] = 0"
| "le_value (b # bs) = unat b + 256 * le_value bs"

definition be_bytes :: "nat \<Rightarrow> nat \<Rightarrow> bytes" where
  "be_bytes n v = rev (le_bytes n v)"

definition be_value :: "bytes \<Rightarrow> nat" where
  "be_value bs = le_value (rev bs)"

lemma length_le_bytes [simp]: "length (le_bytes n v) = n"
  by (induction n arbitrary: v) simp_all

lemma length_be_bytes [simp]: "length (be_bytes n v) = n"
  by (simp add: be_bytes_def)

lemma le_value_le_bytes: "le_value (le_bytes n v) = v mod 256 ^ n"
proof (induction n arbitrary: v)
  case 0
  then show ?case by simp
next
  case (Suc n)
  have "le_value (le_bytes (Suc n) v) = v mod 256 + 256 * (v div 256 mod 256 ^ n)"
    by (simp add: Suc unat_of_nat)
  also have "\<dots> = v mod (256 * 256 ^ n)"
    by (simp add: mod_mult2_eq)
  finally show ?case by simp
qed

lemma le_value_le_bytes_id: "v < 256 ^ n \<Longrightarrow> le_value (le_bytes n v) = v"
  by (simp add: le_value_le_bytes)

lemma be_value_be_bytes: "v < 256 ^ n \<Longrightarrow> be_value (be_bytes n v) = v"
  by (simp add: be_value_def be_bytes_def le_value_le_bytes)

lemma le_value_bound: "le_value bs < 256 ^ length bs"
proof (induction bs)
  case Nil
  then show ?case by simp
next
  case (Cons b bs)
  have "unat b < 2 ^ LENGTH(8)" by (rule unsigned_less)
  then have "unat b < 256" by simp
  with Cons show ?case by simp
qed

subsection \<open>Characters and bytes\<close>

definition to_bytes :: "string \<Rightarrow> bytes" where
  "to_bytes s = map (\<lambda>c. word_of_nat (code c)) s"

lemma length_to_bytes [simp]: "length (to_bytes s) = length s"
  by (simp add: to_bytes_def)

lemma to_bytes_inject: "to_bytes s = to_bytes t \<longleftrightarrow> s = t"
proof -
  have "inj (\<lambda>c. word_of_nat (code c) :: byte)"
  proof (rule injI)
    fix a b
    assume "(word_of_nat (code a) :: byte) = word_of_nat (code b)"
    then have "unat (word_of_nat (code a) :: byte) = unat (word_of_nat (code b) :: byte)"
      by simp
    then show "a = b"
      by (simp add: unat_of_nat code_inject)
  qed
  then show ?thesis
    by (simp add: to_bytes_def inj_map_eq_map)
qed

subsection \<open>Integers of the SQL columns\<close>

lemma unat_of_nat_u32: "n < 2 ^ 32 \<Longrightarrow> unat (word_of_nat n :: u32) = n"
  by (simp add: unat_of_nat take_bit_nat_eq_self)

text \<open>
  The stores bind 32-bit ids through \<open>static_cast<int>\<close> and read them back through
  \<open>static_cast<uint32_t>\<close>; sizes go through \<open>int64_t\<close> in the same way.
\<close>

definition col_int :: "u32 \<Rightarrow> int" where
  "col_int w = sint w"

definition col_u32 :: "int \<Rightarrow> u32" where
  "col_u32 i = word_of_int i"

definition col_int64 :: "u64 \<Rightarrow> int" where
  "col_int64 w = sint w"

definition col_u64 :: "int \<Rightarrow> u64" where
  "col_u64 i = word_of_int i"

lemma col_u32_int [simp]: "col_u32 (col_int w) = w"
  by (simp add: col_u32_def col_int_def)

lemma col_u64_int [simp]: "col_u64 (col_int64 w) = w"
  by (simp add: col_u64_def col_int64_def)

lemma col_int_inject [simp]: "col_int a = col_int b \<longleftrightarrow> a = b"
  by (metis col_u32_int)

text \<open>What two's complement makes of an integer that is stored in an \<open>int\<close> of 32 bits.\<close>

definition to_int32 :: "int \<Rightarrow> int" where "to_int32 i = (i + 2 ^ 31) mod 2 ^ 32 - 2 ^ 31"

lemma to_int32_same: "- (2 ^ 31) \<le> i \<Longrightarrow> i < 2 ^ 31 \<Longrightarrow> to_int32 i = i"
  by (simp add: to_int32_def)

subsection \<open>Time\<close>

abbreviation secs :: "int \<Rightarrow> int" where
  "secs n \<equiv> n * 1000000000"

abbreviation mins :: "int \<Rightarrow> int" where
  "mins n \<equiv> secs (60 * n)"

end
