(* ===== verification/Grotto_Text.thy ===== *)
theory Grotto_Text
  imports Grotto_Prelude
begin

text \<open>
  Text of the standard library that several parts share: splitting at white space as \<open>operator>>\<close> does,
  searching from a position, \<open>std::stoi\<close>, and the values of the JSON library \<open>nlohmann::json\<close> with the
  accessors the code uses, whose type errors are \<open>None\<close>.
\<close>

subsection \<open>Words\<close>

function words_of :: "string \<Rightarrow> string list" where
  "words_of s =
     (let s' = dropWhile c_isspace s
      in if s' = [] then [] else takeWhile (\<lambda>c. \<not> c_isspace c) s' # words_of (dropWhile (\<lambda>c. \<not> c_isspace c) s'))"
  by pat_completeness auto
termination
proof (relation "measure length", simp)
  fix s :: string and s'
  assume s': "s' = dropWhile c_isspace s" and "s' \<noteq> []"
  then have "\<not> c_isspace (hd s')" using hd_dropWhile [of c_isspace s] by simp
  with \<open>s' \<noteq> []\<close> obtain c cs where c: "s' = c # cs" "\<not> c_isspace c" by (cases s') auto
  have "length s' \<le> length s" unfolding s' by (rule length_dropWhile_le)
  moreover have "length (dropWhile (\<lambda>c. \<not> c_isspace c) s') < length s'"
    using c by (simp add: le_imp_less_Suc length_dropWhile_le)
  ultimately show "(dropWhile (\<lambda>c. \<not> c_isspace c) s', s) \<in> measure length" by simp
qed

declare words_of.simps [simp del]

definition join_words :: "string list \<Rightarrow> string" where
  "join_words ws = (case ws of [] \<Rightarrow> [] | w # ws \<Rightarrow> concat (w # map (\<lambda>w. CHR '' '' # w) ws))"

text \<open>\<open>s.find(p, i)\<close>: the first place at or after \<open>i\<close>.\<close>

definition str_find_at :: "string \<Rightarrow> nat \<Rightarrow> string \<Rightarrow> nat option" where
  "str_find_at p i s = (if i > length s then None else map_option (\<lambda>j. i + j) (str_find p (drop i s)))"

definition str_contains :: "string \<Rightarrow> string \<Rightarrow> bool" where
  "str_contains p s \<longleftrightarrow> str_find p s \<noteq> None"

subsection \<open>Decimal numbers\<close>

text \<open>
  \<open>std::stoi\<close>: white space, a sign, and as many digits as there are; no digit is an \<open>invalid_argument\<close>, a
  value outside 32 bits an \<open>out_of_range\<close>, both \<open>None\<close>.
\<close>

definition digits_value :: "string \<Rightarrow> nat option" where
  "digits_value s = (if takeWhile c_isdigit s = [] then None
     else Some (foldl (\<lambda>n c. 10 * n + (code c - 48)) 0 (takeWhile c_isdigit s)))"

definition stoi10 :: "string \<Rightarrow> int option" where
  "stoi10 s =
     (let s = dropWhile c_isspace s;
          v = (case s of [] \<Rightarrow> None
               | c # r \<Rightarrow> if c = CHR ''-'' then map_option (\<lambda>n. - int n) (digits_value r)
                         else if c = CHR ''+'' then map_option int (digits_value r)
                         else map_option int (digits_value s))
      in case v of None \<Rightarrow> None | Some i \<Rightarrow> if - (2 ^ 31) \<le> i \<and> i < 2 ^ 31 then Some i else None)"

subsection \<open>JSON\<close>

datatype json =
    J_null
  | J_bool bool
  | J_int int
  | J_float
  | J_string string
  | J_array "json list"
  | J_object "(string \<times> json) list"

fun json_contains :: "json \<Rightarrow> string \<Rightarrow> bool" where
  "json_contains (J_object o') k \<longleftrightarrow> map_of o' k \<noteq> None"
| "json_contains _ k \<longleftrightarrow> False"

fun json_string :: "json \<Rightarrow> string option" where
  "json_string (J_string s) = Some s"
| "json_string _ = None"

text \<open>\<open>j.value(k, d)\<close> for a string and for an object.\<close>

fun json_value_string :: "json \<Rightarrow> string \<Rightarrow> string \<Rightarrow> string option" where
  "json_value_string (J_object o') k d = (case map_of o' k of None \<Rightarrow> Some d | Some v \<Rightarrow> json_string v)"
| "json_value_string _ k d = None"

fun json_value_json :: "json \<Rightarrow> string \<Rightarrow> json \<Rightarrow> json option" where
  "json_value_json (J_object o') k d = Some (case map_of o' k of None \<Rightarrow> d | Some v \<Rightarrow> v)"
| "json_value_json _ k d = None"

end
