(* ===== verification/Rate_Limiter.thy ===== *)
theory Rate_Limiter
  imports Grotto_Prelude
begin

text \<open>
  The fixed-window rate limiter of \<open>grotto-chat-server/src/net/rate_limiter.hpp\<close>, used per session
  for messages, per user for commands and joins, and per address for connections.  The clock is
  an argument: \<open>allow\<close> reads \<open>steady_clock::now()\<close> once per call.
\<close>

subsection \<open>Definitions\<close>

record rate_limiter =
  max_tokens :: int
  window :: int
  window_start :: int
  rl_count :: int

definition new_limiter :: "int \<Rightarrow> int \<Rightarrow> int \<Rightarrow> rate_limiter" where
  "new_limiter maxt win now = \<lparr>max_tokens = maxt, window = win, window_start = now, rl_count = 0\<rparr>"

definition rl_allow :: "int \<Rightarrow> rate_limiter \<Rightarrow> bool \<times> rate_limiter" where
  "rl_allow now r =
     (let r = (if now - window_start r \<ge> window r then r\<lparr>window_start := now, rl_count := 0\<rparr> else r)
      in if rl_count r \<ge> max_tokens r then (False, r)
         else (True, r\<lparr>rl_count := rl_count r + 1\<rparr>))"

definition rl_reset :: "int \<Rightarrow> rate_limiter \<Rightarrow> rate_limiter" where
  "rl_reset now r = r\<lparr>rl_count := 0, window_start := now\<rparr>"

text \<open>A run of the limiter over the times of the calls: the times that were allowed.\<close>

fun rl_run :: "int list \<Rightarrow> rate_limiter \<Rightarrow> int list \<times> rate_limiter" where
  "rl_run [] r = ([], r)"
| "rl_run (t # ts) r =
     (let (ok, r') = rl_allow t r; (allowed, r'') = rl_run ts r'
      in (if ok then t # allowed else allowed, r''))"

subsection \<open>One call\<close>

definition rl_wf :: "rate_limiter \<Rightarrow> bool" where
  "rl_wf r \<longleftrightarrow> 0 \<le> rl_count r \<and> rl_count r \<le> max 0 (max_tokens r)"

lemma rl_wf_new [inv_intros]: "rl_wf (new_limiter m w t)"
  by (simp add: rl_wf_def new_limiter_def)

lemma rl_allow_wf [inv_intros]: "rl_wf r \<Longrightarrow> rl_wf (snd (rl_allow t r))"
  by (auto simp: rl_wf_def rl_allow_def Let_def)

lemma rl_allow_params [frame_simps]:
  "max_tokens (snd (rl_allow t r)) = max_tokens r"
  "window (snd (rl_allow t r)) = window r"
  by (auto simp: rl_allow_def Let_def)

lemma rl_allow_nonpositive:
  "max_tokens r \<le> 0 \<Longrightarrow> 0 \<le> rl_count r \<Longrightarrow> \<not> fst (rl_allow t r)"
  by (auto simp: rl_allow_def Let_def)

lemma rl_allow_fresh:
  "0 < max_tokens r \<Longrightarrow> window r \<le> t - window_start r \<Longrightarrow> fst (rl_allow t r)"
  by (auto simp: rl_allow_def Let_def)

subsection \<open>Runs\<close>

text \<open>
  The number of allowed calls with a time in the half-open interval from \<open>a\<close> of the window's
  length.  While the limiter stays in one window it admits at most the tokens that are left; an
  interval of the window's length can touch two windows.
\<close>

definition hits :: "int \<Rightarrow> int \<Rightarrow> int list \<Rightarrow> int" where
  "hits a b ts = int (length (filter (\<lambda>t. a \<le> t \<and> t < b) ts))"

lemma hits_Nil [simp]: "hits a b [] = 0"
  by (simp add: hits_def)

lemma hits_Cons [simp]: "hits a b (t # ts) = (if a \<le> t \<and> t < b then 1 else 0) + hits a b ts"
  by (simp add: hits_def)

lemma hits_nonneg [simp]: "0 \<le> hits a b ts"
  by (simp add: hits_def)

lemma rl_run_Cons [simp]:
  "fst (rl_run (t # ts) r) =
     (if fst (rl_allow t r) then [t] else []) @ fst (rl_run ts (snd (rl_allow t r)))"
  by (simp add: split_def Let_def)

lemma rl_run_subset: "set (fst (rl_run ts r)) \<subseteq> set ts"
proof (induction ts arbitrary: r)
  case (Cons t ts)
  from Cons.IH [of "snd (rl_allow t r)"] show ?case by (auto simp del: rl_run.simps(2))
qed simp

lemma hits_append [simp]: "hits a b (xs @ ys) = hits a b xs + hits a b ys"
  by (simp add: hits_def)

lemma rl_wf_le: "rl_wf r \<Longrightarrow> 0 \<le> max_tokens r \<Longrightarrow> 0 \<le> rl_count r \<and> rl_count r \<le> max_tokens r"
  by (simp add: rl_wf_def)

lemmas rl_allow_cases = rl_allow_def Let_def

text \<open>
  The credit that is left for the times up to \<open>b\<close>: the tokens of the current window, and a full
  window more if the next one can begin before \<open>b\<close>.
\<close>

definition credit :: "int \<Rightarrow> rate_limiter \<Rightarrow> int" where
  "credit b r = (max_tokens r - rl_count r) +
     (if window_start r + window r < b then max_tokens r else 0)"

lemma credit_nonneg: "rl_wf r \<Longrightarrow> 0 \<le> max_tokens r \<Longrightarrow> 0 \<le> credit b r"
  using rl_wf_le [of r] by (simp add: credit_def)

lemma credit_le_twice: "rl_wf r \<Longrightarrow> 0 \<le> max_tokens r \<Longrightarrow> credit b r \<le> 2 * max_tokens r"
  using rl_wf_le [of r] by (simp add: credit_def)

lemma credit_step:
  assumes "rl_wf r" and "0 \<le> max_tokens r" and "0 < window r" and "t < b"
    and "b \<le> s + window r" and "s \<le> t"
  shows "(if fst (rl_allow t r) then 1 else 0) + credit b (snd (rl_allow t r)) \<le> credit b r"
proof (cases "t - window_start r \<ge> window r")
  case True
  then show ?thesis
    using assms rl_wf_le [OF assms(1,2)] by (simp add: rl_allow_cases credit_def)
next
  case False
  then show ?thesis by (simp add: rl_allow_cases credit_def)
qed

lemma rl_run_late:
  assumes "\<forall>x \<in> set ts. b \<le> x" shows "hits a b (fst (rl_run ts r)) = 0"
proof -
  have "filter (\<lambda>x. a \<le> x \<and> x < b) (fst (rl_run ts r)) = []"
    using rl_run_subset [of ts r] assms by (force simp: filter_empty_conv)
  then show ?thesis by (simp add: hits_def)
qed

lemma window_start_after: "window_start r \<le> t \<Longrightarrow> window_start (snd (rl_allow t r)) \<le> t"
  by (simp add: rl_allow_def Let_def)

lemma hits_bounded_after:
  assumes "sorted (s # ts)" and "rl_wf r" and "0 \<le> max_tokens r" and "0 < window r"
    and "b \<le> s + window r"
  shows "hits a b (fst (rl_run ts r)) \<le> credit b r"
  using assms
proof (induction ts arbitrary: r s)
  case Nil
  then show ?case by (simp add: credit_nonneg)
next
  case (Cons t ts)
  let ?r = "snd (rl_allow t r)"
  have st: "s \<le> t" using Cons.prems(1) by simp
  show ?case
  proof (cases "b \<le> t")
    case True
    then have "\<forall>x \<in> set (t # ts). b \<le> x" using Cons.prems(1) by auto
    then have "hits a b (fst (rl_run (t # ts) r)) = 0" by (rule rl_run_late)
    then show ?thesis using credit_nonneg [OF Cons.prems(2,3)] by simp
  next
    case False
    have "sorted (t # ts)" using Cons.prems(1) by simp
    then have "hits a b (fst (rl_run ts ?r)) \<le> credit b ?r"
      using Cons.prems st rl_allow_wf [OF Cons.prems(2), of t]
      by (intro Cons.IH [of t]) (simp_all add: rl_allow_params)
    moreover have "(if fst (rl_allow t r) then 1 else 0) + credit b ?r \<le> credit b r"
      using Cons.prems False st by (intro credit_step) auto
    ultimately show ?thesis by (simp del: rl_run.simps(2) split: if_splits)
  qed
qed

lemma rl_run_window_bound:
  assumes "sorted ts" and "rl_wf r" and "0 \<le> max_tokens r" and "0 < window r"
  shows "hits a (a + window r) (fst (rl_run ts r)) \<le> 2 * max_tokens r"
  using assms
proof (induction ts arbitrary: r)
  case Nil
  then show ?case by simp
next
  case (Cons t ts)
  show ?case
  proof (cases "a \<le> t")
    case True
    have "sorted (a # t # ts)" using Cons.prems(1) True by auto
    then have "hits a (a + window r) (fst (rl_run (t # ts) r)) \<le> credit (a + window r) r"
      using Cons.prems(2-4) by (intro hits_bounded_after) auto
    then show ?thesis using credit_le_twice [OF Cons.prems(2,3), of "a + window r"] by linarith
  next
    case False
    let ?r = "snd (rl_allow t r)"
    have "hits a (a + window ?r) (fst (rl_run ts ?r)) \<le> 2 * max_tokens ?r"
      using Cons.prems rl_allow_wf [OF Cons.prems(2), of t]
      by (intro Cons.IH) (simp_all add: rl_allow_params)
    then show ?thesis using False by (simp add: rl_allow_params del: rl_run.simps(2))
  qed
qed

text \<open>
  However many calls are made and whenever they come, in every interval of the window's length
  a limiter with a budget of \<open>n\<close> admits at most \<open>2 * n\<close> calls (it is a fixed window, so a burst
  at the end of one window and one at the start of the next can both pass).
\<close>

theorem rl_burst_bound:
  assumes "sorted (t0 # ts)" and "0 \<le> n" and "0 < w"
  shows "hits a (a + w) (fst (rl_run ts (new_limiter n w t0))) \<le> 2 * n"
  using rl_run_window_bound [of ts "new_limiter n w t0" a] assms rl_wf_new [of n w t0]
  by (simp add: new_limiter_def)

theorem rl_burst_bound_witness:
  "hits 9 19 (fst (rl_run [9, 9, 9, 10, 10, 10] (new_limiter 2 10 0))) \<le> 4"
  using rl_burst_bound [of 0 "[9, 9, 9, 10, 10, 10]" 2 10 9] by simp

text \<open>The factor two is reached.\<close>

lemma rl_burst_bound_tight:
  "hits 9 19 (fst (rl_run [9, 9, 9, 10, 10, 10] (new_limiter 2 10 0))) = 4"
  by (simp add: rl_allow_def new_limiter_def Let_def)

end
