(* ===== verification/Http_Api.thy ===== *)
theory Http_Api
  imports Grotto_Text Rate_Limiter
begin

text \<open>
  The HTTP library \<open>grotto-chat-server-api\<close>: requests, responses, the router with its regular expressions,
  the middleware chain, and the server with its connections.  A handler works on a world of the
  application's own.  What the library takes from Boost.Beast and \<open>nlohmann::json\<close> is a record of
  parameters.  Times are nanoseconds of the steady clock; log lines are left out.
\<close>

subsection \<open>What the library calls\<close>

text \<open>
  \<open>hl_parse\<close> is \<open>json::parse\<close> (\<open>None\<close> where it throws), \<open>hl_dump\<close> is \<open>dump\<close> (\<open>None\<close> for text that is no UTF-8).
  \<open>hl_read old new\<close> is what \<open>http::async_read\<close> leaves in a message object that held \<open>old\<close> when \<open>new\<close> comes
  over the connection.  \<open>hl_need_eof\<close> tells whether a prepared response closes the connection.
\<close>

record http_msg =
  hm_method :: string
  hm_target :: string
  hm_fields :: "(string \<times> string) list"
  hm_body :: string

definition empty_msg :: http_msg where
  "empty_msg = \<lparr>hm_method = [], hm_target = [], hm_fields = [], hm_body = []\<rparr>"

record response =
  rs_status :: int
  rs_headers :: "(string \<times> string) list"
  rs_body :: string

record http_lib =
  hl_parse :: "string \<Rightarrow> json option"
  hl_dump :: "json \<Rightarrow> string option"
  hl_read :: "http_msg \<Rightarrow> http_msg \<Rightarrow> http_msg"
  hl_need_eof :: "response \<Rightarrow> bool"

subsection \<open>Methods and queries\<close>

datatype http_method = M_get | M_post | M_put | M_delete | M_patch | M_head | M_options | M_unknown

definition c_toupper :: "char \<Rightarrow> char" where
  "c_toupper c = (if c_islower c then char_of (code c - 32) else c)"

definition parse_method :: "string \<Rightarrow> http_method" where
  "parse_method s =
     (let m = map c_toupper s
      in if m = ''GET'' then M_get else if m = ''POST'' then M_post else if m = ''PUT'' then M_put
         else if m = ''DELETE'' then M_delete else if m = ''PATCH'' then M_patch
         else if m = ''HEAD'' then M_head else if m = ''OPTIONS'' then M_options else M_unknown)"

fun method_to_string :: "http_method \<Rightarrow> string" where
  "method_to_string M_get = ''GET''"
| "method_to_string M_post = ''POST''"
| "method_to_string M_put = ''PUT''"
| "method_to_string M_delete = ''DELETE''"
| "method_to_string M_patch = ''PATCH''"
| "method_to_string M_head = ''HEAD''"
| "method_to_string M_options = ''OPTIONS''"
| "method_to_string M_unknown = ''UNKNOWN''"

definition before :: "char \<Rightarrow> string \<Rightarrow> string" where
  "before c s = takeWhile (\<lambda>x. x \<noteq> c) s"

definition from_char :: "char \<Rightarrow> string \<Rightarrow> string" where
  "from_char c s = dropWhile (\<lambda>x. x \<noteq> c) s"

definition query_entry :: "string \<Rightarrow> (string \<times> string) list \<Rightarrow> (string \<times> string) list" where
  "query_entry part m =
     (case from_char (CHR ''='') part of
        _ # v \<Rightarrow> mput (before (CHR ''='') part) v m
      | [] \<Rightarrow> if part \<noteq> [] then mput part [] m else m)"

function parse_query_from :: "string \<Rightarrow> (string \<times> string) list \<Rightarrow> (string \<times> string) list" where
  "parse_query_from q m =
     (if q = [] then m
      else case from_char (CHR ''&'') q of
             [] \<Rightarrow> query_entry (before (CHR ''&'') q) m
           | _ # rest \<Rightarrow> parse_query_from rest (query_entry (before (CHR ''&'') q) m))"
  by pat_completeness auto
termination
proof (relation "measure (\<lambda>(q, m). length q)", simp)
  fix q :: string and m :: "(string \<times> string) list" and c rest
  assume "from_char (CHR ''&'') q = c # rest"
  then have "length (c # rest) \<le> length q" by (metis from_char_def length_dropWhile_le)
  then show "((rest, query_entry (before (CHR ''&'') q) m), (q, m)) \<in> measure (\<lambda>(q, m). length q)" by simp
qed

declare parse_query_from.simps [simp del]

definition parse_query :: "string \<Rightarrow> (string \<times> string) list" where
  "parse_query q = parse_query_from q []"

subsection \<open>Requests\<close>

record request =
  rq_method :: http_method
  rq_path :: string
  rq_body :: string
  rq_remote :: string
  rq_query :: "(string \<times> string) list"
  rq_headers :: "(string \<times> string) list"

definition target_path :: "request \<Rightarrow> string" where
  "target_path rq = before (CHR ''?'') (rq_path rq)"

definition query_string :: "request \<Rightarrow> string" where
  "query_string rq = tl (from_char (CHR ''?'') (rq_path rq))"

definition new_request :: "http_msg \<Rightarrow> string \<Rightarrow> request" where
  "new_request m remote =
     \<lparr>rq_method = parse_method (hm_method m), rq_path = hm_target m, rq_body = hm_body m, rq_remote = remote,
      rq_query = (case from_char (CHR ''?'') (hm_target m) of [] \<Rightarrow> [] | _ # q \<Rightarrow> parse_query q),
      rq_headers = foldl (\<lambda>h (k, v). mput k v h) [] (hm_fields m)\<rparr>"

definition query_param :: "request \<Rightarrow> string \<Rightarrow> string option" where
  "query_param rq k = map_of (rq_query rq) k"

definition rq_header :: "request \<Rightarrow> string \<Rightarrow> string option" where
  "rq_header rq k = map_of (rq_headers rq) k"

definition json_body :: "http_lib \<Rightarrow> request \<Rightarrow> json option" where
  "json_body lib rq = hl_parse lib (rq_body rq)"

definition has_json_body :: "http_lib \<Rightarrow> request \<Rightarrow> bool" where
  "has_json_body lib rq \<longleftrightarrow> hl_parse lib (rq_body rq) \<noteq> None"

definition bearer_token :: "request \<Rightarrow> string option" where
  "bearer_token rq =
     (case rq_header rq ''Authorization'' of
        None \<Rightarrow> None
      | Some auth \<Rightarrow> if length auth > 7 \<and> starts_with ''Bearer '' auth then Some (drop 7 auth) else None)"

subsection \<open>Responses\<close>

definition new_response :: response where
  "new_response = \<lparr>rs_status = 200, rs_headers = [], rs_body = []\<rparr>"

definition rs_header :: "string \<Rightarrow> string \<Rightarrow> response \<Rightarrow> response" where
  "rs_header k v rs = rs\<lparr>rs_headers := mput k v (rs_headers rs)\<rparr>"

definition rs_json :: "http_lib \<Rightarrow> json \<Rightarrow> response \<Rightarrow> response option" where
  "rs_json lib j rs = map_option (\<lambda>b. rs_header ''Content-Type'' ''application/json'' (rs\<lparr>rs_body := b\<rparr>)) (hl_dump lib j)"

definition respond :: "http_lib \<Rightarrow> int \<Rightarrow> json \<Rightarrow> response option" where
  "respond lib c j = rs_json lib j (new_response\<lparr>rs_status := c\<rparr>)"

definition success_doc :: "json \<Rightarrow> json" where
  "success_doc data = J_object [(''success'', J_bool True), (''data'', data)]"

definition error_doc :: "string \<Rightarrow> string \<Rightarrow> json" where
  "error_doc c msg = J_object [(''success'', J_bool False),
     (''error'', J_object [(''code'', J_string c), (''message'', J_string msg)])]"

definition response_ok :: "http_lib \<Rightarrow> json \<Rightarrow> response option" where
  "response_ok lib data = respond lib 200 (success_doc data)"

definition response_created :: "http_lib \<Rightarrow> json \<Rightarrow> response option" where
  "response_created lib data = respond lib 201 (success_doc data)"

definition no_content :: response where
  "no_content = new_response\<lparr>rs_status := 204\<rparr>"

definition bad_request :: "http_lib \<Rightarrow> string \<Rightarrow> response option" where
  "bad_request lib msg = respond lib 400 (error_doc ''BAD_REQUEST'' msg)"

definition unauthorized :: "http_lib \<Rightarrow> string \<Rightarrow> response option" where
  "unauthorized lib msg = respond lib 401 (error_doc ''UNAUTHORIZED'' msg)"

definition not_found :: "http_lib \<Rightarrow> string \<Rightarrow> response option" where
  "not_found lib msg = respond lib 404 (error_doc ''NOT_FOUND'' msg)"

definition error_response :: "http_lib \<Rightarrow> string \<Rightarrow> int \<Rightarrow> response option" where
  "error_response lib msg c = respond lib c (error_doc ''ERROR'' msg)"

subsection \<open>Routes\<close>

text \<open>
  A pattern becomes the text of a regular expression, each placeholder a group \<open>([^/]+)\<close>.  Of the
  expressions ECMAScript knows the compiler takes those the patterns of the code need: characters
  that stand for themselves, the dot, and the group; the others are \<open>None\<close>.
\<close>

function route_regex :: "string \<Rightarrow> string \<times> string list" where
  "route_regex p =
     (case from_char (CHR ''{'') p of
        [] \<Rightarrow> (p, [])
      | _ # r \<Rightarrow> (case from_char (CHR ''}'') r of
            [] \<Rightarrow> (p, [])
          | _ # r' \<Rightarrow> (let (s, ns) = route_regex r'
                      in (before (CHR ''{'') p @ ''([^/]+)'' @ s, before (CHR ''}'') r # ns))))"
  by pat_completeness auto
termination
proof (relation "measure length", simp)
  fix p :: string and c r c' r'
  assume "from_char (CHR ''{'') p = c # r" and "from_char (CHR ''}'') r = c' # r'"
  then have "length (c # r) \<le> length p" and "length (c' # r') \<le> length r"
    by (metis from_char_def length_dropWhile_le)+
  then show "(r', p) \<in> measure length" by simp
qed

declare route_regex.simps [simp del]

definition parse_route_pattern :: "string \<Rightarrow> string \<times> string list" where
  "parse_route_pattern p = (let (s, ns) = route_regex p in (''^'' @ s @ ''$'', ns))"

datatype rx = Rx_char char | Rx_any | Rx_segment

definition regex_special :: "char \<Rightarrow> bool" where
  "regex_special c \<longleftrightarrow> c \<in> set ''^$*+?()[]{}|'' \<or> c = CHR 0x5C"

fun compile_rx :: "string \<Rightarrow> rx list option" where
  "compile_rx [] = Some []"
| "compile_rx (c # s) =
     (if starts_with ''([^/]+)'' (c # s) then map_option ((#) Rx_segment) (compile_rx (drop 6 s))
      else if regex_special c then None
      else if c = CHR ''.'' then map_option ((#) Rx_any) (compile_rx s)
      else map_option ((#) (Rx_char c)) (compile_rx s))"

definition compile_route :: "string \<Rightarrow> rx list option" where
  "compile_route s =
     (if starts_with ''^'' s \<and> ends_with ''$'' s \<and> 2 \<le> length s then compile_rx (butlast (tl s)) else None)"

text \<open>
  \<open>std::regex_match\<close> with its captures.  A group takes as many characters as it can and gives them back
  one at a time when the rest does not match.
\<close>

fun first_some :: "(nat \<Rightarrow> 'a option) \<Rightarrow> nat \<Rightarrow> 'a option" where
  "first_some f 0 = None"
| "first_some f (Suc n) = (case f (Suc n) of None \<Rightarrow> first_some f n | Some x \<Rightarrow> Some x)"

primrec rx_match :: "rx list \<Rightarrow> string \<Rightarrow> string list option" where
  "rx_match [] s = (if s = [] then Some [] else None)"
| "rx_match (t # r) s =
     (case t of
        Rx_char c \<Rightarrow> (case s of [] \<Rightarrow> None | x # s' \<Rightarrow> if x = c then rx_match r s' else None)
      | Rx_any \<Rightarrow> (case s of [] \<Rightarrow> None | x # s' \<Rightarrow> if code x = 10 \<or> code x = 13 then None else rx_match r s')
      | Rx_segment \<Rightarrow> first_some (\<lambda>n. map_option ((#) (take n s)) (rx_match r (drop n s))) (length (before (CHR ''/'') s)))"

type_synonym 'w handler = "request \<Rightarrow> 'w \<Rightarrow> response option \<times> 'w"

record 'w route =
  rt_method :: http_method
  rt_path :: string
  rt_rx :: "rx list"
  rt_params :: "string list"
  rt_handler :: "'w handler"

text \<open>Adding a route; \<open>None\<close> if the expression is outside those the compiler takes.\<close>

definition add_route :: "http_method \<Rightarrow> string \<Rightarrow> 'w handler \<Rightarrow> 'w route list \<Rightarrow> 'w route list option" where
  "add_route m path h rs =
     (let (s, ns) = parse_route_pattern path
      in map_option (\<lambda>rx. rs @ [\<lparr>rt_method = m, rt_path = path, rt_rx = rx, rt_params = ns, rt_handler = h\<rparr>])
           (compile_route s))"

definition bind_params :: "string list \<Rightarrow> string list \<Rightarrow> (string \<times> string) list" where
  "bind_params ns vs = foldl (\<lambda>m (k, v). mput k v m) [] (zip ns vs)"

fun route_match :: "'w route list \<Rightarrow> http_method \<Rightarrow> string \<Rightarrow> ('w handler \<times> (string \<times> string) list) option" where
  "route_match [] m path = None"
| "route_match (r # rs) m path =
     (if rt_method r \<noteq> m then route_match rs m path
      else case rx_match (rt_rx r) path of
             Some vs \<Rightarrow> Some (rt_handler r, bind_params (rt_params r) vs)
           | None \<Rightarrow> route_match rs m path)"

subsection \<open>Middleware\<close>

text \<open>The functions of the middleware with the state their closures keep.\<close>

record api_client =
  ac_count :: int
  ac_window_start :: int
  ac_last_access :: int

record api_limiter =
  al_clients :: "(string \<times> api_client) list"
  al_last_cleanup :: int

definition new_api_limiter :: "int \<Rightarrow> api_limiter" where
  "new_api_limiter now = \<lparr>al_clients = [], al_last_cleanup = now\<rparr>"

definition minute :: int where
  "minute = 60 * 10 ^ 9"

definition limiter_cleanup :: "int \<Rightarrow> api_limiter \<Rightarrow> api_limiter" where
  "limiter_cleanup now l =
     (if now - al_last_cleanup l \<ge> 10 * minute
      then \<lparr>al_clients = filter (\<lambda>(a, c). \<not> now - ac_last_access c \<ge> 10 * minute) (al_clients l), al_last_cleanup = now\<rparr>
      else l)"

text \<open>The index of the map makes a fresh entry; the whole minutes that have passed decide on a new window.\<close>

definition limiter_step :: "int \<Rightarrow> int \<Rightarrow> string \<Rightarrow> api_limiter \<Rightarrow> bool \<times> api_limiter" where
  "limiter_step limit now addr l =
     (let l = limiter_cleanup now l;
          c = (case map_of (al_clients l) addr of
                 None \<Rightarrow> \<lparr>ac_count = 0, ac_window_start = 0, ac_last_access = 0\<rparr> | Some c \<Rightarrow> c);
          c = (if ac_window_start c = 0 then c\<lparr>ac_window_start := now\<rparr> else c);
          c = c\<lparr>ac_last_access := now\<rparr>;
          c = (if (now - ac_window_start c) div minute \<ge> 1 then c\<lparr>ac_count := 0, ac_window_start := now\<rparr> else c);
          ok = (ac_count c < limit);
          c = (if ok then c\<lparr>ac_count := ac_count c + 1\<rparr> else c)
      in (ok, l\<lparr>al_clients := mput addr c (al_clients l)\<rparr>))"

datatype middleware =
    Mw_cors string
  | Mw_rate_limit int api_limiter
  | Mw_api_key "string list"
  | Mw_logger
  | Mw_require_json

definition refusal_doc :: "string \<Rightarrow> json" where
  "refusal_doc msg = J_object [(''success'', J_bool False), (''error'', J_string msg)]"

definition refuse :: "http_lib \<Rightarrow> int \<Rightarrow> string \<Rightarrow> response \<Rightarrow> (bool \<times> response) option" where
  "refuse lib c msg rs = map_option (Pair False) (rs_json lib (refusal_doc msg) (rs\<lparr>rs_status := c\<rparr>))"

definition cors_headers :: "string \<Rightarrow> response \<Rightarrow> response" where
  "cors_headers origin rs =
     rs_header ''Access-Control-Allow-Headers'' ''Authorization, Content-Type''
       (rs_header ''Access-Control-Allow-Methods'' ''GET, POST, PUT, DELETE, PATCH, OPTIONS''
         (rs_header ''Access-Control-Allow-Origin'' origin rs))"

definition cors :: "string \<Rightarrow> request \<Rightarrow> response \<Rightarrow> bool \<times> response" where
  "cors origin rq rs =
     (let rs = cors_headers origin rs
      in if rq_method rq = M_options then (False, rs\<lparr>rs_status := 204\<rparr>) else (True, rs))"

definition api_key_auth :: "http_lib \<Rightarrow> string list \<Rightarrow> request \<Rightarrow> response \<Rightarrow> (bool \<times> response) option" where
  "api_key_auth lib keys rq rs =
     (case bearer_token rq of
        Some t \<Rightarrow> if t \<in> set keys then Some (True, rs) else refuse lib 401 ''Invalid or missing API key'' rs
      | None \<Rightarrow> refuse lib 401 ''Invalid or missing API key'' rs)"

definition require_json :: "http_lib \<Rightarrow> request \<Rightarrow> response \<Rightarrow> (bool \<times> response) option" where
  "require_json lib rq rs =
     (case rq_header rq ''Content-Type'' of
        Some t \<Rightarrow> if str_contains ''application/json'' t then Some (True, rs)
                  else refuse lib 400 ''Content-Type must be application/json'' rs
      | None \<Rightarrow> refuse lib 400 ''Content-Type must be application/json'' rs)"

text \<open>One call of a function of the chain: \<open>None\<close> is an exception.\<close>

fun mw_apply :: "http_lib \<Rightarrow> int \<Rightarrow> request \<Rightarrow> middleware \<Rightarrow> response \<Rightarrow> (bool \<times> response) option \<times> middleware" where
  "mw_apply lib now rq (Mw_cors origin) rs = (Some (cors origin rq rs), Mw_cors origin)"
| "mw_apply lib now rq (Mw_rate_limit limit l) rs =
     (let (ok, l') = limiter_step limit now (rq_remote rq) l
      in (if ok then Some (True, rs) else refuse lib 429 ''Rate limit exceeded'' rs, Mw_rate_limit limit l'))"
| "mw_apply lib now rq (Mw_api_key keys) rs = (api_key_auth lib keys rq rs, Mw_api_key keys)"
| "mw_apply lib now rq Mw_logger rs = (Some (True, rs), Mw_logger)"
| "mw_apply lib now rq Mw_require_json rs = (require_json lib rq rs, Mw_require_json)"

fun chain_process ::
  "http_lib \<Rightarrow> int \<Rightarrow> request \<Rightarrow> middleware list \<Rightarrow> response \<Rightarrow> (bool \<times> response) option \<times> middleware list" where
  "chain_process lib now rq [] rs = (Some (True, rs), [])"
| "chain_process lib now rq (m # ms) rs =
     (case mw_apply lib now rq m rs of
        (Some (True, rs'), m') \<Rightarrow> (let (r, ms') = chain_process lib now rq ms rs' in (r, m' # ms'))
      | (r, m') \<Rightarrow> (r, m' # ms))"

subsection \<open>Cutting at a character\<close>

lemma before_simps [simp]: "before c [] = []" "before c (x # s) = (if x = c then [] else x # before c s)"
  by (simp_all add: before_def)

lemma from_char_simps [simp]: "from_char c [] = []" "from_char c (x # s) = (if x = c then x # s else from_char c s)"
  by (simp_all add: from_char_def)

lemma before_append [simp]: "c \<notin> set a \<Longrightarrow> before c (a @ c # b) = a"
  by (induction a) auto

lemma from_char_append [simp]: "c \<notin> set a \<Longrightarrow> from_char c (a @ c # b) = c # b"
  by (induction a) auto

lemma before_none [simp]: "c \<notin> set a \<Longrightarrow> before c a = a"
  by (induction a) auto

lemma from_char_none [simp]: "c \<notin> set a \<Longrightarrow> from_char c a = []"
  by (induction a) auto

subsection \<open>Queries read back\<close>

definition query_text :: "(string \<times> string) list \<Rightarrow> string" where
  "query_text kvs = join_with ''&'' (map (\<lambda>(k, v). k @ ''='' @ v) kvs)"

definition query_ok :: "string \<times> string \<Rightarrow> bool" where
  "query_ok kv \<longleftrightarrow> CHR ''='' \<notin> set (fst kv) \<and> CHR ''&'' \<notin> set (fst kv) \<and> CHR ''&'' \<notin> set (snd kv)"

lemma query_entry_pair: "query_ok (k, v) \<Longrightarrow> query_entry (k @ ''='' @ v) m = mput k v m"
  by (simp add: query_entry_def query_ok_def)

lemma parse_query_from_text:
  "\<forall>kv \<in> set kvs. query_ok kv \<Longrightarrow>
     parse_query_from (query_text kvs) m = foldl (\<lambda>m (k, v). mput k v m) m kvs"
proof (induction kvs arbitrary: m)
  case Nil
  then show ?case by (simp add: query_text_def parse_query_from.simps)
next
  case (Cons kv kvs)
  obtain k v where kv: "kv = (k, v)" by (cases kv)
  let ?p = "k @ ''='' @ v"
  have ok: "query_ok (k, v)" using Cons.prems kv by simp
  then have amp: "CHR ''&'' \<notin> set ?p" by (simp add: query_ok_def)
  show ?case
  proof (cases kvs)
    case Nil
    have "query_text (kv # kvs) = ?p" by (simp add: query_text_def kv Nil)
    moreover have "parse_query_from ?p m = query_entry ?p m"
      using from_char_none [OF amp] before_none [OF amp] by (subst parse_query_from.simps) (simp only: list.case, simp)
    ultimately show ?thesis using query_entry_pair [OF ok] Nil kv by simp
  next
    case (Cons kv' kvs')
    have "query_text (kv # kvs) = ?p @ CHR ''&'' # query_text kvs"
      by (simp add: query_text_def kv Cons split_def)
    then show ?thesis
      using amp Cons.IH [of "mput k v m"] Cons.prems
      by (simp add: parse_query_from.simps [of "?p @ CHR ''&'' # query_text kvs", simplified] kv
            query_entry_pair [OF ok, simplified]
            before_append [of "CHR ''&''" ?p "query_text kvs", simplified]
            from_char_append [of "CHR ''&''" ?p "query_text kvs", simplified])
  qed
qed

lemma foldl_mput_distinct:
  "distinct (map fst kvs) \<Longrightarrow> map_of (foldl (\<lambda>m (k, v). mput k v m) m kvs) = map_of m ++ map_of kvs"
proof (induction kvs arbitrary: m)
  case (Cons kv kvs)
  obtain k v where kv: "kv = (k, v)" by (cases kv)
  have "k \<notin> dom (map_of kvs)" using Cons.prems kv by (simp add: dom_map_of_conv_image_fst)
  then have "(map_of m)(k \<mapsto> v) ++ map_of kvs = (map_of m ++ map_of kvs)(k \<mapsto> v)"
    by (rule map_add_upd_left)
  then show ?case using Cons kv by (simp del: fun_upd_apply)
qed simp

theorem parse_query_text:
  assumes "\<forall>kv \<in> set kvs. query_ok kv" and "distinct (map fst kvs)"
  shows "map_of (parse_query (query_text kvs)) = map_of kvs"
  using assms by (simp add: parse_query_def parse_query_from_text foldl_mput_distinct)

subsection \<open>Routes read back\<close>

text \<open>
  A pattern as its parts, and the path that values for its placeholders give.  The parts are separated if
  every placeholder is the end or is followed by a slash.
\<close>

datatype part = P_lit string | P_par string

fun pattern_text :: "part list \<Rightarrow> string" where
  "pattern_text [] = []"
| "pattern_text (P_lit l # ps) = l @ pattern_text ps"
| "pattern_text (P_par n # ps) = ''{'' @ n @ ''}'' @ pattern_text ps"

fun path_text :: "part list \<Rightarrow> string list \<Rightarrow> string" where
  "path_text [] vs = []"
| "path_text (P_lit l # ps) vs = l @ path_text ps vs"
| "path_text (P_par n # ps) vs = hd vs @ path_text ps (tl vs)"

fun part_names :: "part list \<Rightarrow> string list" where
  "part_names [] = []"
| "part_names (P_lit l # ps) = part_names ps"
| "part_names (P_par n # ps) = n # part_names ps"

fun part_tokens :: "part list \<Rightarrow> rx list" where
  "part_tokens [] = []"
| "part_tokens (P_lit l # ps) = map Rx_char l @ part_tokens ps"
| "part_tokens (P_par n # ps) = Rx_segment # part_tokens ps"

definition plain_char :: "char \<Rightarrow> bool" where
  "plain_char c \<longleftrightarrow> \<not> regex_special c \<and> c \<noteq> CHR ''.''"

fun pattern_ok :: "part list \<Rightarrow> bool" where
  "pattern_ok [] \<longleftrightarrow> True"
| "pattern_ok (P_lit l # ps) \<longleftrightarrow> (\<forall>c \<in> set l. plain_char c) \<and> pattern_ok ps"
| "pattern_ok (P_par n # ps) \<longleftrightarrow> CHR ''}'' \<notin> set n \<and> pattern_ok ps \<and>
     (case ps of [] \<Rightarrow> True | P_lit (c # l) # _ \<Rightarrow> c = CHR ''/'' | _ \<Rightarrow> False)"

definition segment_ok :: "string \<Rightarrow> bool" where
  "segment_ok v \<longleftrightarrow> v \<noteq> [] \<and> CHR ''/'' \<notin> set v"

lemma route_regex_lit:
  "CHR ''{'' \<notin> set l \<Longrightarrow> route_regex (l @ p) = (l @ fst (route_regex p), snd (route_regex p))"
proof (induction l arbitrary: p)
  case (Cons c l)
  let ?q = "l @ p"
  have c: "c \<noteq> CHR ''{''" using Cons.prems by auto
  have "route_regex (c # ?q) = (c # fst (route_regex ?q), snd (route_regex ?q))"
  proof (cases "from_char (CHR ''{'') ?q")
    case Nil
    then show ?thesis using c by (simp add: route_regex.simps [of "c # ?q"] route_regex.simps [of ?q])
  next
    case (Cons b r)
    then show ?thesis using c
      by (cases "from_char (CHR ''}'') r")
        (simp_all add: route_regex.simps [of "c # ?q"] route_regex.simps [of ?q] split_def Let_def)
  qed
  then show ?case using Cons by simp
qed simp

lemma route_regex_par:
  "CHR ''}'' \<notin> set n \<Longrightarrow>
     route_regex (''{'' @ n @ ''}'' @ p) = (''([^/]+)'' @ fst (route_regex p), n # snd (route_regex p))"
  by (subst route_regex.simps) (simp add: split_def Let_def)

lemma plain_brace: "plain_char c \<Longrightarrow> c \<noteq> CHR ''{''" "plain_char c \<Longrightarrow> c \<noteq> CHR ''(''"
  by (auto simp: plain_char_def regex_special_def)

lemma compile_rx_lit:
  "\<forall>c \<in> set l. plain_char c \<Longrightarrow> compile_rx (l @ s) = map_option ((@) (map Rx_char l)) (compile_rx s)"
proof (induction l)
  case Nil
  then show ?case by (cases "compile_rx s") simp_all
next
  case (Cons c l)
  then have "\<not> starts_with ''([^/]+)'' (c # l @ s)" by (auto simp: starts_with_def plain_brace)
  then show ?case using Cons by (cases "compile_rx s") (simp_all add: plain_char_def)
qed

lemma compile_rx_par: "compile_rx (''([^/]+)'' @ s) = map_option ((#) Rx_segment) (compile_rx s)"
  by (simp add: starts_with_def)

lemma pattern_compiles:
  "pattern_ok ps \<Longrightarrow> compile_rx (fst (route_regex (pattern_text ps))) = Some (part_tokens ps) \<and>
     snd (route_regex (pattern_text ps)) = part_names ps"
proof (induction ps rule: part_tokens.induct)
  case 1
  then show ?case by (simp add: route_regex.simps)
next
  case (2 l ps)
  then have "CHR ''{'' \<notin> set l" using plain_brace(1) by auto
  then show ?case using 2 by (simp add: route_regex_lit compile_rx_lit)
next
  case (3 n ps)
  then show ?case
    using route_regex_par [of n "pattern_text ps"] compile_rx_par [of "fst (route_regex (pattern_text ps))"]
    by simp
qed

lemma first_some_at: "f n = Some x \<Longrightarrow> 0 < n \<Longrightarrow> first_some f n = Some x"
  by (cases n) simp_all

lemma rx_match_lit: "rx_match (map Rx_char l @ r) (l @ s) = rx_match r s"
  by (induction l) simp_all

lemma rx_match_path:
  "pattern_ok ps \<Longrightarrow> \<forall>v \<in> set vs. segment_ok v \<Longrightarrow> length vs = length (part_names ps) \<Longrightarrow>
     rx_match (part_tokens ps) (path_text ps vs) = Some vs"
proof (induction ps arbitrary: vs rule: part_tokens.induct)
  case (3 n ps)
  then obtain v vs' where vs: "vs = v # vs'" by (cases vs) simp_all
  have v: "v \<noteq> []" "CHR ''/'' \<notin> set v" using "3.prems"(2) by (auto simp: vs segment_ok_def)
  have seg: "before (CHR ''/'') (v @ path_text ps vs') = v"
  proof (cases ps)
    case (Cons p ps')
    then obtain l where "p = P_lit (CHR ''/'' # l)"
      using "3.prems"(1) by (cases p) (auto split: list.splits)
    then show ?thesis using v Cons by simp
  qed (simp add: v)
  have "rx_match (part_tokens ps) (path_text ps vs') = Some vs'"
    using 3 by (simp add: vs)
  then show ?case using v by (simp add: vs seg first_some_at)
qed (simp_all add: rx_match_lit)

text \<open>A route registered last, with no earlier one that takes the path, gets the values of its placeholders.\<close>

lemma compile_route_text: "compile_route (''^'' @ s @ ''$'') = compile_rx s"
  by (simp add: compile_route_def starts_with_def ends_with_def butlast_append)

lemma route_match_append:
  "route_match (rs @ rs') m path =
     (case route_match rs m path of Some x \<Rightarrow> Some x | None \<Rightarrow> route_match rs' m path)"
  by (induction rs) (simp_all split: option.split)

theorem route_reads_path:
  assumes "pattern_ok ps" and "\<forall>v \<in> set vs. segment_ok v" and "length vs = length (part_names ps)"
    and "route_match rs m (path_text ps vs) = None"
  shows "\<exists>rs'. add_route m (pattern_text ps) h rs = Some rs' \<and>
     route_match rs' m (path_text ps vs) = Some (h, bind_params (part_names ps) vs)"
proof -
  have "compile_route (fst (parse_route_pattern (pattern_text ps))) = Some (part_tokens ps)"
    and "snd (parse_route_pattern (pattern_text ps)) = part_names ps"
    using pattern_compiles [OF assms(1)] compile_route_text [of "fst (route_regex (pattern_text ps))"]
    by (simp_all add: parse_route_pattern_def split_def Let_def)
  then show ?thesis
    using assms rx_match_path [OF assms(1-3)]
    by (simp add: add_route_def split_def Let_def route_match_append)
qed

text \<open>A dot in a pattern stands for any character.\<close>

lemma dot_matches_any:
  "map_option (\<lambda>rs. route_match rs M_get ''/v1x0'' \<noteq> None) (add_route M_get ''/v1.0'' h []) = Some True"
  by (simp add: add_route_def parse_route_pattern_def route_regex.simps compile_route_def code_def
        starts_with_def ends_with_def regex_special_def)

subsection \<open>The limiter of the middleware and the server's rate limiter\<close>

text \<open>
  The reference keeps a limiter of \<open>rate_limiter.hpp\<close> for every address, made at its first request, and never
  forgets one.  The middleware forgets the addresses that have been idle; their windows are over, so
  nothing changes.
\<close>

fun api_run :: "int \<Rightarrow> (int \<times> string) list \<Rightarrow> api_limiter \<Rightarrow> bool list" where
  "api_run limit [] l = []"
| "api_run limit ((t, a) # evs) l =
     (let (ok, l') = limiter_step limit t a l in ok # api_run limit evs l')"

definition limiter_of :: "int \<Rightarrow> int \<Rightarrow> string \<Rightarrow> (string \<rightharpoonup> rate_limiter) \<Rightarrow> rate_limiter" where
  "limiter_of limit t a m = (case m a of None \<Rightarrow> new_limiter limit minute t | Some r \<Rightarrow> r)"

fun remembering_run :: "int \<Rightarrow> (int \<times> string) list \<Rightarrow> (string \<rightharpoonup> rate_limiter) \<Rightarrow> bool list" where
  "remembering_run limit [] m = []"
| "remembering_run limit ((t, a) # evs) m =
     (let (ok, r) = rl_allow t (limiter_of limit t a m) in ok # remembering_run limit evs (m(a \<mapsto> r)))"

text \<open>What the two keep of an address at the time \<open>t\<close>.\<close>

definition same_client :: "int \<Rightarrow> int \<Rightarrow> api_client option \<Rightarrow> rate_limiter option \<Rightarrow> bool" where
  "same_client limit t c r \<longleftrightarrow>
     (case (c, r) of
        (Some c, Some r) \<Rightarrow> r = \<lparr>max_tokens = limit, window = minute, window_start = ac_window_start c, rl_count = ac_count c\<rparr> \<and>
          0 < ac_window_start c \<and> ac_window_start c \<le> ac_last_access c \<and> ac_last_access c \<le> t
      | (None, None) \<Rightarrow> True
      | (None, Some r) \<Rightarrow> max_tokens r = limit \<and> window r = minute \<and> window_start r + 10 * minute \<le> t
      | (Some c, None) \<Rightarrow> False)"

definition same_limits :: "int \<Rightarrow> int \<Rightarrow> api_limiter \<Rightarrow> (string \<rightharpoonup> rate_limiter) \<Rightarrow> bool" where
  "same_limits limit t l m \<longleftrightarrow> keys_distinct (al_clients l) \<and> (\<forall>a. same_client limit t (map_of (al_clients l) a) (m a))"

lemma minute_pos: "0 < minute"
  by (simp add: minute_def)

lemma same_client_later: "same_client limit t c r \<Longrightarrow> t \<le> t' \<Longrightarrow> same_client limit t' c r"
  by (auto simp: same_client_def split: option.splits)

lemma same_client_forget:
  "same_client limit t (Some c) r \<Longrightarrow> t \<le> t' \<Longrightarrow> 10 * minute \<le> t' - ac_last_access c \<Longrightarrow> same_client limit t' None r"
  by (auto simp: same_client_def split: option.splits)

lemma cleanup_same:
  assumes "same_limits limit t l m" and "t \<le> t'"
  shows "same_limits limit t' (limiter_cleanup t' l) m"
proof (cases "t' - al_last_cleanup l \<ge> 10 * minute")
  case True
  have d: "keys_distinct (al_clients l)" using assms(1) by (simp add: same_limits_def)
  have "same_client limit t' (map_of (al_clients (limiter_cleanup t' l)) a) (m a)" for a
  proof -
    have s: "same_client limit t (map_of (al_clients l) a) (m a)" using assms(1) by (simp add: same_limits_def)
    show ?thesis
      using s True same_client_later [OF s assms(2)] same_client_forget [of limit t _ "m a", OF _ assms(2)]
      by (cases "map_of (al_clients l) a") (simp_all add: limiter_cleanup_def map_of_filter_entry [OF d])
  qed
  then show ?thesis using True d by (simp add: same_limits_def limiter_cleanup_def distinct_map_filter)
next
  case False
  then show ?thesis using assms by (auto simp: same_limits_def limiter_cleanup_def intro: same_client_later)
qed

lemma whole_minutes: "(1 \<le> d div minute) = (minute \<le> d)"
  by (simp add: minute_def pos_imp_zdiv_pos_iff flip: zdiv_numeral_Bit0) arith

definition client_at :: "int \<Rightarrow> api_client option \<Rightarrow> api_client" where
  "client_at t c = (case c of None \<Rightarrow> \<lparr>ac_count = 0, ac_window_start = t, ac_last_access = t\<rparr>
     | Some c \<Rightarrow> if t - ac_window_start c \<ge> minute then \<lparr>ac_count = 0, ac_window_start = t, ac_last_access = t\<rparr>
                 else c\<lparr>ac_last_access := t\<rparr>)"

lemma api_client_upd:
  "ac_count c = ac_count d \<Longrightarrow> ac_window_start c = ac_window_start d \<Longrightarrow> ac_last_access c = ac_last_access d \<Longrightarrow>
     (l :: api_limiter)\<lparr>al_clients := mput a c m\<rparr> = l\<lparr>al_clients := mput a d m\<rparr>"
  by (cases c; cases d) simp

lemma limiter_step_client:
  assumes "same_limits limit t' l m" and "t' \<le> t" and "0 < t"
  shows "limiter_step limit t a l =
     (let l = limiter_cleanup t l; c = client_at t (map_of (al_clients l) a); ok = (ac_count c < limit)
      in (ok, l\<lparr>al_clients := mput a (if ok then c\<lparr>ac_count := ac_count c + 1\<rparr> else c) (al_clients l)\<rparr>))"
proof -
  let ?l = "limiter_cleanup t l"
  have "same_client limit t (map_of (al_clients ?l) a) (m a)"
    using cleanup_same [OF assms(1,2)] by (simp add: same_limits_def)
  then have "ac_window_start c \<noteq> 0" if "map_of (al_clients ?l) a = Some c" for c
    using that by (auto simp: same_client_def split: option.splits)
  then show ?thesis
    using assms(3) minute_pos
    by (cases "map_of (al_clients ?l) a")
      (auto simp: limiter_step_def client_at_def Let_def whole_minutes intro!: api_client_upd)
qed

lemma step_same:
  assumes "same_limits limit t' l m" and "t' \<le> t" and "0 < t"
  shows "fst (limiter_step limit t a l) = fst (rl_allow t (limiter_of limit t a m))"
    and "same_limits limit t (snd (limiter_step limit t a l)) (m(a \<mapsto> snd (rl_allow t (limiter_of limit t a m))))"
proof -
  let ?l = "limiter_cleanup t l"
  let ?c = "client_at t (map_of (al_clients ?l) a)"
  let ?r = "rl_allow t (limiter_of limit t a m)"
  have s: "same_limits limit t ?l m" by (rule cleanup_same [OF assms(1,2)])
  then have c: "same_client limit t (map_of (al_clients ?l) a) (m a)" by (simp add: same_limits_def)
  have "fst ?r = (ac_count ?c < limit) \<and>
     same_client limit t (Some (if ac_count ?c < limit then ?c\<lparr>ac_count := ac_count ?c + 1\<rparr> else ?c)) (Some (snd ?r))"
    using c assms(3) minute_pos
    by (cases "map_of (al_clients ?l) a"; cases "m a")
      (auto simp: same_client_def client_at_def limiter_of_def rl_allow_cases new_limiter_def)
  then show "fst (limiter_step limit t a l) = fst ?r"
    and "same_limits limit t (snd (limiter_step limit t a l)) (m(a \<mapsto> snd ?r))"
    using s by (simp_all add: limiter_step_client [OF assms] Let_def same_limits_def split: if_splits)
qed

lemma runs_agree:
  "same_limits limit t l m \<Longrightarrow> sorted (t # map fst evs) \<Longrightarrow> 0 < t \<Longrightarrow>
     api_run limit evs l = remembering_run limit evs m"
proof (induction evs arbitrary: t l m)
  case (Cons e evs)
  obtain t' a where e: "e = (t', a)" by (cases e)
  have "t \<le> t'" "0 < t'" "sorted (t' # map fst evs)" using Cons.prems e by auto
  then show ?case
    using Cons.IH [of t' "snd (limiter_step limit t' a l)" "m(a \<mapsto> snd (rl_allow t' (limiter_of limit t' a m)))"]
      step_same [OF Cons.prems(1), of t' a]
    by (simp add: e split_def Let_def del: fun_upd_apply)
qed simp

lemma runs_start_same: "same_limits limit t (new_api_limiter t) (\<lambda>_. None)"
  by (simp add: same_limits_def new_api_limiter_def same_client_def)

subsection \<open>What one address is admitted\<close>

definition admitted :: "string \<Rightarrow> (int \<times> string) list \<Rightarrow> bool list \<Rightarrow> int list" where
  "admitted a evs oks = map (fst \<circ> fst) (filter (\<lambda>((t, b), ok). b = a \<and> ok) (zip evs oks))"

lemma admitted_Cons [simp]:
  "admitted a ((t, b) # evs) (ok # oks) = (if b = a \<and> ok then [t] else []) @ admitted a evs oks"
  by (simp add: admitted_def)

lemma admitted_Nil [simp]: "admitted a [] oks = []"
  by (simp add: admitted_def)

definition times_of :: "string \<Rightarrow> (int \<times> string) list \<Rightarrow> int list" where
  "times_of a evs = map fst (filter (\<lambda>(t, b). b = a) evs)"

lemma admitted_known:
  "m a = Some r \<Longrightarrow> admitted a evs (remembering_run limit evs m) = fst (rl_run (times_of a evs) r)"
proof (induction evs arbitrary: m r)
  case (Cons e evs)
  obtain t b where e: "e = (t, b)" by (cases e)
  show ?case
  proof (cases "b = a")
    case True
    then show ?thesis
      using Cons.prems Cons.IH [of "m(a \<mapsto> snd (rl_allow t r))" "snd (rl_allow t r)"]
      by (simp add: e times_of_def limiter_of_def split_def Let_def fun_upd_same fun_upd_other del: fun_upd_apply)
  next
    case False
    then show ?thesis
      using Cons.prems Cons.IH [of "m(b \<mapsto> snd (rl_allow t (limiter_of limit t b m)))" r]
      by (simp add: e times_of_def split_def Let_def fun_upd_same fun_upd_other del: fun_upd_apply)
  qed
qed (simp add: times_of_def)

lemma admitted_new:
  "m a = None \<Longrightarrow> admitted a evs (remembering_run limit evs m) =
     (case times_of a evs of [] \<Rightarrow> [] | t # ts \<Rightarrow> fst (rl_run (t # ts) (new_limiter limit minute t)))"
proof (induction evs arbitrary: m)
  case (Cons e evs)
  obtain t b where e: "e = (t, b)" by (cases e)
  show ?case
  proof (cases "b = a")
    case True
    then show ?thesis
      using Cons.prems
        admitted_known [of "m(a \<mapsto> snd (rl_allow t (new_limiter limit minute t)))" a _ evs limit]
      by (simp add: e times_of_def limiter_of_def split_def Let_def fun_upd_same fun_upd_other del: fun_upd_apply)
  next
    case False
    then show ?thesis
      using Cons.prems Cons.IH [of "m(b \<mapsto> snd (rl_allow t (limiter_of limit t b m)))"]
      by (simp add: e times_of_def split_def Let_def fun_upd_same fun_upd_other del: fun_upd_apply)
  qed
qed (simp add: times_of_def)

lemma sorted_times_of: "sorted (map fst evs) \<Longrightarrow> sorted (times_of a evs)"
  by (simp add: times_of_def sorted_filter)

lemma admitted_within_minute:
  assumes "sorted (map fst evs)" and "0 \<le> limit"
  shows "hits x (x + minute) (admitted a evs (remembering_run limit evs (\<lambda>_. None))) \<le> 2 * limit"
proof (cases "times_of a evs")
  case Nil
  then show ?thesis using assms(2) by (simp add: admitted_new)
next
  case (Cons t ts)
  then have "sorted (t # t # ts)" using sorted_times_of [OF assms(1), of a] by simp
  then show ?thesis
    using rl_run_window_bound [of "t # ts" "new_limiter limit minute t" x] assms(2) minute_pos
      rl_wf_new [of limit minute t] Cons
    by (simp add: admitted_new new_limiter_def del: rl_run_Cons)
qed

text \<open>
  C40: The middleware answers every sequence of requests as limiters of the server's own kind would that it keeps
  for ever, so in any interval of a minute it admits at most twice the limit of one address.
\<close>

theorem middleware_limits_like_server:
  assumes "sorted (t # map fst evs)" and "0 < t" and "0 \<le> limit"
  shows "api_run limit evs (new_api_limiter t) = remembering_run limit evs (\<lambda>_. None) \<and>
     hits x (x + minute) (admitted a evs (api_run limit evs (new_api_limiter t))) \<le> 2 * limit"
  using runs_agree [OF runs_start_same assms(1,2), of limit] admitted_within_minute [of evs limit x a] assms(1,3) by simp

theorem middleware_limits_like_server_witness:
  "api_run 1 [(1, ''a''), (2, ''a''), (3, ''b''), (10 ^ 12, ''a'')] (new_api_limiter 1) = [True, False, True, True] \<and>
   hits 0 (0 + minute) (admitted ''a'' [(1, ''a''), (2, ''a''), (3, ''b''), (10 ^ 12, ''a'')]
     (api_run 1 [(1, ''a''), (2, ''a''), (3, ''b''), (10 ^ 12, ''a'')] (new_api_limiter 1))) \<le> 2 * 1"
  using middleware_limits_like_server [of 1 "[(1, ''a''), (2, ''a''), (3, ''b''), (10 ^ 12, ''a'')]" 1 0 "''a''"]
  by (simp add: limiter_of_def new_limiter_def rl_allow_cases minute_def)

text \<open>The address holds the port, so a client that opens a connection for every request is never refused.\<close>

lemma new_addresses_not_refused:
  "distinct (map snd evs) \<Longrightarrow> \<forall>a \<in> snd ` set evs. m a = None \<Longrightarrow> 0 < limit \<Longrightarrow>
     remembering_run limit evs m = replicate (length evs) True"
proof (induction evs arbitrary: m)
  case (Cons e evs)
  obtain t a where e: "e = (t, a)" by (cases e)
  have "fst (rl_allow t (limiter_of limit t a m))"
    using Cons.prems by (simp add: e limiter_of_def new_limiter_def rl_allow_cases minute_def)
  moreover have "remembering_run limit evs (m(a \<mapsto> snd (rl_allow t (limiter_of limit t a m)))) = replicate (length evs) True"
    using Cons.prems by (intro Cons.IH) (auto simp: e)
  ultimately show ?case by (simp add: e split_def Let_def del: fun_upd_apply)
qed simp

lemma new_connections_are_not_limited:
  assumes "distinct (map snd evs)" and "sorted (t # map fst evs)" and "0 < t" and "0 < limit"
  shows "api_run limit evs (new_api_limiter t) = replicate (length evs) True"
  using runs_agree [OF runs_start_same assms(2,3), of limit] new_addresses_not_refused [OF assms(1) _ assms(4)] by simp

end
