(* ===== verification/File_Encryptor.thy ===== *)
theory File_Encryptor
  imports Grotto_Prelude
begin

text \<open>
  Encryption of files at rest, from \<open>grotto-chat-server/src/crypto/file_encryptor.cpp\<close>: the layout of
  the encrypted file and of the serialised data key, the hexadecimal master key, and the order in
  which keys are derived and checks made.  AES-256-GCM (one seal or open stands for the sequence of
  EVP calls, \<open>None\<close> for a failure of any of them), Argon2id and the random generator are OpenSSL's and
  libsodium's: parameters in the record \<open>crypto\<close>.  The EVP calls take an \<open>int\<close> length, so the model
  is for data below 2 GiB.
\<close>

record crypto =
  kdf :: "bytes \<Rightarrow> bytes \<Rightarrow> bytes option"
  gcm_seal :: "bytes \<Rightarrow> bytes \<Rightarrow> bytes \<Rightarrow> (bytes \<times> bytes) option"
  gcm_open :: "bytes \<Rightarrow> bytes \<Rightarrow> bytes \<Rightarrow> bytes \<Rightarrow> bytes option"
  rnd :: "nat \<Rightarrow> nat \<Rightarrow> bytes"

abbreviation MASTER_KEY_SIZE :: nat where "MASTER_KEY_SIZE \<equiv> 32"
abbreviation DEK_SIZE :: nat where "DEK_SIZE \<equiv> 32"
abbreviation IV_SIZE :: nat where "IV_SIZE \<equiv> 12"
abbreviation TAG_SIZE :: nat where "TAG_SIZE \<equiv> 16"
abbreviation SALT_SIZE :: nat where "SALT_SIZE \<equiv> 32"

record encrypted_header =
  eh_salt :: bytes
  eh_iv :: bytes
  eh_tag :: bytes
  eh_original_size :: nat
  eh_encrypted_size :: nat

record encrypted_key =
  ek_ciphertext :: bytes
  ek_iv :: bytes
  ek_tag :: bytes

subsection \<open>Hexadecimal keys\<close>

definition hex_digit :: "nat \<Rightarrow> char" where
  "hex_digit n = char_of (if n < 10 then 48 + n else 87 + n)"

definition bytes_to_hex :: "bytes \<Rightarrow> string" where
  "bytes_to_hex bs = concat (map (\<lambda>b. [hex_digit (unat b div 16), hex_digit (unat b mod 16)]) bs)"

definition hex_value :: "char \<Rightarrow> nat option" where
  "hex_value c =
     (if c_isdigit c then Some (code c - 48)
      else if 97 \<le> code c \<and> code c \<le> 102 then Some (code c - 87)
      else if 65 \<le> code c \<and> code c \<le> 70 then Some (code c - 55)
      else None)"

text \<open>
  \<open>std::stoi(s, nullptr, 16)\<close>: white space, a sign, an optional \<open>0x\<close>, then as many digits as there
  are; no digit at all is an exception.
\<close>

fun hex_digits :: "nat \<Rightarrow> string \<Rightarrow> nat" where
  "hex_digits acc [] = acc"
| "hex_digits acc (c # cs) = (case hex_value c of None \<Rightarrow> acc | Some v \<Rightarrow> hex_digits (16 * acc + v) cs)"

definition stoi_unsigned :: "string \<Rightarrow> nat option" where
  "stoi_unsigned s =
     (case s of
        c # x # d # r \<Rightarrow>
          if c = CHR ''0'' \<and> (x = CHR ''x'' \<or> x = CHR ''X'') \<and> hex_value d \<noteq> None
          then Some (hex_digits 0 (d # r))
          else if hex_value c \<noteq> None then Some (hex_digits 0 s) else None
      | c # _ \<Rightarrow> if hex_value c \<noteq> None then Some (hex_digits 0 s) else None
      | [] \<Rightarrow> None)"

definition stoi16 :: "string \<Rightarrow> int option" where
  "stoi16 s =
     (case dropWhile c_isspace s of
        [] \<Rightarrow> None
      | c # r \<Rightarrow>
          if c = CHR ''-'' then map_option (\<lambda>n. - int n) (stoi_unsigned r)
          else if c = CHR ''+'' then map_option int (stoi_unsigned r)
          else map_option int (stoi_unsigned (c # r)))"

fun hex_loop :: "string \<Rightarrow> bytes option" where
  "hex_loop (a # b # r) =
     (case stoi16 [a, b] of
        None \<Rightarrow> None
      | Some v \<Rightarrow> map_option (\<lambda>bs. word_of_int v # bs) (hex_loop r))"
| "hex_loop _ = Some []"

definition hex_to_bytes :: "string \<Rightarrow> bytes option" where
  "hex_to_bytes hex = (if length hex mod 2 \<noteq> 0 then None else hex_loop hex)"

text \<open>The constructor: the master key, empty when the encryptor is not ready.\<close>

definition fe_new :: "string \<Rightarrow> bytes" where
  "fe_new master_key_hex =
     (case hex_to_bytes master_key_hex of
        None \<Rightarrow> []
      | Some key \<Rightarrow> if length key \<noteq> MASTER_KEY_SIZE then [] else key)"

definition fe_is_ready :: "bytes \<Rightarrow> bool" where
  "fe_is_ready mk \<longleftrightarrow> mk \<noteq> []"

definition generate_master_key :: "crypto \<Rightarrow> nat \<Rightarrow> bytes" where
  "generate_master_key C n = rnd C n MASTER_KEY_SIZE"

subsection \<open>Keys\<close>

definition derive_key :: "crypto \<Rightarrow> bytes \<Rightarrow> bytes \<Rightarrow> bytes" where
  "derive_key C master salt = (case kdf C master salt of None \<Rightarrow> [] | Some k \<Rightarrow> k)"

text \<open>The argument \<open>n\<close> counts the calls of the random generator.\<close>

definition encrypt_dek :: "crypto \<Rightarrow> nat \<Rightarrow> bytes \<Rightarrow> bytes \<Rightarrow> encrypted_key option" where
  "encrypt_dek C n mk dek =
     (let iv = rnd C n IV_SIZE;
          salt = rnd C (n + 1) SALT_SIZE;
          kek = derive_key C mk salt
      in if kek = [] then None
         else case gcm_seal C kek iv dek of
           None \<Rightarrow> None
         | Some (ct, tag) \<Rightarrow> Some \<lparr>ek_ciphertext = salt @ ct, ek_iv = iv, ek_tag = tag\<rparr>)"

definition decrypt_dek :: "crypto \<Rightarrow> bytes \<Rightarrow> encrypted_key \<Rightarrow> bytes option" where
  "decrypt_dek C mk k =
     (if length (ek_ciphertext k) < SALT_SIZE + DEK_SIZE then None
      else
        let salt = take SALT_SIZE (ek_ciphertext k);
            kek = derive_key C mk salt
        in if kek = [] then None
           else case gcm_open C kek (ek_iv k) (ek_tag k) (drop SALT_SIZE (ek_ciphertext k)) of
             None \<Rightarrow> None
           | Some dek \<Rightarrow> if length dek \<noteq> DEK_SIZE then None else Some dek)"

definition serialize_encrypted_key :: "encrypted_key \<Rightarrow> bytes" where
  "serialize_encrypted_key k =
     ek_iv k @ ek_tag k @ le_bytes 4 (length (ek_ciphertext k)) @ ek_ciphertext k"

definition deserialize_encrypted_key :: "bytes \<Rightarrow> encrypted_key option" where
  "deserialize_encrypted_key data =
     (if length data < IV_SIZE + TAG_SIZE + 4 then None
      else
        let pos = IV_SIZE + TAG_SIZE + 4;
            len = le_value (take 4 (drop (IV_SIZE + TAG_SIZE) data))
        in if length data < pos + len then None
           else Some \<lparr>ek_ciphertext = take len (drop pos data), ek_iv = take IV_SIZE data,
                      ek_tag = take TAG_SIZE (drop IV_SIZE data)\<rparr>)"

subsection \<open>Files\<close>

definition header_size :: nat where
  "header_size = SALT_SIZE + IV_SIZE + TAG_SIZE + 16"

text \<open>The result pairs the encrypted key written to the out parameter with the returned value.\<close>

definition fe_encrypt :: "crypto \<Rightarrow> nat \<Rightarrow> bytes \<Rightarrow> bytes \<Rightarrow> encrypted_key option \<times> bytes option" where
  "fe_encrypt C n mk plaintext =
     (if \<not> fe_is_ready mk then (None, None)
      else
        let dek = rnd C n DEK_SIZE
        in case encrypt_dek C (n + 1) mk dek of
             None \<Rightarrow> (None, None)
           | Some ek \<Rightarrow>
               let salt = rnd C (n + 3) SALT_SIZE;
                   iv = rnd C (n + 4) IV_SIZE;
                   file_key = derive_key C dek salt
               in if file_key = [] then (Some ek, None)
                  else case gcm_seal C file_key iv plaintext of
                    None \<Rightarrow> (Some ek, None)
                  | Some (ct, tag) \<Rightarrow>
                      (Some ek, Some (salt @ iv @ tag @ le_bytes 8 (length plaintext)
                                        @ le_bytes 8 (length ct) @ ct)))"

definition parse_header :: "bytes \<Rightarrow> encrypted_header" where
  "parse_header data =
     \<lparr>eh_salt = take SALT_SIZE data,
      eh_iv = take IV_SIZE (drop SALT_SIZE data),
      eh_tag = take TAG_SIZE (drop (SALT_SIZE + IV_SIZE) data),
      eh_original_size = le_value (take 8 (drop (SALT_SIZE + IV_SIZE + TAG_SIZE) data)),
      eh_encrypted_size = le_value (take 8 (drop (SALT_SIZE + IV_SIZE + TAG_SIZE + 8) data))\<rparr>"

definition fe_decrypt :: "crypto \<Rightarrow> bytes \<Rightarrow> bytes \<Rightarrow> encrypted_key \<Rightarrow> bytes option" where
  "fe_decrypt C mk data k =
     (if \<not> fe_is_ready mk then None
      else if length data < header_size then None
      else
        let h = parse_header data;
            payload = drop header_size data
        in if eh_encrypted_size h \<noteq> length payload then None
           else case decrypt_dek C mk k of
             None \<Rightarrow> None
           | Some dek \<Rightarrow>
               let file_key = derive_key C dek (eh_salt h)
               in if file_key = [] then None
                  else case gcm_open C file_key (eh_iv h) (eh_tag h) payload of
                    None \<Rightarrow> None
                  | Some plaintext \<Rightarrow>
                      if length plaintext \<noteq> eh_original_size h then None else Some plaintext)"

subsection \<open>Layout lemmas\<close>

lemma fe_hex_value_digit: "n < 16 \<Longrightarrow> hex_value (hex_digit n) = Some n"
  by (auto simp: hex_value_def hex_digit_def c_isdigit_def)

lemma hex_digit_plain:
  "n < 16 \<Longrightarrow> \<not> c_isspace (hex_digit n) \<and> hex_digit n \<noteq> CHR ''-'' \<and> hex_digit n \<noteq> CHR ''+''"
  by (auto simp: hex_digit_def c_isspace_def simp flip: code_inject) (auto simp: code_def)

lemma stoi16_hex: "m < 16 \<Longrightarrow> n < 16 \<Longrightarrow> stoi16 [hex_digit m, hex_digit n] = Some (int (16 * m + n))"
  using hex_digit_plain [of m]
  by (simp add: stoi16_def stoi_unsigned_def fe_hex_value_digit)

lemma hex_roundtrip: "hex_to_bytes (bytes_to_hex bs) = Some bs"
proof -
  have "length (bytes_to_hex bs) = 2 * length bs"
    by (induction bs) (simp_all add: bytes_to_hex_def)
  moreover have "hex_loop (bytes_to_hex bs) = Some bs"
  proof (induction bs)
    case Nil
    then show ?case by (simp add: bytes_to_hex_def)
  next
    case (Cons b bs)
    have "unat b < 2 ^ LENGTH(8)" by (rule unsigned_less)
    then have "unat b div 16 < 16" by simp
    moreover have "int (16 * (unat b div 16) + unat b mod 16) = uint b" by simp
    ultimately show ?case
      using Cons by (simp add: bytes_to_hex_def stoi16_hex)
  qed
  ultimately show ?thesis by (simp add: hex_to_bytes_def)
qed

lemma deserialize_append:
  assumes "length (ek_iv k) = IV_SIZE" and "length (ek_tag k) = TAG_SIZE"
    and "length (ek_ciphertext k) < 2 ^ 32"
  shows "deserialize_encrypted_key (serialize_encrypted_key k @ rest) = Some k"
  using assms by (simp add: deserialize_encrypted_key_def serialize_encrypted_key_def
      le_value_le_bytes_id)

lemma parse_header_layout:
  assumes "length salt = SALT_SIZE" and "length iv = IV_SIZE" and "length tag = TAG_SIZE"
    and "m < 2 ^ 64" and "n < 2 ^ 64"
  shows "parse_header (salt @ iv @ tag @ le_bytes 8 m @ le_bytes 8 n @ ct) =
    \<lparr>eh_salt = salt, eh_iv = iv, eh_tag = tag, eh_original_size = m, eh_encrypted_size = n\<rparr>"
  using assms by (simp add: parse_header_def le_value_le_bytes_id)

subsection \<open>Round trips\<close>

text \<open>
  What the libraries document: what was sealed opens again under the same key, nonce and tag, GCM
  keeps the length and makes 16-byte tags, the key derivation makes non-empty keys, and the random
  generator fills the buffer it is given.
\<close>

definition aead_laws :: "crypto \<Rightarrow> bool" where
  "aead_laws C \<longleftrightarrow>
     (\<forall>k iv pt ct tag. gcm_seal C k iv pt = Some (ct, tag) \<longrightarrow>
        gcm_open C k iv tag ct = Some pt \<and> length ct = length pt \<and> length tag = TAG_SIZE) \<and>
     (\<forall>m s k. kdf C m s = Some k \<longrightarrow> k \<noteq> []) \<and> (\<forall>n l. length (rnd C n l) = l)"

lemma aead_lawsD:
  assumes "aead_laws C"
  shows "gcm_seal C k iv pt = Some (ct, tag) \<Longrightarrow> gcm_open C k iv tag ct = Some pt"
    and "gcm_seal C k iv pt = Some (ct, tag) \<Longrightarrow> length ct = length pt"
    and "gcm_seal C k iv pt = Some (ct, tag) \<Longrightarrow> length tag = TAG_SIZE"
    and "length (rnd C n l) = l"
  using assms by (auto simp: aead_laws_def)

lemma decrypt_encrypt_dek:
  assumes "aead_laws C" and "encrypt_dek C n mk dek = Some ek" and "length dek = DEK_SIZE"
  shows "decrypt_dek C mk ek = Some dek \<and> length (ek_iv ek) = IV_SIZE \<and>
         length (ek_tag ek) = TAG_SIZE \<and> length (ek_ciphertext ek) = SALT_SIZE + DEK_SIZE"
  using assms aead_lawsD [OF assms(1)]
  by (auto simp: encrypt_dek_def decrypt_dek_def Let_def split: option.splits if_splits prod.splits)

lemma fe_encrypt_cases:
  assumes "fe_encrypt C n mk plaintext = (ek', Some data)"
  obtains ek ct tag where "ek' = Some ek" "mk \<noteq> []" "encrypt_dek C (n + 1) mk (rnd C n DEK_SIZE) = Some ek"
    "derive_key C (rnd C n DEK_SIZE) (rnd C (n + 3) SALT_SIZE) \<noteq> []"
    "gcm_seal C (derive_key C (rnd C n DEK_SIZE) (rnd C (n + 3) SALT_SIZE)) (rnd C (n + 4) IV_SIZE) plaintext
       = Some (ct, tag)"
    "data = rnd C (n + 3) SALT_SIZE @ rnd C (n + 4) IV_SIZE @ tag @ le_bytes 8 (length plaintext)
       @ le_bytes 8 (length ct) @ ct"
proof (cases "encrypt_dek C (n + 1) mk (rnd C n DEK_SIZE)")
  case None
  with assms show ?thesis by (simp add: fe_encrypt_def Let_def split: if_splits)
next
  case (Some ek)
  with assms that show ?thesis
    by (auto simp: fe_encrypt_def fe_is_ready_def Let_def split: if_splits option.splits prod.splits)
       (metis (no_types))
qed

lemma decrypt_encrypt:
  assumes laws: "aead_laws C" and enc: "fe_encrypt C n mk plaintext = (Some ek, Some data)"
    and size: "length plaintext < 2 ^ 64"
  shows "fe_decrypt C mk data ek = Some plaintext \<and>
         deserialize_encrypted_key (serialize_encrypted_key ek) = Some ek"
proof -
  note L = aead_lawsD [OF laws]
  from enc obtain ct tag where mk: "mk \<noteq> []"
    and dek: "encrypt_dek C (n + 1) mk (rnd C n DEK_SIZE) = Some ek"
    and key: "derive_key C (rnd C n DEK_SIZE) (rnd C (n + 3) SALT_SIZE) \<noteq> []"
    and seal: "gcm_seal C (derive_key C (rnd C n DEK_SIZE) (rnd C (n + 3) SALT_SIZE))
                 (rnd C (n + 4) IV_SIZE) plaintext = Some (ct, tag)"
    and data: "data = rnd C (n + 3) SALT_SIZE @ rnd C (n + 4) IV_SIZE @ tag @ le_bytes 8 (length plaintext)
                 @ le_bytes 8 (length ct) @ ct"
    by (auto elim: fe_encrypt_cases)
  note D = decrypt_encrypt_dek [OF laws dek L(4)]
  have hdr: "parse_header data = \<lparr>eh_salt = rnd C (n + 3) SALT_SIZE, eh_iv = rnd C (n + 4) IV_SIZE,
      eh_tag = tag, eh_original_size = length plaintext, eh_encrypted_size = length ct\<rparr>"
    using L(2) [OF seal] size unfolding data
    by (intro parse_header_layout) (simp_all add: L(3) [OF seal] L(4))
  have payload: "drop header_size data = ct" "length data \<ge> header_size"
    by (simp_all add: data header_size_def L(3) [OF seal] L(4))
  have "fe_decrypt C mk data ek = Some plaintext"
    using mk key D payload L(1) [OF seal] by (simp add: fe_decrypt_def fe_is_ready_def hdr)
  moreover have "deserialize_encrypted_key (serialize_encrypted_key ek @ []) = Some ek"
    using D by (intro deserialize_append) auto
  ultimately show ?thesis by simp
qed

subsection \<open>Properties\<close>

text \<open>
  C28: decrypting gives back what was encrypted.  Under the laws of the AEAD, whenever \<open>encrypt\<close>
  returns data, decrypting it with the same master key and the key that \<open>encrypt\<close> wrote, after that
  key went through its stored form, returns the plaintext.
\<close>

theorem file_encryption_roundtrip:
  assumes "aead_laws C" and "fe_encrypt C n mk plaintext = (Some ek, Some data)"
    and "length plaintext < 2 ^ 31"
  shows "map_option (fe_decrypt C mk data) (deserialize_encrypted_key (serialize_encrypted_key ek)) =
         Some (Some plaintext)"
  using decrypt_encrypt [OF assms(1,2)] assms(3) by simp

definition demo_crypto :: crypto where
  "demo_crypto = \<lparr>kdf = (\<lambda>m s. Some (1 # m)), gcm_seal = (\<lambda>k iv pt. Some (rev pt, replicate 16 (hd iv))),
     gcm_open = (\<lambda>k iv tag ct. if tag = replicate 16 (hd iv) then Some (rev ct) else None),
     rnd = (\<lambda>n l. replicate l (of_nat n))\<rparr>"

lemma demo_aead: "aead_laws demo_crypto"
  by (simp add: aead_laws_def demo_crypto_def)

theorem file_encryption_roundtrip_witness:
  "\<exists>ek data. fe_encrypt demo_crypto 0 [5] [1, 2, 3] = (Some ek, Some data) \<and>
     map_option (fe_decrypt demo_crypto [5] data) (deserialize_encrypted_key (serialize_encrypted_key ek)) =
     Some (Some [1, 2, 3])"
proof -
  have "\<exists>ek data. fe_encrypt demo_crypto 0 [5] [1, 2, 3] = (Some ek, Some data)"
    by (simp add: fe_encrypt_def encrypt_dek_def derive_key_def fe_is_ready_def demo_crypto_def)
  then obtain ek data where e: "fe_encrypt demo_crypto 0 [5] [1, 2, 3] = (Some ek, Some data)" by blast
  from file_encryption_roundtrip [OF demo_aead e] have "map_option (fe_decrypt demo_crypto [5] data)
      (deserialize_encrypted_key (serialize_encrypted_key ek)) = Some (Some [1, 2, 3])" by simp
  with e show ?thesis by blast
qed

text \<open>
  C29: nothing unauthenticated is returned.  Whatever bytes and key are given, a plaintext comes out
  only if the data key opened under a key derived from the master key, the payload has exactly the
  length the header declares, it opened under its tag, and the result has the declared size.
\<close>

theorem decrypt_only_authentic:
  assumes "fe_decrypt C mk data k = Some plaintext"
  shows "mk \<noteq> [] \<and> header_size + eh_encrypted_size (parse_header data) = length data \<and>
         length plaintext = eh_original_size (parse_header data) \<and>
         (\<exists>dek kek. kek = derive_key C mk (take SALT_SIZE (ek_ciphertext k)) \<and> kek \<noteq> [] \<and> length dek = DEK_SIZE \<and>
            gcm_open C kek (ek_iv k) (ek_tag k) (drop SALT_SIZE (ek_ciphertext k)) = Some dek \<and>
            gcm_open C (derive_key C dek (take SALT_SIZE data)) (take IV_SIZE (drop SALT_SIZE data))
              (take TAG_SIZE (drop (SALT_SIZE + IV_SIZE) data)) (drop header_size data) = Some plaintext)"
  using assms
  by (auto simp: fe_decrypt_def decrypt_dek_def fe_is_ready_def parse_header_def Let_def
      split: if_splits option.splits)

theorem decrypt_only_authentic_witness:
  "\<exists>data k. fe_decrypt demo_crypto [5] data k = Some [] \<and> header_size + eh_encrypted_size (parse_header data) = length data"
proof -
  have "\<exists>ek data. fe_encrypt demo_crypto 0 [5] [] = (Some ek, Some data)"
    by (simp add: fe_encrypt_def encrypt_dek_def derive_key_def fe_is_ready_def demo_crypto_def)
  then obtain ek data where e: "fe_encrypt demo_crypto 0 [5] [] = (Some ek, Some data)" by blast
  then have "fe_decrypt demo_crypto [5] data ek = Some []"
    using decrypt_encrypt [OF demo_aead e] by simp
  from this decrypt_only_authentic [OF this] show ?thesis by blast
qed

text \<open>a master key printed in hexadecimal is read back, and only 32-byte keys make the encryptor ready.\<close>

theorem master_key_hex_roundtrip:
  "hex_to_bytes (bytes_to_hex key) = Some key \<and>
   fe_is_ready (fe_new (bytes_to_hex key)) = (length key = MASTER_KEY_SIZE) \<and>
   (length key = MASTER_KEY_SIZE \<longrightarrow> fe_new (bytes_to_hex key) = key)"
  by (auto simp: hex_roundtrip fe_new_def fe_is_ready_def)

theorem master_key_hex_roundtrip_witness:
  "fe_new (bytes_to_hex (replicate 32 171)) = replicate 32 171"
  using master_key_hex_roundtrip [of "replicate 32 171"] by simp

text \<open>The reader is more liberal than the format: a second character that is no digit is ignored.\<close>

lemma hex_to_bytes_liberal: "hex_to_bytes ''1g'' = Some [1]" "hex_to_bytes ''-1'' = Some [255]"
  by code_simp+

end
