(* ===== verification/Http_Server.thy ===== *)
theory Http_Server
  imports Http_Api File_Encryptor
begin

text \<open>
  The keys, the server and the connections of \<open>grotto-chat-server-api\<close>: \<open>auth.cpp\<close> and \<open>server.cpp\<close>.  Of a
  socket the model keeps whether it is open, whether a read is under way and the responses written to
  it.  An exception that leaves a callback is the flag \<open>False\<close>: it ends the thread that runs the event loop.
\<close>

subsection \<open>Keys and webhooks\<close>

definition add_key :: "string \<Rightarrow> string list \<Rightarrow> string list" where
  "add_key k ks = uinsert k ks"

definition remove_key :: "string \<Rightarrow> string list \<Rightarrow> string list" where
  "remove_key k ks = uerase k ks"

definition key_is_valid :: "string \<Rightarrow> string list \<Rightarrow> bool" where
  "key_is_valid k ks \<longleftrightarrow> k \<in> set ks"

text \<open>A key from the 32 bytes of \<open>RAND_bytes\<close>, or those of the fallback generator when it fails.\<close>

definition generate_api_key :: "bytes option \<Rightarrow> bytes \<Rightarrow> string" where
  "generate_api_key random fallback =
     ''grotto_'' @ bytes_to_hex (case random of Some b \<Rightarrow> b | None \<Rightarrow> fallback)"

definition set_secret :: "string \<Rightarrow> string \<Rightarrow> (string \<rightharpoonup> string) \<Rightarrow> (string \<rightharpoonup> string)" where
  "set_secret i secret m = m(i \<mapsto> secret)"

definition webhook_verify ::
  "(bytes \<Rightarrow> bytes \<Rightarrow> bytes) \<Rightarrow> (string \<rightharpoonup> string) \<Rightarrow> string \<Rightarrow> string \<Rightarrow> string \<Rightarrow> bool" where
  "webhook_verify hmac secrets i signature body =
     (case secrets i of
        None \<Rightarrow> False
      | Some secret \<Rightarrow> bytes_to_hex (hmac (to_bytes secret) (to_bytes body)) = signature)"

subsection \<open>State\<close>

record api_config =
  api_port :: nat
  api_bind :: string
  api_cors :: bool
  api_rate_limit :: bool
  api_rate_requests :: int
  api_keys :: "string list"

definition default_api_config :: api_config where
  "default_api_config = \<lparr>api_port = 8080, api_bind = ''0.0.0.0'', api_cors = True, api_rate_limit = True,
     api_rate_requests = 60, api_keys = []\<rparr>"

record http_session =
  hs_open :: bool
  hs_reading :: bool
  hs_msg :: http_msg
  hs_sent :: "response list"

text \<open>\<open>as_shared\<close>: the object is owned by a \<open>shared_ptr\<close>, which \<open>shared_from_this\<close> needs.\<close>

record 'w api_server =
  as_config :: api_config
  as_routes :: "'w route list"
  as_chain :: "middleware list"
  as_keys :: "string list"
  as_running :: bool
  as_accepting :: bool
  as_sessions :: "(nat \<times> http_session) list"
  as_next :: nat
  as_shared :: bool

definition new_api_server :: "bool \<Rightarrow> api_config \<Rightarrow> 'w api_server" where
  "new_api_server shared c = \<lparr>as_config = c, as_routes = [], as_chain = [], as_keys = foldl (\<lambda>ks k. add_key k ks) [] (api_keys c),
     as_running = False, as_accepting = False, as_sessions = [], as_next = 0, as_shared = shared\<rparr>"

subsection \<open>Requests\<close>

definition handle_request ::
  "http_lib \<Rightarrow> int \<Rightarrow> request \<Rightarrow> 'w api_server \<Rightarrow> 'w \<Rightarrow> response option \<times> 'w api_server \<times> 'w" where
  "handle_request lib now rq s w =
     (let (r, chain) = chain_process lib now rq (as_chain s) new_response; s' = s\<lparr>as_chain := chain\<rparr>
      in case r of
           None \<Rightarrow> (None, s', w)
         | Some (False, rs) \<Rightarrow> (Some rs, s', w)
         | Some (True, _) \<Rightarrow>
             (case route_match (as_routes s) (rq_method rq) (target_path rq) of
                Some (h, params) \<Rightarrow>
                  (case h rq w of
                     (Some rs, w') \<Rightarrow> (Some rs, s', w')
                   | (None, w') \<Rightarrow> (error_response lib ''Internal server error'' 500, s', w'))
              | None \<Rightarrow> (not_found lib ''Endpoint not found'', s', w)))"

subsection \<open>Connections\<close>

datatype read_event = Read_eof | Read_failed | Read_msg http_msg

definition session_close :: "http_session \<Rightarrow> http_session" where
  "session_close c = c\<lparr>hs_open := False, hs_reading := False\<rparr>"

definition read_request :: "http_session \<Rightarrow> http_session" where
  "read_request c = c\<lparr>hs_reading := True\<rparr>"

definition start_session :: http_session where
  "start_session = read_request \<lparr>hs_open = True, hs_reading = False, hs_msg = empty_msg, hs_sent = []\<rparr>"

definition write_response :: "response \<Rightarrow> http_session \<Rightarrow> http_session" where
  "write_response rs c = c\<lparr>hs_sent := hs_sent c @ [rs]\<rparr>"

definition set_session :: "nat \<Rightarrow> http_session \<Rightarrow> 'w api_server \<Rightarrow> 'w api_server" where
  "set_session k c s = s\<lparr>as_sessions := mput k c (as_sessions s)\<rparr>"

text \<open>
  The read is over; \<open>remote\<close> is the address and port of the peer, \<open>None\<close> where \<open>remote_endpoint\<close> throws.
  The request is copied out of the message object, which stays as it is for the next read.
\<close>

definition session_on_read ::
  "http_lib \<Rightarrow> int \<Rightarrow> (string \<times> nat) option \<Rightarrow> nat \<Rightarrow> http_session \<Rightarrow> read_event \<Rightarrow> 'w api_server \<Rightarrow> 'w \<Rightarrow>
     bool \<times> 'w api_server \<times> 'w" where
  "session_on_read lib now remote k c ev s w =
     (case ev of
        Read_eof \<Rightarrow> (True, set_session k (session_close c) s, w)
      | Read_failed \<Rightarrow> (True, set_session k (session_close c) s, w)
      | Read_msg wire \<Rightarrow>
          (let c = c\<lparr>hs_reading := False, hs_msg := hl_read lib (hs_msg c) wire\<rparr>
           in case remote of
                None \<Rightarrow> (False, set_session k c s, w)
              | Some (addr, port) \<Rightarrow>
                  (case handle_request lib now (new_request (hs_msg c) (addr @ '':'' @ show_nat port)) s w of
                     (None, s', w') \<Rightarrow> (False, set_session k c s', w')
                   | (Some rs, s', w') \<Rightarrow> (True, set_session k (write_response rs c) s', w'))))"

definition session_on_write :: "bool \<Rightarrow> http_session \<Rightarrow> http_session" where
  "session_on_write close c = (if close then session_close c else read_request c)"

subsection \<open>The server\<close>

text \<open>\<open>bound\<close> says whether the address can be parsed and bound; otherwise the call throws.\<close>

definition start_chain :: "int \<Rightarrow> api_config \<Rightarrow> middleware list" where
  "start_chain now c = (if api_cors c then [Mw_cors ''*''] else []) @
     (if api_rate_limit c then [Mw_rate_limit (api_rate_requests c) (new_api_limiter now)] else []) @
     (if api_keys c \<noteq> [] then [Mw_api_key (api_keys c)] else [])"

definition api_accept :: "'w api_server \<Rightarrow> 'w api_server" where
  "api_accept s = (if \<not> as_running s then s else s\<lparr>as_accepting := True\<rparr>)"

definition api_start :: "int \<Rightarrow> bool \<Rightarrow> 'w api_server \<Rightarrow> bool \<times> 'w api_server" where
  "api_start now bound s =
     (if as_running s then (True, s)
      else let s = s\<lparr>as_running := True, as_chain := as_chain s @ start_chain now (as_config s)\<rparr>
           in if \<not> bound then (False, s) else (True, api_accept s))"

definition api_stop :: "'w api_server \<Rightarrow> 'w api_server" where
  "api_stop s = (if \<not> as_running s then s else s\<lparr>as_running := False, as_sessions := []\<rparr>)"

definition on_accept :: "bool \<Rightarrow> 'w api_server \<Rightarrow> bool \<times> 'w api_server" where
  "on_accept failed s =
     (let s = s\<lparr>as_accepting := False\<rparr>
      in if failed then (True, s)
         else if \<not> as_running s then (True, s)
         else if \<not> as_shared s then (False, s)
         else (True, api_accept (s\<lparr>as_sessions := as_sessions s @ [(as_next s, start_session)], as_next := as_next s + 1\<rparr>)))"

subsection \<open>The chain\<close>

text \<open>A call changes the state of a closure, never which functions the chain holds.\<close>

fun mw_kind :: "middleware \<Rightarrow> middleware" where
  "mw_kind (Mw_rate_limit n l) = Mw_rate_limit n (new_api_limiter 0)"
| "mw_kind m = m"

lemma mw_apply_kind: "mw_kind (snd (mw_apply lib now rq m rs)) = mw_kind m"
  by (cases m) (simp_all add: split_def Let_def)

lemma chain_kinds: "map mw_kind (snd (chain_process lib now rq ms rs)) = map mw_kind ms"
proof (induction ms arbitrary: rs)
  case (Cons m ms)
  then show ?case
    using mw_apply_kind [of lib now rq m rs]
    by (auto simp: split_def Let_def split: prod.split option.split bool.split)
qed simp

lemma kind_api_key: "mw_kind m = Mw_api_key keys \<longleftrightarrow> m = Mw_api_key keys"
  by (cases m) simp_all

lemma api_key_in_chain: "Mw_api_key keys \<in> set ms \<longleftrightarrow> Mw_api_key keys \<in> set (map mw_kind ms)"
  by (simp add: image_iff) (metis kind_api_key)

definition has_key :: "string list \<Rightarrow> request \<Rightarrow> bool" where
  "has_key keys rq \<longleftrightarrow> (case bearer_token rq of None \<Rightarrow> False | Some t \<Rightarrow> t \<in> set keys)"

lemma api_key_auth_passes: "api_key_auth lib keys rq rs = Some (True, rs') \<Longrightarrow> has_key keys rq"
  by (auto simp: api_key_auth_def has_key_def refuse_def split: option.splits if_splits)

lemma chain_passes_key:
  "fst (chain_process lib now rq ms rs) = Some (True, rs') \<Longrightarrow> Mw_api_key keys \<in> set ms \<Longrightarrow> has_key keys rq"
proof (induction ms arbitrary: rs)
  case (Cons m ms)
  then obtain r where r: "fst (mw_apply lib now rq m rs) = Some (True, r)"
    "fst (chain_process lib now rq ms r) = Some (True, rs')"
    by (auto simp: split_def Let_def split: prod.splits option.splits bool.splits)
  then show ?case using Cons api_key_auth_passes by fastforce
qed simp

subsection \<open>Requests and the handlers\<close>

text \<open>What happens to the world: nothing, or what the handler of the matching route does.\<close>

lemma handle_request_world:
  "snd (snd (handle_request lib now rq s w)) = w \<or>
   (\<exists>rs h ps. fst (chain_process lib now rq (as_chain s) new_response) = Some (True, rs) \<and>
      route_match (as_routes s) (rq_method rq) (target_path rq) = Some (h, ps) \<and>
      snd (snd (handle_request lib now rq s w)) = snd (h rq w))"
  by (simp add: handle_request_def split_def Let_def split: option.split prod.split bool.split)

lemma handle_request_server:
  "fst (snd (handle_request lib now rq s w)) = s\<lparr>as_chain := snd (chain_process lib now rq (as_chain s) new_response)\<rparr>"
  by (simp add: handle_request_def split_def Let_def split: option.split prod.split bool.split)

lemma handle_request_frame [frame_simps]:
  "as_routes (fst (snd (handle_request lib now rq s w))) = as_routes s"
  "as_running (fst (snd (handle_request lib now rq s w))) = as_running s"
  "as_sessions (fst (snd (handle_request lib now rq s w))) = as_sessions s"
  "as_shared (fst (snd (handle_request lib now rq s w))) = as_shared s"
  by (simp_all add: handle_request_server)

lemma handle_request_kinds [frame_simps]:
  "map mw_kind (as_chain (fst (snd (handle_request lib now rq s w)))) = map mw_kind (as_chain s)"
  by (simp add: handle_request_server chain_kinds)

text \<open>
  The documents the library itself sends are plain text, which \<open>dump\<close> never refuses: then no exception leaves
  \<open>handle_request\<close>, whatever the handlers do.
\<close>

fun json_ascii :: "json \<Rightarrow> bool" where
  "json_ascii (J_string s) \<longleftrightarrow> list_all (\<lambda>c. code c < 128) s"
| "json_ascii (J_array js) \<longleftrightarrow> list_all json_ascii js"
| "json_ascii (J_object o') \<longleftrightarrow> list_all (\<lambda>(k, j). list_all (\<lambda>c. code c < 128) k \<and> json_ascii j) o'"
| "json_ascii j \<longleftrightarrow> True"

definition dumps_text :: "http_lib \<Rightarrow> bool" where
  "dumps_text lib \<longleftrightarrow> (\<forall>j. json_ascii j \<longrightarrow> hl_dump lib j \<noteq> None)"

lemma refuse_answers:
  "dumps_text lib \<Longrightarrow> list_all (\<lambda>c. code c < 128) msg \<Longrightarrow> \<exists>r. refuse lib c msg rs = Some (False, r)"
  by (auto simp: dumps_text_def refuse_def rs_json_def refusal_doc_def code_def)

lemma mw_apply_answers: "dumps_text lib \<Longrightarrow> fst (mw_apply lib now rq m rs) \<noteq> None"
  using refuse_answers [of lib "''Rate limit exceeded''" 429 rs]
    refuse_answers [of lib "''Invalid or missing API key''" 401 rs]
    refuse_answers [of lib "''Content-Type must be application/json''" 400 rs]
  by (cases m) (auto simp: split_def Let_def api_key_auth_def require_json_def code_def split: option.split)

lemma chain_answers: "dumps_text lib \<Longrightarrow> fst (chain_process lib now rq ms rs) \<noteq> None"
proof (induction ms arbitrary: rs)
  case (Cons m ms)
  then show ?case using mw_apply_answers [of lib now rq m rs]
    by (auto simp: split_def Let_def split: prod.split option.split bool.split)
qed simp

theorem handle_request_answers:
  assumes "dumps_text lib" shows "fst (handle_request lib now rq s w) \<noteq> None"
proof -
  have "error_response lib ''Internal server error'' 500 \<noteq> None" and "not_found lib ''Endpoint not found'' \<noteq> None"
    using assms by (auto simp: dumps_text_def error_response_def not_found_def respond_def rs_json_def error_doc_def code_def)
  then show ?thesis
    using chain_answers [OF assms, of now rq "as_chain s" new_response]
    by (auto simp: handle_request_def split_def Let_def split: option.split prod.split bool.split)
qed

subsection \<open>Starting and accepting\<close>

lemma api_start_fresh:
  "\<not> as_running s \<Longrightarrow> api_start now True s =
     (True, s\<lparr>as_running := True, as_chain := as_chain s @ start_chain now (as_config s), as_accepting := True\<rparr>)"
  by (simp add: api_start_def api_accept_def Let_def)

text \<open>Without a \<open>shared_ptr\<close> to the server the first connection ends in an exception and none is served.\<close>

lemma unshared_serves_nobody:
  "\<not> as_shared s \<Longrightarrow> as_running s \<Longrightarrow>
     on_accept False s = (False, s\<lparr>as_accepting := False\<rparr>)"
  by (simp add: on_accept_def)

lemma shared_accepts_on:
  "as_shared s \<Longrightarrow> as_running s \<Longrightarrow>
     fst (on_accept False s) \<and> as_accepting (snd (on_accept False s)) \<and>
     as_sessions (snd (on_accept False s)) = as_sessions s @ [(as_next s, start_session)]"
  by (simp add: on_accept_def api_accept_def)

text \<open>The first request of a connection is handled as it was sent.\<close>

lemma first_request_as_sent:
  assumes "\<And>m. hl_read lib empty_msg m = m"
  shows "session_on_read lib now (Some (addr, port)) k start_session (Read_msg m) s w =
     (let c = start_session\<lparr>hs_reading := False, hs_msg := m\<rparr>
      in case handle_request lib now (new_request m (addr @ '':'' @ show_nat port)) s w of
           (None, s', w') \<Rightarrow> (False, set_session k c s', w')
         | (Some rs, s', w') \<Rightarrow> (True, set_session k (write_response rs c) s', w'))"
  by (simp add: session_on_read_def start_session_def read_request_def assms)

text \<open>What a refused request gets.\<close>

lemma refuse_status: "refuse lib c msg rs = Some (b, rs') \<Longrightarrow> rs_status rs' = c"
  by (auto simp: refuse_def rs_json_def rs_header_def)

lemma mw_refusal_status:
  "fst (mw_apply lib now rq m rs) = Some (False, rs') \<Longrightarrow> rs_status rs' \<in> {204, 400, 401, 429}"
  by (cases m) (auto simp: split_def Let_def cors_def api_key_auth_def require_json_def
      split: if_splits option.splits dest!: refuse_status)

lemma chain_refusal_status:
  "fst (chain_process lib now rq ms rs) = Some (False, rs') \<Longrightarrow> rs_status rs' \<in> {204, 400, 401, 429}"
proof (induction ms arbitrary: rs)
  case (Cons m ms)
  then show ?case using mw_refusal_status [of lib now rq m rs rs']
    by (auto simp: split_def Let_def split: prod.splits option.splits bool.splits)
qed simp

theorem unkeyed_request_refused:
  assumes "Mw_api_key keys \<in> set (as_chain s)" and "\<not> has_key keys rq"
    and "handle_request lib now rq s w = (Some rs, s', w')"
  shows "rs_status rs \<in> {204, 400, 401, 429} \<and> w' = w"
proof -
  have "fst (chain_process lib now rq (as_chain s) new_response) \<noteq> None"
    using assms(3)
    by (cases "fst (chain_process lib now rq (as_chain s) new_response)") (auto simp: handle_request_def split_def Let_def)
  moreover have "fst (chain_process lib now rq (as_chain s) new_response) \<noteq> Some (True, r)" for r
    using chain_passes_key [OF _ assms(1), of lib now rq new_response r] assms(2) by blast
  ultimately obtain r where r: "fst (chain_process lib now rq (as_chain s) new_response) = Some (False, r)"
    by (metis (full_types) not_None_eq surj_pair)
  then show ?thesis using chain_refusal_status [OF r] assms(3)
    by (auto simp: handle_request_def split_def Let_def)
qed

text \<open>The headers the middleware sets are those of a refusal only: a handler answers with a response of its own.\<close>

lemma handler_response_alone:
  assumes "fst (chain_process lib now rq (as_chain s) new_response) = Some (True, rs)"
    and "route_match (as_routes s) (rq_method rq) (target_path rq) = Some (h, ps)" and "fst (h rq w) = Some rs'"
  shows "fst (handle_request lib now rq s w) = Some rs'"
  using assms by (simp add: handle_request_def split_def Let_def split: prod.split option.split)

end
