(* ===== verification/Protocol.thy ===== *)
theory Protocol
  imports Grotto_Prelude
begin

text \<open>
  The protocol messages of \<open>grotto-chat-server/src/proto/grotto.proto\<close> as far as the server reads or
  writes them, and the context in which one handler runs.  Parsing and serialising is done by code
  that protoc generates; it appears as the \<open>codec\<close>: one parse function per message the server reads
  (\<open>None\<close> where \<open>ParseFromArray\<close> returns false) and one serialiser.  The context also holds the clock
  readings, libsodium's functions, what the virus scanner daemon answers to the bytes sent over one
  connection (the pieces \<open>recv\<close> returns, or the text of a transport error), and which SQL statements
  throw, with the text of the exception: a statement is named by its place
  and its key, so a loop over different keys can fail at any of them.  The float
  \<open>percent_complete\<close> of a progress message is left out.
\<close>

datatype message_type =
    MT_UNKNOWN | MT_HELLO | MT_AUTH_CHALLENGE | MT_AUTH_RESPONSE | MT_AUTH_OK | MT_AUTH_FAIL
  | MT_CHAT_ENVELOPE | MT_KEY_UPLOAD | MT_KEY_REQUEST | MT_KEY_BUNDLE | MT_IDENTITY_RESET
  | MT_PRESENCE | MT_TYPING | MT_READ_RECEIPT | MT_VOICE_SIGNAL | MT_VOICE_ROOM_JOIN
  | MT_VOICE_ROOM_LEAVE | MT_VOICE_ROOM_STATE | MT_VOICE_ICE_CONFIG | MT_INVITE | MT_FCM_TOKEN
  | MT_FCM_UNREGISTER | MT_PING | MT_PONG | MT_COMMAND | MT_COMMAND_RESPONSE | MT_NICK_CHANGE
  | MT_USER_INFO | MT_FILE_UPLOAD | MT_FILE_DOWNLOAD | MT_FILE_CHUNK | MT_FILE_PROGRESS
  | MT_FILE_COMPLETE | MT_FILE_ERROR | MT_FILE_POLICY | MT_FILE_LIST_REQUEST
  | MT_FILE_LIST_RESPONSE | MT_FILE_CHANGED | MT_MOTD | MT_OFFLINE_SYNC | MT_ERROR
  | MT_UNRECOGNIZED nat

datatype presence_status = OFFLINE | ONLINE | AWAY | DND

record envelope =
  env_seq :: u64
  env_ts :: int
  env_type :: message_type
  env_payload :: bytes

subsection \<open>Messages the server reads\<close>

record hello = protocol_version :: u32 client_version :: string

record auth_response =
  auth_user_id :: string
  auth_identity_pub :: bytes
  auth_signature :: bytes
  auth_signed_prekey :: bytes
  auth_spk_sig :: bytes
  auth_password :: string
  auth_spk_id :: u32

record chat_envelope = chat_sender :: string chat_recipient :: string

record typing_update = typ_sender :: string typ_target :: string

record read_receipt = rr_reader :: string rr_target :: string rr_message :: string

datatype signal_type =
  OFFER | ANSWER | ICE_CANDIDATE | CALL_INVITE | CALL_ACCEPT | CALL_REJECT | CALL_HANGUP
  | SIGNAL_UNRECOGNIZED nat

record voice_signal = vs_from :: string vs_to :: string vs_type :: signal_type

record voice_room_msg = vr_channel :: string vr_user :: string

record key_upload =
  ku_signed_prekey :: bytes
  ku_spk_signature :: bytes
  ku_spk_id :: u32
  ku_one_time_prekeys :: "bytes list"
  ku_opk_ids :: "u32 list"
  ku_registration_id :: u32

record irc_command = irc_cmd :: string irc_args :: "string list"

record file_upload_request =
  fur_file_id :: string
  fur_filename :: string
  fur_file_size :: u64
  fur_mime_type :: string
  fur_recipient_id :: string
  fur_channel_id :: string
  fur_chunk_size :: u32

record file_upload_chunk =
  fuc_file_id :: string
  fuc_chunk_index :: u32
  fuc_data :: bytes
  fuc_is_last :: bool
  fuc_checksum :: bytes

record file_download_request = fdr_file_id :: string fdr_chunk_index :: u32

record file_list_request = flr_recipient :: string flr_channel :: string flr_limit :: u32

subsection \<open>Messages the server writes\<close>

text \<open>The metadata of a stored file, as \<open>db::FileMetadata\<close> carries it.\<close>

record file_metadata =
  fm_file_id :: string
  fm_filename :: string
  fm_file_size :: u64
  fm_mime_type :: string
  fm_sender_id :: string
  fm_recipient_id :: string
  fm_channel_id :: string
  fm_uploaded_at :: int
  fm_expires_at :: int
  fm_file_checksum :: bytes
  fm_storage_path :: string
  fm_is_complete :: bool

record key_bundle =
  kb_identity_pub :: bytes
  kb_signed_prekey :: bytes
  kb_spk_signature :: bytes
  kb_spk_id :: u32
  kb_registration_id :: u32
  kb_one_time_prekey :: bytes
  kb_opk_id :: u32
  kb_recipient_for :: string

record command_response = cr_success :: bool cr_message :: string cr_command :: string

datatype msg =
    M_Error nat string
  | M_AuthChallenge bytes
  | M_Empty
  | M_IdentityReset string
  | M_VoiceIceConfig "string list" string string
  | M_FilePolicy u64 u64 u64 "string list" "string list"
  | M_Motd "string list"
  | M_OfflineSync bool nat
  | M_Presence string presence_status string int
  | M_KeyBundle key_bundle
  | M_CommandResponse command_response
  | M_NickChange string string
  | M_VoiceRoomJoin string string
  | M_VoiceRoomLeave string string
  | M_VoiceRoomState string "string list"
  | M_FileError string nat string
  | M_FileProgress string u64 u64 string
  | M_FileComplete string u64 bytes
  | M_FileChunk string u32 bytes bool
  | M_FileChanged string string string
  | M_FileListResponse string string "file_metadata list"

subsection \<open>The generated codec\<close>

record codec =
  ser :: "msg \<Rightarrow> bytes"
  ser_env :: "envelope \<Rightarrow> bytes"
  parse_env :: "bytes \<Rightarrow> envelope option"
  parse_hello :: "bytes \<Rightarrow> hello option"
  parse_auth :: "bytes \<Rightarrow> auth_response option"
  parse_chat :: "bytes \<Rightarrow> chat_envelope option"
  parse_typing :: "bytes \<Rightarrow> typing_update option"
  parse_receipt :: "bytes \<Rightarrow> read_receipt option"
  parse_signal :: "bytes \<Rightarrow> voice_signal option"
  parse_voice_room :: "bytes \<Rightarrow> voice_room_msg option"
  parse_key_upload :: "bytes \<Rightarrow> key_upload option"
  parse_key_request :: "bytes \<Rightarrow> string option"
  parse_command :: "bytes \<Rightarrow> irc_command option"
  parse_upload_request :: "bytes \<Rightarrow> file_upload_request option"
  parse_upload_chunk :: "bytes \<Rightarrow> file_upload_chunk option"
  parse_download :: "bytes \<Rightarrow> file_download_request option"
  parse_file_list :: "bytes \<Rightarrow> file_list_request option"

text \<open>What protobuf documents about an envelope that is written and parsed back.\<close>

definition env_roundtrip :: "codec \<Rightarrow> envelope \<Rightarrow> bool" where
  "env_roundtrip C e \<longleftrightarrow> parse_env C (ser_env C e) = Some e"

subsection \<open>The context of a handler\<close>

datatype stmt =
    Off_count string | Off_total string | Off_del_oldest string | Off_insert string
  | Off_select string | Off_delete string | Off_cleanup | Off_stats nat
  | Usr_find string | Usr_insert string | Usr_update_key string
  | Usr_clear_spk string | Usr_clear_opk string | Usr_upsert_spk string nat | Usr_get_spk string
  | Usr_store_opk string u32 | Usr_consume_select string | Usr_consume_update string
  | Usr_set_password string | Usr_get_password string | Usr_has_password string
  | Fil_create string | Fil_get string nat | Fil_complete string | Fil_delete string | Fil_list
  | Fil_store_chunk string u32 | Fil_get_chunk string u32 | Fil_missing string | Fil_received string
  | Fil_reserved | Fil_user_reserved string | Fil_cleanup | Fil_stats nat | Fil_set_key string
  | Fil_get_key string | Reset_table nat

record ctx =
  codec :: codec
  steady_now :: int
  unix_ms :: int
  random_bytes :: "nat \<Rightarrow> bytes"
  sql_throws :: "stmt \<Rightarrow> bool"
  sql_what :: "stmt \<Rightarrow> string"
  ed25519_verify :: "bytes \<Rightarrow> bytes \<Rightarrow> bytes \<Rightarrow> bool"
  pwhash_str :: "string \<Rightarrow> bytes option"
  pwhash_verify :: "bytes \<Rightarrow> string \<Rightarrow> bool"
  sha256 :: "bytes \<Rightarrow> bytes"
  clamd :: "bytes \<Rightarrow> string + string list"

definition now_unix :: "ctx \<Rightarrow> int" where
  "now_unix X = unix_ms X div 1000"

definition quiet :: "ctx \<Rightarrow> bool" where
  "quiet X \<longleftrightarrow> (\<forall>st. \<not> sql_throws X st)"

lemma quietD [simp]: "quiet X \<Longrightarrow> \<not> sql_throws X st"
  by (simp add: quiet_def)

text \<open>Whether a step of a handler returned or threw an exception out of it.\<close>

datatype outcome = Returned | Threw

subsection \<open>Events\<close>

text \<open>What a handler posts to sessions, in the order of the calls.\<close>

datatype event = Send sid envelope | Disconnect sid string

text \<open>A context for the closed examples, where nothing throws and the codec is trivial.\<close>

definition demo_codec :: codec where
  "demo_codec = \<lparr>ser = (\<lambda>_. []), ser_env = (\<lambda>e. env_payload e),
     parse_env = (\<lambda>b. Some \<lparr>env_seq = 0, env_ts = 0, env_type = MT_CHAT_ENVELOPE, env_payload = b\<rparr>),
     parse_hello = (\<lambda>_. Some \<lparr>protocol_version = 1, client_version = ''demo''\<rparr>),
     parse_auth = (\<lambda>_. None), parse_chat = (\<lambda>_. None), parse_typing = (\<lambda>_. None),
     parse_receipt = (\<lambda>_. None), parse_signal = (\<lambda>_. None), parse_voice_room = (\<lambda>_. None),
     parse_key_upload = (\<lambda>_. None), parse_key_request = (\<lambda>_. None), parse_command = (\<lambda>_. None),
     parse_upload_request = (\<lambda>_. None), parse_upload_chunk = (\<lambda>_. None),
     parse_download = (\<lambda>_. None), parse_file_list = (\<lambda>_. None)\<rparr>"

definition demo_ctx :: ctx where
  "demo_ctx = \<lparr>codec = demo_codec, steady_now = 0, unix_ms = 1000000, random_bytes = (\<lambda>n. replicate n 7),
     sql_throws = (\<lambda>_. False), sql_what = (\<lambda>_. ''error''),
     ed25519_verify = (\<lambda>_ _ _. True),
     pwhash_str = (\<lambda>p. Some (to_bytes p)), pwhash_verify = (\<lambda>h p. h = to_bytes p),
     sha256 = (\<lambda>b. take 32 (b @ replicate 32 0)), clamd = (\<lambda>_. Inr [''stream: '', ''OK''])\<rparr>"

lemma quiet_demo [simp]: "quiet demo_ctx"
  by (simp add: quiet_def demo_ctx_def)

lemma demo_ctx_simps [simp]:
  "codec demo_ctx = demo_codec" "steady_now demo_ctx = 0" "unix_ms demo_ctx = 1000000"
  "random_bytes demo_ctx n = replicate n 7" "sql_throws demo_ctx st = False"
  "sql_what demo_ctx st = ''error''"
  "ed25519_verify demo_ctx a b c = True" "pwhash_str demo_ctx pw = Some (to_bytes pw)"
  "pwhash_verify demo_ctx h pw \<longleftrightarrow> h = to_bytes pw"
  "sha256 demo_ctx m = take 32 (m @ replicate 32 0)" "clamd demo_ctx m = Inr [''stream: '', ''OK'']"
  by (simp_all add: demo_ctx_def)

end
