(* ===== verification/Database.thy ===== *)
theory Database
  imports Protocol
begin

text \<open>
  The server's SQLite database: the tables that \<open>grotto-chat-server/src/db/database.cpp\<close> and
  \<open>db/file_store.cpp\<close> create, with their keys and foreign keys.  A table with a text primary key is
  an association list; the others are row lists in insertion order with the next
  \<open>AUTOINCREMENT\<close> id.  Integer columns hold integers, as SQLite does.
\<close>

record user_row =
  ur_identity_pub :: bytes
  ur_password_hash :: "bytes option"
  ur_created_at :: int

record spk_row =
  sr_pub :: bytes
  sr_sig :: bytes
  sr_id :: int
  sr_registration_id :: int
  sr_uploaded_at :: int

record opk_row =
  or_id :: nat
  or_user :: string
  or_pub :: bytes
  or_opk_id :: int
  or_used :: bool

record off_row =
  off_id :: nat
  off_recipient :: string
  off_payload :: bytes
  off_stored_at :: int
  off_expires_at :: int

record file_row =
  fr_filename :: string
  fr_file_size :: int
  fr_mime_type :: string
  fr_sender_id :: string
  fr_recipient_id :: string
  fr_channel_id :: string
  fr_uploaded_at :: int
  fr_expires_at :: int
  fr_checksum :: "bytes option"
  fr_storage_path :: string
  fr_is_complete :: bool
  fr_is_encrypted :: bool
  fr_encrypted_key :: "bytes option"

record chunk_row =
  ck_data :: bytes
  ck_size :: int

record db =
  users :: "(string \<times> user_row) list"
  signed_prekeys :: "(string \<times> spk_row) list"
  one_time_prekeys :: "opk_row list"
  opk_next :: nat
  offline_messages :: "off_row list"
  off_next :: nat
  files :: "(string \<times> file_row) list"
  file_chunks :: "((string \<times> int) \<times> chunk_row) list"

definition empty_db :: db where
  "empty_db = \<lparr>users = [], signed_prekeys = [], one_time_prekeys = [], opk_next = 1,
     offline_messages = [], off_next = 1, files = [], file_chunks = []\<rparr>"

subsection \<open>Referential integrity\<close>

text \<open>
  The constraints SQLite enforces with \<open>foreign_keys=ON\<close>: primary keys are unique, every pre-key
  belongs to a user and every chunk to a file, and \<open>AUTOINCREMENT\<close> ids grow.
\<close>

definition users_fk :: "db \<Rightarrow> bool" where
  "users_fk d \<longleftrightarrow> keys_distinct (users d) \<and> keys_distinct (signed_prekeys d) \<and>
     fst ` set (signed_prekeys d) \<subseteq> fst ` set (users d) \<and>
     or_user ` set (one_time_prekeys d) \<subseteq> fst ` set (users d)"

definition opk_wf :: "db \<Rightarrow> bool" where
  "opk_wf d \<longleftrightarrow> sorted_wrt (<) (map or_id (one_time_prekeys d)) \<and>
     (\<forall>r \<in> set (one_time_prekeys d). or_id r < opk_next d)"

definition off_wf :: "db \<Rightarrow> bool" where
  "off_wf d \<longleftrightarrow> sorted_wrt (<) (map off_id (offline_messages d)) \<and>
     (\<forall>r \<in> set (offline_messages d). off_id r < off_next d)"

definition files_fk :: "db \<Rightarrow> bool" where
  "files_fk d \<longleftrightarrow> keys_distinct (files d) \<and> keys_distinct (file_chunks d) \<and>
     (\<forall>k \<in> fst ` set (file_chunks d). fst k \<in> fst ` set (files d))"

definition db_ok :: "db \<Rightarrow> bool" where
  "db_ok d \<longleftrightarrow> users_fk d \<and> opk_wf d \<and> off_wf d \<and> files_fk d"

lemmas db_ok_defs = db_ok_def users_fk_def opk_wf_def off_wf_def files_fk_def

lemma db_ok_empty [inv_intros]: "db_ok empty_db"
  by (simp add: db_ok_defs empty_db_def)

lemma db_okI [inv_intros]:
  "users_fk d \<Longrightarrow> opk_wf d \<Longrightarrow> off_wf d \<Longrightarrow> files_fk d \<Longrightarrow> db_ok d"
  by (simp add: db_ok_def)

end
