(* ===== verification/Virus_Scanner.thy ===== *)
theory Virus_Scanner
  imports Protocol
begin

text \<open>
  The ClamAV client, from \<open>grotto-chat-server/src/security/virus_scanner.cpp\<close>: the framing of the
  INSTREAM command, the reading and the interpretation of the answer, and the manager that decides
  whether a scan takes place.  The daemon and the sockets are the parameter \<open>clamd\<close>.  Times are left
  out of the statistics.
\<close>

record scan_result =
  sr_clean :: bool
  sr_error :: bool
  sr_virus_name :: string
  sr_error_message :: string

definition no_result :: scan_result where
  "no_result = \<lparr>sr_clean = False, sr_error = False, sr_virus_name = [], sr_error_message = []\<rparr>"

subsection \<open>Answers\<close>

definition trim_response :: "string \<Rightarrow> string" where
  "trim_response r = rev (dropWhile (\<lambda>c. code c = 0 \<or> code c = 10 \<or> code c = 13) (rev r))"

text \<open>The receive loop stops at the end of the input or after a piece that completes a line.\<close>

fun receive_loop :: "string \<Rightarrow> string list \<Rightarrow> string" where
  "receive_loop acc [] = acc"
| "receive_loop acc (p # ps) =
     (if p = [] then acc
      else if \<exists>c \<in> set (acc @ p). code c = 0 \<or> code c = 10 then acc @ p
      else receive_loop (acc @ p) ps)"

definition receive_response :: "string list \<Rightarrow> string option" where
  "receive_response pieces =
     (let response = trim_response (receive_loop [] pieces)
      in if response = [] then None else Some response)"

definition parse_scan_result :: "string \<Rightarrow> scan_result" where
  "parse_scan_result response =
     (let trimmed = trim_response response
      in if trimmed = [] then no_result\<lparr>sr_error := True, sr_error_message := ''Empty response from clamd''\<rparr>
         else if length trimmed \<ge> 3 \<and> ends_with ''OK'' trimmed then no_result\<lparr>sr_clean := True\<rparr>
         else if length trimmed \<ge> 5 \<and> ends_with ''FOUND'' trimmed then
           no_result\<lparr>sr_virus_name :=
             (case (str_rfind '':'' trimmed, str_rfind '' FOUND'' trimmed) of
                (Some colon, Some found) \<Rightarrow>
                  if colon + 2 \<le> found then take (found - (colon + 2)) (drop (colon + 2) trimmed) else trimmed
              | _ \<Rightarrow> trimmed)\<rparr>
         else no_result\<lparr>sr_error := True, sr_error_message :=
             (case str_rfind '':'' trimmed of
                Some colon \<Rightarrow> if colon + 2 < length trimmed then drop (colon + 2) trimmed else trimmed
              | None \<Rightarrow> trimmed)\<rparr>)"

subsection \<open>Requests\<close>

abbreviation kChunkBytes :: nat where "kChunkBytes \<equiv> 65536"

function instream_frames :: "bytes \<Rightarrow> bytes" where
  "instream_frames data =
     (if data = [] then be_bytes 4 0
      else let n = min kChunkBytes (length data)
           in be_bytes 4 n @ take n data @ instream_frames (drop n data))"
  by pat_completeness auto
termination by (relation "measure length") auto

declare instream_frames.simps [simp del]

definition instream_request :: "bytes \<Rightarrow> bytes" where
  "instream_request data = to_bytes ''zINSTREAM'' @ [0] @ instream_frames data"

text \<open>A scanner: its size limit and the text of the last error.\<close>

record virus_scanner =
  max_scan_size :: nat
  last_error :: string

definition send_instream :: "ctx \<Rightarrow> bytes \<Rightarrow> virus_scanner \<Rightarrow> string option \<times> virus_scanner" where
  "send_instream X data v =
     (case clamd X (instream_request data) of
        Inl err \<Rightarrow> (None, v\<lparr>last_error := err\<rparr>)
      | Inr pieces \<Rightarrow>
          (case receive_response pieces of
             None \<Rightarrow> (None, v\<lparr>last_error := ''Failed to receive INSTREAM response from clamd''\<rparr>)
           | Some r \<Rightarrow> (Some r, v\<lparr>last_error := []\<rparr>)))"

definition send_command :: "ctx \<Rightarrow> string \<Rightarrow> virus_scanner \<Rightarrow> string option \<times> virus_scanner" where
  "send_command X cmd v =
     (case clamd X (if cmd = [] \<or> code (last cmd) \<noteq> 0 then to_bytes cmd @ [0] else to_bytes cmd) of
        Inl err \<Rightarrow> (None, v\<lparr>last_error := err\<rparr>)
      | Inr pieces \<Rightarrow>
          (case receive_response pieces of
             None \<Rightarrow> (None, v\<lparr>last_error := ''Failed to receive response from clamd''\<rparr>)
           | Some r \<Rightarrow> (Some r, v\<lparr>last_error := []\<rparr>)))"

definition vs_ping :: "ctx \<Rightarrow> virus_scanner \<Rightarrow> bool \<times> virus_scanner" where
  "vs_ping X v =
     (let (response, v) = send_command X ''zPING'' v
      in (case response of None \<Rightarrow> False | Some r \<Rightarrow> trim_response r = ''PONG'', v))"

definition vs_scan :: "ctx \<Rightarrow> bytes \<Rightarrow> virus_scanner \<Rightarrow> scan_result \<times> virus_scanner" where
  "vs_scan X data v =
     (if length data > max_scan_size v
      then (no_result\<lparr>sr_error := True, sr_error_message := ''File exceeds configured ClamAV scan size''\<rparr>, v)
      else
        let (response, v) = send_instream X data v
        in case response of
             None \<Rightarrow> (no_result\<lparr>sr_error := True, sr_error_message :=
                 (if last_error v = [] then ''No response from clamd'' else last_error v)\<rparr>, v)
           | Some r \<Rightarrow> (parse_scan_result r, v))"

subsection \<open>The manager\<close>

record scan_stats =
  files_scanned :: nat
  threats_found :: nat
  scan_errors :: nat

record scanner_manager =
  sm_scanner :: "virus_scanner option"
  sm_enabled :: bool
  sm_available :: bool
  sm_configured :: bool
  sm_stats :: scan_stats

definition new_manager :: scanner_manager where
  "new_manager = \<lparr>sm_scanner = None, sm_enabled = True, sm_available = False, sm_configured = False,
     sm_stats = \<lparr>files_scanned = 0, threats_found = 0, scan_errors = 0\<rparr>\<rparr>"

definition sm_initialize :: "ctx \<Rightarrow> scanner_manager \<Rightarrow> bool \<times> scanner_manager" where
  "sm_initialize X m =
     (let (pong, v) = vs_ping X \<lparr>max_scan_size = 100 * 1024 * 1024, last_error = []\<rparr>
      in (pong, m\<lparr>sm_configured := True, sm_available := pong, sm_scanner :=
            Some (if pong then snd (send_command X ''zVERSION'' v) else v)\<rparr>))"

definition sm_is_available :: "scanner_manager \<Rightarrow> bool" where
  "sm_is_available m \<longleftrightarrow> sm_enabled m \<and> sm_configured m \<and> sm_available m"

definition sm_scan :: "ctx \<Rightarrow> bytes \<Rightarrow> scanner_manager \<Rightarrow> scan_result \<times> scanner_manager" where
  "sm_scan X data m =
     (if \<not> sm_configured m then (no_result\<lparr>sr_clean := True\<rparr>, m)
      else if \<not> sm_enabled m then (no_result\<lparr>sr_clean := True\<rparr>, m)
      else case sm_scanner m of
        None \<Rightarrow> (no_result\<lparr>sr_error := True, sr_error_message := ''ClamAV is configured but unavailable''\<rparr>, m)
      | Some v \<Rightarrow>
          if \<not> sm_available m
          then (no_result\<lparr>sr_error := True, sr_error_message := ''ClamAV is configured but unavailable''\<rparr>, m)
          else
            let (result, v) = vs_scan X data v;
                st = sm_stats m
            in (result, m\<lparr>sm_scanner := Some v, sm_stats := \<lparr>
                  files_scanned = files_scanned st + 1,
                  threats_found = threats_found st + (if \<not> sr_clean result \<and> \<not> sr_error result then 1 else 0),
                  scan_errors = scan_errors st + (if sr_error result then 1 else 0)\<rparr>\<rparr>))"

subsection \<open>The daemon receives the file\<close>

text \<open>How clamd reads the INSTREAM payload: length-prefixed pieces up to a zero length.\<close>

fun instream_read :: "nat \<Rightarrow> bytes \<Rightarrow> (bytes \<times> bytes) option" where
  "instream_read 0 bs = None"
| "instream_read (Suc fuel) bs =
     (if length bs < 4 then None
      else let n = be_value (take 4 bs); r = drop 4 bs
           in if n = 0 then Some ([], r)
              else if length r < n then None
              else map_option (\<lambda>(d, rest). (take n r @ d, rest)) (instream_read fuel (drop n r)))"

lemma instream_read_piece:
  assumes "0 < length p" and "length p < 256 ^ 4"
  shows "instream_read (Suc f) (be_bytes 4 (length p) @ p @ r) =
    map_option (\<lambda>(d, rest). (p @ d, rest)) (instream_read f r)"
  using assms(1) by (simp add: be_value_be_bytes [OF assms(2)])

lemma instream_read_frames:
  "length data < fuel \<Longrightarrow> instream_read fuel (instream_frames data @ rest) = Some (data, rest)"
proof (induction data arbitrary: fuel rule: instream_frames.induct)
  case (1 data)
  show ?case
  proof (cases "data = []")
    case True
    have "instream_frames [] = be_bytes 4 0" by (simp add: instream_frames.simps)
    moreover obtain f where "fuel = Suc f" using "1.prems" by (cases fuel) auto
    ultimately show ?thesis using True by (simp add: be_value_be_bytes)
  next
    case False
    let ?n = "min kChunkBytes (length data)"
    have n: "0 < ?n" "?n < 256 ^ 4" "?n \<le> length data" using False by auto
    obtain f where f: "fuel = Suc f" using "1.prems" by (cases fuel) auto
    have len: "length (drop ?n data) < f" using False "1.prems" f by (cases data) (auto simp: min_def)
    have "instream_frames data = be_bytes 4 ?n @ take ?n data @ instream_frames (drop ?n data)"
      using False by (subst instream_frames.simps) (simp add: Let_def)
    then have "instream_read fuel (instream_frames data @ rest) =
        map_option (\<lambda>(d, rest). (take ?n data @ d, rest)) (instream_read f (instream_frames (drop ?n data) @ rest))"
      using instream_read_piece [of "take ?n data" f "instream_frames (drop ?n data) @ rest"] n f
      by simp
    also have "\<dots> = Some (take ?n data @ drop ?n data, rest)"
      by (simp only: "1.IH" [OF False refl len] option.map prod.case)
    finally show ?thesis by simp
  qed
qed

text \<open>
  The virus scanner is given the whole file.  The request is the INSTREAM command followed by
  non-empty pieces of at most 64 KiB and the zero-length terminator; reading it back as the daemon
  does returns exactly the data and nothing is left over.
\<close>

theorem instream_carries_file:
  "take 10 (instream_request data) = to_bytes ''zINSTREAM'' @ [0] \<and>
   instream_read (Suc (length data)) (drop 10 (instream_request data)) = Some (data, [])"
  using instream_read_frames [of data "Suc (length data)" "[]"]
  by (simp add: instream_request_def to_bytes_def)

lemma parse_clean: "sr_clean (parse_scan_result r) \<Longrightarrow>
    ends_with ''OK'' (trim_response r) \<and> \<not> sr_error (parse_scan_result r)"
  by (auto simp: parse_scan_result_def no_result_def Let_def split: if_splits option.splits)



end
