(* ===== verification/Reserved_Identity.thy ===== *)
theory Reserved_Identity
  imports Grotto_Prelude
begin

text \<open>
  Reserved user ids, from \<open>grotto-chat-server/src/admin/reserved_identity.cpp\<close>, and the user-id
  validation of \<open>db/user_store.cpp\<close> that relies on them.  The twelve built-in regular expressions
  use only literals, \<open>^\<close> and \<open>.*\<close>; they are modelled by a small pattern type with its matcher.
  The expressions an operator adds in the configuration may use all of \<open>std::regex\<close>: the matcher
  for those is a parameter that returns \<open>None\<close> where \<open>std::regex\<close> throws \<open>regex_error\<close>.
\<close>

subsection \<open>Definitions\<close>

datatype pat = Lit string | AnyStar

text \<open>\<open>regex_match\<close> for a sequence of literals and \<open>.*\<close>; the dot does not match line ends.\<close>

definition dot_char :: "char \<Rightarrow> bool" where
  "dot_char c \<longleftrightarrow> code c \<noteq> 10 \<and> code c \<noteq> 13"

function regex_match :: "pat list \<Rightarrow> string \<Rightarrow> bool" where
  "regex_match [] s = (s = [])"
| "regex_match (Lit p # ps) s = (starts_with p s \<and> regex_match ps (drop (length p) s))"
| "regex_match (AnyStar # ps) [] = regex_match ps []"
| "regex_match (AnyStar # ps) (c # s) =
     (regex_match ps (c # s) \<or> (dot_char c \<and> regex_match (AnyStar # ps) s))"
  by pat_completeness auto
termination
  by (relation "measure (\<lambda>(ps, s). length ps + length s)") auto

definition exact_reserved :: "string list" where
  "exact_reserved =
     [''admin'', ''administrator'', ''root'', ''sysop'', ''operator'', ''grotto'', ''server'',
      ''system'', ''owner'', ''founder'', ''boss'', ''god'', ''master'', ''sysadmin'',
      ''webmaster'', ''postmaster'', ''hostmaster'', ''abuse'', ''security'', ''support'',
      ''help'', ''info'', ''service'', ''bot'', '' Grotto'', ''mod'', ''moderator'',
      ''superuser'', ''su'']"

definition pattern_reserved :: "pat list list" where
  "pattern_reserved =
     [[Lit ''adm'', AnyStar],
      [AnyStar, Lit ''admin'', AnyStar],
      [AnyStar, Lit ''adm1n'', AnyStar],
      [AnyStar, Lit ''4dmin'', AnyStar],
      [Lit ''root'', AnyStar],
      [Lit ''sys'', AnyStar],
      [Lit ''oper'', AnyStar],
      [Lit ''grotto'', AnyStar],
      [Lit ''server'', AnyStar],
      [Lit ''sys'', AnyStar, Lit ''admin'', AnyStar],
      [Lit ''web'', AnyStar, Lit ''master'', AnyStar],
      [Lit ''host'', AnyStar, Lit ''master'', AnyStar]]"

text \<open>All patterns carry the \<open>icase\<close> flag and hold lower-case literals only.\<close>

definition regex_imatch :: "pat list \<Rightarrow> string \<Rightarrow> bool" where
  "regex_imatch p s = regex_match p (lower_string s)"

fun normalize_ident :: "string \<Rightarrow> string" where
  "normalize_ident [] = []"
| "normalize_ident (c # cs) =
     (if c_isupper c then char_of (code c + 32) # normalize_ident cs
      else if c_islower c then c # normalize_ident cs
      else if c_isdigit c then c # normalize_ident cs
      else normalize_ident cs)"

definition leet_char :: "char \<Rightarrow> char" where
  "leet_char c =
     (if c \<in> set ''4@'' then CHR ''a''
      else if c \<in> set ''1!|'' then CHR ''i''
      else if c = CHR ''3'' then CHR ''e''
      else if c = CHR ''0'' then CHR ''o''
      else if c \<in> set ''5$'' then CHR ''s''
      else if c = CHR ''7'' then CHR ''t''
      else if c = CHR ''8'' then CHR ''b''
      else if c \<in> set ''9g'' then CHR ''g''
      else if c = CHR ''2'' then CHR ''z''
      else if c = CHR ''+'' then CHR ''t''
      else if c = CHR ''('' then CHR ''c''
      else if c = CHR '')'' then CHR ''d''
      else c)"

definition normalize_leet :: "string \<Rightarrow> string" where
  "normalize_leet s = map leet_char s"

fun additional_match :: "(string \<Rightarrow> string \<Rightarrow> bool option) \<Rightarrow> string list \<Rightarrow> string \<Rightarrow> bool" where
  "additional_match rx [] s = False"
| "additional_match rx (p # ps) s =
     (case rx p s of
        Some True \<Rightarrow> True
      | _ \<Rightarrow> additional_match rx ps s)"

definition is_reserved :: "(string \<Rightarrow> string \<Rightarrow> bool option) \<Rightarrow> string \<Rightarrow> string list \<Rightarrow> bool" where
  "is_reserved rx nickname additional_patterns =
     (if nickname = [] then False
      else let normalized = normalize_ident nickname in
        if normalized \<in> set exact_reserved then True
        else if \<exists>p \<in> set pattern_reserved. regex_imatch p normalized then True
        else if additional_match rx additional_patterns normalized then True
        else let leet = normalize_leet normalized in
          if leet \<noteq> normalized \<and> leet \<in> set exact_reserved then True
          else if leet \<noteq> normalized \<and> (\<exists>p \<in> set pattern_reserved. regex_imatch p leet) then True
          else if length normalized > 1 \<and> c_isdigit (hd normalized) then
            (let rest = tl normalized
             in rest \<in> set exact_reserved \<or> regex_imatch (hd pattern_reserved) rest)
          else False)"

definition is_owner :: "string \<Rightarrow> bool" where
  "is_owner user_id \<longleftrightarrow> user_id = ''admin''"

fun contains_unicode_homoglyphs :: "string \<Rightarrow> bool" where
  "contains_unicode_homoglyphs [] = False"
| "contains_unicode_homoglyphs (c # cs) =
     (if code c > 127 then True
      else if code c div 32 = 6 \<or> code c div 16 = 14 \<or> code c div 8 = 30 then True
      else contains_unicode_homoglyphs cs)"

text \<open>
  \<open>UserStore::validate_user_id\<close>: the empty string means valid, any other string is the reason.
\<close>

definition validate_user_id ::
  "(string \<Rightarrow> string \<Rightarrow> bool option) \<Rightarrow> string \<Rightarrow> string list \<Rightarrow> string" where
  "validate_user_id rx user_id additional_reserved =
     (if length user_id < 2 then ''User ID must be at least 2 characters''
      else if length user_id > 32 then ''User ID must be at most 32 characters''
      else if \<exists>c \<in> set user_id. \<not> c_isalnum c \<and> c \<noteq> CHR ''_'' \<and> c \<noteq> CHR ''-'' then
        ''User ID can only contain letters, numbers, underscores, and hyphens''
      else if is_reserved rx user_id additional_reserved then
        ''This user ID is reserved and cannot be used''
      else if contains_unicode_homoglyphs user_id then
        ''User ID contains unsupported characters''
      else [])"

subsection \<open>Normalisation\<close>

lemma normalize_filter:
  "normalize_ident s = lower_string (filter c_isalnum s)"
  by (induction s) (auto simp: c_tolower_def c_isalnum_def c_isupper_def c_islower_def c_isdigit_def)

lemma normalize_lower [simp]: "normalize_ident (lower_string s) = normalize_ident s"
  by (simp add: normalize_filter filter_map comp_def)

lemma normalize_append [simp]: "normalize_ident (s @ t) = normalize_ident s @ normalize_ident t"
  by (simp add: normalize_filter)

lemma normalize_insert_separator:
  "\<not> c_isalnum c \<Longrightarrow> normalize_ident (s @ c # t) = normalize_ident (s @ t)"
  by (simp add: normalize_filter)

lemma is_reserved_normalize:
  "s \<noteq> [] \<Longrightarrow> t \<noteq> [] \<Longrightarrow> normalize_ident s = normalize_ident t \<Longrightarrow>
   is_reserved rx s ps = is_reserved rx t ps"
  by (simp add: is_reserved_def)

text \<open>
  A name cannot escape the reserved list by changing case or by inserting separators: for any
  non-empty name the decision is the same as for the name in lower case, and the same as for the
  name with one more non-alphanumeric character at any place.
\<close>

theorem is_reserved_case_and_separators:
  assumes "s @ t \<noteq> []" and "\<not> c_isalnum c"
  shows "is_reserved rx (lower_string (s @ t)) ps = is_reserved rx (s @ t) ps \<and>
         is_reserved rx (s @ c # t) ps = is_reserved rx (s @ t) ps"
proof
  show "is_reserved rx (lower_string (s @ t)) ps = is_reserved rx (s @ t) ps"
    using assms(1) by (intro is_reserved_normalize) (auto simp del: map_append)
  show "is_reserved rx (s @ c # t) ps = is_reserved rx (s @ t) ps"
    using assms by (intro is_reserved_normalize) (auto simp: normalize_insert_separator simp del: normalize_append)
qed

theorem is_reserved_case_and_separators_witness:
  "is_reserved (\<lambda>_ _. None) ''Ad-min'' [] \<and> is_reserved (\<lambda>_ _. None) ''Admin'' []"
proof -
  have "is_reserved (\<lambda>_ _. None) ''Admin'' []" by code_simp
  moreover have "\<not> c_isalnum CHR ''-''" by code_simp
  ultimately show ?thesis
    using is_reserved_case_and_separators [of "''Ad''" "''min''" "CHR ''-''" "\<lambda>_ _. None" "[]"]
    by simp
qed

subsection \<open>Pattern matching\<close>

lemma starts_with_append [simp]: "starts_with p (p @ s)"
  by (simp add: starts_with_def)

lemma regex_match_star_end: "\<forall>c \<in> set s. dot_char c \<Longrightarrow> regex_match [AnyStar] s"
  by (induction s) auto

lemma regex_match_star_skip:
  "\<forall>c \<in> set s. dot_char c \<Longrightarrow> regex_match ps t \<Longrightarrow> regex_match (AnyStar # ps) (s @ t)"
proof (induction s)
  case Nil
  then show ?case by (cases t) auto
next
  case (Cons c s)
  then show ?case by simp
qed

lemma c_isalnum_dot: "c_isalnum c \<Longrightarrow> dot_char c"
  by (auto simp: char_class_defs dot_char_def)

lemma normalize_dot: "c \<in> set (normalize_ident s) \<Longrightarrow> dot_char c"
  by (auto simp: normalize_filter intro: c_isalnum_dot)

lemma normalize_lower_case [simp]: "lower_string (normalize_ident s) = normalize_ident s"
  by (simp add: normalize_filter)

text \<open>
  Every name whose normal form contains \<open>admin\<close> or begins with \<open>adm\<close> is reserved, whatever
  surrounds it and whatever patterns the configuration adds.
\<close>

theorem is_reserved_admin_variants:
  assumes "normalize_ident s = a @ ''admin'' @ b \<or> normalize_ident s = ''adm'' @ b"
  shows "is_reserved rx s ps"
proof -
  have s: "s \<noteq> []" using assms by auto
  have dot: "\<forall>c \<in> set (normalize_ident s). dot_char c" using normalize_dot by blast
  have "\<exists>p \<in> set pattern_reserved. regex_imatch p (normalize_ident s)"
    using assms
  proof
    assume eq: "normalize_ident s = a @ ''admin'' @ b"
    with dot have "\<forall>c \<in> set a. dot_char c" and "\<forall>c \<in> set b. dot_char c" by simp_all
    then have "regex_match [AnyStar, Lit ''admin'', AnyStar] (a @ ''admin'' @ b)"
      by (intro regex_match_star_skip) (simp_all add: regex_match_star_end starts_with_def)
    then have "regex_match [AnyStar, Lit ''admin'', AnyStar] (normalize_ident s)" by (simp only: eq)
    then have "regex_imatch [AnyStar, Lit ''admin'', AnyStar] (normalize_ident s)" by (simp add: regex_imatch_def)
    then show ?thesis by (auto simp: pattern_reserved_def)
  next
    assume eq: "normalize_ident s = ''adm'' @ b"
    with dot have "regex_match [Lit ''adm'', AnyStar] (''adm'' @ b)"
      by (simp add: regex_match_star_end starts_with_def)
    then have "regex_match [Lit ''adm'', AnyStar] (normalize_ident s)" by (simp only: eq)
    then have "regex_imatch [Lit ''adm'', AnyStar] (normalize_ident s)" by (simp add: regex_imatch_def)
    then show ?thesis by (auto simp: pattern_reserved_def)
  qed
  with s show ?thesis by (simp add: is_reserved_def Let_def)
qed

theorem is_reserved_admin_variants_witness: "is_reserved (\<lambda>_ _. Some False) ''_The-Admin_42'' [''x'']"
proof -
  have "normalize_ident ''_The-Admin_42'' = ''the'' @ ''admin'' @ ''42''" by code_simp
  then show ?thesis by (intro is_reserved_admin_variants) (rule disjI1)
qed

subsection \<open>Validation\<close>

lemma ascii_no_homoglyphs:
  "\<forall>c \<in> set s. c_isalnum c \<or> c = CHR ''_'' \<or> c = CHR ''-'' \<Longrightarrow> \<not> contains_unicode_homoglyphs s"
proof (induction s)
  case Nil
  then show ?case by simp
next
  case (Cons c s)
  then have "c_isalnum c \<or> c = CHR ''_'' \<or> c = CHR ''-''" by simp
  then have "code c < 128" by (auto simp: char_class_defs)
  then have "\<not> code c > 127 \<and> code c div 32 \<noteq> 6 \<and> code c div 16 \<noteq> 14 \<and> code c div 8 \<noteq> 30"
    by arith
  with Cons show ?case by simp
qed

lemma validate_user_id_iff:
  "validate_user_id rx u ps = [] \<longleftrightarrow>
     2 \<le> length u \<and> length u \<le> 32 \<and>
     (\<forall>c \<in> set u. c_isalnum c \<or> c = CHR ''_'' \<or> c = CHR ''-'') \<and> \<not> is_reserved rx u ps"
  by (auto simp: validate_user_id_def dest!: ascii_no_homoglyphs)

text \<open>
  Leet characters outside \<open>a-z0-9\<close> are removed before the leet step sees them, and the entry with
  the leading space can never match.
\<close>

lemma at_dmin_not_reserved: "\<not> is_reserved (\<lambda>_ _. None) ''@dmin'' []"
  by code_simp

lemma space_grotto_never_matches: "normalize_ident s \<noteq> '' Grotto''"
proof
  assume "normalize_ident s = '' Grotto''"
  then have "CHR '' '' \<in> set (normalize_ident s)" by simp
  then have "c_isalnum CHR '' ''" by (auto simp: normalize_filter)
  then show False by (simp add: char_class_defs)
qed

end
