(* ===== verification/Nickname_Utils.thy ===== *)
theory Nickname_Utils
  imports Grotto_Prelude
begin

text \<open>
  Nicknames, from \<open>grotto-chat-server/src/utils/nickname_utils.hpp\<close>: lower-casing, the
  case-insensitive comparison loop, and the suggestions offered when a name is taken.
\<close>

subsection \<open>Definitions\<close>

fun normalize_nickname :: "string \<Rightarrow> string" where
  "normalize_nickname [] = []"
| "normalize_nickname (c # cs) = c_tolower c # normalize_nickname cs"

fun nick_compare_loop :: "string \<Rightarrow> string \<Rightarrow> bool" where
  "nick_compare_loop (a # as) (b # bs) =
     (if c_tolower a \<noteq> c_tolower b then False else nick_compare_loop as bs)"
| "nick_compare_loop _ _ = True"

definition nicknames_equal :: "string \<Rightarrow> string \<Rightarrow> bool" where
  "nicknames_equal a b = (if length a \<noteq> length b then False else nick_compare_loop a b)"

function suggestion_loop :: "string \<Rightarrow> nat \<Rightarrow> nat \<Rightarrow> string list \<Rightarrow> string list" where
  "suggestion_loop desired count i acc =
     (if i \<le> count \<and> length acc < count
      then suggestion_loop desired count (i + 1) (acc @ [desired @ show_nat i]) else acc)"
  by pat_completeness auto
termination
  by (relation "measure (\<lambda>(d, count, i, acc). Suc count - i)") auto

declare suggestion_loop.simps [simp del]

definition generate_nick_suggestions :: "string \<Rightarrow> nat \<Rightarrow> string list" where
  "generate_nick_suggestions desired count =
     (let suggestions = suggestion_loop desired count 1 []
      in if length suggestions < count then suggestions @ [desired @ ''_''] else suggestions)"

fun format_suggestions_loop :: "nat \<Rightarrow> nat \<Rightarrow> string \<Rightarrow> string list \<Rightarrow> string" where
  "format_suggestions_loop n i result [] = result"
| "format_suggestions_loop n i result (s # ss) =
     format_suggestions_loop n (Suc i)
       (result @ (if i > 0 then (if i = n - 1 then '', or '' else '', '') else []) @ s) ss"

definition format_nick_suggestions :: "string list \<Rightarrow> string" where
  "format_nick_suggestions suggestions =
     (if suggestions = [] then []
      else format_suggestions_loop (length suggestions) 0 '' Try: '' suggestions)"

subsection \<open>Case-insensitive comparison\<close>

lemma normalize_nickname_map: "normalize_nickname s = lower_string s"
  by (induction s) simp_all

lemma normalize_nickname_idem [simp]:
  "normalize_nickname (normalize_nickname s) = normalize_nickname s"
  by (simp add: normalize_nickname_map)

lemma nick_compare_loop_map:
  "length a = length b \<Longrightarrow> nick_compare_loop a b \<longleftrightarrow> lower_string a = lower_string b"
  by (induction a b rule: nick_compare_loop.induct) auto

lemma nicknames_equal_norm:
  "nicknames_equal a b \<longleftrightarrow> normalize_nickname a = normalize_nickname b"
proof (cases "length a = length b")
  case True
  then show ?thesis
    by (simp add: nicknames_equal_def nick_compare_loop_map normalize_nickname_map)
next
  case False
  then have "lower_string a \<noteq> lower_string b" by (metis length_map)
  with False show ?thesis by (simp add: nicknames_equal_def normalize_nickname_map)
qed

text \<open>
  The comparison loop used for lookups and the normal form used for the online-name check
  agree: two nicknames compare equal exactly when their normalised forms are the same string.
\<close>

theorem nicknames_equal_iff_normalized:
  "nicknames_equal a b \<longleftrightarrow> normalize_nickname a = normalize_nickname b"
  by (rule nicknames_equal_norm)

lemma nicknames_equal_refl [simp]: "nicknames_equal a a"
  by (simp add: nicknames_equal_norm)

subsection \<open>Suggestions\<close>

lemma suggestion_loop_eq:
  assumes "length acc + 1 = i" and "i \<le> Suc count"
  shows "suggestion_loop desired count i acc =
           acc @ map (\<lambda>k. desired @ show_nat k) [i..<Suc count]"
  using assms
proof (induction desired count i acc rule: suggestion_loop.induct)
  case (1 desired count i acc)
  show ?case
  proof (cases "i \<le> count")
    case True
    with "1.prems" have "suggestion_loop desired count i acc =
        suggestion_loop desired count (i + 1) (acc @ [desired @ show_nat i])"
      by (subst suggestion_loop.simps) simp
    also have "\<dots> = (acc @ [desired @ show_nat i]) @
        map (\<lambda>k. desired @ show_nat k) [i + 1..<Suc count]"
      using "1.prems" True by (intro "1.IH") auto
    also have "\<dots> = acc @ map (\<lambda>k. desired @ show_nat k) [i..<Suc count]"
      using True by (simp add: upt_conv_Cons [of i "Suc count"] del: upt_Suc)
    finally show ?thesis .
  next
    case False
    with "1.prems" show ?thesis by (subst suggestion_loop.simps) simp
  qed
qed

text \<open>
  Exactly \<open>count\<close> suggestions are generated, the desired name followed by \<open>1\<close> up to \<open>count\<close>;
  they are pairwise different and none is the rejected name.  (The fallback that appends an
  underscore is therefore never reached.)
\<close>

theorem generate_nick_suggestions_numbered:
  "generate_nick_suggestions d count = map (\<lambda>k. d @ show_nat k) [1..<Suc count] \<and>
   length (generate_nick_suggestions d count) = count \<and>
   distinct (generate_nick_suggestions d count) \<and>
   d \<notin> set (generate_nick_suggestions d count)"
proof -
  have "suggestion_loop d count 1 [] = map (\<lambda>k. d @ show_nat k) [1..<Suc count]"
    by (simp add: suggestion_loop_eq)
  then have eq: "generate_nick_suggestions d count = map (\<lambda>k. d @ show_nat k) [1..<Suc count]"
    by (simp add: generate_nick_suggestions_def)
  show ?thesis by (auto simp: eq distinct_map inj_on_def simp del: upt_Suc)
qed

end
