(* ===== verification/Channel_Utils.thy ===== *)
theory Channel_Utils
  imports Grotto_Prelude
begin

text \<open>
  Channel names, from \<open>grotto-chat-server/src/utils/channel_utils.hpp\<close>: the prefix and character
  classes, the sanitising loop with its two flags, and the validity test the command handler
  applies to its result.  The loop is compared with a closed form, and the names that pass the
  validity test are shown to be fixed points of the sanitiser.
\<close>

subsection \<open>Definitions\<close>

definition is_channel_prefix :: "char \<Rightarrow> bool" where
  "is_channel_prefix c \<longleftrightarrow> c \<in> set ''#&!+''"

definition is_valid_channel_char :: "char \<Rightarrow> bool" where
  "is_valid_channel_char c \<longleftrightarrow> c_isalnum c \<or> c \<in> set (CHR 0x60 # ''-_[]{}^|~'')"

text \<open>The body of the loop; the flags are \<open>has_prefix\<close> and \<open>prefix_added\<close>.\<close>

fun sanitize_loop :: "bool \<Rightarrow> bool \<Rightarrow> string \<Rightarrow> string \<Rightarrow> bool \<times> string" where
  "sanitize_loop has_prefix prefix_added result [] = (has_prefix, result)"
| "sanitize_loop has_prefix prefix_added result (c # cs) =
     (if \<not> prefix_added \<and> c_isspace c then sanitize_loop has_prefix prefix_added result cs
      else if is_channel_prefix c then
        (if \<not> has_prefix then sanitize_loop True True (result @ ''#'') cs
         else sanitize_loop has_prefix prefix_added result cs)
      else if \<not> is_valid_channel_char c then sanitize_loop has_prefix True result cs
      else sanitize_loop has_prefix True (result @ [c]) cs)"

definition sanitize_channel_name :: "string \<Rightarrow> string" where
  "sanitize_channel_name input =
     (if input = [] then ''#''
      else let (has_prefix, result) = sanitize_loop False False [] input;
               result = (if \<not> has_prefix then CHR ''#'' # result else result)
           in if result = ''#'' then ''#'' else result)"

definition is_valid_channel_name :: "string \<Rightarrow> bool" where
  "is_valid_channel_name channel =
     (case channel of
        [] \<Rightarrow> False
      | c # _ \<Rightarrow> (if \<not> is_channel_prefix c then False else length channel > 1))"

subsection \<open>The loop and its closed form\<close>

lemma space_not_channel_char:
  assumes "c_isspace c" shows "\<not> is_channel_prefix c \<and> \<not> is_valid_channel_char c"
proof -
  have "\<not> c_isalnum c" using assms by (auto simp: char_class_defs)
  moreover have "c \<notin> set (CHR 0x60 # ''-_[]{}^|~'') \<union> set ''#&!+''"
  proof
    assume "c \<in> set (CHR 0x60 # ''-_[]{}^|~'') \<union> set ''#&!+''"
    then have "\<not> c_isspace c" by (elim UnE) (auto simp: char_class_defs)
    with assms show False by simp
  qed
  ultimately show ?thesis by (simp add: is_channel_prefix_def is_valid_channel_char_def)
qed

lemma prefix_not_valid_char: "is_channel_prefix c \<Longrightarrow> \<not> is_valid_channel_char c"
  by (auto simp: is_channel_prefix_def is_valid_channel_char_def char_class_defs)

lemma sanitize_loop_prefixed:
  "sanitize_loop True b r s = (True, r @ filter is_valid_channel_char s)"
  by (induction s arbitrary: b r)
     (auto dest: space_not_channel_char prefix_not_valid_char)

lemma sanitize_loop_unprefixed:
  "sanitize_loop False b r s =
     (if \<exists>c \<in> set s. is_channel_prefix c
      then (True, r @ filter is_valid_channel_char (takeWhile (\<lambda>c. \<not> is_channel_prefix c) s) @
              CHR ''#'' # filter is_valid_channel_char (dropWhile (\<lambda>c. \<not> is_channel_prefix c) s))
      else (False, r @ filter is_valid_channel_char s))"
proof (induction s arbitrary: b r)
  case Nil
  show ?case by simp
next
  case (Cons c s)
  show ?case
  proof (cases "is_channel_prefix c")
    case True
    then have "\<not> c_isspace c" using space_not_channel_char by blast
    with True show ?thesis
      by (simp add: sanitize_loop_prefixed prefix_not_valid_char)
  next
    case False
    then show ?thesis by (auto simp: Cons.IH dest: space_not_channel_char)
  qed
qed

lemma sanitize_unfold:
  "sanitize_channel_name s =
     (if \<exists>c \<in> set s. is_channel_prefix c
      then filter is_valid_channel_char (takeWhile (\<lambda>c. \<not> is_channel_prefix c) s) @
             CHR ''#'' # filter is_valid_channel_char (dropWhile (\<lambda>c. \<not> is_channel_prefix c) s)
      else CHR ''#'' # filter is_valid_channel_char s)"
  by (simp add: sanitize_channel_name_def sanitize_loop_unprefixed)

text \<open>
  The sanitised name is computed exactly as follows.  If the input holds a prefix character,
  the result is the valid characters before the first one, then \<open>#\<close>, then the valid characters
  after it; otherwise it is \<open>#\<close> followed by the valid characters.  All other characters are
  dropped.  (So a prefix character in the middle of the name ends up in the middle.)
\<close>

theorem sanitize_channel_name_closed_form:
  "sanitize_channel_name s =
     (if \<exists>c \<in> set s. is_channel_prefix c
      then filter is_valid_channel_char (takeWhile (\<lambda>c. \<not> is_channel_prefix c) s) @
             CHR ''#'' # filter is_valid_channel_char (dropWhile (\<lambda>c. \<not> is_channel_prefix c) s)
      else CHR ''#'' # filter is_valid_channel_char s)"
  by (rule sanitize_unfold)

lemma hash_is_prefix [simp]: "is_channel_prefix CHR ''#''"
  by (simp add: is_channel_prefix_def)

definition canonical_channel :: "string \<Rightarrow> bool" where
  "canonical_channel s \<longleftrightarrow>
     (\<exists>r. s = CHR ''#'' # r \<and> r \<noteq> [] \<and> (\<forall>c \<in> set r. is_valid_channel_char c))"

lemma valid_sanitized_canonical:
  assumes "is_valid_channel_name (sanitize_channel_name s)"
  shows "canonical_channel (sanitize_channel_name s)"
proof (cases "\<exists>c \<in> set s. is_channel_prefix c")
  case True
  let ?a = "filter is_valid_channel_char (takeWhile (\<lambda>c. \<not> is_channel_prefix c) s)"
  have eq: "sanitize_channel_name s =
      ?a @ CHR ''#'' # filter is_valid_channel_char (dropWhile (\<lambda>c. \<not> is_channel_prefix c) s)"
    using True by (simp only: sanitize_unfold if_True)
  have "?a = []"
  proof (rule ccontr)
    assume "?a \<noteq> []"
    then obtain x xs where xs: "?a = x # xs" by (cases ?a) auto
    then have "x \<in> set ?a" by simp
    then have "\<not> is_channel_prefix x" by (auto dest: set_takeWhileD)
    with xs eq assms show False by (simp add: is_valid_channel_name_def)
  qed
  with eq assms show ?thesis
    by (auto simp: canonical_channel_def is_valid_channel_name_def)
next
  case False
  with assms show ?thesis
    by (auto simp: sanitize_unfold canonical_channel_def is_valid_channel_name_def)
qed

lemma canonical_sanitize:
  assumes "canonical_channel s" shows "sanitize_channel_name s = s"
proof -
  from assms obtain r where s: "s = CHR ''#'' # r" and r: "\<forall>c \<in> set r. is_valid_channel_char c"
    by (auto simp: canonical_channel_def)
  from r have "filter is_valid_channel_char r = r" by simp
  moreover have "\<not> is_valid_channel_char CHR ''#''" by (simp add: prefix_not_valid_char)
  ultimately show ?thesis by (simp add: sanitize_unfold s)
qed

lemma canonical_valid: "canonical_channel s \<Longrightarrow> is_valid_channel_name s"
  by (auto simp: canonical_channel_def is_valid_channel_name_def neq_Nil_conv)

lemma canonical_channel_Cons:
  "canonical_channel s \<Longrightarrow> \<exists>r. s = CHR ''#'' # r"
  by (auto simp: canonical_channel_def)

text \<open>
  A name that survives sanitising and the validity test is canonical (\<open>#\<close> followed by at least
  one allowed character and nothing else), and sanitising it again changes nothing: the key under
  which a channel is stored does not depend on how often the name has been sanitised.
\<close>

theorem sanitize_channel_name_fixpoint:
  assumes "is_valid_channel_name (sanitize_channel_name s)"
  shows "canonical_channel (sanitize_channel_name s) \<and>
         sanitize_channel_name (sanitize_channel_name s) = sanitize_channel_name s"
  using valid_sanitized_canonical [OF assms] canonical_sanitize by blast

theorem sanitize_channel_name_fixpoint_witness:
  "canonical_channel (sanitize_channel_name ''  ##general chat'') \<and>
   sanitize_channel_name ''  ##general chat'' = ''#generalchat''"
proof -
  have eq: "sanitize_channel_name ''  ##general chat'' = ''#generalchat''" by code_simp
  then have "is_valid_channel_name (sanitize_channel_name ''  ##general chat'')"
    by (simp add: is_valid_channel_name_def is_channel_prefix_def)
  from sanitize_channel_name_fixpoint [OF this] eq show ?thesis by simp
qed

text \<open>The documented promise of a \<open>#\<close> prefix fails when the prefix character is not in front.\<close>

lemma sanitize_prefix_in_the_middle:
  "sanitize_channel_name ''general#chat'' = ''general#chat'' \<and>
   \<not> is_valid_channel_name (sanitize_channel_name ''general#chat'')"
proof -
  have "sanitize_channel_name ''general#chat'' = ''general#chat''" by code_simp
  then show ?thesis by (simp add: is_valid_channel_name_def is_channel_prefix_def)
qed

end
