(* ===== verification/Server_State.thy ===== *)
theory Server_State
  imports Database Rate_Limiter Virus_Scanner Reserved_Identity Nickname_Utils Channel_Utils
begin

text \<open>
  The state the server's components share, as one record: the sessions
  (\<open>grotto-chat-server/src/net/session.hpp\<close>), the listener's registry (\<open>net/listener.hpp\<close>), the
  command handler (\<open>commands/command_handler.hpp\<close>), the voice rooms
  (\<open>voice/voice_room_manager.hpp\<close>), the database and the virus scanner.  A session is named by a
  number; a pointer to a session is that number.  What a handler posts to the strand of a session (a
  frame to send, a disconnection) is appended to \<open>out\<close> and executed by later steps.  Handlers are
  modelled as atomic; in the source the mutexes cover single accesses only, and handlers of different
  sessions run on a pool of threads.
\<close>

subsection \<open>Sessions\<close>

datatype session_state = Handshake | Hello | AuthPending | Established | Dead

record upload =
  up_file_id :: string
  up_file_size :: u64
  up_chunk_size :: u32
  up_total_chunks :: u32
  up_received :: "bool list"
  up_bytes :: u64

datatype ping_timer = Timer_off | Timer_interval | Timer_timeout

record session =
  ss_state :: session_state
  ss_user_id :: string
  ss_remote :: string
  next_seq :: u64
  auth_nonce :: bytes
  ping_sent :: bool
  ping_timer :: ping_timer
  msg_rate_limiter :: "rate_limiter option"
  active_uploads :: "string \<Rightarrow> upload option"
  pending_writes :: "bytes list"
  write_in_progress :: bool

definition new_session :: "string \<Rightarrow> session" where
  "new_session remote = \<lparr>ss_state = Handshake, ss_user_id = [], ss_remote = remote, next_seq = 1,
     auth_nonce = [], ping_sent = False, ping_timer = Timer_off, msg_rate_limiter = None,
     active_uploads = (\<lambda>_. None), pending_writes = [], write_in_progress = False\<rparr>"

text \<open>The states are ordered by progress; a session's state only grows.\<close>

fun state_rank :: "session_state \<Rightarrow> nat" where
  "state_rank Handshake = 0"
| "state_rank Hello = 1"
| "state_rank AuthPending = 2"
| "state_rank Established = 3"
| "state_rank Dead = 4"

lemma state_rank_inject: "state_rank a = state_rank b \<longleftrightarrow> a = b"
  by (cases a; cases b) simp_all

instantiation session_state :: linorder
begin

definition less_eq_session_state :: "session_state \<Rightarrow> session_state \<Rightarrow> bool" where
  "less_eq_session_state a b \<longleftrightarrow> state_rank a \<le> state_rank b"

definition less_session_state :: "session_state \<Rightarrow> session_state \<Rightarrow> bool" where
  "less_session_state a b \<longleftrightarrow> state_rank a < state_rank b"

instance
proof
  fix x y z :: session_state
  show "x < y \<longleftrightarrow> x \<le> y \<and> \<not> y \<le> x"
    by (auto simp: less_eq_session_state_def less_session_state_def)
  show "x \<le> x" by (simp add: less_eq_session_state_def)
  show "x \<le> y \<Longrightarrow> y \<le> z \<Longrightarrow> x \<le> z" by (simp add: less_eq_session_state_def)
  show "x \<le> y \<Longrightarrow> y \<le> x \<Longrightarrow> x = y"
    by (simp add: less_eq_session_state_def flip: state_rank_inject)
  show "x \<le> y \<or> y \<le> x" by (auto simp: less_eq_session_state_def)
qed

end

lemma state_le_Dead [simp]: "(st :: session_state) \<le> Dead"
  by (cases st) (simp_all add: less_eq_session_state_def)

subsection \<open>The listener\<close>

record presence_state =
  ps_status :: presence_status
  ps_text :: string
  ps_since_ms :: int

record server_config =
  ping_interval_sec :: int
  ping_timeout_sec :: int
  msg_rate_per_sec :: int
  conn_rate_per_min :: int
  max_connections :: int
  max_chat_payload_bytes :: nat
  max_upload_bytes :: u64
  max_total_storage_bytes :: u64
  max_user_storage_bytes :: u64
  allowed_mime_types :: "string list"
  blocked_mime_types :: "string list"
  cfg_motd :: string
  voice_ice_servers :: "string list"
  voice_turn_username :: string
  voice_turn_password :: string

definition default_config :: server_config where
  "default_config = \<lparr>ping_interval_sec = 30, ping_timeout_sec = 60, msg_rate_per_sec = 20,
     conn_rate_per_min = 10, max_connections = 100, max_chat_payload_bytes = 8192,
     max_upload_bytes = 100 * 1024 * 1024, max_total_storage_bytes = 0, max_user_storage_bytes = 0,
     allowed_mime_types = [], blocked_mime_types = [], cfg_motd = [], voice_ice_servers = [],
     voice_turn_username = [], voice_turn_password = []\<rparr>"

record listener =
  sessions_by_user :: "(string \<times> sid) list"
  users_by_session :: "(sid \<times> string) list"
  user_presence :: "(string \<times> presence_state) list"
  active_connections :: int
  shutting_down :: bool
  ip_rate_map :: "string \<Rightarrow> rate_limiter option"

subsection \<open>The command handler\<close>

record channel_state =
  ch_name :: string
  ch_topic :: string
  ch_members :: "string list"
  ch_operators :: "string list"
  ch_voiced :: "string list"
  ch_banned :: "string list"
  ch_invite_only :: bool
  ch_moderated :: bool
  ch_topic_restricted :: bool
  ch_invites :: "string list"

record abuse_record =
  ar_violations :: nat
  ar_first :: int
  ar_last :: int
  ar_banned :: bool

record user_limits =
  command_limiter :: rate_limiter
  join_limiter :: rate_limiter

text \<open>The two quota limits are copies of the configuration taken when the handler is made.\<close>

record commands =
  channels :: "(string \<times> channel_state) list"
  nick_to_user_id :: "(string \<times> string) list"
  user_id_to_nick :: "string \<Rightarrow> string option"
  user_rate_limits :: "string \<Rightarrow> user_limits option"
  abuse_records :: "(string \<times> abuse_record) list"
  quota_total :: u64
  quota_user :: u64

subsection \<open>The voice rooms\<close>

record voice =
  rooms :: "string \<Rightarrow> string list option"
  user_room :: "string \<Rightarrow> string option"

subsection \<open>The server\<close>

record server =
  sess :: "sid \<Rightarrow> session"
  next_sid :: sid
  lst :: listener
  cfg :: server_config
  cmds :: commands
  vrm :: voice
  sdb :: db
  scanner :: scanner_manager
  out :: "event list"

definition new_listener :: listener where
  "new_listener = \<lparr>sessions_by_user = [], users_by_session = [], user_presence = [],
     active_connections = 0, shutting_down = False, ip_rate_map = (\<lambda>_. None)\<rparr>"

definition new_server :: "server_config \<Rightarrow> db \<Rightarrow> server" where
  "new_server c d = \<lparr>sess = (\<lambda>_. new_session ''unknown''), next_sid = 0, lst = new_listener, cfg = c,
     cmds = \<lparr>channels = [], nick_to_user_id = [], user_id_to_nick = (\<lambda>_. None),
       user_rate_limits = (\<lambda>_. None), abuse_records = [], quota_total = max_total_storage_bytes c,
       quota_user = max_user_storage_bytes c\<rparr>,
     vrm = \<lparr>rooms = (\<lambda>_. None), user_room = (\<lambda>_. None)\<rparr>, sdb = d, scanner = new_manager, out = []\<rparr>"

subsection \<open>Posting to sessions\<close>

definition post :: "sid \<Rightarrow> envelope \<Rightarrow> server \<Rightarrow> server" where
  "post i e s = s\<lparr>out := out s @ [Send i e]\<rparr>"

definition ask_disconnect :: "sid \<Rightarrow> string \<Rightarrow> server \<Rightarrow> server" where
  "ask_disconnect i reason s = s\<lparr>out := out s @ [Disconnect i reason]\<rparr>"

fun post_all :: "sid list \<Rightarrow> envelope \<Rightarrow> server \<Rightarrow> server" where
  "post_all [] e s = s"
| "post_all (i # is) e s = post_all is e (post i e s)"

definition upd_sess :: "sid \<Rightarrow> (session \<Rightarrow> session) \<Rightarrow> server \<Rightarrow> server" where
  "upd_sess i f s = s\<lparr>sess := (sess s)(i := f (sess s i))\<rparr>"

text \<open>An envelope as the handlers outside a session make it, with the fields left at zero.\<close>

definition bare_env :: "message_type \<Rightarrow> bytes \<Rightarrow> envelope" where
  "bare_env mt payload = \<lparr>env_seq = 0, env_ts = 0, env_type = mt, env_payload = payload\<rparr>"

definition steady_ms :: "ctx \<Rightarrow> int" where
  "steady_ms X = steady_now X div 1000000"

definition the_user :: "server \<Rightarrow> sid \<Rightarrow> string" where
  "the_user s i = ss_user_id (sess s i)"

lemma post_all_out: "out (post_all is e s) = out s @ map (\<lambda>i. Send i e) is"
  by (induction "is" arbitrary: s) (simp_all add: post_def)

lemma post_frame [frame_simps]:
  "sess (post i e s) = sess s" "next_sid (post i e s) = next_sid s" "lst (post i e s) = lst s"
  "cfg (post i e s) = cfg s" "cmds (post i e s) = cmds s" "vrm (post i e s) = vrm s"
  "sdb (post i e s) = sdb s" "scanner (post i e s) = scanner s" "out (post i e s) = out s @ [Send i e]"
  by (simp_all add: post_def)

lemma ask_disconnect_frame [frame_simps]:
  "sess (ask_disconnect i r s) = sess s" "next_sid (ask_disconnect i r s) = next_sid s"
  "lst (ask_disconnect i r s) = lst s" "cfg (ask_disconnect i r s) = cfg s"
  "cmds (ask_disconnect i r s) = cmds s" "vrm (ask_disconnect i r s) = vrm s"
  "sdb (ask_disconnect i r s) = sdb s" "scanner (ask_disconnect i r s) = scanner s"
  "out (ask_disconnect i r s) = out s @ [Disconnect i r]"
  by (simp_all add: ask_disconnect_def)

lemma post_all_frame [frame_simps]:
  "sess (post_all is e s) = sess s" "next_sid (post_all is e s) = next_sid s"
  "lst (post_all is e s) = lst s" "cfg (post_all is e s) = cfg s" "cmds (post_all is e s) = cmds s"
  "vrm (post_all is e s) = vrm s" "sdb (post_all is e s) = sdb s" "scanner (post_all is e s) = scanner s"
  by (induction "is" arbitrary: s) (simp_all add: frame_simps)

lemma upd_sess_frame [frame_simps]:
  "next_sid (upd_sess i f s) = next_sid s" "lst (upd_sess i f s) = lst s" "cfg (upd_sess i f s) = cfg s"
  "cmds (upd_sess i f s) = cmds s" "vrm (upd_sess i f s) = vrm s" "sdb (upd_sess i f s) = sdb s"
  "scanner (upd_sess i f s) = scanner s" "out (upd_sess i f s) = out s"
  by (simp_all add: upd_sess_def)

lemma sess_upd_sess [simp]: "sess (upd_sess i f s) j = (if j = i then f (sess s i) else sess s j)"
  by (simp add: upd_sess_def)

end
