(* ===== verification/Voice_Rooms.thy ===== *)
theory Voice_Rooms
  imports Server_State
begin

text \<open>
  The voice rooms, from \<open>grotto-chat-server/src/voice/voice_room_manager.cpp\<close>.  A room is a
  \<open>std::set\<close>: a strictly sorted list of user ids.  The operations return the messages they send; the
  session lookup is the argument \<open>fs\<close>.
\<close>

abbreviation kMaxPerRoom :: nat where "kMaxPerRoom \<equiv> 8"

definition set_insert :: "string \<Rightarrow> string list \<Rightarrow> string list" where
  "set_insert x xs = (if x \<in> set xs then xs else insort x xs)"

definition set_erase :: "string \<Rightarrow> string list \<Rightarrow> string list" where
  "set_erase x xs = filter (\<lambda>y. y \<noteq> x) xs"

definition send_to :: "(string \<Rightarrow> sid option) \<Rightarrow> ctx \<Rightarrow> string \<Rightarrow> message_type \<Rightarrow> msg \<Rightarrow> event list" where
  "send_to fs X user_id mt m =
     (case fs user_id of None \<Rightarrow> [] | Some i \<Rightarrow> [Send i (bare_env mt (ser (codec X) m))])"

definition tell_all :: "(string \<Rightarrow> sid option) \<Rightarrow> ctx \<Rightarrow> string list \<Rightarrow> message_type \<Rightarrow> msg \<Rightarrow> event list" where
  "tell_all fs X peers mt m = concat (map (\<lambda>p. send_to fs X p mt m) peers)"

text \<open>Taking a user out of a room: the peers that stay are told, an empty room goes.\<close>

definition drop_from :: "(string \<Rightarrow> sid option) \<Rightarrow> ctx \<Rightarrow> string \<Rightarrow> string \<Rightarrow> string list \<Rightarrow> voice \<Rightarrow> voice \<times> event list" where
  "drop_from fs X channel_id user_id room v =
     (let room' = set_erase user_id room;
          msgs = tell_all fs X room' MT_VOICE_ROOM_LEAVE (M_VoiceRoomLeave channel_id user_id)
      in (v\<lparr>rooms := (rooms v)(channel_id := (if room' = [] then None else Some room')),
            user_room := (user_room v)(user_id := None)\<rparr>, msgs))"

text \<open>\<open>rooms_[c]\<close> makes an empty room when there is none.\<close>

definition room_at :: "voice \<Rightarrow> string \<Rightarrow> string list" where
  "room_at v c = (case rooms v c of None \<Rightarrow> [] | Some r \<Rightarrow> r)"

definition voice_join :: "(string \<Rightarrow> sid option) \<Rightarrow> ctx \<Rightarrow> string \<Rightarrow> string \<Rightarrow> voice \<Rightarrow> string \<times> voice \<times> event list" where
  "voice_join fs X channel_id user_id v =
     (let (v, left) = (case user_room v user_id of
            None \<Rightarrow> (v, [])
          | Some old \<Rightarrow> drop_from fs X old user_id (room_at v old) v);
          room = room_at v channel_id
      in if length room \<ge> kMaxPerRoom
         then (''Voice room is full (max '' @ show_nat kMaxPerRoom @ '')'',
               v\<lparr>rooms := (rooms v)(channel_id \<mapsto> room)\<rparr>, left)
         else
           let joined = tell_all fs X room MT_VOICE_ROOM_JOIN (M_VoiceRoomJoin channel_id user_id);
               room' = set_insert user_id room;
               state = send_to fs X user_id MT_VOICE_ROOM_STATE (M_VoiceRoomState channel_id room')
           in ([], v\<lparr>rooms := (rooms v)(channel_id \<mapsto> room'), user_room := (user_room v)(user_id \<mapsto> channel_id)\<rparr>,
               left @ joined @ state))"

definition voice_leave :: "(string \<Rightarrow> sid option) \<Rightarrow> ctx \<Rightarrow> string \<Rightarrow> string \<Rightarrow> voice \<Rightarrow> voice \<times> event list" where
  "voice_leave fs X channel_id user_id v =
     (case rooms v channel_id of
        None \<Rightarrow> (v, [])
      | Some room \<Rightarrow>
          if user_id \<notin> set room then (v, []) else drop_from fs X channel_id user_id room v)"

definition voice_on_disconnect :: "(string \<Rightarrow> sid option) \<Rightarrow> ctx \<Rightarrow> string \<Rightarrow> voice \<Rightarrow> voice \<times> event list" where
  "voice_on_disconnect fs X user_id v =
     (case user_room v user_id of
        None \<Rightarrow> (v, [])
      | Some channel_id \<Rightarrow>
          (case rooms v channel_id of
             None \<Rightarrow> (v\<lparr>user_room := (user_room v)(user_id := None)\<rparr>, [])
           | Some room \<Rightarrow> drop_from fs X channel_id user_id room v))"

definition participants :: "voice \<Rightarrow> string \<Rightarrow> string list" where
  "participants v channel_id = room_at v channel_id"

definition is_in_voice :: "voice \<Rightarrow> string \<Rightarrow> bool" where
  "is_in_voice v user_id \<longleftrightarrow> user_room v user_id \<noteq> None"

subsection \<open>Invariant\<close>

text \<open>
  The two maps say the same thing: a user's room is the one that lists the user.  Rooms are sorted
  sets, never empty, of at most eight users.
\<close>

definition room_ok :: "string list \<Rightarrow> bool" where
  "room_ok r \<longleftrightarrow> sorted r \<and> distinct r \<and> r \<noteq> [] \<and> length r \<le> kMaxPerRoom"

definition voice_ok :: "voice \<Rightarrow> bool" where
  "voice_ok v \<longleftrightarrow> (\<forall>c r. rooms v c = Some r \<longrightarrow> room_ok r) \<and>
     (\<forall>u c. user_room v u = Some c \<longleftrightarrow> u \<in> set (room_at v c))"

lemma set_set_insert [simp]: "set (set_insert x xs) = insert x (set xs)"
  by (auto simp: set_insert_def set_insort_key)

lemma set_set_erase [simp]: "set (set_erase x xs) = set xs - {x}"
  by (auto simp: set_erase_def)

lemma room_ok_erase: "room_ok r \<Longrightarrow> set_erase u r \<noteq> [] \<Longrightarrow> room_ok (set_erase u r)"
  using sorted_filter [of id r "\<lambda>y. y \<noteq> u"]
  by (auto simp: room_ok_def set_erase_def intro: le_trans [OF length_filter_le])

lemma room_ok_insert:
  "r = [] \<or> room_ok r \<Longrightarrow> length r < kMaxPerRoom \<Longrightarrow> room_ok (set_insert u r)"
  by (auto simp: room_ok_def set_insert_def sorted_insort distinct_insort dest: arg_cong [of _ _ length])

lemma room_at_upd [simp]:
  "room_at (v\<lparr>rooms := (rooms v)(c := x), user_room := f\<rparr>) c' =
     (if c' = c then (case x of None \<Rightarrow> [] | Some r \<Rightarrow> r) else room_at v c')"
  by (simp add: room_at_def)

lemma voice_okD:
  assumes "voice_ok v"
  shows "user_room v u = Some c \<longleftrightarrow> u \<in> set (room_at v c)"
    and "room_at v c = [] \<or> room_ok (room_at v c)"
  using assms by (auto simp: voice_ok_def room_at_def split: option.split)

lemma voice_okI:
  assumes "\<And>c r. rooms v c = Some r \<Longrightarrow> room_ok r"
    and "\<And>u c. user_room v u = Some c \<longleftrightarrow> u \<in> set (room_at v c)"
  shows "voice_ok v"
  using assms by (simp add: voice_ok_def)

lemma drop_from_ok:
  assumes ok: "voice_ok v" and room: "rooms v c = Some r" "u \<in> set r"
  shows "voice_ok (fst (drop_from fs X c u r v))"
proof (rule voice_okI)
  have r: "room_ok r" and at: "room_at v c = r"
    using ok room by (auto simp: voice_ok_def room_at_def)
  fix c' r'
  assume "rooms (fst (drop_from fs X c u r v)) c' = Some r'"
  with ok room_ok_erase [OF r, of u] show "room_ok r'"
    by (auto simp: drop_from_def Let_def voice_ok_def split: if_splits)
next
  have at: "room_at v c = r" using room by (simp add: room_at_def)
  then have uc: "user_room v u = Some c" using room by (simp add: voice_okD [OF ok])
  fix w c'
  show "user_room (fst (drop_from fs X c u r v)) w = Some c' \<longleftrightarrow>
      w \<in> set (room_at (fst (drop_from fs X c u r v)) c')"
  proof -
    have "room_at (fst (drop_from fs X c u r v)) c' = (if c' = c then set_erase u r else room_at v c')"
      by (simp add: drop_from_def Let_def)
    moreover have "user_room (fst (drop_from fs X c u r v)) w = (if w = u then None else user_room v w)"
      by (simp add: drop_from_def Let_def)
    ultimately show ?thesis
      using at uc voice_okD(1) [OF ok, of w c'] by (cases "w = u"; cases "c' = c") auto
  qed
qed

lemma voice_ok_room:
  assumes "voice_ok v" and "user_room v u = Some c"
  shows "rooms v c = Some (room_at v c) \<and> u \<in> set (room_at v c)"
  using assms by (cases "rooms v c") (auto simp: voice_ok_def room_at_def)

lemma auto_leave_ok:
  assumes "voice_ok v"
    and "v' = fst (case user_room v u of None \<Rightarrow> (v, [])
               | Some old \<Rightarrow> drop_from fs X old u (room_at v old) v)"
  shows "voice_ok v' \<and> user_room v' u = None"
proof (cases "user_room v u")
  case (Some old)
  have "user_room (fst (drop_from fs X old u r v)) u = None" for r
    by (simp add: drop_from_def Let_def)
  with voice_ok_room [OF assms(1) Some] drop_from_ok [OF assms(1)] assms(2) show ?thesis
    by (simp add: Some)
qed (use assms in simp)

lemma join_insert_ok:
  assumes ok: "voice_ok v" and none: "user_room v u = None" and room: "length (room_at v c) < kMaxPerRoom"
  shows "voice_ok (v\<lparr>rooms := (rooms v)(c \<mapsto> set_insert u (room_at v c)), user_room := (user_room v)(u \<mapsto> c)\<rparr>)"
proof -
  have "room_ok (set_insert u (room_at v c))"
    using voice_okD(2) [OF ok] room by (intro room_ok_insert)
  with ok none show ?thesis
    by (intro voice_okI) (auto simp: voice_ok_def voice_okD(1) [OF ok, symmetric] split: if_splits)
qed

lemma voice_join_ok [inv_intros]: "voice_ok v \<Longrightarrow> voice_ok (fst (snd (voice_join fs X c u v)))"
proof -
  assume ok: "voice_ok v"
  obtain v' left where v': "(case user_room v u of None \<Rightarrow> (v, [])
      | Some old \<Rightarrow> drop_from fs X old u (room_at v old) v) = (v', left)" by fastforce
  then have "v' = fst (case user_room v u of None \<Rightarrow> (v, [])
      | Some old \<Rightarrow> drop_from fs X old u (room_at v old) v)" by simp
  from auto_leave_ok [OF ok this] have ok': "voice_ok v'" "user_room v' u = None" by auto
  have "rooms v' c = Some (room_at v' c)" if "length (room_at v' c) \<ge> kMaxPerRoom"
    using that by (cases "rooms v' c") (auto simp: room_at_def)
  then have "voice_ok (v'\<lparr>rooms := (rooms v')(c \<mapsto> room_at v' c)\<rparr>)" if "length (room_at v' c) \<ge> kMaxPerRoom"
    using that ok' by (simp add: fun_upd_idem)
  with join_insert_ok [OF ok'] show ?thesis
    by (simp add: voice_join_def v' Let_def)
qed

lemma voice_leave_ok [inv_intros]: "voice_ok v \<Longrightarrow> voice_ok (fst (voice_leave fs X c u v))"
  by (auto simp: voice_leave_def drop_from_ok split: option.split)

lemma voice_on_disconnect_ok [inv_intros]:
  assumes "voice_ok v" shows "voice_ok (fst (voice_on_disconnect fs X u v))"
proof (cases "user_room v u")
  case None
  with assms show ?thesis by (simp add: voice_on_disconnect_def)
next
  case (Some c)
  from voice_ok_room [OF assms Some] drop_from_ok [OF assms] Some show ?thesis
    by (auto simp: voice_on_disconnect_def split: option.split)
qed

text \<open>Every message goes to the session found for a user who is in the room, or for the joiner.\<close>

definition sent_to :: "(string \<Rightarrow> sid option) \<Rightarrow> string set \<Rightarrow> event list \<Rightarrow> bool" where
  "sent_to fs us es \<longleftrightarrow> (\<forall>e \<in> set es. \<exists>u i env. u \<in> us \<and> fs u = Some i \<and> e = Send i env)"

lemma sent_to_send_to: "u \<in> us \<Longrightarrow> sent_to fs us (send_to fs X u mt m)"
  by (auto simp: sent_to_def send_to_def split: option.splits)

lemma sent_to_tell_all: "set peers \<subseteq> us \<Longrightarrow> sent_to fs us (tell_all fs X peers mt m)"
  by (auto simp: sent_to_def tell_all_def send_to_def split: option.splits)

subsection \<open>Properties\<close>

text \<open>
  A user is in at most one voice room.  From a consistent state every operation leads to a
  consistent one: the map from users to rooms and the rooms agree, no room is empty or has more than
  eight users; after a successful join the user is in that room and in no other, after a leave or a
  disconnection in none.
\<close>

theorem voice_rooms_consistent:
  assumes "voice_ok v"
  shows "voice_ok (fst (snd (voice_join fs X c u v))) \<and> voice_ok (fst (voice_leave fs X c u v)) \<and>
         voice_ok (fst (voice_on_disconnect fs X u v)) \<and>
         (fst (voice_join fs X c u v) = [] \<longrightarrow>
            (\<forall>c'. u \<in> set (participants (fst (snd (voice_join fs X c u v))) c') \<longleftrightarrow> c' = c)) \<and>
         \<not> is_in_voice (fst (voice_on_disconnect fs X u v)) u"
proof -
  let ?v = "fst (snd (voice_join fs X c u v))"
  have ok: "voice_ok ?v" using assms by (rule voice_join_ok)
  have "user_room ?v u = Some c" if "fst (voice_join fs X c u v) = []"
    using that by (auto simp: voice_join_def Let_def split_def split: if_splits)
  then have "fst (voice_join fs X c u v) = [] \<longrightarrow>
      (\<forall>c'. u \<in> set (participants ?v c') \<longleftrightarrow> c' = c)"
    using voice_okD(1) [OF ok, of u] unfolding participants_def by (metis option.inject)
  moreover have "\<not> is_in_voice (fst (voice_on_disconnect fs X u v)) u"
    by (auto simp: is_in_voice_def voice_on_disconnect_def drop_from_def Let_def split: option.split)
  ultimately show ?thesis
    using assms by (auto intro: inv_intros)
qed

definition demo_voice :: voice where
  "demo_voice = \<lparr>rooms = [''#a'' \<mapsto> [''ann'', ''bob'']], user_room = [''ann'' \<mapsto> ''#a'', ''bob'' \<mapsto> ''#a'']\<rparr>"

theorem voice_rooms_consistent_witness:
  "\<forall>c'. ''bob'' \<in> set (participants (fst (snd (voice_join (\<lambda>_. None) demo_ctx ''#b'' ''bob'' demo_voice))) c')
     \<longleftrightarrow> c' = ''#b''"
proof -
  have "''ann'' \<le> ''bob''" by code_simp
  then have "voice_ok demo_voice"
    by (auto simp: voice_ok_def room_ok_def demo_voice_def room_at_def)
  moreover have "fst (voice_join (\<lambda>_. None) demo_ctx ''#b'' ''bob'' demo_voice) = []"
    by (simp add: voice_join_def demo_voice_def drop_from_def room_at_def Let_def)
  ultimately show ?thesis
    using voice_rooms_consistent [of demo_voice "\<lambda>_. None" demo_ctx "''#b''" "''bob''"] by blast
qed

end
