(* ===== verification/Listener.thy ===== *)
theory Listener
  imports Server_State Voice_Rooms
begin

text \<open>
  The listener, from \<open>grotto-chat-server/src/net/listener.cpp\<close>: accepting connections under the
  connection limit and the limit per address, the registry of logged-in users, presence, broadcasting,
  shutdown.  The registry's interface is the locale \<open>session_directory\<close>.
\<close>

subsection \<open>The interface of the registry\<close>

locale session_directory =
  fixes find_user :: "'s \<Rightarrow> 'u \<Rightarrow> 'i option"
    and owner :: "'s \<Rightarrow> 'i \<Rightarrow> 'u option"
    and login :: "'i \<Rightarrow> 'u \<Rightarrow> 's \<Rightarrow> 's"
    and logout :: "'i \<Rightarrow> 's \<Rightarrow> 's"
    and ok :: "'s \<Rightarrow> bool"
  assumes agree: "ok s \<Longrightarrow> find_user s u = Some i \<longleftrightarrow> owner s i = Some u"
    and login_ok: "ok s \<Longrightarrow> owner s i = None \<Longrightarrow> ok (login i u s)"
    and login_find: "ok s \<Longrightarrow> owner s i = None \<Longrightarrow>
      find_user (login i u s) v = (if v = u then Some i else find_user s v)"
    and logout_ok: "ok s \<Longrightarrow> ok (logout i s)"
    and logout_find: "ok s \<Longrightarrow>
      find_user (logout i s) v = (if owner s i = Some v then None else find_user s v)"
begin

lemma one_session: "ok s \<Longrightarrow> owner s i = Some u \<Longrightarrow> owner s j = Some u \<Longrightarrow> i = j"
  using agree by (metis option.inject)

lemma login_owner:
  assumes "ok s" and "owner s i = None"
  shows "owner (login i u s) j = Some v \<longleftrightarrow> (if j = i then v = u else v \<noteq> u \<and> owner s j = Some v)"
proof -
  have "owner (login i u s) j = Some v \<longleftrightarrow> find_user (login i u s) v = Some j"
    by (rule agree [OF login_ok [OF assms], symmetric])
  also have "\<dots> \<longleftrightarrow> (if v = u then i = j else find_user s v = Some j)"
    by (simp add: login_find [OF assms])
  also have "\<dots> \<longleftrightarrow> (if j = i then v = u else v \<noteq> u \<and> owner s j = Some v)"
    using assms(2) by (auto simp: agree [OF assms(1)])
  finally show ?thesis .
qed

lemma late_logout_harmless:
  assumes "ok s" and "find_user s u = Some i" and "owner s j = None"
  shows "find_user (logout i (login j u s)) u = Some j \<and>
         owner (login j u s) i = None \<and> find_user (logout j (login j u s)) u = None"
proof -
  have i: "owner s i = Some u" using agree [OF assms(1)] assms(2) by simp
  then have ne: "j \<noteq> i" using assms(3) by auto
  note own = login_owner [OF assms(1,3), of u]
  have "owner (login j u s) i \<noteq> Some v" for v using own [of i v] ne i by auto
  then have gone: "owner (login j u s) i = None" by (cases "owner (login j u s) i") auto
  have "owner (login j u s) j = Some u" using own [of j u] by simp
  moreover have "find_user (login j u s) u = Some j" using login_find [OF assms(1,3)] by simp
  ultimately show ?thesis
    using gone logout_find [OF login_ok [OF assms(1,3), of u], of i u]
      logout_find [OF login_ok [OF assms(1,3), of u], of j u]
    by simp
qed

end

subsection \<open>Definitions\<close>

definition find_session :: "server \<Rightarrow> string \<Rightarrow> sid option" where
  "find_session s user_id = map_of (sessions_by_user (lst s)) user_id"

definition find_session_by_nickname :: "server \<Rightarrow> string \<Rightarrow> sid option" where
  "find_session_by_nickname s nickname =
     map_option snd (List.find (\<lambda>(u, i). normalize_nickname u = normalize_nickname nickname)
       (sessions_by_user (lst s)))"

definition is_nickname_available :: "server \<Rightarrow> string \<Rightarrow> string \<Rightarrow> bool" where
  "is_nickname_available s nickname exclude_user_id \<longleftrightarrow>
     (\<forall>(u, i) \<in> set (sessions_by_user (lst s)).
        exclude_user_id \<noteq> [] \<and> normalize_nickname u = normalize_nickname exclude_user_id \<or>
        normalize_nickname u \<noteq> normalize_nickname nickname)"

definition broadcast :: "envelope \<Rightarrow> sid option \<Rightarrow> server \<Rightarrow> server" where
  "broadcast e exclude s =
     post_all (map snd (filter (\<lambda>(u, i). Some i \<noteq> exclude) (sessions_by_user (lst s)))) e s"

definition presence_env :: "ctx \<Rightarrow> string \<Rightarrow> presence_state \<Rightarrow> envelope" where
  "presence_env X user_id p =
     \<lparr>env_seq = 0, env_ts = steady_ms X, env_type = MT_PRESENCE,
      env_payload = ser (codec X) (M_Presence user_id (ps_status p) (ps_text p) (ps_since_ms p))\<rparr>"

definition broadcast_presence :: "ctx \<Rightarrow> string \<Rightarrow> presence_state \<Rightarrow> sid option \<Rightarrow> server \<Rightarrow> server" where
  "broadcast_presence X user_id p exclude s = broadcast (presence_env X user_id p) exclude s"

fun send_presence_snapshot :: "ctx \<Rightarrow> sid \<Rightarrow> (string \<times> presence_state) list \<Rightarrow> server \<Rightarrow> server" where
  "send_presence_snapshot X i [] s = s"
| "send_presence_snapshot X i ((u, p) # ps) s = send_presence_snapshot X i ps (post i (presence_env X u p) s)"

text \<open>The two functions the listener passes to the command handler.\<close>

definition update_presence :: "ctx \<Rightarrow> string \<Rightarrow> presence_status \<Rightarrow> string \<Rightarrow> sid option \<Rightarrow> server \<Rightarrow> server" where
  "update_presence X user_id status status_text exclude s =
     (let p = \<lparr>ps_status = status, ps_text = status_text, ps_since_ms = unix_ms X\<rparr>;
          l = lst s;
          s = s\<lparr>lst := l\<lparr>user_presence :=
                (if status = OFFLINE then mdel user_id (user_presence l)
                 else mput user_id p (user_presence l))\<rparr>\<rparr>
      in broadcast_presence X user_id p exclude s)"

definition lookup_presence :: "server \<Rightarrow> string \<Rightarrow> presence_state option" where
  "lookup_presence s user_id = map_of (user_presence (lst s)) user_id"

definition on_session_authenticated :: "ctx \<Rightarrow> sid \<Rightarrow> server \<Rightarrow> server" where
  "on_session_authenticated X i s =
     (let user_id = the_user s i;
          s = (case map_of (sessions_by_user (lst s)) user_id of
                 None \<Rightarrow> s
               | Some old \<Rightarrow>
                   (ask_disconnect old ''New login from another location'' s)
                     \<lparr>lst := (lst s)\<lparr>users_by_session := mdel old (users_by_session (lst s)),
                                    sessions_by_user := mdel user_id (sessions_by_user (lst s))\<rparr>\<rparr>);
          l = lst s;
          l = l\<lparr>sessions_by_user := mput user_id i (sessions_by_user l),
                users_by_session := mput i user_id (users_by_session l),
                user_presence := mput user_id \<lparr>ps_status = ONLINE, ps_text = [], ps_since_ms = unix_ms X\<rparr>
                                   (user_presence l)\<rparr>
      in send_presence_snapshot X i (user_presence l) (s\<lparr>lst := l\<rparr>))"

definition voice_disconnect :: "ctx \<Rightarrow> string \<Rightarrow> server \<Rightarrow> server" where
  "voice_disconnect X user_id s =
     (let (v, msgs) = voice_on_disconnect (find_session s) X user_id (vrm s)
      in s\<lparr>vrm := v, out := out s @ msgs\<rparr>)"

definition on_session_disconnected :: "ctx \<Rightarrow> sid \<Rightarrow> server \<Rightarrow> server" where
  "on_session_disconnected X i s =
     (let l = (lst s)\<lparr>active_connections := active_connections (lst s) - 1\<rparr>
      in case map_of (users_by_session l) i of
           None \<Rightarrow> s\<lparr>lst := l\<rparr>
         | Some user_id \<Rightarrow>
             let s = s\<lparr>lst := l\<lparr>sessions_by_user := mdel user_id (sessions_by_user l),
                               users_by_session := mdel i (users_by_session l),
                               user_presence := mdel user_id (user_presence l)\<rparr>\<rparr>
             in if user_id = [] then s
                else voice_disconnect X user_id
                       (broadcast_presence X user_id \<lparr>ps_status = OFFLINE, ps_text = [], ps_since_ms = unix_ms X\<rparr> None s))"

text \<open>
  Accepting.  The arguments say whether the accept failed, the address of the peer and the endpoint
  string the session keeps; the second result says whether the listener waits for the next connection.
\<close>

datatype accept_outcome = Accept_error | Rejected_max | Rejected_rate | Accepted sid

definition do_accept :: "ctx \<Rightarrow> bool \<Rightarrow> string \<Rightarrow> string \<Rightarrow> server \<Rightarrow> accept_outcome \<times> bool \<times> server" where
  "do_accept X failed remote_ip endpoint s =
     (if failed then (Accept_error, \<not> shutting_down (lst s), s)
      else if active_connections (lst s) \<ge> max_connections (cfg s)
      then (Rejected_max, \<not> shutting_down (lst s), s)
      else
        let limiter = (case ip_rate_map (lst s) remote_ip of
                 None \<Rightarrow> new_limiter (conn_rate_per_min (cfg s)) (mins 1) (steady_now X)
               | Some r \<Rightarrow> r);
            (allowed, limiter) = rl_allow (steady_now X) limiter;
            l = (lst s)\<lparr>ip_rate_map := (ip_rate_map (lst s))(remote_ip \<mapsto> limiter)\<rparr>
        in if \<not> allowed then (Rejected_rate, \<not> shutting_down l, s\<lparr>lst := l\<rparr>)
           else
             let i = next_sid s
             in (Accepted i, \<not> shutting_down l,
                 s\<lparr>lst := l\<lparr>active_connections := active_connections l + 1\<rparr>,
                   sess := (sess s)(i := new_session endpoint), next_sid := Suc i\<rparr>))"

fun ask_disconnect_all :: "sid list \<Rightarrow> string \<Rightarrow> server \<Rightarrow> server" where
  "ask_disconnect_all [] r s = s"
| "ask_disconnect_all (i # is) r s = ask_disconnect_all is r (ask_disconnect i r s)"

definition shutdown :: "server \<Rightarrow> server" where
  "shutdown s =
     (if shutting_down (lst s) then s
      else
        let s = ask_disconnect_all (map fst (users_by_session (lst s))) ''Server shutting down'' s
        in s\<lparr>lst := (lst s)\<lparr>shutting_down := True, sessions_by_user := [], users_by_session := []\<rparr>\<rparr>)"

definition on_signal :: "bool \<Rightarrow> server \<Rightarrow> server" where
  "on_signal failed s = (if failed then s else shutdown s)"

definition set_ping_intervals :: "int \<Rightarrow> int \<Rightarrow> server \<Rightarrow> server" where
  "set_ping_intervals i t s = s\<lparr>cfg := (cfg s)\<lparr>ping_interval_sec := i, ping_timeout_sec := t\<rparr>\<rparr>"

definition set_rate_limits :: "int \<Rightarrow> int \<Rightarrow> server \<Rightarrow> server" where
  "set_rate_limits m c s = s\<lparr>cfg := (cfg s)\<lparr>msg_rate_per_sec := m, conn_rate_per_min := c\<rparr>\<rparr>"

definition set_max_connections :: "int \<Rightarrow> server \<Rightarrow> server" where
  "set_max_connections n s = s\<lparr>cfg := (cfg s)\<lparr>max_connections := n\<rparr>\<rparr>"

definition cleanup_dead_sessions :: "server \<Rightarrow> server" where
  "cleanup_dead_sessions s =
     (let dead = filter (\<lambda>(i, u). ss_state (sess s i) = Dead) (users_by_session (lst s))
      in s\<lparr>lst := (lst s)\<lparr>
           sessions_by_user := filter (\<lambda>(u, i). u \<notin> set (map snd dead)) (sessions_by_user (lst s)),
           users_by_session := filter (\<lambda>(i, u). ss_state (sess s i) \<noteq> Dead) (users_by_session (lst s))\<rparr>\<rparr>)"

definition get_online_users :: "server \<Rightarrow> (string \<times> string) list" where
  "get_online_users s =
     map (\<lambda>(u, i). (u, ss_remote (sess s i)))
       (filter (\<lambda>(u, i). ss_state (sess s i) = Established) (sessions_by_user (lst s)))"

subsection \<open>What the operations leave alone\<close>

lemma broadcast_frame [frame_simps]:
  "sess (broadcast e x s) = sess s" "next_sid (broadcast e x s) = next_sid s"
  "lst (broadcast e x s) = lst s" "cfg (broadcast e x s) = cfg s" "cmds (broadcast e x s) = cmds s"
  "vrm (broadcast e x s) = vrm s" "sdb (broadcast e x s) = sdb s" "scanner (broadcast e x s) = scanner s"
  by (simp_all add: broadcast_def frame_simps)

lemma broadcast_presence_frame [frame_simps]:
  "sess (broadcast_presence X u p x s) = sess s" "next_sid (broadcast_presence X u p x s) = next_sid s"
  "lst (broadcast_presence X u p x s) = lst s" "cfg (broadcast_presence X u p x s) = cfg s"
  "cmds (broadcast_presence X u p x s) = cmds s" "vrm (broadcast_presence X u p x s) = vrm s"
  "sdb (broadcast_presence X u p x s) = sdb s" "scanner (broadcast_presence X u p x s) = scanner s"
  by (simp_all add: broadcast_presence_def frame_simps)

lemma snapshot_frame [frame_simps]:
  "sess (send_presence_snapshot X i ps s) = sess s" "lst (send_presence_snapshot X i ps s) = lst s"
  "next_sid (send_presence_snapshot X i ps s) = next_sid s"
  "cfg (send_presence_snapshot X i ps s) = cfg s" "cmds (send_presence_snapshot X i ps s) = cmds s"
  "vrm (send_presence_snapshot X i ps s) = vrm s" "sdb (send_presence_snapshot X i ps s) = sdb s"
  "scanner (send_presence_snapshot X i ps s) = scanner s"
  by (induction X i ps s rule: send_presence_snapshot.induct) (simp_all add: frame_simps)

lemma update_presence_frame [frame_simps]:
  "sess (update_presence X u st t x s) = sess s" "cmds (update_presence X u st t x s) = cmds s"
  "cfg (update_presence X u st t x s) = cfg s" "sdb (update_presence X u st t x s) = sdb s"
  "vrm (update_presence X u st t x s) = vrm s" "scanner (update_presence X u st t x s) = scanner s"
  "next_sid (update_presence X u st t x s) = next_sid s"
  "sessions_by_user (lst (update_presence X u st t x s)) = sessions_by_user (lst s)"
  "users_by_session (lst (update_presence X u st t x s)) = users_by_session (lst s)"
  by (simp_all add: update_presence_def Let_def frame_simps)

lemma voice_disconnect_frame [frame_simps]:
  "sess (voice_disconnect X u s) = sess s" "lst (voice_disconnect X u s) = lst s"
  "next_sid (voice_disconnect X u s) = next_sid s"
  "cfg (voice_disconnect X u s) = cfg s" "cmds (voice_disconnect X u s) = cmds s"
  "sdb (voice_disconnect X u s) = sdb s" "scanner (voice_disconnect X u s) = scanner s"
  by (simp_all add: voice_disconnect_def split_def Let_def)

lemma authenticated_frame [frame_simps]:
  "sess (on_session_authenticated X i s) = sess s" "cfg (on_session_authenticated X i s) = cfg s"
  "next_sid (on_session_authenticated X i s) = next_sid s"
  "cmds (on_session_authenticated X i s) = cmds s" "vrm (on_session_authenticated X i s) = vrm s"
  "sdb (on_session_authenticated X i s) = sdb s" "scanner (on_session_authenticated X i s) = scanner s"
  by (simp_all add: on_session_authenticated_def Let_def frame_simps split: option.split)

lemma disconnected_frame [frame_simps]:
  "sess (on_session_disconnected X i s) = sess s" "cfg (on_session_disconnected X i s) = cfg s"
  "next_sid (on_session_disconnected X i s) = next_sid s"
  "cmds (on_session_disconnected X i s) = cmds s" "sdb (on_session_disconnected X i s) = sdb s"
  "scanner (on_session_disconnected X i s) = scanner s"
  by (simp_all add: on_session_disconnected_def Let_def frame_simps split: option.split)

subsection \<open>The registry implements the interface\<close>

definition owner_of :: "server \<Rightarrow> sid \<Rightarrow> string option" where
  "owner_of s i = map_of (users_by_session (lst s)) i"

definition registry_ok :: "server \<Rightarrow> bool" where
  "registry_ok s \<longleftrightarrow> keys_distinct (sessions_by_user (lst s)) \<and> keys_distinct (users_by_session (lst s)) \<and>
     (\<forall>u i. find_session s u = Some i \<longleftrightarrow> owner_of s i = Some u)"

definition log_in :: "ctx \<Rightarrow> sid \<Rightarrow> string \<Rightarrow> server \<Rightarrow> server" where
  "log_in X i u s = on_session_authenticated X i (upd_sess i (\<lambda>ss. ss\<lparr>ss_user_id := u\<rparr>) s)"

lemma registry_okD: "registry_ok s \<Longrightarrow> find_session s u = Some i \<longleftrightarrow> owner_of s i = Some u"
  by (simp add: registry_ok_def)

lemma registry_ok_cong:
  "sessions_by_user (lst s') = sessions_by_user (lst s) \<Longrightarrow>
   users_by_session (lst s') = users_by_session (lst s) \<Longrightarrow> registry_ok s' = registry_ok s"
  by (simp add: registry_ok_def find_session_def owner_of_def)

lemma registry_ok_new [inv_intros]: "registry_ok (new_server c d)"
  by (simp add: registry_ok_def find_session_def owner_of_def new_server_def new_listener_def)

lemma find_log_in: "find_session (log_in X i u s) v = (if v = u then Some i else find_session s v)"
  by (simp add: find_session_def log_in_def on_session_authenticated_def the_user_def Let_def frame_simps
      split: option.split)

lemma owner_log_in:
  "owner_of (log_in X i u s) j =
     (if j = i then Some u else if find_session s u = Some j then None else owner_of s j)"
  by (auto simp: find_session_def owner_of_def log_in_def on_session_authenticated_def the_user_def Let_def
      frame_simps split: option.split)

lemma find_disconnected:
  "find_session (on_session_disconnected X i s) v = (if owner_of s i = Some v then None else find_session s v)"
  by (simp add: find_session_def owner_of_def on_session_disconnected_def Let_def frame_simps split: option.split)

lemma owner_disconnected:
  "owner_of (on_session_disconnected X i s) j = (if j = i then None else owner_of s j)"
  by (auto simp: owner_of_def on_session_disconnected_def Let_def frame_simps split: option.split)

lemma keys_log_in:
  "keys_distinct (sessions_by_user (lst s)) \<and> keys_distinct (users_by_session (lst s)) \<Longrightarrow>
   keys_distinct (sessions_by_user (lst (log_in X i u s))) \<and>
   keys_distinct (users_by_session (lst (log_in X i u s)))"
  by (simp add: log_in_def on_session_authenticated_def Let_def frame_simps split: option.split)

lemma log_in_ok:
  assumes "registry_ok s" and "owner_of s i = None" shows "registry_ok (log_in X i u s)"
proof -
  have "find_session (log_in X i u s) v = Some j \<longleftrightarrow> owner_of (log_in X i u s) j = Some v" for v j
    using registry_okD [OF assms(1), of v j] registry_okD [OF assms(1), of u j] assms(2)
    by (auto simp: find_log_in owner_log_in registry_okD [OF assms(1)])
  moreover have "keys_distinct (sessions_by_user (lst s)) \<and> keys_distinct (users_by_session (lst s))"
    using assms(1) by (simp add: registry_ok_def)
  ultimately show ?thesis using keys_log_in by (simp add: registry_ok_def)
qed

lemma disconnected_registry_ok [inv_intros]:
  assumes "registry_ok s" shows "registry_ok (on_session_disconnected X i s)"
proof -
  have "find_session (on_session_disconnected X i s) v = Some j \<longleftrightarrow>
      owner_of (on_session_disconnected X i s) j = Some v" for v j
    using registry_okD [OF assms, of v j] registry_okD [OF assms, of v i]
    by (auto simp: find_disconnected owner_disconnected)
  moreover have "keys_distinct (sessions_by_user (lst (on_session_disconnected X i s)))"
      "keys_distinct (users_by_session (lst (on_session_disconnected X i s)))"
    using assms by (simp_all add: registry_ok_def on_session_disconnected_def Let_def frame_simps split: option.split)
  ultimately show ?thesis by (simp add: registry_ok_def)
qed

interpretation dir: session_directory find_session owner_of "log_in X" "on_session_disconnected X" registry_ok for X
  by unfold_locales
     (simp_all add: registry_okD log_in_ok find_log_in disconnected_registry_ok find_disconnected)

subsection \<open>Accepting\<close>

fun accept_run :: "ctx \<Rightarrow> (int \<times> string) list \<Rightarrow> server \<Rightarrow> (int \<times> string) list \<times> server" where
  "accept_run X [] s = ([], s)"
| "accept_run X ((t, ip) # rs) s =
     (case do_accept (X\<lparr>steady_now := t\<rparr>) False ip ip s of
        (Accepted i, _, s') \<Rightarrow> (let (acc, s'') = accept_run X rs s' in ((t, ip) # acc, s''))
      | (_, _, s') \<Rightarrow> accept_run X rs s')"

definition times_of :: "string \<Rightarrow> (int \<times> string) list \<Rightarrow> int list" where
  "times_of ip rs = map fst (filter (\<lambda>r. snd r = ip) rs)"

lemma times_of_simps [simp]:
  "times_of ip [] = []"
  "times_of ip ((t, p) # rs) = (if p = ip then t # times_of ip rs else times_of ip rs)"
  by (simp_all add: times_of_def)

lemma do_accept_cases:
  obtains (max) "do_accept X False ip ep s = (Rejected_max, \<not> shutting_down (lst s), s)"
      "active_connections (lst s) \<ge> max_connections (cfg s)"
  | (rate) l where "do_accept X False ip ep s = (Rejected_rate, \<not> shutting_down (lst s),
        s\<lparr>lst := (lst s)\<lparr>ip_rate_map := (ip_rate_map (lst s))(ip \<mapsto> snd (rl_allow (steady_now X) l))\<rparr>\<rparr>)"
      "l = (case ip_rate_map (lst s) ip of None \<Rightarrow> new_limiter (conn_rate_per_min (cfg s)) (mins 1) (steady_now X) | Some r \<Rightarrow> r)"
      "\<not> fst (rl_allow (steady_now X) l)"
  | (ok) l where "do_accept X False ip ep s = (Accepted (next_sid s), \<not> shutting_down (lst s),
        s\<lparr>lst := (lst s)\<lparr>ip_rate_map := (ip_rate_map (lst s))(ip \<mapsto> snd (rl_allow (steady_now X) l)),
              active_connections := active_connections (lst s) + 1\<rparr>,
          sess := (sess s)(next_sid s := new_session ep), next_sid := Suc (next_sid s)\<rparr>)"
      "l = (case ip_rate_map (lst s) ip of None \<Rightarrow> new_limiter (conn_rate_per_min (cfg s)) (mins 1) (steady_now X) | Some r \<Rightarrow> r)"
      "fst (rl_allow (steady_now X) l)" "active_connections (lst s) < max_connections (cfg s)"
proof (cases "active_connections (lst s) \<ge> max_connections (cfg s)")
  case True
  then show ?thesis using max by (simp add: do_accept_def)
next
  case False
  let ?l = "case ip_rate_map (lst s) ip of None \<Rightarrow> new_limiter (conn_rate_per_min (cfg s)) (mins 1) (steady_now X) | Some r \<Rightarrow> r"
  show ?thesis
  proof (cases "fst (rl_allow (steady_now X) ?l)")
    case True
    with False show ?thesis
      by (intro ok [of ?l]) (auto simp: do_accept_def Let_def split_def)
  next
    case False': False
    with False show ?thesis
      by (intro rate [of ?l]) (auto simp: do_accept_def Let_def split_def)
  qed
qed

lemma accept_run_known:
  assumes "sorted (map fst rs)" and "ip_rate_map (lst s) ip = Some r"
  shows "\<exists>ts. sorted ts \<and> set ts \<subseteq> set (map fst rs) \<and>
    times_of ip (fst (accept_run X rs s)) = fst (rl_run ts r)"
  using assms
proof (induction rs arbitrary: s r)
  case Nil
  then show ?case by (auto intro!: exI [of _ "[]"])
next
  case (Cons e rs)
  obtain t p where e: "e = (t, p)" by (cases e)
  have sorted: "sorted (map fst rs)" and later: "\<And>t'. t' \<in> set (map fst rs) \<Longrightarrow> t \<le> t'"
    using Cons.prems(1) e by auto
  let ?X = "X\<lparr>steady_now := t\<rparr>"
  show ?case
  proof (cases rule: do_accept_cases [of ?X p p s])
    case max
    from Cons.IH [OF sorted Cons.prems(2)] show ?thesis by (auto simp: e max)
  next
    case (rate l)
    let ?s = "s\<lparr>lst := (lst s)\<lparr>ip_rate_map := (ip_rate_map (lst s))(p \<mapsto> snd (rl_allow t l))\<rparr>\<rparr>"
    have "ip_rate_map (lst ?s) ip = Some (if p = ip then snd (rl_allow t r) else r)"
      using rate(2) Cons.prems(2) by auto
    from Cons.IH [OF sorted this] obtain ts where ts: "sorted ts" "set ts \<subseteq> set (map fst rs)"
      "times_of ip (fst (accept_run X rs ?s)) = fst (rl_run ts (if p = ip then snd (rl_allow t r) else r))" by blast
    have "sorted (if p = ip then t # ts else ts)" using ts later by auto
    with ts rate Cons.prems(2) show ?thesis
      by (intro exI [of _ "if p = ip then t # ts else ts"]) (auto simp: e split_def)
  next
    case (ok l)
    let ?s = "s\<lparr>lst := (lst s)\<lparr>ip_rate_map := (ip_rate_map (lst s))(p \<mapsto> snd (rl_allow t l)),
        active_connections := active_connections (lst s) + 1\<rparr>,
        sess := (sess s)(next_sid s := new_session p), next_sid := Suc (next_sid s)\<rparr>"
    have "ip_rate_map (lst ?s) ip = Some (if p = ip then snd (rl_allow t r) else r)"
      using ok(2) Cons.prems(2) by auto
    from Cons.IH [OF sorted this] obtain ts where ts: "sorted ts" "set ts \<subseteq> set (map fst rs)"
      "times_of ip (fst (accept_run X rs ?s)) = fst (rl_run ts (if p = ip then snd (rl_allow t r) else r))" by blast
    have "sorted (if p = ip then t # ts else ts)" using ts later by auto
    with ts ok Cons.prems(2) show ?thesis
      by (intro exI [of _ "if p = ip then t # ts else ts"]) (auto simp: e split_def Let_def)
  qed
qed

lemma accept_run_fresh:
  assumes "sorted (map fst rs)" and "ip_rate_map (lst s) ip = None"
  shows "\<exists>t0 ts. sorted (t0 # ts) \<and>
    times_of ip (fst (accept_run X rs s)) = fst (rl_run ts (new_limiter (conn_rate_per_min (cfg s)) (mins 1) t0))"
  using assms
proof (induction rs arbitrary: s)
  case Nil
  then show ?case by (auto intro!: exI [of _ "[]"])
next
  case (Cons e rs)
  obtain t p where e: "e = (t, p)" by (cases e)
  have sorted: "sorted (map fst rs)" and later: "\<And>t'. t' \<in> set (map fst rs) \<Longrightarrow> t \<le> t'"
    using Cons.prems(1) e by auto
  let ?X = "X\<lparr>steady_now := t\<rparr>" and ?n = "conn_rate_per_min (cfg s)"
  show ?case
  proof (cases rule: do_accept_cases [of ?X p p s])
    case max
    from Cons.IH [OF sorted Cons.prems(2)] show ?thesis by (auto simp: e max)
  next
    case (rate l)
    let ?s = "s\<lparr>lst := (lst s)\<lparr>ip_rate_map := (ip_rate_map (lst s))(p \<mapsto> snd (rl_allow t l))\<rparr>\<rparr>"
    show ?thesis
    proof (cases "p = ip")
      case True
      with rate(2) Cons.prems(2) have l: "l = new_limiter ?n (mins 1) t" by simp
      have "ip_rate_map (lst ?s) ip = Some (snd (rl_allow t l))" using True by simp
      from accept_run_known [OF sorted this] obtain ts where ts: "sorted ts" "set ts \<subseteq> set (map fst rs)"
        "times_of ip (fst (accept_run X rs ?s)) = fst (rl_run ts (snd (rl_allow t l)))" by blast
      have "sorted (t # t # ts)" using ts later by auto
      with ts rate True l show ?thesis
        by (intro exI [of _ t] exI [of _ "t # ts"]) (auto simp: e split_def)
    next
      case False
      then have "ip_rate_map (lst ?s) ip = None" using Cons.prems(2) by simp
      from Cons.IH [OF sorted this] rate False show ?thesis by (simp add: e)
    qed
  next
    case (ok l)
    let ?s = "s\<lparr>lst := (lst s)\<lparr>ip_rate_map := (ip_rate_map (lst s))(p \<mapsto> snd (rl_allow t l)),
        active_connections := active_connections (lst s) + 1\<rparr>,
        sess := (sess s)(next_sid s := new_session p), next_sid := Suc (next_sid s)\<rparr>"
    show ?thesis
    proof (cases "p = ip")
      case True
      with ok(2) Cons.prems(2) have l: "l = new_limiter ?n (mins 1) t" by simp
      have "ip_rate_map (lst ?s) ip = Some (snd (rl_allow t l))" using True by simp
      from accept_run_known [OF sorted this] obtain ts where ts: "sorted ts" "set ts \<subseteq> set (map fst rs)"
        "times_of ip (fst (accept_run X rs ?s)) = fst (rl_run ts (snd (rl_allow t l)))" by blast
      have "sorted (t # t # ts)" using ts later by auto
      with ts ok True l show ?thesis
        by (intro exI [of _ t] exI [of _ "t # ts"]) (auto simp: e split_def Let_def)
    next
      case False
      then have "ip_rate_map (lst ?s) ip = None" using Cons.prems(2) by simp
      from Cons.IH [OF sorted this] ok False show ?thesis by (simp add: e split_def Let_def)
    qed
  qed
qed

lemma accept_run_count:
  "int (length (fst (accept_run X rs s))) + active_connections (lst s) \<le>
     max (active_connections (lst s)) (max_connections (cfg s))"
proof (induction rs arbitrary: s)
  case (Cons e rs)
  obtain t p where e: "e = (t, p)" by (cases e)
  show ?case
  proof (cases rule: do_accept_cases [of "X\<lparr>steady_now := t\<rparr>" p p s])
    case max
    with Cons.IH [of s] show ?thesis by (simp add: e)
  next
    case (rate l)
    with Cons.IH [of "s\<lparr>lst := (lst s)\<lparr>ip_rate_map := (ip_rate_map (lst s))(p \<mapsto> snd (rl_allow t l))\<rparr>\<rparr>"]
    show ?thesis by (simp add: e)
  next
    case (ok l)
    with Cons.IH [of "s\<lparr>lst := (lst s)\<lparr>ip_rate_map := (ip_rate_map (lst s))(p \<mapsto> snd (rl_allow t l)),
        active_connections := active_connections (lst s) + 1\<rparr>,
        sess := (sess s)(next_sid s := new_session p), next_sid := Suc (next_sid s)\<rparr>"]
    show ?thesis by (simp add: e split_def Let_def)
  qed
qed simp

subsection \<open>Properties\<close>

text \<open>
  What \<open>on_session_authenticated\<close> does when the user is online on another session: the messages go to the new
  session, the old one is asked to disconnect, and its late end does not log the user out.  Since the name check of
  the authentication refuses such a login first (error 4011), this happens only if two logins pass that check
  at the same time on two threads.
\<close>

theorem newest_login_wins:
  assumes "registry_ok s" and "find_session s u = Some i" and "owner_of s j = None"
  shows "let s' = log_in X j u s
         in find_session s' u = Some j \<and> Disconnect i ''New login from another location'' \<in> set (out s') \<and>
            find_session (on_session_disconnected X i s') u = Some j \<and>
            find_session (on_session_disconnected X j s') u = None"
proof -
  have mono: "set (out s') \<subseteq> set (out (send_presence_snapshot X j ps s'))" for ps s'
    by (induction X j ps s' rule: send_presence_snapshot.induct) (auto simp: frame_simps)
  have "Disconnect i ''New login from another location'' \<in> set (out (log_in X j u s))"
    using assms(2) unfolding log_in_def on_session_authenticated_def Let_def
    by (intro subsetD [OF mono]) (simp add: find_session_def frame_simps the_user_def)
  then show ?thesis
    using dir.late_logout_harmless [OF assms, of X] find_log_in [of X j u s u] by (simp add: Let_def)
qed

theorem newest_login_wins_witness:
  "let s = log_in demo_ctx 1 ''bob'' (new_server default_config empty_db);
       s' = log_in demo_ctx 2 ''bob'' s
   in find_session (on_session_disconnected demo_ctx 1 s') ''bob'' = Some 2"
proof -
  let ?s0 = "new_server default_config empty_db"
  let ?s = "log_in demo_ctx 1 ''bob'' ?s0"
  have free: "owner_of (new_server default_config empty_db) j = None" for j
    by (simp add: owner_of_def new_server_def new_listener_def)
  have "find_session (new_server default_config empty_db) v = None" for v
    by (simp add: find_session_def new_server_def new_listener_def)
  then have "owner_of ?s 2 = None" by (simp add: owner_log_in free)
  moreover have "find_session ?s ''bob'' = Some 1" by (simp add: find_log_in)
  moreover have "registry_ok ?s" by (intro log_in_ok registry_ok_new free)
  ultimately show ?thesis
    using newest_login_wins [of ?s "''bob''" 1 2 demo_ctx] by (simp add: Let_def)
qed

text \<open>
  The listener's two limits hold.  Over any run of connection attempts the accepted ones never
  take the connection count above \<open>max_connections\<close> (or above where it stood), and from an address
  that was not seen before at most twice the configured rate is accepted in any minute.
\<close>

theorem accept_limits:
  assumes "sorted (map fst rs)" and "ip_rate_map (lst s) ip = None" and "0 \<le> conn_rate_per_min (cfg s)"
  shows "hits a (a + mins 1) (times_of ip (fst (accept_run X rs s))) \<le> 2 * conn_rate_per_min (cfg s) \<and>
         int (length (fst (accept_run X rs s))) + active_connections (lst s) \<le>
           max (active_connections (lst s)) (max_connections (cfg s))"
proof -
  let ?n = "conn_rate_per_min (cfg s)"
  from accept_run_fresh [OF assms(1,2), of X] obtain t0 ts where "sorted (t0 # ts)"
    and eq: "times_of ip (fst (accept_run X rs s)) = fst (rl_run ts (new_limiter ?n (mins 1) t0))" by blast
  then have "hits a (a + window (new_limiter ?n (mins 1) t0)) (fst (rl_run ts (new_limiter ?n (mins 1) t0)))
      \<le> 2 * max_tokens (new_limiter ?n (mins 1) t0)"
    using assms(3) rl_wf_new [of ?n "mins 1" t0] by (intro rl_run_window_bound) (auto simp: new_limiter_def)
  then show ?thesis using accept_run_count eq by (simp add: new_limiter_def)
qed

theorem accept_limits_witness:
  "hits 0 (mins 1) (times_of ''ip'' (fst (accept_run demo_ctx (replicate 50 (3, ''ip'')) (new_server default_config empty_db)))) \<le> 20"
  using accept_limits [of "replicate 50 (3, ''ip'')" "new_server default_config empty_db" "''ip''" 0 demo_ctx]
  by (simp add: new_server_def new_listener_def default_config_def)

text \<open>
  A negative connection rate, as the runtime setting of the message rate alone installs, refuses every
  new address.
\<close>

lemma negative_rate_refuses:
  assumes "conn_rate_per_min (cfg s) \<le> 0" and "ip_rate_map (lst s) ip = None"
  shows "fst (do_accept X False ip ep s) \<in> {Rejected_max, Rejected_rate}"
  using assms rl_allow_nonpositive [of "new_limiter (conn_rate_per_min (cfg s)) (mins 1) (steady_now X)" "steady_now X"]
  by (cases rule: do_accept_cases [of X ip ep s]) (auto simp: new_limiter_def)

text \<open>Two reports for one session (a ping timeout, then the read error) count it twice.\<close>

lemma double_report_counts_twice:
  "active_connections (lst (on_session_disconnected X i (on_session_disconnected X i s))) =
     active_connections (lst s) - 2"
  by (simp add: on_session_disconnected_def Let_def frame_simps split: option.split)

text \<open>
  A broadcast goes to every online session once, except the excluded one, and a nickname is
  available exactly when no other online user has it up to case.
\<close>

theorem broadcast_and_availability:
  assumes "registry_ok s"
  shows "(\<exists>targets. out (broadcast e exclude s) = out s @ map (\<lambda>i. Send i e) targets \<and> distinct targets \<and>
            (\<forall>i. i \<in> set targets \<longleftrightarrow> owner_of s i \<noteq> None \<and> Some i \<noteq> exclude)) \<and>
         (is_nickname_available s nick [] \<longleftrightarrow>
            (\<forall>u i. find_session s u = Some i \<longrightarrow> \<not> nicknames_equal u nick))"
proof -
  let ?sbu = "sessions_by_user (lst s)"
  let ?targets = "map snd (filter (\<lambda>(u, i). Some i \<noteq> exclude) ?sbu)"
  have key: "(u, i) \<in> set ?sbu \<longleftrightarrow> owner_of s i = Some u" for u i
    using assms registry_okD [OF assms, of u i] map_of_member [of ?sbu u i]
    by (simp add: registry_ok_def find_session_def)
  have "inj_on snd (set ?sbu)" by (auto simp: inj_on_def key)
  then have "distinct (map snd ?sbu)"
    using assms by (auto simp: registry_ok_def distinct_map)
  then have "distinct ?targets" by (rule distinct_map_filter)
  moreover have "i \<in> set ?targets \<longleftrightarrow> owner_of s i \<noteq> None \<and> Some i \<noteq> exclude" for i
    by (auto simp: key image_iff)
  ultimately have "\<exists>targets. out (broadcast e exclude s) = out s @ map (\<lambda>i. Send i e) targets \<and> distinct targets \<and>
      (\<forall>i. i \<in> set targets \<longleftrightarrow> owner_of s i \<noteq> None \<and> Some i \<noteq> exclude)"
    by (intro exI [of _ ?targets]) (simp add: broadcast_def post_all_out)
  moreover have "is_nickname_available s nick [] \<longleftrightarrow>
      (\<forall>u i. find_session s u = Some i \<longrightarrow> \<not> nicknames_equal u nick)"
    unfolding is_nickname_available_def nicknames_equal_norm Ball_def split_paired_All key
      registry_okD [OF assms] prod.case by blast
  ultimately show ?thesis by blast
qed

theorem broadcast_and_availability_witness:
  "is_nickname_available (new_server default_config empty_db) ''bob'' [] \<longleftrightarrow>
     (\<forall>u i. find_session (new_server default_config empty_db) u = Some i \<longrightarrow> \<not> nicknames_equal u ''bob'')"
  using broadcast_and_availability [OF registry_ok_new] by blast

end
