(* ===== verification/Offline_Store.thy ===== *)
theory Offline_Store
  imports Database
begin

text \<open>
  The queue of messages for users who are offline, from
  \<open>grotto-chat-server/src/db/offline_store.cpp\<close>.  Every operation runs under the database mutex, so
  each is one atomic step on the table.  The interface a sender and a logging-in user rely on is the
  locale \<open>offline_queue\<close>; the store interprets it at the end.
\<close>

subsection \<open>The interface\<close>

text \<open>A run of saves; the result collects the messages that were accepted.\<close>

fun run_saves ::
  "(string \<Rightarrow> 'p \<Rightarrow> 's \<Rightarrow> bool \<times> 's) \<Rightarrow> (string \<times> 'p) list \<Rightarrow> 's \<Rightarrow> (string \<times> 'p) list \<times> 's" where
  "run_saves save [] s = ([], s)"
| "run_saves save ((r, p) # ms) s =
     (let (b, s') = save r p s; (acc, s'') = run_saves save ms s'
      in (if b then (r, p) # acc else acc, s''))"

definition for_user :: "string \<Rightarrow> (string \<times> 'p) list \<Rightarrow> 'p list" where
  "for_user r ms = map snd (filter (\<lambda>m. fst m = r) ms)"

locale offline_queue =
  fixes save :: "string \<Rightarrow> 'p \<Rightarrow> 's \<Rightarrow> bool \<times> 's"
    and fetch :: "string \<Rightarrow> 's \<Rightarrow> 'p list \<times> 's"
    and pending :: "'s \<Rightarrow> string \<Rightarrow> 'p list"
    and ok :: "'s \<Rightarrow> bool"
    and room :: "'s \<Rightarrow> nat"
  assumes save_ok: "ok s \<Longrightarrow> ok (snd (save r p s))"
    and save_accepted: "ok s \<Longrightarrow> room s > 0 \<Longrightarrow> fst (save r p s) \<Longrightarrow>
      pending (snd (save r p s)) = (pending s)(r := pending s r @ [p])"
    and save_refused: "ok s \<Longrightarrow> room s > 0 \<Longrightarrow> \<not> fst (save r p s) \<Longrightarrow>
      pending (snd (save r p s)) = pending s"
    and save_room: "ok s \<Longrightarrow> room s > 0 \<Longrightarrow> room s \<le> Suc (room (snd (save r p s)))"
    and fetch_ok: "ok s \<Longrightarrow> ok (snd (fetch r s))"
    and fetch_delivers: "ok s \<Longrightarrow> fst (fetch r s) = pending s r"
    and fetch_clears: "ok s \<Longrightarrow> pending (snd (fetch r s)) = (pending s)(r := [])"
begin

lemma run_saves_pending:
  "ok s \<Longrightarrow> length ms \<le> room s \<Longrightarrow>
   ok (snd (run_saves save ms s)) \<and>
   pending (snd (run_saves save ms s)) r = pending s r @ for_user r (fst (run_saves save ms s))"
proof (induction ms arbitrary: s)
  case Nil
  then show ?case by (simp add: for_user_def)
next
  case (Cons m ms)
  obtain r' p where m: "m = (r', p)" by (cases m)
  let ?s = "snd (save r' p s)"
  have pos: "room s > 0" using Cons.prems(2) by simp
  have ok': "ok ?s" using save_ok [OF Cons.prems(1)] .
  have "length ms \<le> room ?s"
    using save_room [OF Cons.prems(1) pos, of r' p] Cons.prems(2) by simp
  note ih = Cons.IH [OF ok' this]
  have "pending ?s r = pending s r @ (if fst (save r' p s) \<and> r' = r then [p] else [])"
    using save_accepted [OF Cons.prems(1) pos, of r' p] save_refused [OF Cons.prems(1) pos, of r' p]
    by (cases "fst (save r' p s)") auto
  with ih show ?case
    by (cases "fst (save r' p s)"; cases "r' = r") (auto simp: m split_def Let_def for_user_def)
qed

lemma store_and_forward:
  assumes "ok s" and "length ms \<le> room s" and "pending s r = []"
  shows "fst (fetch r (snd (run_saves save ms s))) = for_user r (fst (run_saves save ms s)) \<and>
         fst (fetch r (snd (fetch r (snd (run_saves save ms s))))) = []"
  using run_saves_pending [OF assms(1,2), of r] assms(3)
  by (simp add: fetch_delivers fetch_ok fetch_clears)

end

subsection \<open>Definitions\<close>

abbreviation kTtlSeconds :: int where "kTtlSeconds \<equiv> 7 * 24 * 3600"
abbreviation kMaxMessagesPerUser :: nat where "kMaxMessagesPerUser \<equiv> 100"
abbreviation kMaxTotalMessages :: nat where "kMaxTotalMessages \<equiv> 100000"

definition off_count :: "string \<Rightarrow> off_row list \<Rightarrow> nat" where
  "off_count r rows = length (filter (\<lambda>row. off_recipient row = r) rows)"

text \<open>\<open>DELETE ... WHERE id = (SELECT MIN(id) ...)\<close>\<close>

definition delete_oldest :: "off_row list \<Rightarrow> off_row list" where
  "delete_oldest rows =
     (case rows of [] \<Rightarrow> [] | _ \<Rightarrow> filter (\<lambda>row. off_id row \<noteq> min_list (map off_id rows)) rows)"

text \<open>
  An empty vector has a null data pointer, which binds SQL \<open>NULL\<close>; the \<open>payload\<close> column is
  \<open>NOT NULL\<close>, so the insertion of an empty payload throws like any other failing statement.
\<close>

definition off_save :: "ctx \<Rightarrow> string \<Rightarrow> bytes \<Rightarrow> db \<Rightarrow> bool \<times> db" where
  "off_save X recipient payload d =
     (if \<not> sql_throws X (Off_count recipient) \<and>
         off_count recipient (offline_messages d) \<ge> kMaxMessagesPerUser
      then (False, d)
      else
        let d = (if sql_throws X (Off_total recipient) then d
                 else if length (offline_messages d) \<ge> kMaxTotalMessages then
                   (if sql_throws X (Off_del_oldest recipient) then d
                    else d\<lparr>offline_messages := delete_oldest (offline_messages d)\<rparr>)
                 else d);
            now = now_unix X;
            expires = now + kTtlSeconds
        in if payload = [] \<or> sql_throws X (Off_insert recipient) then (False, d)
           else (True, d\<lparr>offline_messages := offline_messages d @
                   [\<lparr>off_id = off_next d, off_recipient = recipient, off_payload = payload,
                     off_stored_at = now, off_expires_at = expires\<rparr>],
                   off_next := Suc (off_next d)\<rparr>))"

definition off_fetch_and_delete :: "ctx \<Rightarrow> string \<Rightarrow> db \<Rightarrow> bytes list \<times> db" where
  "off_fetch_and_delete X recipient d =
     (if sql_throws X (Off_select recipient) then ([], d)
      else
        let messages = map off_payload (sort_key off_id
              (filter (\<lambda>row. off_recipient row = recipient \<and> off_expires_at row > now_unix X)
                 (offline_messages d)))
        in if sql_throws X (Off_delete recipient) then (messages, d)
           else (messages, d\<lparr>offline_messages :=
                   filter (\<lambda>row. off_recipient row \<noteq> recipient) (offline_messages d)\<rparr>))"

definition off_cleanup_expired :: "ctx \<Rightarrow> db \<Rightarrow> nat \<times> db" where
  "off_cleanup_expired X d =
     (if sql_throws X Off_cleanup then (0, d)
      else (length (filter (\<lambda>row. off_expires_at row \<le> now_unix X) (offline_messages d)),
            d\<lparr>offline_messages := filter (\<lambda>row. \<not> off_expires_at row \<le> now_unix X) (offline_messages d)\<rparr>))"

definition off_pending_count :: "ctx \<Rightarrow> string \<Rightarrow> db \<Rightarrow> nat" where
  "off_pending_count X recipient d =
     (if sql_throws X (Off_count recipient) then 0
      else length (filter (\<lambda>row. off_recipient row = recipient \<and> off_expires_at row > now_unix X)
             (offline_messages d)))"

definition off_total_count :: "ctx \<Rightarrow> db \<Rightarrow> nat" where
  "off_total_count X d = (if sql_throws X (Off_stats 0) then 0 else length (offline_messages d))"

record off_stats =
  total_messages :: nat
  total_recipients :: nat
  oldest_message_age_sec :: int

definition off_get_stats :: "ctx \<Rightarrow> db \<Rightarrow> off_stats" where
  "off_get_stats X d =
     (let s0 = \<lparr>total_messages = 0, total_recipients = 0, oldest_message_age_sec = 0\<rparr>;
          rows = offline_messages d
      in if sql_throws X (Off_stats 0) then s0
         else let s1 = s0\<lparr>total_messages := length rows\<rparr>
         in if sql_throws X (Off_stats 1) then s1
         else let s2 = s1\<lparr>total_recipients := length (remdups (map off_recipient rows))\<rparr>
         in if sql_throws X (Off_stats 2) \<or> rows = [] then s2
         else s2\<lparr>oldest_message_age_sec := now_unix X - min_list (map off_stored_at rows)\<rparr>)"

subsection \<open>The table invariant\<close>

lemma delete_oldest_subset: "set (delete_oldest rows) \<subseteq> set rows"
  by (auto simp: delete_oldest_def split: list.splits)

lemma sorted_wrt_map_filter:
  "sorted_wrt R (map f xs) \<Longrightarrow> sorted_wrt R (map f (filter P xs))"
  by (induction xs) auto

lemma delete_oldest_sorted:
  "sorted_wrt (<) (map off_id rows) \<Longrightarrow> sorted_wrt (<) (map off_id (delete_oldest rows))"
  by (cases rows) (simp_all only: delete_oldest_def list.case sorted_wrt_map_filter)

lemma off_wf_rows:
  assumes "off_wf d" and "set rows \<subseteq> set (offline_messages d)"
    and "sorted_wrt (<) (map off_id rows)"
  shows "off_wf (d\<lparr>offline_messages := rows\<rparr>)"
  using assms by (auto simp: off_wf_def)

lemma off_wf_insert:
  assumes "off_wf d" and "off_id row = off_next d"
  shows "off_wf (d\<lparr>offline_messages := offline_messages d @ [row], off_next := Suc (off_next d)\<rparr>)"
  using assms by (auto simp: off_wf_def sorted_wrt_append less_Suc_eq)

lemma off_wf_delete_oldest:
  "off_wf d \<Longrightarrow> off_wf (d\<lparr>offline_messages := delete_oldest (offline_messages d)\<rparr>)"
  by (rule off_wf_rows) (auto simp: off_wf_def delete_oldest_sorted dest: subsetD [OF delete_oldest_subset])

lemma off_wf_filter:
  "off_wf d \<Longrightarrow> off_wf (d\<lparr>offline_messages := filter P (offline_messages d)\<rparr>)"
  by (rule off_wf_rows) (auto simp: off_wf_def sorted_wrt_map_filter)

lemma off_save_cases:
  obtains (refused) d' where "off_save X r p d = (False, d')"
      "d' = d \<or> d' = d\<lparr>offline_messages := delete_oldest (offline_messages d)\<rparr>"
  | (stored) d' row where "d' = d \<or> d' = d\<lparr>offline_messages := delete_oldest (offline_messages d)\<rparr>"
      "off_save X r p d = (True, d'\<lparr>offline_messages := offline_messages d' @ [row],
          off_next := Suc (off_next d')\<rparr>)"
      "row = \<lparr>off_id = off_next d', off_recipient = r, off_payload = p,
          off_stored_at = now_unix X, off_expires_at = now_unix X + kTtlSeconds\<rparr>"
proof -
  let ?d = "if sql_throws X (Off_total r) then d
      else if length (offline_messages d) \<ge> kMaxTotalMessages then
        (if sql_throws X (Off_del_oldest r) then d
         else d\<lparr>offline_messages := delete_oldest (offline_messages d)\<rparr>) else d"
  have d: "?d = d \<or> ?d = d\<lparr>offline_messages := delete_oldest (offline_messages d)\<rparr>"
    by (simp split: if_split)
  consider "off_save X r p d = (False, d)" | "off_save X r p d = (False, ?d)"
    | "off_save X r p d = (True, ?d\<lparr>offline_messages := offline_messages ?d @
          [\<lparr>off_id = off_next ?d, off_recipient = r, off_payload = p,
            off_stored_at = now_unix X, off_expires_at = now_unix X + kTtlSeconds\<rparr>],
          off_next := Suc (off_next ?d)\<rparr>)"
    unfolding off_save_def Let_def by argo
  then show ?thesis using d refused stored by cases blast+
qed

lemma off_save_wf [inv_intros]: "off_wf d \<Longrightarrow> off_wf (snd (off_save X r p d))"
  by (cases rule: off_save_cases [of X r p d]) (auto intro: off_wf_delete_oldest off_wf_insert)

lemma off_fetch_wf [inv_intros]: "off_wf d \<Longrightarrow> off_wf (snd (off_fetch_and_delete X r d))"
  by (simp add: off_fetch_and_delete_def Let_def off_wf_filter)

lemma off_cleanup_wf [inv_intros]: "off_wf d \<Longrightarrow> off_wf (snd (off_cleanup_expired X d))"
  by (simp add: off_cleanup_expired_def off_wf_filter)

lemma off_save_frame [frame_simps]:
  "users (snd (off_save X r p d)) = users d"
  "signed_prekeys (snd (off_save X r p d)) = signed_prekeys d"
  "one_time_prekeys (snd (off_save X r p d)) = one_time_prekeys d"
  "opk_next (snd (off_save X r p d)) = opk_next d"
  "files (snd (off_save X r p d)) = files d"
  "file_chunks (snd (off_save X r p d)) = file_chunks d"
  by (simp_all add: off_save_def Let_def)

lemma off_fetch_frame [frame_simps]:
  "users (snd (off_fetch_and_delete X r d)) = users d"
  "signed_prekeys (snd (off_fetch_and_delete X r d)) = signed_prekeys d"
  "one_time_prekeys (snd (off_fetch_and_delete X r d)) = one_time_prekeys d"
  "opk_next (snd (off_fetch_and_delete X r d)) = opk_next d"
  "files (snd (off_fetch_and_delete X r d)) = files d"
  "file_chunks (snd (off_fetch_and_delete X r d)) = file_chunks d"
  by (simp_all add: off_fetch_and_delete_def Let_def)

lemma off_save_db_ok [inv_intros]: "db_ok d \<Longrightarrow> db_ok (snd (off_save X r p d))"
  using off_save_wf [of d X r p]
  by (simp add: db_ok_def users_fk_def opk_wf_def files_fk_def off_save_frame)

lemma off_fetch_db_ok [inv_intros]: "db_ok d \<Longrightarrow> db_ok (snd (off_fetch_and_delete X r d))"
  using off_fetch_wf [of d X r]
  by (simp add: db_ok_def users_fk_def opk_wf_def files_fk_def off_fetch_frame)

subsection \<open>The store implements the interface\<close>

definition off_pending :: "ctx \<Rightarrow> db \<Rightarrow> string \<Rightarrow> bytes list" where
  "off_pending X d r = map off_payload
     (filter (\<lambda>row. off_recipient row = r \<and> off_expires_at row > now_unix X) (offline_messages d))"

definition off_room :: "db \<Rightarrow> nat" where
  "off_room d = kMaxTotalMessages - length (offline_messages d)"

lemma sort_key_sorted: "sorted_wrt (<) (map f xs) \<Longrightarrow> sort_key f xs = xs"
  by (rule sort_key_id_if_sorted) (rule strict_sorted_imp_sorted)

lemma off_fetch_quiet:
  assumes "quiet X" and "off_wf d"
  shows "off_fetch_and_delete X r d =
    (off_pending X d r, d\<lparr>offline_messages := filter (\<lambda>row. off_recipient row \<noteq> r) (offline_messages d)\<rparr>)"
proof -
  have "sort_key off_id (filter P (offline_messages d)) = filter P (offline_messages d)" for P
    using assms(2) by (intro sort_key_sorted sorted_wrt_map_filter) (simp add: off_wf_def)
  with assms(1) show ?thesis by (simp add: off_fetch_and_delete_def off_pending_def)
qed

lemma off_save_quiet:
  assumes "quiet X" and "off_room d > 0"
  shows "off_save X r p d =
    (if off_count r (offline_messages d) \<ge> kMaxMessagesPerUser \<or> p = [] then (False, d)
     else (True, d\<lparr>offline_messages := offline_messages d @
       [\<lparr>off_id = off_next d, off_recipient = r, off_payload = p, off_stored_at = now_unix X,
         off_expires_at = now_unix X + kTtlSeconds\<rparr>], off_next := Suc (off_next d)\<rparr>))"
proof -
  have "\<not> length (offline_messages d) \<ge> kMaxTotalMessages"
    using assms(2) by (simp add: off_room_def)
  with assms(1) show ?thesis by (simp add: off_save_def Let_def)
qed

interpretation oq: offline_queue "off_save X" "off_fetch_and_delete X" "off_pending X"
  "\<lambda>d. quiet X \<and> off_wf d" off_room for X
proof (unfold_locales, goal_cases)
  case (1 s r p)
  then show ?case by (simp add: off_save_wf)
next
  case (2 s r p)
  then show ?case
    by (auto simp: off_save_quiet off_pending_def split: if_splits)
next
  case (3 s r p)
  then show ?case by (auto simp: off_save_quiet split: if_splits)
next
  case (4 s r p)
  then have "length (offline_messages s) < kMaxTotalMessages" by (simp add: off_room_def)
  then have "off_room s \<le> Suc (kMaxTotalMessages - Suc (length (offline_messages s)))"
    unfolding off_room_def by linarith
  with 4 show ?case by (simp add: off_save_quiet) (simp add: off_room_def)
next
  case (5 s r)
  then show ?case by (simp add: off_fetch_wf)
next
  case (6 s r)
  then show ?case by (simp add: off_fetch_quiet)
next
  case (7 s r)
  then show ?case
    by (auto simp: off_fetch_quiet off_pending_def intro!: arg_cong [where f = "map off_payload"] filter_cong)
qed

subsection \<open>Properties\<close>

text \<open>On a quiet database a run of saves and a fetch are the interface's store and forward.\<close>

lemma saves_then_fetch:
  assumes "quiet X" and "off_wf d" and "length ms \<le> off_room d" and "off_pending X d r = []"
  shows "fst (off_fetch_and_delete X r (snd (run_saves (off_save X) ms d))) =
           for_user r (fst (run_saves (off_save X) ms d)) \<and>
         fst (off_fetch_and_delete X r (snd (off_fetch_and_delete X r (snd (run_saves (off_save X) ms d))))) = []"
  using assms by (intro oq.store_and_forward) auto

text \<open>
  A life of the store: its operations in any order, each with its own clock and its own failing statements, and
  what each answered.
\<close>

datatype off_op = Do_save ctx string bytes | Do_fetch ctx string | Do_cleanup ctx

datatype off_answer = Accepted bool | Delivered "bytes list" | Cleaned nat

fun off_op_ctx :: "off_op \<Rightarrow> ctx" where
  "off_op_ctx (Do_save X r p) = X"
| "off_op_ctx (Do_fetch X r) = X"
| "off_op_ctx (Do_cleanup X) = X"

fun off_do :: "off_op \<Rightarrow> db \<Rightarrow> off_answer \<times> db" where
  "off_do (Do_save X r p) d = (let (b, d') = off_save X r p d in (Accepted b, d'))"
| "off_do (Do_fetch X r) d = (let (ms, d') = off_fetch_and_delete X r d in (Delivered ms, d'))"
| "off_do (Do_cleanup X) d = (let (n, d') = off_cleanup_expired X d in (Cleaned n, d'))"

fun off_run :: "off_op list \<Rightarrow> db \<Rightarrow> off_answer list \<times> db" where
  "off_run [] d = ([], d)"
| "off_run (op # ops) d = (let (a, d') = off_do op d; (rest, d'') = off_run ops d' in (a # rest, d''))"

text \<open>
  What the store owes its users, as a sender keeps book of it: every accepted message with the time it expires,
  until a fetch for its recipient that reached the database.
\<close>

type_synonym debt = "string \<times> bytes \<times> int"

fun note_answer :: "off_op \<times> off_answer \<Rightarrow> debt list \<Rightarrow> debt list" where
  "note_answer (Do_save X r p, Accepted b) owed = (if b then owed @ [(r, p, now_unix X + kTtlSeconds)] else owed)"
| "note_answer (Do_fetch X r, a) owed = (if sql_throws X (Off_select r) then owed else filter (\<lambda>(u, p, e). u \<noteq> r) owed)"
| "note_answer _ owed = owed"

definition due :: "int \<Rightarrow> string \<Rightarrow> debt list \<Rightarrow> bytes list" where
  "due t r owed = map (\<lambda>(u, p, e). p) (filter (\<lambda>(u, p, e). u = r \<and> e > t) owed)"

text \<open>
  The runs considered: the clock does not run backwards, and no \<open>DELETE\<close> of a fetch fails after its
  \<open>SELECT\<close> (the messages would be handed over and kept).
\<close>

fun fetch_deletes :: "off_op \<Rightarrow> bool" where
  "fetch_deletes (Do_fetch X r) \<longleftrightarrow> \<not> sql_throws X (Off_delete r)"
| "fetch_deletes _ \<longleftrightarrow> True"

definition debts_of :: "db \<Rightarrow> debt list" where
  "debts_of d = map (\<lambda>row. (off_recipient row, off_payload row, off_expires_at row)) (offline_messages d)"

definition agree_after :: "int \<Rightarrow> debt list \<Rightarrow> debt list \<Rightarrow> bool" where
  "agree_after t xs ys \<longleftrightarrow> (\<forall>t' \<ge> t. filter (\<lambda>(u, p, e). e > t') xs = filter (\<lambda>(u, p, e). e > t') ys)"

lemma agree_after_mono: "agree_after t xs ys \<Longrightarrow> t \<le> t' \<Longrightarrow> agree_after t' xs ys"
  by (auto simp: agree_after_def)

lemma agree_after_append: "agree_after t xs ys \<Longrightarrow> agree_after t (xs @ zs) (ys @ zs)"
  by (auto simp: agree_after_def)

lemma agree_after_filter:
  assumes "agree_after t xs ys" shows "agree_after t (filter P xs) (filter P ys)"
proof -
  have swap: "filter (\<lambda>(u, p, e). e > t') (filter P zs) = filter P (filter (\<lambda>(u, p, e). e > t') zs)" for t' zs
    by (simp add: conj_commute)
  show ?thesis using assms unfolding agree_after_def swap by simp
qed

lemma agree_after_due:
  assumes "agree_after t xs ys" "t \<le> t'" shows "due t' r xs = due t' r ys"
proof -
  have two: "filter (\<lambda>(u, p, e). u = r \<and> e > t') zs = filter (\<lambda>(u, p, e). u = r) (filter (\<lambda>(u, p, e). e > t') zs)" for zs
    by (simp add: split_def conj_commute)
  have "filter (\<lambda>(u, p, e). e > t') xs = filter (\<lambda>(u, p, e). e > t') ys" using assms by (simp add: agree_after_def)
  then show ?thesis unfolding due_def two by (simp only:)
qed

text \<open>One operation: the answer and the book agree with the table, and a save uses up one place.\<close>

lemma off_fetch_answer:
  assumes "off_wf d"
  shows "fst (off_fetch_and_delete X r d) = (if sql_throws X (Off_select r) then [] else due (now_unix X) r (debts_of d))"
proof -
  have "sort_key off_id (filter P (offline_messages d)) = filter P (offline_messages d)" for P
    using assms by (intro sort_key_sorted sorted_wrt_map_filter) (simp add: off_wf_def)
  then show ?thesis by (simp add: off_fetch_and_delete_def due_def debts_of_def filter_map o_def Let_def)
qed

lemma off_do_keeps_book:
  assumes "off_wf d" and "agree_after t (debts_of d) owed" and "t \<le> now_unix (off_op_ctx op)" and "fetch_deletes op"
    and "off_room d > 0"
  shows "agree_after (now_unix (off_op_ctx op)) (debts_of (snd (off_do op d))) (note_answer (op, fst (off_do op d)) owed)"
proof (cases op)
  case (Do_save X r p)
  have room: "\<not> length (offline_messages d) \<ge> kMaxTotalMessages" using assms(5) by (simp add: off_room_def)
  show ?thesis
    using agree_after_mono [OF assms(2,3)] room
    by (auto simp: Do_save off_save_def Let_def debts_of_def intro!: agree_after_append)
next
  case (Do_fetch X r)
  have "debts_of (d\<lparr>offline_messages := filter (\<lambda>row. off_recipient row \<noteq> r) (offline_messages d)\<rparr>) =
      filter (\<lambda>(u, p, e). u \<noteq> r) (debts_of d)" by (simp add: debts_of_def filter_map o_def)
  then show ?thesis
    using agree_after_mono [OF assms(2,3)] assms(4)
    by (auto simp: Do_fetch off_fetch_and_delete_def Let_def intro!: agree_after_filter)
next
  case (Do_cleanup X)
  have "filter (\<lambda>(u, p, e). e > t') (debts_of (d\<lparr>offline_messages := filter (\<lambda>row. \<not> off_expires_at row \<le> now_unix X) (offline_messages d)\<rparr>)) =
      filter (\<lambda>(u, p, e). e > t') (debts_of d)" if "now_unix X \<le> t'" for t'
    using that by (auto simp: debts_of_def filter_map o_def intro!: arg_cong [where f = "map _"] filter_cong)
  then show ?thesis
    using agree_after_mono [OF assms(2,3)]
    by (auto simp: Do_cleanup off_cleanup_expired_def agree_after_def)
qed

lemma off_do_room:
  assumes "off_room d > 0" shows "off_room d \<le> Suc (off_room (snd (off_do op d)))"
proof -
  have "\<not> length (offline_messages d) \<ge> kMaxTotalMessages" using assms by (simp add: off_room_def)
  then have "length (offline_messages (snd (off_do op d))) \<le> Suc (length (offline_messages d))"
    by (cases op) (auto simp: off_save_def off_fetch_and_delete_def off_cleanup_expired_def Let_def intro: le_SucI)
  then show ?thesis unfolding off_room_def by linarith
qed

lemma off_do_wf: "off_wf d \<Longrightarrow> off_wf (snd (off_do op d))"
  using off_save_wf off_fetch_wf off_cleanup_wf by (cases op) (simp_all add: split_def Let_def)

lemma off_run_keeps_book:
  assumes "off_wf d" and "agree_after t (debts_of d) owed" and "list_all fetch_deletes ops"
    and "sorted (t # map (now_unix \<circ> off_op_ctx) ops)" and "length ops \<le> off_room d"
  shows "off_wf (snd (off_run ops d)) \<and>
    agree_after (last (t # map (now_unix \<circ> off_op_ctx) ops)) (debts_of (snd (off_run ops d)))
      (fold note_answer (zip ops (fst (off_run ops d))) owed)"
  using assms
proof (induction ops arbitrary: d t owed)
  case (Cons op ops)
  let ?d = "snd (off_do op d)" and ?t = "now_unix (off_op_ctx op)"
  have "agree_after ?t (debts_of ?d) (note_answer (op, fst (off_do op d)) owed)"
    using Cons.prems by (intro off_do_keeps_book [of _ t]) auto
  moreover have "length ops \<le> off_room ?d" using off_do_room [of d op] Cons.prems(5) by simp
  moreover have "sorted (?t # map (now_unix \<circ> off_op_ctx) ops)" using Cons.prems(4) by (simp add: o_def)
  ultimately show ?case
    using Cons.IH [of ?d ?t "note_answer (op, fst (off_do op d)) owed"] off_do_wf [OF Cons.prems(1), of op] Cons.prems(3)
    by (simp add: split_def Let_def o_def)
qed simp



lemma off_count_Nil [simp]: "off_count r [] = 0"
  by (simp add: off_count_def)

lemma off_count_filter_other: "off_count r (filter (\<lambda>row. off_recipient row \<noteq> r) rows) = 0"
  by (simp add: off_count_def filter_empty_conv)

definition within_caps :: "db \<Rightarrow> bool" where
  "within_caps d \<longleftrightarrow> length (offline_messages d) \<le> kMaxTotalMessages \<and>
     (\<forall>r. off_count r (offline_messages d) \<le> kMaxMessagesPerUser)"

lemma off_count_le: "off_count r (filter P rows) \<le> off_count r rows"
proof -
  have "filter (\<lambda>row. off_recipient row = r) (filter P rows) = filter P (filter (\<lambda>row. off_recipient row = r) rows)"
    by (simp add: conj_commute)
  then show ?thesis unfolding off_count_def by (metis length_filter_le)
qed

lemma delete_oldest_count: "off_count r (delete_oldest rows) \<le> off_count r rows"
  by (cases rows) (simp_all only: delete_oldest_def list.case off_count_le order.refl)

lemma min_list_in: "(xs :: 'a :: linorder list) \<noteq> [] \<Longrightarrow> min_list xs \<in> set xs"
  using Min_in [of "set xs"] by (simp add: min_list_Min)

lemma delete_oldest_eq:
  "rows \<noteq> [] \<Longrightarrow>
   delete_oldest rows = filter (\<lambda>row. off_id row \<noteq> min_list (map off_id rows)) rows"
  by (cases rows) (auto simp only: delete_oldest_def list.case)

lemma delete_oldest_shorter:
  assumes "rows \<noteq> []" shows "length (delete_oldest rows) < length rows"
proof -
  obtain row where row: "row \<in> set rows" "off_id row = min_list (map off_id rows)"
    using min_list_in [of "map off_id rows"] assms by auto
  have "length (filter (\<lambda>row. off_id row \<noteq> min_list (map off_id rows)) rows) < length rows"
    using row by (intro length_filter_less [of row]) auto
  then show ?thesis unfolding delete_oldest_eq [OF assms] .
qed

text \<open>
  The queue stays bounded.  Whatever statements fail (other than the two counts and the deletion
  of the oldest row), saving keeps at most 100 messages per recipient and 100000 in all, and a
  recipient at the limit is refused.
\<close>

theorem off_save_within_caps:
  assumes "within_caps d"
    and "\<not> sql_throws X (Off_count r)" and "\<not> sql_throws X (Off_total r)"
    and "\<not> sql_throws X (Off_del_oldest r)"
  shows "within_caps (snd (off_save X r p d)) \<and>
         (fst (off_save X r p d) \<longrightarrow> off_count r (offline_messages d) < kMaxMessagesPerUser)"
proof -
  let ?d = "if length (offline_messages d) \<ge> kMaxTotalMessages
      then d\<lparr>offline_messages := delete_oldest (offline_messages d)\<rparr> else d"
  let ?row = "\<lparr>off_id = off_next ?d, off_recipient = r, off_payload = p, off_stored_at = now_unix X,
       off_expires_at = now_unix X + kTtlSeconds\<rparr>"
  have len: "length (offline_messages ?d) < kMaxTotalMessages"
    using assms(1) delete_oldest_shorter [of "offline_messages d"]
    by (cases "offline_messages d = []") (auto simp: within_caps_def)
  have cnt: "off_count u (offline_messages ?d) \<le> off_count u (offline_messages d)" for u
    using delete_oldest_count [of u "offline_messages d"] by simp
  have capd: "within_caps ?d"
    using len cnt assms(1) unfolding within_caps_def by (meson le_trans less_imp_le)
  show ?thesis
  proof (cases "off_count r (offline_messages d) \<ge> kMaxMessagesPerUser")
    case True
    then show ?thesis using assms by (simp add: off_save_def)
  next
    case False
    have "off_count u (offline_messages ?d @ [?row]) \<le> kMaxMessagesPerUser" for u
      using False cnt [of u] cnt [of r] capd by (auto simp: off_count_def within_caps_def)
    then have "within_caps (?d\<lparr>offline_messages := offline_messages ?d @ [?row], off_next := n\<rparr>)" for n
      using len by (simp add: within_caps_def)
    with False assms capd show ?thesis
      by (cases "kMaxTotalMessages \<le> length (offline_messages d)"; cases "sql_throws X (Off_insert r)")
         (simp_all add: off_save_def Let_def)
  qed
qed

theorem off_save_within_caps_witness:
  "within_caps (snd (off_save demo_ctx ''bob'' [1, 2] empty_db))"
proof -
  have "within_caps empty_db" by (simp add: within_caps_def empty_db_def off_count_def)
  from off_save_within_caps [OF this, of demo_ctx "''bob''" "[1, 2]"] show ?thesis by simp
qed

text \<open>
  A stored message is delivered to a user who logs in less than seven days later, and never
  after that.
\<close>

theorem offline_message_ttl:
  assumes "quiet X" and "quiet X'" and "off_wf d" and "fst (off_save X r p d)"
    and "off_room d > 0" and "off_pending X' d r = []"
  shows "fst (off_fetch_and_delete X' r (snd (off_save X r p d))) =
           (if now_unix X' < now_unix X + 7 * 24 * 3600 then [p] else [])"
proof -
  have "off_wf (snd (off_save X r p d))" using assms(3) by (rule off_save_wf)
  moreover have "off_pending X' (snd (off_save X r p d)) r =
      (if now_unix X' < now_unix X + 7 * 24 * 3600 then [p] else [])"
    using assms by (auto simp: off_save_quiet off_pending_def split: if_splits)
  ultimately show ?thesis using assms(2) by (simp add: off_fetch_quiet)
qed

theorem offline_message_ttl_witness:
  "fst (off_fetch_and_delete (demo_ctx\<lparr>unix_ms := 605800000\<rparr>) ''bob''
     (snd (off_save demo_ctx ''bob'' [1, 2] empty_db))) = []"
proof -
  let ?X' = "demo_ctx\<lparr>unix_ms := 605800000\<rparr>"
  have q: "quiet ?X'" by (simp add: quiet_def demo_ctx_def)
  have "off_wf empty_db" "off_pending ?X' empty_db ''bob'' = []" "off_room empty_db > 0"
    by (simp_all add: off_wf_def off_pending_def off_room_def empty_db_def)
  moreover have "fst (off_save demo_ctx ''bob'' [1, 2] empty_db)"
    by (simp add: off_save_def empty_db_def off_count_def Let_def)
  ultimately show ?thesis
    using offline_message_ttl [OF quiet_demo q] by (simp add: now_unix_def demo_ctx_def)
qed

end
