(* ===== verification/User_Store.thy ===== *)
theory User_Store
  imports Database Reserved_Identity
begin

text \<open>
  The users, their password hashes and their Signal pre-keys, from
  \<open>grotto-chat-server/src/db/user_store.cpp\<close>.  An operation that lets an SQL exception escape returns
  an \<open>outcome\<close> beside the database.  A blob bound from an empty vector is SQL \<open>NULL\<close>, which the
  \<open>NOT NULL\<close> key columns refuse.
\<close>

subsection \<open>The stock of one-time keys as an interface\<close>

text \<open>Drawing \<open>n\<close> times in a row.\<close>

fun draws :: "('s \<Rightarrow> 'k \<times> 's) \<Rightarrow> nat \<Rightarrow> 's \<Rightarrow> 'k list \<times> 's" where
  "draws take_one 0 s = ([], s)"
| "draws take_one (Suc n) s =
     (let (k, s') = take_one s; (ks, s'') = draws take_one n s' in (k # ks, s''))"

locale one_time_stock =
  fixes take_one :: "'u \<Rightarrow> 's \<Rightarrow> 'k \<times> 's"
    and stock :: "'s \<Rightarrow> 'u \<Rightarrow> 'k list"
    and empty :: 'k
    and ok :: "'s \<Rightarrow> bool"
  assumes take_ok: "ok s \<Longrightarrow> ok (snd (take_one u s))"
    and take_none: "ok s \<Longrightarrow> stock s u = [] \<Longrightarrow> fst (take_one u s) = empty \<and> snd (take_one u s) = s"
    and take_some: "ok s \<Longrightarrow> stock s u = ks @ [k] \<Longrightarrow>
      fst (take_one u s) = k \<and> stock (snd (take_one u s)) = (stock s)(u := ks)"
begin

lemma draws_exhausted:
  "ok s \<Longrightarrow> stock s u = [] \<Longrightarrow> draws (take_one u) n s = (replicate n empty, s)"
  by (induction n) (auto simp: take_none split_def)

lemma draws_stock:
  "ok s \<Longrightarrow> n \<le> length (stock s u) \<Longrightarrow>
   fst (draws (take_one u) n s) = take n (rev (stock s u)) \<and>
   ok (snd (draws (take_one u) n s)) \<and>
   stock (snd (draws (take_one u) n s)) = (stock s)(u := rev (drop n (rev (stock s u))))"
proof (induction n arbitrary: s)
  case 0
  then show ?case by simp
next
  case (Suc n)
  then obtain ks k where ks: "stock s u = ks @ [k]"
    by (cases "stock s u" rule: rev_cases) auto
  note step = take_some [OF Suc.prems(1) ks]
  have "n \<le> length (stock (snd (take_one u s)) u)"
    using Suc.prems(2) ks step by simp
  from Suc.IH [OF take_ok [OF Suc.prems(1)] this] show ?case
    using ks step by (auto simp: split_def Let_def)
qed

end

subsection \<open>Definitions\<close>

record user =
  us_user_id :: string
  us_identity_pub :: bytes
  us_created_at :: int

record signed_prekey =
  spk_pub :: bytes
  spk_sig :: bytes
  spk_id :: u32
  spk_registration_id :: u32

definition usr_find :: "ctx \<Rightarrow> string \<Rightarrow> db \<Rightarrow> user option" where
  "usr_find X u d =
     (if sql_throws X (Usr_find u) then None
      else map_option (\<lambda>r. \<lparr>us_user_id = u, us_identity_pub = ur_identity_pub r,
                             us_created_at = ur_created_at r\<rparr>) (map_of (users d) u))"

definition usr_insert :: "ctx \<Rightarrow> user \<Rightarrow> db \<Rightarrow> outcome \<times> db" where
  "usr_insert X usr d =
     (if map_of (users d) (us_user_id usr) \<noteq> None \<or> us_identity_pub usr = []
         \<or> sql_throws X (Usr_insert (us_user_id usr))
      then (Threw, d)
      else (Returned, d\<lparr>users := users d @ [(us_user_id usr,
              \<lparr>ur_identity_pub = us_identity_pub usr, ur_password_hash = None,
               ur_created_at = us_created_at usr\<rparr>)]\<rparr>))"

text \<open>\<open>UPDATE users SET ... WHERE user_id = ?\<close>; no row is updated when there is no such user.\<close>

definition upd_user :: "string \<Rightarrow> (user_row \<Rightarrow> user_row) \<Rightarrow> db \<Rightarrow> db" where
  "upd_user u f d = d\<lparr>users := map (\<lambda>(k, r). (k, if k = u then f r else r)) (users d)\<rparr>"

definition usr_update_identity_key :: "ctx \<Rightarrow> string \<Rightarrow> bytes \<Rightarrow> db \<Rightarrow> outcome \<times> db" where
  "usr_update_identity_key X u pub d =
     (if sql_throws X (Usr_update_key u) \<or> (pub = [] \<and> map_of (users d) u \<noteq> None) then (Threw, d)
      else (Returned, upd_user u (\<lambda>r. r\<lparr>ur_identity_pub := pub\<rparr>) d))"

definition usr_clear_opks :: "ctx \<Rightarrow> string \<Rightarrow> db \<Rightarrow> outcome \<times> db" where
  "usr_clear_opks X u d =
     (if sql_throws X (Usr_clear_opk u) then (Threw, d)
      else (Returned, d\<lparr>one_time_prekeys := filter (\<lambda>r. or_user r \<noteq> u) (one_time_prekeys d)\<rparr>))"

definition usr_clear_key_material :: "ctx \<Rightarrow> string \<Rightarrow> db \<Rightarrow> outcome \<times> db" where
  "usr_clear_key_material X u d =
     (if sql_throws X (Usr_clear_spk u) then (Threw, d)
      else
        let d = d\<lparr>signed_prekeys := mdel u (signed_prekeys d)\<rparr>
        in if sql_throws X (Usr_clear_opk u) then (Threw, d)
           else (Returned, d\<lparr>one_time_prekeys := filter (\<lambda>r. or_user r \<noteq> u) (one_time_prekeys d)\<rparr>))"

definition usr_upsert_signed_prekey ::
  "ctx \<Rightarrow> string \<Rightarrow> bytes \<Rightarrow> bytes \<Rightarrow> u32 \<Rightarrow> u32 \<Rightarrow> db \<Rightarrow> outcome \<times> db" where
  "usr_upsert_signed_prekey X u pub sig kid rid d =
     (if map_of (users d) u = None \<or> pub = [] \<or> sig = [] \<or> sql_throws X (Usr_upsert_spk u 0)
      then (Threw, d)
      else (Returned, d\<lparr>signed_prekeys := mput u
              \<lparr>sr_pub = pub, sr_sig = sig, sr_id = col_int kid, sr_registration_id = col_int rid,
               sr_uploaded_at = now_unix X\<rparr> (signed_prekeys d)\<rparr>))"

definition usr_get_signed_prekey :: "ctx \<Rightarrow> string \<Rightarrow> db \<Rightarrow> signed_prekey option" where
  "usr_get_signed_prekey X u d =
     (if sql_throws X (Usr_get_spk u) then None
      else map_option (\<lambda>r. \<lparr>spk_pub = sr_pub r, spk_sig = sr_sig r, spk_id = col_u32 (sr_id r),
                             spk_registration_id = col_u32 (sr_registration_id r)\<rparr>)
             (map_of (signed_prekeys d) u))"

definition usr_store_opk :: "ctx \<Rightarrow> string \<Rightarrow> bytes \<Rightarrow> u32 \<Rightarrow> db \<Rightarrow> outcome \<times> db" where
  "usr_store_opk X u pub kid d =
     (if map_of (users d) u = None \<or> pub = [] \<or> sql_throws X (Usr_store_opk u kid) then (Threw, d)
      else (Returned, d\<lparr>one_time_prekeys := one_time_prekeys d @
              [\<lparr>or_id = opk_next d, or_user = u, or_pub = pub, or_opk_id = col_int kid, or_used = False\<rparr>],
              opk_next := Suc (opk_next d)\<rparr>))"

text \<open>The unused keys of a user in id order; \<open>ORDER BY id DESC LIMIT 1\<close> picks the last.\<close>

definition opk_unused :: "string \<Rightarrow> db \<Rightarrow> opk_row list" where
  "opk_unused u d = sort_key or_id (filter (\<lambda>r. or_user r = u \<and> \<not> or_used r) (one_time_prekeys d))"

definition mark_used :: "nat \<Rightarrow> opk_row list \<Rightarrow> opk_row list" where
  "mark_used i rows = map (\<lambda>k. if or_id k = i then k\<lparr>or_used := True\<rparr> else k) rows"

definition usr_consume_opk :: "ctx \<Rightarrow> string \<Rightarrow> db \<Rightarrow> (u32 \<times> bytes) \<times> db" where
  "usr_consume_opk X u d =
     (if sql_throws X (Usr_consume_select u) then ((0, []), d)
      else if opk_unused u d = [] then ((0, []), d)
      else
        let r = last (opk_unused u d)
        in if sql_throws X (Usr_consume_update u) then ((0, []), d)
           else ((col_u32 (or_opk_id r), or_pub r),
                 d\<lparr>one_time_prekeys := mark_used (or_id r) (one_time_prekeys d)\<rparr>))"

definition usr_set_password :: "ctx \<Rightarrow> string \<Rightarrow> string \<Rightarrow> db \<Rightarrow> bool \<times> db" where
  "usr_set_password X u pw d =
     (case pwhash_str X pw of
        None \<Rightarrow> (False, d)
      | Some h \<Rightarrow>
          if sql_throws X (Usr_set_password u) then (False, d)
          else (True, upd_user u (\<lambda>r. r\<lparr>ur_password_hash := Some h\<rparr>) d))"

definition usr_verify_password :: "ctx \<Rightarrow> string \<Rightarrow> string \<Rightarrow> db \<Rightarrow> bool" where
  "usr_verify_password X u pw d =
     (if sql_throws X (Usr_get_password u) then False
      else case map_of (users d) u of
        None \<Rightarrow> False
      | Some r \<Rightarrow>
          (case ur_password_hash r of
             None \<Rightarrow> False
           | Some h \<Rightarrow> if h = [] then False else pwhash_verify X h pw))"

definition usr_update_password :: "ctx \<Rightarrow> string \<Rightarrow> string \<Rightarrow> string \<Rightarrow> db \<Rightarrow> bool \<times> db" where
  "usr_update_password X u old new d =
     (if \<not> usr_verify_password X u old d then (False, d) else usr_set_password X u new d)"

definition usr_has_password :: "ctx \<Rightarrow> string \<Rightarrow> db \<Rightarrow> bool" where
  "usr_has_password X u d =
     (if sql_throws X (Usr_has_password u) then False
      else case map_of (users d) u of
        None \<Rightarrow> False
      | Some r \<Rightarrow> (case ur_password_hash r of None \<Rightarrow> False | Some h \<Rightarrow> h \<noteq> []))"

subsection \<open>Every operation keeps the tables consistent\<close>

lemma map_of_upd_user [simp]:
  "map_of (users (upd_user u f d)) k = (if k = u then map_option f (map_of (users d) u) else map_of (users d) k)"
proof -
  have "map_of (map (\<lambda>(k, r). (k, if k = u then f r else r)) m) k
      = (if k = u then map_option f (map_of m u) else map_of m k)" for m
    by (induction m) auto
  then show ?thesis by (simp add: upd_user_def)
qed

lemma keys_upd_user [simp]: "map fst (users (upd_user u f d)) = map fst (users d)"
  by (auto simp: upd_user_def)

lemma upd_user_frame [frame_simps]:
  "signed_prekeys (upd_user u f d) = signed_prekeys d"
  "one_time_prekeys (upd_user u f d) = one_time_prekeys d"
  "opk_next (upd_user u f d) = opk_next d"
  "offline_messages (upd_user u f d) = offline_messages d"
  "off_next (upd_user u f d) = off_next d"
  "files (upd_user u f d) = files d"
  "file_chunks (upd_user u f d) = file_chunks d"
  by (simp_all add: upd_user_def)

lemma upd_user_ok: "db_ok d \<Longrightarrow> db_ok (upd_user u f d)"
proof -
  have "fst ` set (users (upd_user u f d)) = fst ` set (users d)"
    by (simp only: set_map [symmetric] keys_upd_user)
  then show "db_ok d \<Longrightarrow> ?thesis"
    by (simp add: db_ok_defs frame_simps)
qed

lemma usr_insert_ok [inv_intros]: "db_ok d \<Longrightarrow> db_ok (snd (usr_insert X usr d))"
  by (auto simp: usr_insert_def db_ok_defs map_of_no_key)

lemma usr_update_identity_key_ok [inv_intros]:
  "db_ok d \<Longrightarrow> db_ok (snd (usr_update_identity_key X u pub d))"
  by (auto simp: usr_update_identity_key_def upd_user_ok)

lemma opks_filter_ok: "db_ok d \<Longrightarrow> db_ok (d\<lparr>one_time_prekeys := filter P (one_time_prekeys d)\<rparr>)"
  by (auto simp: db_ok_defs sorted_wrt_map intro: sorted_wrt_filter)

lemma spk_delete_ok: "db_ok d \<Longrightarrow> db_ok (d\<lparr>signed_prekeys := mdel u (signed_prekeys d)\<rparr>)"
  by (auto simp: db_ok_defs)

lemma usr_clear_opks_ok [inv_intros]: "db_ok d \<Longrightarrow> db_ok (snd (usr_clear_opks X u d))"
  by (simp add: usr_clear_opks_def opks_filter_ok)

lemma usr_clear_key_material_ok [inv_intros]:
  "db_ok d \<Longrightarrow> db_ok (snd (usr_clear_key_material X u d))"
  using opks_filter_ok [OF spk_delete_ok, of d "\<lambda>r. or_user r \<noteq> u" u]
  by (simp add: usr_clear_key_material_def Let_def spk_delete_ok)

lemma usr_upsert_signed_prekey_ok [inv_intros]:
  "db_ok d \<Longrightarrow> db_ok (snd (usr_upsert_signed_prekey X u pub sig kid rid d))"
  by (auto simp: usr_upsert_signed_prekey_def db_ok_defs map_of_no_key)

lemma usr_store_opk_ok [inv_intros]: "db_ok d \<Longrightarrow> db_ok (snd (usr_store_opk X u pub kid d))"
  by (auto simp: usr_store_opk_def db_ok_defs sorted_wrt_append less_Suc_eq map_of_no_key)

lemma map_mark_used [simp]:
  "map or_id (mark_used i rows) = map or_id rows" "map or_user (mark_used i rows) = map or_user rows"
  by (simp_all add: mark_used_def)

lemma opk_wf_mark_used: "opk_wf d \<Longrightarrow> opk_wf (d\<lparr>one_time_prekeys := mark_used i (one_time_prekeys d)\<rparr>)"
proof -
  have "opk_wf d \<longleftrightarrow> sorted_wrt (<) (map or_id (one_time_prekeys d)) \<and>
      list_all (\<lambda>i. i < opk_next d) (map or_id (one_time_prekeys d))" for d
    by (simp add: opk_wf_def list_all_iff)
  then show "opk_wf d \<Longrightarrow> ?thesis" by simp
qed

lemma opks_used_ok:
  assumes "db_ok d" shows "db_ok (d\<lparr>one_time_prekeys := mark_used i (one_time_prekeys d)\<rparr>)"
proof -
  have "or_user ` set (mark_used i rows) = or_user ` set rows" for rows
    by (simp only: set_map [symmetric] map_mark_used)
  with assms opk_wf_mark_used [of d i] show ?thesis
    by (simp add: db_ok_def users_fk_def off_wf_def files_fk_def)
qed

lemma usr_consume_opk_ok [inv_intros]: "db_ok d \<Longrightarrow> db_ok (snd (usr_consume_opk X u d))"
  using opks_used_ok by (simp add: usr_consume_opk_def Let_def)

lemma usr_set_password_ok [inv_intros]: "db_ok d \<Longrightarrow> db_ok (snd (usr_set_password X u pw d))"
  by (simp add: usr_set_password_def upd_user_ok split: option.split)

lemma usr_update_password_ok [inv_intros]:
  "db_ok d \<Longrightarrow> db_ok (snd (usr_update_password X u old new d))"
  by (simp add: usr_update_password_def usr_set_password_ok)

subsection \<open>The store supplies one-time keys\<close>

definition opk_stock :: "db \<Rightarrow> string \<Rightarrow> (u32 \<times> bytes) list" where
  "opk_stock d u = map (\<lambda>r. (col_u32 (or_opk_id r), or_pub r)) (opk_unused u d)"

lemma opk_unused_filter:
  "opk_wf d \<Longrightarrow> opk_unused u d = filter (\<lambda>r. or_user r = u \<and> \<not> or_used r) (one_time_prekeys d)"
  unfolding opk_unused_def
  by (intro sort_key_id_if_sorted strict_sorted_imp_sorted)
     (auto simp: opk_wf_def sorted_wrt_map intro: sorted_wrt_filter)

lemma filter_mark_used:
  "filter (\<lambda>r. or_user r = v \<and> \<not> or_used r) (mark_used i rows) =
   filter (\<lambda>r. or_id r \<noteq> i) (filter (\<lambda>r. or_user r = v \<and> \<not> or_used r) rows)"
  by (induction rows) (auto simp: mark_used_def)

lemma filter_drop_last:
  "sorted_wrt (<) (map f (ys @ [r])) \<Longrightarrow> filter (\<lambda>x. f x \<noteq> f r) (ys @ [r]) = (ys :: 'b list)"
  for f :: "'b \<Rightarrow> nat"
  by (auto simp: sorted_wrt_append filter_id_conv)

lemma usr_consume_opk_quiet:
  assumes "quiet X" and "opk_unused u d = ys @ [r]"
  shows "usr_consume_opk X u d = ((col_u32 (or_opk_id r), or_pub r),
           d\<lparr>one_time_prekeys := mark_used (or_id r) (one_time_prekeys d)\<rparr>)"
  using assms by (simp add: usr_consume_opk_def)

lemma opk_unused_mark_used:
  assumes wf: "opk_wf d" and ys: "opk_unused u d = ys @ [r]"
  shows "opk_unused v (d\<lparr>one_time_prekeys := mark_used (or_id r) (one_time_prekeys d)\<rparr>) =
         (if v = u then ys else opk_unused v d)"
proof -
  let ?rows = "one_time_prekeys d"
  have sorted: "sorted_wrt (<) (map or_id ?rows)" using wf by (simp add: opk_wf_def)
  have r: "r \<in> set ?rows" "or_user r = u"
    using ys wf by (auto simp: opk_unused_filter dest!: arg_cong [where f = set])
  have inj: "k = r" if "k \<in> set ?rows" "or_id k = or_id r" for k
    using strict_sorted_iff [of "map or_id ?rows"] sorted that r(1)
    by (auto simp: distinct_map dest: inj_onD)
  have "filter (\<lambda>k. or_id k \<noteq> or_id r) (opk_unused v d) = (if v = u then ys else opk_unused v d)"
  proof (cases "v = u")
    case True
    have "sorted_wrt (<) (map or_id (ys @ [r]))"
      using sorted ys wf by (auto simp: opk_unused_filter sorted_wrt_map simp flip: ys intro: sorted_wrt_filter)
    from filter_drop_last [OF this] show ?thesis using True ys by simp
  next
    case False
    then show ?thesis
      using wf inj r by (auto simp: opk_unused_filter intro!: filter_cong)
  qed
  with opk_wf_mark_used [OF wf] wf show ?thesis
    by (simp add: opk_unused_filter filter_mark_used)
qed

interpretation opk: one_time_stock "usr_consume_opk X" opk_stock "(0, [])" "\<lambda>d. quiet X \<and> opk_wf d" for X
proof (unfold_locales, goal_cases)
  case (1 s u)
  then show ?case
    by (cases "opk_unused u s" rule: rev_cases)
       (auto simp: usr_consume_opk_quiet opk_wf_mark_used, auto simp: usr_consume_opk_def)
next
  case (2 s u)
  then show ?case by (auto simp: opk_stock_def usr_consume_opk_def)
next
  case (3 s u ks k)
  then obtain ys r where ys: "opk_unused u s = ys @ [r]"
      and k: "ks = map (\<lambda>r. (col_u32 (or_opk_id r), or_pub r)) ys" "k = (col_u32 (or_opk_id r), or_pub r)"
    by (auto simp: opk_stock_def map_eq_append_conv)
  from 3 k show ?case
    by (auto simp: usr_consume_opk_quiet [OF _ ys] opk_unused_mark_used [OF _ ys] opk_stock_def)
qed

subsection \<open>Properties\<close>

text \<open>
  C15: a one-time pre-key is given out at most once.  Asking \<open>n\<close> times for a user with at least
  \<open>n\<close> unused keys returns \<open>n\<close> of them, the newest first, each one stored key, and leaves exactly the
  others unused; the keys of other users are not touched.
\<close>

theorem consume_opk_at_most_once:
  assumes "quiet X" and "opk_wf d" and "n \<le> length (opk_unused u d)"
  shows "fst (draws (usr_consume_opk X u) n d) = take n (rev (opk_stock d u)) \<and>
         opk_stock (snd (draws (usr_consume_opk X u) n d)) =
           (opk_stock d)(u := rev (drop n (rev (opk_stock d u))))"
  using opk.draws_stock [of X d n u] assms by (simp add: opk_stock_def)

definition demo_user_db :: db where
  "demo_user_db = empty_db\<lparr>users := [(''bob'', \<lparr>ur_identity_pub = [1], ur_password_hash = None, ur_created_at = 5\<rparr>)],
     one_time_prekeys := [\<lparr>or_id = 1, or_user = ''bob'', or_pub = [8], or_opk_id = 4, or_used = False\<rparr>,
                          \<lparr>or_id = 2, or_user = ''bob'', or_pub = [9], or_opk_id = 5, or_used = False\<rparr>],
     opk_next := 3\<rparr>"

lemma demo_user_db_wf: "opk_wf demo_user_db"
  by (simp add: opk_wf_def demo_user_db_def)

theorem consume_opk_at_most_once_witness:
  "fst (draws (usr_consume_opk demo_ctx ''bob'') 2 demo_user_db) = [(5, [9]), (4, [8])]"
proof -
  have rows: "opk_unused ''bob'' demo_user_db = one_time_prekeys demo_user_db"
    using demo_user_db_wf by (simp add: opk_unused_filter demo_user_db_def)
  have "2 \<le> length (opk_unused ''bob'' demo_user_db)"
    by (simp add: rows) (simp add: demo_user_db_def)
  from consume_opk_at_most_once [OF quiet_demo demo_user_db_wf this] show ?thesis
    by (simp add: opk_stock_def rows) (simp add: demo_user_db_def col_u32_def)
qed

text \<open>
  Changing a password needs the old one.  If libsodium's verifier accepts a hash exactly for the
  password it was made from, then after \<open>update_password\<close> the new password alone is accepted when
  the old one was right, and nothing has changed when it was wrong.
\<close>

theorem update_password_correct:
  assumes "quiet X" and "map_of (users d) u = Some row"
    and "pwhash_str X new = Some h" and "h \<noteq> []" and "\<And>p. pwhash_verify X h p \<longleftrightarrow> p = new"
  shows "if usr_verify_password X u old d
         then fst (usr_update_password X u old new d) \<and>
              (\<forall>p. usr_verify_password X u p (snd (usr_update_password X u old new d)) \<longleftrightarrow> p = new) \<and>
              usr_has_password X u (snd (usr_update_password X u old new d))
         else usr_update_password X u old new d = (False, d)"
  using assms
  by (simp add: usr_update_password_def usr_set_password_def)
     (simp add: usr_verify_password_def usr_has_password_def)

theorem update_password_correct_witness:
  "let d = snd (usr_set_password demo_ctx ''bob'' ''old'' demo_user_db)
   in usr_verify_password demo_ctx ''bob'' ''new''
        (snd (usr_update_password demo_ctx ''bob'' ''old'' ''new'' d))"
proof -
  let ?d = "snd (usr_set_password demo_ctx ''bob'' ''old'' demo_user_db)"
  have bob: "map_of (users demo_user_db) ''bob'' = Some \<lparr>ur_identity_pub = [1], ur_password_hash = None, ur_created_at = 5\<rparr>"
    by (simp add: demo_user_db_def)
  then have row: "map_of (users ?d) ''bob'' = Some \<lparr>ur_identity_pub = [1],
      ur_password_hash = Some (to_bytes ''old''), ur_created_at = 5\<rparr>"
    by (simp add: usr_set_password_def)
  have "usr_verify_password demo_ctx ''bob'' ''old'' ?d"
    using row by (simp add: usr_verify_password_def to_bytes_def)
  note old = this
  have "to_bytes ''new'' \<noteq> []" "pwhash_str demo_ctx ''new'' = Some (to_bytes ''new'')"
    by (simp_all add: to_bytes_def)
  moreover have "pwhash_verify demo_ctx (to_bytes ''new'') p \<longleftrightarrow> p = ''new''" for p
    by (auto simp: to_bytes_inject)
  ultimately have "if usr_verify_password demo_ctx ''bob'' ''old'' ?d
      then fst (usr_update_password demo_ctx ''bob'' ''old'' ''new'' ?d) \<and>
           (\<forall>p. usr_verify_password demo_ctx ''bob'' p
                 (snd (usr_update_password demo_ctx ''bob'' ''old'' ''new'' ?d)) \<longleftrightarrow> p = ''new'') \<and>
           usr_has_password demo_ctx ''bob'' (snd (usr_update_password demo_ctx ''bob'' ''old'' ''new'' ?d))
      else usr_update_password demo_ctx ''bob'' ''old'' ''new'' ?d = (False, ?d)"
    by (intro update_password_correct [OF quiet_demo row]) auto
  with old show ?thesis by (simp add: Let_def)
qed

text \<open>
  Every operation of the user store preserves the integrity of the database: unique users,
  pre-keys only of existing users, increasing ids; and an insertion of an existing user throws.
\<close>

theorem user_store_keeps_db_ok:
  "(db_ok d \<longrightarrow> db_ok (snd (usr_insert X usr d)) \<and> db_ok (snd (usr_update_identity_key X u pub d)) \<and>
     db_ok (snd (usr_clear_key_material X u d)) \<and> db_ok (snd (usr_clear_opks X u d)) \<and>
     db_ok (snd (usr_upsert_signed_prekey X u pub sig kid rid d)) \<and>
     db_ok (snd (usr_store_opk X u pub kid d)) \<and> db_ok (snd (usr_consume_opk X u d)) \<and>
     db_ok (snd (usr_set_password X u pw d)) \<and> db_ok (snd (usr_update_password X u pw pw' d))) \<and>
   (us_user_id usr \<in> fst ` set (users d) \<longrightarrow> usr_insert X usr d = (Threw, d))"
  using usr_insert_def [of X usr d] map_of_no_key [of "users d" "us_user_id usr"]
  by (metis inv_intros)

theorem user_store_keeps_db_ok_witness:
  "db_ok (snd (usr_set_password demo_ctx ''bob'' ''pw'' empty_db))"
  using user_store_keeps_db_ok [of empty_db demo_ctx "\<lparr>us_user_id = ''bob'', us_identity_pub = [], us_created_at = 0\<rparr>"
      "''bob''" "[]" "[]" 0 0 "''pw''" "''pw''"] db_ok_empty by blast

end
