(* ===== verification/File_Store.thy ===== *)
theory File_Store
  imports Database File_Encryptor
begin

text \<open>
  Uploaded files and their chunks, from \<open>grotto-chat-server/src/db/file_store.cpp\<close>.  Every operation
  catches SQL exceptions; most return a failure value then.  The chunk operations form the interface
  \<open>chunk_store\<close>, which uploads and downloads rely on.
\<close>

subsection \<open>The interface of a chunk store\<close>

fun run_puts :: "('i \<Rightarrow> 'c \<Rightarrow> 's \<Rightarrow> bool \<times> 's) \<Rightarrow> ('i \<Rightarrow> 'c) \<Rightarrow> 'i list \<Rightarrow> 's \<Rightarrow> 's" where
  "run_puts put g [] s = s"
| "run_puts put g (i # is) s = run_puts put g is (snd (put i (g i) s))"

locale chunk_store =
  fixes put :: "'f \<Rightarrow> 'i \<Rightarrow> 'c \<Rightarrow> 's \<Rightarrow> bool \<times> 's"
    and get :: "'f \<Rightarrow> 'i \<Rightarrow> 's \<Rightarrow> 'c option"
    and known :: "'f \<Rightarrow> 's \<Rightarrow> bool"
    and storable :: "'c \<Rightarrow> bool"
  assumes put_done: "known f s \<Longrightarrow> storable c \<Longrightarrow> fst (put f i c s)"
    and put_get: "known f s \<Longrightarrow> storable c \<Longrightarrow>
      get f' j (snd (put f i c s)) = (if f' = f \<and> j = i then Some c else get f' j s)"
    and put_known: "known f' (snd (put f i c s)) = known f' s"
begin

lemma run_puts_get:
  "known f s \<Longrightarrow> (\<And>i. i \<in> set is \<Longrightarrow> storable (g i)) \<Longrightarrow>
   get f' j (run_puts (put f) g is s) = (if f' = f \<and> j \<in> set is then Some (g j) else get f' j s)"
proof (induction "is" arbitrary: s)
  case Nil
  then show ?case by simp
next
  case (Cons i "is")
  then have "known f (snd (put f i (g i) s))" by (simp add: put_known)
  from Cons.IH [OF this] Cons.prems show ?case by (auto simp: put_get)
qed

end

subsection \<open>Definitions\<close>

abbreviation kDefaultTtlSeconds :: int where "kDefaultTtlSeconds \<equiv> 7 * 24 * 3600"

definition fil_create :: "ctx \<Rightarrow> file_metadata \<Rightarrow> db \<Rightarrow> bool \<times> db" where
  "fil_create X m d =
     (let expires = (if fm_expires_at m > 0 then fm_expires_at m else now_unix X + kDefaultTtlSeconds)
      in if map_of (files d) (fm_file_id m) \<noteq> None \<or> sql_throws X (Fil_create (fm_file_id m)) then (False, d)
         else (True, d\<lparr>files := files d @ [(fm_file_id m,
                \<lparr>fr_filename = fm_filename m, fr_file_size = col_int64 (fm_file_size m),
                 fr_mime_type = fm_mime_type m, fr_sender_id = fm_sender_id m,
                 fr_recipient_id = fm_recipient_id m, fr_channel_id = fm_channel_id m,
                 fr_uploaded_at = (if fm_uploaded_at m > 0 then fm_uploaded_at m else now_unix X),
                 fr_expires_at = expires, fr_checksum = None, fr_storage_path = fm_storage_path m,
                 fr_is_complete = fm_is_complete m, fr_is_encrypted = False, fr_encrypted_key = None\<rparr>)]\<rparr>))"

text \<open>One row of \<open>SELECT * FROM files\<close>.\<close>

definition row_metadata :: "string \<Rightarrow> file_row \<Rightarrow> file_metadata" where
  "row_metadata f r =
     \<lparr>fm_file_id = f, fm_filename = fr_filename r, fm_file_size = col_u64 (fr_file_size r),
      fm_mime_type = fr_mime_type r, fm_sender_id = fr_sender_id r,
      fm_recipient_id = fr_recipient_id r, fm_channel_id = fr_channel_id r,
      fm_uploaded_at = fr_uploaded_at r, fm_expires_at = fr_expires_at r,
      fm_file_checksum = (case fr_checksum r of None \<Rightarrow> [] | Some c \<Rightarrow> c),
      fm_storage_path = fr_storage_path r, fm_is_complete = fr_is_complete r\<rparr>"

lemma row_metadata_sel [simp]:
  "fm_file_id (row_metadata f r) = f" "fm_filename (row_metadata f r) = fr_filename r"
  "fm_file_size (row_metadata f r) = col_u64 (fr_file_size r)"
  "fm_mime_type (row_metadata f r) = fr_mime_type r" "fm_sender_id (row_metadata f r) = fr_sender_id r"
  "fm_recipient_id (row_metadata f r) = fr_recipient_id r" "fm_channel_id (row_metadata f r) = fr_channel_id r"
  "fm_expires_at (row_metadata f r) = fr_expires_at r" "fm_is_complete (row_metadata f r) = fr_is_complete r"
  by (simp_all add: row_metadata_def)

text \<open>The number tells apart the places that look the same file up within one handler.\<close>

definition fil_get :: "ctx \<Rightarrow> nat \<Rightarrow> string \<Rightarrow> db \<Rightarrow> file_metadata option" where
  "fil_get X n f d =
     (if sql_throws X (Fil_get f n) then None else map_option (row_metadata f) (map_of (files d) f))"

definition upd_file :: "string \<Rightarrow> (file_row \<Rightarrow> file_row) \<Rightarrow> db \<Rightarrow> db" where
  "upd_file f g d = d\<lparr>files := map (\<lambda>(k, r). (k, if k = f then g r else r)) (files d)\<rparr>"

definition fil_mark_complete :: "ctx \<Rightarrow> string \<Rightarrow> bytes \<Rightarrow> db \<Rightarrow> bool \<times> db" where
  "fil_mark_complete X f checksum d =
     (if sql_throws X (Fil_complete f) then (False, d)
      else (True, upd_file f (\<lambda>r. r\<lparr>fr_is_complete := True,
              fr_checksum := (if checksum = [] then None else Some checksum)\<rparr>) d))"

text \<open>Deleting files takes their chunks with them (\<open>ON DELETE CASCADE\<close>).\<close>

definition delete_files :: "(string \<Rightarrow> file_row \<Rightarrow> bool) \<Rightarrow> db \<Rightarrow> db" where
  "delete_files P d =
     (let gone = map fst (filter (\<lambda>(k, r). P k r) (files d))
      in d\<lparr>files := filter (\<lambda>(k, r). \<not> P k r) (files d),
           file_chunks := filter (\<lambda>(k, c). fst k \<notin> set gone) (file_chunks d)\<rparr>)"

definition fil_delete :: "ctx \<Rightarrow> string \<Rightarrow> db \<Rightarrow> bool \<times> db" where
  "fil_delete X f d =
     (if sql_throws X (Fil_delete f) then (False, d) else (True, delete_files (\<lambda>k _. k = f) d))"

text \<open>\<open>ORDER BY uploaded_at DESC LIMIT ?\<close>; a negative limit means no limit.\<close>

definition newest_first :: "int \<Rightarrow> (string \<times> file_row) list \<Rightarrow> file_metadata list" where
  "newest_first limit rows =
     (let sorted = sort_key (\<lambda>(k, r). - fr_uploaded_at r) rows
      in map (\<lambda>(k, r). row_metadata k r) (if limit < 0 then sorted else take (nat limit) sorted))"

definition fil_list :: "ctx \<Rightarrow> string \<Rightarrow> string \<Rightarrow> int \<Rightarrow> db \<Rightarrow> file_metadata list" where
  "fil_list X recipient channel limit d =
     (if sql_throws X Fil_list then []
      else newest_first limit (filter (\<lambda>(k, r). fr_is_complete r
             \<and> (recipient = [] \<or> fr_recipient_id r = recipient)
             \<and> (channel = [] \<or> fr_channel_id r = channel)
             \<and> fr_expires_at r > now_unix X) (files d)))"

definition fil_list_conversation :: "ctx \<Rightarrow> string \<Rightarrow> string \<Rightarrow> int \<Rightarrow> db \<Rightarrow> file_metadata list" where
  "fil_list_conversation X a b limit d =
     (if sql_throws X Fil_list then []
      else newest_first limit (filter (\<lambda>(k, r). fr_is_complete r \<and> fr_expires_at r > now_unix X
             \<and> (fr_sender_id r = a \<and> fr_recipient_id r = b \<or> fr_sender_id r = b \<and> fr_recipient_id r = a))
           (files d)))"

definition fil_store_chunk :: "ctx \<Rightarrow> string \<Rightarrow> u32 \<Rightarrow> bytes \<Rightarrow> db \<Rightarrow> bool \<times> db" where
  "fil_store_chunk X f i data d =
     (if map_of (files d) f = None \<or> data = [] \<or> sql_throws X (Fil_store_chunk f i) then (False, d)
      else (True, d\<lparr>file_chunks := mput (f, col_int i) \<lparr>ck_data = data, ck_size = int (length data)\<rparr>
                      (file_chunks d)\<rparr>))"

definition fil_get_chunk :: "ctx \<Rightarrow> string \<Rightarrow> u32 \<Rightarrow> db \<Rightarrow> bytes option" where
  "fil_get_chunk X f i d =
     (if sql_throws X (Fil_get_chunk f i) then None
      else map_option ck_data (map_of (file_chunks d) (f, col_int i)))"

definition fil_has_chunk :: "ctx \<Rightarrow> string \<Rightarrow> u32 \<Rightarrow> db \<Rightarrow> bool" where
  "fil_has_chunk X f i d =
     (\<not> sql_throws X (Fil_get_chunk f i) \<and> map_of (file_chunks d) (f, col_int i) \<noteq> None)"

definition fil_missing_chunks :: "ctx \<Rightarrow> string \<Rightarrow> u32 \<Rightarrow> db \<Rightarrow> u32 list" where
  "fil_missing_chunks X f total_chunks d =
     (if sql_throws X (Fil_missing f) then []
      else
        let has = map (\<lambda>(k, c). unat (col_u32 (snd k))) (filter (\<lambda>(k, c). fst k = f) (file_chunks d))
        in map of_nat (filter (\<lambda>i. i \<notin> set has) [0..<unat total_chunks]))"

text \<open>\<open>SUM\<close> over integers throws when a partial sum leaves the 64-bit range.\<close>

fun sql_sum :: "int \<Rightarrow> int list \<Rightarrow> int option" where
  "sql_sum acc [] = Some acc"
| "sql_sum acc (x # xs) =
     (if - (2 ^ 63) \<le> acc + x \<and> acc + x < 2 ^ 63 then sql_sum (acc + x) xs else None)"

definition sum_or_zero :: "int list \<Rightarrow> u64" where
  "sum_or_zero xs = (case sql_sum 0 xs of None \<Rightarrow> 0 | Some s \<Rightarrow> col_u64 s)"

definition fil_received_bytes :: "ctx \<Rightarrow> string \<Rightarrow> db \<Rightarrow> u64" where
  "fil_received_bytes X f d =
     (if sql_throws X (Fil_received f) then 0
      else sum_or_zero (map (\<lambda>(k, c). ck_size c) (filter (\<lambda>(k, c). fst k = f) (file_chunks d))))"

definition fil_reserved_bytes :: "ctx \<Rightarrow> db \<Rightarrow> u64" where
  "fil_reserved_bytes X d =
     (if sql_throws X Fil_reserved then 0
      else sum_or_zero (map (\<lambda>(k, r). fr_file_size r)
             (filter (\<lambda>(k, r). fr_expires_at r > now_unix X) (files d))))"

definition fil_user_reserved_bytes :: "ctx \<Rightarrow> string \<Rightarrow> db \<Rightarrow> u64" where
  "fil_user_reserved_bytes X sender d =
     (if sql_throws X (Fil_user_reserved sender) then 0
      else sum_or_zero (map (\<lambda>(k, r). fr_file_size r)
             (filter (\<lambda>(k, r). fr_sender_id r = sender \<and> fr_expires_at r > now_unix X) (files d))))"

definition fil_cleanup_expired :: "ctx \<Rightarrow> db \<Rightarrow> nat \<times> db" where
  "fil_cleanup_expired X d =
     (if sql_throws X Fil_cleanup then (0, d)
      else (length (filter (\<lambda>(k, r). fr_expires_at r \<le> now_unix X) (files d)),
            delete_files (\<lambda>_ r. fr_expires_at r \<le> now_unix X) d))"

record file_stats =
  total_files :: nat
  total_bytes :: u64
  expired_files :: nat
  incomplete_files :: nat

definition fil_stats :: "ctx \<Rightarrow> db \<Rightarrow> file_stats" where
  "fil_stats X d =
     (let s0 = \<lparr>total_files = 0, total_bytes = 0, expired_files = 0, incomplete_files = 0\<rparr>
      in if sql_throws X (Fil_stats 0) then s0
         else case sql_sum 0 (map (\<lambda>(k, r). fr_file_size r) (files d)) of
           None \<Rightarrow> s0
         | Some s \<Rightarrow>
             let s1 = s0\<lparr>total_files := length (files d), total_bytes := col_u64 s\<rparr>
             in if sql_throws X (Fil_stats 1) then s1
             else let s2 = s1\<lparr>expired_files := length (filter (\<lambda>(k, r). fr_expires_at r \<le> now_unix X) (files d))\<rparr>
             in if sql_throws X (Fil_stats 2) then s2
             else s2\<lparr>incomplete_files := length (filter (\<lambda>(k, r). \<not> fr_is_complete r) (files d))\<rparr>)"

subsection \<open>Encryption at rest\<close>

text \<open>The encryptor is its master key, empty when there is none.\<close>

definition init_encryption :: "string \<Rightarrow> bytes" where
  "init_encryption master_key_hex = fe_new master_key_hex"

definition maybe_encrypt :: "crypto \<Rightarrow> nat \<Rightarrow> bytes \<Rightarrow> bytes \<Rightarrow> bytes \<times> bytes option" where
  "maybe_encrypt C n mk data =
     (if \<not> fe_is_ready mk then ([], Some data)
      else case fe_encrypt C n mk data of
        (Some ek, Some enc) \<Rightarrow> (serialize_encrypted_key ek, Some enc)
      | _ \<Rightarrow> ([], None))"

definition maybe_decrypt :: "crypto \<Rightarrow> bytes \<Rightarrow> bytes \<Rightarrow> bytes \<Rightarrow> bytes option" where
  "maybe_decrypt C mk data key =
     (if \<not> fe_is_ready mk \<or> key = [] then Some data
      else case deserialize_encrypted_key key of None \<Rightarrow> None | Some ek \<Rightarrow> fe_decrypt C mk data ek)"

definition fil_encrypt_and_store :: "ctx \<Rightarrow> crypto \<Rightarrow> nat \<Rightarrow> bytes \<Rightarrow> string \<Rightarrow> bytes \<Rightarrow> db \<Rightarrow> bool \<times> db" where
  "fil_encrypt_and_store X C n mk f plaintext d =
     (if \<not> fe_is_ready mk then fil_store_chunk X f 0 plaintext d
      else case maybe_encrypt C n mk plaintext of
        (key, None) \<Rightarrow> (False, d)
      | (key, Some enc) \<Rightarrow>
          (case fil_store_chunk X f 0 enc d of
             (False, d) \<Rightarrow> (False, d)
           | (True, d) \<Rightarrow>
               if sql_throws X (Fil_set_key f) then (False, d)
               else (True, upd_file f (\<lambda>r. r\<lparr>fr_is_encrypted := True,
                       fr_encrypted_key := (if key = [] then None else Some key)\<rparr>) d)))"

definition fil_decrypt_and_get :: "ctx \<Rightarrow> crypto \<Rightarrow> bytes \<Rightarrow> string \<Rightarrow> db \<Rightarrow> bytes option" where
  "fil_decrypt_and_get X C mk f d =
     (case fil_get_chunk X f 0 d of
        None \<Rightarrow> None
      | Some enc \<Rightarrow>
          if sql_throws X (Fil_get_key f) then None
          else case map_of (files d) f of
            None \<Rightarrow> None
          | Some r \<Rightarrow>
              if \<not> fr_is_encrypted r then Some enc
              else case fr_encrypted_key r of None \<Rightarrow> None | Some key \<Rightarrow> maybe_decrypt C mk enc key)"

subsection \<open>Every operation keeps the tables consistent\<close>

lemma map_of_upd_file [simp]:
  "map_of (files (upd_file f g d)) k = (if k = f then map_option g (map_of (files d) f) else map_of (files d) k)"
proof -
  have "map_of (map (\<lambda>(k, r). (k, if k = f then g r else r)) m) k
      = (if k = f then map_option g (map_of m f) else map_of m k)" for m
    by (induction m) auto
  then show ?thesis by (simp add: upd_file_def)
qed

lemma keys_upd_file [simp]: "map fst (files (upd_file f g d)) = map fst (files d)"
  by (auto simp: upd_file_def)

lemma upd_file_frame [frame_simps]:
  "users (upd_file f g d) = users d" "signed_prekeys (upd_file f g d) = signed_prekeys d"
  "one_time_prekeys (upd_file f g d) = one_time_prekeys d" "opk_next (upd_file f g d) = opk_next d"
  "offline_messages (upd_file f g d) = offline_messages d" "off_next (upd_file f g d) = off_next d"
  "file_chunks (upd_file f g d) = file_chunks d"
  by (simp_all add: upd_file_def)

lemma upd_file_ok: "db_ok d \<Longrightarrow> db_ok (upd_file f g d)"
proof -
  have "fst ` set (files (upd_file f g d)) = fst ` set (files d)"
    by (simp only: set_map [symmetric] keys_upd_file)
  then show "db_ok d \<Longrightarrow> ?thesis"
    by (simp add: db_ok_defs frame_simps)
qed

lemma delete_files_frame [frame_simps]:
  "users (delete_files P d) = users d" "signed_prekeys (delete_files P d) = signed_prekeys d"
  "one_time_prekeys (delete_files P d) = one_time_prekeys d" "opk_next (delete_files P d) = opk_next d"
  "offline_messages (delete_files P d) = offline_messages d" "off_next (delete_files P d) = off_next d"
  by (simp_all add: delete_files_def Let_def)

lemma map_of_delete_files:
  assumes "keys_distinct (files d)"
  shows "map_of (files (delete_files P d)) k =
      (case map_of (files d) k of None \<Rightarrow> None | Some r \<Rightarrow> if P k r then None else Some r)"
    and "map_of (file_chunks (delete_files P d)) (k, i) =
      (case map_of (files d) k of Some r \<Rightarrow> if P k r then None else map_of (file_chunks d) (k, i)
       | None \<Rightarrow> map_of (file_chunks d) (k, i))"
  using assms
  by (auto simp: delete_files_def Let_def map_of_filter_entry map_of_filter_key keys_filter_entry
      simp del: set_filter split: option.split)

lemma chunk_has_file:
  assumes "files_fk d" and "map_of (file_chunks d) (f, i) = Some c"
  shows "map_of (files d) f \<noteq> None"
proof -
  have "fst (f, i) \<in> fst ` set (files d)"
    using assms map_of_key [OF assms(2)] unfolding files_fk_def by blast
  then show ?thesis by (simp add: map_of_no_key)
qed

lemma delete_files_fk:
  assumes "files_fk d" shows "files_fk (delete_files P d)"
proof -
  have fd: "keys_distinct (files d)" using assms by (simp add: files_fk_def)
  have "fst k \<in> fst ` set (files (delete_files P d))"
    if k: "k \<in> fst ` set (file_chunks (delete_files P d))" for k
  proof -
    obtain f i where ki: "k = (f, i)" by (cases k)
    from k have some: "map_of (file_chunks (delete_files P d)) (f, i) \<noteq> None"
      by (simp only: ki map_of_no_key simp_thms)
    then obtain c where "map_of (file_chunks d) (f, i) = Some c"
      by (auto simp: map_of_delete_files [OF fd] split: option.splits if_splits)
    from chunk_has_file [OF assms this] have "map_of (files d) f \<noteq> None" .
    with some have "map_of (files (delete_files P d)) f \<noteq> None"
      by (auto simp: map_of_delete_files [OF fd] split: option.splits if_splits)
    then show ?thesis by (simp only: ki map_of_no_key fst_conv simp_thms)
  qed
  moreover have "keys_distinct (files (delete_files P d))" "keys_distinct (file_chunks (delete_files P d))"
    using assms by (simp_all add: files_fk_def delete_files_def Let_def distinct_map_filter)
  ultimately show ?thesis unfolding files_fk_def by blast
qed

lemma delete_files_ok: "db_ok d \<Longrightarrow> db_ok (delete_files P d)"
  using delete_files_fk [of d P]
  by (simp add: db_ok_def users_fk_def opk_wf_def off_wf_def frame_simps)

lemma fil_create_ok [inv_intros]: "db_ok d \<Longrightarrow> db_ok (snd (fil_create X m d))"
  by (auto simp: fil_create_def db_ok_defs map_of_no_key Let_def)

lemma fil_mark_complete_ok [inv_intros]: "db_ok d \<Longrightarrow> db_ok (snd (fil_mark_complete X f c d))"
  by (simp add: fil_mark_complete_def upd_file_ok)

lemma fil_delete_ok [inv_intros]: "db_ok d \<Longrightarrow> db_ok (snd (fil_delete X f d))"
  by (simp add: fil_delete_def delete_files_ok)

lemma fil_cleanup_ok [inv_intros]: "db_ok d \<Longrightarrow> db_ok (snd (fil_cleanup_expired X d))"
  by (simp add: fil_cleanup_expired_def delete_files_ok)

lemma fil_store_chunk_ok [inv_intros]: "db_ok d \<Longrightarrow> db_ok (snd (fil_store_chunk X f i c d))"
proof -
  assume ok: "db_ok d"
  have "files_fk (d\<lparr>file_chunks := mput (f, c') v (file_chunks d)\<rparr>)"
    if "map_of (files d) f \<noteq> None" for c' v
  proof -
    have "f \<in> fst ` set (files d)" using that by (simp add: map_of_no_key)
    then have "\<forall>k \<in> insert (f, c') (fst ` set (file_chunks d)). fst k \<in> fst ` set (files d)"
      using ok unfolding db_ok_def files_fk_def by (simp only: Set.ball_simps(7) fst_conv) simp
    with ok show ?thesis unfolding db_ok_def files_fk_def by (simp del: ball_simps)
  qed
  with ok show ?thesis
    by (simp add: fil_store_chunk_def db_ok_def users_fk_def opk_wf_def off_wf_def)
qed

lemma fil_encrypt_and_store_ok [inv_intros]:
  assumes "db_ok d" shows "db_ok (snd (fil_encrypt_and_store X C n mk f pt d))"
proof (cases "fe_is_ready mk")
  case False
  then show ?thesis using fil_store_chunk_ok [OF assms] by (simp add: fil_encrypt_and_store_def)
next
  case ready: True
  obtain key enc where e: "maybe_encrypt C n mk pt = (key, enc)" by (cases "maybe_encrypt C n mk pt")
  show ?thesis
  proof (cases enc)
    case None
    with e ready assms show ?thesis by (simp add: fil_encrypt_and_store_def)
  next
    case (Some c)
    obtain b d' where s: "fil_store_chunk X f 0 c d = (b, d')" by (cases "fil_store_chunk X f 0 c d")
    have "db_ok d'" using fil_store_chunk_ok [OF assms, of X f 0 c] s by simp
    with upd_file_ok [OF this] e s Some ready show ?thesis
      by (cases b) (simp_all add: fil_encrypt_and_store_def)
  qed
qed

subsection \<open>The store implements the chunk interface\<close>

definition fil_known :: "ctx \<Rightarrow> string \<Rightarrow> db \<Rightarrow> bool" where
  "fil_known X f d \<longleftrightarrow> quiet X \<and> map_of (files d) f \<noteq> None"

interpretation ch: chunk_store "fil_store_chunk X" "fil_get_chunk X" "fil_known X" "\<lambda>c. c \<noteq> []" for X
proof (unfold_locales, goal_cases)
  case (1 f s c i)
  then show ?case by (auto simp: fil_known_def fil_store_chunk_def)
next
  case (2 f s c f' j i)
  then show ?case by (auto simp: fil_known_def fil_store_chunk_def fil_get_chunk_def)
next
  case (3 f' f i c s)
  then show ?case by (simp add: fil_known_def fil_store_chunk_def)
qed

text \<open>The \<open>i\<close>-th chunk of a file of chunk size \<open>c\<close>.\<close>

definition chunk_of :: "nat \<Rightarrow> bytes \<Rightarrow> nat \<Rightarrow> bytes" where
  "chunk_of c content i = take c (drop (i * c) content)"

lemma concat_chunks: "concat (map (chunk_of c content) [0..<n]) = take (n * c) content"
proof (induction n)
  case 0
  then show ?case by simp
next
  case (Suc n)
  then show ?case by (simp add: chunk_of_def take_add [symmetric] add.commute)
qed

text \<open>
  Chunks reassemble to the file.  Storing the chunks of a file in any order, some of them more
  than once, every store is accepted; reading the chunks \<open>0, 1, \<dots>\<close> back then gives the content,
  and the chunks of other files are as before.
\<close>

theorem chunks_reassemble:
  assumes "quiet X" and "map_of (files d) f \<noteq> None"
    and "set is = {..<n}" and "n \<le> 2 ^ 32"
    and "\<And>i. i < n \<Longrightarrow> i * c < length content" and "c > 0" and "length content \<le> n * c"
  shows "let d' = run_puts (fil_store_chunk X f) (\<lambda>w. chunk_of c content (unat w)) (map of_nat is) d
         in concat (map (\<lambda>i. the (fil_get_chunk X f (of_nat i) d')) [0..<n]) = content \<and>
            (\<forall>f' j. f' \<noteq> f \<longrightarrow> fil_get_chunk X f' j d' = fil_get_chunk X f' j d)"
proof -
  let ?g = "\<lambda>w :: u32. chunk_of c content (unat w)"
  let ?d = "run_puts (fil_store_chunk X f) ?g (map of_nat is) d"
  have unat: "unat (word_of_nat i :: u32) = i" if "i < n" for i
    using that assms(4) by (intro unat_of_nat_u32) simp
  have "?g w \<noteq> []" if "w \<in> set (map of_nat is)" for w
  proof -
    from that assms(3) obtain i where "i < n" "w = of_nat i" by auto
    with assms(5) [of i] assms(6) unat [of i] show ?thesis by (simp add: chunk_of_def)
  qed
  note get = ch.run_puts_get [of X f d "map of_nat is" ?g, OF _ this]
  have known: "fil_known X f d" using assms(1,2) by (simp add: fil_known_def)
  have "fil_get_chunk X f (of_nat i) ?d = Some (chunk_of c content i)" if "i < n" for i
    using get [OF known] that unat assms(3) by auto
  then have "concat (map (\<lambda>i. the (fil_get_chunk X f (of_nat i) ?d)) [0..<n])
      = concat (map (chunk_of c content) [0..<n])"
    by (intro arg_cong [where f = concat]) simp
  also have "\<dots> = content" using assms(7) by (simp add: concat_chunks)
  finally show ?thesis using get [OF known] by (simp add: Let_def)
qed

definition demo_file_db :: db where
  "demo_file_db = empty_db\<lparr>files := [(''f'', \<lparr>fr_filename = ''a'', fr_file_size = 3, fr_mime_type = [],
     fr_sender_id = ''bob'', fr_recipient_id = ''eve'', fr_channel_id = [], fr_uploaded_at = 1,
     fr_expires_at = 5000, fr_checksum = None, fr_storage_path = [], fr_is_complete = False,
     fr_is_encrypted = False, fr_encrypted_key = None\<rparr>)]\<rparr>"

theorem chunks_reassemble_witness:
  "concat (map (\<lambda>i. the (fil_get_chunk demo_ctx ''f'' (of_nat i)
      (run_puts (fil_store_chunk demo_ctx ''f'') (\<lambda>w. chunk_of 2 [7, 8, 9] (unat w)) (map of_nat [1, 0, 1]) demo_file_db)))
      [0..<2]) = [7, 8, 9]"
proof -
  have known: "map_of (files demo_file_db) ''f'' \<noteq> None" by (simp add: demo_file_db_def)
  have idx: "set [1, 0, 1] = {..<2 :: nat}" by auto
  have len: "i * 2 < length [7 :: byte, 8, 9]" if "i < 2" for i :: nat using that by simp
  from chunks_reassemble [OF quiet_demo known idx _ len] show ?thesis by (simp add: Let_def)
qed

lemma encrypt_store_plain:
  assumes "\<not> fe_is_ready mk" and "fil_encrypt_and_store X C n mk f pt d = (True, d')" and "quiet X"
    and "map_of (files d) f = Some r" and "fr_is_encrypted r \<longrightarrow> fr_encrypted_key r \<noteq> None"
  shows "fil_decrypt_and_get X C mk f d' = Some pt"
  using assms
  by (auto simp: fil_encrypt_and_store_def fil_store_chunk_def fil_decrypt_and_get_def
      fil_get_chunk_def maybe_decrypt_def split: if_splits option.splits)

lemma serialize_not_Nil [simp]: "serialize_encrypted_key ek \<noteq> []"
  by (auto simp: serialize_encrypted_key_def dest!: arg_cong [where f = length])

lemma encrypt_store_cipher:
  assumes laws: "aead_laws C" and ready: "fe_is_ready mk"
    and st: "fil_encrypt_and_store X C n mk f pt d = (True, d')" and quiet: "quiet X"
    and size: "length pt < 2 ^ 64"
  shows "fil_decrypt_and_get X C mk f d' = Some pt"
proof -
  obtain ek enc where e: "fe_encrypt C n mk pt = (Some ek, Some enc)"
    using st ready by (auto simp: fil_encrypt_and_store_def maybe_encrypt_def split: option.splits prod.splits)
  with st ready quiet have "map_of (files d) f \<noteq> None"
    and "d' = upd_file f (\<lambda>r. r\<lparr>fr_is_encrypted := True, fr_encrypted_key := Some (serialize_encrypted_key ek)\<rparr>)
      (snd (fil_store_chunk X f 0 enc d))" and "fst (fil_store_chunk X f 0 enc d)"
    by (auto simp: fil_encrypt_and_store_def maybe_encrypt_def fil_store_chunk_def split: if_splits)
  with quiet ready decrypt_encrypt [OF laws e size] show ?thesis
    by (auto simp: fil_decrypt_and_get_def fil_get_chunk_def fil_store_chunk_def maybe_decrypt_def
        frame_simps split: if_splits)
qed

text \<open>
  A chunk stored with encryption is read back in clear, and without a master key it is stored as
  it is.  When the store reports success (on a file that, if marked encrypted, has its key), reading
  returns the plaintext.
\<close>

theorem encrypted_chunk_roundtrip:
  assumes "aead_laws C" and "quiet X" and "length pt < 2 ^ 31"
    and "map_of (files d) f = Some r" and "fr_is_encrypted r \<longrightarrow> fr_encrypted_key r \<noteq> None"
    and "fil_encrypt_and_store X C n mk f pt d = (True, d')"
  shows "fil_decrypt_and_get X C mk f d' = Some pt"
proof (cases "fe_is_ready mk")
  case True
  with assms show ?thesis by (intro encrypt_store_cipher) auto
next
  case False
  with assms show ?thesis by (intro encrypt_store_plain) auto
qed

theorem encrypted_chunk_roundtrip_witness:
  "\<exists>d'. fil_encrypt_and_store demo_ctx demo_crypto 0 [5] ''f'' [1, 2] demo_file_db = (True, d') \<and>
     fil_decrypt_and_get demo_ctx demo_crypto [5] ''f'' d' = Some [1, 2]"
proof -
  have "fst (fil_encrypt_and_store demo_ctx demo_crypto 0 [5] ''f'' [1, 2] demo_file_db)"
    by (simp add: fil_encrypt_and_store_def maybe_encrypt_def fe_encrypt_def encrypt_dek_def
        derive_key_def fe_is_ready_def demo_crypto_def fil_store_chunk_def demo_file_db_def)
  then obtain d' where st: "fil_encrypt_and_store demo_ctx demo_crypto 0 [5] ''f'' [1, 2] demo_file_db = (True, d')"
    by (cases "fil_encrypt_and_store demo_ctx demo_crypto 0 [5] ''f'' [1, 2] demo_file_db") auto
  have row: "map_of (files demo_file_db) ''f'' = Some (snd (hd (files demo_file_db)))"
      "\<not> fr_is_encrypted (snd (hd (files demo_file_db)))"
    by (simp_all add: demo_file_db_def)
  from encrypted_chunk_roundtrip [OF demo_aead quiet_demo _ row(1) _ st] row(2) st
  show ?thesis by auto
qed

text \<open>
  Removing a file removes its chunks.  After a deletion or an expiry sweep no chunk of a removed
  file can be read, files that stay keep their chunks, and the integrity of the tables holds.
\<close>

theorem file_removal_cascades:
  assumes "db_ok d" and "quiet X"
  shows "fil_get_chunk X f i (snd (fil_delete X f d)) = None \<and>
         (f' \<noteq> f \<longrightarrow> fil_get_chunk X f' i (snd (fil_delete X f d)) = fil_get_chunk X f' i d) \<and>
         db_ok (snd (fil_delete X f d)) \<and> db_ok (snd (fil_cleanup_expired X d)) \<and>
         fil_get X n f (snd (fil_cleanup_expired X d)) =
           (case fil_get X n f d of None \<Rightarrow> None
            | Some m \<Rightarrow> if fm_expires_at m \<le> now_unix X then None else Some m)"
proof -
  have fd: "keys_distinct (files d)" using assms(1) by (simp add: db_ok_def files_fk_def)
  have none: "map_of (files d) f = None \<Longrightarrow> map_of (file_chunks d) (f, j) = None" for j
    using assms(1) chunk_has_file [of d f j] by (cases "map_of (file_chunks d) (f, j)") (auto simp: db_ok_def)
  have "fil_get_chunk X f i (snd (fil_delete X f d)) = None"
    using assms(2) none
    by (auto simp: fil_get_chunk_def fil_delete_def map_of_delete_files [OF fd] split: option.split)
  moreover have "f' \<noteq> f \<longrightarrow> fil_get_chunk X f' i (snd (fil_delete X f d)) = fil_get_chunk X f' i d"
    using assms(2)
    by (auto simp: fil_get_chunk_def fil_delete_def map_of_delete_files [OF fd] split: option.split)
  moreover have "fil_get X n f (snd (fil_cleanup_expired X d)) =
      (case fil_get X n f d of None \<Rightarrow> None
       | Some m \<Rightarrow> if fm_expires_at m \<le> now_unix X then None else Some m)"
    using assms(2)
    by (auto simp: fil_get_def fil_cleanup_expired_def map_of_delete_files [OF fd] row_metadata_def split: option.split)
  ultimately show ?thesis
    using assms by (simp add: fil_delete_ok fil_cleanup_ok)
qed

theorem file_removal_cascades_witness:
  "fil_get_chunk demo_ctx ''f'' 0 (snd (fil_delete demo_ctx ''f'' demo_file_db)) = None"
proof -
  have "db_ok demo_file_db" by (simp add: db_ok_defs demo_file_db_def empty_db_def)
  from file_removal_cascades [OF this quiet_demo] show ?thesis by blast
qed

end
