(* ===== verification/Command_Handler.thy ===== *)
theory Command_Handler
  imports Listener Offline_Store User_Store File_Store
begin

text \<open>
  The slash commands, from \<open>grotto-chat-server/src/commands/command_handler.cpp\<close>: channels with
  operators, bans and invitations, nicknames, presence, passwords, file removal, and the rate limits
  with the automatic ban for abuse.  A command returns its response and the new server state.  The
  order of an unordered container is the order of its list.
\<close>

abbreviation nl :: string where "nl \<equiv> [CHR 0x0A]"

subsection \<open>Text\<close>

definition format_identity_fingerprint :: "bytes \<Rightarrow> string" where
  "format_identity_fingerprint pub = (if pub = [] then [] else bytes_to_hex pub)"

definition resolve_target_user_id :: "(string \<times> string) list \<Rightarrow> string \<Rightarrow> string" where
  "resolve_target_user_id nicks target =
     (case map_of nicks target of
        Some u \<Rightarrow> u
      | None \<Rightarrow> (case List.find (\<lambda>(n, u). nicknames_equal n target) nicks of
                   Some (n, u) \<Rightarrow> u
                 | None \<Rightarrow> target))"

definition normalize_channel_argument :: "string \<Rightarrow> string" where
  "normalize_channel_argument input =
     (let channel = sanitize_channel_name input in if is_valid_channel_name channel then channel else [])"

text \<open>
  The quotas are printed through a \<open>double\<close>.  A \<open>double\<close> holding a 64-bit integer is that integer
  rounded to 53 bits, ties to even; dividing by 1024 is exact; \<open>setprecision\<close> rounds the exact value
  to the digits asked for, ties to even.
\<close>

definition round_half_even :: "nat \<Rightarrow> nat \<Rightarrow> nat" where
  "round_half_even n d =
     (let q = n div d; r = n mod d
      in if 2 * r < d then q else if 2 * r > d then q + 1 else if even q then q else q + 1)"

function dbl_exp :: "nat \<Rightarrow> nat" where
  "dbl_exp n = (if n < 2 ^ 53 then 0 else Suc (dbl_exp (n div 2)))"
  by pat_completeness auto
termination by (relation "measure id") auto

declare dbl_exp.simps [simp del]

definition to_double :: "nat \<Rightarrow> nat" where
  "to_double n = round_half_even n (2 ^ dbl_exp n) * 2 ^ dbl_exp n"

fun unit_loop :: "nat \<Rightarrow> nat \<Rightarrow> nat \<Rightarrow> nat" where
  "unit_loop 0 k v = k"
| "unit_loop (Suc fuel) k v = (if v \<ge> 1024 * 1024 ^ k \<and> k + 1 < 5 then unit_loop fuel (k + 1) v else k)"

definition kUnits :: "string list" where
  "kUnits = [''B'', ''KB'', ''MB'', ''GB'', ''TB'']"

definition human_bytes :: "u64 \<Rightarrow> string" where
  "human_bytes bytes =
     (let v = to_double (unat bytes);
          k = unit_loop 4 0 v
      in if k = 0 then show_nat (unat bytes) @ '' '' @ kUnits ! k
         else if v \<ge> 10 * 1024 ^ k then show_nat (round_half_even v (1024 ^ k)) @ '' '' @ kUnits ! k
         else let t = round_half_even (10 * v) (1024 ^ k)
              in show_nat (t div 10) @ ''.'' @ show_nat (t mod 10) @ '' '' @ kUnits ! k)"

definition quota_limit_label :: "u64 \<Rightarrow> string" where
  "quota_limit_label limit = (if limit = 0 then ''unlimited'' else human_bytes limit)"

definition quota_remaining_label :: "u64 \<Rightarrow> u64 \<Rightarrow> string" where
  "quota_remaining_label used limit =
     (if limit = 0 then ''unlimited'' else human_bytes (if used \<ge> limit then 0 else limit - used))"

definition join_command_args :: "string list \<Rightarrow> string" where
  "join_command_args args = join_with '' '' args"

definition format_status_since :: "ctx \<Rightarrow> int \<Rightarrow> string" where
  "format_status_since X since =
     (if since \<le> 0 then []
      else if unix_ms X \<le> since then ''just now''
      else
        let delta = nat ((unix_ms X - since) div 1000);
            hours = delta div 3600; minutes = delta mod 3600 div 60; seconds = delta mod 3600 mod 60
        in (if hours > 0 then show_nat hours @ ''h '' else [])
           @ (if hours > 0 \<or> minutes > 0 then show_nat minutes @ ''m '' else [])
           @ show_nat seconds @ ''s ago'')"

definition make_response :: "bool \<Rightarrow> string \<Rightarrow> string \<Rightarrow> command_response" where
  "make_response ok m c = \<lparr>cr_success = ok, cr_message = m, cr_command = c\<rparr>"

definition response_env :: "ctx \<Rightarrow> command_response \<Rightarrow> envelope" where
  "response_env X r = bare_env MT_COMMAND_RESPONSE (ser (codec X) (M_CommandResponse r))"

subsection \<open>Channels\<close>

definition chan_at :: "server \<Rightarrow> string \<Rightarrow> channel_state option" where
  "chan_at s c = map_of (channels (cmds s)) c"

definition set_chan :: "string \<Rightarrow> channel_state \<Rightarrow> server \<Rightarrow> server" where
  "set_chan c ch s = s\<lparr>cmds := (cmds s)\<lparr>channels := mput c ch (channels (cmds s))\<rparr>\<rparr>"

definition del_chan :: "string \<Rightarrow> server \<Rightarrow> server" where
  "del_chan c s = s\<lparr>cmds := (cmds s)\<lparr>channels := mdel c (channels (cmds s))\<rparr>\<rparr>"

definition new_channel :: "string \<Rightarrow> channel_state" where
  "new_channel name = \<lparr>ch_name = name, ch_topic = [], ch_members = [], ch_operators = [], ch_voiced = [],
     ch_banned = [], ch_invite_only = False, ch_moderated = False, ch_topic_restricted = True, ch_invites = []\<rparr>"

definition get_or_create_channel :: "string \<Rightarrow> server \<Rightarrow> channel_state \<times> server" where
  "get_or_create_channel name s =
     (case chan_at s name of
        None \<Rightarrow> (new_channel name, set_chan name (new_channel name) s)
      | Some ch \<Rightarrow> (ch, s))"

definition is_in_channel :: "server \<Rightarrow> string \<Rightarrow> string \<Rightarrow> bool" where
  "is_in_channel s c u = (case chan_at s c of None \<Rightarrow> False | Some ch \<Rightarrow> u \<in> set (ch_members ch))"

definition is_operator :: "server \<Rightarrow> string \<Rightarrow> string \<Rightarrow> bool" where
  "is_operator s c u = (case chan_at s c of None \<Rightarrow> False | Some ch \<Rightarrow> u \<in> set (ch_operators ch))"

definition is_voiced :: "server \<Rightarrow> string \<Rightarrow> string \<Rightarrow> bool" where
  "is_voiced s c u = (case chan_at s c of None \<Rightarrow> False | Some ch \<Rightarrow> u \<in> set (ch_voiced ch))"

definition get_channel_members :: "server \<Rightarrow> string \<Rightarrow> string list" where
  "get_channel_members s c = (case chan_at s c of None \<Rightarrow> [] | Some ch \<Rightarrow> ch_members ch)"

definition get_channel_topic :: "server \<Rightarrow> string \<Rightarrow> string" where
  "get_channel_topic s c = (case chan_at s c of None \<Rightarrow> [] | Some ch \<Rightarrow> ch_topic ch)"

definition display_nick :: "server \<Rightarrow> string \<Rightarrow> string" where
  "display_nick s u = (case user_id_to_nick (cmds s) u of None \<Rightarrow> u | Some n \<Rightarrow> n)"

definition user_list_text :: "server \<Rightarrow> string \<Rightarrow> channel_state \<Rightarrow> string" where
  "user_list_text s c ch =
     ''Users in '' @ c @ '':'' @ nl @
     concat (map (\<lambda>u. (if u \<in> set (ch_operators ch) then ''@'' else if u \<in> set (ch_voiced ch) then ''+'' else [])
                       @ display_nick s u @ nl) (ch_members ch))"

definition user_list_env :: "ctx \<Rightarrow> server \<Rightarrow> string \<Rightarrow> channel_state \<Rightarrow> envelope" where
  "user_list_env X s c ch = response_env X (make_response True (user_list_text s c ch) ''names'')"

definition send_user_list :: "ctx \<Rightarrow> string \<Rightarrow> sid \<Rightarrow> server \<Rightarrow> server" where
  "send_user_list X c i s =
     (case chan_at s c of None \<Rightarrow> s | Some ch \<Rightarrow> post i (user_list_env X s c ch) s)"

definition broadcast_user_list :: "ctx \<Rightarrow> string \<Rightarrow> server \<Rightarrow> server" where
  "broadcast_user_list X c s =
     (case chan_at s c of
        None \<Rightarrow> s
      | Some ch \<Rightarrow> post_all (List.map_filter (find_session s) (ch_members ch)) (user_list_env X s c ch) s)"

definition notify_channel_join :: "ctx \<Rightarrow> string \<Rightarrow> string \<Rightarrow> server \<Rightarrow> server" where
  "notify_channel_join X c u s = broadcast_user_list X c s"

definition notify_channel_part :: "ctx \<Rightarrow> string \<Rightarrow> string \<Rightarrow> string \<Rightarrow> server \<Rightarrow> server" where
  "notify_channel_part X c u reason s = broadcast_user_list X c s"

text \<open>Members who are offline get the message through the offline store.\<close>

fun fan_out :: "ctx \<Rightarrow> envelope \<Rightarrow> sid option \<Rightarrow> string list \<Rightarrow> server \<Rightarrow> server" where
  "fan_out X e exclude [] s = s"
| "fan_out X e exclude (u # us) s =
     fan_out X e exclude us
       (case find_session s u of
          Some i \<Rightarrow> if Some i \<noteq> exclude then post i e s else s
        | None \<Rightarrow> s\<lparr>sdb := snd (off_save X u (ser_env (codec X) e) (sdb s))\<rparr>)"

definition broadcast_to_channel :: "ctx \<Rightarrow> string \<Rightarrow> envelope \<Rightarrow> sid option \<Rightarrow> server \<Rightarrow> server" where
  "broadcast_to_channel X c e exclude s =
     (case chan_at s c of None \<Rightarrow> s | Some ch \<Rightarrow> fan_out X e exclude (ch_members ch) s)"

definition join_channel :: "string \<Rightarrow> string \<Rightarrow> server \<Rightarrow> server" where
  "join_channel c u s =
     (let (ch, s) = get_or_create_channel c s;
          ch = ch\<lparr>ch_members := uinsert u (ch_members ch)\<rparr>;
          ch = (if length (ch_members ch) = 1 then ch\<lparr>ch_operators := uinsert u (ch_operators ch)\<rparr> else ch)
      in set_chan c ch s)"

definition part_from :: "string \<Rightarrow> channel_state \<Rightarrow> channel_state" where
  "part_from u ch = ch\<lparr>ch_members := uerase u (ch_members ch), ch_operators := uerase u (ch_operators ch),
                       ch_voiced := uerase u (ch_voiced ch)\<rparr>"

definition part_channel :: "string \<Rightarrow> string \<Rightarrow> server \<Rightarrow> server" where
  "part_channel c u s =
     (case chan_at s c of
        None \<Rightarrow> s
      | Some ch \<Rightarrow>
          let ch = part_from u ch
          in if ch_members ch = [] then del_chan c s else set_chan c ch s)"

subsection \<open>Abuse\<close>

abbreviation kMaxViolations :: nat where "kMaxViolations \<equiv> 5"
abbreviation kViolationWindow :: int where "kViolationWindow \<equiv> mins 10"
abbreviation kBanDuration :: int where "kBanDuration \<equiv> mins 30"

definition track_abuse :: "ctx \<Rightarrow> string \<Rightarrow> server \<Rightarrow> bool \<times> server" where
  "track_abuse X u s =
     (let now = steady_now X;
          r = (case map_of (abuse_records (cmds s)) u of
                 None \<Rightarrow> \<lparr>ar_violations = 0, ar_first = now, ar_last = 0, ar_banned = False\<rparr>
               | Some r \<Rightarrow> r);
          r = (if now - ar_first r > kViolationWindow
               then r\<lparr>ar_violations := 0, ar_first := now, ar_banned := False\<rparr> else r);
          r = r\<lparr>ar_violations := ar_violations r + 1, ar_last := now\<rparr>;
          banned = (ar_violations r \<ge> kMaxViolations);
          r = (if banned then r\<lparr>ar_banned := True\<rparr> else r)
      in (banned, s\<lparr>cmds := (cmds s)\<lparr>abuse_records := mput u r (abuse_records (cmds s))\<rparr>\<rparr>))"

definition is_abuser :: "ctx \<Rightarrow> string \<Rightarrow> server \<Rightarrow> bool \<times> server" where
  "is_abuser X u s =
     (case map_of (abuse_records (cmds s)) u of
        None \<Rightarrow> (False, s)
      | Some r \<Rightarrow>
          if ar_banned r then
            (if steady_now X - ar_last r > kBanDuration
             then (False, s\<lparr>cmds := (cmds s)\<lparr>abuse_records := mdel u (abuse_records (cmds s))\<rparr>\<rparr>)
             else (True, s))
          else (False, s))"

definition cleanup_old_abuse_records :: "ctx \<Rightarrow> server \<Rightarrow> server" where
  "cleanup_old_abuse_records X s =
     s\<lparr>cmds := (cmds s)\<lparr>abuse_records := filter (\<lambda>(u, r).
         \<not> (if ar_banned r then steady_now X - ar_last r > kBanDuration
            else steady_now X - ar_first r > kViolationWindow)) (abuse_records (cmds s))\<rparr>\<rparr>"

definition limits_of :: "ctx \<Rightarrow> string \<Rightarrow> server \<Rightarrow> user_limits" where
  "limits_of X u s =
     (case user_rate_limits (cmds s) u of
        None \<Rightarrow> \<lparr>command_limiter = new_limiter 30 (secs 60) (steady_now X),
                 join_limiter = new_limiter 5 (secs 60) (steady_now X)\<rparr>
      | Some l \<Rightarrow> l)"

definition set_limits :: "string \<Rightarrow> user_limits \<Rightarrow> server \<Rightarrow> server" where
  "set_limits u l s = s\<lparr>cmds := (cmds s)\<lparr>user_rate_limits := (user_rate_limits (cmds s))(u \<mapsto> l)\<rparr>\<rparr>"

subsection \<open>Commands\<close>

type_synonym command_fun = "ctx \<Rightarrow> string list \<Rightarrow> sid \<Rightarrow> server \<Rightarrow> command_response \<times> server"

text \<open>The member who finds himself alone in a channel becomes its operator.\<close>

definition enter_channel :: "string \<Rightarrow> channel_state \<Rightarrow> channel_state" where
  "enter_channel u ch =
     (let ch = ch\<lparr>ch_members := uinsert u (ch_members ch)\<rparr>
      in if length (ch_members ch) = 1 then ch\<lparr>ch_operators := uinsert u (ch_operators ch)\<rparr> else ch)"

definition cmd_join :: command_fun where
  "cmd_join X args i s =
     (case args of
        [] \<Rightarrow> (make_response False ''Usage: /join <channel>'' ''join'', s)
      | a # _ \<Rightarrow>
          let c = sanitize_channel_name a
          in if \<not> is_valid_channel_name c then (make_response False ''Invalid channel name'' ''join'', s)
             else
               let u = the_user s i;
                   l = limits_of X u s;
                   (allowed, jl) = rl_allow (steady_now X) (join_limiter l);
                   s = set_limits u (l\<lparr>join_limiter := jl\<rparr>) s
               in if \<not> allowed then
                    (make_response False ''Rate limit exceeded: too many channel joins. Slow down.'' ''join'',
                     snd (track_abuse X u s))
                  else
                    let (ch, s) = get_or_create_channel c s
                    in if u \<in> set (ch_banned ch) then (make_response False (''You are banned from '' @ c) ''join'', s)
                       else if ch_invite_only ch \<and> u \<notin> set (ch_invites ch) \<and> u \<notin> set (ch_operators ch)
                       then (make_response False (c @ '' is invite-only'') ''join'', s)
                       else
                         let ch = enter_channel u ch;
                             s = set_chan c ch s;
                             s = send_user_list X c i (notify_channel_join X c u s);
                             topic_msg = (if ch_topic ch = [] then ''No topic set'' else ''Topic: '' @ ch_topic ch)
                         in (make_response True (''Joined '' @ c @ nl @ topic_msg) ''join'', s))"

definition cmd_part :: command_fun where
  "cmd_part X args i s =
     (case args of
        [] \<Rightarrow> (make_response False ''Usage: /part <channel> [message]'' ''part'', s)
      | a # rest \<Rightarrow>
          let u = the_user s i;
              c = normalize_channel_argument a;
              reason = (case rest of [] \<Rightarrow> ''Leaving'' | r # _ \<Rightarrow> r)
          in if c = [] then (make_response False ''Invalid channel name'' ''part'', s)
             else case chan_at s c of
               None \<Rightarrow> (make_response False (''No such channel: '' @ c) ''part'', s)
             | Some ch \<Rightarrow>
                 if u \<notin> set (ch_members ch) then (make_response False (''You are not in '' @ c) ''part'', s)
                 else
                   let ch = part_from u ch;
                       s = notify_channel_part X c u reason (set_chan c ch s);
                       s = (if ch_members ch = [] then del_chan c s else s)
                   in (make_response True (''Left '' @ c) ''part'', s))"

fun nick_loop :: "ctx \<Rightarrow> string \<Rightarrow> envelope \<Rightarrow> (string \<times> channel_state) list \<Rightarrow> server \<Rightarrow> server" where
  "nick_loop X u e [] s = s"
| "nick_loop X u e ((c, ch) # cs) s =
     nick_loop X u e cs (if u \<in> set (ch_members ch) then broadcast_to_channel X c e None s else s)"

definition cmd_nick :: command_fun where
  "cmd_nick X args i s =
     (case args of
        [] \<Rightarrow> (make_response False ''Usage: /nick <new_nick>'' ''nick'', s)
      | new_nick # _ \<Rightarrow>
          let u = the_user s i;
              old_nick = display_nick s u;
              existing = resolve_target_user_id (nick_to_user_id (cmds s)) new_nick
          in if existing \<noteq> new_nick \<and> existing \<noteq> u
             then (make_response False (''Nickname '' @ new_nick @ '' is already in use'') ''nick'', s)
             else
               let k = cmds s;
                   s = s\<lparr>cmds := k\<lparr>nick_to_user_id := mput new_nick u (mdel old_nick (nick_to_user_id k)),
                                  user_id_to_nick := (user_id_to_nick k)(u \<mapsto> new_nick)\<rparr>\<rparr>;
                   e = bare_env MT_NICK_CHANGE (ser (codec X) (M_NickChange old_nick new_nick))
               in (make_response True (''You are now known as '' @ new_nick) ''nick'',
                   nick_loop X u e (channels (cmds s)) s))"

definition presence_label :: "presence_status \<Rightarrow> string \<times> string" where
  "presence_label st =
     (case st of
        ONLINE \<Rightarrow> (''online'', ''Online since'')
      | AWAY \<Rightarrow> (''away'', ''Away since'')
      | DND \<Rightarrow> (''do not disturb'', ''Do not disturb since'')
      | OFFLINE \<Rightarrow> (''offline'', ''Offline since''))"

definition cmd_whois :: command_fun where
  "cmd_whois X args i s =
     (case args of
        [] \<Rightarrow> (make_response False ''Usage: /whois <nick>'' ''whois'', s)
      | target # _ \<Rightarrow>
          let target_id = resolve_target_user_id (nick_to_user_id (cmds s)) target;
              nickname = display_nick s target_id;
              chans = map fst (filter (\<lambda>(c, ch). target_id \<in> set (ch_members ch)) (channels (cmds s)));
              fingerprint = (case usr_find X target_id (sdb s) of
                  None \<Rightarrow> [] | Some usr \<Rightarrow> format_identity_fingerprint (us_identity_pub usr));
              p = (case lookup_presence s target_id of
                  None \<Rightarrow> \<lparr>ps_status = OFFLINE, ps_text = [], ps_since_ms = 0\<rparr> | Some p \<Rightarrow> p);
              (status, since_label) = presence_label (ps_status p);
              text = ''Whois for '' @ nickname @ '':'' @ nl @ ''User ID: '' @ target_id @ nl
                @ ''Status: '' @ status @ nl
                @ (if ps_text p \<noteq> [] then ''Status text: '' @ ps_text p @ nl else [])
                @ (if ps_since_ms p > 0 then since_label @ '': '' @ format_status_since X (ps_since_ms p) @ nl else [])
                @ (if chans \<noteq> [] then ''Channels: '' @ join_with '', '' chans @ nl else ''Channels: (none)'' @ nl)
                @ (if fingerprint \<noteq> [] then ''Fingerprint: '' @ fingerprint else [])
          in (make_response True text ''whois'', s))"

definition cmd_me :: command_fun where
  "cmd_me X args i s =
     (if args = [] then (make_response False ''Usage: /me <action>'' ''me'', s)
      else (make_response True (''Action: '' @ the_user s i @ '' '' @ join_with '' '' args) ''me'', s))"

definition cmd_topic :: command_fun where
  "cmd_topic X args i s =
     (case args of
        [] \<Rightarrow> (make_response False ''Usage: /topic <channel> [new_topic]'' ''topic'', s)
      | a # words \<Rightarrow>
          let c = normalize_channel_argument a; u = the_user s i
          in if c = [] then (make_response False ''Invalid channel name'' ''topic'', s)
             else case chan_at s c of
               None \<Rightarrow> (make_response False (''No such channel: '' @ c) ''topic'', s)
             | Some ch \<Rightarrow>
                 if u \<notin> set (ch_members ch) then (make_response False (''You are not in '' @ c) ''topic'', s)
                 else if words = [] then
                   (make_response True (if ch_topic ch = [] then ''No topic set'' else ch_topic ch) ''topic'', s)
                 else if ch_topic_restricted ch \<and> u \<notin> set (ch_operators ch)
                 then (make_response False ''Only operators can change the topic'' ''topic'', s)
                 else
                   let topic = join_with '' '' words;
                       s = notify_channel_join X c u (set_chan c (ch\<lparr>ch_topic := topic\<rparr>) s)
                   in (make_response True (''Topic changed to: '' @ topic) ''topic'', s))"

text \<open>The part of \<open>/kick\<close>, \<open>/ban\<close>, \<open>/invite\<close>, \<open>/set\<close> and \<open>/mode\<close> up to the operator check.\<close>

definition with_operator ::
  "string \<Rightarrow> string \<Rightarrow> string \<Rightarrow> sid \<Rightarrow> server \<Rightarrow>
   (string \<Rightarrow> channel_state \<Rightarrow> command_response \<times> server) \<Rightarrow> command_response \<times> server" where
  "with_operator name denial a i s k =
     (let c = normalize_channel_argument a
      in if c = [] then (make_response False ''Invalid channel name'' name, s)
         else case chan_at s c of
           None \<Rightarrow> (make_response False (''No such channel: '' @ c) name, s)
         | Some ch \<Rightarrow>
             if the_user s i \<notin> set (ch_operators ch) then (make_response False denial name, s) else k c ch)"

definition notify_user :: "ctx \<Rightarrow> string \<Rightarrow> command_response \<Rightarrow> server \<Rightarrow> server" where
  "notify_user X u r s = (case find_session s u of None \<Rightarrow> s | Some j \<Rightarrow> post j (response_env X r) s)"

definition cmd_kick :: command_fun where
  "cmd_kick X args i s =
     (case args of
        a # target # rest \<Rightarrow>
          with_operator ''kick'' ''Only operators can kick users'' a i s (\<lambda>c ch.
            let u = the_user s i;
                reason = (case rest of [] \<Rightarrow> ''Kicked'' | r # _ \<Rightarrow> r);
                target_id = resolve_target_user_id (nick_to_user_id (cmds s)) target
            in if target_id = target \<and> target_id \<notin> set (ch_members ch)
               then (make_response False (''User not found: '' @ target) ''kick'', s)
               else if target_id \<notin> set (ch_members ch)
               then (make_response False (target @ '' is not in '' @ c) ''kick'', s)
               else
                 let s = set_chan c (part_from target_id ch) s;
                     s = notify_channel_part X c target_id (''Kicked by '' @ u @ '': '' @ reason) s;
                     s = notify_user X target_id (make_response False
                           (''You were kicked from '' @ c @ '' by '' @ u @ '': '' @ reason) ''kick'') s
                 in (make_response True (''Kicked '' @ target @ '' from '' @ c) ''kick'', s))
      | _ \<Rightarrow> (make_response False ''Usage: /kick <channel> <nick> [reason]'' ''kick'', s))"

definition cmd_ban :: command_fun where
  "cmd_ban X args i s =
     (case args of
        a # target # _ \<Rightarrow>
          with_operator ''ban'' ''Only operators can ban users'' a i s (\<lambda>c ch.
            let u = the_user s i;
                target_id = resolve_target_user_id (nick_to_user_id (cmds s)) target;
                ch = ch\<lparr>ch_banned := uinsert target_id (ch_banned ch)\<rparr>;
                s = (if target_id \<in> set (ch_members ch)
                     then notify_channel_part X c target_id (''Banned by '' @ u)
                            (set_chan c (ch\<lparr>ch_members := uerase target_id (ch_members ch)\<rparr>) s)
                     else set_chan c ch s)
            in (make_response True (''Banned '' @ target @ '' from '' @ c) ''ban'', s))
      | _ \<Rightarrow> (make_response False ''Usage: /ban <channel> <nick>'' ''ban'', s))"

definition cmd_invite :: command_fun where
  "cmd_invite X args i s =
     (case args of
        a # target # rest \<Rightarrow>
          with_operator ''invite'' ''Only operators can invite users'' a i s (\<lambda>c ch.
            let u = the_user s i;
                message = (case rest of [] \<Rightarrow> [] | m # _ \<Rightarrow> m);
                target_id = resolve_target_user_id (nick_to_user_id (cmds s)) target;
                s = set_chan c (ch\<lparr>ch_invites := uinsert target_id (ch_invites ch)\<rparr>) s;
                s = notify_user X target_id (make_response True
                      (u @ '' invited you to '' @ c @ (if message = [] then [] else '': '' @ message)) ''invite'') s
            in (make_response True (''Invited '' @ target @ '' to '' @ c) ''invite'', s))
      | _ \<Rightarrow> (make_response False ''Usage: /invite <channel> <nick> [message]'' ''invite'', s))"

definition truthy :: "string \<Rightarrow> bool" where
  "truthy v \<longleftrightarrow> v = ''true'' \<or> v = ''1'' \<or> v = ''on''"

definition bool_text :: "bool \<Rightarrow> string" where
  "bool_text b = (if b then ''true'' else ''false'')"

definition cmd_set :: command_fun where
  "cmd_set X args i s =
     (case args of
        a # opt # v # _ \<Rightarrow>
          with_operator ''set'' ''Only operators can change channel settings'' a i s (\<lambda>c ch.
            let opt = lower_string opt; b = truthy v
            in if opt = ''invite_only'' then
                 (make_response True (''invite_only set to '' @ bool_text b) ''set'', set_chan c (ch\<lparr>ch_invite_only := b\<rparr>) s)
               else if opt = ''moderated'' then
                 (make_response True (''moderated set to '' @ bool_text b) ''set'', set_chan c (ch\<lparr>ch_moderated := b\<rparr>) s)
               else if opt = ''topic_restricted'' then
                 (make_response True (''topic_restricted set to '' @ bool_text b) ''set'',
                  set_chan c (ch\<lparr>ch_topic_restricted := b\<rparr>) s)
               else (make_response False (''Unknown option: '' @ opt) ''set'', s))
      | _ \<Rightarrow> (make_response False ''Usage: /set <channel> <option> <value>'' ''set'', s))"

definition cmd_mode :: command_fun where
  "cmd_mode X args i s =
     (case args of
        a # mode # target # _ \<Rightarrow>
          with_operator ''mode'' ''Only operators can change modes'' a i s (\<lambda>c ch.
            let t = resolve_target_user_id (nick_to_user_id (cmds s)) target
            in if t \<notin> set (ch_members ch) then (make_response False (target @ '' is not in '' @ c) ''mode'', s)
               else if mode = ''+o'' then
                 (make_response True (''Gave operator status to '' @ target) ''mode'',
                  set_chan c (ch\<lparr>ch_operators := uinsert t (ch_operators ch)\<rparr>) s)
               else if mode = ''-o'' then
                 (make_response True (''Removed operator status from '' @ target) ''mode'',
                  set_chan c (ch\<lparr>ch_operators := uerase t (ch_operators ch)\<rparr>) s)
               else if mode = ''+v'' then
                 (make_response True (''Gave voice to '' @ target) ''mode'',
                  set_chan c (ch\<lparr>ch_voiced := uinsert t (ch_voiced ch)\<rparr>) s)
               else if mode = ''-v'' then
                 (make_response True (''Removed voice from '' @ target) ''mode'',
                  set_chan c (ch\<lparr>ch_voiced := uerase t (ch_voiced ch)\<rparr>) s)
               else (make_response False (''Unknown mode: '' @ mode) ''mode'', s))
      | _ \<Rightarrow> (make_response False ''Usage: /mode <channel> <+o|-o> <nick>'' ''mode'', s))"

definition cmd_password :: command_fun where
  "cmd_password X args i s =
     (case args of
        old_pass # new_pass # _ \<Rightarrow>
          if length new_pass < 8
          then (make_response False ''New password must be at least 8 characters'' ''password'', s)
          else if \<not> list_ex c_isupper new_pass \<or> \<not> list_ex c_islower new_pass \<or> \<not> list_ex c_isdigit new_pass
          then (make_response False
                 ''Password must contain at least one uppercase letter, one lowercase letter, and one digit'' ''password'', s)
          else
            let (ok, d) = usr_update_password X (the_user s i) old_pass new_pass (sdb s)
            in (if ok then make_response True ''Password updated successfully'' ''password''
                else make_response False ''Old password is incorrect'' ''password'',
                s\<lparr>sdb := d\<rparr>)
      | _ \<Rightarrow> (make_response False ''Usage: /password <old_password> <new_password>'' ''password'', s))"

fun quit_loop :: "ctx \<Rightarrow> string \<Rightarrow> string \<Rightarrow> string list \<Rightarrow> server \<Rightarrow> server" where
  "quit_loop X u reason [] s = s"
| "quit_loop X u reason (c # cs) s =
     quit_loop X u reason cs (notify_channel_part X c u reason (part_channel c u s))"

definition cmd_quit :: command_fun where
  "cmd_quit X args i s =
     (let reason = (case args of [] \<Rightarrow> ''Quit'' | r # _ \<Rightarrow> r);
          u = the_user s i;
          leave = map fst (filter (\<lambda>(c, ch). u \<in> set (ch_members ch)) (channels (cmds s)));
          s = ask_disconnect i (''Quit: '' @ reason) (quit_loop X u reason leave s)
      in (make_response True ''Goodbye!'' ''quit'', s))"

definition cmd_msg :: command_fun where
  "cmd_msg X args i s =
     (case args of
        target # w # ws \<Rightarrow>
          (case find_session s (resolve_target_user_id (nick_to_user_id (cmds s)) target) of
             None \<Rightarrow> (make_response False (target @ '' is offline'') ''msg'', s)
           | Some j \<Rightarrow> (make_response True (''-> '' @ target @ '': '' @ join_with '' '' (w # ws)) ''msg'', s))
      | _ \<Rightarrow> (make_response False ''Usage: /msg <nick> <message>'' ''msg'', s))"

definition cmd_away :: command_fun where
  "cmd_away X args i s =
     (let reason = join_command_args args
      in (make_response True (if reason = [] then ''Status set to away'' else ''Status set to away: '' @ reason) ''away'',
          update_presence X (the_user s i) AWAY reason None s))"

definition cmd_back :: command_fun where
  "cmd_back X args i s =
     (if args \<noteq> [] then (make_response False ''Usage: /back'' ''back'', s)
      else (make_response True ''Status set to online'' ''back'',
            update_presence X (the_user s i) ONLINE [] None s))"

definition cmd_dnd :: command_fun where
  "cmd_dnd X args i s =
     (let reason = join_command_args args
      in (make_response True (if reason = [] then ''Status set to do not disturb''
                              else ''Status set to do not disturb: '' @ reason) ''dnd'',
          update_presence X (the_user s i) DND reason None s))"

definition cmd_quota :: command_fun where
  "cmd_quota X args i s =
     (if args \<noteq> [] then (make_response False ''Usage: /quota'' ''quota'', s)
      else
        let mine = fil_user_reserved_bytes X (the_user s i) (sdb s);
            all = fil_reserved_bytes X (sdb s);
            user_max = quota_user (cmds s); server_max = quota_total (cmds s)
        in (make_response True
             (''File storage quotas:'' @ nl @ ''Your usage: '' @ human_bytes mine @ nl
              @ ''Your limit: '' @ quota_limit_label user_max @ nl
              @ (if user_max > 0 then ''Your remaining: '' @ quota_remaining_label mine user_max @ nl else [])
              @ ''Server usage: '' @ human_bytes all @ nl
              @ ''Server limit: '' @ quota_limit_label server_max
              @ (if server_max > 0 then nl @ ''Server remaining: '' @ quota_remaining_label all server_max else []))
             ''quota'', s))"

definition cmd_rmfile :: command_fun where
  "cmd_rmfile X args i s =
     (case args of
        [] \<Rightarrow> (make_response False ''Usage: /rmfile <file-id>'' ''rmfile'', s)
      | f # _ \<Rightarrow>
          (case fil_get X 0 f (sdb s) of
             None \<Rightarrow> (make_response False (''File not found: '' @ f) ''rmfile'', s)
           | Some m \<Rightarrow>
               let u = the_user s i
               in if fm_sender_id m \<noteq> u \<and> \<not> (fm_channel_id m \<noteq> [] \<and> is_operator s (fm_channel_id m) u)
                  then (make_response False ''Permission denied for file delete'' ''rmfile'', s)
                  else
                    let (ok, d) = fil_delete X (fm_file_id m) (sdb s); s = s\<lparr>sdb := d\<rparr>
                    in if \<not> ok then (make_response False (''Failed to delete file: '' @ fm_file_id m) ''rmfile'', s)
                       else
                         (make_response True (''Deleted file '' @ fm_filename m) ''rmfile'',
                          broadcast (bare_env MT_FILE_CHANGED (ser (codec X)
                             (M_FileChanged (fm_file_id m) (fm_recipient_id m) (fm_channel_id m)))) None s)))"

text \<open>
  The four deletions are separate statements.  The first fails when a pre-key refers to a user, since
  foreign keys are enforced.
\<close>

definition reset_db :: "ctx \<Rightarrow> db \<Rightarrow> string option \<times> db" where
  "reset_db X d =
     (if sql_throws X (Reset_table 0) \<or> users d \<noteq> [] \<and> (signed_prekeys d \<noteq> [] \<or> one_time_prekeys d \<noteq> [])
      then (Some (sql_what X (Reset_table 0)), d)
      else let d = d\<lparr>users := []\<rparr>
      in if sql_throws X (Reset_table 1) then (Some (sql_what X (Reset_table 1)), d)
      else let d = d\<lparr>signed_prekeys := []\<rparr>
      in if sql_throws X (Reset_table 2) then (Some (sql_what X (Reset_table 2)), d)
      else let d = d\<lparr>one_time_prekeys := []\<rparr>
      in if sql_throws X (Reset_table 3) then (Some (sql_what X (Reset_table 3)), d)
      else (None, d\<lparr>offline_messages := []\<rparr>))"

definition cmd_resetdb :: command_fun where
  "cmd_resetdb X args i s =
     (if the_user s i \<noteq> ''admin''
      then (make_response False ''Permission denied: only admin can reset database'' ''resetdb'', s)
      else
        let (err, d) = reset_db X (sdb s)
        in (case err of
              None \<Rightarrow> make_response True ''Database cleared successfully. All users and keys removed.'' ''resetdb''
            | Some e \<Rightarrow> make_response False (''Database error: '' @ e) ''resetdb'',
            s\<lparr>sdb := d\<rparr>))"

definition command_map :: "(string \<times> command_fun) list" where
  "command_map =
     [(''join'', cmd_join), (''part'', cmd_part), (''leave'', cmd_part), (''nick'', cmd_nick),
      (''whois'', cmd_whois), (''me'', cmd_me), (''action'', cmd_me), (''topic'', cmd_topic),
      (''kick'', cmd_kick), (''ban'', cmd_ban), (''invite'', cmd_invite), (''set'', cmd_set),
      (''mode'', cmd_mode), (''password'', cmd_password), (''pass'', cmd_password), (''quit'', cmd_quit),
      (''msg'', cmd_msg), (''query'', cmd_msg), (''away'', cmd_away), (''back'', cmd_back),
      (''dnd'', cmd_dnd), (''quota'', cmd_quota), (''rmfile'', cmd_rmfile), (''resetdb'', cmd_resetdb)]"

definition handle_command :: "ctx \<Rightarrow> irc_command \<Rightarrow> sid \<Rightarrow> server \<Rightarrow> command_response \<times> server" where
  "handle_command X cmd i s =
     (if irc_cmd cmd = [] then (make_response False ''Empty command'' [], s)
      else
        let u = the_user s i;
            (abuser, s) = is_abuser X u s
        in if abuser
           then (make_response False
                  ''You are temporarily banned due to rate limit violations. Please wait.'' (irc_cmd cmd), s)
           else
             let l = limits_of X u s;
                 (allowed, cl) = rl_allow (steady_now X) (command_limiter l);
                 s = set_limits u (l\<lparr>command_limiter := cl\<rparr>) s
             in if \<not> allowed
                then (make_response False ''Rate limit exceeded: too many commands. Slow down.'' (irc_cmd cmd),
                      snd (track_abuse X u s))
                else
                  let name = lower_string (irc_cmd cmd)
                  in case map_of command_map name of
                       None \<Rightarrow> (make_response False (''Unknown command: '' @ name) name, s)
                     | Some f \<Rightarrow> f X (irc_args cmd) i s)"

subsection \<open>What the helpers leave alone\<close>

lemma broadcast_user_list_frame [frame_simps]:
  "sess (broadcast_user_list X c s) = sess s" "lst (broadcast_user_list X c s) = lst s"
  "next_sid (broadcast_user_list X c s) = next_sid s" "cfg (broadcast_user_list X c s) = cfg s"
  "cmds (broadcast_user_list X c s) = cmds s" "vrm (broadcast_user_list X c s) = vrm s"
  "sdb (broadcast_user_list X c s) = sdb s" "scanner (broadcast_user_list X c s) = scanner s"
  by (simp_all add: broadcast_user_list_def frame_simps split: option.split)

lemma send_user_list_frame [frame_simps]:
  "sess (send_user_list X c i s) = sess s" "lst (send_user_list X c i s) = lst s"
  "next_sid (send_user_list X c i s) = next_sid s" "cfg (send_user_list X c i s) = cfg s"
  "cmds (send_user_list X c i s) = cmds s" "vrm (send_user_list X c i s) = vrm s"
  "sdb (send_user_list X c i s) = sdb s" "scanner (send_user_list X c i s) = scanner s"
  by (simp_all add: send_user_list_def frame_simps split: option.split)

lemma notify_frame [frame_simps]:
  "sess (notify_user X u r s) = sess s" "lst (notify_user X u r s) = lst s"
  "next_sid (notify_user X u r s) = next_sid s" "cfg (notify_user X u r s) = cfg s"
  "cmds (notify_user X u r s) = cmds s" "vrm (notify_user X u r s) = vrm s"
  "sdb (notify_user X u r s) = sdb s" "scanner (notify_user X u r s) = scanner s"
  by (simp_all add: notify_user_def frame_simps split: option.split)

lemma fan_out_frame [frame_simps]:
  "sess (fan_out X e x us s) = sess s" "lst (fan_out X e x us s) = lst s"
  "next_sid (fan_out X e x us s) = next_sid s" "cfg (fan_out X e x us s) = cfg s"
  "cmds (fan_out X e x us s) = cmds s" "vrm (fan_out X e x us s) = vrm s"
  "scanner (fan_out X e x us s) = scanner s"
  by (induction X e x us s rule: fan_out.induct) (simp_all add: frame_simps split: option.split)

lemma broadcast_to_channel_frame [frame_simps]:
  "sess (broadcast_to_channel X c e x s) = sess s" "lst (broadcast_to_channel X c e x s) = lst s"
  "next_sid (broadcast_to_channel X c e x s) = next_sid s" "cfg (broadcast_to_channel X c e x s) = cfg s"
  "cmds (broadcast_to_channel X c e x s) = cmds s" "vrm (broadcast_to_channel X c e x s) = vrm s"
  "scanner (broadcast_to_channel X c e x s) = scanner s"
  by (simp_all add: broadcast_to_channel_def frame_simps split: option.split)

lemma nick_loop_frame [frame_simps]:
  "sess (nick_loop X u e cs s) = sess s" "lst (nick_loop X u e cs s) = lst s"
  "next_sid (nick_loop X u e cs s) = next_sid s" "cfg (nick_loop X u e cs s) = cfg s"
  "cmds (nick_loop X u e cs s) = cmds s" "vrm (nick_loop X u e cs s) = vrm s"
  "scanner (nick_loop X u e cs s) = scanner s"
  by (induction X u e cs s rule: nick_loop.induct) (simp_all add: frame_simps)

lemma chan_frame [frame_simps]:
  "sess (set_chan c ch s) = sess s" "lst (set_chan c ch s) = lst s" "cfg (set_chan c ch s) = cfg s"
  "sdb (set_chan c ch s) = sdb s" "vrm (set_chan c ch s) = vrm s" "out (set_chan c ch s) = out s"
  "sess (del_chan c s) = sess s" "lst (del_chan c s) = lst s" "cfg (del_chan c s) = cfg s"
  "sdb (del_chan c s) = sdb s" "vrm (del_chan c s) = vrm s" "out (del_chan c s) = out s"
  "scanner (set_chan c ch s) = scanner s" "scanner (del_chan c s) = scanner s"
  "next_sid (set_chan c ch s) = next_sid s" "next_sid (del_chan c s) = next_sid s"
  by (simp_all add: set_chan_def del_chan_def)

lemma limits_frame [frame_simps]:
  "channels (cmds (set_limits u l s)) = channels (cmds s)"
  "channels (cmds (snd (track_abuse X u s))) = channels (cmds s)"
  "channels (cmds (snd (is_abuser X u s))) = channels (cmds s)"
  "sess (set_limits u l s) = sess s" "sess (snd (track_abuse X u s)) = sess s"
  "sess (snd (is_abuser X u s)) = sess s" "lst (set_limits u l s) = lst s"
  "lst (snd (track_abuse X u s)) = lst s" "lst (snd (is_abuser X u s)) = lst s"
  "sdb (set_limits u l s) = sdb s" "sdb (snd (track_abuse X u s)) = sdb s"
  "sdb (snd (is_abuser X u s)) = sdb s"
  by (simp_all add: set_limits_def track_abuse_def is_abuser_def Let_def split: option.split)

end
