(* ===== verification/Session_Core.thy ===== *)
theory Session_Core
  imports Command_Handler
begin

text \<open>
  A client's session, from \<open>grotto-chat-server/src/net/session.cpp\<close>: the handlers of the protocol
  messages up to and including authentication, chat, voice, keys, typing and receipts.  A handler maps
  the server's state to the next one; the handlers that let an exception escape return an \<open>outcome\<close>
  with the state they had reached.
\<close>

subsection \<open>Helpers\<close>

definition is_valid_user_id :: "string \<Rightarrow> bool" where
  "is_valid_user_id u \<longleftrightarrow> u \<noteq> [] \<and> length u \<le> 64 \<and> (\<forall>c \<in> set u. code c \<noteq> 0 \<and> code c \<noteq> 32 \<and> \<not> code c < 32)"

definition kProtocolVersion :: u32 where "kProtocolVersion = 1"

definition send_envelope :: "ctx \<Rightarrow> sid \<Rightarrow> message_type \<Rightarrow> msg \<Rightarrow> server \<Rightarrow> server" where
  "send_envelope X i mt m s =
     post i \<lparr>env_seq = next_seq (sess s i), env_ts = steady_ms X, env_type = mt, env_payload = ser (codec X) m\<rparr>
       (upd_sess i (\<lambda>ss. ss\<lparr>next_seq := next_seq ss + 1\<rparr>) s)"

definition send_error :: "ctx \<Rightarrow> sid \<Rightarrow> nat \<Rightarrow> string \<Rightarrow> server \<Rightarrow> server" where
  "send_error X i n text s = send_envelope X i MT_ERROR (M_Error n text) s"

definition set_state :: "sid \<Rightarrow> session_state \<Rightarrow> server \<Rightarrow> server" where
  "set_state i st s = upd_sess i (\<lambda>ss. ss\<lparr>ss_state := st\<rparr>) s"

definition reset_ping_timer :: "sid \<Rightarrow> server \<Rightarrow> server" where
  "reset_ping_timer i s = upd_sess i (\<lambda>ss. ss\<lparr>ping_timer := Timer_interval\<rparr>) s"

definition start_ping_timer :: "sid \<Rightarrow> server \<Rightarrow> server" where
  "start_ping_timer i s = reset_ping_timer i (upd_sess i (\<lambda>ss. ss\<lparr>ping_sent := False\<rparr>) s)"

text \<open>\<open>std::getline\<close> until the stream is exhausted.\<close>

function getline_split :: "string \<Rightarrow> string list" where
  "getline_split t =
     (if t = [] then []
      else let line = takeWhile (\<lambda>c. c \<noteq> CHR 0x0A) t in line # getline_split (drop (Suc (length line)) t))"
  by pat_completeness auto
termination by (relation "measure length") auto

declare getline_split.simps [simp del]

definition deliver_dm :: "ctx \<Rightarrow> string \<Rightarrow> envelope \<Rightarrow> server \<Rightarrow> bool \<times> server" where
  "deliver_dm X recipient raw s =
     (case find_session s recipient of
        Some j \<Rightarrow> (True, post j raw s)
      | None \<Rightarrow> (let (saved, d) = off_save X recipient (ser_env (codec X) raw) (sdb s) in (saved, s\<lparr>sdb := d\<rparr>)))"

text \<open>\<open>ChannelManager::route\<close> of \<open>channel/channel_manager.cpp\<close>: the same delivery, without the report.\<close>

definition route :: "ctx \<Rightarrow> chat_envelope \<Rightarrow> envelope \<Rightarrow> server \<Rightarrow> server" where
  "route X chat raw s = snd (deliver_dm X (chat_recipient chat) raw s)"

subsection \<open>HELLO and authentication\<close>

definition handle_hello :: "ctx \<Rightarrow> sid \<Rightarrow> hello \<Rightarrow> server \<Rightarrow> server" where
  "handle_hello X i h s =
     (if protocol_version h \<noteq> kProtocolVersion
      then ask_disconnect i ''Version mismatch'' (send_error X i 4005 ''Protocol version mismatch'' s)
      else
        let nonce = random_bytes X 32;
            s = upd_sess i (\<lambda>ss. ss\<lparr>auth_nonce := nonce\<rparr>) s
        in set_state i AuthPending (send_envelope X i MT_AUTH_CHALLENGE (M_AuthChallenge nonce) s))"

definition auth_fail :: "ctx \<Rightarrow> sid \<Rightarrow> nat \<Rightarrow> string \<Rightarrow> string \<Rightarrow> server \<Rightarrow> server" where
  "auth_fail X i n text reason s =
     ask_disconnect i reason (send_envelope X i MT_AUTH_FAIL (M_Error n text) s)"

definition auth_error :: "ctx \<Rightarrow> sid \<Rightarrow> nat \<Rightarrow> string \<Rightarrow> string \<Rightarrow> server \<Rightarrow> server" where
  "auth_error X i n text reason s = ask_disconnect i reason (send_error X i n text s)"

text \<open>The checks before the database is consulted: \<open>Some\<close> final state when one of them refuses.\<close>

definition auth_refused :: "ctx \<Rightarrow> sid \<Rightarrow> auth_response \<Rightarrow> server \<Rightarrow> server option" where
  "auth_refused X i a s =
     (let u = auth_user_id a
      in if \<not> is_valid_user_id u then
           Some (auth_error X i 4006 ''Invalid user_id (1-64 printable chars, no spaces)'' ''Invalid user_id'' s)
         else if \<not> is_nickname_available s u [] then
           Some (auth_fail X i 4011
             (''Nickname '' @ [CHR 0x27] @ u @ [CHR 0x27] @ '' is already in use.'' @ format_nick_suggestions (generate_nick_suggestions u 3))
             (''Nickname already in use: '' @ u) s)
         else if length (auth_identity_pub a) \<noteq> 32 then
           Some (auth_error X i 4007 ''Invalid identity_pub length'' ''Bad identity_pub'' s)
         else if length (auth_signature a) \<noteq> 64 then
           Some (auth_error X i 4008 ''Invalid signature length'' ''Bad signature'' s)
         else if \<not> ed25519_verify X (auth_signature a) (auth_nonce (sess s i) @ to_bytes u) (auth_identity_pub a) then
           Some (auth_fail X i 4009 ''Signature verification failed'' ''Auth failed: bad signature'' s)
         else None)"

text \<open>The outcome of the registration or verification against the database.\<close>

datatype auth_result = Auth_refused server | Auth_threw server | Auth_ok bool server

definition store_spk :: "ctx \<Rightarrow> auth_response \<Rightarrow> server \<Rightarrow> outcome \<times> server" where
  "store_spk X a s =
     (if auth_signed_prekey a \<noteq> [] \<and> auth_spk_sig a \<noteq> [] then
        (let (oc, d) = usr_upsert_signed_prekey X (auth_user_id a) (auth_signed_prekey a) (auth_spk_sig a)
                         (auth_spk_id a) 0 (sdb s)
         in (oc, s\<lparr>sdb := d\<rparr>))
      else (Returned, s))"

definition register_user :: "ctx \<Rightarrow> sid \<Rightarrow> auth_response \<Rightarrow> server \<Rightarrow> auth_result" where
  "register_user X i a s =
     (let u = auth_user_id a
      in case usr_insert X \<lparr>us_user_id = u, us_identity_pub = auth_identity_pub a, us_created_at = now_unix X\<rparr> (sdb s) of
           (Threw, d) \<Rightarrow> Auth_refused (auth_error X i 5001 ''Internal error'' ''DB error'' (s\<lparr>sdb := d\<rparr>))
         | (Returned, d) \<Rightarrow>
             (case store_spk X a (s\<lparr>sdb := d\<rparr>) of
                (Threw, s) \<Rightarrow> Auth_threw s
              | (Returned, s) \<Rightarrow>
                  Auth_ok False
                    (if auth_password a \<noteq> []
                     then s\<lparr>sdb := snd (usr_set_password X u (auth_password a) (sdb s))\<rparr> else s)))"

text \<open>A key that differs from the stored one is accepted only with the recovery password.\<close>

definition recover_identity :: "ctx \<Rightarrow> sid \<Rightarrow> auth_response \<Rightarrow> server \<Rightarrow> auth_result" where
  "recover_identity X i a s =
     (let u = auth_user_id a
      in if auth_password a \<noteq> [] \<and> usr_has_password X u (sdb s) then
           if usr_verify_password X u (auth_password a) (sdb s) then
             (case usr_clear_key_material X u (sdb s) of
                (Threw, d) \<Rightarrow> Auth_threw (s\<lparr>sdb := d\<rparr>)
              | (Returned, d) \<Rightarrow>
                  (case usr_update_identity_key X u (auth_identity_pub a) d of
                     (Threw, d) \<Rightarrow> Auth_threw (s\<lparr>sdb := d\<rparr>)
                   | (Returned, d) \<Rightarrow>
                       (case store_spk X a (s\<lparr>sdb := d\<rparr>) of
                          (Threw, s) \<Rightarrow> Auth_threw s
                        | (Returned, s) \<Rightarrow> Auth_ok True s)))
           else Auth_refused (auth_fail X i 4012 ''Identity key mismatch and password incorrect''
                  ''Auth failed: key mismatch + bad password'' s)
         else Auth_refused (auth_fail X i 4010
                ''Identity key mismatch. Set a password with /password to enable key recovery.''
                ''Auth failed: key mismatch'' s))"

definition backfill_password :: "ctx \<Rightarrow> auth_response \<Rightarrow> server \<Rightarrow> server" where
  "backfill_password X a s =
     (if auth_password a \<noteq> [] \<and> \<not> usr_has_password X (auth_user_id a) (sdb s)
      then s\<lparr>sdb := snd (usr_set_password X (auth_user_id a) (auth_password a) (sdb s))\<rparr> else s)"

definition auth_database :: "ctx \<Rightarrow> sid \<Rightarrow> auth_response \<Rightarrow> server \<Rightarrow> auth_result" where
  "auth_database X i a s =
     (case usr_find X (auth_user_id a) (sdb s) of
        None \<Rightarrow> register_user X i a s
      | Some existing \<Rightarrow>
          (case (if us_identity_pub existing \<noteq> auth_identity_pub a then recover_identity X i a s
                 else Auth_ok False (backfill_password X a s)) of
             Auth_ok reset s \<Rightarrow>
               (case store_spk X a s of (Threw, s) \<Rightarrow> Auth_threw s | (Returned, s) \<Rightarrow> Auth_ok reset s)
           | r \<Rightarrow> r))"

fun deliver_offline :: "ctx \<Rightarrow> sid \<Rightarrow> bytes list \<Rightarrow> server \<Rightarrow> server" where
  "deliver_offline X i [] s = s"
| "deliver_offline X i (p # ps) s =
     deliver_offline X i ps (case parse_env (codec X) p of None \<Rightarrow> s | Some e \<Rightarrow> post i e s)"

text \<open>The bootstrap messages after \<open>AUTH_OK\<close>.\<close>

definition announce_reset :: "ctx \<Rightarrow> sid \<Rightarrow> bool \<Rightarrow> server \<Rightarrow> server" where
  "announce_reset X i reset s =
     (if reset then
        broadcast \<lparr>env_seq = next_seq (sess s i), env_ts = unix_ms X, env_type = MT_IDENTITY_RESET,
                   env_payload = ser (codec X) (M_IdentityReset (the_user s i))\<rparr> (Some i)
          (upd_sess i (\<lambda>ss. ss\<lparr>next_seq := next_seq ss + 1\<rparr>) s)
      else s)"

definition send_bootstrap :: "ctx \<Rightarrow> sid \<Rightarrow> server \<Rightarrow> server" where
  "send_bootstrap X i s =
     (let c = cfg s;
          s = (if voice_ice_servers c \<noteq> [] then
                 send_envelope X i MT_VOICE_ICE_CONFIG
                   (M_VoiceIceConfig (voice_ice_servers c) (voice_turn_username c) (voice_turn_password c)) s
               else s);
          s = send_envelope X i MT_FILE_POLICY
                (M_FilePolicy (max_upload_bytes c) (max_total_storage_bytes c) (max_user_storage_bytes c)
                   (allowed_mime_types c) (blocked_mime_types c)) s
      in if cfg_motd c \<noteq> [] then send_envelope X i MT_MOTD (M_Motd (getline_split (cfg_motd c))) s else s)"

definition send_offline :: "ctx \<Rightarrow> sid \<Rightarrow> server \<Rightarrow> server" where
  "send_offline X i s =
     (let (msgs, d) = off_fetch_and_delete X (the_user s i) (sdb s);
          s = s\<lparr>sdb := d\<rparr>
      in if msgs = [] then s
         else
           let s = send_envelope X i MT_OFFLINE_SYNC (M_OfflineSync True (length msgs)) s;
               s = deliver_offline X i msgs s
           in send_envelope X i MT_OFFLINE_SYNC (M_OfflineSync False (length msgs)) s)"

definition auth_success :: "ctx \<Rightarrow> sid \<Rightarrow> auth_response \<Rightarrow> bool \<Rightarrow> server \<Rightarrow> server" where
  "auth_success X i a reset s =
     (let s = upd_sess i (\<lambda>ss. ss\<lparr>ss_user_id := auth_user_id a\<rparr>) s;
          s = set_state i Established (send_envelope X i MT_AUTH_OK M_Empty s);
          s = send_bootstrap X i (announce_reset X i reset s);
          s = start_ping_timer i (on_session_authenticated X i s);
          s = upd_sess i (\<lambda>ss. ss\<lparr>msg_rate_limiter :=
                 Some (new_limiter (msg_rate_per_sec (cfg s)) (secs 1) (steady_now X))\<rparr>) s;
          s = send_offline X i s
      in broadcast_presence X (the_user s i) \<lparr>ps_status = ONLINE, ps_text = [], ps_since_ms = 0\<rparr> (Some i) s)"

definition handle_auth_response :: "ctx \<Rightarrow> sid \<Rightarrow> auth_response \<Rightarrow> server \<Rightarrow> outcome \<times> server" where
  "handle_auth_response X i a s =
     (case auth_refused X i a s of
        Some s' \<Rightarrow> (Returned, s')
      | None \<Rightarrow>
          (case auth_database X i a s of
             Auth_refused s' \<Rightarrow> (Returned, s')
           | Auth_threw s' \<Rightarrow> (Threw, s')
           | Auth_ok reset s' \<Rightarrow> (Returned, auth_success X i a reset s')))"

subsection \<open>Messages of an established session\<close>

definition handle_ping :: "ctx \<Rightarrow> sid \<Rightarrow> envelope \<Rightarrow> server \<Rightarrow> server" where
  "handle_ping X i e s =
     post i \<lparr>env_seq = next_seq (sess s i), env_ts = steady_ms X, env_type = MT_PONG, env_payload = env_payload e\<rparr>
       (upd_sess i (\<lambda>ss. ss\<lparr>next_seq := next_seq ss + 1\<rparr>) s)"

definition is_hash :: "string \<Rightarrow> bool" where
  "is_hash t \<longleftrightarrow> t \<noteq> [] \<and> hd t = CHR ''#''"

definition handle_chat :: "ctx \<Rightarrow> sid \<Rightarrow> chat_envelope \<Rightarrow> envelope \<Rightarrow> server \<Rightarrow> server" where
  "handle_chat X i chat raw s =
     (if length (env_payload raw) > max_chat_payload_bytes (cfg s)
      then send_error X i 4035 ''Chat message too large'' s
      else if chat_sender chat \<noteq> the_user s i
      then ask_disconnect i ''Sender ID spoofing attempt'' (send_error X i 4032 ''Sender ID mismatch'' s)
      else if chat_recipient chat = [] then send_error X i 4033 ''Empty recipient_id'' s
      else if is_hash (chat_recipient chat) then broadcast raw (Some i) s
      else
        let (ok, s) = deliver_dm X (chat_recipient chat) raw s
        in if ok then s else send_error X i 4034 ''Recipient offline queue full'' s)"

definition handle_voice_signal :: "ctx \<Rightarrow> sid \<Rightarrow> voice_signal \<Rightarrow> envelope \<Rightarrow> server \<Rightarrow> server" where
  "handle_voice_signal X i v raw s =
     (if vs_from v \<noteq> the_user s i
      then ask_disconnect i ''Voice signal spoofing attempt'' (send_error X i 4072 ''from_user mismatch'' s)
      else if vs_to v = [] then send_error X i 4073 ''Empty to_user'' s
      else case find_session s (vs_to v) of
        Some j \<Rightarrow> post j raw s
      | None \<Rightarrow> if vs_type v = CALL_INVITE then send_error X i 4074 ''Recipient is offline'' s else s)"

definition handle_voice_room_join :: "ctx \<Rightarrow> sid \<Rightarrow> voice_room_msg \<Rightarrow> server \<Rightarrow> server" where
  "handle_voice_room_join X i j s =
     (let (err, v, msgs) = voice_join (find_session s) X (vr_channel j) (the_user s i) (vrm s);
          s = s\<lparr>vrm := v, out := out s @ msgs\<rparr>
      in if err \<noteq> [] then send_error X i 4077 err s else s)"

definition handle_voice_room_leave :: "ctx \<Rightarrow> sid \<Rightarrow> voice_room_msg \<Rightarrow> server \<Rightarrow> server" where
  "handle_voice_room_leave X i l s =
     (let (v, msgs) = voice_leave (find_session s) X (vr_channel l) (the_user s i) (vrm s)
      in s\<lparr>vrm := v, out := out s @ msgs\<rparr>)"

fun store_opks :: "ctx \<Rightarrow> string \<Rightarrow> bytes list \<Rightarrow> u32 list \<Rightarrow> db \<Rightarrow> outcome \<times> db" where
  "store_opks X u (k # ks) (n # ns) d =
     (case usr_store_opk X u k n d of (Threw, d) \<Rightarrow> (Threw, d) | (Returned, d) \<Rightarrow> store_opks X u ks ns d)"
| "store_opks X u _ _ d = (Returned, d)"

definition handle_key_upload :: "ctx \<Rightarrow> sid \<Rightarrow> key_upload \<Rightarrow> server \<Rightarrow> outcome \<times> server" where
  "handle_key_upload X i ku s =
     (let u = the_user s i;
          (oc, d) = (if ku_signed_prekey ku \<noteq> [] \<and> ku_spk_signature ku \<noteq> []
                     then usr_upsert_signed_prekey X u (ku_signed_prekey ku) (ku_spk_signature ku)
                            (ku_spk_id ku) (ku_registration_id ku) (sdb s)
                     else (Returned, sdb s))
      in if oc = Threw then (Threw, s\<lparr>sdb := d\<rparr>)
         else case usr_clear_opks X u d of
           (Threw, d) \<Rightarrow> (Threw, s\<lparr>sdb := d\<rparr>)
         | (Returned, d) \<Rightarrow>
             (let (oc, d) = store_opks X u (ku_one_time_prekeys ku) (ku_opk_ids ku) d in (oc, s\<lparr>sdb := d\<rparr>)))"

definition make_bundle :: "string \<Rightarrow> user \<Rightarrow> signed_prekey option \<Rightarrow> u32 \<times> bytes \<Rightarrow> key_bundle" where
  "make_bundle u usr spk opk =
     \<lparr>kb_identity_pub = us_identity_pub usr,
      kb_signed_prekey = (case spk of None \<Rightarrow> [] | Some k \<Rightarrow> spk_pub k),
      kb_spk_signature = (case spk of None \<Rightarrow> [] | Some k \<Rightarrow> spk_sig k),
      kb_spk_id = (case spk of None \<Rightarrow> 0 | Some k \<Rightarrow> spk_id k),
      kb_registration_id = (case spk of None \<Rightarrow> 0 | Some k \<Rightarrow> spk_registration_id k),
      kb_one_time_prekey = snd opk,
      kb_opk_id = (if snd opk = [] then 0 else fst opk),
      kb_recipient_for = u\<rparr>"

definition handle_key_request :: "ctx \<Rightarrow> sid \<Rightarrow> string \<Rightarrow> server \<Rightarrow> server" where
  "handle_key_request X i u s =
     (case usr_find X u (sdb s) of
        None \<Rightarrow> send_error X i 4060 (''User not found: '' @ u) s
      | Some usr \<Rightarrow>
          let spk = usr_get_signed_prekey X u (sdb s);
              (opk, d) = usr_consume_opk X u (sdb s)
          in send_envelope X i MT_KEY_BUNDLE (M_KeyBundle (make_bundle u usr spk opk)) (s\<lparr>sdb := d\<rparr>))"

definition handle_typing :: "ctx \<Rightarrow> sid \<Rightarrow> typing_update \<Rightarrow> envelope \<Rightarrow> server \<Rightarrow> server" where
  "handle_typing X i t raw s =
     (if typ_sender t \<noteq> the_user s i
      then ask_disconnect i ''Typing spoofing attempt'' (send_error X i 4038 ''Sender ID mismatch'' s)
      else if typ_target t = [] then send_error X i 4039 ''Empty typing target'' s
      else if is_hash (typ_target t) then broadcast raw (Some i) s
      else case find_session s (typ_target t) of Some j \<Rightarrow> post j raw s | None \<Rightarrow> s)"

definition handle_read_receipt :: "ctx \<Rightarrow> sid \<Rightarrow> read_receipt \<Rightarrow> envelope \<Rightarrow> server \<Rightarrow> server" where
  "handle_read_receipt X i r raw s =
     (if rr_reader r \<noteq> the_user s i
      then ask_disconnect i ''Read receipt spoofing attempt'' (send_error X i 4042 ''Reader ID mismatch'' s)
      else if rr_target r = [] \<or> rr_message r = [] then send_error X i 4043 ''Invalid read receipt'' s
      else if is_hash (rr_target r) then send_error X i 4044 ''Read receipts only support DMs'' s
      else
        let (ok, s) = deliver_dm X (rr_target r) raw s
        in if ok then s else send_error X i 4045 ''Recipient offline queue full'' s)"

definition session_command :: "ctx \<Rightarrow> sid \<Rightarrow> irc_command \<Rightarrow> server \<Rightarrow> server" where
  "session_command X i c s =
     (let (r, s) = handle_command X c i s in post i (response_env X r) s)"

end
