(* ===== verification/Session_Files.thy ===== *)
theory Session_Files
  imports Session_Core
begin

text \<open>
  The file transfer of a session (\<open>grotto-chat-server/src/net/session.cpp\<close>): upload requests with their
  size, type and quota checks, chunks, the scan and completion of an upload, downloads and file lists.
  Sizes are 64-bit words and chunk counts 32-bit words, as in the code.  The percentage that a progress
  message carries is the quotient of its two byte counts and is left out.
\<close>

subsection \<open>Helpers\<close>

definition expected_chunk_size :: "u64 \<Rightarrow> u32 \<Rightarrow> u32 \<Rightarrow> u32 \<Rightarrow> u64" where
  "expected_chunk_size file_size chunk_size total_chunks chunk_index =
     (if total_chunks = 0 then 0
      else
        let offset = ucast chunk_index * ucast chunk_size
        in if offset \<ge> file_size then 0
           else if chunk_index + 1 = total_chunks then file_size - offset
           else min (ucast chunk_size) (file_size - offset))"

definition ascii_lower_copy :: "string \<Rightarrow> string" where
  "ascii_lower_copy v = map c_tolower v"

definition mime_rule_matches :: "string \<Rightarrow> string \<Rightarrow> bool" where
  "mime_rule_matches rule mime =
     (if rule = [] \<or> mime = [] then False
      else if last rule = CHR ''*'' then take (length (butlast rule)) mime = butlast rule
      else if last rule = CHR ''/'' then take (length rule) mime = rule
      else mime = rule)"

definition mime_is_allowed :: "string \<Rightarrow> string list \<Rightarrow> string list \<Rightarrow> bool" where
  "mime_is_allowed mime allowed blocked =
     (if mime = [] then allowed = []
      else if \<exists>b \<in> set blocked. mime_rule_matches b mime then False
      else if allowed = [] then True
      else \<exists>a \<in> set allowed. mime_rule_matches a mime)"

definition can_download_file :: "server \<Rightarrow> file_metadata \<Rightarrow> string \<Rightarrow> bool" where
  "can_download_file s m u =
     (if fm_channel_id m \<noteq> [] then is_in_channel s (fm_channel_id m) u
      else if fm_recipient_id m \<noteq> [] then u = fm_sender_id m \<or> u = fm_recipient_id m
      else u = fm_sender_id m)"

definition checksum_matches :: "ctx \<Rightarrow> bytes \<Rightarrow> bytes \<Rightarrow> bool" where
  "checksum_matches X data expected \<longleftrightarrow> expected = [] \<or> sha256 X data = expected"

definition send_file_error :: "ctx \<Rightarrow> sid \<Rightarrow> string \<Rightarrow> nat \<Rightarrow> string \<Rightarrow> server \<Rightarrow> server" where
  "send_file_error X i f n text s = send_envelope X i MT_FILE_ERROR (M_FileError f n text) s"

definition set_upload :: "sid \<Rightarrow> string \<Rightarrow> upload option \<Rightarrow> server \<Rightarrow> server" where
  "set_upload i f up s = upd_sess i (\<lambda>ss. ss\<lparr>active_uploads := (active_uploads ss)(f := up)\<rparr>) s"

definition upload_at :: "server \<Rightarrow> sid \<Rightarrow> string \<Rightarrow> upload option" where
  "upload_at s i f = active_uploads (sess s i) f"

subsection \<open>Upload requests\<close>

text \<open>The error a request is refused with before a row is created.\<close>

definition file_request_error :: "ctx \<Rightarrow> sid \<Rightarrow> file_upload_request \<Rightarrow> server \<Rightarrow> (nat \<times> string) option" where
  "file_request_error X i r s =
     (let c = cfg s; size = fur_file_size r;
          reserved = fil_reserved_bytes X (sdb s);
          mine = fil_user_reserved_bytes X (the_user s i) (sdb s)
      in if size = 0 then Some (4080, ''File size must be greater than 0'')
         else if max_upload_bytes c > 0 \<and> size > max_upload_bytes c then Some (4085, ''File too large for this server'')
         else if \<not> mime_is_allowed (ascii_lower_copy (fur_mime_type r)) (allowed_mime_types c) (blocked_mime_types c)
         then Some (4088, ''File type is not allowed on this server'')
         else if max_total_storage_bytes c > 0 \<and>
                 (reserved > max_total_storage_bytes c \<or> size > max_total_storage_bytes c - reserved)
         then Some (4093, ''Server storage quota exceeded'')
         else if max_user_storage_bytes c > 0 \<and>
                 (mine > max_user_storage_bytes c \<or> size > max_user_storage_bytes c - mine)
         then Some (4094, ''User storage quota exceeded'')
         else None)"

definition request_metadata :: "string \<Rightarrow> file_upload_request \<Rightarrow> file_metadata" where
  "request_metadata u r = \<lparr>fm_file_id = fur_file_id r, fm_filename = fur_filename r,
     fm_file_size = fur_file_size r, fm_mime_type = ascii_lower_copy (fur_mime_type r), fm_sender_id = u,
     fm_recipient_id = fur_recipient_id r, fm_channel_id = fur_channel_id r, fm_uploaded_at = 0,
     fm_expires_at = 0, fm_file_checksum = [], fm_storage_path = [], fm_is_complete = False\<rparr>"

text \<open>\<open>std::vector<bool>::resize\<close>: the flags that are there stay.\<close>

definition resize_flags :: "nat \<Rightarrow> bool list \<Rightarrow> bool list" where
  "resize_flags n fs = take n fs @ replicate (n - length fs) False"

definition start_upload :: "file_upload_request \<Rightarrow> upload option \<Rightarrow> upload" where
  "start_upload r old =
     (let cs = (if fur_chunk_size r > 0 then fur_chunk_size r else 65536);
          n = ucast ((fur_file_size r + ucast cs - 1) div ucast cs)
      in \<lparr>up_file_id = fur_file_id r, up_file_size = fur_file_size r, up_chunk_size = cs, up_total_chunks = n,
          up_received = resize_flags (unat n) (case old of None \<Rightarrow> [] | Some up \<Rightarrow> up_received up), up_bytes = 0\<rparr>)"

definition handle_file_request :: "ctx \<Rightarrow> sid \<Rightarrow> file_upload_request \<Rightarrow> server \<Rightarrow> server" where
  "handle_file_request X i r s =
     (let f = fur_file_id r
      in case file_request_error X i r s of
           Some (n, text) \<Rightarrow> send_file_error X i f n text s
         | None \<Rightarrow>
             (case fil_create X (request_metadata (the_user s i) r) (sdb s) of
                (False, d) \<Rightarrow> send_file_error X i f 4081 ''Failed to create file entry'' (s\<lparr>sdb := d\<rparr>)
              | (True, d) \<Rightarrow>
                  send_envelope X i MT_FILE_PROGRESS (M_FileProgress f 0 (fur_file_size r) ''uploading'')
                    (set_upload i f (Some (start_upload r (upload_at s i f))) (s\<lparr>sdb := d\<rparr>))))"

subsection \<open>Upload chunks\<close>

definition drop_file :: "ctx \<Rightarrow> string \<Rightarrow> server \<Rightarrow> server" where
  "drop_file X f s = s\<lparr>sdb := snd (fil_delete X f (sdb s))\<rparr>"

text \<open>An upload that failed for good: the client is told, row and chunks go, the upload is forgotten.\<close>

definition abort_upload :: "ctx \<Rightarrow> sid \<Rightarrow> string \<Rightarrow> nat \<Rightarrow> string \<Rightarrow> server \<Rightarrow> server" where
  "abort_upload X i f n text s = set_upload i f None (drop_file X f (send_file_error X i f n text s))"

definition assembled_file :: "ctx \<Rightarrow> string \<Rightarrow> u32 \<Rightarrow> db \<Rightarrow> bytes" where
  "assembled_file X f n d =
     concat (map (\<lambda>k. case fil_get_chunk X f (of_nat k) d of None \<Rightarrow> [] | Some b \<Rightarrow> b) [0..<unat n])"

text \<open>The scan of an assembled file; nothing is scanned when no scanner is enabled and configured.\<close>

definition scan_upload :: "ctx \<Rightarrow> bytes \<Rightarrow> server \<Rightarrow> scan_result option \<times> server" where
  "scan_upload X data s =
     (if sm_enabled (scanner s) \<and> sm_configured (scanner s)
      then let (r, m) = sm_scan X data (scanner s) in (Some r, s\<lparr>scanner := m\<rparr>)
      else (None, s))"

definition complete_upload :: "ctx \<Rightarrow> sid \<Rightarrow> string \<Rightarrow> upload \<Rightarrow> bytes \<Rightarrow> server \<Rightarrow> server" where
  "complete_upload X i f up data s =
     (let checksum = sha256 X data;
          s = s\<lparr>sdb := snd (fil_mark_complete X f checksum (sdb s))\<rparr>;
          s = send_envelope X i MT_FILE_COMPLETE (M_FileComplete f (up_bytes up) checksum) s;
          changed = (case fil_get X 1 f (sdb s) of
                       None \<Rightarrow> M_FileChanged f [] []
                     | Some m \<Rightarrow> M_FileChanged f (fm_recipient_id m) (fm_channel_id m));
          e = \<lparr>env_seq = next_seq (sess s i), env_ts = steady_ms X, env_type = MT_FILE_CHANGED,
               env_payload = ser (codec X) changed\<rparr>;
          s = upd_sess i (\<lambda>ss. ss\<lparr>next_seq := next_seq ss + 1\<rparr>) s
      in set_upload i f None (broadcast e None s))"

definition finish_upload :: "ctx \<Rightarrow> sid \<Rightarrow> string \<Rightarrow> upload \<Rightarrow> server \<Rightarrow> server" where
  "finish_upload X i f up s =
     (if (\<exists>r \<in> set (up_received up). \<not> r) \<or> up_bytes up \<noteq> up_file_size up
      then abort_upload X i f 4084 ''Upload incomplete at final chunk'' s
      else
        let data = assembled_file X f (up_total_chunks up) (sdb s);
            (verdict, s) = scan_upload X data s
        in case verdict of
             None \<Rightarrow> complete_upload X i f up data s
           | Some r \<Rightarrow>
               if sr_error r
               then abort_upload X i f 4091 (''Virus scan failed: '' @ sr_error_message r) s
               else if \<not> sr_clean r
               then set_upload i f None
                      (send_file_error X i f 4090 (''Threat detected: '' @ sr_virus_name r) (drop_file X f s))
               else complete_upload X i f up data s)"

definition chunk_error :: "upload \<Rightarrow> file_upload_chunk \<Rightarrow> string option" where
  "chunk_error up c =
     (let k = fuc_chunk_index c;
          expected = expected_chunk_size (up_file_size up) (up_chunk_size up) (up_total_chunks up) k
      in if k \<ge> up_total_chunks up then Some ''Invalid chunk index''
         else if up_received up ! unat k then Some ''Duplicate chunk index''
         else if expected = 0 \<or> length (fuc_data c) \<noteq> unat expected then Some ''Unexpected chunk size''
         else None)"

definition note_chunk :: "file_upload_chunk \<Rightarrow> upload \<Rightarrow> upload" where
  "note_chunk c up = up\<lparr>up_received := (up_received up)[unat (fuc_chunk_index c) := True],
                        up_bytes := up_bytes up + of_nat (length (fuc_data c))\<rparr>"

definition handle_file_upload :: "ctx \<Rightarrow> sid \<Rightarrow> file_upload_chunk \<Rightarrow> server \<Rightarrow> server" where
  "handle_file_upload X i c s =
     (let f = fuc_file_id c
      in case upload_at s i f of
           None \<Rightarrow> send_file_error X i f 4082 ''Upload not started - send FileUploadRequest first'' s
         | Some up \<Rightarrow>
             (case chunk_error up c of
                Some text \<Rightarrow> send_file_error X i f 4083 text s
              | None \<Rightarrow>
                  if \<not> checksum_matches X (fuc_data c) (fuc_checksum c)
                  then abort_upload X i f 4084 ''Chunk checksum mismatch'' s
                  else case fil_store_chunk X f (fuc_chunk_index c) (fuc_data c) (sdb s) of
                    (False, d) \<Rightarrow> send_file_error X i f 4084 ''Failed to store chunk'' (s\<lparr>sdb := d\<rparr>)
                  | (True, d) \<Rightarrow>
                      let up = note_chunk c up;
                          s = set_upload i f (Some up) (s\<lparr>sdb := d\<rparr>)
                      in if up_bytes up > up_file_size up
                         then abort_upload X i f 4084 ''Upload exceeds declared file size'' s
                         else
                           let s = send_envelope X i MT_FILE_PROGRESS
                                     (M_FileProgress f (up_bytes up) (up_file_size up) ''uploading'') s
                           in if fuc_is_last c then finish_upload X i f up s else s))"

subsection \<open>Downloads\<close>

abbreviation wire_chunk_size :: nat where "wire_chunk_size \<equiv> 57344"

text \<open>
  The inner loop: the slices of one stored chunk, from the bytes sent and the wire index so far.
\<close>

function wire_slices ::
  "string \<Rightarrow> u64 \<Rightarrow> u32 \<Rightarrow> bytes \<Rightarrow> u64 \<Rightarrow> u32 \<Rightarrow> (message_type \<times> msg) list \<times> u64 \<times> u32" where
  "wire_slices f sz start data sent idx =
     (if data = [] \<or> \<not> sent < sz then ([], sent, idx)
      else
        let n = min wire_chunk_size (min (length data) (unat (sz - sent)));
            sent' = sent + of_nat n;
            msgs = (if idx \<ge> start
                    then [(MT_FILE_CHUNK, M_FileChunk f idx (take n data) (sent' \<ge> sz)),
                          (MT_FILE_PROGRESS, M_FileProgress f sent' sz ''downloading'')]
                    else []);
            (rest, sent'', idx') = wire_slices f sz start (drop n data) sent' (idx + 1)
        in (msgs @ rest, sent'', idx'))"
  by pat_completeness auto
termination
  by (relation "measure (\<lambda>(f, sz, start, data, sent, idx). length data)")
     (auto simp: unat_gt_0)

declare wire_slices.simps [simp del]

text \<open>
  The outer loop over the stored chunks.  Its index wraps, so it would not end on a file whose every
  chunk is there and empty; \<open>None\<close> stands for that.
\<close>

partial_function (option) stream_file ::
  "ctx \<Rightarrow> db \<Rightarrow> string \<Rightarrow> u64 \<Rightarrow> u32 \<Rightarrow> u32 \<Rightarrow> u64 \<Rightarrow> u32 \<Rightarrow> ((message_type \<times> msg) list \<times> bool) option" where
  "stream_file X d f sz start stored sent idx =
     (if \<not> sent < sz then Some ([], True)
      else case fil_get_chunk X f stored d of
        None \<Rightarrow> Some ([(MT_FILE_ERROR, M_FileError f 4084 ''Chunk not found while streaming download'')], False)
      | Some data \<Rightarrow>
          Option.bind (stream_file X d f sz start (stored + 1)
                         (fst (snd (wire_slices f sz start data sent idx)))
                         (snd (snd (wire_slices f sz start data sent idx))))
            (\<lambda>(rest, ok). Some (fst (wire_slices f sz start data sent idx) @ rest, ok)))"

text \<open>The chunks of a file without a stored checksum, read again until the sz is reached.\<close>

partial_function (option) read_chunks :: "ctx \<Rightarrow> db \<Rightarrow> string \<Rightarrow> u64 \<Rightarrow> u32 \<Rightarrow> bytes \<Rightarrow> bytes option" where
  "read_chunks X d f sz k acc =
     (case fil_get_chunk X f k d of
        None \<Rightarrow> Some acc
      | Some data \<Rightarrow>
          if length (acc @ data) \<ge> unat sz then Some (acc @ data)
          else read_chunks X d f sz (k + 1) (acc @ data))"

fun send_list :: "ctx \<Rightarrow> sid \<Rightarrow> (message_type \<times> msg) list \<Rightarrow> server \<Rightarrow> server" where
  "send_list X i [] s = s"
| "send_list X i ((mt, m) # ms) s = send_list X i ms (send_envelope X i mt m s)"

definition download_checksum :: "ctx \<Rightarrow> file_metadata \<Rightarrow> db \<Rightarrow> bytes option" where
  "download_checksum X m d =
     (if fm_file_checksum m \<noteq> [] then Some (fm_file_checksum m)
      else map_option (\<lambda>data. if data = [] then [] else sha256 X data)
             (read_chunks X d (fm_file_id m) (fm_file_size m) 0 []))"

definition handle_file_download :: "ctx \<Rightarrow> sid \<Rightarrow> file_download_request \<Rightarrow> server \<Rightarrow> server option" where
  "handle_file_download X i r s =
     (let f = fdr_file_id r
      in case fil_get X 0 f (sdb s) of
           None \<Rightarrow> Some (send_file_error X i f 4083 ''File not found'' s)
         | Some m \<Rightarrow>
             if \<not> can_download_file s m (the_user s i)
             then Some (send_file_error X i f 4087 ''Access denied'' s)
             else case stream_file X (sdb s) f (fm_file_size m) (fdr_chunk_index r) 0 0 0 of
               None \<Rightarrow> None
             | Some (msgs, False) \<Rightarrow> Some (send_list X i msgs s)
             | Some (msgs, True) \<Rightarrow>
                 map_option (\<lambda>checksum. send_envelope X i MT_FILE_COMPLETE
                     (M_FileComplete f (fm_file_size m) checksum) (send_list X i msgs s))
                   (download_checksum X m (sdb s)))"

subsection \<open>File lists\<close>

definition list_limit :: "u32 \<Rightarrow> int" where
  "list_limit n = (let l = (if n > 0 then sint n else 50) in if l < 1 then 1 else if l > 200 then 200 else l)"

definition handle_file_list_request :: "ctx \<Rightarrow> sid \<Rightarrow> file_list_request \<Rightarrow> server \<Rightarrow> server" where
  "handle_file_list_request X i r s =
     (if (flr_recipient r \<noteq> []) = (flr_channel r \<noteq> [])
      then send_file_error X i [] 4089 ''File list request must target exactly one DM or channel'' s
      else if flr_channel r \<noteq> [] \<and> \<not> is_in_channel s (flr_channel r) (the_user s i)
      then send_file_error X i [] 4087 ''Access denied'' s
      else
        let limit = list_limit (flr_limit r);
            fs = (if flr_channel r \<noteq> [] then fil_list X [] (flr_channel r) limit (sdb s)
                  else fil_list_conversation X (the_user s i) (flr_recipient r) limit (sdb s))
        in send_envelope X i MT_FILE_LIST_RESPONSE
             (M_FileListResponse (flr_recipient r) (flr_channel r) fs) s)"

end
