(* ===== verification/Session_Dispatch.thy ===== *)
theory Session_Dispatch
  imports Session_Files
begin

text \<open>
  The rest of a session (\<open>grotto-chat-server/src/net/session.cpp\<close>): dispatching a received envelope,
  framing, the write queue, the ping timer, and the steps in which the event loop runs them.  A handler
  that does not end is \<open>None\<close>; the only one that could is the download.
\<close>

subsection \<open>Dispatch\<close>

type_synonym handled = "(outcome \<times> server) option"

abbreviation done_with :: "server \<Rightarrow> handled" where "done_with s \<equiv> Some (Returned, s)"

definition parsed :: "(bytes \<Rightarrow> 'a option) \<Rightarrow> envelope \<Rightarrow> 'a option" where
  "parsed p e = (if env_payload e = [] then None else p (env_payload e))"

abbreviation established :: "server \<Rightarrow> sid \<Rightarrow> bool" where
  "established s i \<equiv> ss_state (sess s i) = Established"

text \<open>
  The common shape of a case: the session must be established, the payload must parse.  The numbers are
  the codes of the two errors; a case without the second ignores the message instead.
\<close>

definition with_message ::
  "ctx \<Rightarrow> sid \<Rightarrow> server \<Rightarrow> 'a option \<Rightarrow> nat \<Rightarrow> string \<Rightarrow> nat option \<Rightarrow> ('a \<Rightarrow> handled) \<Rightarrow> handled" where
  "with_message X i s m bad_code bad_text unauth h =
     (if established s i
      then (case m of Some x \<Rightarrow> h x | None \<Rightarrow> done_with (send_error X i bad_code bad_text s))
      else (case unauth of Some n \<Rightarrow> done_with (send_error X i n ''Not authenticated'' s) | None \<Rightarrow> done_with s))"

definition msg_rate_ok :: "ctx \<Rightarrow> sid \<Rightarrow> server \<Rightarrow> bool \<times> server" where
  "msg_rate_ok X i s =
     (case msg_rate_limiter (sess s i) of
        None \<Rightarrow> (True, s)
      | Some l \<Rightarrow>
          (let (ok, l) = rl_allow (steady_now X) l
           in (ok, upd_sess i (\<lambda>ss. ss\<lparr>msg_rate_limiter := Some l\<rparr>) s)))"

definition dispatch_hello :: "ctx \<Rightarrow> sid \<Rightarrow> envelope \<Rightarrow> server \<Rightarrow> handled" where
  "dispatch_hello X i e s =
     (if ss_state (sess s i) = Hello
      then (case parsed (parse_hello (codec X)) e of
              None \<Rightarrow> done_with (ask_disconnect i ''Invalid HELLO'' (send_error X i 4003 ''Invalid HELLO message'' s))
            | Some h \<Rightarrow> done_with (handle_hello X i h s))
      else done_with s)"

definition dispatch_auth :: "ctx \<Rightarrow> sid \<Rightarrow> envelope \<Rightarrow> server \<Rightarrow> handled" where
  "dispatch_auth X i e s =
     (if ss_state (sess s i) = AuthPending
      then (case parsed (parse_auth (codec X)) e of
              None \<Rightarrow> done_with (ask_disconnect i ''Invalid AUTH_RESPONSE'' (send_error X i 4004 ''Invalid AUTH_RESPONSE'' s))
            | Some a \<Rightarrow> Some (handle_auth_response X i a s))
      else done_with s)"

definition dispatch_chat :: "ctx \<Rightarrow> sid \<Rightarrow> envelope \<Rightarrow> server \<Rightarrow> handled" where
  "dispatch_chat X i e s =
     (if \<not> established s i then done_with (send_error X i 4031 ''Not authenticated'' s)
      else
        let (ok, s) = msg_rate_ok X i s
        in if \<not> ok then done_with (send_error X i 4290 ''Rate limit exceeded'' s)
           else case parsed (parse_chat (codec X)) e of
             Some chat \<Rightarrow> done_with (handle_chat X i chat e s)
           | None \<Rightarrow> done_with (send_error X i 4030 ''Invalid CHAT_ENVELOPE'' s))"

definition dispatch_voice_signal :: "ctx \<Rightarrow> sid \<Rightarrow> envelope \<Rightarrow> server \<Rightarrow> handled" where
  "dispatch_voice_signal X i e s =
     (if \<not> established s i then done_with (send_error X i 4071 ''Not authenticated'' s)
      else
        let (ok, s) = msg_rate_ok X i s
        in if \<not> ok then done_with (send_error X i 4290 ''Rate limit exceeded'' s)
           else case parsed (parse_signal (codec X)) e of
             Some v \<Rightarrow> done_with (handle_voice_signal X i v e s)
           | None \<Rightarrow> done_with (send_error X i 4070 ''Invalid VOICE_SIGNAL'' s))"

text \<open>An upload message is read as a chunk first, and as a request when it carries no data.\<close>

definition dispatch_upload :: "ctx \<Rightarrow> sid \<Rightarrow> envelope \<Rightarrow> server \<Rightarrow> handled" where
  "dispatch_upload X i e s =
     (if \<not> established s i then done_with (send_error X i 4081 ''Not authenticated'' s)
      else if env_payload e = [] then done_with (send_error X i 4080 ''Empty FILE_UPLOAD'' s)
      else
        let request = (case parse_upload_request (codec X) (env_payload e) of
              Some r \<Rightarrow> done_with (handle_file_request X i r s)
            | None \<Rightarrow> done_with (send_error X i 4082 ''Invalid FILE_UPLOAD'' s))
        in case parse_upload_chunk (codec X) (env_payload e) of
             Some c \<Rightarrow> if fuc_data c \<noteq> [] then done_with (handle_file_upload X i c s) else request
           | None \<Rightarrow> request)"

definition handle_pong :: "sid \<Rightarrow> server \<Rightarrow> server" where
  "handle_pong i s = upd_sess i (\<lambda>ss. ss\<lparr>ping_sent := False\<rparr>) (reset_ping_timer i s)"

definition handle_envelope :: "ctx \<Rightarrow> sid \<Rightarrow> envelope \<Rightarrow> server \<Rightarrow> handled" where
  "handle_envelope X i e s =
     (case env_type e of
        MT_HELLO \<Rightarrow> dispatch_hello X i e s
      | MT_AUTH_RESPONSE \<Rightarrow> dispatch_auth X i e s
      | MT_PING \<Rightarrow> done_with (if established s i then handle_ping X i e s else s)
      | MT_PONG \<Rightarrow> done_with (handle_pong i s)
      | MT_TYPING \<Rightarrow> with_message X i s (parsed (parse_typing (codec X)) e) 4036 ''Invalid TYPING'' (Some 4037)
          (\<lambda>t. done_with (handle_typing X i t e s))
      | MT_READ_RECEIPT \<Rightarrow> with_message X i s (parsed (parse_receipt (codec X)) e) 4038 ''Invalid READ_RECEIPT''
          (Some 4039) (\<lambda>r. done_with (handle_read_receipt X i r e s))
      | MT_CHAT_ENVELOPE \<Rightarrow> dispatch_chat X i e s
      | MT_VOICE_SIGNAL \<Rightarrow> dispatch_voice_signal X i e s
      | MT_VOICE_ROOM_JOIN \<Rightarrow> with_message X i s (parsed (parse_voice_room (codec X)) e) 4075
          ''Invalid VOICE_ROOM_JOIN'' None (\<lambda>j. done_with (handle_voice_room_join X i j s))
      | MT_VOICE_ROOM_LEAVE \<Rightarrow> with_message X i s (parsed (parse_voice_room (codec X)) e) 4076
          ''Invalid VOICE_ROOM_LEAVE'' None (\<lambda>l. done_with (handle_voice_room_leave X i l s))
      | MT_KEY_UPLOAD \<Rightarrow> with_message X i s (parsed (parse_key_upload (codec X)) e) 4040 ''Invalid KEY_UPLOAD''
          (Some 4041) (\<lambda>ku. Some (handle_key_upload X i ku s))
      | MT_KEY_REQUEST \<Rightarrow> with_message X i s (parsed (parse_key_request (codec X)) e) 4050 ''Invalid KEY_REQUEST''
          (Some 4051) (\<lambda>u. done_with (handle_key_request X i u s))
      | MT_COMMAND \<Rightarrow> with_message X i s (parsed (parse_command (codec X)) e) 4060 ''Invalid COMMAND'' (Some 4061)
          (\<lambda>c. done_with (session_command X i c s))
      | MT_FILE_UPLOAD \<Rightarrow> dispatch_upload X i e s
      | MT_FILE_DOWNLOAD \<Rightarrow> with_message X i s (parsed (parse_download (codec X)) e) 4086 ''Invalid FILE_DOWNLOAD''
          (Some 4087) (\<lambda>r. map_option (\<lambda>s. (Returned, s)) (handle_file_download X i r s))
      | MT_FILE_LIST_REQUEST \<Rightarrow> with_message X i s (parsed (parse_file_list (codec X)) e) 4089
          ''Invalid FILE_LIST_REQUEST'' (Some 4092) (\<lambda>r. done_with (handle_file_list_request X i r s))
      | _ \<Rightarrow> done_with s)"

text \<open>An exception is caught and logged; what the handler had done stays.\<close>

definition on_frame_received :: "ctx \<Rightarrow> sid \<Rightarrow> bytes \<Rightarrow> server \<Rightarrow> server option" where
  "on_frame_received X i data s =
     (case parse_env (codec X) data of
        None \<Rightarrow> Some (send_error X i 4002 ''Invalid protobuf'' s)
      | Some e \<Rightarrow> map_option snd (handle_envelope X i e s))"

subsection \<open>Framing and the write queue\<close>

abbreviation kMaxMessageSize :: nat where "kMaxMessageSize \<equiv> 65536"

definition frame_of :: "bytes \<Rightarrow> bytes" where
  "frame_of data = be_bytes 4 (length data) @ data"

text \<open>The header of a frame: the size to read next, or none when the connection is given up.\<close>

definition on_header :: "ctx \<Rightarrow> sid \<Rightarrow> bytes \<Rightarrow> server \<Rightarrow> nat option \<times> server" where
  "on_header X i header s =
     (let payload_size = be_value header
      in if payload_size > kMaxMessageSize
         then (None, on_session_disconnected X i (send_error X i 4001 ''Message too large'' s))
         else if payload_size = 0 then (None, on_session_disconnected X i s)
         else (Some payload_size, s))"

text \<open>The reading loop on the bytes of a connection: the payloads it hands over, and what is left.\<close>

function read_stream :: "bytes \<Rightarrow> bytes list \<times> bytes" where
  "read_stream bs =
     (if length bs < 4 then ([], bs)
      else
        let n = be_value (take 4 bs)
        in if n > kMaxMessageSize \<or> n = 0 \<or> length bs < 4 + n then ([], bs)
           else let (ms, rest) = read_stream (drop (4 + n) bs) in (take n (drop 4 bs) # ms, rest))"
  by pat_completeness auto
termination by (relation "measure length") auto

declare read_stream.simps [simp del]

definition do_write :: "session \<Rightarrow> session" where
  "do_write ss =
     (if write_in_progress ss \<or> pending_writes ss = [] \<or> ss_state ss = Dead then ss
      else ss\<lparr>write_in_progress := True\<rparr>)"

text \<open>A frame that \<open>send\<close> posted reaches the strand.\<close>

definition queue_frame :: "bytes \<Rightarrow> session \<Rightarrow> session" where
  "queue_frame frame ss =
     (if ss_state ss = Dead then ss
      else
        let ss = ss\<lparr>pending_writes := pending_writes ss @ [frame]\<rparr>
        in if write_in_progress ss then ss else do_write ss)"

text \<open>A write has completed; the failure of a live session is reported to the listener.\<close>

definition write_done :: "session \<Rightarrow> session" where
  "write_done ss =
     (let ss = ss\<lparr>write_in_progress := False\<rparr>;
          ss = (if pending_writes ss \<noteq> [] then ss\<lparr>pending_writes := tl (pending_writes ss)\<rparr> else ss)
      in do_write ss)"

definition on_written :: "ctx \<Rightarrow> bool \<Rightarrow> sid \<Rightarrow> server \<Rightarrow> server" where
  "on_written X ok i s =
     (if ok then upd_sess i write_done s
      else
        let s = upd_sess i (\<lambda>ss. ss\<lparr>write_in_progress := False\<rparr>) s
        in if ss_state (sess s i) \<noteq> Dead
           then on_session_disconnected X i (upd_sess i (\<lambda>ss. ss\<lparr>pending_writes := []\<rparr>) s)
           else s)"

definition on_disconnect :: "sid \<Rightarrow> server \<Rightarrow> server" where
  "on_disconnect i s = upd_sess i (\<lambda>ss. ss\<lparr>ping_timer := Timer_off\<rparr>) (set_state i Dead s)"

fun target :: "event \<Rightarrow> sid" where
  "target (Send i e) = i"
| "target (Disconnect i r) = i"

fun run_event :: "ctx \<Rightarrow> event \<Rightarrow> server \<Rightarrow> server" where
  "run_event X (Send i e) s = upd_sess i (queue_frame (frame_of (ser_env (codec X) e))) s"
| "run_event X (Disconnect i r) s = on_disconnect i s"

subsection \<open>Handshake and ping timer\<close>

definition on_handshake :: "ctx \<Rightarrow> bool \<Rightarrow> sid \<Rightarrow> server \<Rightarrow> server" where
  "on_handshake X ok i s = (if ok then set_state i Hello s else on_session_disconnected X i s)"

definition on_ping_interval :: "ctx \<Rightarrow> sid \<Rightarrow> server \<Rightarrow> server" where
  "on_ping_interval X i s =
     (let s = upd_sess i (\<lambda>ss. ss\<lparr>ping_timer := Timer_off\<rparr>) s
      in if ss_state (sess s i) \<noteq> Established then s
         else if ping_sent (sess s i) then on_session_disconnected X i s
         else
           let ping = \<lparr>env_seq = next_seq (sess s i), env_ts = steady_ms X, env_type = MT_PING, env_payload = []\<rparr>
           in post i ping (upd_sess i (\<lambda>ss. ss\<lparr>next_seq := next_seq ss + 1, ping_sent := True,
                                         ping_timer := Timer_timeout\<rparr>) s))"

definition on_ping_timeout :: "ctx \<Rightarrow> sid \<Rightarrow> server \<Rightarrow> server" where
  "on_ping_timeout X i s =
     (let s = upd_sess i (\<lambda>ss. ss\<lparr>ping_timer := Timer_off\<rparr>) s
      in if ss_state (sess s i) = Established then on_session_disconnected X i s else s)"

subsection \<open>The steps of the server\<close>

text \<open>
  Every completion handler of the event loop is one step, in its own context: its clock, the statements
  that throw, and the bytes from outside are its choice.  The posts to one session run in their order
  (the strand); those to different sessions run in any order.  A handshake completes in the state
  \<open>Handshake\<close>, and frames are read only after it.  The relation allows more than the sockets do: reading
  goes on after a read error or a refused header, where the program reads no further.
\<close>

inductive server_step :: "server \<Rightarrow> server \<Rightarrow> bool" where
  Accept: "server_step s (snd (snd (do_accept X failed ip endpoint s)))"
| Handshake_done: "i < next_sid s \<Longrightarrow> ss_state (sess s i) = Handshake \<Longrightarrow> server_step s (on_handshake X ok i s)"
| Header: "ss_state (sess s i) \<noteq> Handshake \<Longrightarrow> on_header X i h s = (n, s') \<Longrightarrow> server_step s s'"
| Frame: "ss_state (sess s i) \<noteq> Handshake \<Longrightarrow> on_frame_received X i data s = Some s' \<Longrightarrow> server_step s s'"
| Read_error: "ss_state (sess s i) \<noteq> Handshake \<Longrightarrow> server_step s (on_session_disconnected X i s)"
| Run_post: "out s = xs @ ev # ys \<Longrightarrow> target ev \<notin> target ` set xs \<Longrightarrow>
    server_step s (run_event X ev (s\<lparr>out := xs @ ys\<rparr>))"
| Written: "write_in_progress (sess s i) \<Longrightarrow> server_step s (on_written X ok i s)"
| Ping_interval: "ping_timer (sess s i) = Timer_interval \<Longrightarrow> server_step s (on_ping_interval X i s)"
| Ping_timeout: "ping_timer (sess s i) = Timer_timeout \<Longrightarrow> server_step s (on_ping_timeout X i s)"
| Signal: "server_step s (on_signal failed s)"

inductive reachable :: "server \<Rightarrow> server \<Rightarrow> bool" for s0 where
  Start: "reachable s0 s0"
| Step: "reachable s0 s \<Longrightarrow> server_step s s' \<Longrightarrow> reachable s0 s'"

end
