(* ===== verification/Channel_Rules.thy ===== *)
theory Channel_Rules
  imports Command_Handler
begin

text \<open>
  What one command may do to one channel, as an inductive step relation on the channel's state, and
  the proof that the command handler refines it.  Authorisation and the channel invariant are then
  case analyses on the relation.
\<close>

subsection \<open>The step relation\<close>

definition leave_result :: "string \<Rightarrow> channel_state option \<Rightarrow> channel_state option" where
  "leave_result u co =
     (case co of
        None \<Rightarrow> None
      | Some ch \<Rightarrow> if ch_members (part_from u ch) = [] then None else Some (part_from u ch))"

inductive chan_step :: "string \<Rightarrow> string \<Rightarrow> channel_state option \<Rightarrow> channel_state option \<Rightarrow> bool"
  for u :: string and c :: string where
  idle: "chan_step u c co co"
| create: "is_valid_channel_name c \<Longrightarrow> chan_step u c None (Some (enter_channel u (new_channel c)))"
| enter: "u \<notin> set (ch_banned ch) \<Longrightarrow>
    ch_invite_only ch \<longrightarrow> u \<in> set (ch_invites ch) \<union> set (ch_operators ch) \<Longrightarrow>
    chan_step u c (Some ch) (Some (enter_channel u ch))"
| leave: "u \<in> set (ch_members ch) \<Longrightarrow> chan_step u c (Some ch) (leave_result u (Some ch))"
| topic: "u \<in> set (ch_members ch) \<Longrightarrow> ch_topic_restricted ch \<longrightarrow> u \<in> set (ch_operators ch) \<Longrightarrow>
    chan_step u c (Some ch) (Some (ch\<lparr>ch_topic := t\<rparr>))"
| kick: "u \<in> set (ch_operators ch) \<Longrightarrow> t \<in> set (ch_members ch) \<Longrightarrow>
    chan_step u c (Some ch) (Some (part_from t ch))"
| ban: "u \<in> set (ch_operators ch) \<Longrightarrow>
    chan_step u c (Some ch) (Some (ch\<lparr>ch_banned := uinsert t (ch_banned ch), ch_members := uerase t (ch_members ch)\<rparr>))"
| invite: "u \<in> set (ch_operators ch) \<Longrightarrow>
    chan_step u c (Some ch) (Some (ch\<lparr>ch_invites := uinsert t (ch_invites ch)\<rparr>))"
| set_invite_only: "u \<in> set (ch_operators ch) \<Longrightarrow> chan_step u c (Some ch) (Some (ch\<lparr>ch_invite_only := b\<rparr>))"
| set_moderated: "u \<in> set (ch_operators ch) \<Longrightarrow> chan_step u c (Some ch) (Some (ch\<lparr>ch_moderated := b\<rparr>))"
| set_topic_restricted: "u \<in> set (ch_operators ch) \<Longrightarrow>
    chan_step u c (Some ch) (Some (ch\<lparr>ch_topic_restricted := b\<rparr>))"
| give_op: "u \<in> set (ch_operators ch) \<Longrightarrow> t \<in> set (ch_members ch) \<Longrightarrow>
    chan_step u c (Some ch) (Some (ch\<lparr>ch_operators := uinsert t (ch_operators ch)\<rparr>))"
| take_op: "u \<in> set (ch_operators ch) \<Longrightarrow> t \<in> set (ch_members ch) \<Longrightarrow>
    chan_step u c (Some ch) (Some (ch\<lparr>ch_operators := uerase t (ch_operators ch)\<rparr>))"
| give_voice: "u \<in> set (ch_operators ch) \<Longrightarrow> t \<in> set (ch_members ch) \<Longrightarrow>
    chan_step u c (Some ch) (Some (ch\<lparr>ch_voiced := uinsert t (ch_voiced ch)\<rparr>))"
| take_voice: "u \<in> set (ch_operators ch) \<Longrightarrow> t \<in> set (ch_members ch) \<Longrightarrow>
    chan_step u c (Some ch) (Some (ch\<lparr>ch_voiced := uerase t (ch_voiced ch)\<rparr>))"

inductive_cases chan_step_SomeE: "chan_step u c (Some ch) co'"
inductive_cases chan_step_NoneE: "chan_step u c None co'"
inductive_simps chan_step_None_iff: "chan_step u c None co'"

subsection \<open>Looking channels up after an operation\<close>

lemma chan_at_cong: "channels (cmds s') = channels (cmds s) \<Longrightarrow> chan_at s' c = chan_at s c"
  by (simp add: chan_at_def)

lemma chan_at_set_chan [simp]: "chan_at (set_chan c ch s) d = (if d = c then Some ch else chan_at s d)"
  by (simp add: chan_at_def set_chan_def)

lemma chan_at_del_chan [simp]: "chan_at (del_chan c s) d = (if d = c then None else chan_at s d)"
  by (simp add: chan_at_def del_chan_def)

lemma chan_at_frame [simp]:
  "chan_at (broadcast_user_list X c' s) c = chan_at s c"
  "chan_at (send_user_list X c' i s) c = chan_at s c"
  "chan_at (notify_user X u r s) c = chan_at s c"
  "chan_at (nick_loop X u e cs s) c = chan_at s c"
  "chan_at (set_limits u l s) c = chan_at s c"
  "chan_at (snd (track_abuse X u s)) c = chan_at s c"
  "chan_at (snd (is_abuser X u s)) c = chan_at s c"
  "chan_at (update_presence X u st txt x s) c = chan_at s c"
  "chan_at (ask_disconnect i reason s) c = chan_at s c"
  "chan_at (broadcast e x s) c = chan_at s c"
  "chan_at (s\<lparr>sdb := d\<rparr>) c = chan_at s c"
  by (simp_all add: chan_at_def frame_simps)

lemma the_user_frame [simp]:
  "the_user (set_limits u l s) i = the_user s i"
  "the_user (snd (is_abuser X u s)) i = the_user s i"
  "the_user (snd (track_abuse X u s)) i = the_user s i"
  by (simp_all add: the_user_def frame_simps)

lemmas notify_defs = notify_channel_join_def notify_channel_part_def

subsection \<open>Each command is a step\<close>

abbreviation steps_ok :: "sid \<Rightarrow> server \<Rightarrow> server \<Rightarrow> bool" where
  "steps_ok i s s' \<equiv> (\<forall>c. chan_step (the_user s i) c (chan_at s c) (chan_at s' c))"

lemma steps_same: "(\<And>c. chan_at s' c = chan_at s c) \<Longrightarrow> steps_ok i s s'"
  by (simp add: chan_step.idle)

lemma steps_one:
  "(\<And>d. d \<noteq> c \<Longrightarrow> chan_at s' d = chan_at s d) \<Longrightarrow>
   chan_step (the_user s i) c (chan_at s c) (chan_at s' c) \<Longrightarrow> steps_ok i s s'"
  by (metis chan_step.idle)

lemma join_steps: "steps_ok i s (snd (cmd_join X args i s))"
proof (cases args)
  case Nil
  then show ?thesis by (simp add: cmd_join_def chan_step.idle)
next
  case (Cons a rest)
  let ?c = "sanitize_channel_name a" and ?u = "the_user s i"
  show ?thesis
  proof (cases "is_valid_channel_name ?c")
    case valid: True
    obtain b jl where jl: "rl_allow (steady_now X) (join_limiter (limits_of X ?u s)) = (b, jl)" by fastforce
    let ?s = "set_limits ?u (limits_of X ?u s\<lparr>join_limiter := jl\<rparr>) s"
    show ?thesis
    proof (cases "chan_at s ?c")
      case None
      have "chan_at (snd (cmd_join X args i s)) d =
          (if d = ?c \<and> b then Some (enter_channel ?u (new_channel ?c)) else chan_at s d)" for d
        using None valid jl
        by (auto simp: cmd_join_def Cons Let_def get_or_create_channel_def notify_defs)
           (simp_all add: new_channel_def)
      with None valid show ?thesis
        by (intro steps_one [of ?c]) (auto intro: chan_step.intros)
    next
      case (Some ch)
      have "chan_at (snd (cmd_join X args i s)) d =
          (if d = ?c \<and> b \<and> ?u \<notin> set (ch_banned ch) \<and>
              (ch_invite_only ch \<longrightarrow> ?u \<in> set (ch_invites ch) \<or> ?u \<in> set (ch_operators ch))
           then Some (enter_channel ?u ch) else chan_at s d)" for d
        using Some valid jl
        by (auto simp: cmd_join_def Cons Let_def get_or_create_channel_def notify_defs)
      with Some show ?thesis
        by (intro steps_one [of ?c]) (auto intro: chan_step.intros)
    qed
  qed (simp add: cmd_join_def Cons chan_step.idle)
qed

lemma part_steps: "steps_ok i s (snd (cmd_part X args i s))"
proof (cases args)
  case Nil
  then show ?thesis by (simp add: cmd_part_def chan_step.idle)
next
  case (Cons a rest)
  let ?c = "normalize_channel_argument a" and ?u = "the_user s i"
  show ?thesis
  proof (cases "?c = [] \<or> (case chan_at s ?c of None \<Rightarrow> True | Some ch \<Rightarrow> ?u \<notin> set (ch_members ch))")
    case True
    then show ?thesis
      by (intro steps_same) (auto simp: cmd_part_def Cons Let_def split: option.splits)
  next
    case False
    then obtain ch where ch: "?c \<noteq> []" "chan_at s ?c = Some ch" "?u \<in> set (ch_members ch)"
      by (auto split: option.splits)
    then have "chan_at (snd (cmd_part X args i s)) d =
        (if d = ?c then leave_result ?u (Some ch) else chan_at s d)" for d
      by (auto simp: cmd_part_def Cons Let_def notify_defs leave_result_def)
    with ch show ?thesis
      by (intro steps_one [of ?c]) (auto intro: chan_step.leave)
  qed
qed

lemma topic_steps: "steps_ok i s (snd (cmd_topic X args i s))"
proof (cases args)
  case Nil
  then show ?thesis by (simp add: cmd_topic_def chan_step.idle)
next
  case (Cons a words)
  let ?c = "normalize_channel_argument a" and ?u = "the_user s i"
  show ?thesis
  proof (cases "?c = [] \<or> words = [] \<or> (case chan_at s ?c of None \<Rightarrow> True
        | Some ch \<Rightarrow> ?u \<notin> set (ch_members ch) \<or> ch_topic_restricted ch \<and> ?u \<notin> set (ch_operators ch))")
    case True
    then show ?thesis
      by (intro steps_same) (auto simp: cmd_topic_def Cons Let_def split: option.splits)
  next
    case False
    then obtain ch where ch: "?c \<noteq> []" "words \<noteq> []" "chan_at s ?c = Some ch" "?u \<in> set (ch_members ch)"
        "ch_topic_restricted ch \<longrightarrow> ?u \<in> set (ch_operators ch)"
      by (auto split: option.splits)
    then have "chan_at (snd (cmd_topic X args i s)) d =
        (if d = ?c then Some (ch\<lparr>ch_topic := join_with '' '' words\<rparr>) else chan_at s d)" for d
      by (auto simp: cmd_topic_def Cons Let_def notify_defs)
    with ch show ?thesis
      by (intro steps_one [of ?c]) (auto intro: chan_step.topic)
  qed
qed

text \<open>The operator commands share their guards.\<close>

lemma with_operator_steps:
  assumes "\<And>c ch. chan_at s c = Some ch \<Longrightarrow> the_user s i \<in> set (ch_operators ch) \<Longrightarrow>
    chan_step (the_user s i) c (Some ch) (chan_at (snd (k c ch)) c) \<and>
    (\<forall>d. d \<noteq> c \<longrightarrow> chan_at (snd (k c ch)) d = chan_at s d)"
  shows "steps_ok i s (snd (with_operator name denial a i s k))"
proof -
  let ?c = "normalize_channel_argument a"
  show ?thesis
  proof (cases "chan_at s ?c")
    case (Some ch)
    show ?thesis
    proof (cases "?c \<noteq> [] \<and> the_user s i \<in> set (ch_operators ch)")
      case True
      with Some assms [OF Some] show ?thesis
        by (intro steps_one [of ?c]) (auto simp: with_operator_def Let_def)
    next
      case False
      with Some show ?thesis by (intro steps_same) (auto simp: with_operator_def Let_def)
    qed
  qed (intro steps_same, simp add: with_operator_def Let_def)
qed

lemma two_args:
  obtains (two) a b rest where "args = a # b # rest" | (fewer) "length args < 2"
proof (cases args)
  case (Cons a r)
  with that show ?thesis by (cases r) auto
qed (use that in auto)

lemma three_args:
  obtains (three) a b c rest where "args = a # b # c # rest" | (fewer) "length args < 3"
proof (cases rule: two_args [of args])
  case (two a b r)
  with that show ?thesis by (cases r) auto
qed (use that in auto)

lemma kick_steps: "steps_ok i s (snd (cmd_kick X args i s))"
proof (cases rule: two_args [of args])
  case (two a t rest)
  show ?thesis
    unfolding cmd_kick_def two list.case
    by (rule with_operator_steps) (auto simp: Let_def notify_defs intro: chan_step.intros)
next
  case fewer
  then show ?thesis by (intro steps_same) (auto simp: cmd_kick_def split: list.splits)
qed

lemma uerase_absent [simp]: "x \<notin> set xs \<Longrightarrow> uerase x xs = xs"
  by (auto simp: uerase_def filter_id_conv)

lemma ban_steps: "steps_ok i s (snd (cmd_ban X args i s))"
proof (cases rule: two_args [of args])
  case (two a t rest)
  have absent: "chan_step u c (Some ch) (Some (ch\<lparr>ch_banned := uinsert x (ch_banned ch)\<rparr>))"
    if "u \<in> set (ch_operators ch)" "x \<notin> set (ch_members ch)" for u c ch x
    using chan_step.ban [OF that(1), of c x] that(2) by (cases ch) simp
  show ?thesis
    unfolding cmd_ban_def two list.case
    by (rule with_operator_steps) (auto simp: Let_def notify_defs absent intro: chan_step.ban)
next
  case fewer
  then show ?thesis by (intro steps_same) (auto simp: cmd_ban_def split: list.splits)
qed

lemma invite_steps: "steps_ok i s (snd (cmd_invite X args i s))"
proof (cases rule: two_args [of args])
  case (two a t rest)
  show ?thesis
    unfolding cmd_invite_def two list.case
    by (rule with_operator_steps) (auto simp: Let_def intro: chan_step.intros)
next
  case fewer
  then show ?thesis by (intro steps_same) (auto simp: cmd_invite_def split: list.splits)
qed

lemma set_steps: "steps_ok i s (snd (cmd_set X args i s))"
proof (cases rule: three_args [of args])
  case (three a b c rest)
  show ?thesis
    unfolding cmd_set_def three list.case
    by (rule with_operator_steps) (auto simp: Let_def intro: chan_step.intros)
next
  case fewer
  then show ?thesis by (intro steps_same) (auto simp: cmd_set_def split: list.splits)
qed

lemma mode_steps: "steps_ok i s (snd (cmd_mode X args i s))"
proof (cases rule: three_args [of args])
  case (three a b c rest)
  show ?thesis
    unfolding cmd_mode_def three list.case
    by (rule with_operator_steps) (auto simp: Let_def intro: chan_step.intros)
next
  case fewer
  then show ?thesis by (intro steps_same) (auto simp: cmd_mode_def split: list.splits)
qed

text \<open>Leaving twice is leaving once.\<close>

lemma leave_result_idem [simp]: "leave_result u (leave_result u co) = leave_result u co"
  by (auto simp: leave_result_def part_from_def uerase_def split: option.split)

lemma chan_at_part_channel:
  "chan_at (part_channel c u s) d = (if d = c then leave_result u (chan_at s d) else chan_at s d)"
  by (auto simp: part_channel_def leave_result_def Let_def split: option.split)

lemma chan_at_quit_loop:
  "chan_at (quit_loop X u r cs s) d = (if d \<in> set cs then leave_result u (chan_at s d) else chan_at s d)"
  by (induction X u r cs s rule: quit_loop.induct) (auto simp: notify_defs chan_at_part_channel)

lemma quit_steps:
  assumes "keys_distinct (channels (cmds s))"
  shows "steps_ok i s (snd (cmd_quit X args i s))"
proof
  fix c
  let ?u = "the_user s i"
  let ?leave = "map fst (filter (\<lambda>(c, ch). ?u \<in> set (ch_members ch)) (channels (cmds s)))"
  have "c \<in> set ?leave \<longleftrightarrow> (\<exists>ch. chan_at s c = Some ch \<and> ?u \<in> set (ch_members ch))"
    using keys_filter_entry [OF assms, of c "\<lambda>c ch. ?u \<in> set (ch_members ch)"]
    by (auto simp: chan_at_def simp del: set_filter split: option.splits)
  then have "chan_step ?u c (chan_at s c) (if c \<in> set ?leave then leave_result ?u (chan_at s c) else chan_at s c)"
    by (auto intro: chan_step.leave chan_step.idle)
  then show "chan_step ?u c (chan_at s c) (chan_at (snd (cmd_quit X args i s)) c)"
    by (simp add: cmd_quit_def Let_def chan_at_quit_loop)
qed

lemma nick_steps: "steps_ok i s (snd (cmd_nick X args i s))"
  by (intro steps_same) (auto simp: cmd_nick_def chan_at_def frame_simps Let_def split: list.split)

lemma other_steps:
  "steps_ok i s (snd (cmd_whois X args i s))" "steps_ok i s (snd (cmd_me X args i s))"
  "steps_ok i s (snd (cmd_password X args i s))" "steps_ok i s (snd (cmd_msg X args i s))"
  "steps_ok i s (snd (cmd_away X args i s))" "steps_ok i s (snd (cmd_back X args i s))"
  "steps_ok i s (snd (cmd_dnd X args i s))" "steps_ok i s (snd (cmd_quota X args i s))"
  "steps_ok i s (snd (cmd_resetdb X args i s))"
  by (auto intro!: steps_same simp: chan_step.idle cmd_whois_def cmd_me_def cmd_password_def cmd_msg_def cmd_away_def
      cmd_back_def cmd_dnd_def cmd_quota_def cmd_resetdb_def Let_def split_def
      split: list.split option.split)

lemma rmfile_steps: "steps_ok i s (snd (cmd_rmfile X args i s))"
  by (auto intro!: steps_same simp: cmd_rmfile_def Let_def split_def split: list.split option.split)

lemmas command_steps = join_steps part_steps nick_steps topic_steps kick_steps ban_steps invite_steps
  set_steps mode_steps other_steps rmfile_steps

lemma command_map_steps:
  assumes "map_of command_map name = Some f" and "keys_distinct (channels (cmds s))"
  shows "steps_ok i s (snd (f X args i s))"
proof -
  have "f \<in> snd ` set command_map" using map_of_SomeD [OF assms(1)] by force
  then have "f \<in> {cmd_join, cmd_part, cmd_nick, cmd_whois, cmd_me, cmd_topic, cmd_kick, cmd_ban, cmd_invite,
      cmd_set, cmd_mode, cmd_password, cmd_quit, cmd_msg, cmd_away, cmd_back, cmd_dnd, cmd_quota, cmd_rmfile,
      cmd_resetdb}"
    by (auto simp: command_map_def)
  then show ?thesis using command_steps [where i = i and s = s and X = X and args = args] quit_steps [OF assms(2), where i = i and X = X and args = args] by auto
qed

lemma handle_command_cases:
  obtains (same) s' where "snd (handle_command X cmd i s) = s'" "channels (cmds s') = channels (cmds s)"
      "sdb s' = sdb s" "lst s' = lst s" "sess s' = sess s"
  | (run) s' name f where "snd (handle_command X cmd i s) = snd (f X (irc_args cmd) i s')"
      "map_of command_map name = Some f" "channels (cmds s') = channels (cmds s)"
      "sdb s' = sdb s" "lst s' = lst s" "sess s' = sess s"
proof -
  obtain ab s1 where ab: "is_abuser X (the_user s i) s = (ab, s1)" by fastforce
  obtain al cl where al: "rl_allow (steady_now X) (command_limiter (limits_of X (the_user s i) s1)) = (al, cl)"
    by fastforce
  let ?s2 = "set_limits (the_user s i) (limits_of X (the_user s i) s1\<lparr>command_limiter := cl\<rparr>) s1"
  have s1: "channels (cmds s1) = channels (cmds s)" "sdb s1 = sdb s" "lst s1 = lst s" "sess s1 = sess s"
    using limits_frame(3,6,9,12) [of X "the_user s i" s] ab by simp_all
  show ?thesis
  proof (cases "irc_cmd cmd = [] \<or> ab \<or> \<not> al \<or> map_of command_map (lower_string (irc_cmd cmd)) = None")
    case True
    then have "snd (handle_command X cmd i s) = s \<or> snd (handle_command X cmd i s) = s1 \<or>
        snd (handle_command X cmd i s) = snd (track_abuse X (the_user s i) ?s2) \<or>
        snd (handle_command X cmd i s) = ?s2"
      using ab al by (auto simp: handle_command_def Let_def)
    then show ?thesis using s1 by (intro same [of "snd (handle_command X cmd i s)"]) (auto simp: frame_simps)
  next
    case False
    then obtain f where "map_of command_map (lower_string (irc_cmd cmd)) = Some f" by auto
    with False show ?thesis
      using ab al s1 by (intro run [of f ?s2]) (auto simp: handle_command_def Let_def frame_simps)
  qed
qed

lemma handle_command_steps:
  assumes "keys_distinct (channels (cmds s))"
  shows "steps_ok i s (snd (handle_command X cmd i s))"
proof (cases rule: handle_command_cases [of X cmd i s])
  case (same s')
  then show ?thesis by (intro steps_same) (simp add: chan_at_def)
next
  case (run s' name f)
  have "steps_ok i s' (snd (f X (irc_args cmd) i s'))"
    using run assms by (intro command_map_steps) auto
  with run show ?thesis by (simp add: the_user_def chan_at_cong [OF run(3)])
qed

subsection \<open>The channel table stays a map\<close>

definition table_ok :: "server \<Rightarrow> bool" where
  "table_ok s \<longleftrightarrow> keys_distinct (channels (cmds s))"

lemma table_ok_frame [simp]:
  "table_ok s \<Longrightarrow> table_ok (set_chan c ch s)" "table_ok s \<Longrightarrow> table_ok (del_chan c s)"
  "table_ok (broadcast_user_list X c s) = table_ok s"
  "table_ok (send_user_list X c i s) = table_ok s" "table_ok (notify_user X u r s) = table_ok s"
  "table_ok (nick_loop X u e cs s) = table_ok s" "table_ok (set_limits u l s) = table_ok s"
  "table_ok (snd (track_abuse X u s)) = table_ok s" "table_ok (update_presence X u st txt x s) = table_ok s"
  "table_ok (ask_disconnect i reason s) = table_ok s" "table_ok (broadcast e x s) = table_ok s"
  "table_ok (s\<lparr>sdb := d\<rparr>) = table_ok s"
  by (simp_all add: table_ok_def frame_simps set_chan_def del_chan_def)

lemma table_ok_create: "table_ok s \<Longrightarrow> table_ok (snd (get_or_create_channel c s))"
  by (simp add: get_or_create_channel_def split: option.split)

lemma table_ok_with_operator:
  "table_ok s \<Longrightarrow> (\<And>c ch. table_ok (snd (k c ch))) \<Longrightarrow> table_ok (snd (with_operator n d a i s k))"
  by (simp add: with_operator_def Let_def split: option.split)

lemma table_ok_quit_loop: "table_ok s \<Longrightarrow> table_ok (quit_loop X u r cs s)"
  by (induction X u r cs s rule: quit_loop.induct)
     (auto simp: notify_defs part_channel_def Let_def split: option.split)

lemma table_ok_join: "table_ok s \<Longrightarrow> table_ok (snd (cmd_join X args i s))"
  using table_ok_create [of "set_limits u l s" c for u l c]
  by (auto simp: cmd_join_def Let_def notify_defs split_def split: list.split)

lemma table_ok_nick: "table_ok s \<Longrightarrow> table_ok (snd (cmd_nick X args i s))"
  by (auto simp: cmd_nick_def table_ok_def frame_simps Let_def split: list.split)

lemma table_ok_commands:
  assumes "table_ok s"
  shows "table_ok (snd (cmd_part X args i s))" "table_ok (snd (cmd_topic X args i s))"
    "table_ok (snd (cmd_kick X args i s))" "table_ok (snd (cmd_ban X args i s))"
    "table_ok (snd (cmd_invite X args i s))" "table_ok (snd (cmd_set X args i s))"
    "table_ok (snd (cmd_mode X args i s))" "table_ok (snd (cmd_whois X args i s))"
    "table_ok (snd (cmd_me X args i s))" "table_ok (snd (cmd_password X args i s))"
    "table_ok (snd (cmd_quit X args i s))" "table_ok (snd (cmd_msg X args i s))"
    "table_ok (snd (cmd_away X args i s))" "table_ok (snd (cmd_back X args i s))"
    "table_ok (snd (cmd_dnd X args i s))" "table_ok (snd (cmd_quota X args i s))"
    "table_ok (snd (cmd_rmfile X args i s))" "table_ok (snd (cmd_resetdb X args i s))"
  using assms
  by (auto intro!: table_ok_with_operator table_ok_quit_loop
      simp: cmd_part_def cmd_topic_def cmd_kick_def cmd_ban_def cmd_invite_def cmd_set_def cmd_mode_def
        cmd_whois_def cmd_me_def cmd_password_def cmd_quit_def cmd_msg_def cmd_away_def cmd_back_def
        cmd_dnd_def cmd_quota_def cmd_rmfile_def cmd_resetdb_def notify_defs Let_def split_def
      split: list.split option.split)

lemma command_map_range:
  assumes "map_of command_map name = Some f"
  obtains "f = cmd_join" | "f = cmd_part" | "f = cmd_nick" | "f = cmd_whois" | "f = cmd_me"
    | "f = cmd_topic" | "f = cmd_kick" | "f = cmd_ban" | "f = cmd_invite" | "f = cmd_set"
    | "f = cmd_mode" | "f = cmd_password" | "f = cmd_quit" | "f = cmd_msg" | "f = cmd_away"
    | "f = cmd_back" | "f = cmd_dnd" | "f = cmd_quota" | "f = cmd_rmfile" | "f = cmd_resetdb"
proof -
  have "f \<in> snd ` set command_map" using map_of_SomeD [OF assms] by force
  then show thesis unfolding command_map_def using that by auto
qed

lemma handle_command_table_ok [inv_intros]:
  assumes "table_ok s" shows "table_ok (snd (handle_command X cmd i s))"
proof (cases rule: handle_command_cases [of X cmd i s])
  case (same s')
  with assms show ?thesis by (simp add: table_ok_def)
next
  case (run s' name f)
  then have ok: "table_ok s'" using assms by (simp add: table_ok_def)
  from run(2) show ?thesis
    by (cases rule: command_map_range)
       (simp_all add: run(1) table_ok_join [OF ok] table_ok_nick [OF ok] table_ok_commands [OF ok])
qed

subsection \<open>The channel invariant\<close>

definition chan_ok :: "string \<Rightarrow> channel_state \<Rightarrow> bool" where
  "chan_ok c ch \<longleftrightarrow> is_valid_channel_name c \<and> ch_name ch = c \<and>
     distinct (ch_members ch) \<and> distinct (ch_operators ch) \<and> distinct (ch_voiced ch) \<and>
     distinct (ch_banned ch) \<and> distinct (ch_invites ch) \<and>
     set (ch_members ch) \<inter> set (ch_banned ch) = {} \<and>
     set (ch_operators ch) \<union> set (ch_voiced ch) \<subseteq> set (ch_members ch) \<union> set (ch_banned ch)"

lemma chan_ok_enter:
  "chan_ok c ch \<Longrightarrow> u \<notin> set (ch_banned ch) \<Longrightarrow> chan_ok c (enter_channel u ch)"
  by (auto simp: chan_ok_def enter_channel_def Let_def)

lemma chan_ok_part: "chan_ok c ch \<Longrightarrow> t \<in> set (ch_members ch) \<Longrightarrow> chan_ok c (part_from t ch)"
  by (auto simp: chan_ok_def part_from_def)

lemma chan_ok_new: "is_valid_channel_name c \<Longrightarrow> chan_ok c (enter_channel u (new_channel c))"
  by (intro chan_ok_enter) (auto simp: chan_ok_def new_channel_def)

lemma chan_step_ok:
  "chan_step u c co co' \<Longrightarrow> (\<forall>ch. co = Some ch \<longrightarrow> chan_ok c ch) \<Longrightarrow> co' = Some ch' \<Longrightarrow> chan_ok c ch'"
  by (induction rule: chan_step.induct)
     (auto simp: chan_ok_new chan_ok_enter chan_ok_part leave_result_def split: if_splits,
      auto simp: chan_ok_def)

definition channels_ok :: "server \<Rightarrow> bool" where
  "channels_ok s \<longleftrightarrow> table_ok s \<and> (\<forall>c ch. chan_at s c = Some ch \<longrightarrow> chan_ok c ch)"

lemma handle_command_channels_ok [inv_intros]:
  assumes "channels_ok s" shows "channels_ok (snd (handle_command X cmd i s))"
proof -
  have step: "steps_ok i s (snd (handle_command X cmd i s))"
    using assms by (intro handle_command_steps) (simp add: channels_ok_def table_ok_def)
  have "chan_ok c ch'" if "chan_at (snd (handle_command X cmd i s)) c = Some ch'" for c ch'
    using chan_step_ok [OF spec [OF step, of c] _ that] assms by (simp add: channels_ok_def)
  with assms show ?thesis by (simp add: channels_ok_def handle_command_table_ok)
qed

lemma channels_ok_new [inv_intros]: "channels_ok (new_server c d)"
  by (simp add: channels_ok_def table_ok_def chan_at_def new_server_def)

text \<open>What a user without operator status can change.\<close>

definition unprivileged :: "string \<Rightarrow> channel_state \<Rightarrow> channel_state option \<Rightarrow> bool" where
  "unprivileged u ch co' \<longleftrightarrow>
     (case co' of
        None \<Rightarrow> set (ch_members ch) = {u}
      | Some ch' \<Rightarrow>
          ch_banned ch' = ch_banned ch \<and> ch_invites ch' = ch_invites ch \<and>
          ch_invite_only ch' = ch_invite_only ch \<and> ch_moderated ch' = ch_moderated ch \<and>
          ch_topic_restricted ch' = ch_topic_restricted ch \<and>
          (ch_topic ch' = ch_topic ch \<or> \<not> ch_topic_restricted ch \<and> u \<in> set (ch_members ch)) \<and>
          set (ch_members ch') - {u} = set (ch_members ch) - {u} \<and>
          set (ch_operators ch') - {u} = set (ch_operators ch) - {u} \<and>
          set (ch_voiced ch') - {u} = set (ch_voiced ch) - {u} \<and>
          (u \<in> set (ch_operators ch') \<longrightarrow> set (ch_members ch') = {u}) \<and>
          (u \<in> set (ch_members ch') \<longrightarrow> u \<in> set (ch_members ch) \<or>
             u \<notin> set (ch_banned ch) \<and> (ch_invite_only ch \<longrightarrow> u \<in> set (ch_invites ch))))"

lemma unprivileged_idle: "u \<notin> set (ch_operators ch) \<Longrightarrow> unprivileged u ch (Some ch)"
  by (simp add: unprivileged_def)

lemma unprivileged_enter:
  assumes "u \<notin> set (ch_operators ch)" and "u \<notin> set (ch_banned ch)"
    and "ch_invite_only ch \<longrightarrow> u \<in> set (ch_invites ch)"
  shows "unprivileged u ch (Some (enter_channel u ch))"
proof -
  have "insert u (set (ch_members ch)) = {u}" if "length (uinsert u (ch_members ch)) = 1"
  proof -
    obtain y where y: "uinsert u (ch_members ch) = [y]" using \<open>length _ = 1\<close> by (auto simp: length_Suc_conv)
    show ?thesis using arg_cong [OF y, of set] by auto
  qed
  with assms show ?thesis by (auto simp: unprivileged_def enter_channel_def Let_def)
qed

lemma unprivileged_leave:
  "u \<in> set (ch_members ch) \<Longrightarrow> unprivileged u ch (leave_result u (Some ch))"
proof -
  assume u: "u \<in> set (ch_members ch)"
  have "set (ch_members ch) = {u}" if "uerase u (ch_members ch) = []"
    using u set_uerase [of u "ch_members ch"] by (auto simp: that simp del: set_uerase)
  with u show ?thesis by (auto simp: unprivileged_def leave_result_def part_from_def)
qed

lemma chan_step_unprivileged:
  assumes "chan_step u c (Some ch) co'" and "u \<notin> set (ch_operators ch)"
  shows "unprivileged u ch co'"
  using assms(1)
proof (cases rule: chan_step.cases)
  case enter
  with assms(2) show ?thesis using unprivileged_enter by auto
next
  case leave
  then show ?thesis using unprivileged_leave by auto
qed (use assms(2) in \<open>auto simp: unprivileged_def\<close>)

subsection \<open>Files\<close>

text \<open>No command but an authorised \<open>/rmfile\<close> touches the files.\<close>

lemma fan_out_files: "files (sdb (fan_out X e x us s)) = files (sdb s)"
  by (induction X e x us s rule: fan_out.induct) (auto simp: frame_simps split: option.split)

lemma nick_loop_files: "files (sdb (nick_loop X u e cs s)) = files (sdb s)"
  by (induction X u e cs s rule: nick_loop.induct)
     (simp_all add: broadcast_to_channel_def fan_out_files split: option.split)

lemma quit_loop_sdb: "sdb (quit_loop X u r cs s) = sdb s"
  by (induction X u r cs s rule: quit_loop.induct)
     (simp_all add: notify_defs part_channel_def frame_simps Let_def split: option.split)

lemma update_password_files: "files (snd (usr_update_password X u old new d)) = files d"
  by (simp add: usr_update_password_def usr_set_password_def frame_simps split: option.split)

lemma reset_db_files: "files (snd (reset_db X d)) = files d"
  by (simp add: reset_db_def Let_def)

lemma with_operator_sdb:
  "(\<And>c ch. sdb (snd (k c ch)) = sdb s) \<Longrightarrow> sdb (snd (with_operator n d a i s k)) = sdb s"
  by (simp add: with_operator_def Let_def split: option.split)

lemma get_or_create_sdb: "sdb (snd (get_or_create_channel c s)) = sdb s"
  by (simp add: get_or_create_channel_def frame_simps split: option.split)

lemma join_sdb: "sdb (snd (cmd_join X args i s)) = sdb s"
  by (simp add: cmd_join_def Let_def notify_defs split_def frame_simps get_or_create_sdb split: list.split)

lemma channel_commands_sdb:
  "sdb (snd (cmd_part X args i s)) = sdb s" "sdb (snd (cmd_topic X args i s)) = sdb s"
  "sdb (snd (cmd_kick X args i s)) = sdb s" "sdb (snd (cmd_ban X args i s)) = sdb s"
  "sdb (snd (cmd_invite X args i s)) = sdb s" "sdb (snd (cmd_set X args i s)) = sdb s"
  "sdb (snd (cmd_mode X args i s)) = sdb s" "sdb (snd (cmd_quit X args i s)) = sdb s"
  "sdb (snd (cmd_whois X args i s)) = sdb s" "sdb (snd (cmd_me X args i s)) = sdb s"
  "sdb (snd (cmd_msg X args i s)) = sdb s" "sdb (snd (cmd_away X args i s)) = sdb s"
  "sdb (snd (cmd_back X args i s)) = sdb s" "sdb (snd (cmd_dnd X args i s)) = sdb s"
  "sdb (snd (cmd_quota X args i s)) = sdb s"
  by (auto intro!: with_operator_sdb
      simp: cmd_part_def cmd_topic_def cmd_kick_def cmd_ban_def cmd_invite_def cmd_set_def cmd_mode_def
        cmd_whois_def cmd_me_def cmd_quit_def cmd_msg_def cmd_away_def cmd_back_def quit_loop_sdb
        cmd_dnd_def cmd_quota_def notify_defs Let_def split_def frame_simps
      split: list.split option.split)

lemma nick_files: "files (sdb (snd (cmd_nick X args i s))) = files (sdb s)"
  by (simp add: cmd_nick_def nick_loop_files Let_def split: list.split)

lemma password_reset_files:
  "files (sdb (snd (cmd_password X args i s))) = files (sdb s)"
  "files (sdb (snd (cmd_resetdb X args i s))) = files (sdb s)"
  by (auto simp: cmd_password_def cmd_resetdb_def Let_def split_def update_password_files reset_db_files
      split: list.split)

lemma rmfile_files:
  assumes "keys_distinct (files (sdb s))"
    and "map_of (files (sdb (snd (cmd_rmfile X args i s)))) f \<noteq> map_of (files (sdb s)) f"
  shows "\<exists>r. map_of (files (sdb s)) f = Some r \<and> map_of (files (sdb (snd (cmd_rmfile X args i s)))) f = None \<and>
    (fr_sender_id r = the_user s i \<or> fr_channel_id r \<noteq> [] \<and> is_operator s (fr_channel_id r) (the_user s i))"
  using assms(2)
  by (auto simp: cmd_rmfile_def fil_get_def fil_delete_def Let_def split_def frame_simps
        map_of_delete_files [OF assms(1)]
      split: list.splits option.splits if_splits)

subsection \<open>Properties\<close>

text \<open>
  C13: the command handler refines the channel rules.  Whatever command a session sends, each channel
  changes by one step of the relation \<open>chan_step\<close> for the session's user: join, leave, topic, or an
  operator's kick, ban, invitation, setting or mode.
\<close>

theorem commands_refine_channel_rules:
  assumes "channels_ok s"
  shows "chan_step (the_user s i) c (chan_at s c) (chan_at (snd (handle_command X cmd i s)) c)"
  using handle_command_steps [of s i X cmd] assms by (simp add: channels_ok_def table_ok_def)

definition demo_server :: server where
  "demo_server = set_chan ''#c'' \<lparr>ch_name = ''#c'', ch_topic = [], ch_members = [''ann'', ''bob''],
     ch_operators = [''ann''], ch_voiced = [], ch_banned = [''eve''], ch_invite_only = False,
     ch_moderated = False, ch_topic_restricted = True, ch_invites = []\<rparr>
     ((new_server default_config empty_db)\<lparr>sess := (\<lambda>_. (new_session [])\<lparr>ss_user_id := ''bob''\<rparr>)\<rparr>)"

lemma demo_server_ok: "channels_ok demo_server"
proof -
  have v: "is_valid_channel_name ''#c''" by code_simp
  show ?thesis
    unfolding channels_ok_def table_ok_def demo_server_def
    by (auto simp: v set_chan_def new_server_def chan_at_def chan_ok_def)
qed

theorem commands_refine_channel_rules_witness:
  "chan_step ''bob'' ''#c'' (chan_at demo_server ''#c'')
     (chan_at (snd (handle_command demo_ctx \<lparr>irc_cmd = ''part'', irc_args = [''#c'']\<rparr> 7 demo_server)) ''#c'')"
  using commands_refine_channel_rules [OF demo_server_ok, of 7 "''#c''" demo_ctx "\<lparr>irc_cmd = ''part'', irc_args = [''#c'']\<rparr>"]
  by (simp add: the_user_def demo_server_def frame_simps)

text \<open>
  C17: only operators run a channel.  A command of a user who is not an operator leaves bans,
  invitations, settings, other members and their status as they are; the topic changes only if it is
  open to members; the user becomes an operator only by being alone in the channel, and a member only
  if neither banned nor missing an invitation the channel asks for.
\<close>

theorem only_operators_change_channels:
  assumes "channels_ok s" and "chan_at s c = Some ch" and "the_user s i \<notin> set (ch_operators ch)"
  shows "unprivileged (the_user s i) ch (chan_at (snd (handle_command X cmd i s)) c)"
  using chan_step_unprivileged [of "the_user s i" c ch] handle_command_steps [of s i X cmd] assms
  by (simp add: channels_ok_def table_ok_def) metis

theorem only_operators_change_channels_witness:
  "unprivileged ''bob'' (the (chan_at demo_server ''#c''))
     (chan_at (snd (handle_command demo_ctx \<lparr>irc_cmd = ''BAN'', irc_args = [''#c'', ''ann'']\<rparr> 7 demo_server)) ''#c'')"
proof -
  have u: "the_user demo_server 7 = ''bob''" by (simp add: the_user_def demo_server_def frame_simps)
  obtain ch where ch: "chan_at demo_server ''#c'' = Some ch" "ch_operators ch = [''ann'']"
    by (simp add: demo_server_def)
  then have "the_user demo_server 7 \<notin> set (ch_operators ch)" by (simp add: u)
  from only_operators_change_channels [OF demo_server_ok ch(1) this] show ?thesis by (simp add: u ch)
qed

text \<open>
  The channel table stays consistent.  Every command preserves: one entry per channel, named by a
  valid channel name; sets without duplicates; no banned user is a member; operator and voice status
  only for members (or for users who were banned while they had it).
\<close>

theorem commands_keep_channels_ok:
  assumes "channels_ok s"
  shows "channels_ok (snd (handle_command X cmd i s))"
  using assms by (rule handle_command_channels_ok)

theorem commands_keep_channels_ok_witness:
  "channels_ok (snd (handle_command demo_ctx \<lparr>irc_cmd = ''join'', irc_args = [''Lobby'']\<rparr> 1 demo_server))"
  by (rule commands_keep_channels_ok [OF demo_server_ok])

text \<open>
  C39: Files are removed only by their sender or by an operator of their channel.  If a command
  changes the entry of a file, it removed the file and the session's user is one of these.
\<close>

theorem only_owner_or_operator_removes_file:
  assumes "keys_distinct (files (sdb s))"
    and "map_of (files (sdb (snd (handle_command X cmd i s)))) f \<noteq> map_of (files (sdb s)) f"
  shows "\<exists>r. map_of (files (sdb s)) f = Some r \<and> map_of (files (sdb (snd (handle_command X cmd i s)))) f = None \<and>
    (fr_sender_id r = the_user s i \<or> fr_channel_id r \<noteq> [] \<and> is_operator s (fr_channel_id r) (the_user s i))"
proof (cases rule: handle_command_cases [of X cmd i s])
  case (same s')
  with assms(2) show ?thesis by simp
next
  case (run s' name g)
  have eq: "the_user s' i = the_user s i" "is_operator s' c u = is_operator s c u" for c u
    using run by (simp_all add: the_user_def is_operator_def chan_at_def)
  from run(2) show ?thesis
  proof (cases rule: command_map_range)
    case 19
    then show ?thesis using rmfile_files [of s' X "irc_args cmd" i f] assms run by (simp add: eq)
  qed (use assms(2) run in \<open>simp_all add: join_sdb channel_commands_sdb nick_files password_reset_files\<close>)
qed

theorem only_owner_or_operator_removes_file_witness:
  "let s = demo_server\<lparr>sdb := demo_file_db\<rparr>;
       s' = snd (handle_command demo_ctx \<lparr>irc_cmd = ''rmfile'', irc_args = [''f'']\<rparr> 7 s)
   in map_of (files (sdb s)) ''f'' \<noteq> None \<and> map_of (files (sdb s')) ''f'' = None"
proof -
  let ?s = "demo_server\<lparr>sdb := demo_file_db\<rparr>" and ?cmd = "\<lparr>irc_cmd = ''rmfile'', irc_args = [''f'']\<rparr>"
  let ?s' = "snd (handle_command demo_ctx ?cmd 7 ?s)"
  have lower: "c_tolower CHR ''r'' = CHR ''r''" "c_tolower CHR ''m'' = CHR ''m''" "c_tolower CHR ''f'' = CHR ''f''"
      "c_tolower CHR ''i'' = CHR ''i''" "c_tolower CHR ''l'' = CHR ''l''" "c_tolower CHR ''e'' = CHR ''e''"
    by code_simp+
  have "map_of (files (sdb ?s')) ''f'' = None"
    by (simp add: handle_command_def lower is_abuser_def demo_server_def set_chan_def new_server_def
        limits_of_def rl_allow_def new_limiter_def set_limits_def command_map_def cmd_rmfile_def the_user_def
        fil_get_def demo_file_db_def row_metadata_def fil_delete_def delete_files_def frame_simps Let_def)
  moreover have "map_of (files (sdb ?s)) ''f'' \<noteq> None" by (simp add: demo_file_db_def)
  moreover have "keys_distinct (files (sdb ?s))" by (simp add: demo_file_db_def)
  ultimately show ?thesis
    using only_owner_or_operator_removes_file [of ?s demo_ctx ?cmd 7 "''f''"] by (simp add: Let_def)
qed

subsection \<open>Abuse\<close>

fun track_run :: "ctx \<Rightarrow> string \<Rightarrow> int list \<Rightarrow> server \<Rightarrow> server" where
  "track_run X u [] s = s"
| "track_run X u (t # ts) s = track_run X u ts (snd (track_abuse (X\<lparr>steady_now := t\<rparr>) u s))"

lemma track_abuse_record:
  "map_of (abuse_records (cmds (snd (track_abuse X u s)))) u =
    Some (let now = steady_now X;
          r = (case map_of (abuse_records (cmds s)) u of
                 None \<Rightarrow> \<lparr>ar_violations = 0, ar_first = now, ar_last = 0, ar_banned = False\<rparr> | Some r \<Rightarrow> r);
          r = (if now - ar_first r > kViolationWindow
               then r\<lparr>ar_violations := 0, ar_first := now, ar_banned := False\<rparr> else r);
          n = ar_violations r + 1
      in r\<lparr>ar_violations := n, ar_last := now, ar_banned := (n \<ge> kMaxViolations \<or> ar_banned r)\<rparr>)"
  by (simp add: track_abuse_def Let_def split: option.split)

lemma five_violations:
  assumes "map_of (abuse_records (cmds s)) u = None"
    and "t1 \<le> t2" "t2 \<le> t3" "t3 \<le> t4" "t4 \<le> t5" "t5 - t1 \<le> kViolationWindow"
  shows "map_of (abuse_records (cmds (track_run X u [t1, t2, t3, t4, t5] s))) u =
    Some \<lparr>ar_violations = 5, ar_first = t1, ar_last = t5, ar_banned = True\<rparr>"
  using assms by (simp add: track_abuse_record Let_def)

text \<open>
  Five violations within ten minutes ban a user for thirty minutes.  While the ban lasts every
  command is refused and the server's state does not change; afterwards the record is dropped and
  commands are taken again.
\<close>

theorem abuse_ban_lasts_thirty_minutes:
  assumes "map_of (abuse_records (cmds s)) u = None" and "u = the_user s i" and "irc_cmd cmd \<noteq> []"
    and "sorted [t1, t2, t3, t4, t5]" and "t5 - t1 \<le> mins 10" and "t5 \<le> steady_now X"
  shows "let s' = track_run X u [t1, t2, t3, t4, t5] s
         in if steady_now X \<le> t5 + mins 30
            then \<not> cr_success (fst (handle_command X cmd i s')) \<and> snd (handle_command X cmd i s') = s'
            else is_abuser X u s' = (False, s'\<lparr>cmds := (cmds s')\<lparr>abuse_records := mdel u (abuse_records (cmds s'))\<rparr>\<rparr>)"
proof -
  let ?s = "track_run X u [t1, t2, t3, t4, t5] s"
  have rec: "map_of (abuse_records (cmds ?s)) u =
      Some \<lparr>ar_violations = 5, ar_first = t1, ar_last = t5, ar_banned = True\<rparr>"
    using assms(1,4,5) by (intro five_violations) auto
  have "sess (track_run X u ts s) = sess s" for ts
    by (induction ts arbitrary: s) (simp_all add: frame_simps)
  then have "the_user ?s i = u" using assms(2) by (simp only: the_user_def)
  moreover have "is_abuser X u ?s =
      (if steady_now X \<le> t5 + mins 30 then (True, ?s)
       else (False, ?s\<lparr>cmds := (cmds ?s)\<lparr>abuse_records := mdel u (abuse_records (cmds ?s))\<rparr>\<rparr>))"
    unfolding is_abuser_def rec option.case by simp
  ultimately show ?thesis
    using assms(3) by (simp add: handle_command_def make_response_def Let_def del: track_run.simps)
qed

theorem abuse_ban_lasts_thirty_minutes_witness:
  "\<not> cr_success (fst (handle_command (demo_ctx\<lparr>steady_now := mins 20\<rparr>) \<lparr>irc_cmd = ''back'', irc_args = []\<rparr> 7
      (track_run (demo_ctx\<lparr>steady_now := mins 20\<rparr>) ''bob'' [0, 1, 2, 3, 4] demo_server)))"
proof -
  have "map_of (abuse_records (cmds demo_server)) ''bob'' = None" "''bob'' = the_user demo_server 7"
    by (simp_all add: demo_server_def set_chan_def new_server_def the_user_def)
  from abuse_ban_lasts_thirty_minutes [OF this, of "\<lparr>irc_cmd = ''back'', irc_args = []\<rparr>" 0 1 2 3 4 "demo_ctx\<lparr>steady_now := mins 20\<rparr>"]
  show ?thesis by (simp add: Let_def del: track_run.simps)
qed

subsection \<open>What the commands do not guarantee\<close>

text \<open>A banned operator keeps the operator status, and so every power of an operator.\<close>

lemma banned_operator_stays_operator:
  assumes "normalize_channel_argument a = c" and "c \<noteq> []" and "chan_at s c = Some ch"
    and "the_user s i \<in> set (ch_operators ch)"
    and "resolve_target_user_id (nick_to_user_id (cmds s)) target = t" and "t \<in> set (ch_operators ch)"
  shows "is_operator (snd (cmd_ban X [a, target] i s)) c t \<and>
         (\<exists>ch'. chan_at (snd (cmd_ban X [a, target] i s)) c = Some ch' \<and> t \<in> set (ch_banned ch'))"
  using assms by (simp add: cmd_ban_def with_operator_def is_operator_def notify_defs Let_def)

text \<open>
  A nickname may equal another user's id: the id then resolves to the user who took the nickname.
  And a nickname may differ from one in use by case only, when the other user's id is spelled like it.
\<close>

lemma nick_may_shadow_user_id:
  "resolve_target_user_id (nick_to_user_id (cmds (snd (cmd_nick demo_ctx [''ann''] 7 demo_server)))) ''ann'' = ''bob''"
  by (simp add: cmd_nick_def resolve_target_user_id_def demo_server_def set_chan_def new_server_def
      nick_loop_frame broadcast_to_channel_frame display_nick_def the_user_def Let_def)

lemma nick_may_differ_by_case_only:
  "let s = demo_server\<lparr>cmds := (cmds demo_server)\<lparr>nick_to_user_id := [(''ANN'', ''ann'')]\<rparr>\<rparr>;
       m = nick_to_user_id (cmds (snd (cmd_nick demo_ctx [''ann''] 7 s)))
   in map_of m ''ANN'' = Some ''ann'' \<and> map_of m ''ann'' = Some ''bob'' \<and> nicknames_equal ''ANN'' ''ann''"
proof -
  have e: "nicknames_equal ''ANN'' ''ann''" by code_simp
  then show ?thesis
    by (simp add: cmd_nick_def resolve_target_user_id_def demo_server_def set_chan_def new_server_def
        nick_loop_frame broadcast_to_channel_frame display_nick_def the_user_def Let_def)
qed

text \<open>The reset fails, and deletes nothing, as soon as any user has uploaded a key.\<close>

lemma reset_fails_with_keys:
  "users d \<noteq> [] \<Longrightarrow> signed_prekeys d \<noteq> [] \<Longrightarrow> reset_db X d = (Some (sql_what X (Reset_table 0)), d)"
  by (simp add: reset_db_def)

end
