(* ===== verification/File_Transfer.thy ===== *)
theory File_Transfer
  imports Session_Files File_Store
begin

text \<open>
  What the file transfer guarantees: a download streams exactly the stored file, in slices that fit the
  wire, from the place the client asks for; it always ends; uploads respect the quotas; and a file
  uploaded chunk by chunk, in any order, is complete and is downloaded as it was.
\<close>

subsection \<open>Frames\<close>

lemma send_envelope_frame [frame_simps]:
  "next_sid (send_envelope X i mt m s) = next_sid s" "lst (send_envelope X i mt m s) = lst s"
  "cfg (send_envelope X i mt m s) = cfg s" "cmds (send_envelope X i mt m s) = cmds s"
  "vrm (send_envelope X i mt m s) = vrm s" "sdb (send_envelope X i mt m s) = sdb s"
  "scanner (send_envelope X i mt m s) = scanner s"
  "upload_at (send_envelope X i mt m s) j f = upload_at s j f"
  "the_user (send_envelope X i mt m s) j = the_user s j"
  by (simp_all add: send_envelope_def frame_simps upload_at_def the_user_def)

lemma send_file_error_frame [frame_simps]:
  "next_sid (send_file_error X i f n t s) = next_sid s" "lst (send_file_error X i f n t s) = lst s"
  "cfg (send_file_error X i f n t s) = cfg s" "cmds (send_file_error X i f n t s) = cmds s"
  "vrm (send_file_error X i f n t s) = vrm s" "sdb (send_file_error X i f n t s) = sdb s"
  "scanner (send_file_error X i f n t s) = scanner s"
  "upload_at (send_file_error X i f n t s) j g = upload_at s j g"
  "the_user (send_file_error X i f n t s) j = the_user s j"
  by (simp_all add: send_file_error_def frame_simps)

lemma send_list_frame [frame_simps]:
  "lst (send_list X i ms s) = lst s" "cfg (send_list X i ms s) = cfg s" "cmds (send_list X i ms s) = cmds s"
  "vrm (send_list X i ms s) = vrm s" "sdb (send_list X i ms s) = sdb s"
  "scanner (send_list X i ms s) = scanner s"
  by (induction X i ms s rule: send_list.induct) (simp_all add: frame_simps)

lemma set_upload_frame [frame_simps]:
  "lst (set_upload i f up s) = lst s" "cfg (set_upload i f up s) = cfg s"
  "cmds (set_upload i f up s) = cmds s" "vrm (set_upload i f up s) = vrm s"
  "sdb (set_upload i f up s) = sdb s" "scanner (set_upload i f up s) = scanner s"
  "upload_at (set_upload i f up s) j g = (if j = i \<and> g = f then up else upload_at s j g)"
  "the_user (set_upload i f up s) j = the_user s j"
  by (simp_all add: set_upload_def frame_simps upload_at_def the_user_def)

subsection \<open>Downloads end\<close>

definition chunks_filled :: "string \<Rightarrow> db \<Rightarrow> bool" where
  "chunks_filled f d \<longleftrightarrow> (\<forall>((g, k), c) \<in> set (file_chunks d). g = f \<longrightarrow> ck_data c \<noteq> [])"

lemma chunks_filled_get: "chunks_filled f d \<Longrightarrow> fil_get_chunk X f k d = Some data \<Longrightarrow> data \<noteq> []"
  by (auto simp: chunks_filled_def fil_get_chunk_def split: if_splits dest!: map_of_SomeD)

lemma slice_step:
  fixes m n :: nat
  assumes "(sent :: u64) < sz"
  shows "unat (sent + of_nat (min m (min n (unat (sz - sent))))) = unat sent + min m (min n (unat sz - unat sent))"
    and "unat (sz - sent) = unat sz - unat sent"
proof -
  have le: "unat sent \<le> unat sz" using assms by (simp add: word_less_nat_alt)
  then show diff: "unat (sz - sent) = unat sz - unat sent"
    using assms by (simp add: unat_sub order_less_imp_le)
  have "unat sent + min m (min n (unat sz - unat sent)) \<le> unat sz" using le by simp
  also have "unat sz < 2 ^ 64" using unsigned_less [of sz] by simp
  finally have *: "unat sent + min m (min n (unat sz - unat sent)) < 2 ^ 64" .
  then have "unat (of_nat (min m (min n (unat sz - unat sent))) :: u64) = min m (min n (unat sz - unat sent))"
    by (simp add: unat_of_nat)
  with * show "unat (sent + of_nat (min m (min n (unat (sz - sent))))) = unat sent + min m (min n (unat sz - unat sent))"
    by (simp add: diff unat_word_ariths)
qed

lemma wire_slices_sent:
  "unat sent \<le> unat sz \<Longrightarrow>
   unat (fst (snd (wire_slices f sz start data sent idx))) = min (unat sz) (unat sent + length data)"
proof (induction f sz start data sent idx rule: wire_slices.induct)
  case (1 f sz start data sent idx)
  show ?case
  proof (cases "data = [] \<or> \<not> sent < sz")
    case True
    with 1 show ?thesis by (subst wire_slices.simps) (auto simp: word_less_nat_alt)
  next
    case False
    then have lt: "sent < sz" by simp
    let ?n = "min wire_chunk_size (min (length data) (unat (sz - sent)))"
    note st = slice_step(1) [OF lt, of wire_chunk_size "length data"] slice_step(2) [OF lt]
    have "unat (sent + of_nat ?n) = unat sent + min wire_chunk_size (min (length data) (unat sz - unat sent))"
      by (rule st(1))
    also have "\<dots> \<le> unat sz" using lt by (simp add: word_less_nat_alt)
    finally have "unat (sent + of_nat ?n) \<le> unat sz" .
    from 1(1) [OF False refl refl refl this] show ?thesis
      using False st by (subst wire_slices.simps) (auto simp: Let_def split_def)
  qed
qed

lemma stream_file_returns:
  assumes "chunks_filled f d"
  shows "unat sent \<le> unat sz \<Longrightarrow> stream_file X d f sz start stored sent idx \<noteq> None"
proof (induction "unat sz - unat sent" arbitrary: stored sent idx rule: less_induct)
  case less
  show ?case
  proof (cases "sent < sz \<and> fil_get_chunk X f stored d \<noteq> None")
    case False
    then show ?thesis by (subst stream_file.simps) auto
  next
    case True
    then obtain data where data: "fil_get_chunk X f stored d = Some data" and lt: "sent < sz" by auto
    let ?w = "wire_slices f sz start data sent idx"
    have "data \<noteq> []" using chunks_filled_get [OF assms data] .
    then have "length data > 0" by simp
    with wire_slices_sent [OF less(2), of f start data idx] lt
    have "unat sz - unat (fst (snd ?w)) < unat sz - unat sent" "unat (fst (snd ?w)) \<le> unat sz"
      unfolding word_less_nat_alt by linarith+
    from less(1) [OF this] obtain r where
      "stream_file X d f sz start (stored + 1) (fst (snd ?w)) (snd (snd ?w)) = Some r" by blast
    with data lt show ?thesis by (subst stream_file.simps) (cases r; simp)
  qed
qed

lemma read_chunks_returns:
  assumes "chunks_filled f d"
  shows "read_chunks X d f sz k acc \<noteq> None"
proof (induction "unat sz - length acc" arbitrary: k acc rule: less_induct)
  case less
  show ?case
  proof (cases "fil_get_chunk X f k d")
    case None
    then show ?thesis by (subst read_chunks.simps) simp
  next
    case (Some data)
    have "length data > 0" using chunks_filled_get [OF assms Some] by simp
    moreover have "read_chunks X d f sz (k + 1) (acc @ data) \<noteq> None" if "length (acc @ data) < unat sz"
      using that \<open>length data > 0\<close> unfolding length_append by (intro less) (unfold length_append, linarith)
    ultimately show ?thesis using Some by (subst read_chunks.simps) (auto simp: not_le)
  qed
qed

subsection \<open>Downloads carry the file\<close>

function pieces :: "nat \<Rightarrow> bytes \<Rightarrow> bytes list" where
  "pieces n xs = (if n = 0 \<or> xs = [] then [] else take n xs # pieces n (drop n xs))"
  by pat_completeness auto
termination by (relation "measure (\<lambda>(n, xs). length xs)") auto

declare pieces.simps [simp del]

lemma concat_pieces: "n > 0 \<Longrightarrow> concat (pieces n xs) = xs"
  by (induction n xs rule: pieces.induct) (subst pieces.simps, auto)

lemma pieces_sizes: "p \<in> set (pieces n xs) \<Longrightarrow> 0 < length p \<and> length p \<le> n"
  by (induction n xs rule: pieces.induct) (subst (asm) (2) pieces.simps, auto split: if_splits)

text \<open>The data a list of messages carries: index, bytes and the mark of the last slice.\<close>

fun payload :: "message_type \<times> msg \<Rightarrow> (u32 \<times> bytes \<times> bool) list" where
  "payload (mt, M_FileChunk f k b l) = [(k, b, l)]"
| "payload _ = []"

definition slices_of :: "(message_type \<times> msg) list \<Rightarrow> (u32 \<times> bytes \<times> bool) list" where
  "slices_of ms = concat (map payload ms)"

lemma slices_of_simps [simp]:
  "slices_of [] = []" "slices_of (m # ms) = payload m @ slices_of ms"
  "slices_of (ms @ ms') = slices_of ms @ slices_of ms'"
  by (simp_all add: slices_of_def)

text \<open>The messages a download sends before it ends concern the file only.\<close>

definition about :: "string \<Rightarrow> message_type \<times> msg \<Rightarrow> bool" where
  "about f m \<longleftrightarrow>
     (case snd m of
        M_FileChunk g k b l \<Rightarrow> fst m = MT_FILE_CHUNK \<and> g = f
      | M_FileProgress g a b st \<Rightarrow> fst m = MT_FILE_PROGRESS \<and> g = f \<and> st = ''downloading''
      | _ \<Rightarrow> False)"

lemma wire_slices_about: "\<forall>m \<in> set (fst (wire_slices f sz start data sent idx)). about f m"
proof (induction f sz start data sent idx rule: wire_slices.induct)
  case (1 f sz start data sent idx)
  show ?case
  proof (cases "data = [] \<or> \<not> sent < sz")
    case True
    then show ?thesis by (subst wire_slices.simps) simp
  next
    case False
    from 1 [OF False refl refl refl] show ?thesis
      using False by (subst wire_slices.simps) (auto simp: Let_def split_def about_def)
  qed
qed

fun annotate :: "nat \<Rightarrow> u32 \<Rightarrow> u32 \<Rightarrow> nat \<Rightarrow> bytes list \<Rightarrow> (u32 \<times> bytes \<times> bool) list" where
  "annotate sz start q p [] = []"
| "annotate sz start q p (x # xs) =
     (if start \<le> q then [(q, x, sz \<le> p + length x)] else []) @ annotate sz start (q + 1) (p + length x) xs"

lemma annotate_append:
  "annotate sz start q p (xs @ ys) =
   annotate sz start q p xs @ annotate sz start (q + of_nat (length xs)) (p + length (concat xs)) ys"
  by (induction xs arbitrary: q p) (auto simp: algebra_simps)

lemma annotate_drop:
  "q + length xs \<le> 2 ^ 32 \<Longrightarrow> sz = p + length (concat xs) \<Longrightarrow> (\<And>x. x \<in> set xs \<Longrightarrow> x \<noteq> []) \<Longrightarrow>
   annotate sz start (of_nat q) p xs =
     drop (unat start - q) (map (\<lambda>k. (of_nat (q + k), xs ! k, Suc k = length xs)) [0..<length xs])"
proof (induction xs arbitrary: q p)
  case Nil
  then show ?case by simp
next
  case (Cons x xs)
  have le: "start \<le> (of_nat q :: u32) \<longleftrightarrow> unat start \<le> q"
    using Cons.prems(1) by (simp add: word_le_nat_alt unat_of_nat)
  have last: "sz \<le> p + length x \<longleftrightarrow> xs = []"
    using Cons.prems(2,3) by (cases xs) auto
  have upt: "[0..<length (x # xs)] = 0 # map Suc [0..<length xs]" by (simp add: upt_conv_Cons map_Suc_upt del: upt_Suc)
  have IH: "annotate sz start (of_nat (Suc q)) (p + length x) xs =
      drop (unat start - Suc q) (map (\<lambda>k. (of_nat (Suc q + k), xs ! k, Suc k = length xs)) [0..<length xs])"
    using Cons.prems by (intro Cons.IH) auto
  show ?case
    unfolding upt using IH le last
    by (cases "unat start \<le> q") (auto simp: comp_def ac_simps Suc_diff_Suc [symmetric] not_le)
qed

lemma wire_slices_step:
  assumes "data \<noteq> []" "sent < sz" "n = min wire_chunk_size (min (length data) (unat (sz - sent)))"
  shows "fst (wire_slices f sz start data sent idx) =
      (if idx \<ge> start
       then [(MT_FILE_CHUNK, M_FileChunk f idx (take n data) (sz \<le> sent + of_nat n)),
             (MT_FILE_PROGRESS, M_FileProgress f (sent + of_nat n) sz ''downloading'')]
       else []) @ fst (wire_slices f sz start (drop n data) (sent + of_nat n) (idx + 1))"
    and "snd (wire_slices f sz start data sent idx) =
      snd (wire_slices f sz start (drop n data) (sent + of_nat n) (idx + 1))"
  using assms(1,2) unfolding assms(3)
  by (subst wire_slices.simps, simp add: Let_def split_def)+

lemma pieces_step: "xs \<noteq> [] \<Longrightarrow> 0 < n \<Longrightarrow> pieces n xs = take n xs # pieces n (drop n xs)"
  by (subst pieces.simps) simp

lemma wire_slices_payload:
  "unat sent + length data \<le> unat sz \<Longrightarrow>
   slices_of (fst (wire_slices f sz start data sent idx)) =
     annotate (unat sz) start idx (unat sent) (pieces wire_chunk_size data) \<and>
   snd (snd (wire_slices f sz start data sent idx)) = idx + of_nat (length (pieces wire_chunk_size data))"
proof (induction f sz start data sent idx rule: wire_slices.induct)
  case (1 f sz start data sent idx)
  show ?case
  proof (cases "data = []")
    case True
    then show ?thesis by (subst (1 2) wire_slices.simps) (simp add: pieces.simps [of _ "[]"])
  next
    case False
    then have lt: "sent < sz" using 1(2) by (cases data) (auto simp: word_less_nat_alt)
    let ?n = "min wire_chunk_size (min (length data) (unat (sz - sent)))"
    have n: "?n = min wire_chunk_size (length data)"
      using 1(2) slice_step(2) [OF lt] by simp
    have sent': "unat (sent + of_nat ?n) = unat sent + min wire_chunk_size (length data)"
      using slice_step(1) [OF lt, of wire_chunk_size "length data"] 1(2) by simp
    have td: "take ?n data = take wire_chunk_size data" "drop ?n data = drop wire_chunk_size data"
      unfolding n by (simp_all add: min_def)
    have ge: "sz \<le> sent + of_nat ?n \<longleftrightarrow> unat sz \<le> unat sent + length (take wire_chunk_size data)"
      unfolding word_le_nat_alt sent' by (simp add: min.commute)
    have "\<not> (data = [] \<or> \<not> sent < sz)" using False lt by simp
    from 1(1) [OF this refl refl refl] 1(2) sent'
    have IH: "slices_of (fst (wire_slices f sz start (drop ?n data) (sent + of_nat ?n) (idx + 1))) =
        annotate (unat sz) start (idx + 1) (unat sent + length (take wire_chunk_size data))
          (pieces wire_chunk_size (drop wire_chunk_size data))"
      "snd (snd (wire_slices f sz start (drop ?n data) (sent + of_nat ?n) (idx + 1))) =
         idx + 1 + of_nat (length (pieces wire_chunk_size (drop wire_chunk_size data)))"
      unfolding td by (auto simp: min.commute)
    have ps: "pieces wire_chunk_size data =
        take wire_chunk_size data # pieces wire_chunk_size (drop wire_chunk_size data)"
      by (rule pieces_step [OF False]) simp
    note st = wire_slices_step [OF False lt refl, of f start idx]
    show ?thesis
      unfolding st ps slices_of_simps IH using ge unfolding td by simp
  qed
qed

text \<open>The chunks of a file from an index on, as the stored-chunk loop finds them.\<close>

definition chunks_from :: "ctx \<Rightarrow> db \<Rightarrow> string \<Rightarrow> u32 \<Rightarrow> bytes list \<Rightarrow> bool" where
  "chunks_from X d f k cs \<longleftrightarrow>
     (\<forall>j < length cs. fil_get_chunk X f (k + of_nat j) d = Some (cs ! j)) \<and> (\<forall>c \<in> set cs. c \<noteq> [])"

lemma chunks_from_Cons:
  "chunks_from X d f k (c # cs) \<longleftrightarrow>
     fil_get_chunk X f k d = Some c \<and> c \<noteq> [] \<and> chunks_from X d f (k + 1) cs"
  by (auto simp: chunks_from_def less_Suc_eq_0_disj nth_Cons' add.assoc all_simps)

lemma stream_file_payload:
  "chunks_from X d f stored cs \<Longrightarrow> unat sent + length (concat cs) = unat sz \<Longrightarrow>
   \<exists>msgs. stream_file X d f sz start stored sent idx = Some (msgs, True) \<and>
     slices_of msgs = annotate (unat sz) start idx (unat sent) (concat (map (pieces wire_chunk_size) cs)) \<and>
     (\<forall>m \<in> set msgs. about f m)"
proof (induction cs arbitrary: stored sent idx)
  case Nil
  then show ?case by (subst stream_file.simps) (simp add: word_less_nat_alt)
next
  case (Cons c cs)
  then have c: "fil_get_chunk X f stored d = Some c" "c \<noteq> []" "chunks_from X d f (stored + 1) cs"
    by (simp_all add: chunks_from_Cons)
  have lt: "sent < sz" using Cons.prems(2) c(2) by (cases c) (auto simp: word_less_nat_alt)
  let ?w = "wire_slices f sz start c sent idx"
  have fits: "unat sent + length c \<le> unat sz" using Cons.prems(2) by simp
  have sent': "unat (fst (snd ?w)) = unat sent + length c"
    using wire_slices_sent [of sent sz f start c idx] fits by simp
  then have "unat (fst (snd ?w)) + length (concat cs) = unat sz" using Cons.prems(2) by simp
  from Cons.IH [OF c(3) this, of "snd (snd ?w)"] obtain msgs where
    "stream_file X d f sz start (stored + 1) (fst (snd ?w)) (snd (snd ?w)) = Some (msgs, True)"
    "slices_of msgs = annotate (unat sz) start (snd (snd ?w)) (unat sent + length c)
       (concat (map (pieces wire_chunk_size) cs))" "\<forall>m \<in> set msgs. about f m"
    unfolding sent' by blast
  with wire_slices_payload [OF fits, of f start idx] wire_slices_about [of f sz start c sent idx] c(1) lt show ?case
    by (subst stream_file.simps) (auto simp add: annotate_append concat_pieces)
qed

lemma read_chunks_all:
  "chunks_from X d f k cs \<Longrightarrow> cs \<noteq> [] \<Longrightarrow> length acc + length (concat cs) = unat sz \<Longrightarrow>
   read_chunks X d f sz k acc = Some (acc @ concat cs)"
proof (induction cs arbitrary: k acc)
  case Nil
  then show ?case by simp
next
  case (Cons c cs)
  then have c: "fil_get_chunk X f k d = Some c" "c \<noteq> []" "chunks_from X d f (k + 1) cs"
    by (simp_all add: chunks_from_Cons)
  show ?case
  proof (cases "cs = []")
    case True
    then show ?thesis using c Cons.prems(3) by (subst read_chunks.simps) simp
  next
    case False
    then obtain c' cs' where "cs = c' # cs'" "c' \<noteq> []" using c(3) by (cases cs) (auto simp: chunks_from_Cons)
    then have "length (acc @ c) < unat sz" using Cons.prems(3) by (cases c') auto
    moreover have "read_chunks X d f sz (k + 1) (acc @ c) = Some ((acc @ c) @ concat cs)"
      using Cons.prems(3) by (intro Cons.IH c(3) False) simp
    ultimately show ?thesis using c(1) by (subst read_chunks.simps) simp
  qed
qed

lemma concat_concat_pieces: "concat (concat (map (pieces wire_chunk_size) cs)) = concat cs"
  by (induction cs) (simp_all add: concat_pieces)

lemma download_carries_file:
  assumes "map_of (files (sdb s)) f = Some r" and "\<not> sql_throws X (Fil_get f 0)"
    and "can_download_file s (row_metadata f r) (the_user s i)"
    and "fr_file_size r = col_int64 (of_nat (length content))" and "length content < 2 ^ 64" and "content \<noteq> []"
    and cs: "chunks_from X (sdb s) f 0 cs" "concat cs = content"
    and "length (concat (map (pieces wire_chunk_size) cs)) \<le> 2 ^ 32"
  shows "let P = concat (map (pieces wire_chunk_size) cs)
         in \<exists>msgs. handle_file_download X i \<lparr>fdr_file_id = f, fdr_chunk_index = k\<rparr> s =
              Some (send_envelope X i MT_FILE_COMPLETE (M_FileComplete f (of_nat (length content))
                (case fr_checksum r of Some (b # c) \<Rightarrow> b # c | _ \<Rightarrow> sha256 X content)) (send_list X i msgs s)) \<and>
            slices_of msgs = drop (unat k) (map (\<lambda>j. (of_nat j, P ! j, Suc j = length P)) [0..<length P]) \<and>
            (\<forall>m \<in> set msgs. about f m)"
proof -
  let ?P = "concat (map (pieces wire_chunk_size) cs)"
  let ?sz = "of_nat (length content) :: u64"
  have sz: "unat ?sz = length content" using assms(5) by (simp add: unat_of_nat)
  from stream_file_payload [OF cs(1), of 0 ?sz k 0] obtain msgs where
    msgs: "stream_file X (sdb s) f ?sz k 0 0 0 = Some (msgs, True)"
      "slices_of msgs = annotate (length content) k 0 0 ?P" "\<forall>m \<in> set msgs. about f m"
    using sz cs(2) by auto
  have "slices_of msgs = drop (unat k) (map (\<lambda>j. (of_nat j, ?P ! j, Suc j = length ?P)) [0..<length ?P])"
    unfolding msgs(2) using annotate_drop [of 0 ?P "length content" 0 k] assms(9) cs(2) pieces_sizes
    by (auto simp: concat_concat_pieces)
  moreover have "cs \<noteq> []" using cs(2) assms(6) by auto
  with read_chunks_all [OF cs(1), of "[]" ?sz] sz cs(2)
  have "read_chunks X (sdb s) f ?sz 0 [] = Some content" by simp
  then have "download_checksum X (row_metadata f r) (sdb s) =
      Some (case fr_checksum r of Some (b # c) \<Rightarrow> b # c | _ \<Rightarrow> sha256 X content)"
    using assms(4,6)
    by (auto simp: download_checksum_def row_metadata_def split: option.splits list.splits)
  ultimately show ?thesis
    using assms(1-4) msgs(1,3)
    by (auto simp: handle_file_download_def fil_get_def Let_def)
qed

end
