(* ===== verification/File_Roundtrip.thy ===== *)
theory File_Roundtrip
  imports File_Transfer
begin

text \<open>
  Uploading and downloading together: the upload state of a session agrees with the chunks in the
  database, whatever the order in which the chunks arrive, and the completed file is the one sent.
\<close>

subsection \<open>Sizes\<close>

definition n_chunks :: "nat \<Rightarrow> bytes \<Rightarrow> nat" where
  "n_chunks c content = (length content + c - 1) div c"

lemma less_n_chunks: "c > 0 \<Longrightarrow> k < n_chunks c content \<longleftrightarrow> k * c < length content"
  using less_eq_div_iff_mult_less_eq [of c "Suc k" "length content + c - 1"]
  by (auto simp: n_chunks_def Suc_le_eq)

lemma length_chunk_of: "length (chunk_of c content k) = min c (length content - k * c)"
  by (simp add: chunk_of_def min.commute)

lemma chunk_of_nonempty: "c > 0 \<Longrightarrow> k < n_chunks c content \<Longrightarrow> chunk_of c content k \<noteq> []"
  by (auto simp: less_n_chunks chunk_of_def)

lemma all_chunks: "c > 0 \<Longrightarrow> concat (map (chunk_of c content) [0..<n_chunks c content]) = content"
  using less_n_chunks [of c "n_chunks c content" content] by (simp add: concat_chunks)

lemma sum_chunks:
  assumes "c > 0"
  shows "(\<Sum>k < n_chunks c content. length (chunk_of c content k)) = length content"
proof -
  have "(\<Sum>k < n_chunks c content. length (chunk_of c content k))
      = sum_list (map (length \<circ> chunk_of c content) [0..<n_chunks c content])"
    by (simp add: interv_sum_list_conv_sum_set_nat atLeast0LessThan comp_def)
  also have "\<dots> = length (concat (map (chunk_of c content) [0..<n_chunks c content]))"
    by (simp add: length_concat comp_def)
  finally show ?thesis by (simp add: all_chunks assms)
qed

text \<open>The sizes an upload works with fit the machine words.\<close>

definition upload_fits :: "nat \<Rightarrow> bytes \<Rightarrow> bool" where
  "upload_fits c content \<longleftrightarrow>
     0 < c \<and> c < 2 ^ 32 \<and> content \<noteq> [] \<and> length content + c < 2 ^ 64 \<and> n_chunks c content < 2 ^ 32"

lemma of_nat_u32_inject: "a < 2 ^ 32 \<Longrightarrow> b < 2 ^ 32 \<Longrightarrow> (of_nat a :: u32) = of_nat b \<longleftrightarrow> a = b"
  by (metis unat_of_nat_u32)

lemma expected_chunk_size_chunk:
  assumes "upload_fits c content" and "k < n_chunks c content"
  shows "unat (expected_chunk_size (of_nat (length content)) (of_nat c) (of_nat (n_chunks c content)) (of_nat k))
    = length (chunk_of c content k)"
proof -
  let ?L = "length content" and ?n = "n_chunks c content"
  have b: "0 < c" "c < 2 ^ 32" "?L < 2 ^ 64" "?n < 2 ^ 32" using assms(1) by (auto simp: upload_fits_def)
  have off: "k * c < ?L" using assms(2) less_n_chunks b(1) by blast
  obtain x :: u64 where x_def: "x = ucast (of_nat k :: u32) * ucast (of_nat c :: u32)" by simp
  obtain w :: u64 where w_def: "w = ucast (of_nat c :: u32)" by simp
  obtain L :: u64 where L_def: "L = of_nat ?L" by simp
  have uo: "unat x = k * c"
    unfolding x_def using b assms(2) off
    by (simp add: unat_word_ariths unat_of_nat unsigned_ucast_eq take_bit_nat_def)
  have uw: "unat w = c"
    unfolding w_def using b(2) by (simp add: unat_of_nat unsigned_ucast_eq take_bit_nat_def)
  have uL: "unat L = ?L" unfolding L_def using b(3) by (simp add: unat_of_nat)
  have lt: "\<not> L \<le> x" using off by (simp add: word_le_nat_alt uo uL)
  have sub: "unat (L - x) = ?L - k * c" using lt by (simp add: unat_sub uo uL)
  have n0: "(of_nat ?n :: u32) \<noteq> 0"
    using assms(2) b(4) of_nat_u32_inject [of ?n 0] by simp
  have "(of_nat k :: u32) + 1 = of_nat (Suc k)" by simp
  moreover have "(of_nat (Suc k) :: u32) = of_nat ?n \<longleftrightarrow> Suc k = ?n"
    using assms(2) b(4) by (intro of_nat_u32_inject) simp_all
  ultimately have last: "(of_nat k :: u32) + 1 = of_nat ?n \<longleftrightarrow> Suc k = ?n" by (simp only:)
  have tail: "?L - k * c \<le> c" if "Suc k = ?n"
    using less_n_chunks [OF b(1), of "Suc k" content] unfolding that [symmetric] by simp
  have "expected_chunk_size L (of_nat c) (of_nat ?n) (of_nat k) = (if Suc k = ?n then L - x else min w (L - x))"
    unfolding expected_chunk_size_def Let_def x_def [symmetric] unfolding w_def [symmetric]
    using n0 lt last by simp
  then show ?thesis
    using sub uw tail by (auto simp: length_chunk_of min_def word_le_nat_alt simp flip: L_def)
qed

subsection \<open>An upload in progress\<close>

definition chunk_msg :: "string \<Rightarrow> nat \<Rightarrow> bytes \<Rightarrow> bytes \<Rightarrow> nat \<Rightarrow> bool \<Rightarrow> file_upload_chunk" where
  "chunk_msg f c content check k l =
     \<lparr>fuc_file_id = f, fuc_chunk_index = of_nat k, fuc_data = chunk_of c content k, fuc_is_last = l,
      fuc_checksum = check\<rparr>"

definition bytes_of :: "nat \<Rightarrow> bytes \<Rightarrow> nat set \<Rightarrow> nat" where
  "bytes_of c content R = (\<Sum>k \<in> R. length (chunk_of c content k))"

text \<open>The chunks \<open>R\<close> of the file have arrived.\<close>

definition arrived :: "ctx \<Rightarrow> sid \<Rightarrow> string \<Rightarrow> nat \<Rightarrow> bytes \<Rightarrow> nat set \<Rightarrow> server \<Rightarrow> bool" where
  "arrived X i f c content R s \<longleftrightarrow>
     upload_at s i f = Some \<lparr>up_file_id = f, up_file_size = of_nat (length content), up_chunk_size = of_nat c,
       up_total_chunks = of_nat (n_chunks c content),
       up_received = map (\<lambda>k. k \<in> R) [0..<n_chunks c content], up_bytes = of_nat (bytes_of c content R)\<rparr> \<and>
     R \<subseteq> {..<n_chunks c content} \<and>
     (\<forall>k \<in> R. fil_get_chunk X f (of_nat k) (sdb s) = Some (chunk_of c content k))"

lemma bytes_of_le:
  assumes "c > 0" "R \<subseteq> {..<n_chunks c content}"
  shows "bytes_of c content R \<le> length content"
proof -
  have "bytes_of c content R \<le> (\<Sum>k < n_chunks c content. length (chunk_of c content k))"
    unfolding bytes_of_def using assms(2) by (intro sum_mono2) auto
  then show ?thesis by (simp only: sum_chunks [OF assms(1)])
qed

lemma chunk_error_None:
  assumes "upload_fits c content" "arrived X i f c content R s" "k < n_chunks c content" "k \<notin> R"
    and "upload_at s i f = Some up"
  shows "chunk_error up (chunk_msg f c content check k l) = None"
proof -
  have k: "unat (of_nat k :: u32) = k" and n: "unat (of_nat (n_chunks c content) :: u32) = n_chunks c content"
    using assms(1,3) by (simp_all add: upload_fits_def unat_of_nat_u32)
  have "chunk_of c content k \<noteq> []"
    using assms(1,3) chunk_of_nonempty by (auto simp: upload_fits_def)
  with expected_chunk_size_chunk [OF assms(1,3)] have
    "expected_chunk_size (of_nat (length content)) (of_nat c) (of_nat (n_chunks c content)) (of_nat k) \<noteq> 0"
    by auto
  with assms k n expected_chunk_size_chunk [OF assms(1,3)] show ?thesis
    by (auto simp: chunk_error_def chunk_msg_def arrived_def word_le_nat_alt)
qed

definition file_known :: "string \<Rightarrow> server \<Rightarrow> bool" where
  "file_known f s \<longleftrightarrow> map_of (files (sdb s)) f \<noteq> None"

text \<open>The state after an accepted chunk, before the last-chunk mark is looked at.\<close>

definition after_chunk :: "ctx \<Rightarrow> sid \<Rightarrow> string \<Rightarrow> nat \<Rightarrow> bytes \<Rightarrow> nat set \<Rightarrow> nat \<Rightarrow> server \<Rightarrow> server" where
  "after_chunk X i f c content R k s =
     (let up = \<lparr>up_file_id = f, up_file_size = of_nat (length content), up_chunk_size = of_nat c,
            up_total_chunks = of_nat (n_chunks c content),
            up_received = map (\<lambda>j. j \<in> insert k R) [0..<n_chunks c content],
            up_bytes = of_nat (bytes_of c content (insert k R))\<rparr>
      in send_envelope X i MT_FILE_PROGRESS (M_FileProgress f (up_bytes up) (up_file_size up) ''uploading'')
           (set_upload i f (Some up)
              (s\<lparr>sdb := snd (fil_store_chunk X f (of_nat k) (chunk_of c content k) (sdb s))\<rparr>)))"

lemma handle_chunk:
  assumes "upload_fits c content" "arrived X i f c content R s" "k < n_chunks c content" "k \<notin> R"
    and "quiet X" "file_known f s" "checksum_matches X (chunk_of c content k) check"
  shows "handle_file_upload X i (chunk_msg f c content check k l) s =
      (if l then finish_upload X i f (the (upload_at (after_chunk X i f c content R k s) i f))
              (after_chunk X i f c content R k s)
       else after_chunk X i f c content R k s)"
    and "arrived X i f c content (insert k R) (after_chunk X i f c content R k s)"
    and "file_known f (after_chunk X i f c content R k s)"
proof -
  have c: "c > 0" using assms(1) by (simp add: upload_fits_def)
  have known: "fil_known X f (sdb s)" using assms(5,6) by (simp add: fil_known_def file_known_def)
  have ne: "chunk_of c content k \<noteq> []" using chunk_of_nonempty [OF c assms(3)] .
  obtain d where d: "fil_store_chunk X f (of_nat k) (chunk_of c content k) (sdb s) = (True, d)"
    using ch.put_done [OF known ne, of "of_nat k"] by (cases "fil_store_chunk X f (of_nat k) (chunk_of c content k) (sdb s)") simp
  have get: "fil_get_chunk X f j d = (if j = of_nat k then Some (chunk_of c content k) else fil_get_chunk X f j (sdb s))" for j
    using ch.put_get [OF known ne, of f j "of_nat k"] d by simp
  have sub: "insert k R \<subseteq> {..<n_chunks c content}" and fin: "finite R"
    using assms(2,3) finite_subset [of R "{..<n_chunks c content}"] by (auto simp: arrived_def)
  have bytes: "bytes_of c content (insert k R) = length (chunk_of c content k) + bytes_of c content R"
    using assms(4) fin by (simp add: bytes_of_def)
  have le: "bytes_of c content (insert k R) \<le> length content" by (rule bytes_of_le [OF c sub])
  have "length content < 2 ^ 64" using assms(1) by (simp add: upload_fits_def)
  with le have notover: "\<not> (of_nat (length content) :: u64) < of_nat (bytes_of c content (insert k R))"
    by (simp add: word_less_nat_alt unat_of_nat)
  have k: "unat (of_nat k :: u32) = k" using assms(1,3) by (simp add: upload_fits_def unat_of_nat_u32)
  have "(map (\<lambda>j. j \<in> R) [0..<n_chunks c content])[k := True] = map (\<lambda>j. j \<in> insert k R) [0..<n_chunks c content]"
    by (rule nth_equalityI) (use assms(3) in \<open>auto simp: nth_list_update\<close>)
  then show "handle_file_upload X i (chunk_msg f c content check k l) s =
      (if l then finish_upload X i f (the (upload_at (after_chunk X i f c content R k s) i f))
              (after_chunk X i f c content R k s)
       else after_chunk X i f c content R k s)"
    using assms(2,7) chunk_error_None [OF assms(1-4)] d notover bytes k
    by (simp add: handle_file_upload_def chunk_msg_def arrived_def note_chunk_def after_chunk_def Let_def
        frame_simps add.commute)
  have inj: "(of_nat j :: u32) = of_nat k \<longleftrightarrow> j = k" if "j \<in> R" for j
    using that sub assms(1) by (intro of_nat_u32_inject) (auto simp: upload_fits_def)
  show "arrived X i f c content (insert k R) (after_chunk X i f c content R k s)"
    using assms(2) sub get d inj by (auto simp: arrived_def after_chunk_def Let_def frame_simps)
  show "file_known f (after_chunk X i f c content R k s)"
    using assms(6) ch.put_known [of X f f "of_nat k" "chunk_of c content k" "sdb s"] assms(5) d
    by (simp add: file_known_def after_chunk_def Let_def frame_simps fil_known_def)
qed

lemma after_chunk_frame [frame_simps]:
  "files (sdb (after_chunk X i f c content R k s)) = files (sdb s)"
  "cmds (after_chunk X i f c content R k s) = cmds s" "scanner (after_chunk X i f c content R k s) = scanner s"
  "the_user (after_chunk X i f c content R k s) j = the_user s j"
  by (simp_all add: after_chunk_def Let_def frame_simps fil_store_chunk_def)
    (simp add: the_user_def)?

subsection \<open>Completion\<close>

definition scan_passes :: "ctx \<Rightarrow> bytes \<Rightarrow> scanner_manager \<Rightarrow> bool" where
  "scan_passes X data m \<longleftrightarrow>
     sm_enabled m \<and> sm_configured m \<longrightarrow> \<not> sr_error (fst (sm_scan X data m)) \<and> sr_clean (fst (sm_scan X data m))"

lemma scan_upload_passes:
  assumes "scan_passes X data (scanner s)"
  obtains v m where "scan_upload X data s = (v, s\<lparr>scanner := m\<rparr>)"
    and "v = None \<or> (\<exists>r. v = Some r \<and> \<not> sr_error r \<and> sr_clean r)"
proof (cases "sm_enabled (scanner s) \<and> sm_configured (scanner s)")
  case True
  with assms that [of "Some (fst (sm_scan X data (scanner s)))" "snd (sm_scan X data (scanner s))"]
  show thesis by (simp add: scan_upload_def scan_passes_def split_def Let_def)
next
  case False
  with that [of None "scanner s"] show thesis by (simp add: scan_upload_def)
qed

lemma assembled_chunks:
  assumes "upload_fits c content" "arrived X i f c content {..<n_chunks c content} s"
  shows "assembled_file X f (of_nat (n_chunks c content)) (sdb s) = content"
proof -
  have n: "unat (of_nat (n_chunks c content) :: u32) = n_chunks c content"
    using assms(1) by (simp add: upload_fits_def unat_of_nat_u32)
  have "map (\<lambda>k. case fil_get_chunk X f (of_nat k) (sdb s) of None \<Rightarrow> [] | Some b \<Rightarrow> b) [0..<n_chunks c content]
      = map (chunk_of c content) [0..<n_chunks c content]"
    using assms(2) by (intro map_cong) (auto simp: arrived_def)
  then show ?thesis
    using assms(1) all_chunks [of c content] unfolding assembled_file_def n upload_fits_def by (simp only:)
qed

lemma file_after_upd: "map_of (files (upd_file f g d)) k = map_option (if k = f then g else id) (map_of (files d) k)"
proof -
  have "map_of (map (\<lambda>(k, r). (k, if k = f then g r else r)) m) k = map_option (if k = f then g else id) (map_of m k)"
    for m :: "(string \<times> file_row) list" by (induction m) auto
  then show ?thesis by (simp add: upd_file_def)
qed

lemma complete_upload_state:
  assumes "quiet X" "map_of (files (sdb s)) f = Some row" "sha256 X data \<noteq> []"
  shows "upload_at (complete_upload X i f up data s) i f = None"
    and "map_of (files (sdb (complete_upload X i f up data s))) f =
      Some (row\<lparr>fr_is_complete := True, fr_checksum := Some (sha256 X data)\<rparr>)"
    and "file_chunks (sdb (complete_upload X i f up data s)) = file_chunks (sdb s)"
    and "cmds (complete_upload X i f up data s) = cmds s"
    and "the_user (complete_upload X i f up data s) j = the_user s j"
  using assms by (simp_all add: complete_upload_def Let_def frame_simps fil_mark_complete_def file_after_upd)
    (simp_all add: upd_file_def the_user_def frame_simps send_envelope_def set_upload_def)

lemma finish_upload_state:
  assumes "upload_fits c content" "arrived X i f c content {..<n_chunks c content} s" "quiet X"
    and "map_of (files (sdb s)) f = Some row" "sha256 X content \<noteq> []" "scan_passes X content (scanner s)"
    and "s' = finish_upload X i f (the (upload_at s i f)) s"
  shows "upload_at s' i f = None"
    and "map_of (files (sdb s')) f = Some (row\<lparr>fr_is_complete := True, fr_checksum := Some (sha256 X content)\<rparr>)"
    and "file_chunks (sdb s') = file_chunks (sdb s)" and "cmds s' = cmds s" and "the_user s' j = the_user s j"
proof -
  have "bytes_of c content {..<n_chunks c content} = length content"
    using assms(1) by (simp add: bytes_of_def sum_chunks upload_fits_def)
  moreover obtain v m where v: "scan_upload X content s = (v, s\<lparr>scanner := m\<rparr>)"
      "v = None \<or> (\<exists>r. v = Some r \<and> \<not> sr_error r \<and> sr_clean r)"
    using scan_upload_passes [OF assms(6)] .
  ultimately obtain up where s': "s' = complete_upload X i f up content (s\<lparr>scanner := m\<rparr>)"
    using assms(2,7) assembled_chunks [OF assms(1,2)] by (auto simp: finish_upload_def arrived_def Let_def)
  have row: "map_of (files (sdb (s\<lparr>scanner := m\<rparr>))) f = Some row" using assms(4) by simp
  note st = complete_upload_state [OF assms(3) row assms(5), of i up, folded s']
  show "upload_at s' i f = None" by (rule st)
  show "map_of (files (sdb s')) f = Some (row\<lparr>fr_is_complete := True, fr_checksum := Some (sha256 X content)\<rparr>)"
    by (rule st)
  show "file_chunks (sdb s') = file_chunks (sdb s)" "cmds s' = cmds s" "the_user s' j = the_user s j"
    using st by (simp_all add: the_user_def)
qed

subsection \<open>The whole transfer\<close>

text \<open>The client sends the chunks \<open>ks\<close> and marks the one it sends last.\<close>

fun send_chunks ::
  "ctx \<Rightarrow> sid \<Rightarrow> string \<Rightarrow> nat \<Rightarrow> bytes \<Rightarrow> (nat \<Rightarrow> bytes) \<Rightarrow> nat list \<Rightarrow> server \<Rightarrow> server" where
  "send_chunks X i f c content ck [] s = s"
| "send_chunks X i f c content ck (k # ks) s =
     send_chunks X i f c content ck ks (handle_file_upload X i (chunk_msg f c content (ck k) k (ks = [])) s)"

lemma send_chunks_state:
  assumes "upload_fits c content" "quiet X" "sha256 X content \<noteq> []"
    and ck: "\<And>k. checksum_matches X (chunk_of c content k) (ck k)"
  shows "arrived X i f c content R s \<Longrightarrow> distinct ks \<Longrightarrow> set ks \<inter> R = {} \<Longrightarrow> ks \<noteq> [] \<Longrightarrow>
    R \<union> set ks = {..<n_chunks c content} \<Longrightarrow> map_of (files (sdb s)) f = Some row \<Longrightarrow>
    scan_passes X content (scanner s) \<Longrightarrow> s' = send_chunks X i f c content ck ks s \<Longrightarrow>
    upload_at s' i f = None \<and> cmds s' = cmds s \<and> the_user s' j = the_user s j \<and>
    map_of (files (sdb s')) f = Some (row\<lparr>fr_is_complete := True, fr_checksum := Some (sha256 X content)\<rparr>) \<and>
    (\<forall>k < n_chunks c content. fil_get_chunk X f (of_nat k) (sdb s') = Some (chunk_of c content k))"
proof (induction ks arbitrary: R s)
  case Nil
  then show ?case by simp
next
  case (Cons k ks)
  let ?s = "after_chunk X i f c content R k s"
  have k: "k < n_chunks c content" "k \<notin> R" using Cons.prems(3,5) by auto
  have known: "file_known f s" using Cons.prems(6) by (simp add: file_known_def)
  note step = handle_chunk [OF assms(1) Cons.prems(1) k assms(2) known ck]
  have row: "map_of (files (sdb ?s)) f = Some row" using Cons.prems(6) by (simp add: frame_simps)
  have scan: "scan_passes X content (scanner ?s)" using Cons.prems(7) by (simp add: frame_simps)
  show ?case
  proof (cases "ks = []")
    case False
    have "s' = send_chunks X i f c content ck ks ?s" using Cons.prems(8) False step(1) by simp
    with Cons.IH [OF step(2) _ _ False _ row scan] Cons.prems(2-5) show ?thesis
      by (simp add: frame_simps)
  next
    case True
    then have all: "insert k R = {..<n_chunks c content}" using Cons.prems(5) by auto
    have arr: "arrived X i f c content {..<n_chunks c content} ?s" using step(2) unfolding all .
    have s': "s' = finish_upload X i f (the (upload_at ?s i f)) ?s" using Cons.prems(8) True step(1) by simp
    note fin = finish_upload_state [OF assms(1) arr assms(2) row assms(3) scan s']
    have "fil_get_chunk X f kk (sdb s') = fil_get_chunk X f kk (sdb ?s)" for kk
      by (simp add: fil_get_chunk_def fin(3))
    then show ?thesis using fin arr by (simp add: frame_simps arrived_def)
  qed
qed

lemma start_upload_arrived:
  assumes "upload_fits c content" "fur_file_id r = f" "fur_file_size r = of_nat (length content)"
    and "fur_chunk_size r = of_nat c"
  shows "start_upload r None = \<lparr>up_file_id = f, up_file_size = of_nat (length content), up_chunk_size = of_nat c,
       up_total_chunks = of_nat (n_chunks c content),
       up_received = map (\<lambda>k. k \<in> {}) [0..<n_chunks c content], up_bytes = of_nat (bytes_of c content {})\<rparr>"
proof -
  let ?L = "length content"
  have b: "0 < c" "c < 2 ^ 32" "?L + c < 2 ^ 64" "n_chunks c content < 2 ^ 32"
    using assms(1) by (auto simp: upload_fits_def)
  have c0: "(of_nat c :: u32) > 0" using b(1,2) by (simp add: word_less_nat_alt unat_of_nat)
  have uc: "unat (ucast (of_nat c :: u32) :: u64) = c"
    using b(2) by (simp add: unat_of_nat unsigned_ucast_eq take_bit_nat_def)
  have "unat (of_nat ?L + ucast (of_nat c :: u32) - 1 :: u64) = ?L + c - 1"
  proof -
    have "unat (of_nat ?L + ucast (of_nat c :: u32) :: u64) = ?L + c"
      using b(3) by (simp add: unat_word_ariths unat_of_nat uc)
    then show ?thesis using b(1) by (simp add: unat_sub word_le_nat_alt)
  qed
  then have "unat ((of_nat ?L + ucast (of_nat c :: u32) - 1 :: u64) div ucast (of_nat c :: u32)) = n_chunks c content"
    by (simp add: unat_div n_chunks_def uc)
  then have "unat (ucast ((of_nat ?L + ucast (of_nat c :: u32) - 1 :: u64) div ucast (of_nat c :: u32)) :: u32)
      = unat (of_nat (n_chunks c content) :: u32)"
    using b(4) by (simp add: unsigned_ucast_eq take_bit_nat_def unat_of_nat)
  then have n: "ucast ((of_nat ?L + ucast (of_nat c :: u32) - 1 :: u64) div ucast (of_nat c :: u32))
      = (of_nat (n_chunks c content) :: u32)"
    by (simp only: word_eq_iff_unsigned [where ?'a = nat])
  have flags: "resize_flags m [] = map (\<lambda>k. False) [0..<m]" for m
    by (simp add: resize_flags_def map_replicate_const)
  show ?thesis
    unfolding start_upload_def assms(2-4) Let_def if_P [OF c0] n
    using b(4) by (simp add: flags bytes_of_def unat_of_nat_u32)
qed

lemma transfer_roundtrip:
  assumes "upload_fits c content" "quiet X" "sha256 X content \<noteq> []"
    and ck: "\<And>k. checksum_matches X (chunk_of c content k) (ck k)"
    and r: "fur_file_id r = f" "fur_file_size r = of_nat (length content)" "fur_chunk_size r = of_nat c"
    and "file_request_error X i r s = None" "map_of (files (sdb s)) f = None" "upload_at s i f = None"
    and "scan_passes X content (scanner s)"
    and ks: "distinct ks" "set ks = {..<n_chunks c content}"
    and "can_download_file s (request_metadata (the_user s i) r) (the_user s j)"
    and P: "P = concat (map (pieces wire_chunk_size \<circ> chunk_of c content) [0..<n_chunks c content])"
      "length P \<le> 2 ^ 32"
    and s': "s' = send_chunks X i f c content ck ks (handle_file_request X i r s)"
  shows "upload_at s' i f = None \<and>
    (\<exists>row msgs. map_of (files (sdb s')) f = Some row \<and> fr_is_complete row \<and> fr_sender_id row = the_user s i \<and>
       fr_checksum row = Some (sha256 X content) \<and>
       handle_file_download X j \<lparr>fdr_file_id = f, fdr_chunk_index = n\<rparr> s' =
         Some (send_envelope X j MT_FILE_COMPLETE (M_FileComplete f (of_nat (length content)) (sha256 X content))
           (send_list X j msgs s')) \<and>
       slices_of msgs = drop (unat n) (map (\<lambda>j. (of_nat j, P ! j, Suc j = length P)) [0..<length P]) \<and>
       (\<forall>m \<in> set msgs. about f m) \<and> concat P = content)"
proof -
  let ?m = "request_metadata (the_user s i) r"
  have b: "0 < c" "length content < 2 ^ 64" "content \<noteq> []" "n_chunks c content < 2 ^ 32"
    using assms(1) by (auto simp: upload_fits_def)
  obtain d where d: "fil_create X ?m (sdb s) = (True, d)"
    using assms(2) \<open>map_of (files (sdb s)) f = None\<close> r(1) by (simp add: fil_create_def request_metadata_def Let_def)
  then obtain row where row: "map_of (files d) f = Some row" "fr_sender_id row = the_user s i"
      "fr_recipient_id row = fur_recipient_id r" "fr_channel_id row = fur_channel_id r"
      "fr_file_size row = col_int64 (of_nat (length content))"
    using assms(2) \<open>map_of (files (sdb s)) f = None\<close> r
    by (auto simp: fil_create_def request_metadata_def Let_def map_add_def split: if_splits)
  let ?s = "handle_file_request X i r s"
  have s1: "?s = send_envelope X i MT_FILE_PROGRESS (M_FileProgress f 0 (fur_file_size r) ''uploading'')
                    (set_upload i f (Some (start_upload r None)) (s\<lparr>sdb := d\<rparr>))"
    using d assms(8,10) r(1) by (simp add: handle_file_request_def Let_def)
  have arr: "arrived X i f c content {} ?s"
    unfolding s1 start_upload_arrived [OF assms(1) r] by (simp add: arrived_def frame_simps)
  have frame: "map_of (files (sdb ?s)) f = Some row" "cmds ?s = cmds s" "scanner ?s = scanner s"
      "the_user ?s j = the_user s j" for j
    unfolding s1 using row(1) by (simp_all add: frame_simps) (simp add: the_user_def)
  have "0 \<in> set ks" using less_n_chunks [OF b(1), of 0 content] b(3) unfolding ks(2) lessThan_iff by simp
  then have "ks \<noteq> []" by (cases ks) simp_all
  have disj: "set ks \<inter> {} = {}" and un: "{} \<union> set ks = {..<n_chunks c content}" using ks(2) by auto
  have sc: "scan_passes X content (scanner ?s)" using assms(11) frame(3) by simp
  note run = send_chunks_state [OF assms(1-3) ck arr ks(1) disj \<open>ks \<noteq> []\<close> un frame(1) sc s', of j]
  have fin: "upload_at s' i f = None" "cmds s' = cmds s" "the_user s' j = the_user s j"
      "map_of (files (sdb s')) f = Some (row\<lparr>fr_is_complete := True, fr_checksum := Some (sha256 X content)\<rparr>)"
      "\<And>k. k < n_chunks c content \<Longrightarrow> fil_get_chunk X f (of_nat k) (sdb s') = Some (chunk_of c content k)"
    using run frame(2,4) by simp_all
  let ?cs = "map (chunk_of c content) [0..<n_chunks c content]"
  let ?row = "row\<lparr>fr_is_complete := True, fr_checksum := Some (sha256 X content)\<rparr>"
  have cf: "chunks_from X (sdb s') f 0 ?cs"
    unfolding chunks_from_def using fin(5) chunk_of_nonempty [OF b(1)] by auto
  have can: "can_download_file s' (row_metadata f ?row) (the_user s' j)"
    using assms(14) row fin(2,3)
    by (simp add: can_download_file_def request_metadata_def is_in_channel_def chan_at_def cong: if_cong)
  have PP: "concat (map (pieces wire_chunk_size) ?cs) = P" by (simp add: P(1))
  have quiet: "\<not> sql_throws X (Fil_get f 0)" using assms(2) by simp
  have size: "fr_file_size ?row = col_int64 (of_nat (length content))" using row(5) by simp
  from download_carries_file [OF fin(4) quiet can size b(2,3) cf all_chunks [OF b(1)], of n] P(2)
  obtain msgs where msgs: "handle_file_download X j \<lparr>fdr_file_id = f, fdr_chunk_index = n\<rparr> s' =
      Some (send_envelope X j MT_FILE_COMPLETE (M_FileComplete f (of_nat (length content))
        (case fr_checksum ?row of Some (b # c) \<Rightarrow> b # c | _ \<Rightarrow> sha256 X content)) (send_list X j msgs s'))"
      "slices_of msgs = drop (unat n) (map (\<lambda>j. (of_nat j, P ! j, Suc j = length P)) [0..<length P])"
      "\<forall>m \<in> set msgs. about f m"
    unfolding PP Let_def by blast
  have "(case fr_checksum ?row of Some (b # c) \<Rightarrow> b # c | _ \<Rightarrow> sha256 X content) = sha256 X content"
    by (simp split: list.splits)
  moreover have "concat P = content"
    using concat_concat_pieces [of ?cs] all_chunks [OF b(1), of content] unfolding PP by simp
  ultimately show ?thesis using fin row(2) msgs by auto
qed

text \<open>
  C10: a file is delivered as it was sent.  Whatever the order in which the chunks of an accepted upload
  arrive, when the last one has come and the scan passes, the row is complete with the checksum of the
  content; every download by a user with access then ends with that checksum, and the slices sent, from
  any index the client resumes at, are those of a sequence \<open>P\<close> that concatenates to the content.  The
  sizes must fit the machine words (\<open>upload_fits\<close>) and the number of slices a 32-bit index.
\<close>

theorem file_transfer_roundtrip:
  assumes "upload_fits c content" "quiet X" "sha256 X content \<noteq> []"
    and "\<And>k. checksum_matches X (chunk_of c content k) (ck k)"
    and "fur_file_id r = f" "fur_file_size r = of_nat (length content)" "fur_chunk_size r = of_nat c"
    and "file_request_error X i r s = None" "map_of (files (sdb s)) f = None" "upload_at s i f = None"
    and "scan_passes X content (scanner s)"
    and "distinct ks" "set ks = {..<n_chunks c content}"
    and "can_download_file s (request_metadata (the_user s i) r) (the_user s j)"
    and "P = concat (map (pieces wire_chunk_size \<circ> chunk_of c content) [0..<n_chunks c content])"
      "length P \<le> 2 ^ 32"
    and "s' = send_chunks X i f c content ck ks (handle_file_request X i r s)"
  shows "upload_at s' i f = None \<and>
    (\<exists>row msgs. map_of (files (sdb s')) f = Some row \<and> fr_is_complete row \<and> fr_sender_id row = the_user s i \<and>
       fr_checksum row = Some (sha256 X content) \<and>
       handle_file_download X j \<lparr>fdr_file_id = f, fdr_chunk_index = n\<rparr> s' =
         Some (send_envelope X j MT_FILE_COMPLETE (M_FileComplete f (of_nat (length content)) (sha256 X content))
           (send_list X j msgs s')) \<and>
       slices_of msgs = drop (unat n) (map (\<lambda>j. (of_nat j, P ! j, Suc j = length P)) [0..<length P]) \<and>
       (\<forall>m \<in> set msgs. about f m) \<and> concat P = content)"
  using assms by (rule transfer_roundtrip)

definition demo_request :: file_upload_request where
  "demo_request = \<lparr>fur_file_id = ''f'', fur_filename = ''a.png'', fur_file_size = 3, fur_mime_type = ''image/PNG'',
     fur_recipient_id = [], fur_channel_id = [], fur_chunk_size = 2\<rparr>"

definition demo_upload_server :: server where
  "demo_upload_server = new_server (default_config\<lparr>allowed_mime_types := [''image/*'']\<rparr>) empty_db"

lemma demo_upload_simps:
  "file_request_error demo_ctx 0 demo_request demo_upload_server = None"
  "map_of (files (sdb demo_upload_server)) ''f'' = None" "upload_at demo_upload_server 0 ''f'' = None"
  "scan_passes X content (scanner demo_upload_server)"
  "can_download_file demo_upload_server (request_metadata (the_user demo_upload_server 0) demo_request)
     (the_user demo_upload_server 0)"
proof -
  have "mime_is_allowed (ascii_lower_copy ''image/PNG'') [''image/*''] []" by code_simp
  then show "file_request_error demo_ctx 0 demo_request demo_upload_server = None"
    by (simp add: file_request_error_def demo_request_def demo_upload_server_def new_server_def default_config_def)
qed (simp_all add: demo_request_def demo_upload_server_def new_server_def empty_db_def upload_at_def
    new_session_def scan_passes_def new_manager_def can_download_file_def request_metadata_def the_user_def)

theorem file_transfer_roundtrip_witness:
  "\<exists>row msgs. let s' = send_chunks demo_ctx 0 ''f'' 2 [7, 8, 9] (\<lambda>_. []) [1, 0]
                        (handle_file_request demo_ctx 0 demo_request demo_upload_server)
    in map_of (files (sdb s')) ''f'' = Some row \<and> fr_is_complete row \<and>
       handle_file_download demo_ctx 0 \<lparr>fdr_file_id = ''f'', fdr_chunk_index = 0\<rparr> s' =
         Some (send_envelope demo_ctx 0 MT_FILE_COMPLETE
           (M_FileComplete ''f'' 3 (sha256 demo_ctx [7, 8, 9])) (send_list demo_ctx 0 msgs s')) \<and>
       slices_of msgs = [(0, [7, 8], False), (1, [9], True)]"
proof -
  let ?c = "[7, 8, 9] :: bytes"
  have n: "n_chunks 2 ?c = 2" by (simp add: n_chunks_def)
  have fits: "upload_fits 2 ?c" by (simp add: upload_fits_def n)
  have sha: "sha256 demo_ctx ?c \<noteq> []" by simp
  have ck: "checksum_matches demo_ctx (chunk_of 2 ?c k) []" for k by (simp add: checksum_matches_def)
  have req: "fur_file_id demo_request = ''f''" "fur_file_size demo_request = of_nat (length ?c)"
      "fur_chunk_size demo_request = of_nat 2"
    by (simp_all add: demo_request_def)
  have ks: "distinct [1, 0 :: nat]" "set [1, 0] = {..<n_chunks 2 ?c}" by (auto simp: n)
  have P: "[[7, 8], [9]] = concat (map (pieces wire_chunk_size \<circ> chunk_of 2 ?c) [0..<n_chunks 2 ?c])"
    unfolding n by (simp add: chunk_of_def upt_rec pieces.simps)
  have len: "length [[7, 8], [9 :: byte]] \<le> 2 ^ 32" by simp
  note th = file_transfer_roundtrip [OF fits quiet_demo sha ck req demo_upload_simps(1-4) ks demo_upload_simps(5)
      P len refl, of 0]
  show ?thesis using th by (auto simp: Let_def)
qed

subsection \<open>Downloads end, uploads respect the quotas\<close>

lemma set_mput: "set (mput k v m) \<subseteq> insert (k, v) (set m)"
  by (induction m) auto

lemma chunks_filled_store: "chunks_filled g d \<Longrightarrow> chunks_filled g (snd (fil_store_chunk X f k b d))"
  using set_mput [of "(f, col_int k)" "\<lparr>ck_data = b, ck_size = int (length b)\<rparr>" "file_chunks d"]
  by (auto simp: chunks_filled_def fil_store_chunk_def)

lemma chunks_filled_delete: "chunks_filled g d \<Longrightarrow> chunks_filled g (snd (fil_delete X f d))"
  by (auto simp: chunks_filled_def fil_delete_def delete_files_def Let_def)

lemma chunks_filled_complete: "chunks_filled g (snd (fil_mark_complete X f c d)) = chunks_filled g d"
  by (simp add: chunks_filled_def fil_mark_complete_def upd_file_def)

lemma scan_upload_sdb: "sdb (snd (scan_upload X data s)) = sdb s"
  by (simp add: scan_upload_def split_def Let_def)

lemma finish_upload_filled:
  assumes "chunks_filled g (sdb s)"
  shows "chunks_filled g (sdb (finish_upload X i f up s))"
proof -
  have "sdb (snd (scan_upload X data s)) = sdb s" for data by (rule scan_upload_sdb)
  with assms show ?thesis
    by (simp add: finish_upload_def abort_upload_def complete_upload_def drop_file_def Let_def split_def
        frame_simps chunks_filled_delete chunks_filled_complete split: option.split)
qed

lemma upload_keeps_filled:
  assumes "chunks_filled g (sdb s)"
  shows "chunks_filled g (sdb (handle_file_upload X i c s))"
proof -
  have "chunks_filled g d" if "fil_store_chunk X (fuc_file_id c) (fuc_chunk_index c) (fuc_data c) (sdb s) = (b, d)" for b d
    using chunks_filled_store [OF assms, of X "fuc_file_id c" "fuc_chunk_index c" "fuc_data c"] that by simp
  with assms show ?thesis
    by (auto simp: handle_file_upload_def abort_upload_def drop_file_def Let_def frame_simps
        chunks_filled_delete finish_upload_filled split: option.split prod.split bool.split)
qed

text \<open>
  C11: a download ends.  Its loops advance a 32-bit index that wraps, and end because no stored chunk of the file is
  empty: then every round makes progress towards the size on record, however large that is and whichever chunks
  are missing.  The condition, which is the hypothesis, is kept by every chunk an upload stores.
\<close>

theorem file_download_returns:
  assumes "chunks_filled (fdr_file_id r) (sdb s)"
  shows "handle_file_download X i r s \<noteq> None \<and>
         chunks_filled (fdr_file_id r) (sdb (handle_file_upload X i c s))"
proof -
  have "handle_file_download X i r s \<noteq> None"
  proof (cases "fil_get X 0 (fdr_file_id r) (sdb s)")
    case None
    then show ?thesis by (simp add: handle_file_download_def)
  next
    case (Some m)
    then have "fm_file_id m = fdr_file_id r" by (auto simp: fil_get_def split: if_splits)
    then have "download_checksum X m (sdb s) \<noteq> None"
      using read_chunks_returns [OF assms, of X "fm_file_size m" 0 "[]"] by (simp add: download_checksum_def)
    then obtain c where c: "download_checksum X m (sdb s) = Some c" by blast
    obtain msgs ok where "stream_file X (sdb s) (fdr_file_id r) (fm_file_size m) (fdr_chunk_index r) 0 0 0 = Some (msgs, ok)"
      using stream_file_returns [OF assms, of 0 "fm_file_size m" X "fdr_chunk_index r" 0 0] by auto
    with Some c show ?thesis by (cases ok) (simp_all add: handle_file_download_def Let_def)
  qed
  with upload_keeps_filled [OF assms] show ?thesis by blast
qed

theorem file_download_returns_witness:
  "handle_file_download demo_ctx 0 \<lparr>fdr_file_id = ''f'', fdr_chunk_index = 0\<rparr> (new_server default_config demo_file_db) \<noteq> None"
proof -
  have "chunks_filled (fdr_file_id \<lparr>fdr_file_id = ''f'', fdr_chunk_index = 0\<rparr>) (sdb (new_server default_config demo_file_db))"
    by (simp add: chunks_filled_def new_server_def demo_file_db_def empty_db_def)
  from file_download_returns [OF this] show ?thesis by blast
qed

lemma sql_sum_nonneg:
  "0 \<le> acc \<Longrightarrow> (\<And>x. x \<in> set xs \<Longrightarrow> 0 \<le> x) \<Longrightarrow> acc + sum_list xs < 2 ^ 63 \<Longrightarrow>
   sql_sum acc xs = Some (acc + sum_list xs)"
proof (induction xs arbitrary: acc)
  case Nil
  then show ?case by simp
next
  case (Cons x xs)
  have "0 \<le> sum_list xs" using Cons.prems(2) by (intro sum_list_nonneg) auto
  moreover have x: "0 \<le> x" using Cons.prems(2) by simp
  ultimately have "sql_sum (acc + x) xs = Some (acc + x + sum_list xs)"
    using Cons.prems by (intro Cons.IH) auto
  moreover have "- (2 ^ 63) \<le> acc + x" "acc + x < 2 ^ 63"
    using Cons.prems(1,3) x \<open>0 \<le> sum_list xs\<close> by auto
  ultimately show ?case by simp
qed

definition live_sizes :: "ctx \<Rightarrow> (file_row \<Rightarrow> bool) \<Rightarrow> db \<Rightarrow> int list" where
  "live_sizes X P d = map (\<lambda>(k, r). fr_file_size r) (filter (\<lambda>(k, r). P r \<and> fr_expires_at r > now_unix X) (files d))"

text \<open>The sizes of the files, and their sum with one more, are within the 63 bits of SQLite's integers.\<close>

definition sizes_fit :: "u64 \<Rightarrow> db \<Rightarrow> bool" where
  "sizes_fit n d \<longleftrightarrow> (\<forall>(k, r) \<in> set (files d). 0 \<le> fr_file_size r) \<and>
     sum_list (map (\<lambda>(k, r). fr_file_size r) (files d)) + uint n < 2 ^ 63"

lemma live_sum_le:
  assumes "\<And>k r. (k, r) \<in> set m \<Longrightarrow> 0 \<le> g r"
  shows "sum_list (map (\<lambda>(k, r). g r) (filter Q m)) \<le> sum_list (map (\<lambda>(k, r). g r :: int) m)"
  using assms
proof (induction m)
  case Nil
  then show ?case by simp
next
  case (Cons x m)
  from Cons.prems have "0 \<le> g (snd x)" by (cases x) auto
  moreover have "sum_list (map (\<lambda>(k, r). g r) (filter Q m)) \<le> sum_list (map (\<lambda>(k, r). g r) m)"
    by (rule Cons.IH) (use Cons.prems in auto)
  ultimately show ?case by (cases x) auto
qed

lemma sum_or_zero_live:
  assumes "sizes_fit n d"
  shows "uint (sum_or_zero (live_sizes X P d)) = sum_list (live_sizes X P d)"
    and "0 \<le> sum_list (live_sizes X P d)" and "sum_list (live_sizes X P d) + uint n < 2 ^ 63"
proof -
  have nn: "0 \<le> x" if "x \<in> set (live_sizes X P d)" for x
    using assms that by (auto simp: sizes_fit_def live_sizes_def)
  then show ge: "0 \<le> sum_list (live_sizes X P d)" by (intro sum_list_nonneg) simp
  have "sum_list (live_sizes X P d) \<le> sum_list (map (\<lambda>(k, r). fr_file_size r) (files d))"
    unfolding live_sizes_def using assms by (intro live_sum_le) (auto simp: sizes_fit_def)
  then show lt: "sum_list (live_sizes X P d) + uint n < 2 ^ 63" using assms by (simp add: sizes_fit_def)
  moreover have "0 \<le> uint n" by simp
  ultimately have "sum_list (live_sizes X P d) < 2 ^ 63" by linarith
  with sql_sum_nonneg [of 0 "live_sizes X P d"] nn
  have "sum_or_zero (live_sizes X P d) = word_of_int (sum_list (live_sizes X P d))"
    by (simp add: sum_or_zero_def col_u64_def)
  with ge \<open>sum_list (live_sizes X P d) < 2 ^ 63\<close> show "uint (sum_or_zero (live_sizes X P d)) = sum_list (live_sizes X P d)"
    by (simp add: word_of_int_inverse uint_word_of_int)
qed

lemma live_sizes_create:
  assumes "fil_create X m d = (True, d')" "fm_uploaded_at m = 0" "fm_expires_at m = 0"
  shows "live_sizes X (\<lambda>r. P (fr_sender_id r)) d' = live_sizes X (\<lambda>r. P (fr_sender_id r)) d @
     (if P (fm_sender_id m) then [col_int64 (fm_file_size m)] else [])"
  using assms by (auto simp: fil_create_def live_sizes_def Let_def split: if_splits)

lemma reserved_live: "quiet X \<Longrightarrow> fil_reserved_bytes X d = sum_or_zero (live_sizes X (\<lambda>r. True) d)"
  by (simp add: fil_reserved_bytes_def live_sizes_def case_prod_unfold)

lemma user_reserved_live:
  "quiet X \<Longrightarrow> fil_user_reserved_bytes X u d = sum_or_zero (live_sizes X (\<lambda>r. fr_sender_id r = u) d)"
  by (simp add: fil_user_reserved_bytes_def live_sizes_def case_prod_unfold)

lemma sum_or_zero_snoc:
  assumes "sizes_fit n d"
  shows "sum_or_zero (live_sizes X P d @ [col_int64 n]) = sum_or_zero (live_sizes X P d) + n"
    and "uint (sum_or_zero (live_sizes X P d)) + uint n < 2 ^ 63"
proof -
  note live = sum_or_zero_live [OF assms, of X P]
  show lt: "uint (sum_or_zero (live_sizes X P d)) + uint n < 2 ^ 63" using live by simp
  have un: "uint n < 2 ^ 63" "0 \<le> uint n" using lt live by (auto intro: order_le_less_trans)
  have "- (2 ^ 63) \<le> uint n" by (rule order_trans [OF _ un(2)]) simp
  then have n: "col_int64 n = uint n"
    using un(1) by (simp add: col_int64_def sint_uint signed_take_bit_int_eq_self)
  have nn: "0 \<le> x" if "x \<in> set (live_sizes X P d @ [uint n])" for x
    using assms that by (auto simp: sizes_fit_def live_sizes_def)
  have "sql_sum 0 (live_sizes X P d @ [uint n]) = Some (sum_list (live_sizes X P d) + uint n)"
    using sql_sum_nonneg [of 0 "live_sizes X P d @ [uint n]"] nn live by simp
  moreover have "sum_or_zero (live_sizes X P d) = word_of_int (sum_list (live_sizes X P d))"
    using live(1) by (metis word_of_int_uint)
  ultimately show "sum_or_zero (live_sizes X P d @ [col_int64 n]) = sum_or_zero (live_sizes X P d) + n"
    unfolding n by (simp add: sum_or_zero_def col_u64_def)
qed

lemma within_quota:
  fixes used n limit :: u64
  assumes "uint used + uint n < 2 ^ 63" "\<not> (used > limit \<or> n > limit - used)"
  shows "used + n \<le> limit"
proof -
  have le: "uint used \<le> uint limit" using assms(2) by (simp add: word_le_def not_less)
  then have "uint (limit - used) = uint limit - uint used" by (simp add: uint_sub_if')
  with assms(2) have "uint n \<le> uint limit - uint used" by (simp add: word_le_def not_less)
  moreover have "uint (used + n) = uint used + uint n" using assms(1) by (simp add: uint_word_ariths mod_pos_pos_trivial)
  ultimately show ?thesis by (simp add: word_le_def)
qed

text \<open>
  C12: an accepted upload keeps within the quotas.  As long as the recorded sizes add up within 63
  bits, a request either leaves the file table as it was, or the space reserved by all live files,
  and that by the sender's, is still within the configured limits, the size is within the limit of a
  single file, and the type is allowed.
\<close>

theorem upload_request_within_quota:
  assumes "quiet X" and "sizes_fit (fur_file_size r) (sdb s)" and "s' = handle_file_request X i r s"
  shows "sdb s' = sdb s \<or>
    (0 < max_total_storage_bytes (cfg s) \<longrightarrow> fil_reserved_bytes X (sdb s') \<le> max_total_storage_bytes (cfg s)) \<and>
    (0 < max_user_storage_bytes (cfg s) \<longrightarrow>
       fil_user_reserved_bytes X (the_user s i) (sdb s') \<le> max_user_storage_bytes (cfg s)) \<and>
    (0 < max_upload_bytes (cfg s) \<longrightarrow> fur_file_size r \<le> max_upload_bytes (cfg s)) \<and>
    mime_is_allowed (ascii_lower_copy (fur_mime_type r)) (allowed_mime_types (cfg s)) (blocked_mime_types (cfg s))"
proof (cases "file_request_error X i r s")
  case (Some e)
  then show ?thesis using assms(3) by (cases e) (simp add: handle_file_request_def Let_def frame_simps)
next
  case None
  let ?m = "request_metadata (the_user s i) r"
  obtain b d where d: "fil_create X ?m (sdb s) = (b, d)" by (cases "fil_create X ?m (sdb s)")
  show ?thesis
  proof (cases b)
    case False
    then have "d = sdb s" using d by (auto simp: fil_create_def Let_def split: if_splits)
    then show ?thesis using None d False assms(3) by (simp add: handle_file_request_def Let_def frame_simps)
  next
    case True
    then have s': "sdb s' = d"
      using None d assms(3) by (simp add: handle_file_request_def Let_def frame_simps)
    have m: "fm_uploaded_at ?m = 0" "fm_expires_at ?m = 0" "fm_sender_id ?m = the_user s i"
        "fm_file_size ?m = fur_file_size r"
      by (simp_all add: request_metadata_def)
    have d': "fil_create X ?m (sdb s) = (True, d)" using d True by simp
    note c = live_sizes_create [OF d' m(1,2), unfolded m(3,4)]
    have "fil_reserved_bytes X d = fil_reserved_bytes X (sdb s) + fur_file_size r"
      "fil_user_reserved_bytes X (the_user s i) d = fil_user_reserved_bytes X (the_user s i) (sdb s) + fur_file_size r"
      using c [of "\<lambda>_. True"] c [of "\<lambda>v. v = the_user s i"]
      by (simp_all add: reserved_live [OF assms(1)] user_reserved_live [OF assms(1)] sum_or_zero_snoc(1) [OF assms(2)])
    moreover have "uint (fil_reserved_bytes X (sdb s)) + uint (fur_file_size r) < 2 ^ 63"
      "uint (fil_user_reserved_bytes X (the_user s i) (sdb s)) + uint (fur_file_size r) < 2 ^ 63"
      unfolding reserved_live [OF assms(1)] user_reserved_live [OF assms(1)]
      by (rule sum_or_zero_snoc(2) [OF assms(2)])+
    ultimately show ?thesis
      using None unfolding s' file_request_error_def Let_def
      by (auto split: if_splits intro: within_quota simp: not_less)
  qed
qed

theorem upload_request_within_quota_witness:
  "let s = demo_upload_server\<lparr>cfg := (cfg demo_upload_server)\<lparr>max_total_storage_bytes := 5\<rparr>\<rparr>
   in fil_reserved_bytes demo_ctx (sdb (handle_file_request demo_ctx 0 demo_request s)) \<le> 5"
proof -
  let ?s = "demo_upload_server\<lparr>cfg := (cfg demo_upload_server)\<lparr>max_total_storage_bytes := 5\<rparr>\<rparr>"
  have fit: "sizes_fit (fur_file_size demo_request) (sdb ?s)"
    by (simp add: sizes_fit_def demo_request_def demo_upload_server_def new_server_def empty_db_def)
  have "fil_reserved_bytes demo_ctx (sdb ?s) \<le> 5"
    by (simp add: fil_reserved_bytes_def sum_or_zero_def col_u64_def demo_upload_server_def new_server_def empty_db_def)
  moreover have "0 < max_total_storage_bytes (cfg ?s)" "max_total_storage_bytes (cfg ?s) = 5" by simp_all
  ultimately show ?thesis
    using upload_request_within_quota [OF quiet_demo fit refl, of 0] by (auto simp: Let_def)
qed

end
