(* ===== verification/Session_Frames.thy ===== *)
theory Session_Frames
  imports Session_Dispatch Channel_Rules File_Roundtrip
begin

text \<open>
  What the handlers of a session leave alone and which invariants they keep: the relation \<open>calm\<close>
  between the states before and after, shown for every command and every message handler except those
  that authenticate.
\<close>

subsection \<open>Commands\<close>

definition still :: "server \<Rightarrow> server \<Rightarrow> bool" where
  "still s s' \<longleftrightarrow> sess s' = sess s \<and> next_sid s' = next_sid s \<and> cfg s' = cfg s \<and> vrm s' = vrm s \<and>
     sessions_by_user (lst s') = sessions_by_user (lst s) \<and>
     users_by_session (lst s') = users_by_session (lst s) \<and> (db_ok (sdb s) \<longrightarrow> db_ok (sdb s'))"

lemma still_refl [simp]: "still s s"
  by (simp add: still_def)

lemma still_trans: "still s s' \<Longrightarrow> still s' s'' \<Longrightarrow> still s s''"
  by (simp add: still_def)

lemma limits_frame_more [frame_simps]:
  "next_sid (set_limits u l s) = next_sid s" "next_sid (snd (track_abuse X u s)) = next_sid s"
  "next_sid (snd (is_abuser X u s)) = next_sid s" "cfg (set_limits u l s) = cfg s"
  "cfg (snd (track_abuse X u s)) = cfg s" "cfg (snd (is_abuser X u s)) = cfg s"
  "vrm (set_limits u l s) = vrm s" "vrm (snd (track_abuse X u s)) = vrm s"
  "vrm (snd (is_abuser X u s)) = vrm s"
  by (simp_all add: set_limits_def track_abuse_def is_abuser_def Let_def split: option.split)

lemma create_frame [frame_simps]:
  "sess (snd (get_or_create_channel c s)) = sess s" "lst (snd (get_or_create_channel c s)) = lst s"
  "next_sid (snd (get_or_create_channel c s)) = next_sid s" "cfg (snd (get_or_create_channel c s)) = cfg s"
  "vrm (snd (get_or_create_channel c s)) = vrm s" "sdb (snd (get_or_create_channel c s)) = sdb s"
  by (simp_all add: get_or_create_channel_def frame_simps split: option.split)

lemma quit_loop_frame [frame_simps]:
  "sess (quit_loop X u r cs s) = sess s" "lst (quit_loop X u r cs s) = lst s"
  "next_sid (quit_loop X u r cs s) = next_sid s" "cfg (quit_loop X u r cs s) = cfg s"
  "vrm (quit_loop X u r cs s) = vrm s"
  by (induction X u r cs s rule: quit_loop.induct)
     (simp_all add: frame_simps notify_defs part_channel_def Let_def split: option.split)

lemma fan_out_db: "db_ok (sdb s) \<Longrightarrow> db_ok (sdb (fan_out X e x us s))"
  by (induction X e x us s rule: fan_out.induct)
     (simp_all add: frame_simps off_save_db_ok split: option.split)

lemma broadcast_to_channel_db: "db_ok (sdb s) \<Longrightarrow> db_ok (sdb (broadcast_to_channel X c e x s))"
  by (simp add: broadcast_to_channel_def fan_out_db split: option.split)

lemma nick_loop_db: "db_ok (sdb s) \<Longrightarrow> db_ok (sdb (nick_loop X u e cs s))"
  by (induction X u e cs s rule: nick_loop.induct) (simp_all add: broadcast_to_channel_db)

lemma still_join: "still s (snd (cmd_join X args i s))"
  by (auto simp: cmd_join_def still_def frame_simps Let_def notify_defs split_def split: list.split)

lemma still_nick: "still s (snd (cmd_nick X args i s))"
  by (auto simp: cmd_nick_def still_def frame_simps Let_def nick_loop_db split: list.split)

lemma still_channel_commands:
  "still s (snd (cmd_part X args i s))" "still s (snd (cmd_topic X args i s))"
  "still s (snd (cmd_kick X args i s))" "still s (snd (cmd_ban X args i s))"
  "still s (snd (cmd_invite X args i s))" "still s (snd (cmd_set X args i s))"
  "still s (snd (cmd_mode X args i s))" "still s (snd (cmd_whois X args i s))"
  "still s (snd (cmd_me X args i s))" "still s (snd (cmd_quit X args i s))"
  "still s (snd (cmd_msg X args i s))" "still s (snd (cmd_away X args i s))"
  "still s (snd (cmd_back X args i s))" "still s (snd (cmd_dnd X args i s))"
  "still s (snd (cmd_quota X args i s))"
  by (auto simp: with_operator_def cmd_part_def cmd_topic_def cmd_kick_def cmd_ban_def cmd_invite_def cmd_set_def cmd_mode_def
        cmd_whois_def cmd_me_def cmd_quit_def cmd_msg_def cmd_away_def cmd_back_def
        cmd_dnd_def cmd_quota_def notify_defs Let_def split_def still_def frame_simps
        quit_loop_sdb broadcast_to_channel_db
      split: list.split option.split)

lemma reset_db_ok: "db_ok d \<Longrightarrow> db_ok (snd (reset_db X d))"
  by (auto simp: reset_db_def db_ok_defs Let_def split: if_splits)

lemma still_database_commands:
  "still s (snd (cmd_password X args i s))" "still s (snd (cmd_rmfile X args i s))"
  "still s (snd (cmd_resetdb X args i s))"
  by (auto simp: cmd_password_def cmd_rmfile_def cmd_resetdb_def Let_def split_def still_def frame_simps
        usr_update_password_ok fil_delete_ok reset_db_ok
      split: list.split option.split)

lemma handle_command_still: "still s (snd (handle_command X cmd i s))"
proof -
  obtain ab s1 where ab: "is_abuser X (the_user s i) s = (ab, s1)" by fastforce
  obtain al cl where al: "rl_allow (steady_now X) (command_limiter (limits_of X (the_user s i) s1)) = (al, cl)"
    by fastforce
  let ?s2 = "set_limits (the_user s i) (limits_of X (the_user s i) s1\<lparr>command_limiter := cl\<rparr>) s1"
  have "still s (snd (is_abuser X (the_user s i) s))" by (simp add: still_def frame_simps)
  then have s1: "still s s1" using ab by simp
  then have s2: "still s ?s2" "still s (snd (track_abuse X (the_user s i) ?s2))"
    by (simp_all add: still_def frame_simps)
  have run: "still ?s2 (snd (f X args i ?s2))" if "map_of command_map name = Some f" for f name args
    using that by (cases rule: command_map_range)
      (simp_all add: still_join still_nick still_channel_commands still_database_commands)
  show ?thesis
    using s1 s2 still_trans [OF s2(1) run] ab al
    by (auto simp: handle_command_def Let_def split: option.split)
qed

subsection \<open>Steps that keep the invariants and the sessions' states\<close>

definition calm :: "server \<Rightarrow> server \<Rightarrow> bool" where
  "calm s s' \<longleftrightarrow> next_sid s' = next_sid s \<and> cfg s' = cfg s \<and>
     sessions_by_user (lst s') = sessions_by_user (lst s) \<and>
     users_by_session (lst s') = users_by_session (lst s) \<and>
     (\<forall>j. ss_state (sess s' j) = ss_state (sess s j) \<and> ss_user_id (sess s' j) = ss_user_id (sess s j) \<and>
       auth_nonce (sess s' j) = auth_nonce (sess s j) \<and>
       pending_writes (sess s' j) = pending_writes (sess s j) \<and>
       write_in_progress (sess s' j) = write_in_progress (sess s j)) \<and>
     (channels_ok s \<longrightarrow> channels_ok s') \<and> (voice_ok (vrm s) \<longrightarrow> voice_ok (vrm s')) \<and>
     (db_ok (sdb s) \<longrightarrow> db_ok (sdb s'))"

lemma calm_refl [simp]: "calm s s"
  by (simp add: calm_def)

lemma calm_trans [trans]: "calm s s' \<Longrightarrow> calm s' s'' \<Longrightarrow> calm s s''"
  by (simp add: calm_def)

lemma channels_ok_cong: "cmds s' = cmds s \<Longrightarrow> channels_ok s' = channels_ok s"
  by (simp add: channels_ok_def table_ok_def chan_at_def)

named_theorems calm_intros \<open>operations that keep the invariants and the sessions' states\<close>

lemma calm_upd_sess [calm_intros]:
  assumes "\<And>ss. ss_state (f ss) = ss_state ss" "\<And>ss. ss_user_id (f ss) = ss_user_id ss"
    "\<And>ss. auth_nonce (f ss) = auth_nonce ss" "\<And>ss. pending_writes (f ss) = pending_writes ss"
    "\<And>ss. write_in_progress (f ss) = write_in_progress ss"
  shows "calm s (upd_sess i f s)"
  using assms channels_ok_cong [of "upd_sess i f s" s] by (simp add: calm_def frame_simps)

lemma calm_out: "cmds s' = cmds s \<Longrightarrow> sess s' = sess s \<Longrightarrow> next_sid s' = next_sid s \<Longrightarrow> cfg s' = cfg s \<Longrightarrow>
    lst s' = lst s \<Longrightarrow> vrm s' = vrm s \<Longrightarrow> sdb s' = sdb s \<Longrightarrow> calm s s'"
  using channels_ok_cong [of s' s] by (simp add: calm_def)

lemma calm_posts [calm_intros]:
  "calm s (post i e s)" "calm s (ask_disconnect i r s)" "calm s (post_all is e s)" "calm s (broadcast e x s)"
  "calm s (broadcast_presence X u p x s)" "calm s (s\<lparr>scanner := m\<rparr>)" "calm s (s\<lparr>out := xs\<rparr>)"
  by (rule calm_out; simp add: frame_simps)+

lemma calm_sdb [calm_intros]: "(db_ok (sdb s) \<Longrightarrow> db_ok d) \<Longrightarrow> calm s (s\<lparr>sdb := d\<rparr>)"
  using channels_ok_cong [of "s\<lparr>sdb := d\<rparr>" s] by (simp add: calm_def)

lemma calm_vrm [calm_intros]: "(voice_ok (vrm s) \<Longrightarrow> voice_ok v) \<Longrightarrow> calm s (s\<lparr>vrm := v, out := xs\<rparr>)"
  using channels_ok_cong [of "s\<lparr>vrm := v, out := xs\<rparr>" s] by (simp add: calm_def)

lemma calm_send_envelope [calm_intros]: "calm s (send_envelope X i mt m s)"
  unfolding send_envelope_def by (rule calm_trans [OF _ calm_posts(1)]) (rule calm_upd_sess; simp)

lemma calm_send_error [calm_intros]: "calm s (send_error X i n t s)"
  by (simp add: send_error_def calm_send_envelope)

lemma calm_send_file_error [calm_intros]: "calm s (send_file_error X i f n t s)"
  by (simp add: send_file_error_def calm_send_envelope)

lemma calm_send_list [calm_intros]: "calm s (send_list X i ms s)"
  by (induction X i ms s rule: send_list.induct) (simp, metis calm_trans calm_send_envelope send_list.simps(2))

lemma calm_set_upload [calm_intros]: "calm s (set_upload i f up s)"
  unfolding set_upload_def by (rule calm_upd_sess) simp_all

lemma calm_still: "still s s' \<Longrightarrow> (channels_ok s \<Longrightarrow> channels_ok s') \<Longrightarrow> calm s s'"
  by (simp add: calm_def still_def)

lemma calm_command [calm_intros]: "calm s (session_command X i c s)"
proof -
  have "calm s (snd (handle_command X c i s))"
    by (rule calm_still [OF handle_command_still]) (rule handle_command_channels_ok)
  then show ?thesis unfolding session_command_def split_def Let_def by (rule calm_trans) (rule calm_posts)
qed

text \<open>The same facts in the form that peels one operation off the end of a handler.\<close>

lemmas calm_after =
  calm_trans [OF _ calm_posts(1)] calm_trans [OF _ calm_posts(2)] calm_trans [OF _ calm_posts(3)]
  calm_trans [OF _ calm_posts(4)] calm_trans [OF _ calm_posts(5)] calm_trans [OF _ calm_posts(6)]
  calm_trans [OF _ calm_sdb] calm_trans [OF _ calm_vrm] calm_trans [OF _ calm_upd_sess]
  calm_trans [OF _ calm_send_envelope] calm_trans [OF _ calm_send_error]
  calm_trans [OF _ calm_send_file_error] calm_trans [OF _ calm_send_list] calm_trans [OF _ calm_set_upload]

lemma calm_deliver_dm: "calm s (snd (deliver_dm X r raw s))"
  by (auto simp: deliver_dm_def split_def Let_def off_save_db_ok intro!: calm_after split: option.split)

lemma calm_ping_timer: "calm s (reset_ping_timer i s)" "calm s (start_ping_timer i s)" "calm s (handle_pong i s)"
  by (auto simp: reset_ping_timer_def start_ping_timer_def handle_pong_def intro!: calm_after)

lemma calm_ping: "calm s (handle_ping X i e s)"
  by (auto simp: handle_ping_def intro!: calm_after)

lemma calm_chat: "calm s (handle_chat X i chat raw s)"
  by (auto simp: handle_chat_def split_def Let_def intro!: calm_after calm_deliver_dm)

lemma calm_voice_signal: "calm s (handle_voice_signal X i v raw s)"
  by (auto simp: handle_voice_signal_def intro!: calm_after split: option.split)

lemma calm_voice_rooms: "calm s (handle_voice_room_join X i j s)" "calm s (handle_voice_room_leave X i j s)"
  by (auto simp: handle_voice_room_join_def handle_voice_room_leave_def split_def Let_def
      intro!: calm_after voice_join_ok voice_leave_ok)

lemma store_opks_ok: "db_ok d \<Longrightarrow> db_ok (snd (store_opks X u ks ns d))"
proof (induction X u ks ns d rule: store_opks.induct)
  case (1 X u k ks n ns d)
  then show ?case using usr_store_opk_ok [of d X u k n] by (auto split: prod.split outcome.split)
qed simp_all

lemma calm_key_upload: "calm s (snd (handle_key_upload X i ku s))"
proof -
  let ?p = "if ku_signed_prekey ku \<noteq> [] \<and> ku_spk_signature ku \<noteq> []
            then usr_upsert_signed_prekey X (the_user s i) (ku_signed_prekey ku) (ku_spk_signature ku)
                   (ku_spk_id ku) (ku_registration_id ku) (sdb s)
            else (Returned, sdb s)"
  obtain oc d where p: "?p = (oc, d)" by fastforce
  have d: "db_ok (sdb s) \<Longrightarrow> db_ok d"
    using p usr_upsert_signed_prekey_ok [of "sdb s" X "the_user s i" "ku_signed_prekey ku"
        "ku_spk_signature ku" "ku_spk_id ku" "ku_registration_id ku"] by (auto split: if_splits)
  obtain oc' d' where c: "usr_clear_opks X (the_user s i) d = (oc', d')" by fastforce
  have d': "db_ok d \<Longrightarrow> db_ok d'" using usr_clear_opks_ok [of d X "the_user s i"] c by simp
  show ?thesis
    unfolding handle_key_upload_def Let_def p prod.case c
    using d d' by (cases oc') (auto simp: split_def intro!: calm_sdb store_opks_ok)
qed

lemma calm_key_request: "calm s (handle_key_request X i u s)"
  by (auto simp: handle_key_request_def split_def Let_def usr_consume_opk_ok intro!: calm_after split: option.split)

lemma calm_typing: "calm s (handle_typing X i ty raw s)"
  by (auto simp: handle_typing_def intro!: calm_after split: option.split)

lemma calm_read_receipt: "calm s (handle_read_receipt X i r raw s)"
  by (auto simp: handle_read_receipt_def split_def Let_def intro!: calm_after calm_deliver_dm)

lemma calm_file_request: "calm s (handle_file_request X i r s)"
proof -
  obtain b d where d: "fil_create X (request_metadata (the_user s i) r) (sdb s) = (b, d)" by fastforce
  then have "db_ok (sdb s) \<Longrightarrow> db_ok d"
    using fil_create_ok [of "sdb s" X "request_metadata (the_user s i) r"] by simp
  then have s1: "calm s (s\<lparr>sdb := d\<rparr>)" by (rule calm_sdb)
  show ?thesis
    using d calm_trans [OF s1 calm_send_file_error]
      calm_trans [OF calm_trans [OF s1 calm_set_upload] calm_send_envelope]
    by (cases b) (auto simp: handle_file_request_def Let_def calm_send_file_error split: option.split)
qed

lemma calm_drop_file: "calm s (drop_file X f s)"
  by (auto simp: drop_file_def fil_delete_ok intro!: calm_sdb)

lemma calm_abort_upload: "calm s (abort_upload X i f n t s)"
  unfolding abort_upload_def by (rule calm_trans [OF calm_send_file_error calm_trans [OF calm_drop_file calm_set_upload]])

lemma calm_complete_upload: "calm s (complete_upload X i f up data s)"
  unfolding complete_upload_def Let_def by (intro calm_after) (auto simp: fil_mark_complete_ok)

lemma calm_scan_upload: "calm s (snd (scan_upload X data s))"
  by (auto simp: scan_upload_def split_def Let_def intro!: calm_posts)

lemma calm_finish_upload: "calm s (finish_upload X i f up s)"
proof (cases "(\<exists>r \<in> set (up_received up). \<not> r) \<or> up_bytes up \<noteq> up_file_size up")
  case True
  then show ?thesis by (simp add: finish_upload_def calm_abort_upload)
next
  case False
  let ?data = "assembled_file X f (up_total_chunks up) (sdb s)"
  let ?s = "snd (scan_upload X ?data s)"
  note after = calm_trans [OF calm_scan_upload [of s X ?data]]
  have "calm ?s (set_upload i f None (send_file_error X i f n t (drop_file X f ?s)))" for n t
    by (rule calm_trans [OF calm_drop_file calm_trans [OF calm_send_file_error calm_set_upload]])
  with False show ?thesis
    by (auto simp: finish_upload_def Let_def split_def
        intro: after calm_abort_upload calm_complete_upload split: option.split)
qed

lemma calm_file_upload: "calm s (handle_file_upload X i c s)"
proof (cases "upload_at s i (fuc_file_id c)")
  case None
  then show ?thesis by (simp add: handle_file_upload_def calm_send_file_error)
next
  case (Some up)
  let ?f = "fuc_file_id c" and ?up = "note_chunk c up"
  obtain b d where d: "fil_store_chunk X ?f (fuc_chunk_index c) (fuc_data c) (sdb s) = (b, d)" by fastforce
  then have "db_ok (sdb s) \<Longrightarrow> db_ok d"
    using fil_store_chunk_ok [of "sdb s" X ?f "fuc_chunk_index c" "fuc_data c"] by simp
  then have s1: "calm s (s\<lparr>sdb := d\<rparr>)" by (rule calm_sdb)
  then have s2: "calm s (set_upload i ?f (Some ?up) (s\<lparr>sdb := d\<rparr>))" by (rule calm_trans [OF _ calm_set_upload])
  then have s3: "calm s (send_envelope X i MT_FILE_PROGRESS
      (M_FileProgress ?f (up_bytes ?up) (up_file_size ?up) ''uploading'') (set_upload i ?f (Some ?up) (s\<lparr>sdb := d\<rparr>)))"
    by (rule calm_trans [OF _ calm_send_envelope])
  show ?thesis
    using Some d calm_trans [OF s1 calm_send_file_error] calm_trans [OF s2 calm_abort_upload]
      s3 calm_trans [OF s3 calm_finish_upload]
    by (cases b)
       (auto simp: handle_file_upload_def Let_def calm_send_file_error calm_abort_upload split: option.split)
qed

lemma calm_file_download: "handle_file_download X i r s = Some s' \<Longrightarrow> calm s s'"
  by (auto simp: handle_file_download_def Let_def intro!: calm_after split: option.splits if_splits bool.splits)

lemma calm_file_list: "calm s (handle_file_list_request X i r s)"
  by (auto simp: handle_file_list_request_def Let_def intro!: calm_after)

end
