(* ===== verification/Session_Invariant.thy ===== *)
theory Session_Invariant
  imports Session_Frames
begin

text \<open>
  The invariant of the running server: the registry, the channels, the voice rooms, the database and
  the write queues are consistent in every state the event loop reaches.
\<close>

subsection \<open>The invariant\<close>

text \<open>A write is in flight exactly while a live session has frames to write.\<close>

definition writes_ok :: "session \<Rightarrow> bool" where
  "writes_ok ss \<longleftrightarrow> (write_in_progress ss \<longrightarrow> pending_writes ss \<noteq> []) \<and>
     (pending_writes ss \<noteq> [] \<longrightarrow> write_in_progress ss \<or> ss_state ss = Dead)"

definition session_ok :: "server \<Rightarrow> sid \<Rightarrow> bool" where
  "session_ok s i \<longleftrightarrow> writes_ok (sess s i) \<and>
     (case owner_of s i of
        None \<Rightarrow> ss_state (sess s i) \<noteq> Handshake \<and> ss_state (sess s i) \<noteq> Dead \<longrightarrow> i < next_sid s
      | Some u \<Rightarrow> i < next_sid s \<and> the_user s i = u \<and> Established \<le> ss_state (sess s i))"

definition server_ok :: "server \<Rightarrow> bool" where
  "server_ok s \<longleftrightarrow> registry_ok s \<and> channels_ok s \<and> voice_ok (vrm s) \<and> db_ok (sdb s) \<and> (\<forall>i. session_ok s i)"

lemma server_okD:
  assumes "server_ok s"
  shows "registry_ok s" "channels_ok s" "voice_ok (vrm s)" "db_ok (sdb s)" "session_ok s i"
  using assms by (simp_all add: server_ok_def)

lemma owner_of_cong: "users_by_session (lst s') = users_by_session (lst s) \<Longrightarrow> owner_of s' i = owner_of s i"
  by (simp add: owner_of_def)

lemma established_le: "Established \<le> st \<longleftrightarrow> st = Established \<or> st = Dead"
  by (cases st) (simp_all add: less_eq_session_state_def)

lemma new_server_ok: "db_ok d \<Longrightarrow> server_ok (new_server c d)"
  using registry_ok_new [of c d] channels_ok_new [of c d]
  by (simp add: server_ok_def session_ok_def writes_ok_def new_server_def voice_ok_def room_at_def
      new_session_def owner_of_def new_listener_def)

text \<open>A step on one session: only that session's clause has to be shown.\<close>

lemma owner_upd_sess [simp]: "owner_of (upd_sess i f s) j = owner_of s j"
  by (rule owner_of_cong) (simp add: frame_simps)

lemma session_ok_upd_sess:
  "session_ok (upd_sess i f s) j \<longleftrightarrow>
     (if j = i
      then writes_ok (f (sess s i)) \<and>
        (case owner_of s i of
           None \<Rightarrow> ss_state (f (sess s i)) \<noteq> Handshake \<and> ss_state (f (sess s i)) \<noteq> Dead \<longrightarrow> i < next_sid s
         | Some u \<Rightarrow> i < next_sid s \<and> ss_user_id (f (sess s i)) = u \<and> Established \<le> ss_state (f (sess s i)))
      else session_ok s j)"
  by (simp add: session_ok_def frame_simps the_user_def split: option.split)

lemma upd_sess_ok:
  assumes "server_ok s" "session_ok (upd_sess i f s) i" shows "server_ok (upd_sess i f s)"
  using assms registry_ok_cong [of "upd_sess i f s" s] channels_ok_cong [of "upd_sess i f s" s]
    session_ok_upd_sess [of i f s]
  by (simp add: server_ok_def frame_simps)

subsection \<open>Handlers that only serve\<close>

lemma calm_server_ok:
  assumes "calm s s'" "server_ok s" shows "server_ok s'"
proof -
  have "owner_of s' i = owner_of s i" for i
    using assms(1) by (intro owner_of_cong) (simp add: calm_def)
  moreover have "registry_ok s'"
    using assms registry_ok_cong [of s' s] by (simp add: calm_def server_ok_def)
  moreover have "session_ok s' i" if "session_ok s i" "owner_of s' i = owner_of s i" for i
    using that assms(1) by (cases "owner_of s i") (simp_all add: calm_def session_ok_def writes_ok_def the_user_def)
  ultimately show ?thesis
    using assms by (simp add: calm_def server_ok_def)
qed

lemma auth_tail_calm: "calm s (auth_error X i n t r s)" "calm s (auth_fail X i n t r s)"
  by (auto simp: auth_error_def auth_fail_def intro!: calm_after)

lemma auth_refused_calm: "auth_refused X i a s = Some s' \<Longrightarrow> calm s s'"
  by (auto simp: auth_refused_def Let_def auth_tail_calm split: if_splits)

lemma dispatch_hello_ok:
  assumes "server_ok s" "dispatch_hello X i e s = Some (oc, s')" shows "server_ok s'"
proof -
  have calm: "calm s (ask_disconnect i r (send_error X i n t s))" for r n t by (intro calm_after calm_refl)
  have "server_ok (handle_hello X i h s)" if "ss_state (sess s i) = Hello" for h
  proof (cases "protocol_version h = kProtocolVersion")
    case True
    let ?s1 = "upd_sess i (\<lambda>ss. ss\<lparr>auth_nonce := random_bytes X 32, ss_state := AuthPending\<rparr>) s"
    have "session_ok s i" by (rule server_okD(5) [OF assms(1)])
    then have "session_ok ?s1 i"
      using that by (auto simp: session_ok_upd_sess session_ok_def writes_ok_def established_le frame_simps
          split: option.splits)
    then have ok1: "server_ok ?s1" by (rule upd_sess_ok [OF assms(1)])
    have "handle_hello X i h s = send_envelope X i MT_AUTH_CHALLENGE (M_AuthChallenge (random_bytes X 32)) ?s1"
      using True
      by (intro server.equality ext)
         (simp_all add: handle_hello_def Let_def set_state_def send_envelope_def frame_simps)
    then show ?thesis using calm_server_ok [OF calm_send_envelope ok1] by simp
  next
    case False
    then show ?thesis using calm_server_ok [OF calm assms(1)] by (simp add: handle_hello_def)
  qed
  then show ?thesis
    using assms calm_server_ok [OF calm assms(1)]
    by (auto simp: dispatch_hello_def split: if_splits option.splits)
qed

subsection \<open>Authentication\<close>

lemma calm_store_spk: "store_spk X a s = (oc, s') \<Longrightarrow> calm s s'"
  using usr_upsert_signed_prekey_ok [of "sdb s" X "auth_user_id a" "auth_signed_prekey a" "auth_spk_sig a"
      "auth_spk_id a" 0]
  by (auto simp: store_spk_def split_def Let_def intro!: calm_sdb split: if_splits)

fun result_server :: "auth_result \<Rightarrow> server" where
  "result_server (Auth_refused s) = s"
| "result_server (Auth_threw s) = s"
| "result_server (Auth_ok reset s) = s"

lemma calm_register_user: "calm s (result_server (register_user X i a s))"
proof -
  let ?u = "\<lparr>us_user_id = auth_user_id a, us_identity_pub = auth_identity_pub a, us_created_at = now_unix X\<rparr>"
  obtain oc d where d: "usr_insert X ?u (sdb s) = (oc, d)" by fastforce
  then have "db_ok (sdb s) \<Longrightarrow> db_ok d" using usr_insert_ok [of "sdb s" X ?u] by simp
  then have s1: "calm s (s\<lparr>sdb := d\<rparr>)" by (rule calm_sdb)
  obtain oc' s2 where s2: "store_spk X a (s\<lparr>sdb := d\<rparr>) = (oc', s2)" by fastforce
  have "calm s s2" using calm_trans [OF s1 calm_store_spk [OF s2]] .
  moreover have "calm s2 (s2\<lparr>sdb := snd (usr_set_password X (auth_user_id a) (auth_password a) (sdb s2))\<rparr>)"
    by (rule calm_sdb) (rule usr_set_password_ok)
  ultimately show ?thesis
    using d s2 calm_trans [OF s1 auth_tail_calm(1)]
    by (cases oc; cases oc') (auto simp: register_user_def Let_def intro: calm_trans)
qed

lemma calm_recover_identity: "calm s (result_server (recover_identity X i a s))"
proof -
  obtain oc d where d: "usr_clear_key_material X (auth_user_id a) (sdb s) = (oc, d)" by fastforce
  then have k: "db_ok (sdb s) \<Longrightarrow> db_ok d" using usr_clear_key_material_ok [of "sdb s" X "auth_user_id a"] by simp
  obtain oc' d' where d': "usr_update_identity_key X (auth_user_id a) (auth_identity_pub a) d = (oc', d')" by fastforce
  then have k': "db_ok d \<Longrightarrow> db_ok d'"
    using usr_update_identity_key_ok [of d X "auth_user_id a" "auth_identity_pub a"] by simp
  obtain oc2 s2 where s2: "store_spk X a (s\<lparr>sdb := d'\<rparr>) = (oc2, s2)" by fastforce
  have "calm s (s\<lparr>sdb := d\<rparr>)" "calm s (s\<lparr>sdb := d'\<rparr>)" using k k' by (blast intro: calm_sdb)+
  moreover have "calm s s2" by (rule calm_trans [OF calculation(2) calm_store_spk [OF s2]])
  ultimately show ?thesis
    using d d' s2 by (cases oc; cases oc'; cases oc2) (auto simp: recover_identity_def Let_def auth_tail_calm)
qed

lemma calm_backfill: "calm s (backfill_password X a s)"
  by (auto simp: backfill_password_def intro!: calm_sdb usr_set_password_ok)

lemma calm_auth_database: "calm s (result_server (auth_database X i a s))"
proof -
  have "calm s (result_server (case r of Auth_ok reset s \<Rightarrow>
          (case store_spk X a s of (Threw, s) \<Rightarrow> Auth_threw s | (Returned, s) \<Rightarrow> Auth_ok reset s) | r \<Rightarrow> r))"
    if "calm s (result_server r)" for r
    using that calm_store_spk
    by (cases r) (auto split: prod.split outcome.split intro: calm_trans)
  moreover have "calm s (result_server (if k then recover_identity X i a s
      else Auth_ok False (backfill_password X a s)))" for k
    by (simp add: calm_recover_identity calm_backfill)
  ultimately show ?thesis
    unfolding auth_database_def by (auto simp: calm_register_user split: option.split)
qed

text \<open>The step in which the session becomes the user's: its state changes, then the registry does.\<close>

definition enter :: "sid \<Rightarrow> string \<Rightarrow> server \<Rightarrow> server" where
  "enter i u s = set_state i Established (upd_sess i (\<lambda>ss. ss\<lparr>ss_user_id := u\<rparr>) s)"

lemma set_state_send: "set_state i st (send_envelope X i mt m s) = send_envelope X i mt m (set_state i st s)"
  by (intro server.equality ext) (simp_all add: set_state_def send_envelope_def frame_simps)

lemma log_in_same: "the_user s i = u \<Longrightarrow> log_in X i u s = on_session_authenticated X i s"
proof -
  assume "the_user s i = u"
  then have "upd_sess i (\<lambda>ss. ss\<lparr>ss_user_id := u\<rparr>) s = s"
    by (intro server.equality ext) (simp_all add: upd_sess_def the_user_def)
  then show ?thesis by (simp add: log_in_def)
qed

lemma calm_announce: "calm s (announce_reset X i r s)"
  by (auto simp: announce_reset_def intro!: calm_after)

lemma calm_bootstrap: "calm s (send_bootstrap X i s)"
  by (auto simp: send_bootstrap_def Let_def intro!: calm_after)

lemma calm_deliver_offline: "calm s (deliver_offline X i ps s)"
proof (induction X i ps s rule: deliver_offline.induct)
  case (2 X i p ps s)
  then show ?case by (auto intro: calm_trans calm_posts split: option.splits)
qed simp

lemma calm_send_offline: "calm s (send_offline X i s)"
proof -
  obtain msgs d where m: "off_fetch_and_delete X (the_user s i) (sdb s) = (msgs, d)" by fastforce
  then have "db_ok (sdb s) \<Longrightarrow> db_ok d"
    using off_fetch_db_ok [of "sdb s" X "the_user s i"] by simp
  then have s1: "calm s (s\<lparr>sdb := d\<rparr>)" by (rule calm_sdb)
  have "calm s (send_envelope X i mt m (deliver_offline X i msgs (send_envelope X i mt' m' (s\<lparr>sdb := d\<rparr>))))"
    for mt m mt' m'
    by (rule calm_trans [OF calm_trans [OF calm_trans [OF s1 calm_send_envelope] calm_deliver_offline] calm_send_envelope])
  then show ?thesis using m s1 by (simp add: send_offline_def Let_def)
qed

lemma auth_success_parts:
  obtains s1 where "calm (enter i (auth_user_id a) s) s1"
    "calm (log_in X i (auth_user_id a) s1) (auth_success X i a reset s)"
proof -
  let ?u = "auth_user_id a"
  let ?s0 = "send_envelope X i MT_AUTH_OK M_Empty (enter i ?u s)"
  let ?s1 = "send_bootstrap X i (announce_reset X i reset ?s0)"
  have s1: "calm (enter i ?u s) ?s1"
    by (rule calm_trans [OF calm_trans [OF calm_send_envelope calm_announce] calm_bootstrap])
  then have "the_user ?s1 i = ?u" by (simp add: calm_def enter_def the_user_def set_state_def)
  then have log: "log_in X i ?u ?s1 = on_session_authenticated X i ?s1" by (rule log_in_same)
  have "calm (log_in X i ?u ?s1) (auth_success X i a reset s)"
    unfolding log auth_success_def Let_def set_state_send broadcast_presence_def
      enter_def [symmetric]
    by (intro calm_trans [OF _ calm_posts(4)] calm_trans [OF _ calm_send_offline] calm_trans [OF _ calm_upd_sess]
        calm_ping_timer) simp_all
  with s1 show thesis by (rule that)
qed

lemma enter_ok:
  assumes "server_ok s" "ss_state (sess s i) = AuthPending"
  shows "server_ok (enter i u s)" "owner_of (enter i u s) i = None"
proof -
  have i: "session_ok s i" by (rule server_okD(5) [OF assms(1)])
  then show none: "owner_of (enter i u s) i = None"
    using assms(2) by (auto simp: session_ok_def enter_def set_state_def established_le split: option.splits)
  have e: "enter i u s = upd_sess i (\<lambda>ss. ss\<lparr>ss_user_id := u, ss_state := Established\<rparr>) s"
    by (simp add: enter_def set_state_def upd_sess_def)
  show "server_ok (enter i u s)"
    using i assms none unfolding e
    by (intro upd_sess_ok) (auto simp: session_ok_upd_sess session_ok_def writes_ok_def frame_simps)
qed

lemma log_in_server_ok:
  assumes "server_ok s" "owner_of s i = None" "ss_state (sess s i) = Established" "the_user s i = u"
  shows "server_ok (log_in X i u s)"
proof -
  have "registry_ok (log_in X i u s)"
    by (rule log_in_ok [OF server_okD(1) [OF assms(1)] assms(2)])
  moreover have "channels_ok (log_in X i u s)"
    using server_okD(2) [OF assms(1)] channels_ok_cong [of "log_in X i u s" s]
    by (simp add: log_in_def frame_simps)
  moreover have "session_ok (log_in X i u s) j" for j
    using server_okD(5) [OF assms(1), of i] server_okD(5) [OF assms(1), of j] assms(2-)
      registry_okD [OF server_okD(1) [OF assms(1)], of u j]
    by (auto simp: session_ok_def owner_log_in the_user_def)
       (auto simp: log_in_def the_user_def frame_simps split: option.splits)
  ultimately show ?thesis
    using server_okD(3,4) [OF assms(1)] by (simp add: server_ok_def log_in_def frame_simps)
qed

lemma auth_success_ok:
  assumes "server_ok s" "ss_state (sess s i) = AuthPending" shows "server_ok (auth_success X i a reset s)"
proof -
  obtain s1 where s1: "calm (enter i (auth_user_id a) s) s1"
    "calm (log_in X i (auth_user_id a) s1) (auth_success X i a reset s)" by (rule auth_success_parts)
  note e = enter_ok [OF assms, of "auth_user_id a"]
  have "owner_of s1 i = None" using e(2) s1(1) by (simp add: calm_def owner_of_def)
  moreover have "ss_state (sess s1 i) = Established" "the_user s1 i = auth_user_id a"
    using s1(1) by (simp_all add: calm_def enter_def set_state_def the_user_def)
  ultimately have "server_ok (log_in X i (auth_user_id a) s1)"
    by (intro log_in_server_ok calm_server_ok [OF s1(1) e(1)])
  then show ?thesis by (rule calm_server_ok [OF s1(2)])
qed

lemma handle_auth_response_ok:
  assumes "server_ok s" "ss_state (sess s i) = AuthPending"
  shows "server_ok (snd (handle_auth_response X i a s))"
proof -
  note c = calm_auth_database [of s X i a]
  have "ss_state (sess s' i) = AuthPending" if "calm s s'" for s' using that assms(2) by (simp add: calm_def)
  then show ?thesis
    using c assms calm_server_ok [OF c assms(1)] calm_server_ok [OF auth_refused_calm assms(1)]
    by (auto simp: handle_auth_response_def auth_success_ok split: option.split auth_result.split)
qed

subsection \<open>Every step keeps the invariant\<close>

lemma disconnected_vrm:
  "vrm (on_session_disconnected X i s) = vrm s \<or>
   (\<exists>fs u. vrm (on_session_disconnected X i s) = fst (voice_on_disconnect fs X u (vrm s)))"
  by (auto simp: on_session_disconnected_def voice_disconnect_def Let_def split_def frame_simps split: option.split)

lemma disconnected_server_ok:
  assumes "server_ok s" shows "server_ok (on_session_disconnected X i s)"
proof -
  let ?s = "on_session_disconnected X i s"
  have "voice_ok (vrm ?s)"
    using disconnected_vrm [of X i s] voice_on_disconnect_ok [OF server_okD(3) [OF assms]] server_okD(3) [OF assms]
    by auto
  moreover have "session_ok ?s j" for j
    using server_okD(5) [OF assms, of j]
    by (auto simp: session_ok_def owner_disconnected the_user_def frame_simps split: option.splits)
  ultimately show ?thesis
    using server_okD [OF assms] channels_ok_cong [of ?s s]
    by (simp add: server_ok_def disconnected_registry_ok frame_simps)
qed

lemma calm_msg_rate: "calm s (snd (msg_rate_ok X i s))"
  by (auto simp: msg_rate_ok_def split_def Let_def intro!: calm_upd_sess split: option.split)

lemma calm_with_message:
  "with_message X i s m n t k h = Some (oc, s') \<Longrightarrow>
   (\<And>x oc s'. h x = Some (oc, s') \<Longrightarrow> calm s s') \<Longrightarrow> calm s s'"
  by (auto simp: with_message_def calm_send_error split: if_splits option.splits)

lemma calm_dispatch_chat: "dispatch_chat X i e s = Some (oc, s') \<Longrightarrow> calm s s'"
  using calm_msg_rate [of s X i]
  by (auto simp: dispatch_chat_def split_def Let_def calm_send_error calm_chat
      intro: calm_trans calm_send_error split: if_splits option.splits)

lemma calm_dispatch_voice: "dispatch_voice_signal X i e s = Some (oc, s') \<Longrightarrow> calm s s'"
  using calm_msg_rate [of s X i]
  by (auto simp: dispatch_voice_signal_def split_def Let_def calm_send_error calm_voice_signal
      intro: calm_trans calm_send_error split: if_splits option.splits)

lemma calm_dispatch_upload: "dispatch_upload X i e s = Some (oc, s') \<Longrightarrow> calm s s'"
  by (auto simp: dispatch_upload_def Let_def calm_send_error calm_file_upload calm_file_request
      split: if_splits option.splits)

text \<open>Every message but a greeting and an authentication leaves the sessions as they are.\<close>

lemma calm_key_upload_of: "handle_key_upload X i ku s = (oc, s') \<Longrightarrow> calm s s'"
  using calm_key_upload [of s X i ku] by simp

lemma handle_envelope_calm:
  assumes "handle_envelope X i e s = Some (oc, s')" "env_type e \<noteq> MT_HELLO" "env_type e \<noteq> MT_AUTH_RESPONSE"
  shows "calm s s'"
  using assms
  by (auto simp: handle_envelope_def calm_ping calm_ping_timer calm_typing calm_read_receipt calm_voice_rooms
      calm_key_request calm_command calm_file_list
      elim!: calm_with_message intro: calm_dispatch_chat calm_dispatch_voice calm_dispatch_upload
        calm_file_download calm_key_upload_of
      split: message_type.splits if_splits)

lemma handle_envelope_ok:
  assumes "server_ok s" "handle_envelope X i e s = Some (oc, s')" shows "server_ok s'"
proof -
  have "server_ok s'" if "dispatch_auth X i e s = Some (oc, s')"
    using that assms(1) handle_auth_response_ok [OF assms(1), of i X]
      calm_server_ok [OF auth_tail_calm(1) assms(1)]
    by (auto simp: dispatch_auth_def auth_error_def split: if_splits option.splits) (metis snd_conv)
  moreover have "server_ok s'" if "env_type e \<noteq> MT_HELLO" "env_type e \<noteq> MT_AUTH_RESPONSE"
    by (rule calm_server_ok [OF handle_envelope_calm [OF assms(2) that] assms(1)])
  ultimately show ?thesis
    using assms dispatch_hello_ok [OF assms(1), of X i e oc s']
    by (cases "env_type e = MT_HELLO"; cases "env_type e = MT_AUTH_RESPONSE") (auto simp: handle_envelope_def)
qed

lemma on_frame_ok: "server_ok s \<Longrightarrow> on_frame_received X i data s = Some s' \<Longrightarrow> server_ok s'"
  using calm_server_ok [OF calm_send_error]
  by (auto simp: on_frame_received_def handle_envelope_ok split: option.splits)

lemma on_header_ok: "server_ok s \<Longrightarrow> server_ok (snd (on_header X i h s))"
  by (simp add: on_header_def Let_def disconnected_server_ok calm_server_ok [OF calm_send_error])

lemma own_step_ok:
  assumes "server_ok s" "writes_ok (sess s i) \<Longrightarrow> writes_ok (f (sess s i))"
    "ss_user_id (f (sess s i)) = ss_user_id (sess s i)"
    "ss_state (f (sess s i)) = ss_state (sess s i) \<or> ss_state (f (sess s i)) = Dead"
  shows "server_ok (upd_sess i f s)"
proof (rule upd_sess_ok [OF assms(1)])
  have "session_ok s i" by (rule server_okD(5) [OF assms(1)])
  with assms(2-) show "session_ok (upd_sess i f s) i"
    unfolding session_ok_upd_sess by (auto simp: session_ok_def the_user_def split: option.splits)
qed

lemma on_disconnect_ok: "server_ok s \<Longrightarrow> server_ok (on_disconnect i s)"
  unfolding on_disconnect_def set_state_def by (intro own_step_ok) (auto simp: writes_ok_def)

lemma do_write_same [simp]:
  "ss_state (do_write ss) = ss_state ss" "ss_user_id (do_write ss) = ss_user_id ss"
  "auth_nonce (do_write ss) = auth_nonce ss" "pending_writes (do_write ss) = pending_writes ss"
  by (simp_all add: do_write_def)

lemma queue_frame_same [simp]:
  "ss_state (queue_frame f ss) = ss_state ss" "ss_user_id (queue_frame f ss) = ss_user_id ss"
  "auth_nonce (queue_frame f ss) = auth_nonce ss"
  by (simp_all add: queue_frame_def Let_def)

lemma write_done_same [simp]:
  "ss_state (write_done ss) = ss_state ss" "ss_user_id (write_done ss) = ss_user_id ss"
  "auth_nonce (write_done ss) = auth_nonce ss"
  by (simp_all add: write_done_def Let_def)

lemma queue_frame_writes: "writes_ok ss \<Longrightarrow> writes_ok (queue_frame f ss)"
  by (auto simp: queue_frame_def do_write_def writes_ok_def Let_def)

lemma write_done_writes: "writes_ok (write_done ss)"
  by (auto simp: write_done_def do_write_def writes_ok_def Let_def)

lemma queue_frame_ok: "server_ok s \<Longrightarrow> server_ok (upd_sess i (queue_frame f) s)"
  by (rule own_step_ok) (simp_all add: queue_frame_writes)

lemma on_written_ok:
  assumes "server_ok s" "write_in_progress (sess s i)" shows "server_ok (on_written X ok i s)"
proof (cases ok)
  case True
  have "server_ok (upd_sess i write_done s)"
    by (rule own_step_ok [OF assms(1)]) (simp_all add: write_done_writes)
  then show ?thesis using True by (simp add: on_written_def)
next
  case False
  have two: "upd_sess i (\<lambda>ss. ss\<lparr>pending_writes := []\<rparr>) (upd_sess i (\<lambda>ss. ss\<lparr>write_in_progress := False\<rparr>) s) =
      upd_sess i (\<lambda>ss. ss\<lparr>write_in_progress := False, pending_writes := []\<rparr>) s"
    by (simp add: upd_sess_def)
  have "server_ok (upd_sess i (\<lambda>ss. ss\<lparr>write_in_progress := False, pending_writes := []\<rparr>) s)"
    by (rule own_step_ok [OF assms(1)]) (simp_all add: writes_ok_def)
  moreover have "server_ok (upd_sess i (\<lambda>ss. ss\<lparr>write_in_progress := False\<rparr>) s)" if "ss_state (sess s i) = Dead"
    by (rule own_step_ok [OF assms(1)]) (simp_all add: writes_ok_def that)
  ultimately show ?thesis
    using False by (simp add: on_written_def Let_def two disconnected_server_ok)
qed

lemma on_handshake_ok:
  assumes "server_ok s" "i < next_sid s" "ss_state (sess s i) = Handshake"
  shows "server_ok (on_handshake X ok i s)"
proof -
  have "session_ok s i" by (rule server_okD(5) [OF assms(1)])
  then have "session_ok (upd_sess i (\<lambda>ss. ss\<lparr>ss_state := Hello\<rparr>) s) i"
    using assms(2,3) unfolding session_ok_upd_sess
    by (auto simp: session_ok_def writes_ok_def established_le split: option.splits)
  from upd_sess_ok [OF assms(1) this] show ?thesis
    using assms(1) by (simp add: on_handshake_def set_state_def disconnected_server_ok)
qed

lemma calm_timer: "calm s (upd_sess i (\<lambda>ss. ss\<lparr>ping_timer := t\<rparr>) s)"
  by (rule calm_upd_sess) simp_all

lemma on_ping_ok: "server_ok s \<Longrightarrow> server_ok (on_ping_interval X i s)" "server_ok s \<Longrightarrow> server_ok (on_ping_timeout X i s)"
proof -
  assume s: "server_ok s"
  note t = calm_server_ok [OF calm_timer s, of i]
  have "calm s (post i e (upd_sess i (\<lambda>ss. ss\<lparr>next_seq := next_seq ss + 1, ping_sent := True, ping_timer := Timer_timeout\<rparr>) s))"
    for e s by (rule calm_trans [OF calm_upd_sess calm_posts(1)]) simp_all
  from calm_server_ok [OF this t] show "server_ok (on_ping_interval X i s)"
    using t by (simp add: on_ping_interval_def Let_def disconnected_server_ok)
  show "server_ok (on_ping_timeout X i s)"
    using t by (simp add: on_ping_timeout_def Let_def disconnected_server_ok)
qed

lemma out_update_ok: "server_ok s \<Longrightarrow> server_ok (s\<lparr>out := xs\<rparr>)"
  by (rule calm_server_ok [OF calm_posts(7)])

lemma shutdown_frame:
  "sess (shutdown s) = sess s" "next_sid (shutdown s) = next_sid s" "cmds (shutdown s) = cmds s"
  "vrm (shutdown s) = vrm s" "sdb (shutdown s) = sdb s"
proof -
  have "sess (ask_disconnect_all is r s) = sess s \<and> next_sid (ask_disconnect_all is r s) = next_sid s \<and>
      cmds (ask_disconnect_all is r s) = cmds s \<and> vrm (ask_disconnect_all is r s) = vrm s \<and>
      sdb (ask_disconnect_all is r s) = sdb s" for "is" r
    by (induction "is" r s rule: ask_disconnect_all.induct) (simp_all add: frame_simps)
  then show "sess (shutdown s) = sess s" "next_sid (shutdown s) = next_sid s" "cmds (shutdown s) = cmds s"
    "vrm (shutdown s) = vrm s" "sdb (shutdown s) = sdb s"
    by (simp_all add: shutdown_def Let_def)
qed

lemma owner_shutdown: "owner_of (shutdown s) i = (if shutting_down (lst s) then owner_of s i else None)"
  by (simp add: owner_of_def shutdown_def Let_def)

lemma on_signal_ok:
  assumes "server_ok s" shows "server_ok (on_signal failed s)"
proof -
  have "registry_ok (shutdown s)"
  proof (cases "shutting_down (lst s)")
    case True
    then show ?thesis using server_okD(1) [OF assms] by (simp add: shutdown_def)
  next
    case False
    then show ?thesis by (simp add: shutdown_def Let_def registry_ok_def find_session_def owner_of_def)
  qed
  moreover have "session_ok (shutdown s) i" for i
    using server_okD(5) [OF assms, of i]
    by (auto simp: session_ok_def owner_shutdown shutdown_frame the_user_def established_le split: option.splits)
  ultimately have "server_ok (shutdown s)"
    using server_okD [OF assms] channels_ok_cong [of "shutdown s" s]
    by (simp add: server_ok_def shutdown_frame)
  then show ?thesis using assms by (simp add: on_signal_def)
qed

lemma do_accept_ok:
  assumes "server_ok s" shows "server_ok (snd (snd (do_accept X failed ip ep s)))"
proof (cases failed)
  case True
  then show ?thesis using assms by (simp add: do_accept_def)
next
  case False
  have more: "calm s (s\<lparr>lst := (lst s)\<lparr>ip_rate_map := m\<rparr>\<rparr>)" for m
    using channels_ok_cong [of "s\<lparr>lst := (lst s)\<lparr>ip_rate_map := m\<rparr>\<rparr>" s] by (simp add: calm_def)
  show ?thesis
  proof (cases X ip ep s rule: do_accept_cases)
    case (ok l)
    let ?s = "s\<lparr>lst := (lst s)\<lparr>ip_rate_map := (ip_rate_map (lst s))(ip \<mapsto> snd (rl_allow (steady_now X) l)),
                active_connections := active_connections (lst s) + 1\<rparr>,
              sess := (sess s)(next_sid s := new_session ep), next_sid := Suc (next_sid s)\<rparr>"
    have "owner_of ?s j = owner_of s j" for j by (rule owner_of_cong) simp
    then have "session_ok ?s j" for j
      using server_okD(5) [OF assms, of j]
      by (auto simp: session_ok_def writes_ok_def new_session_def the_user_def split: option.splits)
    then have "server_ok ?s"
      using server_okD [OF assms] channels_ok_cong [of ?s s] registry_ok_cong [of ?s s] by (simp add: server_ok_def)
    then show ?thesis using False ok(1) by simp
  qed (use False assms calm_server_ok [OF more assms] in simp_all)
qed

lemma run_event_ok: "server_ok s \<Longrightarrow> server_ok (run_event X ev s)"
  by (cases ev) (simp_all add: queue_frame_ok on_disconnect_ok)

lemma server_step_ok: "server_step s s' \<Longrightarrow> server_ok s \<Longrightarrow> server_ok s'"
proof (induction rule: server_step.induct)
  case (Header s i X h n s')
  then show ?case using on_header_ok [of s X i h] by simp
qed (simp_all add: do_accept_ok on_handshake_ok on_frame_ok disconnected_server_ok on_written_ok on_ping_ok
      on_signal_ok run_event_ok out_update_ok)

end
