(* ===== verification/Server_Admin.thy ===== *)
theory Server_Admin
  imports Grotto_Text Command_Handler Offline_Store Session_Invariant
begin

text \<open>
  The owner of the server, \<open>admin/server_owner.cpp\<close>, and the administration socket: its framing and reader in
  \<open>grotto-chat-server-tui/src/admin_socket_listener.cpp\<close> and the commands \<open>Server::handle_admin_command\<close> of
  \<open>server.cpp\<close>.  The state is the server with its running flag, the keys of the owner, the events sent to
  the connected administration client, the shutdowns that wait for their delay in threads of their own,
  and those posted to the event loop.  The listener exists from construction on, so its null checks always
  pass.  Printing to the log is left out.
\<close>

subsection \<open>State\<close>

record owner =
  ow_loaded :: bool
  ow_public :: bytes
  ow_private :: bytes
  ow_start :: int

record admin_host =
  ah_server :: server
  ah_running :: bool
  ah_owner :: owner
  ah_start :: int
  ah_client :: bool
  ah_events :: "json list"
  ah_delayed :: "int list"
  ah_posted :: nat

definition new_owner :: "int \<Rightarrow> owner" where
  "new_owner now = \<lparr>ow_loaded = False, ow_public = [], ow_private = [], ow_start = now\<rparr>"

definition upd_server :: "(server \<Rightarrow> server) \<Rightarrow> admin_host \<Rightarrow> admin_host" where
  "upd_server f h = h\<lparr>ah_server := f (ah_server h)\<rparr>"

definition owner_id :: string where
  "owner_id = ''admin''"

subsection \<open>Keys of the owner\<close>

text \<open>
  The key file is written by \<open>generate_key_pair\<close> from the pair libsodium returns, public key first; loading takes
  it from its first 96 bytes.  \<open>writable\<close> says whether the file can be opened for writing.
\<close>

definition generate_key_pair ::
  "(bytes \<times> bytes) option \<Rightarrow> bool \<Rightarrow> string \<Rightarrow> (string \<Rightarrow> bytes option) \<Rightarrow> bool \<times> (string \<Rightarrow> bytes option)" where
  "generate_key_pair pair writable path disk =
     (case pair of
        None \<Rightarrow> (False, disk)
      | Some (pk, sk) \<Rightarrow> if \<not> writable then (False, disk) else (True, disk(path \<mapsto> pk @ sk)))"

definition load_keys :: "string \<Rightarrow> (string \<Rightarrow> bytes option) \<Rightarrow> owner \<Rightarrow> bool \<times> owner" where
  "load_keys path disk w =
     (case disk path of
        None \<Rightarrow> (False, w)
      | Some b \<Rightarrow>
          if length b < 32 + 64 then (False, w)
          else (True, w\<lparr>ow_public := take 32 b, ow_private := take 64 (drop 32 b), ow_loaded := True\<rparr>))"

definition owner_init ::
  "ctx \<Rightarrow> (bytes \<times> bytes) option \<Rightarrow> bool \<Rightarrow> string \<Rightarrow> (string \<Rightarrow> bytes option) \<Rightarrow>
   owner \<times> (string \<Rightarrow> bytes option)" where
  "owner_init X pair writable path disk =
     (let (ok, disk) = (if disk path = None then generate_key_pair pair writable path disk else (True, disk))
      in if \<not> ok then (new_owner (steady_now X), disk)
         else (snd (load_keys path disk (new_owner (steady_now X))), disk))"

subsection \<open>Messages of the owner\<close>

definition owner_envelope :: "ctx \<Rightarrow> string \<Rightarrow> string \<Rightarrow> envelope" where
  "owner_envelope X cmd text =
     \<lparr>env_seq = 0, env_ts = unix_ms X, env_type = MT_COMMAND_RESPONSE,
      env_payload = ser (codec X) (M_CommandResponse (make_response True text cmd))\<rparr>"

definition send_to_channel :: "ctx \<Rightarrow> string \<Rightarrow> string \<Rightarrow> admin_host \<Rightarrow> admin_host" where
  "send_to_channel X c text h =
     (if \<not> ow_loaded (ah_owner h) then h
      else if get_channel_members (ah_server h) c = [] then h
      else upd_server (broadcast_to_channel X c (owner_envelope X ''announce'' text) None) h)"

definition send_to_user :: "ctx \<Rightarrow> string \<Rightarrow> string \<Rightarrow> admin_host \<Rightarrow> admin_host" where
  "send_to_user X u text h =
     (if \<not> ow_loaded (ah_owner h) then h
      else
        let e = owner_envelope X ''notice'' text
        in case find_session (ah_server h) u of
             Some i \<Rightarrow> upd_server (post i e) h
           | None \<Rightarrow> upd_server (\<lambda>s. s\<lparr>sdb := snd (off_save X u (ser_env (codec X) e) (sdb s))\<rparr>) h)"

subsection \<open>Commands of the owner\<close>

type_synonym owner_result = "(bool \<times> string) \<times> admin_host"

definition no_reason :: string where "no_reason = ''No reason given''"

definition owner_announce :: "ctx \<Rightarrow> string list \<Rightarrow> admin_host \<Rightarrow> owner_result" where
  "owner_announce X args h =
     (if args = [] then ((False, ''Usage: /announce <message>''), h)
      else let text = join_words args
           in ((True, ''Announcement sent to all connected users: '' @ text),
               upd_server (broadcast (owner_envelope X ''announce'' text) None) h))"

definition owner_ban :: "string list \<Rightarrow> admin_host \<Rightarrow> owner_result" where
  "owner_ban args h =
     (case args of
        [] \<Rightarrow> ((False, ''Usage: /ban <user_id> [reason]''), h)
      | u # rest \<Rightarrow>
          let reason = (if rest = [] then no_reason else join_words rest)
          in if u = owner_id then ((False, ''Cannot ban the server owner''), h)
             else case find_session (ah_server h) u of
                    None \<Rightarrow> ((False, ''User is not online, and persistent server bans are not supported by the current server APIs''), h)
                  | Some i \<Rightarrow>
                      ((True, ''User '' @ u @ '' has been disconnected. Persistent server-wide bans are not supported by the current server APIs. Reason: '' @ reason),
                       upd_server (ask_disconnect i (''Banned by server owner: '' @ reason)) h))"

definition owner_kick :: "string list \<Rightarrow> admin_host \<Rightarrow> owner_result" where
  "owner_kick args h =
     (case args of
        [] \<Rightarrow> ((False, ''Usage: /kick <user_id> [reason]''), h)
      | u # rest \<Rightarrow>
          let reason = (if rest = [] then no_reason else join_words rest)
          in case find_session (ah_server h) u of
               None \<Rightarrow> ((False, ''User is not currently online: '' @ u), h)
             | Some i \<Rightarrow>
                 ((True, ''User '' @ u @ '' has been kicked. Reason: '' @ reason),
                  upd_server (ask_disconnect i (''Kicked by server owner: '' @ reason)) h))"

definition owner_shutdown :: "ctx \<Rightarrow> string list \<Rightarrow> admin_host \<Rightarrow> owner_result" where
  "owner_shutdown X args h =
     (let delay = (case args of [] \<Rightarrow> 0 | a # _ \<Rightarrow> (case stoi10 a of None \<Rightarrow> 0 | Some d \<Rightarrow> d));
          text = ''Server is shutting down'' @ (if delay > 0 then '' in '' @ show_int delay @ '' seconds'' else []);
          h = snd (owner_announce X [text] h)
      in if \<not> ah_running h then ((False, ''Server is not running''), h)
         else ((True, if delay > 0 then ''Server shutdown scheduled in '' @ show_int delay @ '' seconds''
                      else ''Server shutdown initiated''),
               h\<lparr>ah_delayed := ah_delayed h @ [max 0 delay]\<rparr>))"

definition owner_restart :: "ctx \<Rightarrow> admin_host \<Rightarrow> owner_result" where
  "owner_restart X h =
     (let h = snd (owner_announce X [''Server is restarting...''] h)
      in ((True, ''Server restart requested. This build does not support in-process restart, so the server is shutting down for an external supervisor to restart it.''),
          h\<lparr>ah_delayed := ah_delayed h @ [0]\<rparr>))"

definition uptime :: "ctx \<Rightarrow> admin_host \<Rightarrow> int" where
  "uptime X h = (steady_now X - ah_start h) div secs 1"

text \<open>The address the server binds to comes from its configuration.\<close>

definition owner_status :: "ctx \<Rightarrow> string \<Rightarrow> nat \<Rightarrow> admin_host \<Rightarrow> owner_result" where
  "owner_status X host port h =
     ((True, ''=== Server Status ==='' @ nl @
             ''Server Owner: '' @ owner_id @ nl @
             ''Status: '' @ (if ah_running h then ''Online'' else ''Offline'') @ nl @
             ''Online users: '' @ show_int (active_connections (lst (ah_server h))) @ nl @
             ''Active channels: '' @ show_nat (length (channels (cmds (ah_server h)))) @ nl @
             ''Uptime: '' @ show_int ((steady_now X - ow_start (ah_owner h)) div secs 1) @ '' seconds'' @ nl @
             ''Bind: '' @ host @ '':'' @ show_nat port @ nl), h)"

definition owner_config :: "string list \<Rightarrow> admin_host \<Rightarrow> owner_result" where
  "owner_config args h =
     (case args of
        [] \<Rightarrow> ((False, ''Usage: /config <key> [value]'' @ nl @ ''Use '' @ [CHR 0x27] @ ''/config list'' @ [CHR 0x27] @ '' to see available keys''), h)
      | key # rest \<Rightarrow>
          if key = ''list'' then ((True, ''Available config keys: max_connections, log_level, msg_rate_per_sec''), h)
          else case rest of
                 [] \<Rightarrow> ((False, ''Getting config values not yet implemented''), h)
               | v # _ \<Rightarrow> ((True, ''Config updated: '' @ key @ '' = '' @ v), h))"

definition owner_help :: "admin_host \<Rightarrow> owner_result" where
  "owner_help h = ((True,
     ''Available admin commands:'' @ nl @ nl @
     ''/announce <message>     - Send announcement to all connected users'' @ nl @
     ''/ban <user> [reason]    - Ban a user from the server'' @ nl @
     ''/kick <user> [reason]   - Disconnect a user from the server'' @ nl @
     ''/shutdown [delay]       - Gracefully shutdown the server'' @ nl @
     ''/restart                - Restart the server'' @ nl @
     ''/status                 - Show server status and statistics'' @ nl @
     ''/config <key> [value]   - View or change server configuration'' @ nl @
     ''/help                   - Show this help message'' @ nl @ nl @
     ''You can use abbreviated forms: /a for /announce, /b for /ban, etc.'' @ nl), h)"

definition execute_command :: "ctx \<Rightarrow> string \<Rightarrow> nat \<Rightarrow> string \<Rightarrow> string list \<Rightarrow> admin_host \<Rightarrow> owner_result" where
  "execute_command X host port command args h =
     (if command = ''announce'' \<or> command = ''a'' then owner_announce X args h
      else if command = ''ban'' \<or> command = ''b'' then owner_ban args h
      else if command = ''kick'' \<or> command = ''k'' then owner_kick args h
      else if command = ''shutdown'' \<or> command = ''stop'' then owner_shutdown X args h
      else if command = ''restart'' \<or> command = ''reboot'' then owner_restart X h
      else if command = ''status'' \<or> command = ''s'' then owner_status X host port h
      else if command = ''config'' \<or> command = ''cfg'' then owner_config args h
      else if command = ''help'' \<or> command = ''h'' \<or> command = ''?'' then owner_help h
      else ((False, ''Unknown command: '' @ command @ ''. Type /help for available commands.''), h))"

definition execute_command_line :: "ctx \<Rightarrow> string \<Rightarrow> nat \<Rightarrow> string \<Rightarrow> admin_host \<Rightarrow> owner_result" where
  "execute_command_line X host port line h =
     (let ws = words_of line;
          command = (case ws of [] \<Rightarrow> [] | w # _ \<Rightarrow> w);
          command = (if command \<noteq> [] \<and> hd command = CHR ''/'' then tl command else command)
      in execute_command X host port command (tl ws) h)"

subsection \<open>The administration socket\<close>

text \<open>An event is sent when a client is connected; \<open>stop\<close> of the listener disconnects it.\<close>

definition send_event :: "json \<Rightarrow> admin_host \<Rightarrow> admin_host" where
  "send_event j h = (if ah_client h then h\<lparr>ah_events := ah_events h @ [j]\<rparr> else h)"

definition send_admin_response :: "string \<Rightarrow> json + string \<Rightarrow> admin_host \<Rightarrow> admin_host" where
  "send_admin_response cmd r h =
     send_event (J_object ([(''type'', J_string ''response''), (''cmd'', J_string cmd), (''ok'', J_bool (isl r))] @
       (case r of Inl data \<Rightarrow> [(''data'', data)] | Inr error \<Rightarrow> [(''error'', J_string error)]))) h"

definition server_shutdown :: "admin_host \<Rightarrow> admin_host" where
  "server_shutdown h =
     (if \<not> ah_running h then h
      else upd_server shutdown (h\<lparr>ah_running := False, ah_client := False\<rparr>))"

definition users_json :: "server \<Rightarrow> json" where
  "users_json s = J_array (map (\<lambda>(u, endpoint). J_object [(''id'', J_string u), (''ip'', J_string endpoint),
     (''nickname'', J_string u), (''connected'', J_string [])]) (get_online_users s))"

definition parse_positive_int :: "string \<Rightarrow> string \<Rightarrow> admin_host \<Rightarrow> int option \<times> admin_host" where
  "parse_positive_int raw label h =
     (case stoi10 raw of
        None \<Rightarrow> (None, send_admin_response ''set_config'' (Inr (''Invalid numeric value for '' @ label)) h)
      | Some n \<Rightarrow>
          if n \<le> 0 then (None, send_admin_response ''set_config'' (Inr (label @ '' must be > 0'')) h)
          else (Some n, h))"

definition admin_set_config :: "string \<Rightarrow> string \<Rightarrow> admin_host \<Rightarrow> admin_host" where
  "admin_set_config key v h =
     (let ok = send_admin_response ''set_config'' (Inl (J_object [(''key'', J_string key), (''value'', J_string v)]))
      in if key = ''max_connections'' then
           (case parse_positive_int v key h of
              (None, h) \<Rightarrow> h
            | (Some n, h) \<Rightarrow> ok (upd_server (set_max_connections n) h))
         else if key = ''msg_rate_per_sec'' then
           (case parse_positive_int v key h of
              (None, h) \<Rightarrow> h
            | (Some n, h) \<Rightarrow> ok (upd_server (set_rate_limits n (-1)) h))
         else if key = ''motd'' then ok (upd_server (\<lambda>s. s\<lparr>cfg := (cfg s)\<lparr>cfg_motd := v\<rparr>\<rparr>) h)
         else send_admin_response ''set_config'' (Inr (''Unknown key: '' @ key)) h)"

definition admin_kick :: "string \<Rightarrow> string \<Rightarrow> admin_host \<Rightarrow> admin_host" where
  "admin_kick u reason h =
     (if u = [] then send_admin_response ''kick'' (Inr ''Invalid user_id or no listener'') h
      else case find_session (ah_server h) u of
             None \<Rightarrow> send_admin_response ''kick'' (Inr (''User not found: '' @ u)) h
           | Some i \<Rightarrow> send_admin_response ''kick'' (Inl (J_object [(''user_id'', J_string u)]))
                        (upd_server (ask_disconnect i reason) h))"

definition admin_ban :: "string \<Rightarrow> string \<Rightarrow> admin_host \<Rightarrow> admin_host" where
  "admin_ban u reason h =
     (if u = [] then send_admin_response ''ban'' (Inr ''Invalid user_id or no listener'') h
      else
        let h = (case find_session (ah_server h) u of None \<Rightarrow> h | Some i \<Rightarrow> upd_server (ask_disconnect i reason) h)
        in send_admin_response ''ban'' (Inl (J_object [(''user_id'', J_string u)])) h)"

text \<open>
  \<open>None\<close> is an exception of the JSON library: a command or parameter that is not a string, or parameters that
  are not an object.
\<close>

definition handle_admin_command :: "ctx \<Rightarrow> string \<Rightarrow> json \<Rightarrow> admin_host \<Rightarrow> admin_host option" where
  "handle_admin_command X version j h =
     (if \<not> json_contains j ''cmd'' then Some h
      else case Option.bind (json_value_json j ''cmd'' J_null) json_string of
        None \<Rightarrow> None
      | Some command \<Rightarrow>
          (case json_value_json j ''params'' (J_object []) of
             None \<Rightarrow> None
           | Some params \<Rightarrow>
               let str = json_value_string params
               in if command = ''kick'' then
                    (case (str ''user_id'' [], str ''reason'' ''Kicked by admin'') of
                       (Some u, Some r) \<Rightarrow> Some (admin_kick u r h) | _ \<Rightarrow> None)
                  else if command = ''ban'' then
                    (case (str ''user_id'' [], str ''reason'' ''Banned by admin'') of
                       (Some u, Some r) \<Rightarrow> Some (admin_ban u r h) | _ \<Rightarrow> None)
                  else if command = ''set_config'' then
                    (case (str ''key'' [], str ''value'' []) of
                       (Some k, Some v) \<Rightarrow> Some (admin_set_config k v h) | _ \<Rightarrow> None)
                  else Some (
                    if command = ''subscribe'' then send_admin_response ''subscribe'' (Inl J_null) h
                    else if command = ''status'' then
                      send_admin_response ''status'' (Inl (J_object [(''uptime'', J_int (uptime X h)),
                        (''connections'', J_int (active_connections (lst (ah_server h)))), (''version'', J_string version)])) h
                    else if command = ''users'' then send_admin_response ''users'' (Inl (users_json (ah_server h))) h
                    else if command = ''shutdown'' then
                      (let h = send_admin_response ''shutdown'' (Inl (J_object [(''message'', J_string ''Shutting down...'')])) h
                       in h\<lparr>ah_posted := ah_posted h + 1\<rparr>)
                    else if command = ''restart'' then
                      (let h = send_admin_response ''restart'' (Inl (J_object [(''message'', J_string ''Restarting...'')])) h
                       in h\<lparr>ah_posted := ah_posted h + 1\<rparr>)
                    else if command = ''update'' then
                      send_admin_response ''update'' (Inr ''Update not yet implemented server-side'') h
                    else send_admin_response command (Inr (''Unknown command: '' @ command)) h)))"

text \<open>
  Frames of the socket: four bytes of length and a JSON text, at most 64 KiB.  Writing and parsing JSON are the
  library's, \<open>dump\<close> and \<open>parse\<close>.  An exception of a command is caught only when it is one of the parser, so
  \<open>None\<close> here ends the server.
\<close>

definition encode_admin_frame :: "(json \<Rightarrow> bytes) \<Rightarrow> json \<Rightarrow> bytes" where
  "encode_admin_frame dump j = be_bytes 4 (length (dump j)) @ dump j"

definition kMaxMsgSize :: nat where "kMaxMsgSize = 65536"

definition process_message :: "ctx \<Rightarrow> string \<Rightarrow> (bytes \<Rightarrow> json option) \<Rightarrow> bytes \<Rightarrow> admin_host \<Rightarrow> admin_host option" where
  "process_message X version parse bs h =
     (case parse bs of None \<Rightarrow> Some h | Some j \<Rightarrow> handle_admin_command X version j h)"

text \<open>The bytes of a connection, read frame by frame; a bad length ends the connection.\<close>

function admin_read :: "ctx \<Rightarrow> string \<Rightarrow> (bytes \<Rightarrow> json option) \<Rightarrow> bytes \<Rightarrow> admin_host \<Rightarrow> admin_host option" where
  "admin_read X version parse bs h =
     (if length bs < 4 then Some h
      else
        let n = be_value (take 4 bs)
        in if n = 0 \<or> n > kMaxMsgSize then Some (h\<lparr>ah_client := False\<rparr>)
           else if length bs < 4 + n then Some h
           else case process_message X version parse (take n (drop 4 bs)) h of
                  None \<Rightarrow> None
                | Some h \<Rightarrow> if ah_running h then admin_read X version parse (drop (4 + n) bs) h else Some h)"
  by pat_completeness auto
termination
  by (relation "measure (\<lambda>(_, _, _, bs, _). length bs)") auto

declare admin_read.simps [simp del]

subsection \<open>Timers and threads\<close>

text \<open>The periodic state for the administration client, and the hourly cleanup.\<close>

definition send_periodic_state :: "ctx \<Rightarrow> string \<Rightarrow> admin_host \<Rightarrow> admin_host" where
  "send_periodic_state X version h =
     (if ah_running h \<and> ah_client h then
        send_event (J_object [(''type'', J_string ''stats''), (''data'', J_object [(''uptime'', J_int (uptime X h)),
            (''connections'', J_int (active_connections (lst (ah_server h)))), (''version'', J_string version)])])
          (send_event (J_object [(''type'', J_string ''users''), (''data'', users_json (ah_server h))]) h)
      else h)"

definition run_cleanup :: "ctx \<Rightarrow> admin_host \<Rightarrow> admin_host" where
  "run_cleanup X h =
     (if \<not> ah_running h then h
      else upd_server (\<lambda>s. s\<lparr>sdb := snd (fil_cleanup_expired X (snd (off_cleanup_expired X (sdb s))))\<rparr>) h)"

inductive host_step :: "admin_host \<Rightarrow> admin_host \<Rightarrow> bool" where
  Serve: "server_step (ah_server h) s' \<Longrightarrow> ah_running h \<Longrightarrow> host_step h (upd_server (\<lambda>_. s') h)"
| Owner_command: "host_step h (snd (execute_command_line X host port line h))"
| Owner_message: "host_step h (send_to_user X u msg h)"
| Owner_channel: "host_step h (send_to_channel X c msg h)"
| Client_connects: "ah_running h \<Longrightarrow> host_step h (h\<lparr>ah_client := True\<rparr>)"
| Client_leaves: "host_step h (h\<lparr>ah_client := False\<rparr>)"
| Admin_bytes: "ah_client h \<Longrightarrow> admin_read X version parse bs h = Some h' \<Longrightarrow> host_step h h'"
| Periodic: "host_step h (send_periodic_state X version h)"
| Cleanup: "host_step h (run_cleanup X h)"
| Delay_over: "ah_delayed h = xs @ d # ys \<Longrightarrow> host_step h (server_shutdown (h\<lparr>ah_delayed := xs @ ys\<rparr>))"
| Posted: "ah_posted h > 0 \<Longrightarrow> host_step h (server_shutdown (h\<lparr>ah_posted := ah_posted h - 1\<rparr>))"

subsection \<open>What administration can change\<close>

text \<open>The server as it was, but for its limits, its message of the day and what is posted.\<close>

definition same_data :: "server \<Rightarrow> server \<Rightarrow> bool" where
  "same_data s s' \<longleftrightarrow> sess s' = sess s \<and> next_sid s' = next_sid s \<and> lst s' = lst s \<and> cmds s' = cmds s \<and>
     vrm s' = vrm s \<and> sdb s' = sdb s \<and> scanner s' = scanner s"

lemma same_data_refl [simp]: "same_data s s"
  by (simp add: same_data_def)

lemma same_data_trans: "same_data s t \<Longrightarrow> same_data t u \<Longrightarrow> same_data s u"
  by (simp add: same_data_def)


lemma server_ok_same_data:
  assumes "same_data s s'" "server_ok s"
  shows "server_ok s'"
proof -
  note same = assms(1) [unfolded same_data_def]
  have "session_ok s' i = session_ok s i" for i
    using same by (simp add: session_ok_def owner_of_def the_user_def cong: option.case_cong)
  with assms(2) same show ?thesis
    by (simp add: server_ok_def registry_ok_def find_session_def owner_of_def channels_ok_def table_ok_def chan_at_def)
qed

lemma upd_server_simps [simp]:
  "ah_server (upd_server f h) = f (ah_server h)" "ah_running (upd_server f h) = ah_running h"
  "ah_client (upd_server f h) = ah_client h" "ah_events (upd_server f h) = ah_events h"
  "ah_delayed (upd_server f h) = ah_delayed h" "ah_posted (upd_server f h) = ah_posted h" "ah_owner (upd_server f h) = ah_owner h"
  by (simp_all add: upd_server_def)

lemma send_event_simps [simp]:
  "ah_server (send_event j h) = ah_server h" "ah_running (send_event j h) = ah_running h" "ah_client (send_event j h) = ah_client h"
  "ah_delayed (send_event j h) = ah_delayed h" "ah_posted (send_event j h) = ah_posted h" "ah_owner (send_event j h) = ah_owner h"
  by (simp_all add: send_event_def)

lemma send_admin_response_simps [simp]:
  "ah_server (send_admin_response c r h) = ah_server h" "ah_running (send_admin_response c r h) = ah_running h"
  "ah_client (send_admin_response c r h) = ah_client h" "ah_delayed (send_admin_response c r h) = ah_delayed h"
  "ah_posted (send_admin_response c r h) = ah_posted h" "ah_owner (send_admin_response c r h) = ah_owner h"
  by (simp_all add: send_admin_response_def)

text \<open>A posting: nothing but posts to sessions that are registered.\<close>

definition only_disconnects :: "server \<Rightarrow> server \<Rightarrow> bool" where
  "only_disconnects s s' \<longleftrightarrow> (\<exists>evs. out s' = out s @ evs \<and>
     (\<forall>ev \<in> set evs. \<exists>i r u. ev = Disconnect i r \<and> find_session s u = Some i))"

lemma only_disconnects_refl [simp]: "only_disconnects s s"
  by (simp add: only_disconnects_def)

text \<open>
  The limits the administration may set.  With a new rate of messages the code passes \<open>-1\<close> for the rate of
  connections, meant as unchanged, and the listener stores it.
\<close>

definition limits_set :: "server_config \<Rightarrow> server_config \<Rightarrow> bool" where
  "limits_set c c' \<longleftrightarrow> c' = c\<lparr>max_connections := max_connections c', msg_rate_per_sec := msg_rate_per_sec c',
       conn_rate_per_min := conn_rate_per_min c', cfg_motd := cfg_motd c'\<rparr> \<and>
     (max_connections c' = max_connections c \<or> 0 < max_connections c') \<and>
     (msg_rate_per_sec c' = msg_rate_per_sec c \<and> conn_rate_per_min c' = conn_rate_per_min c \<or>
      0 < msg_rate_per_sec c' \<and> conn_rate_per_min c' = -1)"

lemma limits_set_refl [simp]: "limits_set c c"
  by (simp add: limits_set_def)

definition admin_effect :: "admin_host \<Rightarrow> admin_host \<Rightarrow> bool" where
  "admin_effect h h' \<longleftrightarrow> same_data (ah_server h) (ah_server h') \<and> only_disconnects (ah_server h) (ah_server h') \<and>
     limits_set (cfg (ah_server h)) (cfg (ah_server h')) \<and> ah_running h' = ah_running h \<and> ah_owner h' = ah_owner h"

lemma disconnect_effect:
  assumes "find_session (ah_server h) u = Some i" "ah_server h' = ask_disconnect i r (ah_server h)"
    "ah_running h' = ah_running h" "ah_owner h' = ah_owner h"
  shows "admin_effect h h'"
proof -
  have "only_disconnects (ah_server h) (ah_server h')"
    unfolding only_disconnects_def using assms(1,2) by (intro exI [of _ "[Disconnect i r]"]) (auto simp: ask_disconnect_def)
  then show ?thesis using assms by (simp add: admin_effect_def same_data_def ask_disconnect_def)
qed

lemma set_config_effect: "admin_effect h (admin_set_config k v h)"
  by (auto simp: admin_set_config_def parse_positive_int_def Let_def admin_effect_def same_data_def only_disconnects_def
      limits_set_def set_max_connections_def set_rate_limits_def split: option.splits if_splits)

lemma handle_admin_command_effect:
  assumes "handle_admin_command X version j h = Some h'"
  shows "admin_effect h h'"
proof -
  have "admin_effect h' h'" by (simp add: admin_effect_def)
  moreover have same: "admin_effect h h''" if "ah_server h'' = ah_server h" "ah_running h'' = ah_running h" "ah_owner h'' = ah_owner h" for h''
    using that by (simp add: admin_effect_def)
  moreover have kick: "admin_effect h (admin_kick u r h)" for u r
  proof (cases "find_session (ah_server h) u")
    case (Some i)
    then show ?thesis by (cases "u = []") (auto simp: admin_kick_def intro: same disconnect_effect)
  qed (simp add: admin_kick_def same)
  moreover have ban: "admin_effect h (admin_ban u r h)" for u r
  proof (cases "find_session (ah_server h) u")
    case (Some i)
    then show ?thesis by (cases "u = []") (auto simp: admin_ban_def Let_def intro: same disconnect_effect)
  qed (simp add: admin_ban_def same)
  ultimately show ?thesis
    using assms
    by (auto simp: handle_admin_command_def Let_def kick ban set_config_effect split: if_splits option.splits intro: same)
qed


lemma admin_effect_refl: "ah_server h' = ah_server h \<Longrightarrow> ah_running h' = ah_running h \<Longrightarrow> ah_owner h' = ah_owner h \<Longrightarrow> admin_effect h h'"
  by (simp add: admin_effect_def)

lemma limits_set_trans:
  assumes "limits_set a b" "limits_set b c"
  shows "limits_set a c"
proof -
  have "c = a\<lparr>max_connections := max_connections c, msg_rate_per_sec := msg_rate_per_sec c,
       conn_rate_per_min := conn_rate_per_min c, cfg_motd := cfg_motd c\<rparr>"
    by (subst assms(2) [unfolded limits_set_def, THEN conjunct1], subst assms(1) [unfolded limits_set_def, THEN conjunct1]) simp
  moreover have "max_connections c = max_connections a \<or> 0 < max_connections c"
    "msg_rate_per_sec c = msg_rate_per_sec a \<and> conn_rate_per_min c = conn_rate_per_min a \<or>
      0 < msg_rate_per_sec c \<and> conn_rate_per_min c = -1"
    using assms unfolding limits_set_def by auto
  ultimately show ?thesis by (simp add: limits_set_def)
qed

lemma admin_effect_trans:
  assumes "admin_effect a b" "admin_effect b c"
  shows "admin_effect a c"
proof -
  have "find_session (ah_server b) = find_session (ah_server a)"
    using assms(1) by (simp add: admin_effect_def same_data_def find_session_def fun_eq_iff)
  moreover obtain xs ys where "out (ah_server b) = out (ah_server a) @ xs" "out (ah_server c) = out (ah_server b) @ ys"
    "\<forall>ev \<in> set xs. \<exists>i r u. ev = Disconnect i r \<and> find_session (ah_server a) u = Some i"
    "\<forall>ev \<in> set ys. \<exists>i r u. ev = Disconnect i r \<and> find_session (ah_server b) u = Some i"
    using assms unfolding admin_effect_def only_disconnects_def by blast
  ultimately have "only_disconnects (ah_server a) (ah_server c)"
    unfolding only_disconnects_def by (intro exI [of _ "xs @ ys"]) auto
  moreover have "limits_set (cfg (ah_server a)) (cfg (ah_server c))"
    using assms limits_set_trans unfolding admin_effect_def by blast
  ultimately show ?thesis
    using assms by (auto simp: admin_effect_def intro: same_data_trans)
qed

lemma admin_read_effect:
  "admin_read X version parse bs h = Some h' \<Longrightarrow> admin_effect h h'"
proof (induction X version parse bs h rule: admin_read.induct)
  case (1 X version parse bs h)
  let ?n = "be_value (take 4 bs)"
  show ?case
  proof (cases "length bs < 4 \<or> ?n = 0 \<or> ?n > kMaxMsgSize \<or> length bs < 4 + ?n")
    case True
    then show ?thesis using 1(2) by (subst (asm) admin_read.simps) (auto simp: Let_def intro: admin_effect_refl split: if_splits)
  next
    case False
    then obtain h1 where h1: "process_message X version parse (take ?n (drop 4 bs)) h = Some h1"
      using 1(2) by (subst (asm) admin_read.simps) (auto simp: Let_def split: option.splits)
    then have e: "admin_effect h h1"
      using handle_admin_command_effect by (auto simp: process_message_def intro: admin_effect_refl split: option.splits)
    have "(if ah_running h1 then admin_read X version parse (drop (4 + ?n) bs) h1 else Some h1) = Some h'"
      using 1(2) h1 False by (subst (asm) admin_read.simps) (auto simp: Let_def)
    then show ?thesis
      using 1(1) [of ?n h1] False h1 e admin_effect_trans [OF e] by (auto split: if_splits)
  qed
qed

text \<open>An administration command that is no string ends the server: the exception of the JSON library is not caught.\<close>

lemma command_of_wrong_type_is_fatal:
  "parse bs = Some (J_object [(''cmd'', J_int 5)]) \<Longrightarrow> process_message X version parse bs h = None"
  by (simp add: process_message_def handle_admin_command_def)

text \<open>A frame that was written is read whole.\<close>

lemma admin_frame_roundtrip:
  assumes "parse (dump j) = Some j" "0 < length (dump j)" "length (dump j) \<le> kMaxMsgSize"
    and "handle_admin_command X version j h = Some h1" "ah_running h1"
  shows "admin_read X version parse (encode_admin_frame dump j @ rest) h = admin_read X version parse rest h1"
proof -
  have "be_value (be_bytes 4 (length (dump j))) = length (dump j)"
    using assms(3) by (intro be_value_be_bytes) (simp add: kMaxMsgSize_def)
  with assms show ?thesis
    by (subst admin_read.simps) (simp add: encode_admin_frame_def process_message_def Let_def)
qed

subsection \<open>The administered server\<close>

lemma owner_announce_simps [simp]:
  "ah_running (snd (owner_announce X args h)) = ah_running h"
  "same_data (ah_server h) (ah_server (snd (owner_announce X args h)))"
  by (simp_all add: owner_announce_def same_data_def Let_def frame_simps)

lemma same_data_disconnect: "same_data s (ask_disconnect i r s)"
  by (simp add: same_data_def ask_disconnect_def)

definition owner_effect :: "admin_host \<Rightarrow> admin_host \<Rightarrow> bool" where
  "owner_effect h h' \<longleftrightarrow> same_data (ah_server h) (ah_server h') \<and> ah_running h' = ah_running h"

lemma owner_effects:
  "owner_effect h (snd (owner_announce X args h))" "owner_effect h (snd (owner_ban args h))"
  "owner_effect h (snd (owner_kick args h))" "owner_effect h (snd (owner_shutdown X args h))"
  "owner_effect h (snd (owner_restart X h))" "owner_effect h (snd (owner_status X host port h))"
  "owner_effect h (snd (owner_config args h))" "owner_effect h (snd (owner_help h))"
  by (simp_all add: owner_effect_def owner_ban_def owner_kick_def owner_shutdown_def owner_restart_def owner_status_def
      owner_config_def owner_help_def Let_def same_data_disconnect
      split: list.split option.split)

lemma execute_command_effect: "owner_effect h (snd (execute_command X host port command args h))"
  by (simp add: execute_command_def owner_effects) (simp add: owner_effect_def)

lemma server_shutdown_ok: "server_ok (ah_server h) \<Longrightarrow> server_ok (ah_server (server_shutdown h))"
  using on_signal_ok [of "ah_server h" False] by (simp add: server_shutdown_def on_signal_def)

lemma server_shutdown_running [simp]: "\<not> ah_running (server_shutdown h)"
  by (simp add: server_shutdown_def)

lemma server_ok_sdb: "server_ok s \<Longrightarrow> db_ok d \<Longrightarrow> server_ok (s\<lparr>sdb := d\<rparr>)"
  by (rule calm_server_ok [OF calm_sdb]) simp_all

lemma off_cleanup_db_ok: "db_ok d \<Longrightarrow> db_ok (snd (off_cleanup_expired X d))"
  using off_cleanup_wf [of d X]
  by (auto simp: db_ok_def users_fk_def opk_wf_def files_fk_def off_cleanup_expired_def)

lemma host_step_ok:
  assumes "host_step h h'" "server_ok (ah_server h)"
  shows "server_ok (ah_server h') \<and> (ah_running h' \<longrightarrow> ah_running h)"
  using assms
proof (induction rule: host_step.induct)
  case (Owner_command h X host port line)
  then show ?case
    using execute_command_effect server_ok_same_data unfolding execute_command_line_def Let_def owner_effect_def by blast
next
  case (Owner_message h X u msg)
  then show ?case
    using off_save_db_ok [of "sdb (ah_server h)" X u "ser_env (codec X) (owner_envelope X ''notice'' msg)"]
      server_okD(4) [OF Owner_message] server_ok_same_data [OF _ Owner_message]
    by (auto simp: send_to_user_def Let_def same_data_def post_def split: option.split intro: server_ok_sdb)
next
  case (Owner_channel h X c msg)
  let ?s = "ah_server h" and ?e = "owner_envelope X ''announce'' msg"
  let ?b = "broadcast_to_channel X c ?e None ?s"
  have "server_ok (?s\<lparr>sdb := sdb ?b\<rparr>)"
    using broadcast_to_channel_db [OF server_okD(4) [OF Owner_channel]] by (rule server_ok_sdb [OF Owner_channel])
  then have "server_ok ?b" by (rule server_ok_same_data [rotated]) (simp add: same_data_def frame_simps)
  with Owner_channel show ?case by (simp add: send_to_channel_def)
next
  case (Admin_bytes h X version parse bs h')
  then show ?case using admin_read_effect [OF Admin_bytes(2)] by (auto simp: admin_effect_def intro: server_ok_same_data)
next
  case (Cleanup h X)
  then show ?case
    using server_okD(4) [OF Cleanup] fil_cleanup_ok by (auto simp: run_cleanup_def intro!: server_ok_sdb off_cleanup_db_ok)
qed (auto simp: server_step_ok send_periodic_state_def server_shutdown_ok)


lemma host_steps_ok: "host_step\<^sup>*\<^sup>* h h' \<Longrightarrow> server_ok (ah_server h) \<Longrightarrow> server_ok (ah_server h')"
  by (induction rule: rtranclp_induct) (auto dest: host_step_ok)

text \<open>
  C18: administration keeps the server consistent.  Whatever the owner and the clients of the administration socket
  send, interleaved in any way with the events of the event loop, the timers and the delayed shutdowns,
  registry, channels, voice rooms, database and write queues stay consistent, and a server that has been
  shut down does not run again.
\<close>

theorem administered_server_consistent:
  assumes "server_ok (ah_server h)" and "host_step\<^sup>*\<^sup>* h h'"
  shows "server_ok (ah_server h') \<and> (ah_running h' \<longrightarrow> ah_running h)"
  using assms(2,1) by (induction rule: rtranclp_induct) (auto dest: host_step_ok)

definition demo_host :: admin_host where
  "demo_host = \<lparr>ah_server = new_server default_config empty_db, ah_running = True, ah_owner = new_owner 0, ah_start = 0,
     ah_client = True, ah_events = [], ah_delayed = [], ah_posted = 0\<rparr>"

theorem administered_server_consistent_witness:
  "let h = snd (execute_command_line demo_ctx ''0.0.0.0'' 6667 ''/shutdown 5'' demo_host)
   in server_ok (ah_server (server_shutdown (h\<lparr>ah_delayed := []\<rparr>)))"
proof -
  let ?h = "snd (execute_command_line demo_ctx ''0.0.0.0'' 6667 ''/shutdown 5'' demo_host)"
  have "ah_delayed ?h = [] @ 5 # []" by code_simp
  then have "host_step ?h (server_shutdown (?h\<lparr>ah_delayed := [] @ []\<rparr>))" by (rule Delay_over)
  moreover have "host_step demo_host ?h" by (rule Owner_command)
  ultimately have run: "host_step\<^sup>*\<^sup>* demo_host (server_shutdown (?h\<lparr>ah_delayed := []\<rparr>))" by simp
  have "server_ok (ah_server demo_host)" by (simp add: demo_host_def new_server_ok db_ok_empty)
  from administered_server_consistent [OF this run] show ?thesis by simp
qed


definition demo_limit :: json where
  "demo_limit = J_object [(''cmd'', J_string ''set_config''),
     (''params'', J_object [(''key'', J_string ''max_connections''), (''value'', J_string ''7'')])]"


end
