(* ===== verification/Server_Config.thy ===== *)
theory Server_Config
  imports Server_Admin
begin

text \<open>
  The configuration of the server, \<open>config.cpp\<close> and \<open>config.hpp\<close>, and the command line of \<open>main.cpp\<close>.  The TOML
  parser is a library: a document is a table of values, \<open>parse\<close> turns a text into one or throws.  A value that
  is asked for as a string, integer or boolean and is none throws the library's \<open>type_error\<close>, a missing key
  \<open>out_of_range\<close>; the getters of the code catch both.  An integer is converted to the type of its field as
  \<open>static_cast\<close> does.  Exceptions of the library that escape are \<open>Library\<close>, those of the code \<open>Runtime\<close>.
\<close>

subsection \<open>Values\<close>

datatype toml =
    T_string string
  | T_int int
  | T_bool bool
  | T_array "toml list"
  | T_table "(string \<times> toml) list"
  | T_other

datatype config_error = Runtime string | Library

fun toml_string :: "toml \<Rightarrow> string option" where
  "toml_string (T_string s) = Some s"
| "toml_string _ = None"

fun toml_int :: "toml \<Rightarrow> int option" where
  "toml_int (T_int i) = Some i"
| "toml_int _ = None"

fun toml_bool :: "toml \<Rightarrow> bool option" where
  "toml_bool (T_bool b) = Some b"
| "toml_bool _ = None"

fun all_strings :: "toml list \<Rightarrow> string list option" where
  "all_strings [] = Some []"
| "all_strings (v # vs) = (case (toml_string v, all_strings vs) of (Some s, Some ss) \<Rightarrow> Some (s # ss) | _ \<Rightarrow> None)"

fun toml_strings :: "toml \<Rightarrow> string list option" where
  "toml_strings (T_array vs) = all_strings vs"
| "toml_strings _ = None"

text \<open>\<open>toml::find\<close> on a section that is no table fails with a type error.\<close>

fun toml_get :: "toml \<Rightarrow> string \<Rightarrow> toml option" where
  "toml_get (T_table t) k = map_of t k"
| "toml_get _ k = None"

definition to_u16 :: "int \<Rightarrow> nat" where "to_u16 i = nat (i mod 2 ^ 16)"
definition to_size :: "int \<Rightarrow> nat" where "to_size i = nat (i mod 2 ^ 64)"

definition get_required :: "(toml \<Rightarrow> 'a option) \<Rightarrow> toml \<Rightarrow> string \<Rightarrow> config_error + 'a" where
  "get_required as sec key =
     (case toml_get sec key of
        None \<Rightarrow> (case sec of T_table _ \<Rightarrow> Inl (Runtime (''Missing required config field: '' @ key))
                          | _ \<Rightarrow> Inl (Runtime (''Invalid type for config field '' @ key)))
      | Some v \<Rightarrow> (case as v of None \<Rightarrow> Inl (Runtime (''Invalid type for config field '' @ key)) | Some x \<Rightarrow> Inr x))"

definition get_optional :: "(toml \<Rightarrow> 'a option) \<Rightarrow> toml \<Rightarrow> string \<Rightarrow> 'a \<Rightarrow> 'a" where
  "get_optional as sec key d = (case Option.bind (toml_get sec key) as of None \<Rightarrow> d | Some x \<Rightarrow> x)"

subsection \<open>The configuration\<close>

record full_config =
  fc_host :: string
  fc_port :: nat
  fc_log_level :: string
  fc_max_connections :: int
  fc_headless :: bool
  fc_is_public :: bool
  fc_cert_file :: string
  fc_key_file :: string
  fc_db_path :: string
  fc_max_message_bytes :: nat
  fc_max_chat_payload_bytes :: nat
  fc_ping_interval :: int
  fc_ping_timeout :: int
  fc_msg_rate :: int
  fc_conn_rate :: int
  fc_commands_per_min :: int
  fc_joins_per_min :: int
  fc_abuse_threshold :: int
  fc_abuse_window :: int
  fc_ban_duration :: int
  fc_file_encryption_key :: string
  fc_max_upload :: nat
  fc_max_total :: nat
  fc_max_user :: nat
  fc_allowed_mime :: "string list"
  fc_blocked_mime :: "string list"
  fc_clamav_socket :: string
  fc_clamav_host :: string
  fc_clamav_port :: nat
  fc_motd :: string
  fc_ice_servers :: "string list"
  fc_turn_username :: string
  fc_turn_password :: string
  fc_directory_enabled :: bool
  fc_directory_url :: string
  fc_directory_ping :: int
  fc_server_name :: string
  fc_server_description :: string
  fc_http_enabled :: bool
  fc_http_port :: nat
  fc_http_bind :: string
  fc_http_keys :: "string list"
  fc_http_cors :: bool
  fc_http_rate_limit :: bool
  fc_http_rate_requests :: int
  fc_admin_enabled :: bool
  fc_admin_key_file :: string
  fc_admin_auto_join :: "string list"
  fc_admin_reserved :: "string list"
  fc_admin_socket :: string

definition default_full_config :: full_config where
  "default_full_config = \<lparr>fc_host = ''0.0.0.0'', fc_port = 6697, fc_log_level = ''info'', fc_max_connections = 100,
     fc_headless = False, fc_is_public = False, fc_cert_file = [], fc_key_file = [], fc_db_path = ''./grotto.db'',
     fc_max_message_bytes = 65536, fc_max_chat_payload_bytes = 8192, fc_ping_interval = 30, fc_ping_timeout = 60,
     fc_msg_rate = 20, fc_conn_rate = 10, fc_commands_per_min = 30, fc_joins_per_min = 5, fc_abuse_threshold = 5,
     fc_abuse_window = 10, fc_ban_duration = 30, fc_file_encryption_key = [], fc_max_upload = 100 * 1024 * 1024,
     fc_max_total = 0, fc_max_user = 0, fc_allowed_mime = [], fc_blocked_mime = [], fc_clamav_socket = [],
     fc_clamav_host = ''127.0.0.1'', fc_clamav_port = 0, fc_motd = [], fc_ice_servers = [], fc_turn_username = [],
     fc_turn_password = [], fc_directory_enabled = False, fc_directory_url = ''https://directory.grotto.dev'',
     fc_directory_ping = 300, fc_server_name = [], fc_server_description = [], fc_http_enabled = False,
     fc_http_port = 8080, fc_http_bind = ''127.0.0.1'', fc_http_keys = [], fc_http_cors = True,
     fc_http_rate_limit = True, fc_http_rate_requests = 60, fc_admin_enabled = True,
     fc_admin_key_file = ''./keys/admin.ed25519'', fc_admin_auto_join = [], fc_admin_reserved = [],
     fc_admin_socket = ''/run/grotto/admin.sock''\<rparr>"

subsection \<open>Sections\<close>

text \<open>Each section is read by a step that updates the configuration or fails.\<close>

definition read_server :: "toml \<Rightarrow> full_config \<Rightarrow> config_error + full_config" where
  "read_server sec c =
     (case get_required toml_string sec ''host'' of
        Inl e \<Rightarrow> Inl e
      | Inr host \<Rightarrow>
          (case get_required toml_int sec ''port'' of
             Inl e \<Rightarrow> Inl e
           | Inr port \<Rightarrow> Inr (c\<lparr>fc_host := host, fc_port := to_u16 port,
               fc_log_level := get_optional toml_string sec ''log_level'' ''info'',
               fc_max_connections := get_optional (map_option to_int32 \<circ> toml_int) sec ''max_connections'' 100,
               fc_is_public := get_optional toml_bool sec ''public'' False\<rparr>)))"

definition read_tls :: "toml \<Rightarrow> full_config \<Rightarrow> config_error + full_config" where
  "read_tls sec c =
     (case get_required toml_string sec ''cert_file'' of
        Inl e \<Rightarrow> Inl e
      | Inr cert \<Rightarrow>
          (case get_required toml_string sec ''key_file'' of
             Inl e \<Rightarrow> Inl e
           | Inr key \<Rightarrow> Inr (c\<lparr>fc_cert_file := cert, fc_key_file := key\<rparr>)))"

definition read_database :: "toml \<Rightarrow> full_config \<Rightarrow> config_error + full_config" where
  "read_database sec c = Inr (c\<lparr>fc_db_path := get_optional toml_string sec ''path'' ''./grotto.db''\<rparr>)"

text \<open>\<open>contains\<close> of a section that is no table throws.\<close>

fun is_table :: "toml \<Rightarrow> bool" where
  "is_table (T_table _) \<longleftrightarrow> True"
| "is_table _ \<longleftrightarrow> False"

definition read_voice :: "toml \<Rightarrow> full_config \<Rightarrow> config_error + full_config" where
  "read_voice sec c =
     (if \<not> is_table sec then Inl Library
      else Inr (c\<lparr>fc_turn_username := get_optional toml_string sec ''turn_username'' [],
          fc_turn_password := get_optional toml_string sec ''turn_password'' [],
          fc_ice_servers := get_optional toml_strings sec ''ice_servers'' (fc_ice_servers c)\<rparr>))"

definition read_limits :: "toml \<Rightarrow> full_config \<Rightarrow> config_error + full_config" where
  "read_limits sec c =
     (let int32 = (\<lambda>k d. get_optional (map_option to_int32 \<circ> toml_int) sec k d)
      in Inr (c\<lparr>fc_max_message_bytes := to_size (get_optional toml_int sec ''max_message_bytes'' 65536),
          fc_max_chat_payload_bytes := to_size (get_optional toml_int sec ''max_chat_payload_bytes'' 8192),
          fc_ping_interval := int32 ''ping_interval_sec'' 30, fc_ping_timeout := int32 ''ping_timeout_sec'' 60,
          fc_msg_rate := int32 ''msg_rate_per_sec'' 20, fc_conn_rate := int32 ''conn_rate_per_min'' 10,
          fc_commands_per_min := int32 ''commands_per_min'' 30, fc_joins_per_min := int32 ''joins_per_min'' 5,
          fc_abuse_threshold := int32 ''abuse_threshold'' 5, fc_abuse_window := int32 ''abuse_window_min'' 10,
          fc_ban_duration := int32 ''ban_duration_min'' 30\<rparr>))"

definition read_security :: "toml \<Rightarrow> full_config \<Rightarrow> config_error + full_config" where
  "read_security sec c = Inr (c\<lparr>fc_file_encryption_key := get_optional toml_string sec ''file_encryption_key'' []\<rparr>)"

definition read_files :: "toml \<Rightarrow> full_config \<Rightarrow> config_error + full_config" where
  "read_files sec c =
     (let upload = get_optional toml_int sec ''max_upload_bytes'' (100 * 1024 * 1024);
          all = get_optional toml_int sec ''max_total_storage_bytes'' 0;
          user = get_optional toml_int sec ''max_user_storage_bytes'' 0
      in if upload \<le> 0 then Inl (Runtime ''Invalid config: max_upload_bytes must be greater than 0'')
         else if all < 0 then Inl (Runtime ''Invalid config: max_total_storage_bytes must be 0 or greater'')
         else if user < 0 then Inl (Runtime ''Invalid config: max_user_storage_bytes must be 0 or greater'')
         else if \<not> is_table sec then Inl Library
         else Inr (c\<lparr>fc_max_upload := nat upload, fc_max_total := nat all, fc_max_user := nat user,
             fc_allowed_mime := get_optional toml_strings sec ''allowed_mime_types'' [],
             fc_blocked_mime := get_optional toml_strings sec ''blocked_mime_types'' []\<rparr>))"

definition read_antivirus :: "toml \<Rightarrow> full_config \<Rightarrow> config_error + full_config" where
  "read_antivirus sec c = Inr (c\<lparr>fc_clamav_socket := get_optional toml_string sec ''clamav_socket'' [],
     fc_clamav_host := get_optional toml_string sec ''clamav_host'' ''127.0.0.1'',
     fc_clamav_port := to_u16 (get_optional toml_int sec ''clamav_port'' 0)\<rparr>)"

text \<open>The message of the day is a text or an array of texts, which become its lines; anything else is ignored.\<close>

fun join_lines :: "string list \<Rightarrow> string" where
  "join_lines [] = []"
| "join_lines [l] = l"
| "join_lines (l # ls) = l @ CHR 0x0A # join_lines ls"

definition read_motd :: "toml \<Rightarrow> full_config \<Rightarrow> config_error + full_config" where
  "read_motd v c =
     (case v of
        T_array vs \<Rightarrow> (case all_strings vs of None \<Rightarrow> Inl Library | Some ls \<Rightarrow> Inr (c\<lparr>fc_motd := join_lines ls\<rparr>))
      | T_string s \<Rightarrow> Inr (c\<lparr>fc_motd := s\<rparr>)
      | _ \<Rightarrow> Inr c)"

definition read_directory :: "toml \<Rightarrow> full_config \<Rightarrow> config_error + full_config" where
  "read_directory sec c = Inr (c\<lparr>fc_directory_enabled := get_optional toml_bool sec ''enabled'' False,
     fc_directory_url := get_optional toml_string sec ''url'' ''https://directory.grotto.dev'',
     fc_directory_ping := get_optional (map_option to_int32 \<circ> toml_int) sec ''ping_interval_sec'' 300,
     fc_server_name := get_optional toml_string sec ''server_name'' [],
     fc_server_description := get_optional toml_string sec ''description'' []\<rparr>)"

text \<open>The strings of an array; what is no array or no string is passed over.\<close>

definition string_items :: "toml \<Rightarrow> string \<Rightarrow> string list" where
  "string_items sec key = (case toml_get sec key of Some (T_array vs) \<Rightarrow> List.map_filter toml_string vs | _ \<Rightarrow> [])"

definition read_http_api :: "toml \<Rightarrow> full_config \<Rightarrow> config_error + full_config" where
  "read_http_api sec c =
     (if \<not> is_table sec then Inl Library
      else Inr (c\<lparr>fc_http_enabled := get_optional toml_bool sec ''enabled'' False,
          fc_http_port := to_u16 (get_optional toml_int sec ''port'' 8080),
          fc_http_bind := get_optional toml_string sec ''bind_address'' ''127.0.0.1'',
          fc_http_cors := get_optional toml_bool sec ''cors_enabled'' True,
          fc_http_rate_limit := get_optional toml_bool sec ''rate_limit_enabled'' True,
          fc_http_rate_requests := get_optional (map_option to_int32 \<circ> toml_int) sec ''rate_limit_requests'' 60,
          fc_http_keys := fc_http_keys c @ string_items sec ''api_keys''\<rparr>))"

definition read_admin :: "toml \<Rightarrow> full_config \<Rightarrow> config_error + full_config" where
  "read_admin sec c =
     (if \<not> is_table sec then Inl Library
      else Inr (c\<lparr>fc_admin_enabled := get_optional toml_bool sec ''enabled'' True,
          fc_admin_key_file := get_optional toml_string sec ''key_file'' ''./keys/admin.ed25519'',
          fc_admin_socket := get_optional toml_string sec ''tui_socket'' ''/run/grotto/admin.sock'',
          fc_admin_auto_join := fc_admin_auto_join c @ string_items sec ''auto_join_channels'',
          fc_admin_reserved := fc_admin_reserved c @ string_items sec ''additional_reserved''\<rparr>))"

definition section_step ::
  "(string \<times> toml) list \<Rightarrow> string \<Rightarrow> (toml \<Rightarrow> full_config \<Rightarrow> config_error + full_config) \<Rightarrow>
   config_error + full_config \<Rightarrow> config_error + full_config" where
  "section_step doc name f r =
     (case r of Inl e \<Rightarrow> Inl e | Inr c \<Rightarrow> (case map_of doc name of None \<Rightarrow> Inr c | Some sec \<Rightarrow> f sec c))"

definition required_step ::
  "(string \<times> toml) list \<Rightarrow> string \<Rightarrow> (toml \<Rightarrow> full_config \<Rightarrow> config_error + full_config) \<Rightarrow>
   config_error + full_config \<Rightarrow> config_error + full_config" where
  "required_step doc name f r =
     (case r of
        Inl e \<Rightarrow> Inl e
      | Inr c \<Rightarrow> (case map_of doc name of
            None \<Rightarrow> Inl (Runtime (''Missing required ['' @ name @ ''] section in config''))
          | Some sec \<Rightarrow> f sec c))"

definition load_document :: "(string \<times> toml) list \<Rightarrow> config_error + full_config" where
  "load_document doc =
     section_step doc ''admin'' read_admin (
     section_step doc ''http_api'' read_http_api (
     section_step doc ''directory'' read_directory (
     section_step doc ''motd'' read_motd (
     section_step doc ''antivirus'' read_antivirus (
     section_step doc ''files'' read_files (
     section_step doc ''security'' read_security (
     section_step doc ''limits'' read_limits (
     section_step doc ''voice'' read_voice (
     section_step doc ''database'' read_database (
     required_step doc ''tls'' read_tls (
     required_step doc ''server'' read_server (Inr default_full_config))))))))))))"

subsection \<open>Files\<close>

text \<open>
  The environment of the loader: the files, the template that a missing file is created from, whether the
  path can be written, and the parser.  The code opens the new file without a check, so a failure shows
  when the parser does not find it.
\<close>

record config_env =
  ce_parse :: "string \<Rightarrow> (string \<times> toml) list option"
  ce_template :: string
  ce_can_write :: "string \<Rightarrow> bool"

definition create_config_file :: "config_env \<Rightarrow> string \<Rightarrow> (string \<Rightarrow> string option) \<Rightarrow> (string \<Rightarrow> string option)" where
  "create_config_file V path disk =
     (if disk path \<noteq> None \<or> \<not> ce_can_write V path then disk else disk(path \<mapsto> ce_template V))"

definition load_config ::
  "config_env \<Rightarrow> string \<Rightarrow> (string \<Rightarrow> string option) \<Rightarrow> (config_error + full_config) \<times> (string \<Rightarrow> string option)" where
  "load_config V path disk =
     (let disk = create_config_file V path disk
      in (case Option.bind (disk path) (ce_parse V) of None \<Rightarrow> Inl Library | Some doc \<Rightarrow> load_document doc, disk))"

text \<open>Only the runtime errors of the code are caught; the exceptions of the parser are of another class.\<close>

definition load_or_default ::
  "config_env \<Rightarrow> string \<Rightarrow> (string \<Rightarrow> string option) \<Rightarrow> (config_error + full_config) \<times> (string \<Rightarrow> string option)" where
  "load_or_default V path disk =
     (case load_config V path disk of
        (Inl (Runtime e), disk) \<Rightarrow>
          (Inr (default_full_config\<lparr>fc_cert_file := ''./certs/server.crt'', fc_key_file := ''./certs/server.key''\<rparr>), disk)
      | r \<Rightarrow> r)"

definition validate_config :: "full_config \<Rightarrow> string option" where
  "validate_config c =
     (if fc_host c = [] then Some ''Invalid config: host cannot be empty''
      else if fc_port c = 0 then Some ''Invalid config: port cannot be zero''
      else if fc_cert_file c = [] then Some ''Invalid config: tls.cert_file cannot be empty''
      else if fc_key_file c = [] then Some ''Invalid config: tls.key_file cannot be empty''
      else if fc_max_message_bytes c = 0 \<or> fc_max_message_bytes c > 1024 * 1024
      then Some ''Invalid config: max_message_bytes must be between 1 and 1MB''
      else if fc_max_chat_payload_bytes c = 0 \<or> fc_max_chat_payload_bytes c > fc_max_message_bytes c
      then Some ''Invalid config: max_chat_payload_bytes must be between 1 and max_message_bytes''
      else if fc_max_upload c = 0 then Some ''Invalid config: max_upload_bytes must be greater than 0''
      else if fc_ping_interval c \<le> 0 \<or> fc_ping_interval c > 300
      then Some ''Invalid config: ping_interval_sec must be between 1 and 300''
      else if fc_ping_timeout c \<le> 0 \<or> fc_ping_timeout c > 600
      then Some ''Invalid config: ping_timeout_sec must be between 1 and 600''
      else None)"

subsection \<open>The command line\<close>

datatype startup = Exit int | Run string bool

datatype arg_kind = Arg_exit | Arg_headless | Arg_config | Arg_unknown

definition arg_kind_of :: "string \<Rightarrow> arg_kind" where
  "arg_kind_of arg =
     (if arg \<in> {''--help'', ''-h'', ''--version'', ''-V''} then Arg_exit
      else if arg = ''--headless'' \<or> arg = ''--daemon'' then Arg_headless
      else if arg = ''--config'' then Arg_config
      else Arg_unknown)"

text \<open>\<open>argv\<close> without the program name; the path and the flag are global variables of \<open>main.cpp\<close>.\<close>

fun parse_command_line :: "string list \<Rightarrow> string \<Rightarrow> bool \<Rightarrow> startup" where
  "parse_command_line [] path headless = Run path headless"
| "parse_command_line [arg] path headless =
     (case arg_kind_of arg of Arg_exit \<Rightarrow> Exit 0 | Arg_headless \<Rightarrow> Run path True | _ \<Rightarrow> Exit 1)"
| "parse_command_line (arg # p # rest) path headless =
     (case arg_kind_of arg of
        Arg_exit \<Rightarrow> Exit 0
      | Arg_headless \<Rightarrow> parse_command_line (p # rest) path True
      | Arg_config \<Rightarrow> parse_command_line rest p headless
      | Arg_unknown \<Rightarrow> Exit 1)"

definition get_default_config_path :: "string option \<Rightarrow> string" where
  "get_default_config_path env = (case env of Some p \<Rightarrow> if p \<noteq> [] then p else ''./server.toml'' | None \<Rightarrow> ''./server.toml'')"

text \<open>
  What \<open>main\<close> does before the server runs: \<open>Inl\<close> an exit code, \<open>Inr (Inl e)\<close> an exception, else the configuration
  the server is built with.
\<close>

definition start_server ::
  "config_env \<Rightarrow> string option \<Rightarrow> string list \<Rightarrow> (string \<Rightarrow> string option) \<Rightarrow>
   (int + (config_error + full_config)) \<times> (string \<Rightarrow> string option)" where
  "start_server V env args disk =
     (case parse_command_line args (get_default_config_path env) False of
        Exit n \<Rightarrow> (Inl n, disk)
      | Run path headless \<Rightarrow>
          (case load_config V path disk of
             (Inl e, disk) \<Rightarrow> (Inr (Inl e), disk)
           | (Inr c, disk) \<Rightarrow>
               let c = (if headless then c\<lparr>fc_headless := True\<rparr> else c)
               in (case validate_config c of
                     Some e \<Rightarrow> (Inr (Inl (Runtime e)), disk) | None \<Rightarrow> (Inr (Inr c), disk))))"

text \<open>The part of the configuration that the sessions, the listener and the file transfer read.\<close>

definition server_config_of :: "full_config \<Rightarrow> server_config" where
  "server_config_of c =
     \<lparr>ping_interval_sec = fc_ping_interval c, ping_timeout_sec = fc_ping_timeout c, msg_rate_per_sec = fc_msg_rate c,
      conn_rate_per_min = fc_conn_rate c, max_connections = fc_max_connections c,
      max_chat_payload_bytes = fc_max_chat_payload_bytes c, max_upload_bytes = of_nat (fc_max_upload c),
      max_total_storage_bytes = of_nat (fc_max_total c), max_user_storage_bytes = of_nat (fc_max_user c),
      allowed_mime_types = fc_allowed_mime c, blocked_mime_types = fc_blocked_mime c, cfg_motd = fc_motd c,
      voice_ice_servers = fc_ice_servers c, voice_turn_username = fc_turn_username c,
      voice_turn_password = fc_turn_password c\<rparr>"

text \<open>The scanner is initialised when a socket or a port is configured; the daemon at either end is the context's.\<close>

definition started_scanner :: "ctx \<Rightarrow> full_config \<Rightarrow> scanner_manager" where
  "started_scanner X c =
     (if fc_clamav_socket c \<noteq> [] then snd (sm_initialize X new_manager)
      else if fc_clamav_port c > 0 then snd (sm_initialize X new_manager)
      else new_manager)"

definition started_host :: "ctx \<Rightarrow> full_config \<Rightarrow> db \<Rightarrow> admin_host" where
  "started_host X c d =
     \<lparr>ah_server = (new_server (server_config_of c) d)\<lparr>scanner := started_scanner X c\<rparr>, ah_running = True, ah_owner = new_owner (steady_now X), ah_start = steady_now X,
      ah_client = False, ah_events = [], ah_delayed = [], ah_posted = 0\<rparr>"

subsection \<open>Lemmas\<close>

named_theorems section_defs
declare read_server_def [section_defs] read_tls_def [section_defs] read_database_def [section_defs]
  read_voice_def [section_defs] read_limits_def [section_defs] read_security_def [section_defs]
  read_files_def [section_defs] read_antivirus_def [section_defs] read_motd_def [section_defs]
  read_directory_def [section_defs] read_http_api_def [section_defs] read_admin_def [section_defs]

definition int32_ok :: "int \<Rightarrow> bool" where "int32_ok i \<longleftrightarrow> - (2 ^ 31) \<le> i \<and> i < 2 ^ 31"

definition widths_ok :: "full_config \<Rightarrow> bool" where
  "widths_ok c \<longleftrightarrow> fc_port c < 2 ^ 16 \<and> fc_clamav_port c < 2 ^ 16 \<and> fc_http_port c < 2 ^ 16 \<and>
     fc_max_message_bytes c < 2 ^ 64 \<and> fc_max_chat_payload_bytes c < 2 ^ 64 \<and> 0 < fc_max_upload c \<and>
     (\<forall>f \<in> {fc_max_connections, fc_ping_interval, fc_ping_timeout, fc_msg_rate, fc_conn_rate, fc_commands_per_min,
        fc_joins_per_min, fc_abuse_threshold, fc_abuse_window, fc_ban_duration, fc_directory_ping,
        fc_http_rate_requests}. int32_ok (f c))"

lemma calm_scanner: "calm s (s\<lparr>scanner := m\<rparr>)"
  using channels_ok_cong [of "s\<lparr>scanner := m\<rparr>" s] by (simp add: calm_def)

lemma to_u16_less [simp]: "to_u16 i < 65536"
  by (simp add: to_u16_def nat_less_iff)

lemma to_size_less [simp]: "to_size i < 18446744073709551616"
  by (simp add: to_size_def nat_less_iff)

lemma to_int32_ok [simp]: "int32_ok (to_int32 i)"
proof -
  have "0 \<le> (i + 2 ^ 31) mod 2 ^ 32" "(i + 2 ^ 31) mod 2 ^ 32 < (2 ^ 32 :: int)"
    by (rule pos_mod_sign, simp) (rule pos_mod_bound, simp)
  then show ?thesis by (simp add: int32_ok_def to_int32_def)
qed

lemma get_optional_int32 [simp]: "int32_ok d \<Longrightarrow> int32_ok (get_optional (map_option to_int32 \<circ> toml_int) sec k d)"
  by (auto simp: get_optional_def split: option.splits bind_splits)

lemma int32_ok_num [simp]: "int32_ok (numeral n) \<longleftrightarrow> numeral n < (2147483648 :: int)"
  by (simp add: int32_ok_def)

lemma default_widths [simp]: "widths_ok default_full_config"
  by (simp add: widths_ok_def default_full_config_def)

definition keeps :: "(full_config \<Rightarrow> bool) \<Rightarrow> (toml \<Rightarrow> full_config \<Rightarrow> config_error + full_config) \<Rightarrow> bool" where
  "keeps P f \<longleftrightarrow> (\<forall>sec c c'. P c \<longrightarrow> f sec c = Inr c' \<longrightarrow> P c')"

definition result_holds :: "(full_config \<Rightarrow> bool) \<Rightarrow> config_error + full_config \<Rightarrow> bool" where
  "result_holds P r \<longleftrightarrow> (\<forall>c. r = Inr c \<longrightarrow> P c)"

lemma result_holds_simps [simp]: "result_holds P (Inr c) \<longleftrightarrow> P c" "result_holds P (Inl e)"
  by (simp_all add: result_holds_def)

lemma section_step_holds: "keeps P f \<Longrightarrow> result_holds P r \<Longrightarrow> result_holds P (section_step doc name f r)"
  by (auto simp: keeps_def result_holds_def section_step_def split: sum.splits option.splits)

lemma required_step_holds: "keeps P f \<Longrightarrow> result_holds P r \<Longrightarrow> result_holds P (required_step doc name f r)"
  by (auto simp: keeps_def result_holds_def required_step_def split: sum.splits option.splits)

lemma section_step_skips: "map_of doc name = None \<Longrightarrow> section_step doc name f r = r"
  by (simp add: section_step_def split: sum.split)

lemmas step_holds = section_step_holds required_step_holds

lemma section_widths:
  "keeps widths_ok read_server" "keeps widths_ok read_tls" "keeps widths_ok read_database" "keeps widths_ok read_voice"
  "keeps widths_ok read_limits" "keeps widths_ok read_security" "keeps widths_ok read_files"
  "keeps widths_ok read_antivirus" "keeps widths_ok read_motd" "keeps widths_ok read_directory"
  "keeps widths_ok read_http_api" "keeps widths_ok read_admin"
  unfolding keeps_def
  by (auto simp: section_defs widths_ok_def Let_def split: sum.splits option.splits toml.splits if_splits)

lemma load_document_holds: "result_holds widths_ok (load_document doc)"
  unfolding load_document_def by (intro step_holds section_widths) simp

lemma load_document_widths: "load_document doc = Inr c \<Longrightarrow> widths_ok c"
  using load_document_holds [of doc] by simp

text \<open>No section but \<open>motd\<close> sets the message of the day.\<close>

lemma section_motd:
  "keeps (\<lambda>c. fc_motd c = m) read_server" "keeps (\<lambda>c. fc_motd c = m) read_tls"
  "keeps (\<lambda>c. fc_motd c = m) read_database" "keeps (\<lambda>c. fc_motd c = m) read_voice"
  "keeps (\<lambda>c. fc_motd c = m) read_limits" "keeps (\<lambda>c. fc_motd c = m) read_security"
  "keeps (\<lambda>c. fc_motd c = m) read_files" "keeps (\<lambda>c. fc_motd c = m) read_antivirus"
  "keeps (\<lambda>c. fc_motd c = m) read_directory" "keeps (\<lambda>c. fc_motd c = m) read_http_api"
  "keeps (\<lambda>c. fc_motd c = m) read_admin"
  unfolding keeps_def
  by (auto simp: section_defs Let_def split: sum.splits option.splits if_splits)

lemma create_config_file_keeps: "p \<noteq> path \<or> disk p \<noteq> None \<Longrightarrow> create_config_file V path disk p = disk p"
  by (auto simp: create_config_file_def)

lemma load_config_disk: "snd (load_config V path disk) = create_config_file V path disk"
  by (simp add: load_config_def Let_def)

lemma load_config_widths: "fst (load_config V path disk) = Inr c \<Longrightarrow> widths_ok c"
  by (auto simp: load_config_def Let_def intro: load_document_widths split: option.splits)

lemma port_wraps: "map_of srv ''host'' = Some (T_string h) \<Longrightarrow> map_of srv ''port'' = Some (T_int 70000) \<Longrightarrow>
   \<exists>c'. read_server (T_table srv) c = Inr c' \<and> fc_port c' = 4464"
  by (simp add: read_server_def get_required_def to_u16_def)

lemma parse_error_is_not_defaulted:
  "Option.bind (create_config_file V path disk path) (ce_parse V) = None \<Longrightarrow> fst (load_or_default V path disk) = Inl Library"
  by (simp add: load_or_default_def load_config_def Let_def split: option.splits)

lemma motd_of_server_section_ignored:
  assumes "map_of doc ''motd'' = None" and "load_document doc = Inr c"
  shows "fc_motd c = []"
proof -
  have "result_holds (\<lambda>c. fc_motd c = []) (load_document doc)"
    unfolding load_document_def section_step_skips [OF assms(1)]
    by (intro step_holds section_motd) (simp add: default_full_config_def)
  then show ?thesis using assms(2) by simp
qed

lemma start_server_validated:
  assumes "start_server V env args disk = (Inr (Inr c), disk')"
  shows "validate_config c = None" and "widths_ok c"
    and "\<exists>path. disk' = create_config_file V path disk"
proof -
  obtain path headless where *: "parse_command_line args (get_default_config_path env) False = Run path headless"
    using assms by (auto simp: start_server_def split: startup.splits)
  obtain r d where load: "load_config V path disk = (r, d)" by fastforce
  from load_config_disk [of V path disk] load have "d = create_config_file V path disk" by simp
  with assms * load show "\<exists>path. disk' = create_config_file V path disk"
    by (auto simp: start_server_def Let_def split: sum.splits option.splits)
  from assms * load show "validate_config c = None"
    by (auto simp: start_server_def Let_def split: sum.splits option.splits)
  obtain c0 where c0: "r = Inr c0" "c = (if headless then c0\<lparr>fc_headless := True\<rparr> else c0)"
    using assms * load by (auto simp: start_server_def Let_def split: sum.splits option.splits)
  then have "widths_ok c0" using load_config_widths [of V path disk c0] load by simp
  then show "widths_ok c" using c0(2) by (simp add: widths_ok_def)
qed

text \<open>
  C20: a server that starts has a sane configuration.  Whatever the command line, the environment and the
  files say, a server is only built from a configuration with an address, a port, a certificate and a key, with
  message, payload and ping limits within their bounds, and with every number within the width of its
  field; no file that was there is changed; and the administered server that runs from it, on any consistent
  database, stays consistent.
\<close>

theorem started_server_is_valid:
  assumes "start_server V env args disk = (Inr (Inr c), disk')" and "db_ok d"
  shows "fc_host c \<noteq> [] \<and> 0 < fc_port c \<and> fc_cert_file c \<noteq> [] \<and> fc_key_file c \<noteq> [] \<and>
    0 < fc_max_chat_payload_bytes c \<and> fc_max_chat_payload_bytes c \<le> fc_max_message_bytes c \<and>
    fc_max_message_bytes c \<le> 1048576 \<and> 0 < fc_max_upload c \<and>
    fc_ping_interval c \<in> {1..300} \<and> fc_ping_timeout c \<in> {1..600} \<and> widths_ok c \<and>
    (\<forall>p x. disk p = Some x \<longrightarrow> disk' p = Some x) \<and>
    (\<forall>h. host_step\<^sup>*\<^sup>* (started_host X c d) h \<longrightarrow> server_ok (ah_server h))"
proof -
  note v = start_server_validated [OF assms(1)]
  from v(3) have "\<forall>p x. disk p = Some x \<longrightarrow> disk' p = Some x" by (auto simp: create_config_file_def)
  moreover have "server_ok (ah_server (started_host X c d))"
    using calm_server_ok [OF calm_scanner new_server_ok [OF assms(2)]] by (simp add: started_host_def)
  ultimately show ?thesis using v(1,2) by (auto simp: validate_config_def dest: host_steps_ok split: if_splits)
qed

definition demo_document :: "(string \<times> toml) list" where
  "demo_document =
     [(''server'', T_table [(''host'', T_string ''0.0.0.0''), (''port'', T_int 6667), (''motd'', T_string ''hi'')]),
      (''tls'', T_table [(''cert_file'', T_string ''c''), (''key_file'', T_string ''k'')])]"

definition demo_config_env :: config_env where
  "demo_config_env = \<lparr>ce_parse = (\<lambda>s. if s = ''t'' then Some demo_document else None), ce_template = ''t'',
     ce_can_write = (\<lambda>_. True)\<rparr>"

lemma started_server_is_valid_witness:
  "\<exists>c disk'. start_server demo_config_env None [''--headless''] (\<lambda>_. None) = (Inr (Inr c), disk') \<and>
     fc_port c = 6667 \<and> fc_headless c \<and> fc_ping_interval c \<in> {1..300} \<and> disk' ''./server.toml'' = Some ''t'' \<and>
     server_ok (ah_server (started_host demo_ctx c empty_db))"
proof -
  let ?c = "default_full_config\<lparr>fc_host := ''0.0.0.0'', fc_port := 6667, fc_cert_file := ''c'', fc_key_file := ''k'',
    fc_headless := True\<rparr>"
  have load: "load_document demo_document = Inr (?c\<lparr>fc_headless := False\<rparr>)"
    by (simp add: load_document_def demo_document_def section_step_def required_step_def read_server_def read_tls_def
        get_required_def get_optional_def to_u16_def default_full_config_def)
  have "arg_kind_of ''--headless'' = Arg_headless" by (simp add: arg_kind_of_def)
  then have start: "start_server demo_config_env None [''--headless''] (\<lambda>_. None) = (Inr (Inr ?c), [''./server.toml'' \<mapsto> ''t''])"
    using load by (simp add: start_server_def get_default_config_path_def load_config_def create_config_file_def
        demo_config_env_def validate_config_def default_full_config_def)
  have "fc_ping_interval ?c \<in> {1..300} \<and> server_ok (ah_server (started_host demo_ctx ?c empty_db))"
    using started_server_is_valid [OF start db_ok_empty] by blast
  moreover have "fc_port ?c = 6667" "fc_headless ?c" by simp_all
  ultimately show ?thesis using start by (intro exI conjI) (assumption | simp)+
qed

end
