(* ===== verification/Http_Routes.thy ===== *)
theory Http_Routes
  imports Http_Server Server_Config Listener "HOL-Library.Sublist"
begin

text \<open>
  The HTTP interface of the chat server, \<open>Server::setup_http_api_routes\<close> and the part of \<open>Server::run\<close> that starts
  it: health, information, statistics and the table \<open>bug_reports\<close>.  The world of the handlers is the chat
  server, that table with its next id, the system clock in seconds, and whether an \<open>INSERT\<close> succeeds.
  \<open>failed\<close> stands for \<open>Response::server_error\<close>, which the library of the repository does not declare.
\<close>

subsection \<open>The world of the handlers\<close>

record bug_report =
  br_id :: int
  br_user :: string
  br_description :: string
  br_at :: int

record api_world =
  aw_server :: server
  aw_reports :: "bug_report list"
  aw_next :: int
  aw_clock :: int
  aw_insert :: bool

subsection \<open>The handlers\<close>

definition health_route :: "http_lib \<Rightarrow> api_world handler" where
  "health_route lib rq w =
     (response_ok lib (J_object [(''status'', J_string ''ok''), (''service'', J_string ''grotto-server'')]), w)"

definition info_route :: "http_lib \<Rightarrow> full_config \<Rightarrow> api_world handler" where
  "info_route lib fc rq w =
     (response_ok lib (J_object [(''name'', J_string (fc_server_name fc)), (''version'', J_string ''0.1.0''),
        (''public'', J_bool (fc_is_public fc))]), w)"

definition json_member :: "json \<Rightarrow> string \<Rightarrow> json option" where
  "json_member j k = (case j of J_object o' \<Rightarrow> map_of o' k | _ \<Rightarrow> None)"

definition insert_report :: "string \<Rightarrow> string \<Rightarrow> api_world \<Rightarrow> api_world" where
  "insert_report u d w = w\<lparr>aw_reports := aw_reports w @ [\<lparr>br_id = aw_next w, br_user = u, br_description = d, br_at = aw_clock w\<rparr>],
     aw_next := aw_next w + 1\<rparr>"

definition bug_report_route :: "http_lib \<Rightarrow> response option \<Rightarrow> api_world handler" where
  "bug_report_route lib failed rq w =
     (case json_body lib rq of
        None \<Rightarrow> (bad_request lib ''JSON body required'', w)
      | Some body \<Rightarrow>
          if \<not> json_contains body ''description'' then (bad_request lib ''Missing 'description' field'', w)
          else case Option.bind (json_member body ''description'') json_string of
            None \<Rightarrow> (None, w)
          | Some description \<Rightarrow>
              (case json_value_string body ''user_id'' ''anonymous'' of
                 None \<Rightarrow> (None, w)
               | Some user \<Rightarrow>
                   if length description < 10 then (bad_request lib ''Description too short (min 10 chars)'', w)
                   else if length description > 2000 then (bad_request lib ''Description too long (max 2000 chars)'', w)
                   else if \<not> aw_insert w then (failed, w)
                   else (response_created lib (J_object [(''id'', J_int (aw_next w)),
                           (''message'', J_string ''Bug report submitted successfully'')]),
                         insert_report user description w)))"

definition stats_route :: "http_lib \<Rightarrow> api_world handler" where
  "stats_route lib rq w =
     (response_ok lib (J_object [(''online_users'', J_int (int (length (get_online_users (aw_server w))))),
        (''channels'', J_int (int (length (channels (cmds (aw_server w))))))]), w)"

definition setup_http_api_routes ::
  "http_lib \<Rightarrow> response option \<Rightarrow> full_config \<Rightarrow> api_world api_server \<Rightarrow> api_world api_server option" where
  "setup_http_api_routes lib failed fc s =
     Option.bind (add_route M_get ''/health'' (health_route lib) (as_routes s)) (\<lambda>rs.
     Option.bind (add_route M_get ''/api/v1/info'' (info_route lib fc) rs) (\<lambda>rs.
     Option.bind (add_route M_post ''/api/v1/bug-reports'' (bug_report_route lib failed) rs) (\<lambda>rs.
     map_option (\<lambda>rs. s\<lparr>as_routes := rs\<rparr>) (add_route M_get ''/api/v1/stats'' (stats_route lib) rs))))"

definition api_config_of :: "full_config \<Rightarrow> api_config" where
  "api_config_of fc = \<lparr>api_port = fc_http_port fc, api_bind = fc_http_bind fc, api_cors = fc_http_cors fc,
     api_rate_limit = fc_http_rate_limit fc, api_rate_requests = fc_http_rate_requests fc, api_keys = fc_http_keys fc\<rparr>"

text \<open>The HTTP part of \<open>Server::run\<close>; the object is made by \<open>make_unique\<close>.\<close>

definition start_http_api ::
  "http_lib \<Rightarrow> response option \<Rightarrow> full_config \<Rightarrow> int \<Rightarrow> bool \<Rightarrow> (bool \<times> api_world api_server) option" where
  "start_http_api lib failed fc now bound =
     (if fc_http_enabled fc
      then map_option (api_start now bound)
             (setup_http_api_routes lib failed fc (new_api_server False (api_config_of fc)))
      else None)"

subsection \<open>Runs\<close>

text \<open>Requests in the order the server handles them, each with what its handler finds.\<close>

record api_event =
  ev_now :: int
  ev_clock :: int
  ev_insert :: bool
  ev_server :: server
  ev_request :: request

definition event_world :: "api_event \<Rightarrow> api_world \<Rightarrow> api_world" where
  "event_world ev w = w\<lparr>aw_server := ev_server ev, aw_clock := ev_clock ev, aw_insert := ev_insert ev\<rparr>"

fun api_serve ::
  "http_lib \<Rightarrow> api_event list \<Rightarrow> api_world api_server \<Rightarrow> api_world \<Rightarrow> response option list \<times> api_world api_server \<times> api_world" where
  "api_serve lib [] s w = ([], s, w)"
| "api_serve lib (ev # evs) s w =
     (let (r, s', w') = handle_request lib (ev_now ev) (ev_request ev) s (event_world ev w);
          (rs, s'', w'') = api_serve lib evs s' w'
      in (r # rs, s'', w''))"

subsection \<open>The routes\<close>

lemma rx_match_literal: "rx_match (map Rx_char p) s = (if s = p then Some [] else None)"
proof (induction p arbitrary: s)
  case (Cons c p)
  then show ?case by (cases s) auto
qed simp

definition literal_route :: "http_method \<Rightarrow> string \<Rightarrow> 'w handler \<Rightarrow> 'w route" where
  "literal_route m p h = \<lparr>rt_method = m, rt_path = p, rt_rx = map Rx_char p, rt_params = [], rt_handler = h\<rparr>"

lemma add_literal_route:
  assumes "\<forall>c \<in> set p. plain_char c" shows "add_route m p h rs = Some (rs @ [literal_route m p h])"
  using pattern_compiles [of "[P_lit p]"] compile_route_text [of "fst (route_regex p)"] assms
  by (simp add: add_route_def parse_route_pattern_def split_def Let_def literal_route_def)

lemma route_match_literal [simp]:
  "route_match (literal_route m p h # rs) m' path =
     (if m = m' \<and> path = p then Some (h, []) else route_match rs m' path)"
  by (simp add: literal_route_def rx_match_literal bind_params_def)

definition api_routes :: "http_lib \<Rightarrow> response option \<Rightarrow> full_config \<Rightarrow> api_world route list" where
  "api_routes lib failed fc =
     [literal_route M_get ''/health'' (health_route lib), literal_route M_get ''/api/v1/info'' (info_route lib fc),
      literal_route M_post ''/api/v1/bug-reports'' (bug_report_route lib failed),
      literal_route M_get ''/api/v1/stats'' (stats_route lib)]"

lemma setup_routes:
  assumes "as_routes s = []"
  shows "setup_http_api_routes lib failed fc s = Some (s\<lparr>as_routes := api_routes lib failed fc\<rparr>)"
proof -
  have "add_route m p h rs = Some (rs @ [literal_route m p h])"
    if "p \<in> {''/health'', ''/api/v1/info'', ''/api/v1/bug-reports'', ''/api/v1/stats''}"
    for m p rs and h :: "api_world handler"
    using that by (intro add_literal_route) (auto simp: plain_char_def regex_special_def)
  then show ?thesis using assms by (simp add: setup_http_api_routes_def api_routes_def)
qed

lemma start_http_api_state:
  assumes "start_http_api lib failed fc now True = Some (ok, s)"
  shows "ok" and "as_running s" and "\<not> as_shared s" and "as_routes s = api_routes lib failed fc"
    and "as_chain s = start_chain now (api_config_of fc)" and "as_sessions s = []"
  using assms setup_routes [of "new_api_server False (api_config_of fc)" lib failed fc]
  by (auto simp: start_http_api_def new_api_server_def api_start_fresh split: if_splits)

subsection \<open>The table of the bug reports\<close>

text \<open>A report in the table that stems from a request.\<close>

definition report_of :: "http_lib \<Rightarrow> string list \<Rightarrow> api_event \<Rightarrow> bug_report \<Rightarrow> bool" where
  "report_of lib keys ev r \<longleftrightarrow>
     rq_method (ev_request ev) = M_post \<and> target_path (ev_request ev) = ''/api/v1/bug-reports'' \<and>
     (keys \<noteq> [] \<longrightarrow> has_key keys (ev_request ev)) \<and>
     (\<exists>body. json_body lib (ev_request ev) = Some body \<and>
        Option.bind (json_member body ''description'') json_string = Some (br_description r) \<and>
        json_value_string body ''user_id'' ''anonymous'' = Some (br_user r)) \<and>
     10 \<le> length (br_description r) \<and> length (br_description r) \<le> 2000 \<and>
     br_at r = ev_clock ev \<and> ev_insert ev"

lemma event_world_frame [simp]:
  "aw_reports (event_world ev w) = aw_reports w" "aw_next (event_world ev w) = aw_next w"
  "aw_clock (event_world ev w) = ev_clock ev" "aw_insert (event_world ev w) = ev_insert ev"
  by (simp_all add: event_world_def)

lemma read_only_routes:
  "snd (health_route lib rq w) = w" "snd (info_route lib fc rq w) = w" "snd (stats_route lib rq w) = w"
  by (simp_all add: health_route_def info_route_def stats_route_def)

lemma bug_report_route_cases:
  "snd (bug_report_route lib failed rq w) = w \<or>
   (\<exists>body d u. json_body lib rq = Some body \<and> Option.bind (json_member body ''description'') json_string = Some d \<and>
      json_value_string body ''user_id'' ''anonymous'' = Some u \<and> 10 \<le> length d \<and> length d \<le> 2000 \<and>
      aw_insert w \<and> snd (bug_report_route lib failed rq w) = insert_report u d w)"
  by (auto simp: bug_report_route_def not_less split: option.split)

lemma api_route_match:
  "route_match (api_routes lib failed fc) m p = Some (h, ps) \<Longrightarrow>
     h \<in> {health_route lib, info_route lib fc, stats_route lib} \<or>
     h = bug_report_route lib failed \<and> m = M_post \<and> p = ''/api/v1/bug-reports''"
  by (auto simp: api_routes_def simp del: route_match.simps(2) split: if_splits)

definition serves_api :: "http_lib \<Rightarrow> response option \<Rightarrow> full_config \<Rightarrow> api_world api_server \<Rightarrow> bool" where
  "serves_api lib failed fc s \<longleftrightarrow> as_routes s = api_routes lib failed fc \<and>
     (fc_http_keys fc \<noteq> [] \<longrightarrow> Mw_api_key (fc_http_keys fc) \<in> set (as_chain s))"

lemma serves_api_step:
  "serves_api lib failed fc s \<Longrightarrow> serves_api lib failed fc (fst (snd (handle_request lib now rq s w)))"
  using api_key_in_chain [of "fc_http_keys fc" "as_chain s"]
    api_key_in_chain [of "fc_http_keys fc" "as_chain (fst (snd (handle_request lib now rq s w)))"]
  by (simp add: serves_api_def frame_simps)

lemma api_serve_one:
  assumes "serves_api lib failed fc s"
    and w': "w' = snd (snd (handle_request lib (ev_now ev) (ev_request ev) s (event_world ev w)))"
  shows "aw_reports w' = aw_reports w \<and> aw_next w' = aw_next w \<or>
     (\<exists>r. aw_reports w' = aw_reports w @ [r] \<and> aw_next w' = aw_next w + 1 \<and> br_id r = aw_next w \<and>
        report_of lib (fc_http_keys fc) ev r)"
proof -
  let ?rq = "ev_request ev" and ?w = "event_world ev w"
  consider "w' = ?w"
    | rs h ps where "fst (chain_process lib (ev_now ev) ?rq (as_chain s) new_response) = Some (True, rs)"
      and "route_match (as_routes s) (rq_method ?rq) (target_path ?rq) = Some (h, ps)" and "w' = snd (h ?rq ?w)"
    using handle_request_world [of lib "ev_now ev" ?rq s ?w] w' by blast
  then show ?thesis
  proof cases
    case 1
    then show ?thesis by simp
  next
    case 2
    have key: "fc_http_keys fc \<noteq> [] \<longrightarrow> has_key (fc_http_keys fc) ?rq"
      using chain_passes_key [OF 2(1)] assms(1) by (auto simp: serves_api_def)
    show ?thesis
    proof (cases "snd (h ?rq ?w) = ?w")
      case True
      then show ?thesis using 2(3) by simp
    next
      case False
      then have h: "h = bug_report_route lib failed" "rq_method ?rq = M_post" "target_path ?rq = ''/api/v1/bug-reports''"
        using api_route_match [of lib failed fc "rq_method ?rq" "target_path ?rq" h ps] 2(2) assms(1) read_only_routes
        by (auto simp: serves_api_def)
      show ?thesis
        using bug_report_route_cases [of lib failed ?rq ?w] False 2(3) h key
        by (auto simp: insert_report_def report_of_def)
    qed
  qed
qed

lemma start_serves:
  assumes "start_http_api lib failed fc now True = Some (ok, s)" shows "serves_api lib failed fc s"
  using start_http_api_state [OF assms] by (auto simp: serves_api_def start_chain_def api_config_of_def)

lemma api_serve_rows:
  assumes "serves_api lib failed fc s" and "api_serve lib evs s w = (rs, s', w')"
  shows "\<exists>rows qs. aw_reports w' = aw_reports w @ rows \<and> aw_next w' = aw_next w + int (length rows) \<and>
     map br_id rows = map (\<lambda>i. aw_next w + int i) [0..<length rows] \<and>
     subseq qs evs \<and> list_all2 (report_of lib (fc_http_keys fc)) qs rows"
  using assms
proof (induction evs arbitrary: s w rs s' w')
  case Nil
  then show ?case by auto
next
  case (Cons ev evs)
  obtain r s1 w1 where one: "handle_request lib (ev_now ev) (ev_request ev) s (event_world ev w) = (r, s1, w1)"
    by (cases "handle_request lib (ev_now ev) (ev_request ev) s (event_world ev w)") auto
  obtain rs2 where rest: "api_serve lib evs s1 w1 = (rs2, s', w')"
    using Cons.prems(2) one by (auto split: prod.splits)
  have s1: "serves_api lib failed fc s1"
    using serves_api_step [OF Cons.prems(1), of "ev_now ev" "ev_request ev" "event_world ev w"] one by simp
  obtain rows qs where IH: "aw_reports w' = aw_reports w1 @ rows" "aw_next w' = aw_next w1 + int (length rows)"
    "map br_id rows = map (\<lambda>i. aw_next w1 + int i) [0..<length rows]" "subseq qs evs"
    "list_all2 (report_of lib (fc_http_keys fc)) qs rows"
    using Cons.IH [OF s1 rest] by blast
  from api_serve_one [OF Cons.prems(1), of w1 ev w] one
  consider "aw_reports w1 = aw_reports w" "aw_next w1 = aw_next w"
    | row where "aw_reports w1 = aw_reports w @ [row]" "aw_next w1 = aw_next w + 1" "br_id row = aw_next w"
        "report_of lib (fc_http_keys fc) ev row"
    by auto
  then show ?case
  proof cases
    case 1
    then show ?thesis using IH by (intro exI [of _ rows] exI [of _ qs]) auto
  next
    case 2
    have "map br_id (row # rows) = map (\<lambda>i. aw_next w + int i) [0..<length (row # rows)]"
      using IH(3) 2(2,3) by (simp add: upt_conv_Cons map_Suc_upt [symmetric] del: upt_Suc)
    then show ?thesis using IH 2 by (intro exI [of _ "row # rows"] exI [of _ "ev # qs"]) auto
  qed
qed

text \<open>
  Every row the interface adds to \<open>bug_reports\<close> comes from a request of its own: a \<open>POST\<close> to the endpoint, with one of
  the keys if there are any, whose document has a description of 10 to 2000 bytes.  The ids are consecutive,
  and the rows that were there stay.
\<close>

theorem bug_reports_only_from_requests:
  assumes "start_http_api lib failed fc now True = Some (ok, s)" and "api_serve lib evs s w = (rs, s', w')"
  shows "\<exists>rows qs. aw_reports w' = aw_reports w @ rows \<and> aw_next w' = aw_next w + int (length rows) \<and>
     map br_id rows = map (\<lambda>i. aw_next w + int i) [0..<length rows] \<and>
     subseq qs evs \<and> list_all2 (report_of lib (fc_http_keys fc)) qs rows"
  using api_serve_rows [OF start_serves [OF assms(1)] assms(2)] .

definition demo_lib :: http_lib where
  "demo_lib = \<lparr>hl_parse = (\<lambda>s. if s = [] then None
        else Some (J_object [(''description'', J_string s)])), hl_dump = (\<lambda>j. Some ''{}''), hl_read = (\<lambda>old new. new),
     hl_need_eof = (\<lambda>_. False)\<rparr>"

definition demo_report :: api_event where
  "demo_report = \<lparr>ev_now = 5, ev_clock = 100, ev_insert = True, ev_server = new_server default_config empty_db,
     ev_request = \<lparr>rq_method = M_post, rq_path = ''/api/v1/bug-reports'', rq_body = ''it does not start'', rq_remote = ''127.0.0.1:9'',
       rq_query = [], rq_headers = [(''Authorization'', ''Bearer k'')]\<rparr>\<rparr>"

definition demo_world :: api_world where
  "demo_world = \<lparr>aw_server = new_server default_config empty_db, aw_reports = [], aw_next = 1, aw_clock = 0, aw_insert = True\<rparr>"

definition demo_http_config :: full_config where
  "demo_http_config = default_full_config\<lparr>fc_http_enabled := True, fc_http_keys := [''k''], fc_http_rate_requests := 1\<rparr>"

definition demo_http_server :: "api_world api_server" where
  "demo_http_server = (new_api_server False (api_config_of demo_http_config))\<lparr>as_routes := api_routes demo_lib None demo_http_config,
     as_running := True, as_chain := [Mw_cors ''*'', Mw_rate_limit 1 (new_api_limiter 0), Mw_api_key [''k'']], as_accepting := True\<rparr>"

lemma demo_starts: "start_http_api demo_lib None demo_http_config 0 True = Some (True, demo_http_server)"
  by (simp add: start_http_api_def setup_routes new_api_server_def api_start_fresh demo_http_server_def start_chain_def
      api_config_of_def demo_http_config_def default_full_config_def)

lemma demo_passes:
  "\<exists>rs. fst (chain_process demo_lib 5 (ev_request demo_report) (as_chain demo_http_server) new_response) = Some (True, rs)"
  by (simp add: demo_http_server_def demo_report_def cors_def cors_headers_def api_key_auth_def bearer_token_def rq_header_def
      starts_with_def limiter_step_def limiter_cleanup_def new_api_limiter_def minute_def)

theorem bug_reports_only_from_requests_witness:
  "\<exists>rs s' w'. start_http_api demo_lib None demo_http_config 0 True = Some (True, demo_http_server) \<and>
     api_serve demo_lib [demo_report, demo_report] demo_http_server demo_world = (rs, s', w') \<and>
     (\<exists>rows qs. aw_reports w' = rows \<and> subseq qs [demo_report, demo_report] \<and> list_all2 (report_of demo_lib [''k'']) qs rows)"
proof -
  obtain rs s' w' where run: "api_serve demo_lib [demo_report, demo_report] demo_http_server demo_world = (rs, s', w')"
    using prod_cases3 by blast
  show ?thesis
    using bug_reports_only_from_requests [OF demo_starts run] demo_starts run
    by (auto simp: demo_http_config_def demo_world_def)
qed

text \<open>A valid request that passes the chain is stored and answered with its id.\<close>

theorem valid_report_is_stored:
  assumes "serves_api lib failed fc s" and "rq_method rq = M_post" and "target_path rq = ''/api/v1/bug-reports''"
    and "fst (chain_process lib now rq (as_chain s) new_response) = Some (True, rs)"
    and "json_body lib rq = Some body" and "json_member body ''description'' = Some (J_string d)"
    and "json_value_string body ''user_id'' ''anonymous'' = Some u"
    and "10 \<le> length d" and "length d \<le> 2000" and "aw_insert w" and "dumps_text lib"
  shows "\<exists>r. fst (handle_request lib now rq s w) = Some r \<and> rs_status r = 201 \<and>
     snd (snd (handle_request lib now rq s w)) = insert_report u d w"
proof -
  have c: "json_contains body ''description''"
    using assms(6) by (cases body) (simp_all add: json_member_def)
  obtain b where "hl_dump lib (success_doc (J_object [(''id'', J_int (aw_next w)),
      (''message'', J_string ''Bug report submitted successfully'')])) = Some b"
    using assms(11) by (fastforce simp: dumps_text_def success_doc_def code_def)
  then have "\<exists>r. bug_report_route lib failed rq w = (Some r, insert_report u d w) \<and> rs_status r = 201"
    using assms c by (simp add: bug_report_route_def response_created_def respond_def rs_json_def rs_header_def)
  moreover have "route_match (as_routes s) M_post ''/api/v1/bug-reports'' = Some (bug_report_route lib failed, [])"
    using assms(1) by (simp add: serves_api_def api_routes_def del: route_match.simps(2))
  ultimately show ?thesis using assms(2-4) by (auto simp: handle_request_def split_def Let_def)
qed

theorem valid_report_is_stored_witness:
  "\<exists>r. fst (handle_request demo_lib 5 (ev_request demo_report) demo_http_server demo_world) = Some r \<and> rs_status r = 201 \<and>
     snd (snd (handle_request demo_lib 5 (ev_request demo_report) demo_http_server demo_world)) =
       insert_report ''anonymous'' ''it does not start'' demo_world"
proof -
  obtain rs where "fst (chain_process demo_lib 5 (ev_request demo_report) (as_chain demo_http_server) new_response) = Some (True, rs)"
    using demo_passes by blast
  then show ?thesis
    by (rule valid_report_is_stored [OF start_serves [OF demo_starts], rotated 2,
          where body = "J_object [(''description'', J_string ''it does not start'')]"])
      (simp_all add: demo_report_def target_path_def json_body_def demo_lib_def json_member_def demo_world_def dumps_text_def)
qed

text \<open>Health is behind the keys as well, and the object the server makes serves no connection.\<close>

lemma health_needs_key:
  assumes "start_http_api lib failed fc now True = Some (ok, s)" and "fc_http_keys fc \<noteq> []"
    and "bearer_token rq = None" and "handle_request lib t rq s w = (Some rs, s', w')"
  shows "rs_status rs \<in> {204, 400, 401, 429}"
  using unkeyed_request_refused [of "fc_http_keys fc" s rq lib t w rs s' w'] start_serves [OF assms(1)] assms(2-4)
  by (simp add: serves_api_def has_key_def)

lemma deployed_server_serves_nobody:
  assumes "start_http_api lib failed fc now True = Some (ok, s)"
  shows "on_accept False s = (False, s\<lparr>as_accepting := False\<rparr>)"
  using start_http_api_state [OF assms] by (simp add: unshared_serves_nobody)

end
