(* ===== verification/Plugin_Meta.thy ===== *)
theory Plugin_Meta
  imports Grotto_Text "HOL-Library.Sublist"
begin

text \<open>
  The description of a plugin and its files: \<open>plugin_meta.cpp\<close> and the file functions of \<open>js_api.cpp\<close> in
  \<open>grotto-chat-plugin\<close>.  \<open>plugin.json\<close> comes as the value \<open>json::parse\<close> gives, \<open>None\<close> where the file cannot be
  opened or parsed; every exception of the reader ends in \<open>None\<close>.  The file system has no symbolic links;
  a path is the list of its components from the root.
\<close>

subsection \<open>Types\<close>

datatype plugin_type = Pt_bot | Pt_client | Pt_server

datatype permission =
    Perm_read_messages | Perm_send_messages | Perm_register_commands | Perm_manage_channels
  | Perm_manage_users | Perm_http_request | Perm_file_read | Perm_file_write

record command_def =
  cd_name :: string
  cd_description :: string
  cd_usage :: string

record bot_config =
  bc_user_id :: string
  bc_auto_join :: "string list"

record plugin_meta =
  pm_name :: string
  pm_display_name :: string
  pm_version :: string
  pm_type :: plugin_type
  pm_entry :: string
  pm_description :: string
  pm_min_host_version :: string
  pm_bot :: "bot_config option"
  pm_commands :: "command_def list"
  pm_permissions :: "permission list"
  pm_dir :: string

definition has_permission :: "plugin_meta \<Rightarrow> permission \<Rightarrow> bool" where
  "has_permission m p \<longleftrightarrow> p \<in> set (pm_permissions m)"

subsection \<open>Reading \<open>plugin.json\<close>\<close>

definition parse_type :: "string \<Rightarrow> plugin_type option" where
  "parse_type s = (if s = ''bot'' then Some Pt_bot else if s = ''client_extension'' then Some Pt_client
     else if s = ''server_extension'' then Some Pt_server else None)"

definition parse_permission :: "string \<Rightarrow> permission option" where
  "parse_permission s =
     (if s = ''read_messages'' then Some Perm_read_messages
      else if s = ''send_messages'' then Some Perm_send_messages
      else if s = ''register_commands'' then Some Perm_register_commands
      else if s = ''manage_channels'' then Some Perm_manage_channels
      else if s = ''manage_users'' then Some Perm_manage_users
      else if s = ''http_request'' then Some Perm_http_request
      else if s = ''file_read'' then Some Perm_file_read
      else if s = ''file_write'' then Some Perm_file_write else None)"

fun json_at :: "json \<Rightarrow> string \<Rightarrow> json option" where
  "json_at (J_object o') k = map_of o' k"
| "json_at _ k = None"

definition json_at_string :: "json \<Rightarrow> string \<Rightarrow> string option" where
  "json_at_string j k = Option.bind (json_at j k) json_string"

text \<open>A \<open>for\<close> over a JSON value: the elements, the members, nothing for null, a scalar itself.\<close>

fun json_items :: "json \<Rightarrow> json list" where
  "json_items (J_array js) = js"
| "json_items (J_object o') = map snd o'"
| "json_items J_null = []"
| "json_items j = [j]"

fun json_strings :: "json \<Rightarrow> string list option" where
  "json_strings (J_array js) = those (map json_string js)"
| "json_strings _ = None"

definition parse_command_def :: "json \<Rightarrow> command_def option" where
  "parse_command_def j =
     Option.bind (json_at_string j ''name'') (\<lambda>name.
     Option.bind (json_value_string j ''description'' []) (\<lambda>description.
     Option.bind (json_value_string j ''usage'' []) (\<lambda>usage.
       Some \<lparr>cd_name = name, cd_description = description, cd_usage = usage\<rparr>)))"

definition parse_bot_config :: "json \<Rightarrow> bot_config option" where
  "parse_bot_config j =
     Option.bind (json_at_string j ''user_id'') (\<lambda>user.
       map_option (\<lambda>cs. \<lparr>bc_user_id = user, bc_auto_join = cs\<rparr>)
         (case json_at j ''auto_join_channels'' of None \<Rightarrow> Some [] | Some cs \<Rightarrow> json_strings cs))"

definition parse_plugin_json :: "json option \<Rightarrow> string \<Rightarrow> plugin_meta option" where
  "parse_plugin_json content dir =
     Option.bind content (\<lambda>j.
     Option.bind (json_at_string j ''name'') (\<lambda>name.
     Option.bind (json_value_string j ''display_name'' name) (\<lambda>display.
     Option.bind (json_at_string j ''version'') (\<lambda>version.
     Option.bind (Option.bind (json_at_string j ''type'') parse_type) (\<lambda>ty.
     Option.bind (json_at_string j ''entry'') (\<lambda>entry.
     Option.bind (json_value_string j ''description'' []) (\<lambda>description.
     Option.bind (json_value_string j ''min_host_version'' ''0.0.0'') (\<lambda>min_host.
     Option.bind (case json_at j ''bot'' of None \<Rightarrow> Some None | Some b \<Rightarrow> map_option Some (parse_bot_config b)) (\<lambda>bot.
     Option.bind (case json_at j ''commands'' of None \<Rightarrow> Some []
                  | Some cs \<Rightarrow> those (map parse_command_def (json_items cs))) (\<lambda>commands.
     Option.bind (case json_at j ''permissions'' of None \<Rightarrow> Some []
                  | Some ps \<Rightarrow> those (map (\<lambda>p. Option.bind (json_string p) parse_permission) (json_items ps))) (\<lambda>permissions.
       Some \<lparr>pm_name = name, pm_display_name = display, pm_version = version, pm_type = ty, pm_entry = entry,
         pm_description = description, pm_min_host_version = min_host, pm_bot = bot, pm_commands = commands,
         pm_permissions = permissions, pm_dir = dir\<rparr>)))))))))))"

definition permission_fits :: "plugin_type \<Rightarrow> permission \<Rightarrow> bool" where
  "permission_fits ty p \<longleftrightarrow>
     \<not> (ty = Pt_server \<and> p \<in> {Perm_read_messages, Perm_send_messages, Perm_register_commands}) \<and>
     \<not> (ty \<noteq> Pt_server \<and> p \<in> {Perm_manage_channels, Perm_manage_users})"

definition validate_plugin_meta :: "plugin_meta \<Rightarrow> bool" where
  "validate_plugin_meta m \<longleftrightarrow> pm_name m \<noteq> [] \<and> pm_entry m \<noteq> [] \<and> \<not> (pm_type m = Pt_bot \<and> pm_bot m = None) \<and>
     list_all (permission_fits (pm_type m)) (pm_permissions m)"

fun plugin_type_to_string :: "plugin_type \<Rightarrow> string" where
  "plugin_type_to_string Pt_bot = ''bot''"
| "plugin_type_to_string Pt_client = ''client_extension''"
| "plugin_type_to_string Pt_server = ''server_extension''"

fun permission_to_string :: "permission \<Rightarrow> string" where
  "permission_to_string Perm_read_messages = ''read_messages''"
| "permission_to_string Perm_send_messages = ''send_messages''"
| "permission_to_string Perm_register_commands = ''register_commands''"
| "permission_to_string Perm_manage_channels = ''manage_channels''"
| "permission_to_string Perm_manage_users = ''manage_users''"
| "permission_to_string Perm_http_request = ''http_request''"
| "permission_to_string Perm_file_read = ''file_read''"
| "permission_to_string Perm_file_write = ''file_write''"

subsection \<open>Paths\<close>

record vfs =
  vf_cwd :: "string list"
  vf_dirs :: "string list list"
  vf_files :: "(string list \<times> string) list"

function path_parts :: "string \<Rightarrow> string list" where
  "path_parts p =
     (case dropWhile (\<lambda>c. c \<noteq> CHR ''/'') p of
        [] \<Rightarrow> if p = [] then [] else [p]
      | _ # r \<Rightarrow> (let w = takeWhile (\<lambda>c. c \<noteq> CHR ''/'') p in if w = [] then path_parts r else w # path_parts r))"
  by pat_completeness auto
termination
proof (relation "measure length", simp)
  fix p :: string and c r w
  assume "dropWhile (\<lambda>c. c \<noteq> CHR ''/'') p = c # r"
  then have "length (c # r) \<le> length p" by (metis length_dropWhile_le)
  then show "(r, p) \<in> measure length" and "(r, p) \<in> measure length" by simp_all
qed

declare path_parts.simps [simp del]

definition path_join :: "string \<Rightarrow> string \<Rightarrow> string" where
  "path_join p q = (if starts_with ''/'' q then q else if p = [] \<or> ends_with ''/'' p then p @ q else p @ ''/'' @ q)"

definition path_text_of :: "string list \<Rightarrow> string" where
  "path_text_of ps = (if ps = [] then ''/'' else concat (map (\<lambda>c. CHR ''/'' # c) ps))"

definition path_base :: "vfs \<Rightarrow> string \<Rightarrow> string list" where
  "path_base fs p = (if starts_with ''/'' p then [] else vf_cwd fs)"

fun walk :: "string list \<Rightarrow> string list \<Rightarrow> string list" where
  "walk at [] = at"
| "walk at (c # cs) = walk (if c = ''.'' then at else if c = ''..'' then butlast at else at @ [c]) cs"

definition path_exists :: "vfs \<Rightarrow> string list \<Rightarrow> bool" where
  "path_exists fs p \<longleftrightarrow> p \<in> set (vf_dirs fs) \<or> map_of (vf_files fs) p \<noteq> None"

fun walk_existing :: "vfs \<Rightarrow> string list \<Rightarrow> string list \<Rightarrow> string list option" where
  "walk_existing fs at [] = Some at"
| "walk_existing fs at (c # cs) =
     (if at \<notin> set (vf_dirs fs) then None
      else if c = ''.'' then walk_existing fs at cs
      else if c = ''..'' then walk_existing fs (butlast at) cs
      else if path_exists fs (at @ [c]) then walk_existing fs (at @ [c]) cs else None)"

definition fs_canonical :: "vfs \<Rightarrow> string \<Rightarrow> string list option" where
  "fs_canonical fs p = walk_existing fs (path_base fs p) (path_parts p)"

definition fs_weakly_canonical :: "vfs \<Rightarrow> string \<Rightarrow> string list" where
  "fs_weakly_canonical fs p = walk (path_base fs p) (path_parts p)"

text \<open>\<open>create_directories\<close>: every prefix of the path.\<close>

definition create_directories :: "vfs \<Rightarrow> string \<Rightarrow> vfs" where
  "create_directories fs p =
     (let q = fs_weakly_canonical fs p
      in fs\<lparr>vf_dirs := foldl (\<lambda>ds n. uinsert (take n q) ds) (vf_dirs fs) [0..<length q + 1]\<rparr>)"

subsection \<open>The files of a plugin\<close>

datatype js_result = Js_undefined | Js_string string | Js_type_error string

definition data_dir :: "plugin_meta \<Rightarrow> string" where
  "data_dir m = path_join (pm_dir m) ''data''"

definition c_str :: "string \<Rightarrow> string" where
  "c_str s = takeWhile (\<lambda>c. code c \<noteq> 0) s"

text \<open>
  \<open>canonical\<close> leaves an empty path where the directory is missing, and the call of \<open>weakly_canonical\<close> after it
  clears the error.
\<close>

definition escapes_data :: "string list option \<Rightarrow> string list \<Rightarrow> bool" where
  "escapes_data data goal \<longleftrightarrow>
     \<not> starts_with (case data of None \<Rightarrow> [] | Some d \<Rightarrow> path_text_of d) (path_text_of goal)"

definition js_read_file :: "vfs \<Rightarrow> plugin_meta \<Rightarrow> string \<Rightarrow> js_result" where
  "js_read_file fs m rel =
     (if \<not> has_permission m Perm_file_read then Js_type_error ''Missing file_read permission''
      else let goal = fs_weakly_canonical fs (path_join (data_dir m) rel)
           in if escapes_data (fs_canonical fs (data_dir m)) goal then Js_type_error ''Invalid path (escapes data directory)''
              else case map_of (vf_files fs) goal of
                     None \<Rightarrow> Js_type_error ''Failed to open file for reading''
                   | Some content \<Rightarrow> Js_string (c_str content))"

text \<open>A directory that cannot be made throws out of the function; \<open>js_write_file\<close> is what follows when it can.\<close>

definition js_write_file :: "vfs \<Rightarrow> plugin_meta \<Rightarrow> string \<Rightarrow> string \<Rightarrow> js_result \<times> vfs" where
  "js_write_file fs m rel content =
     (if \<not> has_permission m Perm_file_write then (Js_type_error ''Missing file_write permission'', fs)
      else let fs = create_directories fs (data_dir m);
               data = (case fs_canonical fs (data_dir m) of None \<Rightarrow> fs_weakly_canonical fs (data_dir m) | Some d \<Rightarrow> d);
               goal = fs_weakly_canonical fs (path_join (data_dir m) rel)
           in if escapes_data (Some data) goal then (Js_type_error ''Invalid path (escapes data directory)'', fs)
              else if goal = [] \<or> goal \<in> set (vf_dirs fs) \<or> butlast goal \<notin> set (vf_dirs fs)
                   then (Js_type_error ''Failed to open file for writing'', fs)
              else (Js_undefined, fs\<lparr>vf_files := mput goal content (vf_files fs)\<rparr>))"

subsection \<open>Names of types and permissions\<close>

lemma parse_type_to_string [simp]: "parse_type (plugin_type_to_string ty) = Some ty"
  by (cases ty) (simp_all add: parse_type_def)

lemma parse_permission_to_string [simp]: "parse_permission (permission_to_string p) = Some p"
  by (cases p) (simp_all add: parse_permission_def)

lemma valid_permissions:
  "validate_plugin_meta m \<Longrightarrow> has_permission m p \<Longrightarrow> permission_fits (pm_type m) p"
  by (simp add: validate_plugin_meta_def has_permission_def list_all_iff)

subsection \<open>Paths and their parts\<close>

definition slash_free :: "string \<Rightarrow> bool" where
  "slash_free c \<longleftrightarrow> CHR ''/'' \<notin> set c"

lemma starts_with_prefix: "starts_with p s \<longleftrightarrow> prefix p s"
  unfolding starts_with_def prefix_def by (metis append_eq_conv_conj append_take_drop_id)

lemma path_parts_word: "slash_free w \<Longrightarrow> w \<noteq> [] \<Longrightarrow> path_parts (w @ CHR ''/'' # r) = w # path_parts r"
  by (subst path_parts.simps) (auto simp: slash_free_def dropWhile_append takeWhile_append Let_def split: list.splits)

lemma path_parts_simps [simp]:
  "path_parts [] = []" "path_parts (CHR ''/'' # r) = path_parts r"
  by (simp_all add: path_parts.simps)

lemma path_parts_last:
  assumes "slash_free w" and "w \<noteq> []" shows "path_parts w = [w]"
proof -
  have d: "dropWhile (\<lambda>c. c \<noteq> CHR ''/'') w = []" using assms(1) by (auto simp: slash_free_def dropWhile_eq_Nil_conv)
  show ?thesis using assms(2) by (subst path_parts.simps) (simp only: d list.case if_False)
qed

lemma path_parts_slash: "path_parts (p @ CHR ''/'' # q) = path_parts p @ path_parts q"
proof (induction p rule: path_parts.induct)
  case (1 p)
  let ?w = "takeWhile (\<lambda>c. c \<noteq> CHR ''/'') p"
  have w: "slash_free ?w" by (auto simp: slash_free_def dest: set_takeWhileD)
  show ?case
  proof (cases "dropWhile (\<lambda>c. c \<noteq> CHR ''/'') p")
    case Nil
    then have "slash_free p" by (auto simp: slash_free_def dropWhile_eq_Nil_conv)
    then show ?thesis by (cases "p = []") (simp_all add: path_parts_word path_parts_last)
  next
    case (Cons c r)
    then have "c = CHR ''/''" by (metis (mono_tags) dropWhile_eq_Cons_conv)
    then have p: "p = ?w @ CHR ''/'' # r" using takeWhile_dropWhile_id [of "\<lambda>c. c \<noteq> CHR ''/''" p] Cons by simp
    have IH: "path_parts (r @ CHR ''/'' # q) = path_parts r @ path_parts q"
      using "1.IH" Cons by (cases "?w = []") auto
    show ?thesis
    proof (cases "?w = []")
      case True
      with p have "p = CHR ''/'' # r" by simp
      then show ?thesis using IH by simp
    next
      case False
      have "path_parts (p @ CHR ''/'' # q) = path_parts (?w @ CHR ''/'' # (r @ CHR ''/'' # q))"
        using p by (metis append.assoc append_Cons)
      also have "\<dots> = ?w # path_parts r @ path_parts q" using path_parts_word [OF w False] IH by simp
      also have "\<dots> = path_parts p @ path_parts q" using path_parts_word [OF w False, of r] p by simp
      finally show ?thesis .
    qed
  qed
qed

lemma path_parts_slash_free: "c \<in> set (path_parts p) \<Longrightarrow> slash_free c"
proof (induction p rule: path_parts.induct)
  case (1 p)
  show ?case
  proof (cases "dropWhile (\<lambda>c. c \<noteq> CHR ''/'') p")
    case Nil
    then have "slash_free p" by (auto simp: slash_free_def dropWhile_eq_Nil_conv)
    then show ?thesis using "1.prems" by (cases "p = []") (simp_all add: path_parts_last)
  next
    case (Cons d r)
    have w: "slash_free (takeWhile (\<lambda>c. c \<noteq> CHR ''/'') p)" by (auto simp: slash_free_def dest: set_takeWhileD)
    have "c \<in> set (path_parts r) \<or> c = takeWhile (\<lambda>c. c \<noteq> CHR ''/'') p"
      using "1.prems" Cons by (subst (asm) path_parts.simps) (auto simp: Let_def split: if_splits)
    then show ?thesis using "1.IH" Cons w by (cases "takeWhile (\<lambda>c. c \<noteq> CHR ''/'') p = []") auto
  qed
qed

lemma walk_append: "walk at (cs @ ds) = walk (walk at cs) ds"
  by (induction cs arbitrary: at) simp_all

lemma walk_existing_walk: "walk_existing fs at cs = Some q \<Longrightarrow> q = walk at cs"
  by (induction cs arbitrary: at) (auto split: if_splits)

lemma set_walk: "set (walk at cs) \<subseteq> set at \<union> set cs"
proof (induction cs arbitrary: at)
  case (Cons c cs)
  have "set (butlast at) \<subseteq> set at" by (auto dest: in_set_butlastD)
  then show ?case using Cons [of at] Cons [of "butlast at"] Cons [of "at @ [c]"] by auto
qed simp

lemma walk_slash_free:
  "\<forall>c \<in> set at. slash_free c \<Longrightarrow> \<forall>c \<in> set cs. slash_free c \<Longrightarrow> \<forall>c \<in> set (walk at cs). slash_free c"
  using set_walk [of at cs] by blast

definition cwd_ok :: "vfs \<Rightarrow> bool" where
  "cwd_ok fs \<longleftrightarrow> (\<forall>c \<in> set (vf_cwd fs). slash_free c)"

lemma weakly_canonical_slash_free: "cwd_ok fs \<Longrightarrow> \<forall>c \<in> set (fs_weakly_canonical fs p). slash_free c"
  unfolding fs_weakly_canonical_def
  by (rule walk_slash_free) (auto simp: path_base_def cwd_ok_def path_parts_slash_free)

lemma ends_with_slash: "ends_with ''/'' d \<Longrightarrow> \<exists>d'. d = d' @ ''/''"
  unfolding ends_with_def by (metis append_take_drop_id)

lemma path_parts_join:
  assumes "slash_free w" and "w \<noteq> []" shows "path_parts (path_join d w) = path_parts d @ [w]"
proof -
  have s: "\<not> starts_with ''/'' w" using assms by (cases w) (auto simp: starts_with_def slash_free_def)
  consider "d = []" | d' where "d = d' @ ''/''" | "d \<noteq> []" "\<not> ends_with ''/'' d"
    using ends_with_slash by blast
  then show ?thesis
  proof cases
    case 1
    then show ?thesis using s assms by (simp add: path_join_def path_parts_last)
  next
    case 2
    have "path_parts (d' @ CHR ''/'' # w) = path_parts d' @ [w]" "path_parts (d' @ CHR ''/'' # []) = path_parts d'"
      using path_parts_slash [of d' w] path_parts_slash [of d' "[]"] path_parts_last [OF assms] by simp_all
    moreover have "ends_with ''/'' d" using 2 by (simp add: ends_with_def)
    ultimately show ?thesis using s 2 by (simp add: path_join_def)
  next
    case 3
    then show ?thesis using s path_parts_slash [of d w] path_parts_last [OF assms] by (simp add: path_join_def)
  qed
qed

lemma weakly_canonical_data: "fs_weakly_canonical fs (data_dir m) = fs_weakly_canonical fs (pm_dir m) @ [''data'']"
proof -
  have "path_parts (data_dir m) = path_parts (pm_dir m) @ [''data'']"
    unfolding data_dir_def by (rule path_parts_join) (simp_all add: slash_free_def)
  moreover have "path_base fs (data_dir m) = path_base fs (pm_dir m)"
    by (cases "pm_dir m") (simp_all add: path_base_def data_dir_def path_join_def starts_with_def)
  ultimately show ?thesis by (simp add: fs_weakly_canonical_def walk_append)
qed

lemma canonical_weakly: "fs_canonical fs p = Some q \<Longrightarrow> q = fs_weakly_canonical fs p"
  by (simp add: fs_canonical_def fs_weakly_canonical_def walk_existing_walk)

subsection \<open>Where the files of a plugin lie\<close>

lemma prefix_word:
  assumes "prefix x (g @ r)" and "slash_free x" and "r = [] \<or> hd r = CHR ''/''"
  shows "prefix x g"
  using assms
proof (induction x arbitrary: g)
  case (Cons c x)
  show ?case
  proof (cases g)
    case Nil
    then show ?thesis using Cons.prems by (cases r) (auto simp: slash_free_def)
  next
    case (Cons d g')
    then show ?thesis using Cons.prems Cons.IH [of g'] by (auto simp: slash_free_def)
  qed
qed simp

lemma prefix_slash:
  "prefix (p @ CHR ''/'' # s) (g @ r) \<Longrightarrow> slash_free p \<Longrightarrow> slash_free g \<Longrightarrow> r = [] \<or> hd r = CHR ''/'' \<Longrightarrow>
     p = g \<and> prefix (CHR ''/'' # s) r"
proof (induction p arbitrary: g)
  case Nil
  then show ?case by (cases g) (auto simp: slash_free_def)
next
  case (Cons c p)
  then show ?case by (cases g; cases r) (auto simp: slash_free_def)
qed

lemma prefix_components:
  assumes "prefix (concat (map (\<lambda>c. CHR ''/'' # c) (P @ [x]))) (concat (map (\<lambda>c. CHR ''/'' # c) gs))"
    and "\<forall>c \<in> set (P @ [x]). slash_free c" and "\<forall>c \<in> set gs. slash_free c"
  shows "\<exists>s rest. gs = P @ (x @ s) # rest"
  using assms
proof (induction P arbitrary: gs)
  case Nil
  then obtain g gs' where g: "gs = g # gs'" by (cases gs) auto
  have "prefix x (g @ concat (map (\<lambda>c. CHR ''/'' # c) gs'))" using Nil g by simp
  then have "prefix x g" by (rule prefix_word) (use Nil in \<open>cases gs'; simp\<close>)+
  then show ?case using g by (auto simp: prefix_def)
next
  case (Cons p P)
  then obtain g gs' where g: "gs = g # gs'" by (cases gs) auto
  let ?s = "concat (map (\<lambda>c. CHR ''/'' # c) (P @ [x]))"
  obtain s' where s: "?s = CHR ''/'' # s'" by (cases P) auto
  let ?r = "concat (map (\<lambda>c. CHR ''/'' # c) gs')"
  have "prefix (p @ CHR ''/'' # s') (g @ ?r)" using Cons.prems(1) g s by simp
  moreover have "slash_free p" "slash_free g" using Cons.prems(2,3) g by simp_all
  moreover have "?r = [] \<or> hd ?r = CHR ''/''" by (cases gs') simp_all
  ultimately have p: "p = g \<and> prefix (CHR ''/'' # s') ?r" by (rule prefix_slash)
  have "\<exists>u rest. gs' = P @ (x @ u) # rest"
    using p s Cons.prems(2,3) g by (intro Cons.IH) (simp_all del: map_append)
  then show ?case using p g by auto
qed

lemma not_escaping:
  assumes "cwd_ok fs" and "\<not> escapes_data (Some (fs_weakly_canonical fs (data_dir m))) (fs_weakly_canonical fs p)"
  shows "\<exists>s rest. fs_weakly_canonical fs p = fs_weakly_canonical fs (pm_dir m) @ (''data'' @ s) # rest"
proof -
  let ?g = "fs_weakly_canonical fs p" and ?P = "fs_weakly_canonical fs (pm_dir m)"
  have pre: "prefix (concat (map (\<lambda>c. CHR ''/'' # c) (?P @ [''data'']))) (path_text_of ?g)"
    using assms(2) by (simp add: escapes_data_def weakly_canonical_data starts_with_prefix path_text_of_def)
  have "?g \<noteq> []"
  proof
    assume "?g = []"
    with pre have "length (concat (map (\<lambda>c. CHR ''/'' # c) (?P @ [''data'']))) \<le> 1"
      by (auto simp: path_text_of_def dest!: prefix_length_le)
    then show False by simp
  qed
  then show ?thesis
    using prefix_components [of ?P "''data''" ?g] pre weakly_canonical_slash_free [OF assms(1)]
    by (auto simp: path_text_of_def slash_free_def)
qed

text \<open>
  With its data directory in place a plugin reads only files below its own directory whose first component
  begins with \<open>data\<close>: the check compares the texts of the paths.
\<close>

theorem plugin_reads_near_data:
  assumes "cwd_ok fs" and "fs_canonical fs (data_dir m) \<noteq> None" and "js_read_file fs m rel = Js_string s"
  shows "has_permission m Perm_file_read \<and> (\<exists>goal content sfx rest. map_of (vf_files fs) goal = Some content \<and>
     s = c_str content \<and> goal = fs_weakly_canonical fs (pm_dir m) @ (''data'' @ sfx) # rest)"
proof -
  let ?goal = "fs_weakly_canonical fs (path_join (data_dir m) rel)"
  obtain d where "fs_canonical fs (data_dir m) = Some d" using assms(2) by auto
  then have "fs_canonical fs (data_dir m) = Some (fs_weakly_canonical fs (data_dir m))"
    using canonical_weakly by simp
  then show ?thesis
    using assms(3) not_escaping [OF assms(1), of m "path_join (data_dir m) rel"]
    by (auto simp: js_read_file_def Let_def split: if_splits option.splits)
qed

lemma create_directories_frame [simp]:
  "vf_files (create_directories fs p) = vf_files fs" "vf_cwd (create_directories fs p) = vf_cwd fs"
  by (simp_all add: create_directories_def Let_def)

lemma weakly_canonical_create [simp]: "fs_weakly_canonical (create_directories fs q) p = fs_weakly_canonical fs p"
  by (simp add: fs_weakly_canonical_def path_base_def)

theorem plugin_writes_near_data:
  assumes "cwd_ok fs" and "js_write_file fs m rel content = (r, fs')"
  shows "vf_files fs' = vf_files fs \<or> has_permission m Perm_file_write \<and>
     (\<exists>sfx rest. vf_files fs' = mput (fs_weakly_canonical fs (pm_dir m) @ (''data'' @ sfx) # rest) content (vf_files fs))"
proof -
  let ?fs = "create_directories fs (data_dir m)"
  let ?data = "case fs_canonical ?fs (data_dir m) of None \<Rightarrow> fs_weakly_canonical ?fs (data_dir m) | Some d \<Rightarrow> d"
  let ?goal = "fs_weakly_canonical fs (path_join (data_dir m) rel)"
  have data: "?data = fs_weakly_canonical fs (data_dir m)"
    using canonical_weakly [of ?fs "data_dir m"] by (auto split: option.split)
  show ?thesis
  proof (cases "vf_files fs' = vf_files fs")
    case False
    then have w: "has_permission m Perm_file_write" "\<not> escapes_data (Some (fs_weakly_canonical fs (data_dir m))) ?goal"
      "vf_files fs' = mput ?goal content (vf_files fs)"
      using assms(2) by (auto simp: js_write_file_def Let_def data split: if_splits)
    obtain s rest where "?goal = fs_weakly_canonical fs (pm_dir m) @ (''data'' @ s) # rest"
      using not_escaping [OF assms(1) w(2)] by blast
    with w show ?thesis by (intro disjI2 conjI exI [of _ s] exI [of _ rest]) simp_all
  qed simp
qed

text \<open>Without the directory the comparison is with the empty text: every file of the disk can be read.\<close>

lemma path_parts_text:
  "\<forall>c \<in> set p. slash_free c \<and> c \<noteq> [] \<Longrightarrow> path_parts (concat (map (\<lambda>c. CHR ''/'' # c) p)) = p"
proof (induction p)
  case (Cons c p)
  then show ?case
    by (cases p) (auto simp: path_parts_last path_parts_word)
qed simp

lemma walk_plain: "\<forall>c \<in> set p. c \<noteq> ''.'' \<and> c \<noteq> ''..'' \<Longrightarrow> walk at p = at @ p"
  by (induction p arbitrary: at) simp_all

lemma missing_data_reads_anything:
  assumes "has_permission m Perm_file_read" and "fs_canonical fs (data_dir m) = None"
    and "map_of (vf_files fs) p = Some content" and "p \<noteq> []"
    and "\<forall>c \<in> set p. slash_free c \<and> c \<noteq> [] \<and> c \<noteq> ''.'' \<and> c \<noteq> ''..''"
  shows "js_read_file fs m (path_text_of p) = Js_string (c_str content)"
proof -
  have abs: "starts_with ''/'' (path_text_of p)" using assms(4) by (cases p) (auto simp: path_text_of_def starts_with_def)
  have "fs_weakly_canonical fs (path_text_of p) = p"
    using assms(4,5) abs
    by (simp add: fs_weakly_canonical_def path_base_def path_text_of_def path_parts_text walk_plain)
  then show ?thesis
    using assms abs by (simp add: js_read_file_def path_join_def escapes_data_def starts_with_def)
qed

definition demo_meta :: plugin_meta where
  "demo_meta = \<lparr>pm_name = ''p'', pm_display_name = ''p'', pm_version = ''1'', pm_type = Pt_client, pm_entry = ''main.js'',
     pm_description = [], pm_min_host_version = ''0.0.0'', pm_bot = None, pm_commands = [],
     pm_permissions = [Perm_file_read, Perm_file_write, Perm_send_messages], pm_dir = ''/p''\<rparr>"

definition demo_fs :: vfs where
  "demo_fs = \<lparr>vf_cwd = [], vf_dirs = [[], [''p''], [''p'', ''data''], [''p'', ''data_old'']],
     vf_files = [([''p'', ''data'', ''a''], ''in''), ([''p'', ''data_old'', ''a''], ''out''), ([''etc''], ''root'')]\<rparr>"

lemma demo_reads:
  "js_read_file demo_fs demo_meta ''a'' = Js_string ''in''"
  "js_read_file demo_fs demo_meta ''../data_old/a'' = Js_string ''out''"
  "js_read_file demo_fs demo_meta ''/etc'' = Js_type_error ''Invalid path (escapes data directory)''"
  "js_read_file (demo_fs\<lparr>vf_dirs := [[], [''p'']]\<rparr>) demo_meta ''/etc'' = Js_string ''root''"
  by code_simp+

theorem plugin_reads_near_data_witness:
  "has_permission demo_meta Perm_file_read \<and> (\<exists>goal content sfx rest. map_of (vf_files demo_fs) goal = Some content \<and>
     ''in'' = c_str content \<and> goal = fs_weakly_canonical demo_fs (pm_dir demo_meta) @ (''data'' @ sfx) # rest)"
proof (rule plugin_reads_near_data)
  show "cwd_ok demo_fs" by (simp add: cwd_ok_def demo_fs_def)
  show "fs_canonical demo_fs (data_dir demo_meta) \<noteq> None" by code_simp
  show "js_read_file demo_fs demo_meta ''a'' = Js_string ''in''" by (rule demo_reads)
qed

theorem plugin_writes_near_data_witness:
  "vf_files (snd (js_write_file demo_fs demo_meta ''b'' ''x'')) = vf_files demo_fs \<or> has_permission demo_meta Perm_file_write \<and>
     (\<exists>sfx rest. vf_files (snd (js_write_file demo_fs demo_meta ''b'' ''x'')) =
        mput (fs_weakly_canonical demo_fs (pm_dir demo_meta) @ (''data'' @ sfx) # rest) ''x'' (vf_files demo_fs))"
  by (rule plugin_writes_near_data [where r = "fst (js_write_file demo_fs demo_meta ''b'' ''x'')"])
    (simp_all add: cwd_ok_def demo_fs_def)

end
