(* ===== verification/Plugin_Runtime.thy ===== *)
theory Plugin_Runtime
  imports Plugin_Meta
begin

text \<open>
  Plugins at run time: \<open>plugin_instance.cpp\<close>, \<open>js_api.cpp\<close>, the three kinds of plugins and \<open>plugin_manager.cpp\<close> of
  \<open>grotto-chat-plugin\<close>.  The JavaScript of a plugin is not the program's own: a run of a script or a handler is
  any list of calls of the interface, and whether it ends in an exception.  The callbacks of the host are
  the flags that they are set and the list of their calls, each with the plugin it came from.  Functions
  of a script are numbers.  Calls with missing arguments, which only throw, the queries of the
  host, the handler of bug reports and the log are left out.
\<close>

subsection \<open>The host and a plugin\<close>

datatype host_callback =
    Cb_send_message | Cb_join_channel | Cb_leave_channel | Cb_kick_user | Cb_ban_user | Cb_create_channel
  | Cb_delete_channel | Cb_notify | Cb_send_bug_report

datatype host_effect =
    Ef_send string string | Ef_join string | Ef_leave string | Ef_kick string string | Ef_ban string string
  | Ef_create string | Ef_delete string | Ef_notify string | Ef_bug_report string

record plugin_host =
  ph_callbacks :: "host_callback \<Rightarrow> bool"
  ph_effects :: "(plugin_meta \<times> host_effect) list"
  ph_delivered :: "(plugin_meta \<times> string) list"
  ph_fs :: vfs

datatype plugin_state = Ps_loading | Ps_running | Ps_error | Ps_stopped

datatype plugin_error =
    Pe_none | Pe_runtime_init_failed | Pe_context_init_failed | Pe_source_file_not_found | Pe_script_init_failed
  | Pe_invalid_meta | Pe_already_loaded | Pe_not_found

record plugin =
  pl_meta :: plugin_meta
  pl_state :: plugin_state
  pl_events :: "(string \<times> nat list) list"
  pl_commands :: "(string \<times> nat) list"
  pl_errors :: nat

definition new_plugin :: "plugin_meta \<Rightarrow> plugin" where
  "new_plugin m = \<lparr>pl_meta = m, pl_state = Ps_loading, pl_events = [], pl_commands = [], pl_errors = 0\<rparr>"

definition max_errors :: nat where
  "max_errors = 50"

subsection \<open>The interface of the scripts\<close>

datatype api_call =
    Api_on string nat | Api_on_command string nat | Api_send_message string string
  | Api_read_file string | Api_write_file string string
  | Api_join_channel string | Api_leave_channel string
  | Api_kick_user string string | Api_ban_user string string | Api_create_channel string | Api_delete_channel string
  | Api_notify string | Api_send_bug_report string

definition register_event_handler :: "string \<Rightarrow> nat \<Rightarrow> plugin \<Rightarrow> plugin" where
  "register_event_handler ev f p =
     p\<lparr>pl_events := mput ev ((case map_of (pl_events p) ev of None \<Rightarrow> [] | Some fs \<Rightarrow> fs) @ [f]) (pl_events p)\<rparr>"

definition register_command_handler :: "string \<Rightarrow> nat \<Rightarrow> plugin \<Rightarrow> plugin" where
  "register_command_handler c f p = p\<lparr>pl_commands := mput c f (pl_commands p)\<rparr>"

text \<open>A callback of the host, if the plugin may and it is set.\<close>

definition call_host :: "bool \<Rightarrow> host_callback \<Rightarrow> host_effect \<Rightarrow> plugin \<times> plugin_host \<Rightarrow> plugin \<times> plugin_host" where
  "call_host allowed cb e = (\<lambda>(p, h).
     (p, if allowed \<and> ph_callbacks h cb then h\<lparr>ph_effects := ph_effects h @ [(pl_meta p, e)]\<rparr> else h))"

text \<open>The objects \<open>grotto.bot\<close>, \<open>grotto.client\<close> and \<open>grotto.server\<close> exist in plugins of their type only.\<close>

definition is_type :: "plugin_type \<Rightarrow> plugin \<times> plugin_host \<Rightarrow> bool" where
  "is_type ty x \<longleftrightarrow> pm_type (pl_meta (fst x)) = ty"

definition may :: "permission \<Rightarrow> plugin \<times> plugin_host \<Rightarrow> bool" where
  "may q x \<longleftrightarrow> has_permission (pl_meta (fst x)) q"

definition js_grotto_on :: "string \<Rightarrow> nat \<Rightarrow> plugin \<times> plugin_host \<Rightarrow> plugin \<times> plugin_host" where
  "js_grotto_on ev f x = (register_event_handler ev f (fst x), snd x)"

definition js_grotto_on_command :: "string \<Rightarrow> nat \<Rightarrow> plugin \<times> plugin_host \<Rightarrow> plugin \<times> plugin_host" where
  "js_grotto_on_command c f x = (register_command_handler c f (fst x), snd x)"

definition js_grotto_send_message :: "string \<Rightarrow> string \<Rightarrow> plugin \<times> plugin_host \<Rightarrow> plugin \<times> plugin_host" where
  "js_grotto_send_message c t x = call_host (may Perm_send_messages x) Cb_send_message (Ef_send c t) x"

definition js_fs_write_file :: "string \<Rightarrow> string \<Rightarrow> plugin \<times> plugin_host \<Rightarrow> plugin \<times> plugin_host" where
  "js_fs_write_file r content x = (fst x, (snd x)\<lparr>ph_fs := snd (js_write_file (ph_fs (snd x)) (pl_meta (fst x)) r content)\<rparr>)"

definition js_bot_join_channel :: "string \<Rightarrow> plugin \<times> plugin_host \<Rightarrow> plugin \<times> plugin_host" where
  "js_bot_join_channel c x = call_host (is_type Pt_bot x) Cb_join_channel (Ef_join c) x"

definition js_bot_leave_channel :: "string \<Rightarrow> plugin \<times> plugin_host \<Rightarrow> plugin \<times> plugin_host" where
  "js_bot_leave_channel c x = call_host (is_type Pt_bot x) Cb_leave_channel (Ef_leave c) x"

definition js_server_kick_user :: "string \<Rightarrow> string \<Rightarrow> plugin \<times> plugin_host \<Rightarrow> plugin \<times> plugin_host" where
  "js_server_kick_user u r x = call_host (is_type Pt_server x \<and> may Perm_manage_users x) Cb_kick_user (Ef_kick u r) x"

definition js_server_ban_user :: "string \<Rightarrow> string \<Rightarrow> plugin \<times> plugin_host \<Rightarrow> plugin \<times> plugin_host" where
  "js_server_ban_user u r x = call_host (is_type Pt_server x \<and> may Perm_manage_users x) Cb_ban_user (Ef_ban u r) x"

definition js_server_create_channel :: "string \<Rightarrow> plugin \<times> plugin_host \<Rightarrow> plugin \<times> plugin_host" where
  "js_server_create_channel c x = call_host (is_type Pt_server x \<and> may Perm_manage_channels x) Cb_create_channel (Ef_create c) x"

definition js_server_delete_channel :: "string \<Rightarrow> plugin \<times> plugin_host \<Rightarrow> plugin \<times> plugin_host" where
  "js_server_delete_channel c x = call_host (is_type Pt_server x \<and> may Perm_manage_channels x) Cb_delete_channel (Ef_delete c) x"

definition js_client_notify :: "string \<Rightarrow> plugin \<times> plugin_host \<Rightarrow> plugin \<times> plugin_host" where
  "js_client_notify t x = call_host (is_type Pt_client x) Cb_notify (Ef_notify t) x"

definition js_client_send_bug_report :: "string \<Rightarrow> plugin \<times> plugin_host \<Rightarrow> plugin \<times> plugin_host" where
  "js_client_send_bug_report d x = call_host (is_type Pt_client x) Cb_send_bug_report (Ef_bug_report d) x"

lemmas js_call_defs = js_grotto_on_def js_grotto_on_command_def js_grotto_send_message_def js_fs_write_file_def
  js_bot_join_channel_def js_bot_leave_channel_def js_server_kick_user_def js_server_ban_user_def js_server_create_channel_def
  js_server_delete_channel_def js_client_notify_def js_client_send_bug_report_def

fun js_api :: "api_call \<Rightarrow> plugin \<times> plugin_host \<Rightarrow> plugin \<times> plugin_host" where
  "js_api (Api_on ev f) x = js_grotto_on ev f x"
| "js_api (Api_on_command c f) x = js_grotto_on_command c f x"
| "js_api (Api_send_message c t) x = js_grotto_send_message c t x"
| "js_api (Api_read_file r) x = x"
| "js_api (Api_write_file r content) x = js_fs_write_file r content x"
| "js_api (Api_join_channel c) x = js_bot_join_channel c x"
| "js_api (Api_leave_channel c) x = js_bot_leave_channel c x"
| "js_api (Api_kick_user u r) x = js_server_kick_user u r x"
| "js_api (Api_ban_user u r) x = js_server_ban_user u r x"
| "js_api (Api_create_channel c) x = js_server_create_channel c x"
| "js_api (Api_delete_channel c) x = js_server_delete_channel c x"
| "js_api (Api_notify t) x = js_client_notify t x"
| "js_api (Api_send_bug_report d) x = js_client_send_bug_report d x"

type_synonym js_run = "api_call list \<times> bool"

definition run_calls :: "api_call list \<Rightarrow> plugin \<times> plugin_host \<Rightarrow> plugin \<times> plugin_host" where
  "run_calls cs x = fold js_api cs x"

definition call_js_safe :: "js_run \<Rightarrow> plugin \<times> plugin_host \<Rightarrow> plugin \<times> plugin_host" where
  "call_js_safe r x =
     (let (p, h) = run_calls (fst r) x in (if snd r then p\<lparr>pl_errors := pl_errors p + 1\<rparr> else p, h))"

subsection \<open>The life of a plugin\<close>

datatype init_outcome = No_runtime | No_context | No_entry_file | Script js_run

definition plugin_init :: "init_outcome \<Rightarrow> plugin \<times> plugin_host \<Rightarrow> plugin_error \<times> plugin \<times> plugin_host" where
  "plugin_init out x =
     (case out of
        No_runtime \<Rightarrow> (Pe_runtime_init_failed, x)
      | No_context \<Rightarrow> (Pe_context_init_failed, x)
      | No_entry_file \<Rightarrow> (Pe_source_file_not_found, x)
      | Script (calls, raised) \<Rightarrow>
          (let (p, h) = run_calls calls x
           in if raised then (Pe_script_init_failed, p, h) else (Pe_none, p\<lparr>pl_state := Ps_running\<rparr>, h)))"

definition call_all :: "(nat \<Rightarrow> js_run) \<Rightarrow> nat \<Rightarrow> plugin \<times> plugin_host \<Rightarrow> plugin \<times> plugin_host" where
  "call_all runs n x = fold (\<lambda>i. call_js_safe (runs i)) [0..<n] x"

definition plugin_shutdown :: "(nat \<Rightarrow> js_run) \<Rightarrow> plugin \<times> plugin_host \<Rightarrow> plugin \<times> plugin_host" where
  "plugin_shutdown runs x =
     (if pl_state (fst x) \<noteq> Ps_running then x
      else let (p, h) = (case map_of (pl_events (fst x)) ''shutdown'' of
                           None \<Rightarrow> x | Some fs \<Rightarrow> call_all runs (length fs) x)
           in (p\<lparr>pl_state := Ps_stopped\<rparr>, h))"

datatype event_type =
    Ev_user_joined | Ev_user_left | Ev_presence_changed | Ev_channel_created | Ev_channel_deleted | Ev_message_received
  | Ev_connection_established | Ev_connection_dropped | Ev_voice_room_joined | Ev_voice_room_left
  | Ev_auth_success | Ev_auth_failure

fun event_type_to_string :: "event_type \<Rightarrow> string" where
  "event_type_to_string Ev_user_joined = ''user_joined''"
| "event_type_to_string Ev_user_left = ''user_left''"
| "event_type_to_string Ev_presence_changed = ''presence_changed''"
| "event_type_to_string Ev_channel_created = ''channel_created''"
| "event_type_to_string Ev_channel_deleted = ''channel_deleted''"
| "event_type_to_string Ev_message_received = ''message''"
| "event_type_to_string Ev_connection_established = ''connection_established''"
| "event_type_to_string Ev_connection_dropped = ''connection_dropped''"
| "event_type_to_string Ev_voice_room_joined = ''voice_room_joined''"
| "event_type_to_string Ev_voice_room_left = ''voice_room_left''"
| "event_type_to_string Ev_auth_success = ''auth_success''"
| "event_type_to_string Ev_auth_failure = ''auth_failure''"

text \<open>The handlers of an event are those registered when it comes; each gets it once.\<close>

definition deliver :: "string \<Rightarrow> nat \<Rightarrow> plugin \<times> plugin_host \<Rightarrow> plugin \<times> plugin_host" where
  "deliver ev n = (\<lambda>(p, h). (p, h\<lparr>ph_delivered := ph_delivered h @ replicate n (pl_meta p, ev)\<rparr>))"

definition instance_on_event :: "event_type \<Rightarrow> (nat \<Rightarrow> js_run) \<Rightarrow> plugin \<times> plugin_host \<Rightarrow> plugin \<times> plugin_host" where
  "instance_on_event ev runs x =
     (if pl_state (fst x) \<noteq> Ps_running then x
      else case map_of (pl_events (fst x)) (event_type_to_string ev) of
             None \<Rightarrow> x
           | Some fs \<Rightarrow> call_all runs (length fs) (deliver (event_type_to_string ev) (length fs) x))"

definition plugin_on_event :: "event_type \<Rightarrow> (nat \<Rightarrow> js_run) \<Rightarrow> plugin \<times> plugin_host \<Rightarrow> plugin \<times> plugin_host" where
  "plugin_on_event ev runs x =
     (if is_type Pt_server x \<and> ev = Ev_message_received then x else instance_on_event ev runs x)"

definition plugin_on_command :: "string \<Rightarrow> js_run \<Rightarrow> plugin \<times> plugin_host \<Rightarrow> plugin \<times> plugin_host" where
  "plugin_on_command c r x =
     (if pl_state (fst x) \<noteq> Ps_running then x
      else case map_of (pl_commands (fst x)) c of None \<Rightarrow> x | Some f \<Rightarrow> call_js_safe r x)"

text \<open>The pending jobs of the engine, until there are none; their exceptions are not counted.\<close>

definition plugin_tick :: "api_call list list \<Rightarrow> plugin \<times> plugin_host \<Rightarrow> plugin \<times> plugin_host" where
  "plugin_tick jobs x =
     (if pl_state (fst x) \<noteq> Ps_running then x
      else let (p, h) = fold run_calls jobs x
           in (if pl_errors p \<ge> max_errors then p\<lparr>pl_state := Ps_error\<rparr> else p, h))"

subsection \<open>The manager\<close>

record manager =
  mg_plugins :: "(string \<times> plugin) list"
  mg_commands :: "(string \<times> string) list"
  mg_host :: plugin_host

definition new_manager_of :: "plugin_host \<Rightarrow> manager" where
  "new_manager_of h = \<lparr>mg_plugins = [], mg_commands = [], mg_host = h\<rparr>"

text \<open>The map from commands to plugins; a pointer to a plugin is its name in the table.\<close>

definition rebuild_command_map :: "manager \<Rightarrow> manager" where
  "rebuild_command_map g = g\<lparr>mg_commands :=
     foldl (\<lambda>m (name, p). foldl (\<lambda>m (c, f). mput c name m) m (pl_commands p)) [] (mg_plugins g)\<rparr>"

definition load_plugin :: "string \<Rightarrow> json option \<Rightarrow> init_outcome \<Rightarrow> manager \<Rightarrow> plugin_error \<times> manager" where
  "load_plugin dir content out g =
     (case parse_plugin_json content dir of
        None \<Rightarrow> (Pe_invalid_meta, g)
      | Some m \<Rightarrow>
          if \<not> validate_plugin_meta m then (Pe_invalid_meta, g)
          else if map_of (mg_plugins g) (pm_name m) \<noteq> None then (Pe_already_loaded, g)
          else (case plugin_init out (new_plugin m, mg_host g) of
                  (e, p, h) \<Rightarrow>
                    if e \<noteq> Pe_none then (e, g\<lparr>mg_host := h\<rparr>)
                    else (Pe_none, rebuild_command_map
                           (g\<lparr>mg_host := h, mg_plugins := mput (pm_name (pl_meta p)) p (mg_plugins g)\<rparr>))))"

definition unload_plugin :: "string \<Rightarrow> (nat \<Rightarrow> js_run) \<Rightarrow> manager \<Rightarrow> manager" where
  "unload_plugin name runs g =
     (case map_of (mg_plugins g) name of
        None \<Rightarrow> g
      | Some p \<Rightarrow> rebuild_command_map
          (g\<lparr>mg_host := snd (plugin_shutdown runs (p, mg_host g)), mg_plugins := mdel name (mg_plugins g)\<rparr>))"

definition reload_plugin ::
  "string \<Rightarrow> (nat \<Rightarrow> js_run) \<Rightarrow> json option \<Rightarrow> init_outcome \<Rightarrow> manager \<Rightarrow> plugin_error \<times> manager" where
  "reload_plugin name runs content out g =
     (case map_of (mg_plugins g) name of
        None \<Rightarrow> (Pe_not_found, g)
      | Some p \<Rightarrow> load_plugin (pm_dir (pl_meta p)) content out (unload_plugin name runs g))"

text \<open>The directories found: their paths, with the content of \<open>plugin.json\<close> and how the script starts.\<close>

definition discover :: "(string \<times> json option \<times> init_outcome) list \<Rightarrow> manager \<Rightarrow> manager" where
  "discover entries g = fold (\<lambda>(dir, content, out) g. snd (load_plugin dir content out g)) entries g"

definition with_plugin :: "string \<Rightarrow> (plugin \<times> plugin_host \<Rightarrow> plugin \<times> plugin_host) \<Rightarrow> manager \<Rightarrow> manager" where
  "with_plugin name f g =
     (case map_of (mg_plugins g) name of
        None \<Rightarrow> g
      | Some p \<Rightarrow> (let (p', h) = f (p, mg_host g) in g\<lparr>mg_plugins := mput name p' (mg_plugins g), mg_host := h\<rparr>))"

definition skips_event :: "event_type \<Rightarrow> string \<Rightarrow> manager \<Rightarrow> bool" where
  "skips_event ev name g \<longleftrightarrow> (case map_of (mg_plugins g) name of
     None \<Rightarrow> False | Some p \<Rightarrow> pm_type (pl_meta p) = Pt_server \<and> ev = Ev_message_received)"

definition dispatch_event :: "event_type \<Rightarrow> (string \<Rightarrow> nat \<Rightarrow> js_run) \<Rightarrow> manager \<Rightarrow> manager" where
  "dispatch_event ev runs g =
     fold (\<lambda>name g. if skips_event ev name g then g else with_plugin name (plugin_on_event ev (runs name)) g)
       (map fst (mg_plugins g)) g"

definition dispatch_command :: "string \<Rightarrow> js_run \<Rightarrow> manager \<Rightarrow> manager" where
  "dispatch_command c r g =
     (case map_of (mg_commands g) c of None \<Rightarrow> g | Some name \<Rightarrow> with_plugin name (plugin_on_command c r) g)"

definition in_error :: "manager \<Rightarrow> string list" where
  "in_error g = map fst (filter (\<lambda>(n, p). pl_state p = Ps_error) (mg_plugins g))"

definition manager_tick :: "(string \<Rightarrow> api_call list list) \<Rightarrow> (nat \<Rightarrow> js_run) \<Rightarrow> manager \<Rightarrow> manager" where
  "manager_tick jobs runs g =
     (let g = fold (\<lambda>name. with_plugin name (plugin_tick (jobs name))) (map fst (mg_plugins g)) g
      in fold (\<lambda>name. unload_plugin name runs) (in_error g) g)"

definition manager_end :: "(string \<Rightarrow> nat \<Rightarrow> js_run) \<Rightarrow> manager \<Rightarrow> manager" where
  "manager_end runs g =
     (let g = fold (\<lambda>name. with_plugin name (plugin_shutdown (runs name))) (map fst (mg_plugins g)) g
      in g\<lparr>mg_plugins := [], mg_commands := []\<rparr>)"

definition registered_commands :: "plugin \<Rightarrow> (command_def \<times> string) list" where
  "registered_commands p =
     map (\<lambda>(c, f). (case find (\<lambda>cd. cd_name cd = c) (pm_commands (pl_meta p)) of
             None \<Rightarrow> \<lparr>cd_name = c, cd_description = [], cd_usage = []\<rparr>
           | Some cd \<Rightarrow> \<lparr>cd_name = c, cd_description = cd_description cd, cd_usage = cd_usage cd\<rparr>, pm_name (pl_meta p)))
       (pl_commands p)"

definition manager_commands :: "manager \<Rightarrow> (command_def \<times> string) list" where
  "manager_commands g = concat (map (\<lambda>(n, p). registered_commands p) (mg_plugins g))"

definition is_loaded :: "string \<Rightarrow> manager \<Rightarrow> bool" where
  "is_loaded name g \<longleftrightarrow> map_of (mg_plugins g) name \<noteq> None"

subsection \<open>What a plugin may do\<close>

text \<open>The rules of the documentation for a callback of the host, by type and permission.\<close>

fun effect_allowed :: "plugin_meta \<Rightarrow> host_effect \<Rightarrow> bool" where
  "effect_allowed m (Ef_send c t) \<longleftrightarrow> pm_type m \<noteq> Pt_server \<and> has_permission m Perm_send_messages"
| "effect_allowed m (Ef_join c) \<longleftrightarrow> pm_type m = Pt_bot"
| "effect_allowed m (Ef_leave c) \<longleftrightarrow> pm_type m = Pt_bot"
| "effect_allowed m (Ef_kick u r) \<longleftrightarrow> pm_type m = Pt_server \<and> has_permission m Perm_manage_users"
| "effect_allowed m (Ef_ban u r) \<longleftrightarrow> pm_type m = Pt_server \<and> has_permission m Perm_manage_users"
| "effect_allowed m (Ef_create c) \<longleftrightarrow> pm_type m = Pt_server \<and> has_permission m Perm_manage_channels"
| "effect_allowed m (Ef_delete c) \<longleftrightarrow> pm_type m = Pt_server \<and> has_permission m Perm_manage_channels"
| "effect_allowed m (Ef_notify t) \<longleftrightarrow> pm_type m = Pt_client"
| "effect_allowed m (Ef_bug_report d) \<longleftrightarrow> pm_type m = Pt_client"

definition host_ok :: "plugin_host \<Rightarrow> bool" where
  "host_ok h \<longleftrightarrow> (\<forall>(m, e) \<in> set (ph_effects h). validate_plugin_meta m \<and> effect_allowed m e) \<and>
     (\<forall>(m, ev) \<in> set (ph_delivered h). \<not> (pm_type m = Pt_server \<and> ev = ''message''))"

text \<open>A step of a plugin keeps its description, its commands and its rules; an error of the plugin ends its run only.\<close>

definition advances :: "plugin \<times> plugin_host \<Rightarrow> plugin \<times> plugin_host \<Rightarrow> bool" where
  "advances x y \<longleftrightarrow> pl_meta (fst y) = pl_meta (fst x) \<and> fst ` set (pl_commands (fst x)) \<subseteq> fst ` set (pl_commands (fst y)) \<and>
     (validate_plugin_meta (pl_meta (fst x)) \<longrightarrow> host_ok (snd x) \<longrightarrow> host_ok (snd y))"

lemma advances_refl [simp]: "advances x x"
  by (simp add: advances_def)

lemma advances_trans: "advances x y \<Longrightarrow> advances y z \<Longrightarrow> advances x z"
  by (auto simp: advances_def)

lemma advances_fold: "(\<And>a y. advances y (f a y)) \<Longrightarrow> advances x (fold f as x)"
proof (induction as arbitrary: x)
  case (Cons a as)
  then show ?case using advances_trans [of x "f a x"] by simp
qed simp

lemma advances_call_host:
  assumes "validate_plugin_meta (pl_meta (fst x)) \<Longrightarrow> allowed \<Longrightarrow> effect_allowed (pl_meta (fst x)) e"
  shows "advances x (call_host allowed cb e x)"
  using assms by (cases x) (auto simp: advances_def call_host_def host_ok_def)

lemma api_advances: "advances x (js_api c x)"
proof (cases c)
  case (Api_send_message ch t)
  have "effect_allowed (pl_meta (fst x)) (Ef_send ch t)"
    if "validate_plugin_meta (pl_meta (fst x))" "may Perm_send_messages x"
    using valid_permissions [of "pl_meta (fst x)" Perm_send_messages] that by (auto simp: may_def permission_fits_def)
  then show ?thesis by (simp add: Api_send_message js_call_defs advances_call_host)
next
  case (Api_on ev f)
  then show ?thesis by (simp add: advances_def js_call_defs register_event_handler_def)
next
  case (Api_on_command c' f)
  then show ?thesis by (auto simp: advances_def js_call_defs register_command_handler_def)
next
  case (Api_write_file r t)
  then show ?thesis by (simp add: advances_def js_call_defs host_ok_def)
qed (auto simp: is_type_def may_def js_call_defs intro!: advances_call_host)

lemma js_api_frame [simp]: "pl_state (fst (js_api c x)) = pl_state (fst x)" "pl_errors (fst (js_api c x)) = pl_errors (fst x)"
  by (cases c; cases x; simp add: js_call_defs call_host_def register_event_handler_def register_command_handler_def)+

lemma run_calls_frame [simp]:
  "pl_state (fst (run_calls cs x)) = pl_state (fst x)" "pl_errors (fst (run_calls cs x)) = pl_errors (fst x)"
  by (induction cs arbitrary: x) (simp_all add: run_calls_def)

lemma run_calls_advances: "advances x (run_calls cs x)"
  unfolding run_calls_def by (intro advances_fold api_advances)

lemma call_js_safe_advances: "advances x (call_js_safe r x)"
  using run_calls_advances [of x "fst r"] by (simp add: call_js_safe_def split_def Let_def advances_def)

lemma call_js_safe_state [simp]: "pl_state (fst (call_js_safe r x)) = pl_state (fst x)"
  by (simp add: call_js_safe_def split_def Let_def)

lemma call_all_advances: "advances x (call_all runs n x)"
  unfolding call_all_def by (intro advances_fold call_js_safe_advances)

lemma fold_state: "(\<And>a x. pl_state (fst (f a x)) = pl_state (fst x)) \<Longrightarrow> pl_state (fst (fold f as x)) = pl_state (fst x)"
  by (induction as arbitrary: x) simp_all

lemma advances_call_all: "advances x y \<Longrightarrow> advances x (call_all runs n y)"
  by (rule advances_trans [OF _ call_all_advances])

lemma call_all_state [simp]: "pl_state (fst (call_all runs n x)) = pl_state (fst x)"
  by (simp add: call_all_def fold_state)

lemma deliver_advances:
  "\<not> (is_type Pt_server x \<and> ev = ''message'') \<Longrightarrow> advances x (deliver ev n x)"
  by (cases x) (auto simp: advances_def deliver_def host_ok_def is_type_def)

lemma event_type_to_string_inject: "event_type_to_string e = event_type_to_string e' \<longleftrightarrow> e = e'"
  by (cases e; cases e') simp_all

lemma message_name: "event_type_to_string e = ''message'' \<longleftrightarrow> e = Ev_message_received"
  using event_type_to_string_inject [of e Ev_message_received] by simp

subsection \<open>The interface between the manager and its plugins\<close>

text \<open>
  What the manager relies on when it lets a plugin act: the step advances the plugin, and a running plugin is
  running or in error after it.
\<close>

locale plugin_action =
  fixes act :: "plugin \<times> plugin_host \<Rightarrow> plugin \<times> plugin_host"
  assumes act_advances: "advances x (act x)"
    and act_alive: "pl_state (fst x) \<in> {Ps_running, Ps_error} \<Longrightarrow> pl_state (fst (act x)) \<in> {Ps_running, Ps_error}"

text \<open>The table of the manager: every plugin is valid, alive and under its name; every command leads to a plugin that has it.\<close>

definition plugins_ok :: "manager \<Rightarrow> bool" where
  "plugins_ok g \<longleftrightarrow> keys_distinct (mg_plugins g) \<and>
     (\<forall>n p. map_of (mg_plugins g) n = Some p \<longrightarrow>
        pm_name (pl_meta p) = n \<and> validate_plugin_meta (pl_meta p) \<and> pl_state p \<in> {Ps_running, Ps_error})"

definition commands_ok :: "manager \<Rightarrow> bool" where
  "commands_ok g \<longleftrightarrow> (\<forall>c n. map_of (mg_commands g) c = Some n \<longrightarrow>
     (\<exists>p. map_of (mg_plugins g) n = Some p \<and> c \<in> fst ` set (pl_commands p)))"

definition manager_ok :: "manager \<Rightarrow> bool" where
  "manager_ok g \<longleftrightarrow> plugins_ok g \<and> commands_ok g \<and> host_ok (mg_host g)"

context plugin_action
begin

lemma with_plugin_ok:
  assumes "manager_ok g" shows "manager_ok (with_plugin n act g)"
proof (cases "map_of (mg_plugins g) n")
  case None
  then show ?thesis using assms by (simp add: with_plugin_def)
next
  case (Some p)
  let ?y = "act (p, mg_host g)"
  have p: "pm_name (pl_meta p) = n" "validate_plugin_meta (pl_meta p)" "pl_state p \<in> {Ps_running, Ps_error}"
    using assms Some by (auto simp: manager_ok_def plugins_ok_def)
  have y: "pl_meta (fst ?y) = pl_meta p" "fst ` set (pl_commands p) \<subseteq> fst ` set (pl_commands (fst ?y))"
    "host_ok (snd ?y)" "pl_state (fst ?y) \<in> {Ps_running, Ps_error}"
    using act_advances [of "(p, mg_host g)"] act_alive [of "(p, mg_host g)"] p assms
    by (auto simp: advances_def manager_ok_def)
  have w: "with_plugin n act g = g\<lparr>mg_plugins := mput n (fst ?y) (mg_plugins g), mg_host := snd ?y\<rparr>"
    using Some by (simp add: with_plugin_def split_def Let_def)
  have "plugins_ok (with_plugin n act g)"
    using assms p y by (auto simp: w manager_ok_def plugins_ok_def)
  moreover have "commands_ok (with_plugin n act g)"
    using assms y(2) Some by (force simp: w manager_ok_def commands_ok_def)
  ultimately show ?thesis using y(3) by (simp add: manager_ok_def w)
qed

lemma with_plugin_names: "map fst (mg_plugins (with_plugin n act g)) = map fst (mg_plugins g)"
  by (auto simp: with_plugin_def split_def Let_def update_keys map_of_key split: option.split)

end

interpretation event_step: plugin_action "plugin_on_event ev runs" for ev runs
proof
  fix x
  show "advances x (plugin_on_event ev runs x)"
    using deliver_advances [of x "event_type_to_string ev"]
    by (auto simp: plugin_on_event_def instance_on_event_def message_name split: option.split intro!: advances_call_all)
  show "pl_state (fst (plugin_on_event ev runs x)) \<in> {Ps_running, Ps_error}"
    if "pl_state (fst x) \<in> {Ps_running, Ps_error}"
    using that by (cases x) (auto simp: plugin_on_event_def instance_on_event_def deliver_def split: option.split)
qed

interpretation command_step: plugin_action "plugin_on_command c r" for c r
proof
  fix x
  show "advances x (plugin_on_command c r x)"
    using call_js_safe_advances by (auto simp: plugin_on_command_def split: option.split)
  show "pl_state (fst (plugin_on_command c r x)) \<in> {Ps_running, Ps_error}"
    if "pl_state (fst x) \<in> {Ps_running, Ps_error}"
    using that by (auto simp: plugin_on_command_def split: option.split)
qed

interpretation tick_step: plugin_action "plugin_tick jobs" for jobs
proof
  fix x
  have j: "advances x (fold run_calls jobs x)" by (intro advances_fold run_calls_advances)
  then show "advances x (plugin_tick jobs x)" by (simp add: plugin_tick_def split_def Let_def advances_def)
  show "pl_state (fst (plugin_tick jobs x)) \<in> {Ps_running, Ps_error}"
    if "pl_state (fst x) \<in> {Ps_running, Ps_error}"
    using that by (auto simp: plugin_tick_def split_def Let_def fold_state)
qed

subsection \<open>Loading and unloading\<close>

lemma foldl_mput_commands:
  "map_of (foldl (\<lambda>m (c, f). mput c name m) m cs) c = Some n \<Longrightarrow>
     map_of m c = Some n \<or> n = name \<and> c \<in> fst ` set cs"
proof (induction cs arbitrary: m)
  case (Cons cf cs)
  then show ?case by (cases cf) (fastforce split: if_splits)
qed simp

lemma rebuilt_commands:
  "map_of (foldl (\<lambda>m (name, p). foldl (\<lambda>m (c, f). mput c name m) m (pl_commands p)) m ps) c = Some n \<Longrightarrow>
     map_of m c = Some n \<or> (\<exists>p. (n, p) \<in> set ps \<and> c \<in> fst ` set (pl_commands p))"
proof (induction ps arbitrary: m)
  case (Cons np ps)
  obtain name p where np: "np = (name, p)" by (cases np)
  show ?case
    using Cons.IH [of "foldl (\<lambda>m (c, f). mput c name m) m (pl_commands p)"] Cons.prems foldl_mput_commands [of name m "pl_commands p" c n]
    by (auto simp: np)
qed simp

lemma rebuild_ok:
  assumes "plugins_ok g" shows "commands_ok (rebuild_command_map g)"
  unfolding commands_ok_def
proof (intro allI impI)
  fix c n
  assume "map_of (mg_commands (rebuild_command_map g)) c = Some n"
  then obtain p where "(n, p) \<in> set (mg_plugins g)" "c \<in> fst ` set (pl_commands p)"
    using rebuilt_commands [of "[]" "mg_plugins g" c n] by (auto simp: rebuild_command_map_def)
  moreover have "keys_distinct (mg_plugins g)" using assms by (simp add: plugins_ok_def)
  then have "map_of (mg_plugins (rebuild_command_map g)) n = Some p"
    using \<open>(n, p) \<in> set (mg_plugins g)\<close> by (simp add: rebuild_command_map_def)
  ultimately show "\<exists>p. map_of (mg_plugins (rebuild_command_map g)) n = Some p \<and> c \<in> fst ` set (pl_commands p)"
    by blast
qed

lemma rebuild_frame [simp]:
  "mg_plugins (rebuild_command_map g) = mg_plugins g" "mg_host (rebuild_command_map g) = mg_host g"
  by (simp_all add: rebuild_command_map_def)

lemma rebuild_manager_ok: "plugins_ok g \<Longrightarrow> host_ok (mg_host g) \<Longrightarrow> manager_ok (rebuild_command_map g)"
  using rebuild_ok by (auto simp: manager_ok_def plugins_ok_def)

lemma shutdown_host: "validate_plugin_meta (pl_meta (fst x)) \<Longrightarrow> host_ok (snd x) \<Longrightarrow> host_ok (snd (plugin_shutdown runs x))"
  using call_all_advances [of x runs] by (auto simp: plugin_shutdown_def split_def Let_def advances_def split: option.split)

lemma unload_ok: "manager_ok g \<Longrightarrow> manager_ok (unload_plugin name runs g)"
  by (cases "map_of (mg_plugins g) name")
    (auto simp: unload_plugin_def manager_ok_def [of g] plugins_ok_def intro!: rebuild_manager_ok shutdown_host)

lemma init_advances:
  assumes "plugin_init out x = (e, y)" shows "advances x y"
proof (cases out)
  case (Script r)
  obtain calls raised where r: "r = (calls, raised)" by (cases r)
  obtain p h where run: "run_calls calls x = (p, h)" by (cases "run_calls calls x")
  then have "advances x (p, h)" using run_calls_advances [of x calls] by simp
  then have "advances x (if raised then p else p\<lparr>pl_state := Ps_running\<rparr>, h)" by (simp add: advances_def)
  moreover have "y = (if raised then p else p\<lparr>pl_state := Ps_running\<rparr>, h)"
    using assms by (simp add: plugin_init_def Script r run split: if_splits)
  ultimately show ?thesis by simp
qed (use assms in \<open>simp_all add: plugin_init_def\<close>)

lemma init_running: "plugin_init out x = (Pe_none, y) \<Longrightarrow> pl_state (fst y) = Ps_running"
  by (auto simp: plugin_init_def split_def Let_def split: init_outcome.splits if_splits prod.splits)

lemma load_ok:
  assumes "manager_ok g" shows "manager_ok (snd (load_plugin dir content out g))"
proof (cases "parse_plugin_json content dir")
  case (Some m)
  show ?thesis
  proof (cases "validate_plugin_meta m \<and> map_of (mg_plugins g) (pm_name m) = None")
    case True
    obtain e p h where i: "plugin_init out (new_plugin m, mg_host g) = (e, p, h)"
      by (metis prod_cases3)
    have m: "pl_meta p = m" "host_ok h"
      using init_advances [OF i] True assms by (auto simp: advances_def new_plugin_def manager_ok_def)
    have running: "pl_state p = Ps_running" if "e = Pe_none"
      using init_running [of out "(new_plugin m, mg_host g)" "(p, h)"] i that by simp
    show ?thesis
      using Some True i m running assms
      by (auto simp: load_plugin_def manager_ok_def [of g] plugins_ok_def intro!: rebuild_manager_ok)
        (auto simp: manager_ok_def plugins_ok_def commands_ok_def)
  qed (use Some assms in \<open>auto simp: load_plugin_def\<close>)
qed (simp add: load_plugin_def assms)

subsection \<open>Runs of the manager\<close>

datatype plugin_step =
    Step_discover "(string \<times> json option \<times> init_outcome) list"
  | Step_unload string "nat \<Rightarrow> js_run"
  | Step_reload string "nat \<Rightarrow> js_run" "json option" init_outcome
  | Step_event event_type "string \<Rightarrow> nat \<Rightarrow> js_run"
  | Step_command string js_run
  | Step_tick "string \<Rightarrow> api_call list list" "nat \<Rightarrow> js_run"

fun manager_step :: "plugin_step \<Rightarrow> manager \<Rightarrow> manager" where
  "manager_step (Step_discover es) g = discover es g"
| "manager_step (Step_unload n runs) g = unload_plugin n runs g"
| "manager_step (Step_reload n runs content out) g = snd (reload_plugin n runs content out g)"
| "manager_step (Step_event ev runs) g = dispatch_event ev runs g"
| "manager_step (Step_command c r) g = dispatch_command c r g"
| "manager_step (Step_tick jobs runs) g = manager_tick jobs runs g"

lemma fold_manager_ok:
  "(\<And>a g. manager_ok g \<Longrightarrow> manager_ok (f a g)) \<Longrightarrow> manager_ok g \<Longrightarrow> manager_ok (fold f as g)"
  by (induction as arbitrary: g) simp_all

lemma tick_ok:
  assumes "manager_ok g" shows "manager_ok (manager_tick jobs runs g)"
proof -
  have "manager_ok (fold (\<lambda>n. with_plugin n (plugin_tick (jobs n))) ns g)" for ns
    using assms by (rule fold_manager_ok [rotated]) (rule tick_step.with_plugin_ok)
  then have "manager_ok (fold (\<lambda>n. unload_plugin n runs) ms (fold (\<lambda>n. with_plugin n (plugin_tick (jobs n))) ns g))" for ms ns
    by (rule fold_manager_ok [rotated]) (rule unload_ok)
  then show ?thesis by (simp add: manager_tick_def Let_def)
qed

lemma event_ok:
  assumes "manager_ok g" shows "manager_ok (dispatch_event ev runs g)"
  unfolding dispatch_event_def
  using assms by (rule fold_manager_ok [rotated]) (simp add: event_step.with_plugin_ok)

lemma discover_ok:
  assumes "manager_ok g" shows "manager_ok (discover es g)"
  unfolding discover_def
  using assms by (rule fold_manager_ok [rotated]) (simp add: load_ok split: prod.split)

lemma manager_step_ok: "manager_ok g \<Longrightarrow> manager_ok (manager_step s g)"
  by (cases s) (simp_all add: tick_ok event_ok discover_ok unload_ok load_ok command_step.with_plugin_ok
      reload_plugin_def dispatch_command_def split: option.split)

lemma fresh_manager_ok: "ph_effects h = [] \<Longrightarrow> ph_delivered h = [] \<Longrightarrow> manager_ok (new_manager_of h)"
  by (simp add: manager_ok_def plugins_ok_def commands_ok_def host_ok_def new_manager_of_def)

text \<open>
  C32: Whatever the scripts do, every callback of the host they reach is one their description allows, no server
  extension is given a message, and every command the manager knows leads to a loaded plugin that has it.
\<close>

theorem plugins_stay_within_rules:
  assumes "ph_effects h = []" and "ph_delivered h = []" and g: "g = fold manager_step steps (new_manager_of h)"
  shows "(\<forall>(m, e) \<in> set (ph_effects (mg_host g)). validate_plugin_meta m \<and> effect_allowed m e) \<and>
     (\<forall>(m, ev) \<in> set (ph_delivered (mg_host g)). \<not> (pm_type m = Pt_server \<and> ev = ''message'')) \<and>
     (\<forall>c n. map_of (mg_commands g) c = Some n \<longrightarrow>
        (\<exists>p. map_of (mg_plugins g) n = Some p \<and> c \<in> fst ` set (pl_commands p) \<and> validate_plugin_meta (pl_meta p)))"
proof -
  have "manager_ok g"
    unfolding g by (rule fold_manager_ok) (rule manager_step_ok, assumption, rule fresh_manager_ok [OF assms(1,2)])
  then show ?thesis unfolding manager_ok_def host_ok_def commands_ok_def plugins_ok_def by blast
qed

text \<open>A server extension that may manage users: it bans, and its other calls and the message come to nothing.\<close>

definition demo_plugin_json :: json where
  "demo_plugin_json = J_object [(''name'', J_string ''k''), (''version'', J_string ''1''), (''type'', J_string ''server_extension''),
     (''entry'', J_string ''main.js''), (''permissions'', J_array [J_string ''manage_users''])]"

definition demo_plugin_host :: plugin_host where
  "demo_plugin_host = \<lparr>ph_callbacks = (\<lambda>_. True), ph_effects = [], ph_delivered = [], ph_fs = demo_fs\<rparr>"

definition demo_plugin_steps :: "plugin_step list" where
  "demo_plugin_steps =
     [Step_discover [(''/k'', Some demo_plugin_json, Script ([Api_on ''message'' 0, Api_on_command ''/b'' 1, Api_send_message ''c'' ''t''], False))],
      Step_event Ev_message_received (\<lambda>_ _. ([Api_ban_user ''u'' ''heard''], False)),
      Step_command ''/b'' ([Api_ban_user ''u'' ''r'', Api_create_channel ''c''], True), Step_tick (\<lambda>_. []) (\<lambda>_. ([], False))]"

lemma demo_plugin_effects:
  "map snd (ph_effects (mg_host (fold manager_step demo_plugin_steps (new_manager_of demo_plugin_host)))) = [Ef_ban ''u'' ''r'']"
  "map_option pl_errors (map_of (mg_plugins (fold manager_step demo_plugin_steps (new_manager_of demo_plugin_host))) ''k'') = Some 1"
  by code_simp+

theorem plugins_stay_within_rules_witness:
  "\<exists>g :: manager. map snd (ph_effects (mg_host g)) = [Ef_ban ''u'' ''r''] \<and>
     (\<forall>(m, e) \<in> set (ph_effects (mg_host g)). validate_plugin_meta m \<and> effect_allowed m e)"
proof -
  let ?g = "fold manager_step demo_plugin_steps (new_manager_of demo_plugin_host)"
  have h: "ph_effects demo_plugin_host = []" "ph_delivered demo_plugin_host = []"
    by (simp_all add: demo_plugin_host_def)
  have "\<forall>(m, e) \<in> set (ph_effects (mg_host ?g)). validate_plugin_meta m \<and> effect_allowed m e"
    by (rule conjunct1 [OF plugins_stay_within_rules [OF h refl, of demo_plugin_steps]])
  then have "map snd (ph_effects (mg_host ?g)) = [Ef_ban ''u'' ''r''] \<and>
      (\<forall>(m, e) \<in> set (ph_effects (mg_host ?g)). validate_plugin_meta m \<and> effect_allowed m e)"
    using demo_plugin_effects(1) by (rule conjI [rotated])
  then show ?thesis by (rule exI [where x = ?g])
qed

subsection \<open>Plugins that fail\<close>

lemma with_plugin_lookup:
  "map_of (mg_plugins (with_plugin n f g)) m =
     (if m = n then map_option (\<lambda>p. fst (f (p, mg_host g))) (map_of (mg_plugins g) n) else map_of (mg_plugins g) m)"
  by (auto simp: with_plugin_def split_def Let_def split: option.split)

lemma fold_with_plugin:
  assumes "\<And>n x. pl_state (fst x) \<in> {Ps_running, Ps_error} \<Longrightarrow> Q (fst (f n x))"
    and "\<And>n p. map_of (mg_plugins g) n = Some p \<Longrightarrow> Q p \<or> pl_state p \<in> {Ps_running, Ps_error} \<and> n \<in> set ns"
    and "\<And>p. Q p \<Longrightarrow> pl_state p \<in> {Ps_running, Ps_error}"
    and "map_of (mg_plugins (fold (\<lambda>n. with_plugin n (f n)) ns g)) m = Some p"
  shows "Q p"
  using assms(2,4)
proof (induction ns arbitrary: g)
  case (Cons n ns)
  let ?g = "with_plugin n (f n) g"
  have "Q q \<or> pl_state q \<in> {Ps_running, Ps_error} \<and> k \<in> set ns" if "map_of (mg_plugins ?g) k = Some q" for k q
    using that Cons.prems(1) [of k] assms(1) [of _ n] assms(3)
    by (auto simp: with_plugin_lookup split: if_splits)
  then show ?case using Cons.IH [of ?g] Cons.prems(2) by simp
qed auto

lemma unload_lookup: "map_of (mg_plugins (unload_plugin n runs g)) m = (if m = n then None else map_of (mg_plugins g) m)"
  by (auto simp: unload_plugin_def split: option.split)

lemma fold_unload_lookup:
  "map_of (mg_plugins (fold (\<lambda>n. unload_plugin n runs) ns g)) m = Some p \<Longrightarrow> m \<notin> set ns \<and> map_of (mg_plugins g) m = Some p"
proof (induction ns arbitrary: g)
  case (Cons n ns)
  then show ?case using Cons.IH [of "unload_plugin n runs g"] by (auto simp: unload_lookup split: if_splits)
qed simp

definition sound :: "plugin \<Rightarrow> bool" where
  "sound p \<longleftrightarrow> pl_state p = Ps_error \<or> pl_state p = Ps_running \<and> pl_errors p < max_errors"

lemma tick_sound: "pl_state (fst x) \<in> {Ps_running, Ps_error} \<Longrightarrow> sound (fst (plugin_tick jobs x))"
  by (auto simp: sound_def plugin_tick_def split_def Let_def fold_state)

lemma map_of_names: "map_of ps n = Some p \<Longrightarrow> n \<in> set (map fst ps)"
  by (metis map_of_eq_None_iff option.distinct(1) set_map)

text \<open>After a tick every plugin that is left runs, with fewer errors than the limit.\<close>

theorem tick_unloads_failing_plugins:
  assumes "manager_ok g" and "map_of (mg_plugins (manager_tick jobs runs g)) n = Some p"
  shows "pl_state p = Ps_running \<and> pl_errors p < max_errors"
proof -
  let ?g = "fold (\<lambda>n. with_plugin n (plugin_tick (jobs n))) (map fst (mg_plugins g)) g"
  have p: "n \<notin> set (in_error ?g)" "map_of (mg_plugins ?g) n = Some p"
    using fold_unload_lookup assms(2) unfolding manager_tick_def Let_def by blast+
  have "sound p"
  proof (rule fold_with_plugin [OF _ _ _ p(2)])
    show "sound (fst (plugin_tick (jobs n) x))" if "pl_state (fst x) \<in> {Ps_running, Ps_error}" for n x
      by (rule tick_sound [OF that])
    show "sound q \<or> pl_state q \<in> {Ps_running, Ps_error} \<and> k \<in> set (map fst (mg_plugins g))"
      if "map_of (mg_plugins g) k = Some q" for k q
      using assms(1) map_of_names [OF that] that by (simp add: manager_ok_def plugins_ok_def)
  qed (auto simp: sound_def)
  moreover have "pl_state p \<noteq> Ps_error"
    using p map_of_SomeD [OF p(2)] by (force simp: in_error_def)
  ultimately show ?thesis by (simp add: sound_def)
qed

theorem tick_unloads_failing_plugins_witness:
  "\<exists>(g :: manager) p. map_of (mg_plugins (manager_tick (\<lambda>_. []) (\<lambda>_. ([], False)) g)) ''k'' = Some p \<and>
     pl_state p = Ps_running \<and> pl_errors p < max_errors"
proof -
  let ?g = "fold manager_step demo_plugin_steps (new_manager_of demo_plugin_host)"
  have ok: "manager_ok ?g"
    by (rule fold_manager_ok) (rule manager_step_ok, assumption, rule fresh_manager_ok, simp_all add: demo_plugin_host_def)
  have "map_of (mg_plugins (manager_tick (\<lambda>_. []) (\<lambda>_. ([], False)) ?g)) ''k'' \<noteq> None"
    by code_simp
  then obtain p where p: "map_of (mg_plugins (manager_tick (\<lambda>_. []) (\<lambda>_. ([], False)) ?g)) ''k'' = Some p" by auto
  show ?thesis using tick_unloads_failing_plugins [OF ok p] p by blast
qed

text \<open>The permissions to read messages and to register commands are checked nowhere.\<close>

lemma commands_need_no_permission:
  "pl_commands (fst (js_api (Api_on_command c f) (p, h))) = mput c f (pl_commands p)"
  by (simp add: js_call_defs register_command_handler_def)

lemma messages_need_no_permission:
  assumes "pl_state p = Ps_running" and "pm_type (pl_meta p) \<noteq> Pt_server" and "map_of (pl_events p) ''message'' = Some fs"
  shows "plugin_on_event Ev_message_received runs (p, h) =
     call_all runs (length fs) (p, h\<lparr>ph_delivered := ph_delivered h @ replicate (length fs) (pl_meta p, ''message'')\<rparr>)"
  using assms by (simp add: plugin_on_event_def instance_on_event_def is_type_def deliver_def)

text \<open>A command that a handler registers later is not known to the manager until a plugin is loaded or unloaded.\<close>

lemma later_commands_unknown:
  "mg_commands (dispatch_event ev runs g) = mg_commands g" "mg_commands (dispatch_command c r g) = mg_commands g"
proof -
  have w: "mg_commands (with_plugin n f g) = mg_commands g" for n f g
    by (simp add: with_plugin_def split_def Let_def split: option.split)
  have "mg_commands (fold (\<lambda>n g. if P n g then g else with_plugin n (f n) g) ns g) = mg_commands g" for P f ns g
    by (induction ns arbitrary: g) (simp_all add: w)
  then show "mg_commands (dispatch_event ev runs g) = mg_commands g" by (simp add: dispatch_event_def)
  show "mg_commands (dispatch_command c r g) = mg_commands g" by (simp add: dispatch_command_def w split: option.split)
qed

end
