(* ===== verification/Directory_Client.thy ===== *)
theory Directory_Client
  imports Server_Config
begin

text \<open>
  The directory client, \<open>net/directory_client.cpp\<close>: a public server registers itself with a directory over HTTP
  and pings it.  A request that is on its way is an entry of \<open>dc_posts\<close>, its outcome comes from the network
  as a failure text or as the bytes of the response; the timer is a flag, since a new expiry replaces the old.
  Resolving, connecting, TLS and writing are the network's, each failure of theirs is a failure text.
\<close>

subsection \<open>Addresses and texts\<close>

abbreviation dq :: char where "dq \<equiv> CHR 0x22"
abbreviation bsl :: char where "bsl \<equiv> CHR 0x5C"
abbreviation crlf :: string where "crlf \<equiv> [CHR 0x0D, CHR 0x0A]"

definition escape_char :: "char \<Rightarrow> string" where
  "escape_char c =
     (if c = dq then [bsl, dq] else if c = bsl then [bsl, bsl]
      else if c = CHR 0x08 then [bsl, CHR ''b''] else if c = CHR 0x0C then [bsl, CHR ''f'']
      else if c = CHR 0x0A then [bsl, CHR ''n''] else if c = CHR 0x0D then [bsl, CHR ''r'']
      else if c = CHR 0x09 then [bsl, CHR ''t''] else [c])"

definition escape_json :: "string \<Rightarrow> string" where
  "escape_json s = concat (map escape_char s)"

record directory_url =
  du_host :: string
  du_path :: string
  du_port :: nat
  du_ssl :: bool

definition parse_directory_url :: "string \<Rightarrow> directory_url" where
  "parse_directory_url url =
     (let url = (if url = [] then ''https://directory.grotto.dev'' else url);
          (ssl, port, url) =
            (if starts_with ''https://'' url then (True, 443, drop 8 url)
             else if starts_with ''http://'' url then (False, 80, drop 7 url)
             else (True, 443, url));
          path_pos = str_find ''/'' url;
          path = (case path_pos of None \<Rightarrow> [] | Some p \<Rightarrow> drop p url);
          port_pos = (case str_find '':'' url of
              None \<Rightarrow> None
            | Some c \<Rightarrow> (case path_pos of None \<Rightarrow> Some c | Some p \<Rightarrow> if c < p then Some c else None))
      in case port_pos of
           Some c \<Rightarrow>
             let port_end = (case path_pos of None \<Rightarrow> length url | Some p \<Rightarrow> p)
             in \<lparr>du_host = take c url, du_path = path,
                 du_port = (case stoi10 (take (port_end - c - 1) (drop (c + 1) url)) of
                     None \<Rightarrow> if ssl then 443 else 80 | Some n \<Rightarrow> to_u16 n),
                 du_ssl = ssl\<rparr>
         | None \<Rightarrow>
             \<lparr>du_host = (case path_pos of None \<Rightarrow> url | Some p \<Rightarrow> take p url), du_path = path, du_port = port, du_ssl = ssl\<rparr>)"

definition json_field :: "string \<Rightarrow> string \<Rightarrow> string" where
  "json_field k v = dq # k @ [dq, CHR '':'', dq] @ escape_json v @ [dq]"

definition register_body :: "full_config \<Rightarrow> string" where
  "register_body f =
     (let name = (if fc_server_name f = [] then ''Grotto Server'' else fc_server_name f);
          desc = (if fc_server_description f = [] then ''An Grotto encrypted chat server'' else fc_server_description f)
      in ''{'' @ json_field ''host'' (fc_host f) @ '','' @ (dq # ''port'' @ [dq, CHR '':'']) @ show_nat (fc_port f) @ '','' @
         json_field ''name'' name @ '','' @ json_field ''description'' desc @ ''}'')"

definition ping_body :: "string \<Rightarrow> string" where
  "ping_body i = ''{'' @ json_field ''server_id'' i @ ''}''"

definition build_http_request :: "directory_url \<Rightarrow> string \<Rightarrow> string \<Rightarrow> string" where
  "build_http_request u path body =
     ''POST '' @ du_path u @ path @ '' HTTP/1.1'' @ crlf @
     ''Host: '' @ du_host u @ crlf @
     ''Content-Type: application/json'' @ crlf @
     ''Content-Length: '' @ show_nat (length body) @ crlf @
     ''Connection: close'' @ crlf @ crlf @ body"

text \<open>\<open>None\<close> is the result \<open>false\<close> of the code.\<close>

definition parse_http_response :: "string \<Rightarrow> (bool \<times> string) option" where
  "parse_http_response r =
     (case str_find (crlf @ crlf) r of
        None \<Rightarrow> None
      | Some b \<Rightarrow>
          (case str_find '' '' r of
             None \<Rightarrow> None
           | Some s \<Rightarrow>
               (case stoi10 (take 3 (drop (s + 1) r)) of
                  None \<Rightarrow> None
                | Some status \<Rightarrow> Some (200 \<le> status \<and> status < 300, drop (b + 4) r))))"

text \<open>The text between the first two quotes after the first colon after the key.\<close>

definition find_server_id :: "string \<Rightarrow> string option" where
  "find_server_id r =
     (case str_find (dq # ''server_id'' @ [dq]) r of
        None \<Rightarrow> None
      | Some i \<Rightarrow>
          (case Option.bind (str_find_at '':'' i r) (\<lambda>c. str_find_at [dq] c r) of
             None \<Rightarrow> None
           | Some q \<Rightarrow>
               (case str_find_at [dq] (q + 1) r of None \<Rightarrow> None | Some e \<Rightarrow> Some (take (e - q - 1) (drop (q + 1) r)))))"

subsection \<open>The client\<close>

datatype dc_request = Register | Ping

datatype net_outcome = Net_failed string | Net_closed string

definition http_result :: "net_outcome \<Rightarrow> bool \<times> string" where
  "http_result o' =
     (case o' of
        Net_failed e \<Rightarrow> (False, e)
      | Net_closed r \<Rightarrow> (case parse_http_response r of None \<Rightarrow> (False, ''Invalid HTTP response'') | Some res \<Rightarrow> res))"

record directory_client =
  dc_url :: directory_url
  dc_enabled :: bool
  dc_registered :: bool
  dc_running :: bool
  dc_last_error :: string
  dc_server_id :: string
  dc_posts :: "dc_request list"
  dc_timer :: bool
  dc_sent :: "string list"

definition new_directory_client :: "full_config \<Rightarrow> directory_client" where
  "new_directory_client f =
     \<lparr>dc_url = parse_directory_url (fc_directory_url f), dc_enabled = fc_is_public f \<and> fc_directory_enabled f,
      dc_registered = False, dc_running = False, dc_last_error = [], dc_server_id = [], dc_posts = [], dc_timer = False,
      dc_sent = []\<rparr>"

definition post_request :: "dc_request \<Rightarrow> string \<Rightarrow> string \<Rightarrow> directory_client \<Rightarrow> directory_client" where
  "post_request k path body c =
     c\<lparr>dc_posts := dc_posts c @ [k], dc_sent := dc_sent c @ [build_http_request (dc_url c) path body]\<rparr>"

definition schedule_next_ping :: "directory_client \<Rightarrow> directory_client" where
  "schedule_next_ping c = (if \<not> dc_running c then c else c\<lparr>dc_timer := True\<rparr>)"

definition register_server :: "full_config \<Rightarrow> directory_client \<Rightarrow> directory_client" where
  "register_server f c =
     (if \<not> dc_running c then c else post_request Register ''/api/servers/register'' (register_body f) c)"

definition on_registered :: "bool \<times> string \<Rightarrow> directory_client \<Rightarrow> directory_client" where
  "on_registered res c =
     (if \<not> dc_running c then c
      else if fst res then
        let c = (case find_server_id (snd res) of
                   None \<Rightarrow> c | Some i \<Rightarrow> c\<lparr>dc_server_id := i, dc_registered := True\<rparr>);
            c = (if dc_registered c then c else c\<lparr>dc_last_error := ''Registration response missing server_id''\<rparr>)
        in schedule_next_ping c
      else schedule_next_ping (c\<lparr>dc_last_error := snd res\<rparr>))"

definition send_ping :: "directory_client \<Rightarrow> directory_client" where
  "send_ping c =
     (if \<not> dc_running c \<or> \<not> dc_registered c then schedule_next_ping c
      else post_request Ping ''/api/servers/ping'' (ping_body (dc_server_id c)) c)"

definition on_ping :: "bool \<times> string \<Rightarrow> directory_client \<Rightarrow> directory_client" where
  "on_ping res c =
     (if \<not> dc_running c then c
      else if \<not> fst res \<and> (str_contains ''not found'' (snd res) \<or> str_contains ''Invalid server'' (snd res))
      then schedule_next_ping (c\<lparr>dc_registered := False, dc_server_id := []\<rparr>)
      else schedule_next_ping c)"

definition on_timer :: "full_config \<Rightarrow> directory_client \<Rightarrow> directory_client" where
  "on_timer f c =
     (let c = c\<lparr>dc_timer := False\<rparr>
      in if \<not> dc_running c then c else if dc_registered c then send_ping c else register_server f c)"

definition dc_start :: "full_config \<Rightarrow> directory_client \<Rightarrow> directory_client" where
  "dc_start f c =
     (if \<not> dc_enabled c \<or> dc_running c then c else register_server f (c\<lparr>dc_running := True\<rparr>))"

definition dc_stop :: "directory_client \<Rightarrow> directory_client" where
  "dc_stop c = (if \<not> dc_running c then c else c\<lparr>dc_running := False, dc_timer := False\<rparr>)"

definition dc_outcome :: "dc_request \<Rightarrow> net_outcome \<Rightarrow> directory_client \<Rightarrow> directory_client" where
  "dc_outcome k o' c = (case k of Register \<Rightarrow> on_registered (http_result o') c | Ping \<Rightarrow> on_ping (http_result o') c)"

text \<open>\<open>start\<close> is called once, when the server runs.\<close>

inductive dc_step :: "full_config \<Rightarrow> directory_client \<Rightarrow> directory_client \<Rightarrow> bool" for f where
  Outcome: "dc_posts c = xs @ k # ys \<Longrightarrow> dc_step f c (dc_outcome k o' (c\<lparr>dc_posts := xs @ ys\<rparr>))"
| Timer: "dc_timer c \<Longrightarrow> dc_step f c (on_timer f c)"
| Stop: "dc_step f c (dc_stop c)"

subsection \<open>What the directory reads\<close>

text \<open>A reader of flat JSON objects with string and number members, written from the grammar.\<close>

fun unescape :: "string \<Rightarrow> (string \<times> string) option" where
  "unescape [] = None"
| "unescape (c # s) =
     (if c = dq then Some ([], s)
      else if c = bsl then
        (case s of
           [] \<Rightarrow> None
         | e # s \<Rightarrow>
             (case map_of [(dq, dq), (bsl, bsl), (CHR ''/'', CHR ''/''), (CHR ''b'', CHR 0x08), (CHR ''f'', CHR 0x0C),
                           (CHR ''n'', CHR 0x0A), (CHR ''r'', CHR 0x0D), (CHR ''t'', CHR 0x09)] e of
                None \<Rightarrow> None
              | Some d \<Rightarrow> map_option (apfst (Cons d)) (unescape s)))
      else if code c < 32 then None
      else map_option (apfst (Cons c)) (unescape s))"

fun read_value :: "string \<Rightarrow> (json \<times> string) option" where
  "read_value [] = None"
| "read_value (c # s) =
     (if c = dq then map_option (apfst J_string) (unescape s)
      else if c_isdigit c then
        Some (J_int (int (read_nat 0 (takeWhile c_isdigit (c # s)))), dropWhile c_isdigit (c # s))
      else None)"

fun read_members :: "nat \<Rightarrow> string \<Rightarrow> (string \<times> json) list option" where
  "read_members 0 s = None"
| "read_members (Suc n) s =
     (case s of
        [] \<Rightarrow> None
      | q # s \<Rightarrow>
          if q \<noteq> dq then None
          else case unescape s of
            Some (k, c # s) \<Rightarrow>
              if c \<noteq> CHR '':'' then None
              else (case read_value s of
                      Some (v, e # s) \<Rightarrow>
                        if e = CHR '','' then map_option (Cons (k, v)) (read_members n s)
                        else if e = CHR ''}'' \<and> s = [] then Some [(k, v)]
                        else None
                    | _ \<Rightarrow> None)
          | _ \<Rightarrow> None)"

fun read_object :: "string \<Rightarrow> (string \<times> json) list option" where
  "read_object [] = None"
| "read_object (c # s) = (if c = CHR ''{'' then read_members (length s) s else None)"

definition plain_text :: "string \<Rightarrow> bool" where
  "plain_text s \<longleftrightarrow> (\<forall>c \<in> set s. 32 \<le> code c \<or> c \<in> {CHR 0x08, CHR 0x0C, CHR 0x0A, CHR 0x0D, CHR 0x09})"

lemma plain_text_Cons: "plain_text (c # s) \<longleftrightarrow> (32 \<le> code c \<or> c \<in> {CHR 0x08, CHR 0x0C, CHR 0x0A, CHR 0x0D, CHR 0x09}) \<and> plain_text s"
  by (auto simp: plain_text_def)

lemma unescape_escape_char:
  assumes "32 \<le> code c \<or> c \<in> {CHR 0x08, CHR 0x0C, CHR 0x0A, CHR 0x0D, CHR 0x09}"
  shows "unescape (escape_char c @ s) = map_option (apfst (Cons c)) (unescape s)"
  using assms by (auto simp: escape_char_def)

lemma unescape_escape_json: "plain_text s \<Longrightarrow> unescape (escape_json s @ dq # r) = Some (s, r)"
proof (induction s)
  case Nil
  then show ?case by (simp add: escape_json_def)
next
  case (Cons c s)
  have "escape_json (c # s) @ dq # r = escape_char c @ (escape_json s @ dq # r)" by (simp add: escape_json_def)
  with Cons show ?case by (simp add: plain_text_Cons unescape_escape_char del: unescape.simps)
qed

lemma read_value_string: "plain_text s \<Longrightarrow> read_value (dq # escape_json s @ dq # r) = Some (J_string s, r)"
  by (simp add: unescape_escape_json del: unescape.simps)

lemma read_value_number: "\<not> c_isdigit e \<Longrightarrow> read_value (show_nat n @ e # r) = Some (J_int (int n), e # r)"
proof -
  assume e: "\<not> c_isdigit e"
  have all: "\<forall>c \<in> set (show_nat n). c_isdigit c" by (simp add: show_nat_digits)
  obtain c s where c: "show_nat n = c # s" by (cases "show_nat n") auto
  then have "c_isdigit c" using all by simp
  moreover from this have "c \<noteq> dq" by (auto simp: c_isdigit_def code_def)
  moreover have "takeWhile c_isdigit (show_nat n @ e # r) = show_nat n" "dropWhile c_isdigit (show_nat n @ e # r) = e # r"
    using all e by (simp_all add: takeWhile_append2 dropWhile_append2)
  ultimately show ?thesis using c read_show_nat [of n] by simp
qed

lemma read_members_string:
  assumes "plain_text k" "escape_json k = k" "plain_text v"
  shows "read_members (Suc n) (json_field k v @ CHR '','' # r) = map_option (Cons (k, J_string v)) (read_members n r)"
    and "read_members (Suc n) (json_field k v @ ''}'') = Some [(k, J_string v)]"
proof -
  have k: "unescape (k @ dq # s) = Some (k, s)" for s
    using unescape_escape_json [OF assms(1), of s] assms(2) by simp
  have split: "json_field k v @ s = dq # (k @ dq # (CHR '':'' # (dq # escape_json v @ dq # s)))" for s
    by (simp add: json_field_def)
  note str_value = read_value_string [OF assms(3)]
  show "read_members (Suc n) (json_field k v @ CHR '','' # r) = map_option (Cons (k, J_string v)) (read_members n r)"
    unfolding split by (simp add: k str_value del: unescape.simps read_value.simps)
  show "read_members (Suc n) (json_field k v @ ''}'') = Some [(k, J_string v)]"
    unfolding split by (simp add: k str_value del: unescape.simps read_value.simps)
qed

lemma read_members_number:
  assumes "plain_text k" "escape_json k = k"
  shows "read_members (Suc n) ((dq # k @ [dq, CHR '':'']) @ show_nat v @ CHR '','' # r) =
     map_option (Cons (k, J_int (int v))) (read_members n r)"
proof -
  have k: "unescape (k @ dq # s) = Some (k, s)" for s
    using unescape_escape_json [OF assms(1), of s] assms(2) by simp
  have "\<not> c_isdigit CHR '',''" by (simp add: c_isdigit_def code_def)
  from read_value_number [OF this] show ?thesis
    by (simp add: k del: unescape.simps read_value.simps)
qed

lemma json_field_length: "4 \<le> length (json_field k v)"
  by (simp add: json_field_def)

lemma four_steps: "4 \<le> (n :: nat) \<Longrightarrow> \<exists>m. n = Suc (Suc (Suc (Suc m)))"
  by presburger

lemma register_keys:
  "escape_json ''host'' = ''host''" "escape_json ''port'' = ''port''" "escape_json ''name'' = ''name''"
  "escape_json ''description'' = ''description''" "escape_json ''server_id'' = ''server_id''"
  "plain_text ''host''" "plain_text ''port''" "plain_text ''name''" "plain_text ''description''"
  "plain_text ''server_id''" "plain_text ''Grotto Server''" "plain_text ''An Grotto encrypted chat server''"
  by (simp_all add: escape_json_def escape_char_def plain_text_def code_def)

definition shown_name :: "full_config \<Rightarrow> string" where
  "shown_name f = (if fc_server_name f = [] then ''Grotto Server'' else fc_server_name f)"

definition shown_description :: "full_config \<Rightarrow> string" where
  "shown_description f =
     (if fc_server_description f = [] then ''An Grotto encrypted chat server'' else fc_server_description f)"

text \<open>A control character without a short escape is sent as it is, and the text is no JSON any more.\<close>

lemma control_character_not_escaped:
  "unescape (escape_json [CHR 0x1B] @ dq # r) = None"
  by (simp add: escape_json_def escape_char_def code_def)

text \<open>
  C26: the directory reads what the server sends, as long as the configured texts hold no control characters but
  those with a short escape.  Whatever quotes, backslashes and line breaks they hold, a reader of JSON finds in the
  body of the registration exactly the four members host, port, name and description with the configured values, and
  in the body of a ping the server's id: such a text can neither add nor change a member.
\<close>

theorem directory_reads_registration:
  assumes "plain_text (fc_host f)" "plain_text (fc_server_name f)" "plain_text (fc_server_description f)" "plain_text i"
  shows "read_object (register_body f) =
      Some [(''host'', J_string (fc_host f)), (''port'', J_int (int (fc_port f))),
            (''name'', J_string (shown_name f)), (''description'', J_string (shown_description f))] \<and>
    read_object (ping_body i) = Some [(''server_id'', J_string i)]"
proof (rule conjI)
  have n: "plain_text (shown_name f)" and d: "plain_text (shown_description f)"
    using assms register_keys(11,12) by (simp_all add: shown_name_def shown_description_def)
  have body: "register_body f = CHR ''{'' # (json_field ''host'' (fc_host f) @ CHR '','' #
      ((dq # ''port'' @ [dq, CHR '':'']) @ show_nat (fc_port f) @ CHR '','' #
      (json_field ''name'' (shown_name f) @ CHR '','' # (json_field ''description'' (shown_description f) @ ''}''))))"
    (is "_ = _ # ?b") by (simp add: register_body_def Let_def shown_name_def shown_description_def)
  have "4 \<le> length ?b" using json_field_length by (simp add: trans_le_add1)
  from four_steps [OF this] obtain m where m: "length ?b = Suc (Suc (Suc (Suc m)))" by blast
  show "read_object (register_body f) = Some [(''host'', J_string (fc_host f)), (''port'', J_int (int (fc_port f))),
      (''name'', J_string (shown_name f)), (''description'', J_string (shown_description f))]"
    unfolding body read_object.simps m
    using read_members_string [OF register_keys(6,1) assms(1)] read_members_number [OF register_keys(7,2)]
      read_members_string(1) [OF register_keys(8,3) n] read_members_string(2) [OF register_keys(9,4) d]
    by (simp del: read_members.simps)
  have ping: "ping_body i = CHR ''{'' # (json_field ''server_id'' i @ ''}'')" (is "_ = _ # ?p") by (simp add: ping_body_def)
  obtain k where k: "length ?p = Suc k" by (cases "length ?p") auto
  show "read_object (ping_body i) = Some [(''server_id'', J_string i)]"
    unfolding ping read_object.simps k using read_members_string(2) [OF register_keys(10,5) assms(4)]
    by (simp del: read_members.simps)
qed

definition demo_listing :: full_config where
  "demo_listing = default_full_config\<lparr>fc_is_public := True, fc_directory_enabled := True,
     fc_server_name := [dq] @ '',x:1'' @ [dq, bsl]\<rparr>"

lemma directory_reads_registration_witness:
  "read_object (register_body demo_listing) =
     Some [(''host'', J_string ''0.0.0.0''), (''port'', J_int 6697), (''name'', J_string ([dq] @ '',x:1'' @ [dq, bsl])),
           (''description'', J_string ''An Grotto encrypted chat server'')] \<and>
   read_object (ping_body ''7'') = Some [(''server_id'', J_string ''7'')]"
proof -
  have "plain_text (fc_host demo_listing)" "plain_text (fc_server_name demo_listing)"
    "plain_text (fc_server_description demo_listing)" "plain_text ''7''"
    by (simp_all add: demo_listing_def default_full_config_def plain_text_def code_def)
  from directory_reads_registration [OF this] show ?thesis
    by (simp add: demo_listing_def default_full_config_def shown_name_def shown_description_def)
qed

subsection \<open>The cycle of requests\<close>

definition dc_ok :: "full_config \<Rightarrow> directory_client \<Rightarrow> bool" where
  "dc_ok f c \<longleftrightarrow>
     (if dc_running c then length (dc_posts c) + (if dc_timer c then 1 else 0) = 1 else length (dc_posts c) \<le> 1 \<and> \<not> dc_timer c) \<and>
     (dc_running c \<or> dc_sent c \<noteq> [] \<longrightarrow> fc_is_public f \<and> fc_directory_enabled f)"

lemmas dc_defs = on_timer_def send_ping_def register_server_def schedule_next_ping_def post_request_def dc_stop_def

lemma dc_ok_start: "dc_ok f (dc_start f (new_directory_client f))"
  by (auto simp: dc_ok_def dc_start_def new_directory_client_def dc_defs)

lemma on_registered_simps [simp]:
  "dc_running (on_registered r c) = dc_running c" "dc_posts (on_registered r c) = dc_posts c"
  "dc_sent (on_registered r c) = dc_sent c" "dc_timer (on_registered r c) = (dc_running c \<or> dc_timer c)"
  by (auto simp: on_registered_def schedule_next_ping_def Let_def split: option.splits)

lemma on_ping_simps [simp]:
  "dc_running (on_ping r c) = dc_running c" "dc_posts (on_ping r c) = dc_posts c"
  "dc_sent (on_ping r c) = dc_sent c" "dc_timer (on_ping r c) = (dc_running c \<or> dc_timer c)"
  by (auto simp: on_ping_def schedule_next_ping_def)

lemma dc_outcome_simps [simp]:
  "dc_running (dc_outcome k r c) = dc_running c" "dc_posts (dc_outcome k r c) = dc_posts c"
  "dc_sent (dc_outcome k r c) = dc_sent c" "dc_timer (dc_outcome k r c) = (dc_running c \<or> dc_timer c)"
  by (simp_all add: dc_outcome_def split: dc_request.split)

lemma dc_step_ok: "dc_step f c c' \<Longrightarrow> dc_ok f c \<Longrightarrow> dc_ok f c'"
proof (induction rule: dc_step.induct)
  case (Outcome c xs k ys o')
  then show ?case by (auto simp: dc_ok_def split: if_splits)
next
  case (Timer c)
  then show ?case by (auto simp: dc_ok_def dc_defs Let_def split: if_splits)
next
  case (Stop c)
  then show ?case by (auto simp: dc_ok_def dc_defs split: if_splits)
qed

text \<open>
  C25: the directory client keeps going.  In every state it reaches, whatever the network answers, a running
  client has exactly one request on its way or one timer running: the timer sends the next request, every
  outcome of a request starts the timer, and a ping that is answered with a failure that says the server was
  not found makes the next request a registration.  A server that is not public, or has the directory switched
  off, never sends anything.
\<close>

theorem directory_client_keeps_going:
  assumes "(dc_step f)\<^sup>*\<^sup>* (dc_start f (new_directory_client f)) c"
  shows "(dc_running c \<longrightarrow> length (dc_posts c) + (if dc_timer c then 1 else 0) = 1) \<and>
    (dc_running c \<and> dc_timer c \<longrightarrow> length (dc_sent (on_timer f c)) = Suc (length (dc_sent c))) \<and>
    (\<forall>k o'. dc_running c \<and> dc_posts c = [k] \<longrightarrow> dc_timer (dc_outcome k o' (c\<lparr>dc_posts := []\<rparr>))) \<and>
    (\<forall>o' e. dc_running c \<and> dc_posts c = [Ping] \<and> http_result o' = (False, e) \<and> str_contains ''not found'' e \<longrightarrow>
       dc_posts (on_timer f (dc_outcome Ping o' (c\<lparr>dc_posts := []\<rparr>))) = [Register]) \<and>
    (\<not> (fc_is_public f \<and> fc_directory_enabled f) \<longrightarrow> dc_sent c = [])"
proof -
  have ok: "dc_ok f c" using assms by (induction rule: rtranclp_induct) (auto intro: dc_ok_start dc_step_ok)
  have "length (dc_sent (on_timer f c)) = Suc (length (dc_sent c))" if "dc_running c"
    using that by (simp add: dc_defs Let_def)
  moreover have "dc_posts (on_timer f (dc_outcome Ping o' (c\<lparr>dc_posts := []\<rparr>))) = [Register]"
    if "dc_running c" "http_result o' = (False, e)" "str_contains ''not found'' e" for o' e
    using that by (simp add: dc_outcome_def on_ping_def dc_defs Let_def)
  ultimately show ?thesis using ok by (auto simp: dc_ok_def)
qed

lemma directory_client_keeps_going_witness:
  "let c = dc_outcome Register (Net_failed ''Connection failed'') ((dc_start demo_listing (new_directory_client demo_listing))\<lparr>dc_posts := []\<rparr>)
   in dc_running c \<and> dc_timer c \<and> length (dc_sent (on_timer demo_listing c)) = 2"
proof -
  let ?s = "dc_start demo_listing (new_directory_client demo_listing)"
  let ?c = "dc_outcome Register (Net_failed ''Connection failed'') (?s\<lparr>dc_posts := []\<rparr>)"
  have s: "dc_posts ?s = [Register]" "dc_running ?s" "length (dc_sent ?s) = 1"
    by (simp_all add: dc_start_def new_directory_client_def dc_defs demo_listing_def)
  then have "dc_step demo_listing ?s (dc_outcome Register (Net_failed ''Connection failed'') (?s\<lparr>dc_posts := [] @ []\<rparr>))"
    by (intro Outcome) simp
  then have run: "(dc_step demo_listing)\<^sup>*\<^sup>* ?s ?c" by simp
  have "dc_running ?c" "dc_timer ?c" "length (dc_sent ?c) = 1" using s by simp_all
  with directory_client_keeps_going [OF run] show ?thesis by simp
qed

end
