(* ===== verification/Session_Rules.thy ===== *)
theory Session_Rules
  imports Session_Invariant
begin

text \<open>
  What a session's messages can do: the state machine of a session, who becomes established, what an
  unauthenticated client can change, what is relayed under whose name, and the framing of the byte
  stream.  The properties rest on the invariant of \<open>Session_Invariant\<close>.
\<close>

subsection \<open>Effects on one's own session only\<close>

definition own_only :: "sid \<Rightarrow> server \<Rightarrow> server \<Rightarrow> bool" where
  "own_only i s s' \<longleftrightarrow> next_sid s' = next_sid s \<and> cfg s' = cfg s \<and> lst s' = lst s \<and> cmds s' = cmds s \<and>
     vrm s' = vrm s \<and> scanner s' = scanner s \<and> (\<forall>j. j \<noteq> i \<longrightarrow> sess s' j = sess s j) \<and>
     (\<exists>evs. out s' = out s @ evs \<and> (\<forall>ev \<in> set evs. target ev = i))"

named_theorems own_intros \<open>operations on one's own session\<close>

lemma own_refl [own_intros]: "own_only i s s"
  by (simp add: own_only_def)

lemma own_trans: "own_only i s s' \<Longrightarrow> own_only i s' s'' \<Longrightarrow> own_only i s s''"
  by (fastforce simp: own_only_def)

lemma own_upd_sess: "own_only i s (upd_sess i f s)"
  by (simp add: own_only_def frame_simps)

lemma own_posts: "own_only i s (post i e s)" "own_only i s (ask_disconnect i r s)" "own_only i s (s\<lparr>sdb := d\<rparr>)"
  by (simp_all add: own_only_def frame_simps)

lemma own_send_envelope: "own_only i s (send_envelope X i mt m s)"
  unfolding send_envelope_def by (rule own_trans [OF own_upd_sess own_posts(1)])

lemma own_send_error [own_intros]: "own_only i s (send_error X i n t s)"
  by (simp add: send_error_def own_send_envelope)

lemma own_refusals [own_intros]:
  "own_only i s (ask_disconnect i r (send_error X i n t s))"
  "own_only i s (auth_error X i n t r s)" "own_only i s (auth_fail X i n t r s)"
  unfolding auth_error_def auth_fail_def
  by (rule own_trans [OF own_send_error own_posts(2)] own_trans [OF own_send_envelope own_posts(2)])+

lemma own_set_state: "own_only i s (set_state i st s)"
  by (simp add: set_state_def own_upd_sess)

lemma own_hello [own_intros]: "own_only i s (handle_hello X i h s)"
  using own_trans [OF own_upd_sess own_trans [OF own_send_envelope own_set_state]]
  by (simp add: handle_hello_def Let_def own_refusals)

lemma own_pong [own_intros]: "own_only i s (handle_pong i s)"
  unfolding handle_pong_def reset_ping_timer_def by (rule own_trans [OF own_upd_sess own_upd_sess])

lemma own_store_spk: "store_spk X a s = (oc, s') \<Longrightarrow> own_only i s s'"
  by (auto simp: store_spk_def split_def Let_def own_posts own_refl split: if_splits)

lemma own_register_user: "own_only i s (result_server (register_user X i a s))"
  using own_trans [OF own_posts(3) own_refusals(2)] own_trans [OF own_posts(3) own_store_spk]
    own_trans [OF own_trans [OF own_posts(3) own_store_spk] own_posts(3)]
  by (auto simp: register_user_def Let_def split: prod.splits outcome.splits)

lemma own_recover_identity: "own_only i s (result_server (recover_identity X i a s))"
  using own_trans [OF own_posts(3) own_store_spk]
  by (auto simp: recover_identity_def Let_def own_posts own_refusals split: prod.splits outcome.splits)

lemma own_auth_database [own_intros]: "own_only i s (result_server (auth_database X i a s))"
proof -
  have tail: "own_only i s (result_server (case r of Auth_ok reset s \<Rightarrow>
          (case store_spk X a s of (Threw, s) \<Rightarrow> Auth_threw s | (Returned, s) \<Rightarrow> Auth_ok reset s) | r \<Rightarrow> r))"
    if "own_only i s (result_server r)" for r
    using that own_store_spk by (cases r) (auto split: prod.split outcome.split intro: own_trans)
  have "own_only i s (result_server (if k then recover_identity X i a s
      else Auth_ok False (backfill_password X a s)))" for k
    by (simp add: own_recover_identity backfill_password_def own_posts own_refl)
  from tail [OF this] show ?thesis
    unfolding auth_database_def by (auto simp: own_register_user split: option.split)
qed

text \<open>What the signature check lets through.\<close>

definition signed_by :: "ctx \<Rightarrow> server \<Rightarrow> sid \<Rightarrow> auth_response \<Rightarrow> bool" where
  "signed_by X s i a \<longleftrightarrow> is_valid_user_id (auth_user_id a) \<and> length (auth_identity_pub a) = 32 \<and>
     length (auth_signature a) = 64 \<and>
     ed25519_verify X (auth_signature a) (auth_nonce (sess s i) @ to_bytes (auth_user_id a)) (auth_identity_pub a)"

lemma auth_refused_signed: "auth_refused X i a s = None \<longleftrightarrow>
    signed_by X s i a \<and> is_nickname_available s (auth_user_id a) []"
  by (auto simp: auth_refused_def signed_by_def Let_def)

lemma refusal_sdb [simp]:
  "sdb (auth_error X i n t r s) = sdb s" "sdb (auth_fail X i n t r s) = sdb s"
  "sdb (send_error X i n t s) = sdb s"
  by (simp_all add: auth_error_def auth_fail_def send_error_def send_envelope_def frame_simps)

lemma own_auth_refused: "auth_refused X i a s = Some s' \<Longrightarrow> own_only i s s' \<and> sdb s' = sdb s"
  by (auto simp: auth_refused_def Let_def own_refusals split: if_splits)

lemma calm_state: "calm s s' \<Longrightarrow> ss_state (sess s' j) = ss_state (sess s j)"
  by (simp add: calm_def)

lemma auth_success_state:
  "ss_state (sess (auth_success X i a reset s) j) = (if j = i then Established else ss_state (sess s j))"
  "the_user (auth_success X i a reset s) i = auth_user_id a"
  "find_session (auth_success X i a reset s) (auth_user_id a) = Some i"
proof -
  obtain s1 where s1: "calm (enter i (auth_user_id a) s) s1"
    "calm (log_in X i (auth_user_id a) s1) (auth_success X i a reset s)" by (rule auth_success_parts)
  have s2: "ss_state (sess (log_in X i (auth_user_id a) s1) j) = (if j = i then Established else ss_state (sess s j))"
    using s1(1) by (simp add: calm_def log_in_def enter_def set_state_def frame_simps)
  then show "ss_state (sess (auth_success X i a reset s) j) = (if j = i then Established else ss_state (sess s j))"
    by (simp add: calm_state [OF s1(2)])
  show "the_user (auth_success X i a reset s) i = auth_user_id a"
    using s1(2) by (simp add: calm_def log_in_def the_user_def frame_simps)
  show "find_session (auth_success X i a reset s) (auth_user_id a) = Some i"
    using s1(2) find_log_in [of X i "auth_user_id a" s1 "auth_user_id a"] by (simp add: calm_def find_session_def)
qed

lemma handle_auth_cases:
  assumes "handle_auth_response X i a s = (oc, s')"
  obtains (refused) "auth_refused X i a s = Some s'"
  | (failed) "signed_by X s i a" "is_nickname_available s (auth_user_id a) []" "own_only i s s'" "calm s s'"
  | (entered) reset s1 where "signed_by X s i a" "is_nickname_available s (auth_user_id a) []"
      "auth_database X i a s = Auth_ok reset s1" "s' = auth_success X i a reset s1"
proof (cases "auth_refused X i a s")
  case (Some s1)
  then show ?thesis using assms refused by (simp add: handle_auth_response_def)
next
  case None
  then have sig: "signed_by X s i a" "is_nickname_available s (auth_user_id a) []"
    by (simp_all add: auth_refused_signed)
  show ?thesis
    using None assms sig failed entered own_auth_database [of i s X a] calm_auth_database [of s X i a]
    by (cases "auth_database X i a s") (auto simp: handle_auth_response_def)
qed

subsection \<open>The key on record\<close>

definition key_of :: "db \<Rightarrow> string \<Rightarrow> bytes option" where
  "key_of d u = map_option ur_identity_pub (map_of (users d) u)"

lemma key_of_frame [simp]:
  "key_of (upd_user u f d) v = (if v = u then map_option (\<lambda>r. ur_identity_pub (f r)) (map_of (users d) u) else key_of d v)"
  "key_of (d\<lparr>signed_prekeys := m\<rparr>) v = key_of d v" "key_of (d\<lparr>one_time_prekeys := ks\<rparr>) v = key_of d v"
  by (auto simp: key_of_def map_option.compositionality comp_def)

lemma key_set_password [simp]: "key_of (snd (usr_set_password X u pw d)) v = key_of d v"
  by (auto simp: usr_set_password_def split: option.split) (simp add: key_of_def)

lemma key_store_spk: "store_spk X a s = (oc, s') \<Longrightarrow> key_of (sdb s') v = key_of (sdb s) v"
  by (auto simp: store_spk_def usr_upsert_signed_prekey_def Let_def split: if_splits)

lemma key_register:
  "register_user X i a s = Auth_ok reset s' \<Longrightarrow> key_of (sdb s') (auth_user_id a) = Some (auth_identity_pub a)"
  by (auto simp: register_user_def Let_def usr_insert_def key_store_spk split: prod.splits outcome.splits if_splits)
     (auto simp: key_of_def map_add_def split: option.splits)

lemma key_recover:
  assumes "recover_identity X i a s = Auth_ok reset s'" "map_of (users (sdb s)) (auth_user_id a) \<noteq> None"
  shows "key_of (sdb s') (auth_user_id a) = Some (auth_identity_pub a) \<and>
    usr_verify_password X (auth_user_id a) (auth_password a) (sdb s)"
proof -
  obtain d where d: "usr_clear_key_material X (auth_user_id a) (sdb s) = (Returned, d)"
    and v: "usr_verify_password X (auth_user_id a) (auth_password a) (sdb s)"
    using assms(1) by (auto simp: recover_identity_def Let_def split: if_splits prod.splits outcome.splits)
  have "users d = users (sdb s)" using d by (auto simp: usr_clear_key_material_def Let_def split: if_splits)
  then show ?thesis
    using assms d v
    by (auto simp: recover_identity_def Let_def usr_update_identity_key_def key_store_spk
        split: if_splits prod.splits outcome.splits)
qed

lemma key_auth_database:
  assumes "auth_database X i a s = Auth_ok reset s'"
  shows "key_of (sdb s') (auth_user_id a) = Some (auth_identity_pub a) \<and>
    (key_of (sdb s) (auth_user_id a) = None \<or> key_of (sdb s) (auth_user_id a) = Some (auth_identity_pub a) \<or>
     usr_verify_password X (auth_user_id a) (auth_password a) (sdb s))"
proof (cases "usr_find X (auth_user_id a) (sdb s)")
  case None
  then have r: "register_user X i a s = Auth_ok reset s'" using assms by (simp add: auth_database_def)
  then have "map_of (users (sdb s)) (auth_user_id a) = None"
    by (auto simp: register_user_def usr_insert_def Let_def split: if_splits)
  then show ?thesis using key_register [OF r] by (simp add: key_of_def)
next
  case (Some existing)
  then obtain row where row: "map_of (users (sdb s)) (auth_user_id a) = Some row"
    and pub: "us_identity_pub existing = ur_identity_pub row"
    by (auto simp: usr_find_def split: if_splits)
  show ?thesis
  proof (cases "us_identity_pub existing = auth_identity_pub a")
    case True
    then have "key_of (sdb s) (auth_user_id a) = Some (auth_identity_pub a)" using row pub by (simp add: key_of_def)
    then show ?thesis
      using assms Some True
      by (auto simp: auth_database_def backfill_password_def key_store_spk split: prod.splits outcome.splits)
  next
    case False
    then obtain s1 where r: "recover_identity X i a s = Auth_ok reset s1" "store_spk X a s1 = (Returned, s')"
      using assms Some
      by (auto simp: auth_database_def split: prod.splits outcome.splits auth_result.splits)
    then show ?thesis using key_recover [OF r(1)] row by (simp add: key_store_spk [OF r(2)])
  qed
qed

lemma key_auth_success: "key_of (sdb (auth_success X i a reset s)) u = key_of (sdb s) u"
proof -
  have deliver: "sdb (deliver_offline X i ps s) = sdb s" for ps s
    by (induction X i ps s rule: deliver_offline.induct) (simp_all add: frame_simps split: option.split)
  have "key_of (snd (off_fetch_and_delete X v d)) u = key_of d u" for v d
    by (auto simp: off_fetch_and_delete_def key_of_def Let_def)
  then have "key_of (sdb (send_offline X i s)) u = key_of (sdb s) u" for s
    by (auto simp: send_offline_def send_envelope_def Let_def split_def frame_simps deliver)
  moreover have "sdb (send_bootstrap X i s) = sdb s" "sdb (announce_reset X i reset s) = sdb s" for s
    by (simp_all add: send_bootstrap_def announce_reset_def send_envelope_def Let_def frame_simps)
  ultimately show ?thesis
    by (simp add: auth_success_def Let_def frame_simps start_ping_timer_def reset_ping_timer_def set_state_def
        send_envelope_def)
qed

subsection \<open>Properties of a session\<close>

text \<open>What a message does before the session is established.\<close>

lemma early_dispatch:
  assumes "handle_envelope X i e s = Some (oc, s')" "\<not> established s i"
  shows "own_only i s s' \<and> sdb s' = sdb s \<and> \<not> established s' i \<or>
    ss_state (sess s i) = AuthPending \<and>
    (\<exists>a. parse_auth (codec X) (env_payload e) = Some a \<and> handle_auth_response X i a s = (oc, s'))"
proof -
  have hello: "sdb (handle_hello X i h s) = sdb s" "\<not> established (handle_hello X i h s) i" for h
    using assms(2)
    by (simp_all add: handle_hello_def Let_def set_state_def send_envelope_def send_error_def frame_simps)
  have refuse: "\<not> established (ask_disconnect i r (send_error X i n tx s)) i" "\<not> established (send_error X i n tx s) i"
    "\<not> established (handle_pong i s) i" "sdb (handle_pong i s) = sdb s" for r n tx
    using assms(2)
    by (simp_all add: send_error_def send_envelope_def handle_pong_def reset_ping_timer_def frame_simps)
  show ?thesis
    using assms
    by (auto simp: handle_envelope_def dispatch_hello_def dispatch_auth_def dispatch_chat_def
        dispatch_voice_signal_def dispatch_upload_def with_message_def parsed_def own_intros frame_simps
        hello refuse split: message_type.splits if_splits option.splits)
qed

text \<open>
  C2: a session becomes established only by authenticating.  When a message makes some session
  established, it is the session that sent it, which had been given a challenge; the message carries a
  64-byte signature over that challenge and the user's name that verifies under the 32-byte key in the
  message; no online user has the name; afterwards the name is this session's user, is routed to this
  session, and has that key on record; and the key is the one on record before, or the name was new, or
  the recovery password was right.
\<close>

theorem only_signed_logins_establish:
  assumes "handle_envelope X i e s = Some (oc, s')" and "\<not> established s j" and "established s' j"
  shows "j = i \<and> ss_state (sess s i) = AuthPending \<and>
    (\<exists>a u. parse_auth (codec X) (env_payload e) = Some a \<and> u = auth_user_id a \<and> signed_by X s i a \<and>
       is_nickname_available s u [] \<and> the_user s' i = u \<and> find_session s' u = Some i \<and>
       key_of (sdb s') u = Some (auth_identity_pub a) \<and>
       (key_of (sdb s) u = None \<or> key_of (sdb s) u = Some (auth_identity_pub a) \<or>
        usr_verify_password X u (auth_password a) (sdb s)))"
proof -
  have other: "ss_state (sess s' k) = ss_state (sess s k)" if "own_only i s s'" "k \<noteq> i" for k
    using that by (simp add: own_only_def)
  have "\<not> established s i"
  proof
    assume i: "established s i"
    then have "env_type e = MT_HELLO \<or> env_type e = MT_AUTH_RESPONSE \<Longrightarrow> s' = s"
      using assms(1) by (auto simp: handle_envelope_def dispatch_hello_def dispatch_auth_def)
    then have "calm s s'" using handle_envelope_calm [OF assms(1)] by fastforce
    then show False using assms(2,3) by (simp add: calm_state)
  qed
  from early_dispatch [OF assms(1) this] obtain a where st: "ss_state (sess s i) = AuthPending"
    and a: "parse_auth (codec X) (env_payload e) = Some a" "handle_auth_response X i a s = (oc, s')"
    using other [of j] assms(2,3) by (cases "j = i") auto
  from a(2) show ?thesis
  proof (cases rule: handle_auth_cases)
    case refused
    then have "calm s s'" by (rule auth_refused_calm)
    then show ?thesis using assms(2,3) by (simp add: calm_state)
  next
    case failed
    then show ?thesis using assms(2,3) by (simp add: calm_state)
  next
    case (entered reset s1)
    have "calm s s1" using calm_auth_database [of s X i a] entered(3) by simp
    then have "j = i" using assms(2,3) by (simp add: entered(4) auth_success_state calm_state split: if_splits)
    then show ?thesis
      using st a(1) entered key_auth_database [OF entered(3)]
      by (simp add: auth_success_state key_auth_success)
  qed
qed

text \<open>
  C3: a client that has not authenticated changes nothing of the others.  A message on a session that
  is not established, and that does not establish it, changes at most that session's record and posts
  only to that session; registry, presence, channels, voice rooms and scanner stay as they are, and so
  does the database unless the client proved to hold the key it sent.
\<close>

theorem unauthenticated_client_is_isolated:
  assumes "handle_envelope X i e s = Some (oc, s')" and "\<not> established s i" and "\<not> established s' i"
  shows "lst s' = lst s \<and> cmds s' = cmds s \<and> vrm s' = vrm s \<and> scanner s' = scanner s \<and> cfg s' = cfg s \<and>
    (\<forall>j. j \<noteq> i \<longrightarrow> sess s' j = sess s j) \<and>
    (\<exists>evs. out s' = out s @ evs \<and> (\<forall>ev \<in> set evs. target ev = i)) \<and>
    (sdb s' = sdb s \<or> (\<exists>a. parse_auth (codec X) (env_payload e) = Some a \<and> signed_by X s i a))"
proof -
  have "own_only i s s' \<and> (sdb s' = sdb s \<or> (\<exists>a. parse_auth (codec X) (env_payload e) = Some a \<and> signed_by X s i a))"
    using early_dispatch [OF assms(1,2)]
  proof (elim disjE conjE exE)
    fix a assume a: "parse_auth (codec X) (env_payload e) = Some a" "handle_auth_response X i a s = (oc, s')"
    from a(2) show ?thesis
    proof (cases rule: handle_auth_cases)
      case refused
      then show ?thesis using own_auth_refused by blast
    next
      case failed
      then show ?thesis using a(1) by blast
    next
      case (entered reset s1)
      then show ?thesis using assms(3) by (simp add: auth_success_state)
    qed
  qed simp
  then show ?thesis by (simp add: own_only_def)
qed

text \<open>The transitions a session's state can make in one step.\<close>

definition next_state :: "session_state \<Rightarrow> session_state \<Rightarrow> bool" where
  "next_state a b \<longleftrightarrow> a = b \<or> b = Dead \<or> a = Handshake \<and> b = Hello \<or> a = Hello \<and> b = AuthPending \<or>
     a = AuthPending \<and> b = Established"

lemma next_state_refl [simp]: "next_state a a" "next_state a Dead"
  by (simp_all add: next_state_def)

lemma next_state_le: "next_state a b \<Longrightarrow> a \<le> b"
  by (cases a) (auto simp: next_state_def less_eq_session_state_def)

lemma hello_states:
  "ss_state (sess (handle_hello X i h s) j) =
     (if j = i \<and> protocol_version h = kProtocolVersion then AuthPending else ss_state (sess s j))"
  by (simp add: handle_hello_def Let_def set_state_def send_envelope_def send_error_def frame_simps)

lemma frame_next_state:
  assumes "on_frame_received X i data s = Some s'" shows "next_state (ss_state (sess s j)) (ss_state (sess s' j))"
proof -
  have calm: "next_state (ss_state (sess s j)) (ss_state (sess s1 j))" if "calm s s1" for s1
    using that by (simp add: calm_state)
  have "next_state (ss_state (sess s j)) (ss_state (sess s1 j))" if "handle_envelope X i e s = Some (oc, s1)" for e oc s1
  proof -
    have refuse: "calm s (ask_disconnect i r (send_error X i n t s))" for r n t by (intro calm_after calm_refl)
    have auth: "next_state (ss_state (sess s j)) (ss_state (sess s1 j))"
      if "handle_auth_response X i a s = (oc, s1)" "ss_state (sess s i) = AuthPending" for a
      using that(1)
    proof (cases rule: handle_auth_cases)
      case (entered reset s2)
      have "calm s s2" using calm_auth_database [of s X i a] entered(3) by simp
      then show ?thesis using that(2) by (simp add: entered(4) auth_success_state calm_state next_state_def)
    qed (auto intro: calm auth_refused_calm)
    show ?thesis
    proof (cases "env_type e = MT_HELLO \<or> env_type e = MT_AUTH_RESPONSE")
      case True
      then show ?thesis
        using that auth calm_state [OF refuse]
        by (auto simp: handle_envelope_def dispatch_hello_def dispatch_auth_def hello_states
            split: if_splits option.splits) (simp add: next_state_def)
    next
      case False
      then show ?thesis using calm [OF handle_envelope_calm [OF that]] by simp
    qed
  qed
  then show ?thesis
    using assms by (auto simp: on_frame_received_def calm_state [OF calm_send_error] split: option.splits)
qed

lemma ping_frame:
  "sess (on_ping_timeout X i s) j = (if j = i then (sess s i)\<lparr>ping_timer := Timer_off\<rparr> else sess s j)"
  "ss_state (sess (on_ping_interval X i s) j) = ss_state (sess s j)"
  by (simp_all add: on_ping_timeout_def on_ping_interval_def Let_def frame_simps)

text \<open>
  C5: a session runs through its states in order.  In every step of the server, whatever the clock,
  the network and the database do, each existing session keeps its state, moves from the handshake to
  waiting for the greeting, from there to waiting for authentication, from there to established, or
  ends; so no state is skipped and none is entered twice.
\<close>

theorem session_state_machine:
  assumes "server_step s s'" and "j < next_sid s"
  shows "next_state (ss_state (sess s j)) (ss_state (sess s' j)) \<and> ss_state (sess s j) \<le> ss_state (sess s' j)"
proof -
  from assms have "next_state (ss_state (sess s j)) (ss_state (sess s' j))"
  proof (induction rule: server_step.induct)
    case (Accept s X failed ip ep)
    then show ?case by (cases failed; cases X ip ep s rule: do_accept_cases) (auto simp: do_accept_def)
  next
    case (Handshake_done i s X ok)
    then show ?case by (auto simp: on_handshake_def set_state_def frame_simps next_state_def)
  next
    case (Header s i X h n s')
    then show ?case
      by (auto simp: on_header_def Let_def frame_simps send_error_def send_envelope_def split: if_splits)
  next
    case (Frame s i X data s')
    then show ?case by (simp add: frame_next_state)
  next
    case (Run_post s xs ev ys X)
    then show ?case by (cases ev) (simp_all add: on_disconnect_def set_state_def)
  next
    case (Written s i X ok)
    then show ?case by (simp add: on_written_def Let_def frame_simps)
  qed (simp_all add: frame_simps ping_frame on_signal_def shutdown_frame)
  then show ?thesis using next_state_le by simp
qed

theorem session_state_machine_witness:
  "let s = demo_upload_server\<lparr>next_sid := 1\<rparr>; s' = on_disconnect 0 s
   in next_state (ss_state (sess s 0)) (ss_state (sess s' 0)) \<and> ss_state (sess s 0) \<le> ss_state (sess s' 0)"
proof -
  let ?s = "demo_upload_server\<lparr>next_sid := 1, out := [Disconnect 0 ''bye'']\<rparr>"
  have "server_step ?s (run_event demo_ctx (Disconnect 0 ''bye'') (?s\<lparr>out := [] @ []\<rparr>))"
    by (rule server_step.Run_post) simp_all
  from session_state_machine [OF this, of 0] show ?thesis
    by (simp add: Let_def on_disconnect_def set_state_def)
qed

text \<open>
  C1: the server's invariant.  Started on a consistent database, in every state the event loop reaches
  the registry's two maps agree and name established (or ended) sessions with the right user, channels
  and voice rooms are well formed, the database satisfies its constraints, and every session has a
  write in flight exactly while it has frames to send.
\<close>

theorem server_invariant:
  assumes "db_ok d" and "reachable (new_server c d) s" shows "server_ok s"
  using assms(2) by (induction rule: reachable.induct) (use new_server_ok [OF assms(1)] server_step_ok in blast)+

theorem server_invariant_witness:
  "server_ok (snd (snd (do_accept demo_ctx False ''1.2.3.4'' ''1.2.3.4:5'' (new_server default_config empty_db))))"
  by (rule server_invariant [OF db_ok_empty]) (rule reachable.Step [OF reachable.Start server_step.Accept])

text \<open>
  A client's login for the witnesses: a codec that reads every authentication as ann's, and a session
  that waits for it.
\<close>

definition demo_auth :: auth_response where
  "demo_auth = \<lparr>auth_user_id = ''ann'', auth_identity_pub = replicate 32 1, auth_signature = replicate 64 2,
     auth_signed_prekey = [], auth_spk_sig = [], auth_password = [], auth_spk_id = 0\<rparr>"

definition auth_ctx :: ctx where
  "auth_ctx = demo_ctx\<lparr>codec := demo_codec\<lparr>parse_auth := \<lambda>_. Some demo_auth\<rparr>\<rparr>"

definition auth_env :: envelope where
  "auth_env = \<lparr>env_seq = 1, env_ts = 0, env_type = MT_AUTH_RESPONSE, env_payload = [1]\<rparr>"

definition auth_server :: server where
  "auth_server = upd_sess 0 (\<lambda>ss. ss\<lparr>ss_state := AuthPending\<rparr>) ((new_server default_config empty_db)\<lparr>next_sid := 1\<rparr>)"

lemma demo_login:
  "\<exists>s1. handle_envelope auth_ctx 0 auth_env auth_server = Some (Returned, auth_success auth_ctx 0 demo_auth False s1)"
proof -
  have "auth_refused auth_ctx 0 demo_auth auth_server = None"
    unfolding auth_refused_signed
    by (simp add: signed_by_def is_nickname_available_def demo_auth_def auth_ctx_def auth_server_def frame_simps
        is_valid_user_id_def new_server_def new_listener_def code_def)
  moreover have "\<exists>s1. auth_database auth_ctx 0 demo_auth auth_server = Auth_ok False s1"
    by (simp add: auth_database_def register_user_def usr_find_def usr_insert_def store_spk_def demo_auth_def
        auth_ctx_def auth_server_def new_server_def empty_db_def frame_simps Let_def)
  moreover have "ss_state (sess auth_server 0) = AuthPending" by (simp add: auth_server_def)
  moreover have "parse_auth (codec auth_ctx) p = Some demo_auth" for p by (simp add: auth_ctx_def)
  ultimately show ?thesis
    by (auto simp: handle_envelope_def dispatch_auth_def handle_auth_response_def auth_env_def parsed_def)
qed

theorem only_signed_logins_establish_witness:
  "let s' = snd (the (handle_envelope auth_ctx 0 auth_env auth_server))
   in find_session s' ''ann'' = Some 0 \<and> key_of (sdb s') ''ann'' = Some (replicate 32 1)"
proof -
  obtain s1 where h: "handle_envelope auth_ctx 0 auth_env auth_server = Some (Returned, auth_success auth_ctx 0 demo_auth False s1)"
    using demo_login by blast
  have p: "parse_auth (codec auth_ctx) p = Some demo_auth" for p by (simp add: auth_ctx_def)
  have "\<not> established auth_server 0" by (simp add: auth_server_def)
  from only_signed_logins_establish [OF h this] show ?thesis
    by (simp add: h p Let_def auth_success_state demo_auth_def)
qed

theorem unauthenticated_client_is_isolated_witness:
  "let s' = snd (the (handle_envelope demo_ctx 0 auth_env auth_server))
   in lst s' = lst auth_server \<and> sdb s' = sdb auth_server"
proof -
  have h: "handle_envelope demo_ctx 0 auth_env auth_server = Some (Returned,
      ask_disconnect 0 ''Invalid AUTH_RESPONSE'' (send_error demo_ctx 0 4004 ''Invalid AUTH_RESPONSE'' auth_server))"
    by (simp add: handle_envelope_def dispatch_auth_def auth_env_def auth_server_def parsed_def demo_codec_def)
  have "\<not> established auth_server 0" "\<not> established (ask_disconnect 0 r (send_error demo_ctx 0 n x auth_server)) 0" for r n x
    by (simp_all add: auth_server_def send_error_def send_envelope_def frame_simps)
  from unauthenticated_client_is_isolated [OF h this] show ?thesis
    by (simp add: h Let_def demo_codec_def)
qed

subsection \<open>Relaying\<close>

text \<open>The user a relayed message says it comes from.\<close>

definition relay_name :: "codec \<Rightarrow> envelope \<Rightarrow> string option" where
  "relay_name k e =
     (case env_type e of
        MT_CHAT_ENVELOPE \<Rightarrow> map_option chat_sender (parse_chat k (env_payload e))
      | MT_VOICE_SIGNAL \<Rightarrow> map_option vs_from (parse_signal k (env_payload e))
      | MT_TYPING \<Rightarrow> map_option typ_sender (parse_typing k (env_payload e))
      | MT_READ_RECEIPT \<Rightarrow> map_option rr_reader (parse_receipt k (env_payload e))
      | _ \<Rightarrow> None)"

abbreviation relayed_types :: "message_type set" where
  "relayed_types \<equiv> {MT_CHAT_ENVELOPE, MT_VOICE_SIGNAL, MT_TYPING, MT_READ_RECEIPT}"

text \<open>Others are posted, and an offline user is left, nothing but the message itself.\<close>

definition only_relays :: "ctx \<Rightarrow> sid \<Rightarrow> envelope \<Rightarrow> server \<Rightarrow> server \<Rightarrow> bool" where
  "only_relays X i e s s' \<longleftrightarrow>
     (\<exists>evs. out s' = out s @ evs \<and> (\<forall>ev \<in> set evs. target ev = i \<or> (\<exists>j. ev = Send j e))) \<and>
     (sdb s' = sdb s \<or> (\<exists>u. sdb s' = snd (off_save X u (ser_env (codec X) e) (sdb s))))"

text \<open>Nothing but answers to the sender.\<close>

definition only_answers :: "sid \<Rightarrow> server \<Rightarrow> server \<Rightarrow> bool" where
  "only_answers i s s' \<longleftrightarrow> sdb s' = sdb s \<and> (\<exists>evs. out s' = out s @ evs \<and> (\<forall>ev \<in> set evs. target ev = i))"

lemma answers_relays: "only_answers i s s' \<Longrightarrow> only_relays X i e s s'"
  by (auto simp: only_answers_def only_relays_def)

lemma send_error_out: "\<exists>x. out (send_error X i n t s) = out s @ [Send i x]"
  by (simp add: send_error_def send_envelope_def frame_simps)

lemma answers [simp]:
  "only_answers i s s" "only_answers i s (send_error X i n t s)"
  "only_answers i s (ask_disconnect i r (send_error X i n t s))"
  using send_error_out [of X i n t s] by (auto simp: only_answers_def frame_simps)

lemma relays_then_error:
  "only_relays X i e s s' \<Longrightarrow> only_relays X i e s (send_error X i n t s')"
  using send_error_out [of X i n t s'] by (fastforce simp: only_relays_def)

lemma relays_posts [simp]: "only_relays X i e s (post j e s)" "only_relays X i e s (broadcast e x s)"
  by (auto simp: only_relays_def frame_simps broadcast_def post_all_out)

lemma relays_dm [simp]: "only_relays X i e s (snd (deliver_dm X r e s))"
  by (auto simp: deliver_dm_def split_def Let_def only_relays_def frame_simps split: option.split)

lemma handlers_relay:
  "only_relays X i e s (handle_chat X i c e s)"
  "only_relays X i e s (handle_voice_signal X i v e s)"
  "only_relays X i e s (handle_typing X i t e s)"
  "only_relays X i e s (handle_read_receipt X i r e s)"
  by (auto simp: handle_chat_def handle_voice_signal_def handle_typing_def handle_read_receipt_def split_def Let_def
      answers_relays relays_then_error split: option.split)

lemma handlers_refuse_names:
  "chat_sender c \<noteq> the_user s i \<Longrightarrow> only_answers i s (handle_chat X i c e s)"
  "vs_from v \<noteq> the_user s i \<Longrightarrow> only_answers i s (handle_voice_signal X i v e s)"
  "typ_sender t \<noteq> the_user s i \<Longrightarrow> only_answers i s (handle_typing X i t e s)"
  "rr_reader r \<noteq> the_user s i \<Longrightarrow> only_answers i s (handle_read_receipt X i r e s)"
  by (simp_all add: handle_chat_def handle_voice_signal_def handle_typing_def handle_read_receipt_def)

lemma msg_rate_frame:
  "out (snd (msg_rate_ok X i s)) = out s" "sdb (snd (msg_rate_ok X i s)) = sdb s"
  "the_user (snd (msg_rate_ok X i s)) j = the_user s j"
  by (auto simp: msg_rate_ok_def split_def Let_def frame_simps the_user_def split: option.split)

lemma relays_same_start:
  assumes "out s1 = out s" "sdb s1 = sdb s"
  shows "only_relays X i e s1 s' = only_relays X i e s s'" "only_answers i s1 s' = only_answers i s s'"
  using assms by (simp_all add: only_relays_def only_answers_def)

text \<open>
  C4: nobody speaks under another's name.  For a chat message, a call signal, a typing notice or a read
  receipt, the other sessions are posted nothing but the message as it came, an offline recipient is
  left nothing else, and this happens only when the session is established and the message names the
  session's own user as its sender; otherwise there are only answers to the sender.
\<close>

theorem relayed_under_own_name:
  assumes "handle_envelope X i e s = Some (oc, s')" and "env_type e \<in> relayed_types"
  shows "only_relays X i e s s' \<and>
    (established s i \<and> relay_name (codec X) e = Some (the_user s i) \<or> only_answers i s s')"
proof -
  let ?s = "snd (msg_rate_ok X i s)"
  note start = relays_same_start [OF msg_rate_frame(1,2)]
  have chat: "only_relays X i e s (handle_chat X i c e ?s)"
    "chat_sender c \<noteq> the_user s i \<Longrightarrow> only_answers i s (handle_chat X i c e ?s)" for c
    using handlers_relay(1) [of X i e ?s c] handlers_refuse_names(1) [of c ?s i X e] by (auto simp: start msg_rate_frame)
  have signal: "only_relays X i e s (handle_voice_signal X i c e ?s)"
    "vs_from c \<noteq> the_user s i \<Longrightarrow> only_answers i s (handle_voice_signal X i c e ?s)" for c
    using handlers_relay(2) [of X i e ?s c] handlers_refuse_names(2) [of c ?s i X e] by (auto simp: start msg_rate_frame)
  have err: "only_answers i s (send_error X i n t ?s)" for n t
    using answers(2) [of i ?s X n t] by (simp only: start)
  show ?thesis
    using assms
    by (auto simp: chat signal err handlers_relay(3,4) handlers_refuse_names(3,4) handle_envelope_def dispatch_chat_def dispatch_voice_signal_def with_message_def parsed_def
        relay_name_def split_def Let_def answers_relays split: if_splits option.splits
        intro: contrapos_np [OF _ chat(2)] contrapos_np [OF _ signal(2)]
          contrapos_np [OF _ handlers_refuse_names(3)] contrapos_np [OF _ handlers_refuse_names(4)])
qed

text \<open>A codec that reads every chat message as one from ann to bob, who is online on session 5.\<close>

theorem relayed_under_own_name_witness:
  "let X = demo_ctx\<lparr>codec := demo_codec\<lparr>parse_chat := \<lambda>_. Some \<lparr>chat_sender = ''ann'', chat_recipient = ''bob''\<rparr>\<rparr>\<rparr>;
       e = \<lparr>env_seq = 1, env_ts = 0, env_type = MT_CHAT_ENVELOPE, env_payload = [1]\<rparr>;
       s = upd_sess 0 (\<lambda>ss. ss\<lparr>ss_state := Established, ss_user_id := ''eve''\<rparr>)
             (log_in demo_ctx 5 ''bob'' (new_server default_config empty_db))
   in only_answers 0 s (snd (the (handle_envelope X 0 e s)))"
proof -
  let ?X = "demo_ctx\<lparr>codec := demo_codec\<lparr>parse_chat := \<lambda>_. Some \<lparr>chat_sender = ''ann'', chat_recipient = ''bob''\<rparr>\<rparr>\<rparr>"
  let ?e = "\<lparr>env_seq = 1, env_ts = 0, env_type = MT_CHAT_ENVELOPE, env_payload = [1]\<rparr>"
  let ?s = "upd_sess 0 (\<lambda>ss. ss\<lparr>ss_state := Established, ss_user_id := ''eve''\<rparr>)
             (log_in demo_ctx 5 ''bob'' (new_server default_config empty_db))"
  have "\<exists>s'. dispatch_chat X i e s = Some (Returned, s')" for X i e s
    by (simp add: dispatch_chat_def split_def Let_def split: option.split)
  then obtain s' where h: "handle_envelope ?X 0 ?e ?s = Some (Returned, s')"
    by (force simp: handle_envelope_def)
  from relayed_under_own_name [OF h] have "only_answers 0 ?s s'"
    by (simp add: relay_name_def the_user_def)
  then show ?thesis unfolding Let_def h by simp
qed

subsection \<open>The byte stream\<close>

definition sendable :: "bytes \<Rightarrow> bool" where
  "sendable m \<longleftrightarrow> m \<noteq> [] \<and> length m \<le> kMaxMessageSize"

lemma read_frame:
  "sendable m \<Longrightarrow> read_stream (frame_of m @ rest) = (let (ms, r) = read_stream rest in (m # ms, r))"
  by (subst read_stream.simps) (simp add: sendable_def frame_of_def be_value_be_bytes Let_def split_def)

lemma read_frames:
  "list_all sendable ms \<Longrightarrow>
   read_stream (concat (map frame_of ms) @ rest) = (let (ms', r) = read_stream rest in (ms @ ms', r))"
  by (induction ms) (simp_all add: read_frame split_def Let_def)

text \<open>
  The life of a write queue: frames posted to it, and writes that complete.  The frames written are
  collected in their order.
\<close>

datatype write_op = Queue bytes | Write_completes

fun queued :: "write_op list \<Rightarrow> bytes list" where
  "queued [] = []"
| "queued (Queue m # ops) = m # queued ops"
| "queued (Write_completes # ops) = queued ops"

fun run_writes :: "write_op list \<Rightarrow> session \<Rightarrow> bytes list \<times> session" where
  "run_writes [] ss = ([], ss)"
| "run_writes (Queue m # ops) ss = run_writes ops (queue_frame (frame_of m) ss)"
| "run_writes (Write_completes # ops) ss =
     (if write_in_progress ss
      then let (fs, ss') = run_writes ops (write_done ss) in (hd (pending_writes ss) # fs, ss')
      else run_writes ops ss)"

lemma run_writes_order:
  assumes "writes_ok ss" "ss_state ss \<noteq> Dead"
  shows "fst (run_writes ops ss) @ pending_writes (snd (run_writes ops ss)) = pending_writes ss @ map frame_of (queued ops)"
  using assms
proof (induction ops arbitrary: ss)
  case (Cons op ops)
  show ?case
  proof (cases op)
    case (Queue m)
    have "pending_writes (queue_frame (frame_of m) ss) = pending_writes ss @ [frame_of m]"
      using Cons.prems by (simp add: queue_frame_def Let_def)
    then show ?thesis using Queue Cons.IH [of "queue_frame (frame_of m) ss"] Cons.prems by (simp add: queue_frame_writes)
  next
    case Write_completes
    show ?thesis
    proof (cases "write_in_progress ss")
      case True
      then obtain f fs where fs: "pending_writes ss = f # fs"
        using Cons.prems by (cases "pending_writes ss") (auto simp: writes_ok_def)
      then have "pending_writes (write_done ss) = fs" by (simp add: write_done_def Let_def)
      then show ?thesis
        using True fs Write_completes Cons.IH [of "write_done ss"] Cons.prems
        by (simp add: write_done_writes split_def Let_def)
    next
      case False
      then show ?thesis using Write_completes Cons.IH [of ss] Cons.prems by simp
    qed
  qed
qed simp

text \<open>
  C6: messages arrive whole and in order.  From a session with nothing to write, let any messages of 1
  to 65536 bytes be posted, interleaved with writes that complete in any way.  The frames written so
  far, read by the framing loop in one stream, give back exactly the first of the messages in the order
  of posting, and the rest wait in the queue in that order; a stream cut at any later byte still gives
  these messages first.
\<close>

theorem messages_arrive_in_order:
  assumes "writes_ok ss" and "ss_state ss \<noteq> Dead" and "pending_writes ss = []" and "list_all sendable (queued ops)"
    and "run_writes ops ss = (fs, ss')"
  shows "\<exists>sent waiting. queued ops = sent @ waiting \<and> pending_writes ss' = map frame_of waiting \<and>
    read_stream (concat fs) = (sent, []) \<and> (\<exists>ms r. read_stream (concat fs @ rest) = (sent @ ms, r))"
proof -
  have "fs @ pending_writes ss' = map frame_of (queued ops)"
    using run_writes_order [OF assms(1,2), of ops] assms(3,5) by simp
  then obtain sent waiting where split: "queued ops = sent @ waiting" "fs = map frame_of sent"
      "pending_writes ss' = map frame_of waiting"
    by (auto simp: append_eq_map_conv)
  have "list_all sendable sent" using assms(4) split(1) by simp
  from read_frames [OF this] have r: "read_stream (concat fs @ rest) = (let (ms', r) = read_stream rest in (sent @ ms', r))" for rest
    by (simp add: split(2))
  have "read_stream [] = ([], [])" by (simp add: read_stream.simps)
  with r [of "[]"] r [of rest] split(1,3) show ?thesis by (auto simp: split_def Let_def)
qed

theorem messages_arrive_in_order_witness:
  "\<exists>sent waiting. [[1], [2, 3], [4]] = sent @ waiting \<and>
     read_stream (concat (fst (run_writes [Queue [1], Queue [2, 3], Write_completes, Queue [4], Write_completes] (new_session []))))
       = (sent, [])"
  using messages_arrive_in_order [of "new_session []" "[Queue [1], Queue [2, 3], Write_completes, Queue [4], Write_completes]"
      _ _ "[]", OF _ _ _ _ surjective_pairing]
  by (auto simp: new_session_def writes_ok_def sendable_def)

subsection \<open>A login name is held by one session\<close>

text \<open>Only a login adds to the registry, and only under a name that is free up to case.\<close>

definition same_or_fewer :: "server \<Rightarrow> server \<Rightarrow> bool" where
  "same_or_fewer s s' \<longleftrightarrow> (\<forall>u i. find_session s' u = Some i \<longrightarrow> find_session s u = Some i)"

definition registers_free_name :: "server \<Rightarrow> server \<Rightarrow> bool" where
  "registers_free_name s s' \<longleftrightarrow>
     (\<exists>u i. find_session s' = (find_session s)(u \<mapsto> i) \<and> is_nickname_available s u [])"

lemma available_differs:
  "is_nickname_available s u [] \<Longrightarrow> find_session s v = Some i \<Longrightarrow> normalize_nickname v \<noteq> normalize_nickname u"
  by (auto simp: is_nickname_available_def find_session_def dest: map_of_SomeD)

lemma find_session_cong: "sessions_by_user (lst s') = sessions_by_user (lst s) \<Longrightarrow> find_session s' = find_session s"
  by (simp add: find_session_def fun_eq_iff)

lemma find_session_frame [simp]:
  "find_session (upd_sess i f s) = find_session s" "find_session (post i e s) = find_session s"
  "find_session (s\<lparr>out := xs\<rparr>) = find_session s"
  by (rule find_session_cong; simp add: frame_simps)+

lemma calm_find: "calm s s' \<Longrightarrow> find_session s' = find_session s"
  by (rule find_session_cong) (simp add: calm_def)

lemma auth_success_find: "find_session (auth_success X i a reset s) = (find_session s)(auth_user_id a \<mapsto> i)"
proof -
  obtain s1 where s1: "calm (enter i (auth_user_id a) s) s1"
    "calm (log_in X i (auth_user_id a) s1) (auth_success X i a reset s)" by (rule auth_success_parts)
  have "find_session (enter i (auth_user_id a) s) = find_session s"
    by (rule find_session_cong) (simp add: enter_def set_state_def frame_simps)
  with calm_find [OF s1(1)] calm_find [OF s1(2)] show ?thesis by (simp add: find_log_in fun_eq_iff)
qed

lemma envelope_registry:
  assumes "handle_envelope X i e s = Some (oc, s')"
  shows "find_session s' = find_session s \<or> registers_free_name s s'"
proof (cases "established s i")
  case True
  then have "env_type e = MT_HELLO \<or> env_type e = MT_AUTH_RESPONSE \<Longrightarrow> s' = s"
    using assms by (auto simp: handle_envelope_def dispatch_hello_def dispatch_auth_def)
  then have "calm s s'" using handle_envelope_calm [OF assms] by fastforce
  then show ?thesis using calm_find by blast
next
  case False
  have own: "find_session s' = find_session s" if "own_only i s s'"
    using that by (intro find_session_cong) (simp add: own_only_def)
  from early_dispatch [OF assms False]
  consider "own_only i s s'" | a where "handle_auth_response X i a s = (oc, s')" by blast
  then show ?thesis
  proof cases
    case (2 a)
    then show ?thesis
    proof (cases rule: handle_auth_cases)
      case refused
      then show ?thesis using own own_auth_refused by blast
    next
      case failed
      then show ?thesis using own by blast
    next
      case (entered reset s1)
      have "find_session s1 = find_session s" using calm_auth_database [of s X i a] entered(3) calm_find by simp
      then show ?thesis using entered(2,4) by (auto simp: auth_success_find registers_free_name_def)
    qed
  qed (simp add: own)
qed

lemma step_registry: "server_step s s' \<Longrightarrow> same_or_fewer s s' \<or> registers_free_name s s'"
proof (induction rule: server_step.induct)
  case (Accept s X failed ip ep)
  have "find_session (snd (snd (do_accept X failed ip ep s))) = find_session s"
    by (cases failed; cases X ip ep s rule: do_accept_cases) (auto simp: do_accept_def find_session_def)
  then show ?case by (simp add: same_or_fewer_def)
next
  case (Frame s i X data s')
  then show ?case
    using envelope_registry calm_find [OF calm_send_error]
    by (fastforce simp: on_frame_received_def same_or_fewer_def split: option.splits)
next
  case (Run_post s xs ev ys X)
  then show ?case
    by (cases ev) (simp_all add: same_or_fewer_def on_disconnect_def set_state_def)
next
  case (Signal s failed)
  then show ?case
    by (auto simp: on_signal_def shutdown_def same_or_fewer_def find_session_def Let_def)
next
  case (Header s i X h n s')
  then show ?case
    by (auto simp: on_header_def Let_def same_or_fewer_def find_disconnected calm_find [OF calm_send_error] split: if_splits)
qed (auto simp: same_or_fewer_def on_handshake_def set_state_def on_written_def on_ping_interval_def on_ping_timeout_def
    find_disconnected Let_def split: if_splits)

definition online_ids_unique :: "server \<Rightarrow> bool" where
  "online_ids_unique s \<longleftrightarrow> (\<forall>u v i j. find_session s u = Some i \<and> find_session s v = Some j \<and>
     normalize_nickname u = normalize_nickname v \<longrightarrow> u = v)"

lemma online_ids_unique_reachable: "reachable (new_server c d) s \<Longrightarrow> online_ids_unique s"
proof (induction rule: reachable.induct)
  case Start
  then show ?case by (simp add: online_ids_unique_def find_session_def new_server_def new_listener_def)
next
  case (Step s s')
  from step_registry [OF Step(2)] show ?case
  proof
    assume "same_or_fewer s s'"
    with Step(3) show ?thesis unfolding same_or_fewer_def online_ids_unique_def by blast
  next
    assume "registers_free_name s s'"
    then obtain u i where "find_session s' = (find_session s)(u \<mapsto> i)" "is_nickname_available s u []"
      by (auto simp: registers_free_name_def)
    with Step(3) show ?thesis by (auto simp: online_ids_unique_def dest: available_differs)
  qed
qed



end
