(* ===== verification/Client_Net.thy ===== *)
theory Client_Net
  imports Session_Rules File_Encryptor
begin

text \<open>
  The network client of the terminal client, \<open>net/net_client.cpp\<close>: the loop that connects, waits and connects again,
  the pinned certificate, the framing of both directions and the writing loop with its queue.  Resolving, TCP and
  TLS are the environment's: an attempt fails with a text or yields the digest of the certificate.  The coroutines and
  what \<open>send\<close> posts run on one strand, so each resumption is a step, and their order is free.
\<close>

subsection \<open>State\<close>

record net_config =
  nc_verify_peer :: bool
  nc_cert_pin :: string
  nc_auto_reconnect :: bool
  nc_reconnect_delay :: int

datatype net_phase = Idle | Connecting | Online | Pausing | Ended

datatype write_state = Off | Waiting | Woken | Writing bytes

datatype net_call = Call_connected | Call_disconnected string | Call_message envelope

record net_client =
  n_phase :: net_phase
  n_connected :: bool
  n_stopping :: bool
  n_delay :: int
  n_attempt :: int
  n_total :: int
  n_posted :: "bytes list"
  n_queue :: "bytes list"
  n_loop :: write_state
  n_written :: "bytes list"
  n_unread :: bytes
  n_calls :: "net_call list"

definition kMaxFrameSize :: nat where "kMaxFrameSize = 65536"

definition initial_delay :: "net_config \<Rightarrow> int" where
  "initial_delay F = max 1 (nc_reconnect_delay F)"

definition new_net_client :: "net_config \<Rightarrow> net_client" where
  "new_net_client F =
     \<lparr>n_phase = Idle, n_connected = False, n_stopping = False, n_delay = initial_delay F, n_attempt = 1, n_total = 0,
      n_posted = [], n_queue = [], n_loop = Off, n_written = [],
      n_unread = [], n_calls = []\<rparr>"

definition net_call :: "net_call \<Rightarrow> net_client \<Rightarrow> net_client" where
  "net_call c n = n\<lparr>n_calls := n_calls n @ [c]\<rparr>"

subsection \<open>The certificate\<close>

definition cert_fingerprint :: "bytes option \<Rightarrow> string" where
  "cert_fingerprint d = (case d of None \<Rightarrow> [] | Some b \<Rightarrow> join_with '':'' (map (\<lambda>x. bytes_to_hex [x]) b))"

definition verify_cert_pin :: "net_config \<Rightarrow> bytes option \<Rightarrow> bool" where
  "verify_cert_pin F d =
     (if \<not> nc_verify_peer F then True
      else
        let fp = cert_fingerprint d
        in if fp = [] then False
           else if nc_cert_pin F = [] then True
           else fp = nc_cert_pin F)"

subsection \<open>Connecting\<close>

datatype attempt = Attempt_failed string | Handshaken "bytes option"

definition net_start :: "net_client \<Rightarrow> net_client" where
  "net_start n = n\<lparr>n_phase := (if n_stopping n then Ended else Connecting)\<rparr>"

text \<open>
  The next pause.  The code doubles an \<open>int\<close>, which leaves its 32 bits only after a pause of 2^30 seconds or
  more has gone by; the pause starts at the configured one, so below that the integers here are the code's.
\<close>

definition backoff :: "int \<Rightarrow> int" where
  "backoff d = min (d * 2) 60"

text \<open>\<open>connect_once\<close> has returned or thrown: the connection is over, or was never made.\<close>

definition connection_over :: "net_config \<Rightarrow> string \<Rightarrow> net_client \<Rightarrow> net_client" where
  "connection_over F reason n =
     (let n = n\<lparr>n_loop := Off\<rparr>
      in if n_stopping n then n\<lparr>n_phase := Ended\<rparr>
         else
           let n = net_call (Call_disconnected reason) (n\<lparr>n_connected := False, n_queue := []\<rparr>)
           in if \<not> nc_auto_reconnect F then n\<lparr>n_phase := Ended\<rparr>
              else n\<lparr>n_total := n_total n + n_delay n, n_phase := Pausing\<rparr>)"

definition pause_over :: "net_client \<Rightarrow> net_client" where
  "pause_over n =
     n\<lparr>n_attempt := n_attempt n + 1, n_delay := backoff (n_delay n),
       n_phase := (if n_stopping n then Ended else Connecting)\<rparr>"

definition net_attempt :: "net_config \<Rightarrow> attempt \<Rightarrow> net_client \<Rightarrow> net_client" where
  "net_attempt F a n =
     (case a of
        Attempt_failed reason \<Rightarrow> connection_over F reason n
      | Handshaken d \<Rightarrow>
          if \<not> verify_cert_pin F d then connection_over F ''Certificate pinning check failed'' n
          else net_call Call_connected
            (n\<lparr>n_phase := Online, n_connected := True, n_delay := initial_delay F, n_attempt := 1, n_total := 0,
               n_loop := Off, n_written := [], n_unread := []\<rparr>))"

definition net_stop :: "net_client \<Rightarrow> net_client" where
  "net_stop n = n\<lparr>n_stopping := True\<rparr>"

subsection \<open>Reading\<close>

text \<open>
  The loop on the bytes that have arrived: the payloads in their order, the bytes of a frame that is not complete
  yet, and the size in a header that is refused.
\<close>

function net_read :: "bytes \<Rightarrow> bytes list \<times> bytes \<times> nat option" where
  "net_read bs =
     (if length bs < 4 then ([], bs, None)
      else
        let n = be_value (take 4 bs)
        in if n = 0 \<or> n > kMaxFrameSize then ([], bs, Some n)
           else if length bs < 4 + n then ([], bs, None)
           else let (ps, r) = net_read (drop (4 + n) bs) in (take n (drop 4 bs) # ps, r))"
  by pat_completeness auto
termination by (relation "measure length") auto

declare net_read.simps [simp del]

text \<open>A payload that is no envelope is skipped; an exception of the callback is caught.\<close>

definition net_deliver :: "(bytes \<Rightarrow> envelope option) \<Rightarrow> bytes list \<Rightarrow> net_client \<Rightarrow> net_client" where
  "net_deliver parse ps n = fold (\<lambda>e. net_call (Call_message e)) (List.map_filter parse ps) n"

definition net_receive :: "net_config \<Rightarrow> (bytes \<Rightarrow> envelope option) \<Rightarrow> bytes \<Rightarrow> net_client \<Rightarrow> net_client" where
  "net_receive F parse bs n =
     (if n_phase n \<noteq> Online \<or> n_stopping n then n
      else
        let (ps, r, bad) = net_read (n_unread n @ bs);
            n = net_deliver parse ps (n\<lparr>n_unread := r\<rparr>)
        in case bad of None \<Rightarrow> n | Some k \<Rightarrow> connection_over F (''Invalid frame size: '' @ show_nat k) n)"

subsection \<open>Writing\<close>

definition net_send :: "bytes \<Rightarrow> net_client \<Rightarrow> net_client" where
  "net_send body n =
     (if length body > kMaxFrameSize then n else n\<lparr>n_posted := n_posted n @ [be_bytes 4 (length body) @ body]\<rparr>)"

text \<open>What \<open>send\<close> posted runs: the frame is queued and a wait of the writing loop is cancelled.\<close>

definition run_posted :: "net_client \<Rightarrow> net_client" where
  "run_posted n =
     (case n_posted n of
        [] \<Rightarrow> n
      | f # fs \<Rightarrow> n\<lparr>n_posted := fs, n_queue := n_queue n @ [f], n_loop := (if n_loop n = Waiting then Woken else n_loop n)\<rparr>)"

text \<open>The head of the loop, and the head of its inner loop.\<close>

definition loop_head :: "net_client \<Rightarrow> net_client" where
  "loop_head n = n\<lparr>n_loop := (if n_stopping n then Off else Waiting)\<rparr>"

definition drain_next :: "net_client \<Rightarrow> net_client" where
  "drain_next n =
     (case n_queue n of [] \<Rightarrow> loop_head n | f # fs \<Rightarrow> n\<lparr>n_queue := fs, n_loop := Writing f\<rparr>)"

definition write_loop_starts :: "net_client \<Rightarrow> net_client" where
  "write_loop_starts n = (if n_phase n = Online \<and> n_loop n = Off then loop_head n else n)"

definition loop_resumes :: "net_client \<Rightarrow> net_client" where
  "loop_resumes n = (case n_loop n of Woken \<Rightarrow> drain_next n | _ \<Rightarrow> n)"

definition frame_written :: "net_client \<Rightarrow> net_client" where
  "frame_written n = (case n_loop n of Writing f \<Rightarrow> drain_next (n\<lparr>n_written := n_written n @ [f]\<rparr>) | _ \<Rightarrow> n)"

subsection \<open>Steps\<close>

inductive net_step :: "net_config \<Rightarrow> net_client \<Rightarrow> net_client \<Rightarrow> bool" for F where
  Start: "n_phase n = Idle \<Longrightarrow> net_step F n (net_start n)"
| Stop: "net_step F n (net_stop n)"
| Attempt: "n_phase n = Connecting \<Longrightarrow> net_step F n (net_attempt F a n)"
| Lost: "n_phase n = Online \<Longrightarrow> net_step F n (connection_over F reason n)"
| Pause_over: "n_phase n = Pausing \<Longrightarrow> net_step F n (pause_over n)"
| Received: "net_step F n (net_receive F parse bs n)"
| Sent: "net_step F n (net_send body n)"
| Posted: "net_step F n (run_posted n)"
| Loop_starts: "net_step F n (write_loop_starts n)"
| Loop_resumes: "net_step F n (loop_resumes n)"
| Written: "net_step F n (frame_written n)"

subsection \<open>The pause between attempts\<close>

lemma backoff_bounds: "1 \<le> d \<Longrightarrow> d \<le> max 60 b \<Longrightarrow> 1 \<le> backoff d \<and> backoff d \<le> max 60 b"
  by (simp add: backoff_def)

lemma backoff_power: "1 \<le> d \<Longrightarrow> d \<le> 60 \<Longrightarrow> (backoff ^^ k) d = min (d * 2 ^ k) 60"
proof (induction k)
  case (Suc k)
  then show ?case by (simp add: backoff_def min_def mult.commute mult.left_commute)
qed simp

subsection \<open>The connection and its callbacks\<close>

text \<open>Whether the application has been told of a connection, if the calls are in a sensible order.\<close>

fun told :: "bool \<Rightarrow> net_call list \<Rightarrow> bool option" where
  "told b [] = Some b"
| "told b (Call_connected # cs) = (if b then None else told True cs)"
| "told b (Call_disconnected _ # cs) = told False cs"
| "told b (Call_message _ # cs) = (if b then told b cs else None)"

lemma told_append: "told b (cs @ ds) = Option.bind (told b cs) (\<lambda>b. told b ds)"
  by (induction b cs rule: told.induct) auto

lemma net_deliver_simps [simp]:
  "n_phase (net_deliver parse ps n) = n_phase n" "n_delay (net_deliver parse ps n) = n_delay n"
  "n_stopping (net_deliver parse ps n) = n_stopping n" "n_connected (net_deliver parse ps n) = n_connected n"
  "n_unread (net_deliver parse ps n) = n_unread n"
  "n_calls (net_deliver parse ps n) = n_calls n @ map Call_message (List.map_filter parse ps)"
proof -
  have "n_phase (fold (\<lambda>e. net_call (Call_message e)) es n) = n_phase n \<and> n_delay (fold (\<lambda>e. net_call (Call_message e)) es n) = n_delay n \<and>
      n_stopping (fold (\<lambda>e. net_call (Call_message e)) es n) = n_stopping n \<and>
      n_connected (fold (\<lambda>e. net_call (Call_message e)) es n) = n_connected n \<and>
      n_unread (fold (\<lambda>e. net_call (Call_message e)) es n) = n_unread n \<and>
      n_calls (fold (\<lambda>e. net_call (Call_message e)) es n) = n_calls n @ map Call_message es" for es
    by (induction es arbitrary: n) (simp_all add: net_call_def)
  then show "n_phase (net_deliver parse ps n) = n_phase n" "n_delay (net_deliver parse ps n) = n_delay n"
    "n_stopping (net_deliver parse ps n) = n_stopping n" "n_connected (net_deliver parse ps n) = n_connected n"
    "n_unread (net_deliver parse ps n) = n_unread n"
    "n_calls (net_deliver parse ps n) = n_calls n @ map Call_message (List.map_filter parse ps)"
    by (simp_all add: net_deliver_def)
qed

lemma told_messages [simp]: "told True (map Call_message es) = Some True"
  by (induction es) simp_all

definition net_ok :: "net_config \<Rightarrow> net_client \<Rightarrow> bool" where
  "net_ok F n \<longleftrightarrow> 1 \<le> n_delay n \<and> n_delay n \<le> max 60 (initial_delay F) \<and>
     (\<exists>b. told False (n_calls n) = Some b \<and> (n_phase n = Online \<longrightarrow> b) \<and>
       (n_phase n \<in> {Idle, Connecting, Pausing} \<longrightarrow> \<not> b)) \<and>
     (n_phase n \<in> {Idle, Connecting, Pausing} \<longrightarrow> \<not> n_connected n) \<and> (n_phase n = Online \<longrightarrow> n_connected n)"

lemma net_ok_new: "net_ok F (new_net_client F)"
  by (auto simp: net_ok_def new_net_client_def initial_delay_def)

lemma connection_over_ok: "net_ok F n \<Longrightarrow> net_ok F (connection_over F r n)"
  by (auto simp: net_ok_def connection_over_def Let_def net_call_def told_append)

lemma net_receive_ok: "net_ok F n \<Longrightarrow> net_ok F (net_receive F parse bs n)"
proof (cases "n_phase n = Online \<and> \<not> n_stopping n")
  case True
  assume ok: "net_ok F n"
  have "net_ok F (net_deliver parse ps (n\<lparr>n_unread := r\<rparr>))" for ps r
    using ok True by (auto simp: net_ok_def told_append)
  then show ?thesis using True by (auto simp: net_receive_def connection_over_ok Let_def split: prod.split option.split)
qed (auto simp: net_receive_def)

lemma writing_keeps:
  "net_ok F (run_posted n) = net_ok F n" "net_ok F (write_loop_starts n) = net_ok F n"
  "net_ok F (loop_resumes n) = net_ok F n" "net_ok F (frame_written n) = net_ok F n" "net_ok F (net_send body n) = net_ok F n"
  by (simp_all add: net_ok_def run_posted_def write_loop_starts_def loop_resumes_def frame_written_def drain_next_def
      loop_head_def net_send_def split: list.split write_state.split)

lemma net_attempt_ok: "net_ok F n \<Longrightarrow> n_phase n = Connecting \<Longrightarrow> net_ok F (net_attempt F a n)"
  by (auto simp: net_attempt_def connection_over_ok split: attempt.split)
     (auto simp: net_ok_def net_call_def told_append initial_delay_def)

lemma net_step_ok: "net_step F n n' \<Longrightarrow> net_ok F n \<Longrightarrow> net_ok F n'"
proof (induction rule: net_step.induct)
  case (Pause_over n)
  then show ?case using backoff_bounds [of "n_delay n" "initial_delay F"] by (auto simp: net_ok_def pause_over_def)
qed (auto simp: connection_over_ok net_receive_ok net_attempt_ok writing_keeps, auto simp: net_ok_def net_start_def net_stop_def)

lemma connection_over_not_online [simp]: "n_phase (connection_over F r n) \<noteq> Online"
  by (simp add: connection_over_def Let_def net_call_def)

lemma online_by_attempt:
  assumes "net_step F n n'" "n_phase n \<noteq> Online" "n_phase n' = Online"
  shows "\<exists>d. n' = net_attempt F (Handshaken d) n \<and> verify_cert_pin F d"
  using assms
proof (induction rule: net_step.induct)
  case (Attempt n a)
  then show ?case by (auto simp: net_attempt_def split: attempt.splits if_splits)
qed (auto simp: net_start_def net_stop_def pause_over_def net_receive_def net_send_def run_posted_def
    write_loop_starts_def loop_resumes_def frame_written_def drain_next_def loop_head_def
    split: list.splits write_state.splits if_splits)


definition demo_net :: net_config where
  "demo_net = \<lparr>nc_verify_peer = True, nc_cert_pin = ''0a:ff'', nc_auto_reconnect = True, nc_reconnect_delay = 40\<rparr>"

definition demo_online :: net_client where
  "demo_online = net_attempt demo_net (Handshaken (Some [10, 255]))
     (pause_over (net_attempt demo_net (Attempt_failed ''refused'') (net_start (new_net_client demo_net))))"

lemma demo_online_reachable: "(net_step demo_net)\<^sup>*\<^sup>* (new_net_client demo_net) demo_online"
proof -
  let ?a = "net_start (new_net_client demo_net)" and ?f = "Attempt_failed ''refused''"
  have a: "n_phase (new_net_client demo_net) = Idle" "n_phase ?a = Connecting" "n_phase (net_attempt demo_net ?f ?a) = Pausing"
    "n_phase (pause_over (net_attempt demo_net ?f ?a)) = Connecting"
    by (simp_all add: new_net_client_def net_start_def net_attempt_def connection_over_def net_call_def demo_net_def pause_over_def)
  show ?thesis
    unfolding demo_online_def
    by (rule rtranclp.rtrancl_into_rtrancl, rule rtranclp.rtrancl_into_rtrancl, rule rtranclp.rtrancl_into_rtrancl,
        rule r_into_rtranclp, rule Start, rule a, rule Attempt, rule a, rule Pause_over, rule a, rule Attempt, rule a)
qed


subsection \<open>Frames between client and server\<close>

lemma net_read_append:
  "net_read a = (ps, r, None) \<Longrightarrow> net_read (a @ b) = (let (qs, x) = net_read (r @ b) in (ps @ qs, x))"
proof (induction a arbitrary: ps r rule: net_read.induct)
  case (1 a)
  show ?case
  proof (cases "length a < 4 \<or> length a < 4 + be_value (take 4 a)")
    case True
    with "1.prems" have "ps = []" "r = a" by (auto simp: net_read.simps [of a] Let_def split: if_splits)
    then show ?thesis by simp
  next
    case False
    let ?n = "be_value (take 4 a)"
    have n: "?n \<noteq> 0" "\<not> ?n > kMaxFrameSize" using "1.prems" False by (auto simp: net_read.simps [of a] Let_def split: if_splits)
    obtain qs where qs: "net_read (drop (4 + ?n) a) = (qs, r, None)" "ps = take ?n (drop 4 a) # qs"
      using "1.prems" False n by (auto simp: net_read.simps [of a] Let_def split: prod.splits)
    from False n have "net_read (drop (4 + ?n) a @ b) = (let (qs', x) = net_read (r @ b) in (qs @ qs', x))"
      by (intro "1.IH" [OF _ refl _ _ qs(1)]) auto
    then show ?thesis using False n qs(2) by (simp add: net_read.simps [of "a @ b"] Let_def split: prod.splits)
  qed
qed

lemma net_read_frame:
  assumes "sendable m"
  shows "net_read (frame_of m @ r) = (let (ps, x) = net_read r in (m # ps, x))"
proof -
  have "be_value (be_bytes 4 (length m)) = length m" using assms by (intro be_value_be_bytes) (simp add: sendable_def)
  moreover have "drop (4 + length m) (be_bytes 4 (length m) @ m @ r) = r" by simp
  ultimately show ?thesis using assms
    by (subst net_read.simps) (simp add: frame_of_def sendable_def kMaxFrameSize_def Let_def)
qed

lemma net_read_frames:
  "list_all sendable ms \<Longrightarrow> net_read (concat (map frame_of ms) @ r) = (let (ps, x) = net_read r in (ms @ ps, x))"
  by (induction ms) (simp_all add: net_read_frame split: prod.splits)

lemma net_read_bad: "net_read a = (ps, r, Some k) \<Longrightarrow> net_read (a @ b) = (ps, r @ b, Some k)"
proof (induction a arbitrary: ps r rule: net_read.induct)
  case (1 a)
  let ?n = "be_value (take 4 a)"
  have len: "\<not> length a < 4" using "1.prems" by (auto simp: net_read.simps [of a])
  show ?case
  proof (cases "?n = 0 \<or> ?n > kMaxFrameSize")
    case True
    then have "ps = []" "r = a" "k = ?n" using "1.prems" len by (auto simp: net_read.simps [of a] Let_def)
    then show ?thesis using True len by (simp add: net_read.simps [of "a @ b"] Let_def)
  next
    case False
    then have len': "\<not> length a < 4 + ?n" using "1.prems" len by (auto simp: net_read.simps [of a] Let_def split: if_splits)
    obtain qs where qs: "net_read (drop (4 + ?n) a) = (qs, r, Some k)" "ps = take ?n (drop 4 a) # qs"
      using "1.prems" False len len' by (auto simp: net_read.simps [of a] Let_def split: prod.splits)
    from False len len' have "net_read (drop (4 + ?n) a @ b) = (qs, r @ b, Some k)"
      by (intro "1.IH" [OF _ refl _ _ qs(1)]) auto
    then show ?thesis using False len len' qs(2) by (simp add: net_read.simps [of "a @ b"] Let_def)
  qed
qed

text \<open>Client and server read the same frames off the same bytes.\<close>

lemma net_read_is_read_stream: "read_stream bs = (fst (net_read bs), fst (snd (net_read bs)))"
proof (induction bs rule: net_read.induct)
  case (1 bs)
  then show ?case
    by (simp add: net_read.simps [of bs] read_stream.simps [of bs] kMaxFrameSize_def Let_def split: prod.splits)
qed

lemma net_read_nothing: "net_read a = ([], r, None) \<Longrightarrow> r = a"
  by (auto simp: net_read.simps [of a] Let_def split: if_splits prod.splits)

lemma receive_pieces:
  assumes "n_phase n = Online" "\<not> n_stopping n" "net_read (n_unread n @ concat parts) = (ps, r, None)"
    "fst (net_read (n_unread n)) = []" "snd (snd (net_read (n_unread n))) = None"
  shows "n_calls (fold (net_receive F parse) parts n) = n_calls n @ map Call_message (List.map_filter parse ps) \<and>
    n_unread (fold (net_receive F parse) parts n) = r"
  using assms
proof (induction parts arbitrary: n ps)
  case Nil
  then show ?case using net_read_nothing [of "n_unread n" r] by (auto simp: List.map_filter_def)
next
  case (Cons p parts)
  obtain qs u bad where first: "net_read (n_unread n @ p) = (qs, u, bad)" by (metis prod_cases3)
  have none: "bad = None"
    using net_read_bad [of "n_unread n @ p" qs u _ "concat parts"] first Cons.prems(3) by (cases bad) auto
  note app = net_read_append [OF first [unfolded none], of "concat parts"]
  obtain rs where rs: "net_read (u @ concat parts) = (rs, r, None)" "ps = qs @ rs"
    using app Cons.prems(3) by (auto split: prod.splits)
  have u: "fst (net_read u) = []" "snd (snd (net_read u)) = None"
    using net_read_append [OF first [unfolded none], of "[]"] first none by (auto split: prod.splits)
  let ?n = "net_receive F parse p n"
  have n: "?n = net_deliver parse qs (n\<lparr>n_unread := u\<rparr>)"
    using first none Cons.prems(1,2) by (simp add: net_receive_def Let_def)
  show ?case using Cons.IH [of ?n rs] Cons.prems(1,2) rs u by (simp add: n List.map_filter_def)
qed

lemma net_read_Nil: "net_read [] = ([], [], None)"
  by (simp add: net_read.simps)

datatype net_op = Op_send bytes | Op_post | Op_resume | Op_written

fun run_op :: "net_op \<Rightarrow> net_client \<Rightarrow> net_client" where
  "run_op (Op_send b) n = net_send b n"
| "run_op Op_post n = run_posted n"
| "run_op Op_resume n = loop_resumes n"
| "run_op Op_written n = frame_written n"

fun accepted :: "net_op list \<Rightarrow> bytes list" where
  "accepted [] = []"
| "accepted (Op_send b # ops) = (if length b > kMaxFrameSize then accepted ops else b # accepted ops)"
| "accepted (_ # ops) = accepted ops"

fun in_progress :: "write_state \<Rightarrow> bytes list" where
  "in_progress (Writing f) = [f]"
| "in_progress _ = []"

definition writing_ok :: "net_client \<Rightarrow> bool" where
  "writing_ok n \<longleftrightarrow> n_loop n \<noteq> Off \<and> \<not> n_stopping n \<and> (n_loop n = Waiting \<longrightarrow> n_queue n = [])"

definition pipeline :: "net_client \<Rightarrow> bytes list" where
  "pipeline n = n_written n @ in_progress (n_loop n) @ n_queue n @ n_posted n"

lemma run_op_pipeline:
  assumes "writing_ok n"
  shows "writing_ok (run_op op n) \<and> pipeline (run_op op n) = pipeline n @ map frame_of (accepted [op])"
  using assms
  by (cases op)
     (auto simp: writing_ok_def pipeline_def net_send_def run_posted_def loop_resumes_def frame_written_def drain_next_def
        loop_head_def frame_of_def split: list.split write_state.split)

lemma accepted_Cons: "accepted (op # ops) = accepted [op] @ accepted ops"
  by (cases op) auto

lemma run_ops_pipeline:
  "writing_ok n \<Longrightarrow> writing_ok (fold run_op ops n) \<and> pipeline (fold run_op ops n) = pipeline n @ map frame_of (accepted ops)"
proof (induction ops arbitrary: n)
  case (Cons op ops)
  then show ?case using run_op_pipeline [of n op] by (simp add: accepted_Cons [of op ops])
qed simp


definition demo_writing :: net_client where
  "demo_writing = write_loop_starts demo_online"


text \<open>A message whose post runs before the loop waits for the first time is written only with the next one.\<close>

lemma early_message_waits:
  assumes "n_phase n = Online" "n_loop n = Off" "\<not> n_stopping n" "n_posted n = []" "n_queue n = []" "length b \<le> kMaxFrameSize"
  shows "let m = write_loop_starts (run_posted (net_send b n))
    in n_loop m = Waiting \<and> n_queue m = [frame_of b] \<and> n_posted m = [] \<and> loop_resumes m = m \<and> frame_written m = m \<and> run_posted m = m"
  using assms by (simp add: net_send_def run_posted_def write_loop_starts_def loop_head_def loop_resumes_def frame_written_def
      Let_def frame_of_def)

end
