(* ===== verification/Client_Voice.thy ===== *)
theory Client_Voice
  imports Grotto_Text "HOL-Library.Word"
begin

text \<open>
  The parts of the voice engine that are plain data structures: the jitter buffer that puts the packets of a peer back
  in order (\<open>voice/jitter_buffer.cpp\<close>), the queue of samples (\<open>voice/pcm_sample_fifo.hpp\<close>), the gate that
  opens on speech (\<open>voice/voice_activity_gate.hpp\<close>), the names of the talk modes (\<open>voice/voice_mode.hpp\<close>) and the rule
  which of two peers calls (\<open>voice/voice_peer_role.hpp\<close>).  Samples are of any type with an addition.
\<close>

subsection \<open>Jitter buffer\<close>

record 'a jitter_buffer =
  jb_frames :: "(16 word \<times> 'a) list"
  jb_next :: "16 word"
  jb_primed :: bool
  jb_target :: int

definition kWindowSize :: nat where "kWindowSize = 16"

definition new_jitter_buffer :: "int \<Rightarrow> 'a jitter_buffer" where
  "new_jitter_buffer target = \<lparr>jb_frames = [], jb_next = 0, jb_primed = False, jb_target = target\<rparr>"

text \<open>The frames are a map in the order of the numbers.\<close>

fun frame_put :: "16 word \<Rightarrow> 'a \<Rightarrow> (16 word \<times> 'a) list \<Rightarrow> (16 word \<times> 'a) list" where
  "frame_put k v [] = [(k, v)]"
| "frame_put k v ((k', v') # r) =
     (if k < k' then (k, v) # (k', v') # r else if k = k' then (k, v) # r else (k', v') # frame_put k v r)"

definition jb_push :: "16 word \<Rightarrow> 'a \<Rightarrow> 'a jitter_buffer \<Rightarrow> 'a jitter_buffer" where
  "jb_push seq pcm b =
     (let diff = sint (seq - jb_next b)
      in if jb_primed b \<and> (diff < - int kWindowSize \<or> diff > int kWindowSize * 2) then b
         else
           let fs = frame_put seq pcm (jb_frames b);
               fs = drop (length fs - kWindowSize) fs
           in if \<not> jb_primed b \<and> int (length fs) \<ge> jb_target b
              then b\<lparr>jb_frames := fs, jb_primed := True, jb_next := fst (hd fs)\<rparr>
              else b\<lparr>jb_frames := fs\<rparr>)"

definition jb_pop :: "'a jitter_buffer \<Rightarrow> 'a option \<times> 'a jitter_buffer" where
  "jb_pop b =
     (if \<not> jb_primed b then (None, b)
      else (map_of (jb_frames b) (jb_next b),
            b\<lparr>jb_next := jb_next b + 1, jb_frames := filter (\<lambda>(k, v). k \<noteq> jb_next b) (jb_frames b)\<rparr>))"

definition jb_reset :: "'a jitter_buffer \<Rightarrow> 'a jitter_buffer" where
  "jb_reset b = b\<lparr>jb_frames := [], jb_primed := False, jb_next := 0\<rparr>"

definition resync_to_oldest :: "'a jitter_buffer \<Rightarrow> bool \<times> 'a jitter_buffer" where
  "resync_to_oldest b =
     (case jb_frames b of
        [] \<Rightarrow> (False, b\<lparr>jb_primed := False\<rparr>)
      | f # fs \<Rightarrow> (True, b\<lparr>jb_primed := True, jb_next := fst f\<rparr>))"

definition buffered_count :: "'a jitter_buffer \<Rightarrow> int" where
  "buffered_count b = int (length (jb_frames b))"

subsection \<open>Queue of samples\<close>

definition fifo_push :: "'a list \<Rightarrow> 'a list \<Rightarrow> 'a list" where
  "fifo_push pcm q = q @ pcm"

definition pop_exact :: "nat \<Rightarrow> 'a list \<Rightarrow> 'a list option \<times> 'a list" where
  "pop_exact n q = (if length q < n then (None, q) else (Some (take n q), drop n q))"

definition discard_front :: "nat \<Rightarrow> 'a list \<Rightarrow> nat \<times> 'a list" where
  "discard_front n q = (min n (length q), drop (min n (length q)) q)"

text \<open>The samples are added to the first ones of \<open>out\<close>.\<close>

definition mix_into :: "'a::plus list \<Rightarrow> 'a list \<Rightarrow> nat \<times> 'a list \<times> 'a list" where
  "mix_into out q =
     (let n = min (length out) (length q)
      in (n, map2 (+) (take n out) (take n q) @ drop n out, drop n q))"

subsection \<open>Gate\<close>

record voice_gate =
  vg_open :: bool
  vg_last :: int

definition kHangoverMs :: int where "kHangoverMs = 180"

text \<open>Whether the level reaches the threshold for opening and the lower one for closing comes from the caller's floats.\<close>

definition gate_update :: "bool \<Rightarrow> bool \<Rightarrow> int \<Rightarrow> voice_gate \<Rightarrow> (bool \<times> bool) \<times> voice_gate" where
  "gate_update reaches_open reaches_close now g =
     (let signal = (if vg_open g then reaches_close else reaches_open)
      in if signal then ((True, True), g\<lparr>vg_open := True, vg_last := now\<rparr>)
         else if vg_open g \<and> vg_last g > 0 \<and> now - vg_last g < kHangoverMs then ((True, False), g)
         else ((False, False), g\<lparr>vg_open := False\<rparr>))"

subsection \<open>Modes and roles\<close>

definition normalize_voice_mode :: "string \<Rightarrow> string" where
  "normalize_voice_mode s =
     (let v = lower_string s
      in if v = ''vox'' then ''vox''
         else if v \<in> {''hold'', ''push-to-talk'', ''push_to_talk'', ''push to talk''} then ''hold''
         else ''toggle'')"

definition next_voice_mode :: "string \<Rightarrow> string" where
  "next_voice_mode mode =
     (let m = normalize_voice_mode mode
      in if m = ''toggle'' then ''hold'' else if m = ''hold'' then ''vox'' else ''toggle'')"

fun str_less :: "string \<Rightarrow> string \<Rightarrow> bool" where
  "str_less s [] \<longleftrightarrow> False"
| "str_less [] (d # t) \<longleftrightarrow> True"
| "str_less (c # s) (d # t) \<longleftrightarrow> code c < code d \<or> c = d \<and> str_less s t"

definition should_offer_to_peer :: "string \<Rightarrow> string \<Rightarrow> bool" where
  "should_offer_to_peer me peer = str_less me peer"

lemma str_less_Nil: "str_less [] s \<longleftrightarrow> s \<noteq> []"
  by (cases s) simp_all

lemma exactly_one_offers: "a \<noteq> b \<Longrightarrow> should_offer_to_peer a b \<longleftrightarrow> \<not> should_offer_to_peer b a"
proof -
  have "a \<noteq> b \<Longrightarrow> str_less a b \<longleftrightarrow> \<not> str_less b a"
    by (induction a b rule: str_less.induct) (auto simp: str_less_Nil code_inject)
  then show "a \<noteq> b \<Longrightarrow> should_offer_to_peer a b \<longleftrightarrow> \<not> should_offer_to_peer b a" by (simp add: should_offer_to_peer_def)
qed

lemma next_voice_mode_cycle: "(next_voice_mode ^^ 3) m = normalize_voice_mode m"
proof -
  have "normalize_voice_mode m \<in> {''vox'', ''hold'', ''toggle''}" by (simp add: normalize_voice_mode_def Let_def)
  moreover have "next_voice_mode ''vox'' = ''toggle''" "next_voice_mode ''hold'' = ''vox''" "next_voice_mode ''toggle'' = ''hold''"
    by code_simp+
  ultimately show ?thesis by (auto simp: numeral_3_eq_3 next_voice_mode_def [of m])
qed

subsection \<open>Packets back in order\<close>

definition frame_list :: "(16 word \<Rightarrow> 'a) \<Rightarrow> 16 word set \<Rightarrow> (16 word \<times> 'a) list" where
  "frame_list f K = map (\<lambda>k. (k, f k)) (sorted_list_of_set K)"

lemma frame_put_insort: "k \<notin> set ks \<Longrightarrow> frame_put k (f k) (map (\<lambda>k. (k, f k)) ks) = map (\<lambda>k. (k, f k)) (insort k ks)"
  by (induction ks) auto

lemma frame_put_list: "finite K \<Longrightarrow> k \<notin> K \<Longrightarrow> frame_put k (f k) (frame_list f K) = frame_list f (insert k K)"
  by (simp add: frame_list_def frame_put_insort)

definition seq_no :: "nat \<Rightarrow> nat \<Rightarrow> 16 word" where
  "seq_no s i = of_nat (s + i)"

lemma seq_no_less: "s + j < 65536 \<Longrightarrow> i < j \<Longrightarrow> seq_no s i < seq_no s j"
  by (simp add: seq_no_def word_less_nat_alt unat_of_nat del: of_nat_add)

lemma seq_no_inject: "s + i < 65536 \<Longrightarrow> s + j < 65536 \<Longrightarrow> seq_no s i = seq_no s j \<longleftrightarrow> i = j"
  by (simp add: seq_no_def word_unat_eq_iff unat_of_nat del: of_nat_add)

lemma seq_list:
  assumes "s + n \<le> 65536"
  shows "sorted_list_of_set (seq_no s ` {..<n}) = map (seq_no s) [0..<n]"
proof (rule sorted_distinct_set_unique)
  show "sorted (map (seq_no s) [0..<n])"
    using assms by (auto simp: sorted_iff_nth_mono_less intro!: less_imp_le seq_no_less)
  show "distinct (map (seq_no s) [0..<n])"
    using assms by (auto simp: distinct_map inj_on_def seq_no_inject)
qed (auto simp: atLeast0LessThan)

lemma seq_no_diff: "sint (seq_no s i - seq_no s 0) = int i" if "i < 32768"
proof -
  have "seq_no s i - seq_no s 0 = (of_nat i :: 16 word)" by (simp add: seq_no_def)
  moreover have "sint (of_nat i :: 16 word) = int i" using that by (simp add: signed_of_nat signed_take_bit_int_eq_self)
  ultimately show ?thesis by simp
qed

lemma unat_seq_no: "s + i < 65536 \<Longrightarrow> unat (seq_no s i) = s + i"
  by (simp add: seq_no_def unat_of_nat del: of_nat_add)

definition filling :: "nat \<Rightarrow> (nat \<Rightarrow> 'a) \<Rightarrow> nat \<Rightarrow> nat list \<Rightarrow> 'a jitter_buffer \<Rightarrow> bool" where
  "filling s f target ks b \<longleftrightarrow> jb_target b = int target \<and>
     jb_frames b = frame_list (\<lambda>k. f (unat k - s)) (seq_no s ` set ks) \<and>
     (jb_primed b \<longleftrightarrow> target \<le> length ks) \<and> (jb_primed b \<longrightarrow> jb_next b = seq_no s 0)"

lemma filling_step:
  assumes "filling s f target ks b" "distinct (ks @ [i])" "set (ks @ [i]) \<subseteq> {..<n}" "n \<le> kWindowSize" "s + n \<le> 65536"
    and "target \<le> Suc (length ks) \<Longrightarrow> 0 \<in> set (ks @ [i])"
  shows "filling s f target (ks @ [i]) (jb_push (seq_no s i) (f i) b)"
proof -
  let ?K = "seq_no s ` set ks" and ?g = "\<lambda>k. f (unat k - s)"
  have i: "s + i < 65536" "i < 16" using assms(3-5) by (auto simp: kWindowSize_def)
  have less: "s + j < 65536" if "j \<in> set ks" for j using assms(3,5) that by auto
  have new: "seq_no s i \<notin> ?K" using assms(2) i less by (auto simp: seq_no_inject)
  have "frame_put (seq_no s i) (f i) (jb_frames b) = frame_put (seq_no s i) (?g (seq_no s i)) (frame_list ?g ?K)"
    using assms(1) i by (simp add: filling_def unat_seq_no)
  also have "\<dots> = frame_list ?g (insert (seq_no s i) ?K)" using new by (intro frame_put_list) auto
  finally have put: "frame_put (seq_no s i) (f i) (jb_frames b) = frame_list ?g (seq_no s ` set (ks @ [i]))" by simp
  have "s + j < 65536" if "j \<in> set (ks @ [i])" for j using subsetD [OF assms(3) that] assms(5) by simp
  then have inj: "inj_on (seq_no s) (set (ks @ [i]))" by (intro inj_onI) (simp only: seq_no_inject)
  have card: "length (frame_list ?g (seq_no s ` set (ks @ [i]))) = Suc (length ks)"
    by (simp only: frame_list_def length_map sorted_list_of_set.length_sorted_key_list_of_set card_image [OF inj]
        distinct_card [OF assms(2)] length_append_singleton)
  have "Suc (length ks) \<le> n"
    using card_mono [OF _ assms(3)] distinct_card [OF assms(2)] by simp
  then have small: "Suc (length ks) - kWindowSize = 0" using assms(4) by simp
  have kept: "\<not> (int i < - int kWindowSize \<or> int i > int kWindowSize * 2)" using i(2) by (simp add: kWindowSize_def)
  have first: "fst (hd (frame_list ?g (seq_no s ` set (ks @ [i])))) = seq_no s 0" if "target \<le> Suc (length ks)"
  proof -
    let ?S = "seq_no s ` set (ks @ [i])"
    have "Min ?S = seq_no s 0"
    proof (rule Min_eqI)
      show "seq_no s 0 \<in> ?S" using assms(6) [OF that] by blast
      fix y
      assume "y \<in> ?S"
      then obtain j where "j \<in> set (ks @ [i])" "y = seq_no s j" by auto
      moreover from this have "s + j < 65536" using subsetD [OF assms(3), of j] assms(5) by simp
      ultimately show "seq_no s 0 \<le> y" using seq_no_less [of s j 0] by (cases "j = 0") (auto intro: less_imp_le)
    qed simp
    moreover have "sorted_list_of_set ?S = Min ?S # sorted_list_of_set (?S - {Min ?S})"
      by (rule sorted_list_of_set_nonempty) auto
    ultimately show ?thesis by (simp add: frame_list_def)
  qed
  show ?thesis
  proof (cases "jb_primed b")
    case True
    then have "jb_next b = seq_no s 0" "target \<le> length ks" using assms(1) by (auto simp: filling_def)
    then show ?thesis using True assms(1) kept i(2) put card small
      by (simp add: filling_def jb_push_def seq_no_diff Let_def)
  next
    case False
    then have "\<not> target \<le> length ks" using assms(1) by (simp add: filling_def)
    then show ?thesis using False assms(1) put card small first
      by (auto simp: filling_def jb_push_def Let_def)
  qed
qed

lemma filling_run:
  assumes "distinct ks" "set ks \<subseteq> {..<n}" "n \<le> kWindowSize" "s + n \<le> 65536" "0 < target" "0 \<in> set (take target ks)"
  shows "filling s f target (take m ks) (fold (\<lambda>i. jb_push (seq_no s i) (f i)) (take m ks) (new_jitter_buffer (int target)))"
proof (induction m)
  case 0
  then show ?case using assms(5) by (simp add: filling_def new_jitter_buffer_def frame_list_def)
next
  case (Suc m)
  show ?case
  proof (cases "m < length ks")
    case True
    then have take: "take (Suc m) ks = take m ks @ [ks ! m]" by (rule take_Suc_conv_app_nth)
    have "0 \<in> set (take (Suc m) ks)" if "target \<le> Suc m"
      using assms(6) set_take_subset_set_take [OF that, of ks] by blast
    moreover have "distinct (take (Suc m) ks)" "set (take (Suc m) ks) \<subseteq> {..<n}"
      using assms(1,2) set_take_subset [of "Suc m" ks] by auto
    ultimately have "filling s f target (take m ks @ [ks ! m])
        (jb_push (seq_no s (ks ! m)) (f (ks ! m)) (fold (\<lambda>i. jb_push (seq_no s i) (f i)) (take m ks) (new_jitter_buffer (int target))))"
      using True unfolding take by (intro filling_step [OF Suc _ _ assms(3,4)]) simp_all
    then show ?thesis by (simp add: take)
  next
    case False
    then show ?thesis using Suc by simp
  qed
qed

fun jb_pops :: "nat \<Rightarrow> 'a jitter_buffer \<Rightarrow> 'a option list \<times> 'a jitter_buffer" where
  "jb_pops 0 b = ([], b)"
| "jb_pops (Suc m) b = (let (r, b) = jb_pop b; (rs, b) = jb_pops m b in (r # rs, b))"

lemma pop_in_order:
  assumes "jb_primed b" "jb_next b = seq_no s j" "jb_frames b = map (\<lambda>i. (seq_no s i, f i)) [j..<j + m]" "s + j + m \<le> 65536"
  shows "fst (jb_pops m b) = map (Some \<circ> f) [j..<j + m]"
  using assms
proof (induction m arbitrary: b j)
  case (Suc m)
  have up: "[j..<j + Suc m] = j # [Suc j..<Suc j + m]" by (simp add: upt_conv_Cons)
  have "\<forall>i \<in> set [Suc j..<Suc j + m]. seq_no s i \<noteq> seq_no s j"
    using Suc.prems(4) by (auto simp: seq_no_inject)
  then have "filter (\<lambda>(k, v). k \<noteq> seq_no s j) (map (\<lambda>i. (seq_no s i, f i)) [Suc j..<Suc j + m]) =
      map (\<lambda>i. (seq_no s i, f i)) [Suc j..<Suc j + m]" by (auto simp: filter_map comp_def intro!: filter_True)
  moreover have "jb_frames b = (seq_no s j, f j) # map (\<lambda>i. (seq_no s i, f i)) [Suc j..<Suc j + m]"
    using Suc.prems(3) by (simp only: up list.map)
  moreover have "seq_no s j + 1 = seq_no s (Suc j)" by (simp add: seq_no_def)
  ultimately have pop: "jb_pop b = (Some (f j), b\<lparr>jb_next := seq_no s (Suc j), jb_frames := map (\<lambda>i. (seq_no s i, f i)) [Suc j..<Suc j + m]\<rparr>)"
    using Suc.prems(1,2) by (simp add: jb_pop_def del: upt_Suc)
  have "fst (jb_pops m (snd (jb_pop b))) = map (Some \<circ> f) [Suc j..<Suc j + m]"
    using Suc.prems(1,4) by (intro Suc.IH) (simp_all add: pop)
  then show ?case unfolding up by (simp add: pop split_def Let_def del: upt_Suc)
qed simp

text \<open>
  C27: the jitter buffer puts packets back in order within a stretch.  If the packets of at most sixteen
  consecutive numbers, which do not pass 65535, all arrive in any order before the first is played, the first of the
  stretch among those that fill the buffer to its target, then the buffer plays all of them in the order they were
  sent.  Across the wrap of the numbers it does not, see \<open>wrap_loses_order\<close>.
\<close>

theorem packets_back_in_order:
  assumes "distinct ks" and "set ks = {..<n}" and "n \<le> kWindowSize" and "s + n \<le> 65536"
    and "0 < target" and "target \<le> n" and "0 \<in> set (take target ks)"
  shows "fst (jb_pops n (fold (\<lambda>i. jb_push (seq_no s i) (f i)) ks (new_jitter_buffer (int target)))) = map (Some \<circ> f) [0..<n]"
proof -
  let ?b = "fold (\<lambda>i. jb_push (seq_no s i) (f i)) ks (new_jitter_buffer (int target))"
  have fill: "filling s f target ks ?b"
    using filling_run [OF assms(1) _ assms(3,4,5,7), of f "length ks"] assms(2) by simp
  have "length ks = n" using distinct_card [OF assms(1)] assms(2) by simp
  then have primed: "jb_primed ?b" "jb_next ?b = seq_no s 0" using fill assms(6) by (auto simp: filling_def)
  have "jb_frames ?b = map (\<lambda>i. (seq_no s i, f i)) [0..<0 + n]"
    using fill assms(2,4) by (simp add: filling_def frame_list_def seq_list [OF assms(4)] unat_seq_no)
  from pop_in_order [OF primed this] show ?thesis using assms(4) by simp
qed

lemma packets_back_in_order_witness:
  "fst (jb_pops 4 (fold (\<lambda>i. jb_push (seq_no 100 i) (10 * i)) [2, 0, 3, 1] (new_jitter_buffer 2))) = [Some 0, Some 10, Some 20, Some (30 :: nat)]"
proof -
  have "set [2, 0, 3, 1] = {..<4 :: nat}" by auto
  from packets_back_in_order [of "[2, 0, 3, 1]" 4 100 2 "\<lambda>i. 10 * i", OF _ this]
  show ?thesis by (simp add: kWindowSize_def upt_rec)
qed

text \<open>Where the numbers start again, the smaller numbers count as the older frames: the packet before is lost.\<close>

lemma wrap_loses_order:
  "fst (jb_pops 2 (jb_push 0 ''b'' (jb_push 65535 ''a'' (new_jitter_buffer 2)))) = [Some ''b'', None]"
  by code_simp

text \<open>The gate closes by itself 180 ms after the last signal.\<close>

lemma gate_closes:
  "vg_open g \<Longrightarrow> now - vg_last g \<ge> kHangoverMs \<Longrightarrow> fst (fst (gate_update a False now g)) = False"
  by (simp add: gate_update_def)

lemma gate_opens_at_once: "reaches_open \<Longrightarrow> reaches_close \<Longrightarrow> fst (gate_update reaches_open reaches_close now g) = (True, True)"
  by (simp add: gate_update_def Let_def)

lemma fifo_keeps_order: "fst (pop_exact n (fifo_push b (fifo_push a []))) = (if length a + length b < n then None else Some (take n (a @ b)))"
  by (simp add: fifo_push_def pop_exact_def)

end
