(* ===== verification/Client_Store.thy ===== *)
theory Client_Store
  imports Grotto_Prelude
begin

text \<open>
  The local database of the terminal client, \<open>db/local_store.cpp\<close>, and the store callbacks that libsignal
  is given, \<open>crypto/signal_store.cpp\<close>.  A table with a key is a partial function, sessions are kept in the
  order of the index that answers queries, messages in the order of their row ids.  SQLite's statements
  are taken to succeed, as the code lets their exceptions pass to the callers, with two exceptions:
  \<open>load_pre_key_counter\<close> and \<open>load_registration_id\<close> catch every failure of their query and answer with a
  default, so these take as their first argument whether the query returns.
\<close>

record identity_row =
  id_user_id :: string
  id_pub :: bytes
  id_priv_enc :: bytes
  id_salt :: bytes
  id_created_at :: int

record local_spk = lspk_id :: u32 lspk_pub :: bytes lspk_priv :: bytes lspk_signature :: bytes

record preview_row = pv_title :: string pv_description :: string pv_fetched_at :: int

record message_row =
  mr_id :: nat
  mr_channel_id :: string
  mr_sender_id :: string
  mr_content :: string
  mr_timestamp_ms :: int
  mr_type :: int

record search_filters =
  sf_channel_id :: "string option"
  sf_sender_id :: "string option"
  sf_after_ms :: "int option"
  sf_before_ms :: "int option"
  sf_limit :: int

record local_store =
  t_identity :: "string \<Rightarrow> identity_row option"
  t_sessions :: "((string \<times> int) \<times> bytes) list"
  t_pre_keys :: "u32 \<Rightarrow> bytes option"
  t_metadata :: "string \<Rightarrow> int option"
  t_signed_pre_keys :: "u32 \<Rightarrow> bytes option"
  t_local_spk :: "local_spk option"
  t_peers :: "string \<Rightarrow> (bytes \<times> string) option"
  t_sender_keys :: "string \<times> string \<times> int \<Rightarrow> bytes option"
  t_pins :: "string \<Rightarrow> (string \<times> int) option"
  t_ui_state :: "string \<Rightarrow> string option"
  t_previews :: "string \<Rightarrow> preview_row option"
  t_messages :: "message_row list"
  t_next_message_id :: nat

definition new_local_store :: local_store where
  "new_local_store = \<lparr>t_identity = (\<lambda>_. None), t_sessions = [], t_pre_keys = (\<lambda>_. None), t_metadata = (\<lambda>_. None),
     t_signed_pre_keys = (\<lambda>_. None), t_local_spk = None, t_peers = (\<lambda>_. None), t_sender_keys = (\<lambda>_. None),
     t_pins = (\<lambda>_. None), t_ui_state = (\<lambda>_. None), t_previews = (\<lambda>_. None), t_messages = [], t_next_message_id = 1\<rparr>"

subsection \<open>Tables with a key\<close>

definition has_identity :: "string \<Rightarrow> local_store \<Rightarrow> bool" where
  "has_identity u d \<longleftrightarrow> t_identity d u \<noteq> None"

definition save_identity :: "identity_row \<Rightarrow> local_store \<Rightarrow> local_store" where
  "save_identity row d = d\<lparr>t_identity := (t_identity d)(id_user_id row \<mapsto> row)\<rparr>"

definition load_identity :: "string \<Rightarrow> local_store \<Rightarrow> identity_row option" where
  "load_identity u d = t_identity d u"

definition load_session :: "string \<Rightarrow> int \<Rightarrow> local_store \<Rightarrow> bytes option" where
  "load_session name dev d = map_of (t_sessions d) (name, dev)"

definition save_session :: "string \<Rightarrow> int \<Rightarrow> bytes \<Rightarrow> local_store \<Rightarrow> local_store" where
  "save_session name dev b d = d\<lparr>t_sessions := mput (name, dev) b (t_sessions d)\<rparr>"

definition delete_session :: "string \<Rightarrow> int \<Rightarrow> local_store \<Rightarrow> local_store" where
  "delete_session name dev d = d\<lparr>t_sessions := mdel (name, dev) (t_sessions d)\<rparr>"

definition delete_all_sessions :: "local_store \<Rightarrow> local_store" where
  "delete_all_sessions d = d\<lparr>t_sessions := []\<rparr>"

definition get_sub_device_sessions :: "string \<Rightarrow> local_store \<Rightarrow> int list" where
  "get_sub_device_sessions name d = sort (map (snd \<circ> fst) (filter (\<lambda>((n, dev), b). n = name) (t_sessions d)))"

definition contains_session :: "string \<Rightarrow> int \<Rightarrow> local_store \<Rightarrow> bool" where
  "contains_session name dev d \<longleftrightarrow> load_session name dev d \<noteq> None"

definition load_pre_key :: "u32 \<Rightarrow> local_store \<Rightarrow> bytes option" where
  "load_pre_key i d = t_pre_keys d i"

definition store_pre_key :: "u32 \<Rightarrow> bytes \<Rightarrow> local_store \<Rightarrow> local_store" where
  "store_pre_key i b d = d\<lparr>t_pre_keys := (t_pre_keys d)(i \<mapsto> b)\<rparr>"

definition remove_pre_key :: "u32 \<Rightarrow> local_store \<Rightarrow> local_store" where
  "remove_pre_key i d = d\<lparr>t_pre_keys := (t_pre_keys d)(i := None)\<rparr>"

definition contains_pre_key :: "u32 \<Rightarrow> local_store \<Rightarrow> bool" where
  "contains_pre_key i d \<longleftrightarrow> load_pre_key i d \<noteq> None"

definition load_pre_key_counter :: "bool \<Rightarrow> local_store \<Rightarrow> u32" where
  "load_pre_key_counter returns d =
     (if \<not> returns then 1
      else case t_metadata d ''pre_key_counter'' of Some v \<Rightarrow> of_int v | None \<Rightarrow> 1)"

definition store_pre_key_counter :: "u32 \<Rightarrow> local_store \<Rightarrow> local_store" where
  "store_pre_key_counter n d = d\<lparr>t_metadata := (t_metadata d)(''pre_key_counter'' \<mapsto> uint n)\<rparr>"

definition load_registration_id :: "bool \<Rightarrow> local_store \<Rightarrow> u32" where
  "load_registration_id returns d =
     (if \<not> returns then 0
      else case t_metadata d ''registration_id'' of Some v \<Rightarrow> if v > 0 then of_int v else 0 | None \<Rightarrow> 0)"

definition store_registration_id :: "u32 \<Rightarrow> local_store \<Rightarrow> local_store" where
  "store_registration_id n d = d\<lparr>t_metadata := (t_metadata d)(''registration_id'' \<mapsto> uint n)\<rparr>"

definition load_signed_pre_key :: "u32 \<Rightarrow> local_store \<Rightarrow> bytes option" where
  "load_signed_pre_key i d = t_signed_pre_keys d i"

definition store_signed_pre_key :: "u32 \<Rightarrow> bytes \<Rightarrow> local_store \<Rightarrow> local_store" where
  "store_signed_pre_key i b d = d\<lparr>t_signed_pre_keys := (t_signed_pre_keys d)(i \<mapsto> b)\<rparr>"

definition remove_signed_pre_key :: "u32 \<Rightarrow> local_store \<Rightarrow> local_store" where
  "remove_signed_pre_key i d = d\<lparr>t_signed_pre_keys := (t_signed_pre_keys d)(i := None)\<rparr>"

definition contains_signed_pre_key :: "u32 \<Rightarrow> local_store \<Rightarrow> bool" where
  "contains_signed_pre_key i d \<longleftrightarrow> load_signed_pre_key i d \<noteq> None"

definition load_local_spk :: "local_store \<Rightarrow> local_spk option" where
  "load_local_spk d = t_local_spk d"

definition store_local_spk :: "local_spk \<Rightarrow> local_store \<Rightarrow> local_store" where
  "store_local_spk k d = d\<lparr>t_local_spk := Some k\<rparr>"

definition clear_local_spk :: "local_store \<Rightarrow> local_store" where
  "clear_local_spk d = d\<lparr>t_local_spk := None\<rparr>"

definition load_peer_identity :: "string \<Rightarrow> local_store \<Rightarrow> bytes option" where
  "load_peer_identity name d = map_option fst (t_peers d name)"

definition save_peer_identity :: "string \<Rightarrow> bytes \<Rightarrow> string \<Rightarrow> local_store \<Rightarrow> local_store" where
  "save_peer_identity name pub trust d = d\<lparr>t_peers := (t_peers d)(name \<mapsto> (pub, trust))\<rparr>"

definition delete_peer_identity :: "string \<Rightarrow> local_store \<Rightarrow> local_store" where
  "delete_peer_identity name d = d\<lparr>t_peers := (t_peers d)(name := None)\<rparr>"

definition get_trust_status :: "string \<Rightarrow> local_store \<Rightarrow> string" where
  "get_trust_status name d = (case t_peers d name of None \<Rightarrow> ''unknown'' | Some (pub, trust) \<Rightarrow> trust)"

definition load_sender_key :: "string \<Rightarrow> string \<Rightarrow> int \<Rightarrow> local_store \<Rightarrow> bytes option" where
  "load_sender_key gid sender dev d = t_sender_keys d (gid, sender, dev)"

definition store_sender_key :: "string \<Rightarrow> string \<Rightarrow> int \<Rightarrow> bytes \<Rightarrow> local_store \<Rightarrow> local_store" where
  "store_sender_key gid sender dev b d = d\<lparr>t_sender_keys := (t_sender_keys d)((gid, sender, dev) \<mapsto> b)\<rparr>"

definition load_cert_pin :: "string \<Rightarrow> local_store \<Rightarrow> string option" where
  "load_cert_pin host d = map_option fst (t_pins d host)"

definition save_cert_pin :: "int \<Rightarrow> string \<Rightarrow> string \<Rightarrow> local_store \<Rightarrow> local_store" where
  "save_cert_pin now host fp d = d\<lparr>t_pins := (t_pins d)(host \<mapsto> (fp, now))\<rparr>"

definition get_ui_state :: "string \<Rightarrow> local_store \<Rightarrow> string option" where
  "get_ui_state key d = t_ui_state d key"

definition set_ui_state :: "string \<Rightarrow> string \<Rightarrow> local_store \<Rightarrow> local_store" where
  "set_ui_state key v d = d\<lparr>t_ui_state := (t_ui_state d)(key \<mapsto> v)\<rparr>"

definition get_cached_preview :: "string \<Rightarrow> local_store \<Rightarrow> preview_row option" where
  "get_cached_preview url d = t_previews d url"

definition cache_preview :: "int \<Rightarrow> string \<Rightarrow> string \<Rightarrow> string \<Rightarrow> local_store \<Rightarrow> local_store" where
  "cache_preview now url title desc d =
     d\<lparr>t_previews := (t_previews d)(url \<mapsto> \<lparr>pv_title = title, pv_description = desc, pv_fetched_at = now\<rparr>)\<rparr>"

subsection \<open>Messages\<close>

definition save_message :: "message_row \<Rightarrow> local_store \<Rightarrow> local_store" where
  "save_message m d =
     d\<lparr>t_messages := t_messages d @ [m\<lparr>mr_id := t_next_message_id d\<rparr>], t_next_message_id := t_next_message_id d + 1\<rparr>"

text \<open>
  The full text index decides which contents match a query; rows with equal time stamps come in the order
  of the index, here that of the row ids.  A negative limit is none.
\<close>

definition passes_filters :: "search_filters \<Rightarrow> message_row \<Rightarrow> bool" where
  "passes_filters f m \<longleftrightarrow>
     (case sf_channel_id f of None \<Rightarrow> True | Some c \<Rightarrow> mr_channel_id m = c) \<and>
     (case sf_sender_id f of None \<Rightarrow> True | Some u \<Rightarrow> mr_sender_id m = u) \<and>
     (case sf_after_ms f of None \<Rightarrow> True | Some a \<Rightarrow> mr_timestamp_ms m > a) \<and>
     (case sf_before_ms f of None \<Rightarrow> True | Some b \<Rightarrow> mr_timestamp_ms m < b)"

definition search_messages ::
  "(string \<Rightarrow> string \<Rightarrow> bool) \<Rightarrow> string \<Rightarrow> search_filters \<Rightarrow> local_store \<Rightarrow> message_row list" where
  "search_messages matches query f d =
     (let rows = sort_key (\<lambda>m. - mr_timestamp_ms m)
                   (filter (\<lambda>m. matches query (mr_content m) \<and> passes_filters f m) (t_messages d))
      in if sf_limit f < 0 then rows else take (nat (sf_limit f)) rows)"

subsection \<open>Identity callbacks of libsignal\<close>

text \<open>Keys are stored without the type byte that libsignal puts in front of them.\<close>

definition normalize_identity_key :: "bytes \<Rightarrow> bytes" where
  "normalize_identity_key b = (if length b = 33 \<and> hd b = 0x05 then tl b else b)"

definition id_save_identity :: "string \<Rightarrow> bytes \<Rightarrow> local_store \<Rightarrow> local_store" where
  "id_save_identity name key d = save_peer_identity name (normalize_identity_key key) ''unverified'' d"

definition id_is_trusted :: "string \<Rightarrow> bytes \<Rightarrow> local_store \<Rightarrow> bool \<times> local_store" where
  "id_is_trusted name key d =
     (let incoming = normalize_identity_key key
      in case load_peer_identity name d of
           None \<Rightarrow> (True, save_peer_identity name incoming ''unverified'' d)
         | Some stored \<Rightarrow> if length stored \<noteq> length incoming then (False, d) else (stored = incoming, d))"

text \<open>\<open>session_delete_all\<close>: the sessions of one name, device by device.\<close>

definition session_delete_all :: "string \<Rightarrow> local_store \<Rightarrow> local_store" where
  "session_delete_all name d = fold (\<lambda>dev d. delete_session name dev d) (get_sub_device_sessions name d) d"

lemmas store_defs =
  has_identity_def save_identity_def load_identity_def load_session_def save_session_def delete_session_def
  delete_all_sessions_def contains_session_def load_pre_key_def store_pre_key_def remove_pre_key_def
  contains_pre_key_def load_pre_key_counter_def store_pre_key_counter_def load_registration_id_def
  store_registration_id_def load_signed_pre_key_def store_signed_pre_key_def remove_signed_pre_key_def
  contains_signed_pre_key_def load_local_spk_def store_local_spk_def clear_local_spk_def load_peer_identity_def
  save_peer_identity_def delete_peer_identity_def get_trust_status_def load_sender_key_def store_sender_key_def

subsection \<open>Trust on first use\<close>

lemma normalize_prefixed: "length k = 32 \<Longrightarrow> normalize_identity_key (0x05 # k) = k"
  by (simp add: normalize_identity_key_def)

lemma normalize_raw: "length k = 32 \<Longrightarrow> normalize_identity_key k = k"
  by (simp add: normalize_identity_key_def)

text \<open>A counter and an id written are read back; a registration id of zero counts as absent.\<close>

lemma counters_roundtrip:
  "load_pre_key_counter True (store_pre_key_counter n d) = n"
  "load_registration_id True (store_registration_id m d) = m"
proof -
  have "uint m > 0 \<or> uint m = 0" using uint_ge_0 [of m] by linarith
  then have "uint m > 0 \<or> m = 0" by (simp add: uint_0_iff)
  then show "load_registration_id True (store_registration_id m d) = m" by (auto simp: store_defs)
qed (simp add: store_defs)

text \<open>
  What happens to the identities on record: libsignal asks whether a key is trusted and saves the key of a session it
  has built; the engine and the reset commands delete an identity; \<open>/trust\<close> marks the one on record as verified.
\<close>

datatype identity_op =
  Ask_trusted string bytes | Save_identity string bytes | Delete_identity string | Mark_verified string

fun identity_do :: "identity_op \<Rightarrow> local_store \<Rightarrow> bool \<times> local_store" where
  "identity_do (Ask_trusted n k) d = id_is_trusted n k d"
| "identity_do (Save_identity n k) d = (True, id_save_identity n k d)"
| "identity_do (Delete_identity n) d = (True, delete_peer_identity n d)"
| "identity_do (Mark_verified n) d =
     (True, case load_peer_identity n d of None \<Rightarrow> d | Some k \<Rightarrow> save_peer_identity n k ''verified'' d)"

fun run_ops :: "('o \<Rightarrow> 's \<Rightarrow> 'a \<times> 's) \<Rightarrow> 'o list \<Rightarrow> 's \<Rightarrow> 'a list \<times> 's" where
  "run_ops f [] s = ([], s)"
| "run_ops f (x # xs) s = (let (a, s) = f x s; (rest, s) = run_ops f xs s in (a # rest, s))"

text \<open>
  Trust on first use as it is meant: each peer has a pin or none; a question pins the key when there is none, and is
  otherwise answered by comparison, without the type byte.
\<close>

fun pin_do :: "identity_op \<Rightarrow> (string \<Rightarrow> bytes option) \<Rightarrow> bool \<times> (string \<Rightarrow> bytes option)" where
  "pin_do (Ask_trusted n k) m =
     (case m n of None \<Rightarrow> (True, m(n \<mapsto> normalize_identity_key k)) | Some k' \<Rightarrow> (normalize_identity_key k = k', m))"
| "pin_do (Save_identity n k) m = (True, m(n \<mapsto> normalize_identity_key k))"
| "pin_do (Delete_identity n) m = (True, m(n := None))"
| "pin_do (Mark_verified n) m = (True, m)"

definition pins_of :: "local_store \<Rightarrow> string \<Rightarrow> bytes option" where
  "pins_of d n = load_peer_identity n d"

lemma identity_do_refines:
  "fst (identity_do op d) = fst (pin_do op (pins_of d)) \<and> pins_of (snd (identity_do op d)) = snd (pin_do op (pins_of d))"
  by (cases op)
     (auto simp: pins_of_def id_is_trusted_def id_save_identity_def store_defs Let_def fun_eq_iff split: option.split)

lemma run_ops_simulation:
  assumes "\<And>x s. fst (f x s) = fst (g x (h s)) \<and> h (snd (f x s)) = snd (g x (h s))"
  shows "fst (run_ops f xs s) = fst (run_ops g xs (h s)) \<and> h (snd (run_ops f xs s)) = snd (run_ops g xs (h s))"
proof (induction xs arbitrary: s)
  case (Cons x xs)
  then show ?case using assms [of x s] Cons.IH [of "snd (f x s)"] by (simp add: split_def Let_def)
qed simp

text \<open>As long as the identity of a peer is neither saved again nor deleted, its pin decides.\<close>

fun leaves_pin :: "string \<Rightarrow> identity_op \<Rightarrow> bool" where
  "leaves_pin n (Save_identity m k) \<longleftrightarrow> m \<noteq> n"
| "leaves_pin n (Delete_identity m) \<longleftrightarrow> m \<noteq> n"
| "leaves_pin n _ \<longleftrightarrow> True"

fun asks :: "string \<Rightarrow> identity_op \<Rightarrow> bytes option" where
  "asks n (Ask_trusted m k) = (if m = n then Some k else None)"
| "asks n _ = None"

lemma pinned_run:
  assumes "list_all (leaves_pin n) ops" and "m n = Some k"
  shows "snd (run_ops pin_do ops m) n = Some k \<and>
    list_all2 (\<lambda>op a. \<forall>k'. asks n op = Some k' \<longrightarrow> a = (normalize_identity_key k' = k)) ops (fst (run_ops pin_do ops m))"
  using assms
proof (induction ops arbitrary: m)
  case (Cons op ops)
  have "snd (pin_do op m) n = Some k" using Cons.prems by (cases op) (auto split: option.split)
  moreover have "asks n op = Some k' \<Longrightarrow> fst (pin_do op m) = (normalize_identity_key k' = k)" for k'
    using Cons.prems(2) by (cases op) (auto split: if_splits)
  ultimately show ?case using Cons.IH [of "snd (pin_do op m)"] Cons.prems(1) by (simp add: split_def Let_def)
qed simp

text \<open>
  C34: trust on first use.  Over any run of questions, saves, deletions and verifications the answers about identity
  keys, and what is on record, are those of the pins.  And while the identity of a peer who is on record is neither
  saved again nor deleted, every key is accepted exactly when it is the one on record, with or without its type byte.
  A deletion, which the engine makes itself when a bundle has another identity (\<open>establish_session\<close>), ends that.
\<close>

theorem identities_follow_pins:
  assumes "list_all (leaves_pin n) later" and "load_peer_identity n (snd (run_ops identity_do ops d)) = Some k"
  shows "fst (run_ops identity_do ops d) = fst (run_ops pin_do ops (pins_of d)) \<and>
    pins_of (snd (run_ops identity_do ops d)) = snd (run_ops pin_do ops (pins_of d)) \<and>
    load_peer_identity n (snd (run_ops identity_do later (snd (run_ops identity_do ops d)))) = Some k \<and>
    list_all2 (\<lambda>op a. \<forall>k'. asks n op = Some k' \<longrightarrow> a = (normalize_identity_key k' = k)) later
      (fst (run_ops identity_do later (snd (run_ops identity_do ops d))))"
proof -
  let ?d = "snd (run_ops identity_do ops d)"
  note sim = run_ops_simulation [of identity_do pin_do pins_of, OF identity_do_refines]
  have "pins_of ?d n = Some k" using assms(2) by (simp add: pins_of_def)
  from pinned_run [where m = "pins_of ?d", OF assms(1) this] show ?thesis
    using sim [of ops d] sim [of later ?d] by (metis pins_of_def)
qed

theorem identities_follow_pins_witness:
  "fst (run_ops identity_do [Ask_trusted ''bob'' (replicate 32 2), Mark_verified ''bob'', Ask_trusted ''bob'' (5 # replicate 32 1)]
     (snd (run_ops identity_do [Ask_trusted ''bob'' (replicate 32 1)] new_local_store))) = [False, True, True]"
proof -
  let ?ops = "[Ask_trusted ''bob'' (replicate 32 1)]"
  let ?later = "[Ask_trusted ''bob'' (replicate 32 2), Mark_verified ''bob'', Ask_trusted ''bob'' (5 # replicate 32 1)]"
  have keep: "list_all (leaves_pin ''bob'') ?later" by simp
  have pin: "load_peer_identity ''bob'' (snd (run_ops identity_do ?ops new_local_store)) = Some (replicate 32 1)"
    by (simp add: id_is_trusted_def load_peer_identity_def save_peer_identity_def new_local_store_def normalize_identity_key_def)
  obtain a b c where abc: "fst (run_ops identity_do ?later (snd (run_ops identity_do ?ops new_local_store))) = [a, b, c]" "b"
    by (simp add: split_def Let_def)
  from identities_follow_pins [OF keep pin] abc show ?thesis by (simp add: normalize_identity_key_def)
qed

text \<open>A deleted or saved identity is replaced: another key is then accepted.\<close>

lemma deleted_identity_is_replaced:
  "fst (id_is_trusted n k (delete_peer_identity n d))"
  "fst (id_is_trusted n k (id_save_identity n k d))"
  by (simp_all add: id_is_trusted_def id_save_identity_def store_defs Let_def)

text \<open>Saving an identity again, as libsignal does with every message of a new session, loses the verification.\<close>

lemma save_loses_verification:
  "get_trust_status name (id_save_identity name k (save_peer_identity name (normalize_identity_key k) ''verified'' d))
     = ''unverified''"
  by (simp add: id_save_identity_def store_defs)

text \<open>Deleting the sessions of one name leaves the others.\<close>

lemma session_delete_all_spec:
  "load_session n dev (session_delete_all name d) = (if n = name then None else load_session n dev d)"
proof -
  have fold: "load_session n dev (fold (\<lambda>dev d. delete_session name dev d) devs d) =
      (if n = name \<and> dev \<in> set devs then None else load_session n dev d)" for devs d
    by (induction devs arbitrary: d) (auto simp: store_defs)
  have "load_session name dev d \<noteq> None \<Longrightarrow> dev \<in> set (get_sub_device_sessions name d)"
    by (force simp: get_sub_device_sessions_def store_defs dest: map_of_SomeD)
  then show ?thesis unfolding session_delete_all_def fold by (cases "load_session name dev d") auto
qed

end
