(* ===== verification/Client_Crypto.thy ===== *)
theory Client_Crypto
  imports Client_Store
begin

text \<open>
  The cryptography of the terminal client: \<open>crypto/identity.cpp\<close>, \<open>crypto/crypto_engine.cpp\<close> and
  \<open>crypto/group_session.cpp\<close>.  libsodium and libsignal are outside the repository: what one call of theirs
  answers is a field of the record \<open>crypto_lib\<close>, an argument of every operation, so that two calls may
  answer differently.  The functions of libsignal act on the local database through the callbacks of
  \<open>Client_Store\<close> and see the identity the engine has given to them; decoding a message and decrypting it
  is one function, as the code treats their failures alike.  \<open>l_reads\<close> says for which counters the query on the
  local database returns.  An exception of the code that its caller
  catches is \<open>None\<close>.
\<close>

unbundle bit_operations_syntax

subsection \<open>Data\<close>

definition of_bytes :: "bytes \<Rightarrow> string" where
  "of_bytes b = map (\<lambda>w. char_of (unat w)) b"

lemma of_bytes_to_bytes [simp]: "of_bytes (to_bytes s) = s"
proof -
  have "char_of (unat (word_of_nat (code c) :: byte)) = c" for c
    by (simp add: unat_of_nat take_bit_eq_mod code_def of_char_mod_256)
  then show ?thesis by (simp add: of_bytes_def to_bytes_def map_idI)
qed

record ed25519_pair = ed_pub :: bytes ed_priv :: bytes

record x25519_pair = dh_pub :: bytes dh_priv :: bytes

record signed_prekey = spk_no :: u32 spk_pair :: x25519_pair spk_signature :: bytes

text \<open>\<open>ChatEnvelope\<close> with all its fields; \<open>empty_chat\<close> is what the code returns when it has nothing to send.\<close>

record chat_message =
  cm_sender :: string
  cm_recipient :: string
  cm_ciphertext :: bytes
  cm_type :: u32
  cm_skdm :: bytes
  cm_message_id :: string

definition empty_chat :: chat_message where
  "empty_chat = \<lparr>cm_sender = [], cm_recipient = [], cm_ciphertext = [], cm_type = 0, cm_skdm = [], cm_message_id = []\<rparr>"

record bundle_msg =
  bm_identity_pub :: bytes
  bm_signed_prekey :: bytes
  bm_spk_signature :: bytes
  bm_spk_id :: u32
  bm_registration_id :: u32
  bm_one_time_prekey :: bytes
  bm_opk_id :: u32
  bm_recipient_for :: string

record upload_msg =
  um_signed_prekey :: bytes
  um_spk_signature :: bytes
  um_spk_id :: u32
  um_registration_id :: u32
  um_one_time_prekeys :: "bytes list"
  um_opk_ids :: "u32 list"

record decrypt_result = dr_plaintext :: string dr_sender :: string dr_success :: bool

text \<open>What is handed to libsignal to build a session: registration and device id, the optional one-time key,
  the signed key with its signature, and the identity key.\<close>

record pre_key_bundle =
  pb_registration :: u32
  pb_device :: int
  pb_opk_id :: u32
  pb_opk :: "bytes option"
  pb_spk_id :: u32
  pb_spk :: bytes
  pb_signature :: bytes
  pb_identity :: bytes

subsection \<open>The libraries\<close>

datatype sg_result = Sg_Success | Sg_Untrusted | Sg_Error

text \<open>What libsignal sees of the engine beside the database: own name, identity pair, registration id.\<close>

record lib_view = lv_user :: string lv_identity :: ed25519_pair lv_registration :: u32

record crypto_lib =
  l_unix_s :: int
  l_salt :: bytes
  l_nonce :: bytes
  l_uniform :: "nat \<Rightarrow> nat"
  l_reads :: "string \<Rightarrow> bool"
  l_sign_keypair :: "ed25519_pair option"
  l_pwhash :: "string \<Rightarrow> bytes \<Rightarrow> bytes option"
  l_secretbox :: "bytes \<Rightarrow> bytes \<Rightarrow> bytes \<Rightarrow> bytes option"
  l_secretbox_open :: "bytes \<Rightarrow> bytes \<Rightarrow> bytes \<Rightarrow> bytes option"
  l_sign :: "bytes \<Rightarrow> bytes \<Rightarrow> bytes option"
  l_hash :: "bytes \<Rightarrow> bytes"
  l_pk_to_curve :: "bytes \<Rightarrow> bytes option"
  l_sk_to_curve :: "bytes \<Rightarrow> bytes option"
  l_decode_point :: "bytes \<Rightarrow> bytes option"
  l_decode_private :: "bytes \<Rightarrow> bytes option"
  l_verify :: "bytes \<Rightarrow> bytes \<Rightarrow> bytes \<Rightarrow> bool"
  l_sign_xed :: "bytes \<Rightarrow> bytes \<Rightarrow> bytes option"
  l_generate :: "nat \<Rightarrow> (bytes \<times> bytes) option"
  l_spk_record :: "u32 \<Rightarrow> int \<Rightarrow> bytes \<Rightarrow> bytes \<Rightarrow> bytes \<Rightarrow> bytes option"
  l_opk_record :: "u32 \<Rightarrow> bytes \<Rightarrow> bytes \<Rightarrow> bytes option"
  l_context :: bool
  l_cipher :: bool
  l_encrypt :: "lib_view \<Rightarrow> string \<Rightarrow> bytes \<Rightarrow> local_store \<Rightarrow> (bytes \<times> u32) option \<times> local_store"
  l_decrypt_pre_key :: "lib_view \<Rightarrow> string \<Rightarrow> bytes \<Rightarrow> local_store \<Rightarrow> bytes option \<times> local_store"
  l_decrypt_message :: "lib_view \<Rightarrow> string \<Rightarrow> bytes \<Rightarrow> local_store \<Rightarrow> bytes option \<times> local_store"
  l_bundle_create :: "pre_key_bundle \<Rightarrow> bool"
  l_process_bundle :: "lib_view \<Rightarrow> string \<Rightarrow> pre_key_bundle \<Rightarrow> local_store \<Rightarrow> sg_result \<times> local_store"
  l_group_create :: "lib_view \<Rightarrow> string \<Rightarrow> string \<Rightarrow> local_store \<Rightarrow> bytes option \<times> local_store"
  l_group_process :: "string \<Rightarrow> string \<Rightarrow> bytes \<Rightarrow> local_store \<Rightarrow> local_store"
  l_group_encrypt :: "string \<Rightarrow> string \<Rightarrow> bytes \<Rightarrow> local_store \<Rightarrow> bytes option \<times> local_store"
  l_group_decrypt :: "string \<Rightarrow> string \<Rightarrow> bytes \<Rightarrow> local_store \<Rightarrow> bytes option \<times> local_store"

subsection \<open>\<open>Identity\<close>\<close>

definition NONCEBYTES :: nat where "NONCEBYTES = 24"
definition MACBYTES :: nat where "MACBYTES = 16"

text \<open>The private key is kept as nonce and box under a key derived from the passphrase; salt and box are returned.\<close>

definition encrypt_priv :: "crypto_lib \<Rightarrow> bytes \<Rightarrow> string \<Rightarrow> (bytes \<times> bytes) option" where
  "encrypt_priv L priv passphrase =
     (case l_pwhash L passphrase (l_salt L) of
        None \<Rightarrow> None
      | Some key \<Rightarrow> (case l_secretbox L priv (l_nonce L) key of
            None \<Rightarrow> None
          | Some box \<Rightarrow> Some (l_nonce L @ box, l_salt L)))"

definition decrypt_priv :: "crypto_lib \<Rightarrow> bytes \<Rightarrow> bytes \<Rightarrow> string \<Rightarrow> bytes option" where
  "decrypt_priv L ciphertext salt passphrase =
     (if length ciphertext < NONCEBYTES + MACBYTES then None
      else case l_pwhash L passphrase salt of
             None \<Rightarrow> None
           | Some key \<Rightarrow> l_secretbox_open L (drop NONCEBYTES ciphertext) (take NONCEBYTES ciphertext) key)"

record crypto_engine =
  g_pair :: ed25519_pair
  g_loaded :: bool
  g_spk :: signed_prekey
  g_next_opk :: u32
  g_registration :: u32
  g_pending :: "(string \<times> string) list"
  g_sent_skdm :: "string set"
  g_user :: string
  g_store :: local_store

lemma signed_prekey_collapse [simp]:
  "\<lparr>spk_no = spk_no s, spk_pair = \<lparr>dh_pub = dh_pub (spk_pair s), dh_priv = dh_priv (spk_pair s)\<rparr>,
     spk_signature = spk_signature s\<rparr> = s"
  by (cases s) (auto intro: x25519_pair.equality)

definition no_spk :: signed_prekey where
  "no_spk = \<lparr>spk_no = 0, spk_pair = \<lparr>dh_pub = replicate 32 0, dh_priv = replicate 32 0\<rparr>, spk_signature = []\<rparr>"

definition new_engine :: "local_store \<Rightarrow> crypto_engine" where
  "new_engine d = \<lparr>g_pair = \<lparr>ed_pub = replicate 32 0, ed_priv = replicate 64 0\<rparr>, g_loaded = False, g_spk = no_spk,
     g_next_opk = 1, g_registration = 1, g_pending = [], g_sent_skdm = {}, g_user = [], g_store = d\<rparr>"

definition generate_and_save :: "crypto_lib \<Rightarrow> string \<Rightarrow> string \<Rightarrow> crypto_engine \<Rightarrow> bool \<times> crypto_engine" where
  "generate_and_save L u passphrase g =
     (case l_sign_keypair L of
        None \<Rightarrow> (False, g)
      | Some pair \<Rightarrow>
          let g = g\<lparr>g_pair := pair\<rparr>
          in case encrypt_priv L (ed_priv pair) passphrase of
               None \<Rightarrow> (False, g)
             | Some (box, salt) \<Rightarrow>
                 (True, g\<lparr>g_loaded := True, g_store := save_identity \<lparr>id_user_id = u, id_pub = ed_pub pair,
                    id_priv_enc = box, id_salt = salt, id_created_at = l_unix_s L\<rparr> (g_store g)\<rparr>))"

definition load_own_identity :: "crypto_lib \<Rightarrow> string \<Rightarrow> string \<Rightarrow> crypto_engine \<Rightarrow> bool \<times> crypto_engine" where
  "load_own_identity L u passphrase g =
     (case load_identity u (g_store g) of
        None \<Rightarrow> (False, g)
      | Some row \<Rightarrow>
          if length (id_pub row) \<noteq> 32 then (False, g)
          else
            let g = g\<lparr>g_pair := (g_pair g)\<lparr>ed_pub := id_pub row\<rparr>\<rparr>
            in case decrypt_priv L (id_priv_enc row) (id_salt row) passphrase of
                 None \<Rightarrow> (False, g)
               | Some priv \<Rightarrow> (True, g\<lparr>g_pair := (g_pair g)\<lparr>ed_priv := priv\<rparr>, g_loaded := True\<rparr>))"

text \<open>The challenge is signed together with the name; signing without an identity throws.\<close>

definition sign_challenge :: "crypto_lib \<Rightarrow> bytes \<Rightarrow> string \<Rightarrow> crypto_engine \<Rightarrow> bytes option" where
  "sign_challenge L nonce u g =
     (if \<not> g_loaded g then None else l_sign L (nonce @ to_bytes u) (ed_priv (g_pair g)))"

text \<open>Comparison of byte arrays of equal length, and the safety number: 12 groups of 5 digits.\<close>

fun bytes_less :: "bytes \<Rightarrow> bytes \<Rightarrow> bool" where
  "bytes_less (a # as) (b # bs) \<longleftrightarrow> a < b \<or> a = b \<and> bytes_less as bs"
| "bytes_less [] (b # bs) \<longleftrightarrow> True"
| "bytes_less as [] \<longleftrightarrow> False"

definition safety_group :: "bytes \<Rightarrow> nat \<Rightarrow> nat" where
  "safety_group h i =
     (let val = fold (\<lambda>j (val :: u32). push_bit 8 val OR ucast (h ! ((i * 3 + j) mod length h))) [0..<3] 0
      in unat (val mod 100000))"

definition five_digits :: "nat \<Rightarrow> string" where
  "five_digits n = (let s = show_nat n in replicate (5 - length s) (CHR ''0'') @ s)"

definition safety_number :: "crypto_lib \<Rightarrow> bytes \<Rightarrow> bytes \<Rightarrow> string" where
  "safety_number L our their =
     (let combined = (if bytes_less our their then our @ their else their @ our);
          h = l_hash L combined
      in concat (map (\<lambda>i. (if i > 0 then '' '' else []) @ five_digits (safety_group h i)) [0..<12]))"

subsection \<open>Signed and one-time pre-keys\<close>

text \<open>The \<open>i\<close>th key pair libsignal generates in a call, the public key with its type byte taken off.\<close>

definition extract_public_key_no_prefix :: "bytes \<Rightarrow> bytes" where
  "extract_public_key_no_prefix b = (if length b > 1 \<and> hd b = 0x05 then tl b else b)"

definition generate_x25519 :: "crypto_lib \<Rightarrow> nat \<Rightarrow> x25519_pair option" where
  "generate_x25519 L i =
     (case l_generate L i of
        None \<Rightarrow> None
      | Some (pub, priv) \<Rightarrow>
          let pub = extract_public_key_no_prefix pub
          in if length pub = 32 \<and> length priv = 32 then Some \<lparr>dh_pub = pub, dh_priv = priv\<rparr> else None)"

definition store_spk_record :: "crypto_lib \<Rightarrow> signed_prekey \<Rightarrow> local_store \<Rightarrow> bool \<times> local_store" where
  "store_spk_record L spk d =
     (case l_decode_point L (0x05 # take 32 (dh_pub (spk_pair spk))) of
        None \<Rightarrow> (False, d)
      | Some pub \<Rightarrow> (case l_decode_private L (dh_priv (spk_pair spk)) of
            None \<Rightarrow> (False, d)
          | Some priv \<Rightarrow> (case l_spk_record L (spk_no spk) (l_unix_s L) pub priv (spk_signature spk) of
                None \<Rightarrow> (False, d)
              | Some r \<Rightarrow> (True, store_signed_pre_key (spk_no spk) r d))))"

definition verify_spk_signature :: "crypto_lib \<Rightarrow> bytes \<Rightarrow> signed_prekey \<Rightarrow> bool" where
  "verify_spk_signature L identity spk =
     (case l_pk_to_curve L identity of
        None \<Rightarrow> False
      | Some curve \<Rightarrow> (case l_decode_point L (0x05 # take 32 curve) of
            None \<Rightarrow> False
          | Some id_key \<Rightarrow> (case l_decode_point L (0x05 # take 32 (dh_pub (spk_pair spk))) of
                None \<Rightarrow> False
              | Some spk_key \<Rightarrow> l_verify L id_key spk_key (spk_signature spk))))"

text \<open>The persisted signed pre-key is taken when it is complete and its signature verifies under the identity.\<close>

definition restore_spk :: "crypto_lib \<Rightarrow> crypto_engine \<Rightarrow> bool \<times> crypto_engine" where
  "restore_spk L g =
     (case load_local_spk (g_store g) of
        None \<Rightarrow> (True, g)
      | Some p \<Rightarrow>
          if length (lspk_pub p) \<noteq> 32 \<or> length (lspk_priv p) \<noteq> 32 \<or> lspk_signature p = [] then (True, g)
          else
            let spk = \<lparr>spk_no = lspk_id p, spk_pair = \<lparr>dh_pub = lspk_pub p, dh_priv = lspk_priv p\<rparr>,
                       spk_signature = lspk_signature p\<rparr>
            in if verify_spk_signature L (ed_pub (g_pair g)) spk
               then let (ok, d) = store_spk_record L spk (g_store g) in (ok, g\<lparr>g_spk := spk, g_store := d\<rparr>)
               else (True, g\<lparr>g_spk := no_spk,
                       g_store := clear_local_spk (remove_signed_pre_key (spk_no spk) (g_store g))\<rparr>))"

definition generate_spk :: "crypto_lib \<Rightarrow> crypto_engine \<Rightarrow> bool \<times> crypto_engine" where
  "generate_spk L g =
     (if spk_signature (g_spk g) \<noteq> [] then (True, g)
      else
        let g = g\<lparr>g_spk := (g_spk g)\<lparr>spk_no := 1\<rparr>\<rparr>
        in case generate_x25519 L 0 of
             None \<Rightarrow> (False, g)
           | Some pair \<Rightarrow>
               let g = g\<lparr>g_spk := (g_spk g)\<lparr>spk_pair := pair\<rparr>\<rparr>
               in case Option.bind (l_sk_to_curve L (ed_priv (g_pair g))) (l_decode_private L) of
                    None \<Rightarrow> (False, g)
                  | Some sk \<Rightarrow>
                      (case Option.bind (l_decode_point L (0x05 # take 32 (dh_pub pair))) (l_sign_xed L sk) of
                         None \<Rightarrow> (False, g)
                       | Some sig \<Rightarrow>
                           let g = g\<lparr>g_spk := (g_spk g)\<lparr>spk_signature := sig\<rparr>\<rparr>;
                               (ok, d) = store_spk_record L (g_spk g) (g_store g)
                           in if \<not> ok then (False, g\<lparr>g_store := d\<rparr>)
                              else (True, g\<lparr>g_store := store_local_spk \<lparr>lspk_id = 1, lspk_pub = dh_pub pair,
                                      lspk_priv = dh_priv pair, lspk_signature = sig\<rparr> d\<rparr>)))"

definition load_counters :: "crypto_lib \<Rightarrow> crypto_engine \<Rightarrow> crypto_engine" where
  "load_counters L g =
     (let n = load_pre_key_counter (l_reads L ''pre_key_counter'') (g_store g);
          g = g\<lparr>g_next_opk := (if n = 0 then 1 else n)\<rparr>;
          r = load_registration_id (l_reads L ''registration_id'') (g_store g)
      in if r \<noteq> 0 then g\<lparr>g_registration := r\<rparr>
         else let r = of_nat (l_uniform L 16380) + 1
              in g\<lparr>g_registration := r, g_store := store_registration_id r (g_store g)\<rparr>)"

definition engine_init :: "crypto_lib \<Rightarrow> string \<Rightarrow> string \<Rightarrow> local_store \<Rightarrow> bool \<times> crypto_engine" where
  "engine_init L u passphrase d =
     (let g = new_engine d
      in if \<not> l_context L then (False, g)
         else
           let (ok, g) = (if has_identity u d then load_own_identity L u passphrase g
                          else generate_and_save L u passphrase g)
           in if \<not> ok then (False, g)
              else
                let (ok, g) = restore_spk L g
                in if \<not> ok then (False, g)
                   else
                     let (ok, g) = generate_spk L g
                     in if \<not> ok then (False, g) else (True, (load_counters L g)\<lparr>g_user := u\<rparr>))"

text \<open>One one-time pre-key: its public part goes into the upload, its record into the database.\<close>

definition upload_opk :: "crypto_lib \<Rightarrow> nat \<Rightarrow> upload_msg \<times> crypto_engine \<Rightarrow> upload_msg \<times> crypto_engine" where
  "upload_opk L i = (\<lambda>(ku, g).
     let n = g_next_opk g + of_nat i
     in case generate_x25519 L i of
          None \<Rightarrow> (ku, g)
        | Some kp \<Rightarrow>
            let ku = ku\<lparr>um_one_time_prekeys := um_one_time_prekeys ku @ [dh_pub kp], um_opk_ids := um_opk_ids ku @ [n]\<rparr>
            in case Option.bind (l_decode_point L (0x05 # take 32 (dh_pub kp)))
                      (\<lambda>pub. Option.bind (l_decode_private L (dh_priv kp)) (l_opk_record L n pub)) of
                 None \<Rightarrow> (ku, g)
               | Some r \<Rightarrow> (ku, g\<lparr>g_store := store_pre_key n r (g_store g)\<rparr>))"

definition prepare_key_upload :: "crypto_lib \<Rightarrow> nat \<Rightarrow> crypto_engine \<Rightarrow> upload_msg \<times> crypto_engine" where
  "prepare_key_upload L num g =
     (let ku = \<lparr>um_signed_prekey = dh_pub (spk_pair (g_spk g)), um_spk_signature = spk_signature (g_spk g),
                um_spk_id = spk_no (g_spk g), um_registration_id = g_registration g,
                um_one_time_prekeys = [], um_opk_ids = []\<rparr>;
          (ku, g) = fold (upload_opk L) [0..<num] (ku, g);
          g = g\<lparr>g_next_opk := g_next_opk g + of_nat num\<rparr>
      in (ku, g\<lparr>g_store := store_pre_key_counter (g_next_opk g) (g_store g)\<rparr>))"

subsection \<open>Resets\<close>

definition reset_dm_session :: "string \<Rightarrow> crypto_engine \<Rightarrow> crypto_engine" where
  "reset_dm_session peer g =
     (if peer = [] then g
      else g\<lparr>g_store := delete_session peer 1 (g_store g), g_pending := mdel peer (g_pending g)\<rparr>)"

definition forget_peer_identity :: "string \<Rightarrow> crypto_engine \<Rightarrow> crypto_engine" where
  "forget_peer_identity peer g = (if peer = [] then g else g\<lparr>g_store := delete_peer_identity peer (g_store g)\<rparr>)"

definition reset_all_dm_sessions :: "crypto_engine \<Rightarrow> crypto_engine" where
  "reset_all_dm_sessions g = g\<lparr>g_store := delete_all_sessions (g_store g), g_pending := []\<rparr>"

definition reset_group_sessions :: "crypto_engine \<Rightarrow> crypto_engine" where
  "reset_group_sessions g = g\<lparr>g_sent_skdm := {}\<rparr>"

subsection \<open>Encryption and decryption\<close>

definition is_channel :: "string \<Rightarrow> bool" where
  "is_channel r \<longleftrightarrow> r \<noteq> [] \<and> hd r = CHR ''#''"

definition view_of :: "crypto_engine \<Rightarrow> lib_view" where
  "view_of g = \<lparr>lv_user = g_user g, lv_identity = g_pair g, lv_registration = g_registration g\<rparr>"

text \<open>\<open>GroupSession::encrypt\<close> and the branch of \<open>encrypt\<close> for channels.\<close>

definition group_encrypt :: "crypto_lib \<Rightarrow> string \<Rightarrow> bytes \<Rightarrow> crypto_engine \<Rightarrow> bytes option \<times> crypto_engine" where
  "group_encrypt L ch p g =
     (if \<not> l_cipher L then (None, g)
      else let (r, d) = l_group_encrypt L ch (g_user g) p (g_store g) in (r, g\<lparr>g_store := d\<rparr>))"

definition create_group_session :: "crypto_lib \<Rightarrow> string \<Rightarrow> crypto_engine \<Rightarrow> bytes option \<times> crypto_engine" where
  "create_group_session L ch g =
     (let (r, d) = l_group_create L (view_of g) ch (g_user g) (g_store g) in (r, g\<lparr>g_store := d\<rparr>))"

definition encrypt_channel ::
  "crypto_lib \<Rightarrow> chat_message \<Rightarrow> string \<Rightarrow> bytes \<Rightarrow> crypto_engine \<Rightarrow> chat_message \<times> crypto_engine" where
  "encrypt_channel L env ch p g =
     (if ch \<notin> g_sent_skdm g then
        (case create_group_session L ch g of
           (None, g) \<Rightarrow> (empty_chat, g)
         | (Some skdm, g) \<Rightarrow>
             (case group_encrypt L ch p g of
                (None, g) \<Rightarrow> (empty_chat, g)
              | (Some ct, g) \<Rightarrow> (env\<lparr>cm_ciphertext := ct, cm_type := 4, cm_skdm := skdm\<rparr>,
                                 g\<lparr>g_sent_skdm := insert ch (g_sent_skdm g)\<rparr>)))
      else
        (case group_encrypt L ch p g of
           (None, g) \<Rightarrow> (empty_chat, g\<lparr>g_sent_skdm := g_sent_skdm g - {ch}\<rparr>)
         | (Some ct, g) \<Rightarrow> (env\<lparr>cm_ciphertext := ct, cm_type := 4\<rparr>, g)))"

text \<open>The second result lists the names \<open>key_request_fn\<close> is called with.\<close>

definition encrypt ::
  "crypto_lib \<Rightarrow> string \<Rightarrow> string \<Rightarrow> string \<Rightarrow> crypto_engine \<Rightarrow> chat_message \<times> string list \<times> crypto_engine" where
  "encrypt L sender recipient plaintext g =
     (let env = empty_chat\<lparr>cm_sender := sender, cm_recipient := recipient\<rparr>
      in if is_channel recipient then
           let (env, g) = encrypt_channel L env recipient (to_bytes plaintext) g in (env, [], g)
         else if \<not> contains_session recipient 1 (g_store g) then
           (empty_chat, [recipient], g\<lparr>g_pending := mput recipient plaintext (g_pending g)\<rparr>)
         else if \<not> l_cipher L then (empty_chat, [], g)
         else
           (case l_encrypt L (view_of g) recipient (to_bytes plaintext) (g_store g) of
              (None, d) \<Rightarrow> (empty_chat, [], reset_dm_session recipient (g\<lparr>g_store := d\<rparr>))
            | (Some (ct, ty), d) \<Rightarrow> (env\<lparr>cm_ciphertext := ct, cm_type := ty\<rparr>, [], g\<lparr>g_store := d\<rparr>)))"

definition group_decrypt :: "crypto_lib \<Rightarrow> string \<Rightarrow> string \<Rightarrow> bytes \<Rightarrow> crypto_engine \<Rightarrow> bytes option \<times> crypto_engine" where
  "group_decrypt L ch sender c g =
     (if \<not> l_cipher L then (None, g)
      else let (r, d) = l_group_decrypt L ch sender c (g_store g) in (r, g\<lparr>g_store := d\<rparr>))"

definition decrypt :: "crypto_lib \<Rightarrow> chat_message \<Rightarrow> crypto_engine \<Rightarrow> decrypt_result \<times> crypto_engine" where
  "decrypt L env g =
     (let failed = \<lparr>dr_plaintext = [], dr_sender = cm_sender env, dr_success = False\<rparr>
      in if cm_type env = 4 then
           let g = (if cm_skdm env \<noteq> []
                    then g\<lparr>g_store := l_group_process L (cm_recipient env) (cm_sender env) (cm_skdm env) (g_store g)\<rparr>
                    else g)
           in case group_decrypt L (cm_recipient env) (cm_sender env) (cm_ciphertext env) g of
                (None, g) \<Rightarrow> (failed, g)
              | (Some p, g) \<Rightarrow> (failed\<lparr>dr_plaintext := of_bytes p, dr_success := True\<rparr>, g)
         else if \<not> l_cipher L then (failed, g)
         else
           (case (if cm_type env = 3
                  then l_decrypt_pre_key L (view_of g) (cm_sender env) (cm_ciphertext env) (g_store g)
                  else l_decrypt_message L (view_of g) (cm_sender env) (cm_ciphertext env) (g_store g)) of
              (None, d) \<Rightarrow> (failed, reset_dm_session (cm_sender env) (g\<lparr>g_store := d\<rparr>))
            | (Some p, d) \<Rightarrow> (failed\<lparr>dr_plaintext := of_bytes p, dr_success := True\<rparr>, g\<lparr>g_store := d\<rparr>)))"

subsection \<open>Key bundles\<close>

text \<open>The keys of a bundle, each with the type byte libsignal expects; the identity key is an Ed25519 key.\<close>

definition bundle_identity :: "crypto_lib \<Rightarrow> bundle_msg \<Rightarrow> bytes option" where
  "bundle_identity L b =
     (if length (bm_identity_pub b) \<noteq> 32 then None
      else Option.bind (l_pk_to_curve L (bm_identity_pub b)) (\<lambda>curve. l_decode_point L (0x05 # take 32 curve)))"

definition decode_prefixed :: "crypto_lib \<Rightarrow> bytes \<Rightarrow> bytes option" where
  "decode_prefixed L k = (if k = [] then None else l_decode_point L (0x05 # k))"

text \<open>
  The end of \<open>on_key_bundle\<close>: an existing session is dropped, and an identity that differs from the one on
  record is forgotten and the bundle processed once more.
\<close>

definition establish_session :: "crypto_lib \<Rightarrow> string \<Rightarrow> pre_key_bundle \<Rightarrow> crypto_engine \<Rightarrow> bool \<times> crypto_engine" where
  "establish_session L peer pkb g =
     (let g = (if contains_session peer 1 (g_store g) then reset_dm_session peer g else g)
      in case l_process_bundle L (view_of g) peer pkb (g_store g) of
           (Sg_Untrusted, d) \<Rightarrow>
             let (rc, d) = l_process_bundle L (view_of g) peer pkb (delete_peer_identity peer d)
             in (rc = Sg_Success, g\<lparr>g_store := d\<rparr>)
         | (rc, d) \<Rightarrow> (rc = Sg_Success, g\<lparr>g_store := d\<rparr>))"

definition on_key_bundle :: "crypto_lib \<Rightarrow> bundle_msg \<Rightarrow> string \<Rightarrow> crypto_engine \<Rightarrow> bool \<times> crypto_engine" where
  "on_key_bundle L b peer g =
     (case (bundle_identity L b, decode_prefixed L (bm_signed_prekey b)) of
        (Some identity, Some spk) \<Rightarrow>
          let pkb = \<lparr>pb_registration = (if bm_registration_id b > 0 then bm_registration_id b else 1), pb_device = 1,
                     pb_opk_id = bm_opk_id b, pb_opk = decode_prefixed L (bm_one_time_prekey b),
                     pb_spk_id = bm_spk_id b, pb_spk = spk, pb_signature = bm_spk_signature b, pb_identity = identity\<rparr>
          in if \<not> l_bundle_create L pkb then (False, g) else establish_session L peer pkb g
      | _ \<Rightarrow> (False, g))"

definition peer_safety_number :: "crypto_lib \<Rightarrow> string \<Rightarrow> crypto_engine \<Rightarrow> string" where
  "peer_safety_number L peer g =
     (case load_peer_identity peer (g_store g) of
        Some k \<Rightarrow> if length k = 32 then safety_number L (ed_pub (g_pair g)) k
                  else ''(no key on file for '' @ peer @ '')''
      | None \<Rightarrow> ''(no key on file for '' @ peer @ '')'')"

subsection \<open>One-time pre-keys are never offered twice\<close>

lemma upload_opk_fold:
  "fold (upload_opk L) is (ku, g) = (ku', g') \<Longrightarrow>
     um_opk_ids ku' = um_opk_ids ku @
       map (\<lambda>i. g_next_opk g + of_nat i) (filter (\<lambda>i. generate_x25519 L i \<noteq> None) is) \<and>
     g_next_opk g' = g_next_opk g \<and> t_metadata (g_store g') = t_metadata (g_store g)"
proof (induction "is" arbitrary: ku g)
  case (Cons i "is")
  obtain ku1 g1 where s: "upload_opk L i (ku, g) = (ku1, g1)" by fastforce
  have "g_next_opk g1 = g_next_opk g \<and> t_metadata (g_store g1) = t_metadata (g_store g) \<and>
      um_opk_ids ku1 = um_opk_ids ku @
        map (\<lambda>i. g_next_opk g + of_nat i) (filter (\<lambda>i. generate_x25519 L i \<noteq> None) [i])"
    using s by (auto simp: upload_opk_def Let_def store_pre_key_def split: option.splits)
  moreover from Cons.prems s have "fold (upload_opk L) is (ku1, g1) = (ku', g')" by simp
  ultimately show ?case using Cons.IH [of ku1 g1] by auto
qed simp

lemma prepare_key_upload_ids:
  assumes "prepare_key_upload L n g = (ku, g')"
  shows "um_opk_ids ku = map (\<lambda>i. g_next_opk g + of_nat i) (filter (\<lambda>i. generate_x25519 L i \<noteq> None) [0..<n])"
    "g_next_opk g' = g_next_opk g + of_nat n" "load_pre_key_counter True (g_store g') = g_next_opk g'"
proof -
  obtain ku1 g1 where f: "fold (upload_opk L) [0..<n]
      (\<lparr>um_signed_prekey = dh_pub (spk_pair (g_spk g)), um_spk_signature = spk_signature (g_spk g),
        um_spk_id = spk_no (g_spk g), um_registration_id = g_registration g,
        um_one_time_prekeys = [], um_opk_ids = []\<rparr>, g) = (ku1, g1)" by fastforce
  have "ku = ku1" "g' = g1\<lparr>g_next_opk := g_next_opk g1 + of_nat n,
      g_store := store_pre_key_counter (g_next_opk g1 + of_nat n) (g_store g1)\<rparr>"
    using assms f by (auto simp: prepare_key_upload_def Let_def)
  with upload_opk_fold [OF f]
  show "um_opk_ids ku = map (\<lambda>i. g_next_opk g + of_nat i) (filter (\<lambda>i. generate_x25519 L i \<noteq> None) [0..<n])"
    "g_next_opk g' = g_next_opk g + of_nat n" "load_pre_key_counter True (g_store g') = g_next_opk g'"
    by (simp_all add: counters_roundtrip)
qed

text \<open>libsignal has no callback for the table of counters.\<close>

definition keeps_counters :: "crypto_lib \<Rightarrow> bool" where
  "keeps_counters L \<longleftrightarrow>
     (\<forall>v n b d. t_metadata (snd (l_encrypt L v n b d)) = t_metadata d) \<and>
     (\<forall>v n b d. t_metadata (snd (l_decrypt_pre_key L v n b d)) = t_metadata d) \<and>
     (\<forall>v n b d. t_metadata (snd (l_decrypt_message L v n b d)) = t_metadata d) \<and>
     (\<forall>v n b d. t_metadata (snd (l_process_bundle L v n b d)) = t_metadata d) \<and>
     (\<forall>v n b d. t_metadata (snd (l_group_create L v n b d)) = t_metadata d) \<and>
     (\<forall>n m b d. t_metadata (l_group_process L n m b d) = t_metadata d) \<and>
     (\<forall>n m b d. t_metadata (snd (l_group_encrypt L n m b d)) = t_metadata d) \<and>
     (\<forall>n m b d. t_metadata (snd (l_group_decrypt L n m b d)) = t_metadata d)"

lemma keeps_countersD:
  assumes "keeps_counters L"
  shows "l_encrypt L v n b d = (r1, d') \<Longrightarrow> t_metadata d' = t_metadata d"
    "l_decrypt_pre_key L v n b d = (r2, d') \<Longrightarrow> t_metadata d' = t_metadata d"
    "l_decrypt_message L v n b d = (r2, d') \<Longrightarrow> t_metadata d' = t_metadata d"
    "l_process_bundle L v n pb d = (r3, d') \<Longrightarrow> t_metadata d' = t_metadata d"
    "l_group_create L v n m d = (r2, d') \<Longrightarrow> t_metadata d' = t_metadata d"
    "t_metadata (l_group_process L n m b d) = t_metadata d"
    "l_group_encrypt L n m b d = (r2, d') \<Longrightarrow> t_metadata d' = t_metadata d"
    "l_group_decrypt L n m b d = (r2, d') \<Longrightarrow> t_metadata d' = t_metadata d"
  using assms unfolding keeps_counters_def by (metis snd_conv)+

definition opk_view :: "crypto_engine \<Rightarrow> u32 \<times> u32" where
  "opk_view g = (g_next_opk g, load_pre_key_counter True (g_store g))"

lemma opk_view_metadata:
  "t_metadata d = t_metadata (g_store g) \<Longrightarrow> opk_view (g\<lparr>g_store := d\<rparr>) = opk_view g"
  by (simp add: opk_view_def load_pre_key_counter_def)

lemma opk_view_resets [simp]:
  "opk_view (reset_dm_session p g) = opk_view g" "opk_view (forget_peer_identity p g) = opk_view g"
  "opk_view (reset_all_dm_sessions g) = opk_view g" "opk_view (reset_group_sessions g) = opk_view g"
  by (simp_all add: opk_view_def reset_dm_session_def forget_peer_identity_def reset_all_dm_sessions_def
      reset_group_sessions_def store_defs)

lemma opk_view_other [simp]:
  "opk_view (g\<lparr>g_pending := q\<rparr>) = opk_view g" "opk_view (g\<lparr>g_sent_skdm := z\<rparr>) = opk_view g"
  by (simp_all add: opk_view_def)

lemma opk_view_encrypt:
  assumes "keeps_counters L" "encrypt L s r p g = (env, req, g')" shows "opk_view g' = opk_view g"
  using assms(2)
  by (auto simp: encrypt_def encrypt_channel_def create_group_session_def group_encrypt_def Let_def
      dest!: keeps_countersD(1,5,7) [OF assms(1)] intro!: opk_view_metadata split: if_splits option.splits prod.splits)

lemma opk_view_decrypt:
  assumes "keeps_counters L" "decrypt L env g = (r, g')" shows "opk_view g' = opk_view g"
  using assms(2)
  by (auto simp: decrypt_def group_decrypt_def Let_def keeps_countersD(6) [OF assms(1)]
      dest!: keeps_countersD(2,3,8) [OF assms(1)] intro!: opk_view_metadata split: if_splits option.splits prod.splits)

lemma opk_view_establish:
  assumes "keeps_counters L" "establish_session L peer pkb g = (r, g')" shows "opk_view g' = opk_view g"
proof -
  let ?g = "if contains_session peer 1 (g_store g) then reset_dm_session peer g else g"
  obtain rc d where p: "l_process_bundle L (view_of ?g) peer pkb (g_store ?g) = (rc, d)" by fastforce
  obtain rc' d' where p': "l_process_bundle L (view_of ?g) peer pkb (delete_peer_identity peer d) = (rc', d')" by fastforce
  have "g' = ?g\<lparr>g_store := d\<rparr> \<or> g' = ?g\<lparr>g_store := d'\<rparr>"
    using assms(2) p p' unfolding establish_session_def Let_def by (cases rc) auto
  moreover have "t_metadata d = t_metadata (g_store ?g)" using keeps_countersD(4) [OF assms(1) p] .
  moreover have "t_metadata d' = t_metadata d"
    using keeps_countersD(4) [OF assms(1) p'] by (simp add: delete_peer_identity_def)
  ultimately have "opk_view g' = opk_view ?g" using opk_view_metadata by metis
  then show ?thesis by (simp split: if_splits)
qed

lemma opk_view_bundle:
  assumes "keeps_counters L" "on_key_bundle L b peer g = (r, g')" shows "opk_view g' = opk_view g"
  using assms(2) opk_view_establish [OF assms(1)]
  by (auto simp: on_key_bundle_def Let_def split: option.splits if_splits)

text \<open>
  The life of an installation: the ids offered so far, how many were asked for, and the engine.  A restart
  builds a new engine on the database of the old one; the query of the counter returns in it (see
  \<open>failed_read_offers_ids_again\<close> for a restart in which it fails).
\<close>

inductive engine_step ::
    "string \<Rightarrow> u32 list \<times> nat \<times> crypto_engine \<Rightarrow> u32 list \<times> nat \<times> crypto_engine \<Rightarrow> bool" for u where
  step_upload: "prepare_key_upload L n g = (ku, g') \<Longrightarrow> engine_step u (ids, k, g) (ids @ um_opk_ids ku, k + n, g')"
| step_restart: "l_reads L ''pre_key_counter'' \<Longrightarrow> engine_init L u pw (g_store g) = (True, g') \<Longrightarrow> engine_step u (ids, k, g) (ids, k, g')"
| step_encrypt: "keeps_counters L \<Longrightarrow> encrypt L s r p g = (env, req, g') \<Longrightarrow> engine_step u (ids, k, g) (ids, k, g')"
| step_decrypt: "keeps_counters L \<Longrightarrow> decrypt L env g = (res, g') \<Longrightarrow> engine_step u (ids, k, g) (ids, k, g')"
| step_bundle: "keeps_counters L \<Longrightarrow> on_key_bundle L b peer g = (ok, g') \<Longrightarrow> engine_step u (ids, k, g) (ids, k, g')"
| step_reset: "engine_step u (ids, k, g) (ids, k, reset_dm_session peer g)"
| step_forget: "engine_step u (ids, k, g) (ids, k, forget_peer_identity peer g)"
| step_reset_all: "engine_step u (ids, k, g) (ids, k, reset_all_dm_sessions g)"
| step_reset_groups: "engine_step u (ids, k, g) (ids, k, reset_group_sessions g)"

definition ids_fresh :: "u32 list \<times> nat \<times> crypto_engine \<Rightarrow> bool" where
  "ids_fresh = (\<lambda>(ids, k, g). k + 1 < 2 ^ 32 \<longrightarrow>
     opk_view g = (of_nat (k + 1), of_nat (k + 1)) \<and> (\<forall>n \<in> set ids. unat n \<le> k) \<and> distinct ids)"

lemma load_own_identity_store: "load_own_identity L u pw g = (ok, g') \<Longrightarrow> g_store g' = g_store g"
  by (auto simp: load_own_identity_def Let_def split: option.splits if_splits)

lemma generate_and_save_metadata: "generate_and_save L u pw g = (ok, g') \<Longrightarrow> t_metadata (g_store g') = t_metadata (g_store g)"
  by (auto simp: generate_and_save_def Let_def save_identity_def split: option.splits if_splits)

lemma store_spk_record_metadata: "store_spk_record L s d = (ok, d') \<Longrightarrow> t_metadata d' = t_metadata d"
  by (auto simp: store_spk_record_def store_signed_pre_key_def split: option.splits)

lemma restore_spk_metadata: "restore_spk L g = (ok, g') \<Longrightarrow> t_metadata (g_store g') = t_metadata (g_store g)"
  by (auto simp: restore_spk_def Let_def clear_local_spk_def remove_signed_pre_key_def
      dest: store_spk_record_metadata split: option.splits if_splits prod.splits)

lemma generate_spk_metadata: "generate_spk L g = (ok, g') \<Longrightarrow> t_metadata (g_store g') = t_metadata (g_store g)"
  by (auto simp: generate_spk_def Let_def store_local_spk_def
      dest: store_spk_record_metadata split: option.splits if_splits prod.splits)

lemma load_counters_opk:
  "l_reads L ''pre_key_counter'' \<Longrightarrow> load_pre_key_counter True (g_store g) \<noteq> 0 \<Longrightarrow>
     opk_view (load_counters L g) = (load_pre_key_counter True (g_store g), load_pre_key_counter True (g_store g))"
  by (auto simp: load_counters_def Let_def opk_view_def store_registration_id_def load_pre_key_counter_def)

lemma engine_init_opk:
  assumes "engine_init L u pw d = (True, g)" and "load_pre_key_counter True d \<noteq> 0" and "l_reads L ''pre_key_counter''"
  shows "opk_view g = (load_pre_key_counter True d, load_pre_key_counter True d)"
proof -
  obtain g1 where g1: "(if has_identity u d then load_own_identity L u pw (new_engine d)
      else generate_and_save L u pw (new_engine d)) = (True, g1)"
    using assms(1) by (auto simp: engine_init_def Let_def split: prod.splits if_splits)
  obtain g2 where g2: "restore_spk L g1 = (True, g2)"
    using assms(1) g1 by (auto simp: engine_init_def Let_def split: prod.splits if_splits)
  obtain g3 where g3: "generate_spk L g2 = (True, g3)"
    using assms(1) g1 g2 by (auto simp: engine_init_def Let_def split: prod.splits if_splits)
  have g: "g = (load_counters L g3)\<lparr>g_user := u\<rparr>"
    using assms(1) g1 g2 g3 by (auto simp: engine_init_def Let_def split: prod.splits if_splits)
  have "t_metadata (g_store g1) = t_metadata d"
    using g1 generate_and_save_metadata load_own_identity_store by (fastforce simp: new_engine_def split: if_splits)
  with g2 g3 have "t_metadata (g_store g3) = t_metadata d"
    using restore_spk_metadata generate_spk_metadata by metis
  then have "load_pre_key_counter True (g_store g3) = load_pre_key_counter True d" by (simp add: load_pre_key_counter_def)
  with load_counters_opk [of L g3] assms(2,3) show ?thesis by (simp add: g opk_view_def)
qed

lemma of_nat_u32_nonzero: "0 < n \<Longrightarrow> n < 2 ^ 32 \<Longrightarrow> (of_nat n :: u32) \<noteq> 0"
proof -
  assume "0 < n" "n < 2 ^ 32"
  then have "unat (of_nat n :: u32) = n" by (simp add: unat_of_nat take_bit_nat_eq_self)
  with \<open>0 < n\<close> show ?thesis by auto
qed

lemma ids_fresh_step: "engine_step u s t \<Longrightarrow> ids_fresh s \<Longrightarrow> ids_fresh t"
proof (induction rule: engine_step.induct)
  case (step_upload L n g ku g' ids k)
  note ids = prepare_key_upload_ids [OF step_upload.hyps]
  show ?case unfolding ids_fresh_def prod.case
  proof (intro impI)
    assume b: "k + n + 1 < 2 ^ 32"
    with step_upload.prems have old: "opk_view g = (of_nat (k + 1), of_nat (k + 1))"
      "\<forall>m \<in> set ids. unat m \<le> k" "distinct ids" by (simp_all add: ids_fresh_def)
    let ?f = "\<lambda>i. g_next_opk g + of_nat i"
    have f: "unat (?f i) = k + 1 + i" if "i < n" for i
    proof -
      have "?f i = of_nat (k + 1 + i)" using old(1) by (simp add: opk_view_def)
      moreover have "unat (of_nat (k + 1 + i) :: u32) = k + 1 + i"
        using b that by (intro unat_of_nat_u32) simp
      ultimately show ?thesis by (simp only:)
    qed
    have inj: "inj_on ?f {..<n}" by (rule inj_onI) (metis f add_left_cancel lessThan_iff)
    have new: "set (um_opk_ids ku) \<subseteq> ?f ` {..<n}" "distinct (um_opk_ids ku)"
      using inj by (auto simp: ids(1) distinct_map intro: inj_on_subset)
    have "unat m \<le> k + n \<and> unat m > k" if "m \<in> set (um_opk_ids ku)" for m using that new(1) f by fastforce
    then show "opk_view g' = (of_nat (k + n + 1), of_nat (k + n + 1)) \<and>
        (\<forall>m \<in> set (ids @ um_opk_ids ku). unat m \<le> k + n) \<and> distinct (ids @ um_opk_ids ku)"
      using old new(2) ids(2,3) by (fastforce simp: opk_view_def)
  qed
next
  case (step_restart L pw g g' ids k)
  show ?case unfolding ids_fresh_def prod.case
  proof (intro impI)
    assume b: "k + 1 < 2 ^ 32"
    with step_restart.prems have "load_pre_key_counter True (g_store g) = of_nat (k + 1)"
      by (simp add: ids_fresh_def opk_view_def)
    with engine_init_opk [OF step_restart.hyps(2) _ step_restart.hyps(1)] of_nat_u32_nonzero [OF _ b] step_restart.prems b
    show "opk_view g' = (of_nat (k + 1), of_nat (k + 1)) \<and> (\<forall>n\<in>set ids. unat n \<le> k) \<and> distinct ids"
      by (simp add: ids_fresh_def)
  qed
qed (auto simp: ids_fresh_def opk_view_encrypt opk_view_decrypt opk_view_bundle)

text \<open>
  C35: no one-time pre-key id is offered to the server twice in the life of an installation, whatever
  messages, bundles and resets come between the uploads and however often the client is restarted, as long
  as fewer than \<open>2^32 - 1\<close> keys are asked for in all and the query of the counter returns at every start.
\<close>

theorem one_time_ids_never_reused:
  assumes "engine_init L u pw new_local_store = (True, g0)" and "l_reads L ''pre_key_counter''"
    and "(engine_step u)\<^sup>*\<^sup>* ([], 0, g0) (ids, k, g)" and "k + 1 < 2 ^ 32"
  shows "distinct ids \<and> length ids \<le> k"
proof -
  have "opk_view g0 = (1, 1)"
    using engine_init_opk [OF assms(1) _ assms(2)] by (simp add: load_pre_key_counter_def new_local_store_def)
  then have "ids_fresh ([], 0, g0)" by (simp add: ids_fresh_def)
  with assms(3) have "ids_fresh (ids, k, g)"
    by (induction rule: rtranclp_induct) (auto intro: ids_fresh_step)
  moreover have "length ids \<le> k" using assms(3)
  proof (induction "(ids, k, g)" arbitrary: ids k g rule: rtranclp_induct)
    case (step s)
    then show ?case
      by (cases s) (auto elim!: engine_step.cases dest!: prepare_key_upload_ids(1)
          intro!: add_mono order_trans [OF length_filter_le])
  qed simp
  ultimately show ?thesis using assms(4) by (simp add: ids_fresh_def)
qed

text \<open>
  When the query of the counter fails at a start, the counter starts at 1 again, and the next upload offers ids that were
  offered before.
\<close>

lemma failed_read_offers_ids_again:
  assumes "engine_init L u pw d = (True, g)" and "\<not> l_reads L ''pre_key_counter''"
  shows "g_next_opk g = 1"
proof -
  obtain g3 where "g = (load_counters L g3)\<lparr>g_user := u\<rparr>"
    using assms(1) by (auto simp: engine_init_def Let_def split: prod.splits if_splits)
  with assms(2) show ?thesis by (simp add: load_counters_def Let_def load_pre_key_counter_def)
qed

text \<open>
  A stand-in for the libraries in closed examples: keys are taken as they are, a box is the key followed by
  the text, a session is one byte, and a ciphertext is the text behind a zero.
\<close>

definition demo_lib :: crypto_lib where
  "demo_lib = \<lparr>l_unix_s = 7, l_salt = replicate 16 3, l_nonce = replicate 24 4, l_uniform = (\<lambda>n. 41), l_reads = (\<lambda>_. True),
     l_sign_keypair = Some \<lparr>ed_pub = replicate 32 9, ed_priv = replicate 64 8\<rparr>,
     l_pwhash = (\<lambda>pw salt. Some (take 32 (to_bytes pw @ salt @ replicate 32 0))),
     l_secretbox = (\<lambda>p n k. Some (replicate 16 0 @ k @ p)),
     l_secretbox_open = (\<lambda>b n k. if take (16 + length k) b = replicate 16 0 @ k then Some (drop (16 + length k) b) else None),
     l_sign = (\<lambda>m k. Some (take 64 (m @ replicate 64 0))), l_hash = (\<lambda>m. take 32 (m @ replicate 32 0)),
     l_pk_to_curve = Some, l_sk_to_curve = (\<lambda>k. Some (take 32 k)), l_decode_point = Some, l_decode_private = Some,
     l_verify = (\<lambda>k m s. s = m), l_sign_xed = (\<lambda>k m. Some m),
     l_generate = (\<lambda>i. Some (5 # replicate 32 (of_nat i), replicate 32 6)),
     l_spk_record = (\<lambda>n t pub priv sig. Some (pub @ priv)), l_opk_record = (\<lambda>n pub priv. Some (pub @ priv)),
     l_context = True, l_cipher = True,
     l_encrypt = (\<lambda>v n p d. (Some (0 # p, 2), d)),
     l_decrypt_pre_key = (\<lambda>v n c d. (if c \<noteq> [] \<and> hd c = 0 then Some (tl c) else None, save_session n 1 [1] d)),
     l_decrypt_message = (\<lambda>v n c d. (if c \<noteq> [] \<and> hd c = 0 then Some (tl c) else None, d)),
     l_bundle_create = (\<lambda>_. True),
     l_process_bundle = (\<lambda>v n b d. case id_is_trusted n (pb_identity b) d of
        (True, d) \<Rightarrow> (Sg_Success, save_session n 1 [1] d) | (False, d) \<Rightarrow> (Sg_Untrusted, d)),
     l_group_create = (\<lambda>v ch u d. (Some [1], store_sender_key ch u 1 [1] d)),
     l_group_process = (\<lambda>ch u b d. store_sender_key ch u 1 b d),
     l_group_encrypt = (\<lambda>ch u p d. (Some (0 # p), d)),
     l_group_decrypt = (\<lambda>ch u c d. (if load_sender_key ch u 1 d \<noteq> None \<and> c \<noteq> [] then Some (tl c) else None, d))\<rparr>"

definition demo_engine :: crypto_engine where
  "demo_engine = snd (engine_init demo_lib ''me'' ''pw'' new_local_store)"

lemma demo_init: "engine_init demo_lib ''me'' ''pw'' new_local_store = (True, demo_engine)"
proof -
  have "fst (engine_init demo_lib ''me'' ''pw'' new_local_store)" by code_simp
  then show ?thesis by (simp add: demo_engine_def prod_eq_iff)
qed

theorem one_time_ids_never_reused_witness:
  "distinct [1, 2, 3, 4 :: u32] \<and> (\<exists>k g. (engine_step ''me'')\<^sup>*\<^sup>* ([], 0, demo_engine) ([1, 2, 3, 4], k, g))"
proof -
  let ?up = "\<lambda>n g. prepare_key_upload demo_lib n g"
  let ?g1 = "snd (?up 3 demo_engine)" and ?k1 = "um_opk_ids (fst (?up 3 demo_engine))"
  let ?g2 = "snd (engine_init demo_lib ''me'' ''pw'' (g_store ?g1))"
  have i: "engine_init demo_lib ''me'' ''pw'' (g_store ?g1) = (True, ?g2)"
  proof -
    have "fst (engine_init demo_lib ''me'' ''pw'' (g_store ?g1))" by code_simp
    then show ?thesis by (simp add: prod_eq_iff)
  qed
  let ?g3 = "snd (?up 1 ?g2)" and ?k3 = "um_opk_ids (fst (?up 1 ?g2))"
  have "(engine_step ''me'')\<^sup>*\<^sup>* ([], 0, demo_engine) ([] @ ?k1, 0 + 3, ?g1)"
    by (intro r_into_rtranclp step_upload [of demo_lib]) simp
  also have "engine_step ''me'' ([] @ ?k1, 0 + 3, ?g1) ([] @ ?k1, 0 + 3, ?g2)" by (rule step_restart [OF _ i]) (simp add: demo_lib_def)
  also have "engine_step ''me'' ([] @ ?k1, 0 + 3, ?g2) (([] @ ?k1) @ ?k3, 0 + 3 + 1, ?g3)"
    by (rule step_upload [of demo_lib]) simp
  finally have run: "(engine_step ''me'')\<^sup>*\<^sup>* ([], 0, demo_engine) (?k1 @ ?k3, 4, ?g3)" by simp
  have "?k1 @ ?k3 = [1, 2, 3, 4]" by code_simp
  with run one_time_ids_never_reused [OF demo_init _ run] show ?thesis by (auto simp: demo_lib_def)
qed

subsection \<open>Restarts\<close>

text \<open>The successful path of \<open>engine_init\<close>, step by step.\<close>

lemma engine_init_steps:
  assumes "engine_init L u pw d = (True, g)"
  obtains g1 g2 g3 where
    "(if has_identity u d then load_own_identity L u pw (new_engine d)
      else generate_and_save L u pw (new_engine d)) = (True, g1)"
    "restore_spk L g1 = (True, g2)" "generate_spk L g2 = (True, g3)" "g = (load_counters L g3)\<lparr>g_user := u\<rparr>"
  using assms by (auto simp: engine_init_def Let_def split: prod.splits if_splits)

text \<open>The signed pre-key in use is the one on record.\<close>

definition spk_on_record :: "crypto_engine \<Rightarrow> bool" where
  "spk_on_record g \<longleftrightarrow> length (dh_pub (spk_pair (g_spk g))) = 32 \<and> length (dh_priv (spk_pair (g_spk g))) = 32 \<and>
     load_local_spk (g_store g) = Some \<lparr>lspk_id = spk_no (g_spk g), lspk_pub = dh_pub (spk_pair (g_spk g)),
       lspk_priv = dh_priv (spk_pair (g_spk g)), lspk_signature = spk_signature (g_spk g)\<rparr>"

lemma store_spk_record_keeps:
  "store_spk_record L s d = (ok, d') \<Longrightarrow> t_local_spk d' = t_local_spk d \<and> t_identity d' = t_identity d"
  by (auto simp: store_spk_record_def store_signed_pre_key_def split: option.splits)

lemma restore_spk_cases:
  assumes "restore_spk L g = (True, g')"
  shows "g_pair g' = g_pair g \<and> g_loaded g' = g_loaded g \<and> t_identity (g_store g') = t_identity (g_store g) \<and>
    (g_spk g' = g_spk g \<or> g_spk g' = no_spk \<or> spk_on_record g')"
  using assms
  by (auto simp: restore_spk_def Let_def spk_on_record_def load_local_spk_def clear_local_spk_def remove_signed_pre_key_def
      dest: store_spk_record_keeps split: option.splits if_splits prod.splits)

lemma generate_x25519_length: "generate_x25519 L i = Some kp \<Longrightarrow> length (dh_pub kp) = 32 \<and> length (dh_priv kp) = 32"
  by (auto simp: generate_x25519_def Let_def split: option.splits if_splits)

lemma generate_spk_cases:
  assumes "generate_spk L g = (True, g')"
  shows "g_pair g' = g_pair g \<and> g_loaded g' = g_loaded g \<and> t_identity (g_store g') = t_identity (g_store g) \<and>
    (if spk_signature (g_spk g) = [] then spk_on_record g' else g' = g)"
  using assms
  by (auto simp: generate_spk_def Let_def spk_on_record_def load_local_spk_def store_local_spk_def
      dest: generate_x25519_length store_spk_record_keeps split: option.splits if_splits prod.splits)

lemma load_counters_cases:
  "g_pair (load_counters L g) = g_pair g \<and> g_loaded (load_counters L g) = g_loaded g \<and>
   g_spk (load_counters L g) = g_spk g \<and> t_identity (g_store (load_counters L g)) = t_identity (g_store g) \<and>
   t_local_spk (g_store (load_counters L g)) = t_local_spk (g_store g) \<and>
   load_registration_id True (g_store (load_counters L g)) = g_registration (load_counters L g)"
proof -
  have "load_registration_id True (g_store (load_counters L g)) = g_registration (load_counters L g)"
    by (cases "l_reads L ''registration_id''")
       (simp_all add: load_counters_def Let_def counters_roundtrip load_registration_id_def [of False])
  then show ?thesis by (simp add: load_counters_def Let_def store_registration_id_def)
qed

text \<open>Two runs of the client use the same libsodium: what one has sealed the other opens.\<close>

definition same_sodium :: "crypto_lib \<Rightarrow> crypto_lib \<Rightarrow> bool" where
  "same_sodium L L' \<longleftrightarrow> l_pwhash L' = l_pwhash L \<and> length (l_nonce L) = NONCEBYTES \<and>
     (\<forall>b n k p. l_secretbox_open L b n k = Some p \<longrightarrow> l_secretbox_open L' b n k = Some p) \<and>
     (\<forall>p n k b. l_secretbox L p n k = Some b \<longrightarrow> MACBYTES \<le> length b \<and> l_secretbox_open L' b n k = Some p)"

lemma encrypt_priv_decrypts:
  assumes "encrypt_priv L priv pw = Some (box, salt)" "same_sodium L L'"
  shows "decrypt_priv L' box salt pw = Some priv"
proof -
  obtain key b where k: "l_pwhash L pw (l_salt L) = Some key" "l_secretbox L priv (l_nonce L) key = Some b"
    "box = l_nonce L @ b" "salt = l_salt L"
    using assms(1) by (auto simp: encrypt_priv_def split: option.splits)
  moreover from k(2) assms(2) have "MACBYTES \<le> length b \<and> l_secretbox_open L' b (l_nonce L) key = Some priv"
    unfolding same_sodium_def by blast
  moreover from assms(2) have "l_pwhash L' = l_pwhash L" "length (l_nonce L) = NONCEBYTES"
    by (simp_all add: same_sodium_def)
  ultimately show ?thesis by (simp add: decrypt_priv_def)
qed

lemma identity_on_record:
  assumes "(if has_identity u d then load_own_identity L u pw (new_engine d)
      else generate_and_save L u pw (new_engine d)) = (True, g)"
    and "same_sodium L L'" and "\<forall>pair. l_sign_keypair L = Some pair \<longrightarrow> length (ed_pub pair) = 32"
  shows "g_loaded g \<and> (\<exists>row. t_identity (g_store g) u = Some row \<and> id_pub row = ed_pub (g_pair g) \<and>
    length (id_pub row) = 32 \<and> decrypt_priv L' (id_priv_enc row) (id_salt row) pw = Some (ed_priv (g_pair g)))"
proof (cases "has_identity u d")
  case True
  then show ?thesis
    using assms by (auto simp: load_own_identity_def load_identity_def new_engine_def Let_def decrypt_priv_def same_sodium_def
        split: option.splits if_splits)
next
  case False
  then show ?thesis
    using assms encrypt_priv_decrypts [OF _ assms(2)]
    by (auto simp: generate_and_save_def save_identity_def new_engine_def Let_def split: option.splits)
qed

text \<open>What a database must still hold: the row of the identity, the signed pre-key and the registration id.\<close>

definition same_secrets :: "string \<Rightarrow> local_store \<Rightarrow> local_store \<Rightarrow> bool" where
  "same_secrets u d d' \<longleftrightarrow> t_identity d' u = t_identity d u \<and> t_local_spk d' = t_local_spk d \<and>
     t_metadata d' ''registration_id'' = t_metadata d ''registration_id''"

lemma upload_opk_secrets: "snd (fold (upload_opk L) is (ku, g)) = g' \<Longrightarrow> same_secrets u (g_store g) (g_store g')"
proof (induction "is" arbitrary: ku g)
  case (Cons i "is")
  obtain ku1 g1 where s: "upload_opk L i (ku, g) = (ku1, g1)" by fastforce
  then have "same_secrets u (g_store g) (g_store g1)"
    by (auto simp: upload_opk_def Let_def store_pre_key_def same_secrets_def split: option.splits)
  moreover have "same_secrets u (g_store g1) (g_store g')" using Cons s by simp
  ultimately show ?case by (simp add: same_secrets_def)
qed (simp add: same_secrets_def)

lemma key_upload_keeps_secrets: "same_secrets u (g_store g) (g_store (snd (prepare_key_upload L n g)))"
proof -
  have "same_secrets u (g_store g) (g_store (snd (fold (upload_opk L) [0..<n] (ku, g))))" for ku
    by (rule upload_opk_secrets) simp
  then show ?thesis
    by (auto simp: prepare_key_upload_def Let_def split_def same_secrets_def store_pre_key_counter_def)
qed

text \<open>
  C36: the secrets of an installation survive a restart.  An engine that was started with a passphrase is
  rebuilt by any later start with that passphrase from a database that still holds identity, signed
  pre-key and registration id, whatever else has changed in it, key uploads included: identity pair, signed pre-key and
  registration id are the same.  This rests on libsodium opening what it sealed, on the signature of the stored pre-key
  verifying, and on the query of the registration id returning.
\<close>

theorem restart_keeps_secrets:
  assumes "engine_init L u pw d = (True, g)" and "same_sodium L L'"
    and "\<forall>pair. l_sign_keypair L = Some pair \<longrightarrow> length (ed_pub pair) = 32"
    and "l_context L'" and "spk_signature (g_spk g) \<noteq> []"
    and "verify_spk_signature L' (ed_pub (g_pair g)) (g_spk g)" and "\<And>d. fst (store_spk_record L' (g_spk g) d)"
    and "load_registration_id True (g_store g) \<noteq> 0"
    and "same_secrets u (g_store g) d'" and "l_reads L' ''registration_id''"
  shows "\<exists>g'. engine_init L' u pw d' = (True, g') \<and> g_pair g' = g_pair g \<and> g_spk g' = g_spk g \<and>
    g_registration g' = g_registration g \<and> g_loaded g'"
proof -
  obtain g1 g2 g3 where s: "(if has_identity u d then load_own_identity L u pw (new_engine d)
      else generate_and_save L u pw (new_engine d)) = (True, g1)"
    "restore_spk L g1 = (True, g2)" "generate_spk L g2 = (True, g3)" "g = (load_counters L g3)\<lparr>g_user := u\<rparr>"
    using engine_init_steps [OF assms(1)] .
  have g: "g_pair g = g_pair g3" "g_spk g = g_spk g3" "t_identity (g_store g) = t_identity (g_store g3)"
    "t_local_spk (g_store g) = t_local_spk (g_store g3)" "load_registration_id True (g_store g) = g_registration g"
    using load_counters_cases [of L g3] by (simp_all add: s(4))
  have same: "g_pair g3 = g_pair g1" "t_identity (g_store g3) = t_identity (g_store g1)"
    using restore_spk_cases [OF s(2)] generate_spk_cases [OF s(3)] by simp_all
  obtain row where row: "t_identity d' u = Some row" "id_pub row = ed_pub (g_pair g)" "length (id_pub row) = 32"
    "decrypt_priv L' (id_priv_enc row) (id_salt row) pw = Some (ed_priv (g_pair g))"
    using identity_on_record [OF s(1) assms(2,3)] assms(9) g same by (auto simp: same_secrets_def)
  have "g_spk g1 = no_spk"
    using s(1) by (auto simp: load_own_identity_def generate_and_save_def new_engine_def Let_def split: option.splits if_splits)
  then have "spk_on_record g3"
    using restore_spk_cases [OF s(2)] generate_spk_cases [OF s(3)] by (auto simp: no_spk_def split: if_splits)
  then have spk: "length (dh_pub (spk_pair (g_spk g))) = 32" "length (dh_priv (spk_pair (g_spk g))) = 32"
    "t_local_spk d' = Some \<lparr>lspk_id = spk_no (g_spk g), lspk_pub = dh_pub (spk_pair (g_spk g)),
       lspk_priv = dh_priv (spk_pair (g_spk g)), lspk_signature = spk_signature (g_spk g)\<rparr>"
    using assms(9) g by (simp_all add: spk_on_record_def load_local_spk_def same_secrets_def)
  let ?h = "(new_engine d')\<lparr>g_pair := g_pair g, g_loaded := True\<rparr>"
  have own: "load_own_identity L' u pw (new_engine d') = (True, ?h)"
    using row by (simp add: load_own_identity_def load_identity_def new_engine_def)
  obtain e where e: "store_spk_record L' (g_spk g) d' = (True, e)" using assms(7) by (cases "store_spk_record L' (g_spk g) d'") (metis fst_conv)
  let ?h2 = "?h\<lparr>g_spk := g_spk g, g_store := e\<rparr>"
  have res: "restore_spk L' ?h = (True, ?h2)"
    using spk assms(5,6) e by (simp add: restore_spk_def load_local_spk_def new_engine_def)
  have gen: "generate_spk L' ?h2 = (True, ?h2)" using assms(5) by (simp add: generate_spk_def)
  have "has_identity u d'" using row(1) by (simp add: has_identity_def)
  with own res gen assms(4) have init: "engine_init L' u pw d' = (True, (load_counters L' ?h2)\<lparr>g_user := u\<rparr>)"
    by (simp add: engine_init_def Let_def)
  have "load_registration_id True e = g_registration g"
    using store_spk_record_metadata [OF e] assms(9) g(5) by (simp add: load_registration_id_def same_secrets_def)
  then have "g_registration (load_counters L' ?h2) = g_registration g"
    using assms(8,10) g(5) by (simp add: load_counters_def Let_def)
  with init load_counters_cases [of L' ?h2] show ?thesis by simp
qed

theorem restart_keeps_secrets_witness:
  "\<exists>g'. engine_init demo_lib ''me'' ''pw'' (g_store (snd (prepare_key_upload demo_lib 3 demo_engine))) = (True, g') \<and>
     g_pair g' = g_pair demo_engine \<and> g_spk g' = g_spk demo_engine \<and> g_registration g' = g_registration demo_engine \<and> g_loaded g'"
proof (rule restart_keeps_secrets [OF demo_init, of demo_lib])
  show "same_sodium demo_lib demo_lib"
    by (auto simp: same_sodium_def demo_lib_def NONCEBYTES_def MACBYTES_def)
  show "spk_signature (g_spk demo_engine) \<noteq> []" by code_simp
  show "verify_spk_signature demo_lib (ed_pub (g_pair demo_engine)) (g_spk demo_engine)" by code_simp
  show "load_registration_id True (g_store demo_engine) \<noteq> 0" by code_simp
  show "same_secrets ''me'' (g_store demo_engine) (g_store (snd (prepare_key_upload demo_lib 3 demo_engine)))"
    by (rule key_upload_keeps_secrets)
qed (simp_all add: demo_lib_def store_spk_record_def)

text \<open>
  C37: a wrong passphrase is an error without effect: the engine does not start, the database stays as it is,
  so that the right passphrase still opens it, and no challenge is signed.
\<close>

theorem wrong_passphrase_refused:
  assumes "load_identity u d = Some row" and "decrypt_priv L (id_priv_enc row) (id_salt row) pw = None"
  shows "\<exists>g. engine_init L u pw d = (False, g) \<and> g_store g = d \<and> sign_challenge L' nonce u g = None"
proof -
  have "has_identity u d" using assms(1) by (simp add: has_identity_def load_identity_def)
  moreover have "\<exists>g. load_own_identity L u pw (new_engine d) = (False, g) \<and> g_store g = d \<and> \<not> g_loaded g"
    using assms by (simp add: load_own_identity_def new_engine_def)
  moreover have "g_store (new_engine d) = d \<and> \<not> g_loaded (new_engine d)" by (simp add: new_engine_def)
  ultimately show ?thesis by (cases "l_context L") (auto simp: engine_init_def Let_def sign_challenge_def)
qed

theorem wrong_passphrase_refused_witness:
  "\<exists>g. engine_init demo_lib ''me'' ''wrong'' (g_store demo_engine) = (False, g) \<and> g_store g = g_store demo_engine \<and>
     sign_challenge demo_lib [1] ''me'' g = None"
proof -
  let ?row = "the (load_identity ''me'' (g_store demo_engine))"
  have "load_identity ''me'' (g_store demo_engine) = Some ?row"
  proof -
    have "has_identity ''me'' (g_store demo_engine)" by code_simp
    then show ?thesis by (auto simp: has_identity_def load_identity_def)
  qed
  moreover have "decrypt_priv demo_lib (id_priv_enc ?row) (id_salt ?row) ''wrong'' = None" by code_simp
  ultimately show ?thesis by (rule wrong_passphrase_refused)
qed

end
