(* ===== verification/Client_State.thy ===== *)
theory Client_State
  imports Grotto_Prelude
begin

text \<open>
  The state the terminal client shows, \<open>state/app_state.cpp\<close>: channels with their messages, unread counts
  and scroll positions, who is online, the user lists of the channels, voice rooms, connection flags,
  search results and file lists.  Previews and inline images of a message are left out; only the preview
  code sets them.  Counters of type \<open>int\<close> are integers.
\<close>

subsection \<open>Data\<close>

datatype presence_view = Pr_Offline | Pr_Online | Pr_Away | Pr_Dnd

record presence_info = pi_status :: presence_view pi_text :: string pi_since :: int

datatype user_role = Role_Regular | Role_Voice | Role_Admin

datatype voice_status = Voice_Off | Voice_Muted | Voice_Talking

record channel_user_info =
  cu_user_id :: string
  cu_role :: user_role
  cu_presence :: presence_view
  cu_voice :: voice_status

record remote_file_entry =
  rf_file_id :: string
  rf_filename :: string
  rf_file_size :: u64
  rf_mime_type :: string
  rf_sender_id :: string
  rf_recipient_id :: string
  rf_channel_id :: string
  rf_uploaded_at :: int
  rf_expires_at :: int

datatype message_kind = Kind_Chat | Kind_System | Kind_VoiceEvent | Kind_Preview

record message =
  m_id :: string
  m_sender :: string
  m_content :: string
  m_timestamp :: int
  m_read_by_remote :: bool
  m_read_at :: int
  m_kind :: message_kind

record channel_state = cs_messages :: "message list" cs_unread :: int cs_scroll :: int

record voice_state =
  vst_in_voice :: bool
  vst_local_test :: bool
  vst_muted :: bool
  vst_deafened :: bool
  vst_local_capture :: bool
  vst_active_channel :: string
  vst_participants :: "string list"
  vst_speaking :: "string list"
  vst_mode :: string
  vst_rtc_connected :: nat
  vst_send_ready :: nat
  vst_recv_ready :: nat

record runtime_ice = ice_servers :: "string list" ice_username :: string ice_password :: string ice_from_server :: bool

record search_result = sr_channel :: string sr_sender :: string sr_content :: string sr_timestamp :: int

record app_state =
  shown_channels :: "(string \<times> channel_state) list"
  active_channel :: string
  online_users :: "(string \<times> presence_info) list"
  voice :: voice_state
  voice_room_users :: "(string \<times> string list) list"
  runtime_ice_config :: runtime_ice
  channel_users :: "(string \<times> (string \<times> channel_user_info) list) list"
  user_voice_status :: "string \<Rightarrow> voice_status option"
  connected :: bool
  connecting :: bool
  local_user :: string
  search_results :: "search_result list"
  channel_files :: "string \<Rightarrow> remote_file_entry list option"

definition empty_channel :: channel_state where
  "empty_channel = \<lparr>cs_messages = [], cs_unread = 0, cs_scroll = 0\<rparr>"

definition no_voice :: voice_state where
  "no_voice = \<lparr>vst_in_voice = False, vst_local_test = False, vst_muted = False, vst_deafened = False,
     vst_local_capture = False, vst_active_channel = [], vst_participants = [], vst_speaking = [], vst_mode = ''toggle'',
     vst_rtc_connected = 0, vst_send_ready = 0, vst_recv_ready = 0\<rparr>"

definition new_app_state :: app_state where
  "new_app_state = \<lparr>shown_channels = [], active_channel = [], online_users = [], voice = no_voice, voice_room_users = [],
     runtime_ice_config = \<lparr>ice_servers = [], ice_username = [], ice_password = [], ice_from_server = False\<rparr>,
     channel_users = [], user_voice_status = (\<lambda>_. None), connected = False, connecting = False, local_user = [],
     search_results = [], channel_files = (\<lambda>_. None)\<rparr>"

definition kMaxMessages :: nat where "kMaxMessages = 1000"

subsection \<open>Channels\<close>

abbreviation channel_at :: "app_state \<Rightarrow> string \<Rightarrow> channel_state option" where
  "channel_at s c \<equiv> map_of (shown_channels s) c"

text \<open>
  The unread count and the scroll position are an \<open>int\<close> of 32 bits; \<open>to_int32\<close> is what two's complement
  makes of a sum that leaves it.  Nothing bounds the unread count (see \<open>unread_count_wraps\<close>).
\<close>

text \<open>A change of a channel that exists; \<open>operator[]\<close> creates it first.\<close>

definition upd_channel :: "string \<Rightarrow> (channel_state \<Rightarrow> channel_state) \<Rightarrow> app_state \<Rightarrow> app_state" where
  "upd_channel c f s =
     (case channel_at s c of None \<Rightarrow> s | Some ch \<Rightarrow> s\<lparr>shown_channels := mput c (f ch) (shown_channels s)\<rparr>)"

definition ensure_channel :: "string \<Rightarrow> app_state \<Rightarrow> app_state" where
  "ensure_channel c s =
     (let s = (if channel_at s c = None then s\<lparr>shown_channels := mput c empty_channel (shown_channels s)\<rparr> else s)
      in if active_channel s = [] then s\<lparr>active_channel := c\<rparr> else s)"

definition push_message :: "string \<Rightarrow> message \<Rightarrow> app_state \<Rightarrow> app_state" where
  "push_message c m s =
     (let ch = (case channel_at s c of None \<Rightarrow> empty_channel | Some ch \<Rightarrow> ch);
          ms = cs_messages ch @ [m];
          ms = (if length ms > kMaxMessages then tl ms else ms);
          ch = ch\<lparr>cs_messages := ms\<rparr>;
          ch = (if c \<noteq> active_channel s \<or> cs_scroll ch > 0 then ch\<lparr>cs_unread := to_int32 (cs_unread ch + 1)\<rparr> else ch)
      in s\<lparr>shown_channels := mput c ch (shown_channels s)\<rparr>)"

text \<open>The last index of a list with a property, as the loop that overwrites a variable finds it.\<close>

definition last_index :: "('a \<Rightarrow> bool) \<Rightarrow> 'a list \<Rightarrow> int" where
  "last_index P xs = fold (\<lambda>i r. if P (xs ! i) then int i else r) [0..<length xs] (- 1)"

definition own_chat :: "string \<Rightarrow> message \<Rightarrow> bool" where
  "own_chat u m \<longleftrightarrow> m_kind m = Kind_Chat \<and> m_sender m = u"

definition mark_direct_messages_read_by_remote ::
  "string \<Rightarrow> string \<Rightarrow> string \<Rightarrow> int \<Rightarrow> app_state \<Rightarrow> bool \<times> app_state" where
  "mark_direct_messages_read_by_remote c u i at s =
     (case channel_at s c of
        None \<Rightarrow> (False, s)
      | Some ch \<Rightarrow>
          if i = [] then (False, s)
          else
            let ms = cs_messages ch;
                existing = last_index (\<lambda>m. own_chat u m \<and> m_read_by_remote m) ms;
                target = last_index (\<lambda>m. own_chat u m \<and> m_id m = i) ms
            in if target < 0 then (False, s)
               else if existing > target then (True, s)
               else
                 let ms = map (\<lambda>m. if own_chat u m then m\<lparr>m_read_by_remote := False, m_read_at := 0\<rparr> else m) ms;
                     t = ms ! nat target;
                     ms = ms[nat target := t\<lparr>m_read_by_remote := True, m_read_at := max (m_read_at t) at\<rparr>]
                 in (True, s\<lparr>shown_channels := mput c (ch\<lparr>cs_messages := ms\<rparr>) (shown_channels s)\<rparr>))"

definition get_active_channel :: "app_state \<Rightarrow> string option" where
  "get_active_channel s = (if active_channel s = [] then None else Some (active_channel s))"

definition set_active_channel :: "string \<Rightarrow> app_state \<Rightarrow> app_state" where
  "set_active_channel c s = upd_channel c (\<lambda>ch. ch\<lparr>cs_unread := 0\<rparr>) (s\<lparr>active_channel := c\<rparr>)"

text \<open>The list of channels: \<open>server\<close> first, the others in order.\<close>

definition channel_list :: "app_state \<Rightarrow> string list" where
  "channel_list s =
     (let ids = map fst (shown_channels s)
      in (if ''server'' \<in> set ids then [''server''] else []) @ sort (filter (\<lambda>c. c \<noteq> ''server'') ids))"

definition channel_snapshot :: "string \<Rightarrow> app_state \<Rightarrow> channel_state" where
  "channel_snapshot c s = (case channel_at s c of None \<Rightarrow> empty_channel | Some ch \<Rightarrow> ch)"

definition remove_channel :: "string \<Rightarrow> app_state \<Rightarrow> app_state" where
  "remove_channel c s =
     (let s = s\<lparr>shown_channels := mdel c (shown_channels s), voice_room_users := mdel c (voice_room_users s)\<rparr>
      in if active_channel s = c
         then s\<lparr>active_channel :=
                  (if channel_at s ''server'' \<noteq> None then ''server''
                   else case shown_channels s of (d, ch) # rest \<Rightarrow> d | [] \<Rightarrow> [])\<rparr>
         else s)"

definition scroll_up :: "string \<Rightarrow> int \<Rightarrow> int \<Rightarrow> app_state \<Rightarrow> app_state" where
  "scroll_up c lines max_offset =
     upd_channel c (\<lambda>ch. ch\<lparr>cs_scroll := min (max 0 max_offset) (max 0 (to_int32 (cs_scroll ch + max 0 lines)))\<rparr>)"

definition scroll_down :: "string \<Rightarrow> int \<Rightarrow> app_state \<Rightarrow> app_state" where
  "scroll_down c lines = upd_channel c (\<lambda>ch. ch\<lparr>cs_scroll := max 0 (to_int32 (cs_scroll ch - lines))\<rparr>)"

definition scroll_to_bottom :: "string \<Rightarrow> app_state \<Rightarrow> app_state" where
  "scroll_to_bottom c = upd_channel c (\<lambda>ch. ch\<lparr>cs_scroll := 0\<rparr>)"

definition mark_read :: "string \<Rightarrow> app_state \<Rightarrow> app_state" where
  "mark_read c = upd_channel c (\<lambda>ch. ch\<lparr>cs_unread := 0\<rparr>)"

definition unread_count :: "string \<Rightarrow> app_state \<Rightarrow> int" where
  "unread_count c s = (case channel_at s c of None \<Rightarrow> 0 | Some ch \<Rightarrow> cs_unread ch)"

subsection \<open>Presence and user lists\<close>

abbreviation users_at :: "app_state \<Rightarrow> string \<Rightarrow> (string \<times> channel_user_info) list option" where
  "users_at s c \<equiv> map_of (channel_users s) c"

text \<open>A change of one user in every list that has it.\<close>

definition upd_everywhere :: "string \<Rightarrow> (channel_user_info \<Rightarrow> channel_user_info) \<Rightarrow> app_state \<Rightarrow> app_state" where
  "upd_everywhere u f s =
     s\<lparr>channel_users := map (\<lambda>(c, us). (c, map (\<lambda>(v, info). (v, if v = u then f info else info)) us)) (channel_users s)\<rparr>"

definition set_presence :: "string \<Rightarrow> presence_view \<Rightarrow> string \<Rightarrow> int \<Rightarrow> app_state \<Rightarrow> app_state" where
  "set_presence u st text since s =
     upd_everywhere u (\<lambda>info. info\<lparr>cu_presence := st\<rparr>)
       (s\<lparr>online_users := mput u \<lparr>pi_status = st, pi_text = text, pi_since = since\<rparr> (online_users s)\<rparr>)"

definition presence_of :: "string \<Rightarrow> app_state \<Rightarrow> presence_view" where
  "presence_of u s = (case map_of (online_users s) u of None \<Rightarrow> Pr_Offline | Some p \<Rightarrow> pi_status p)"

definition presence_info_of :: "string \<Rightarrow> app_state \<Rightarrow> presence_info" where
  "presence_info_of u s =
     (case map_of (online_users s) u of None \<Rightarrow> \<lparr>pi_status = Pr_Offline, pi_text = [], pi_since = 0\<rparr> | Some p \<Rightarrow> p)"

definition list_online_users :: "app_state \<Rightarrow> string list" where
  "list_online_users s = sort (map fst (filter (\<lambda>(u, p). pi_status p \<noteq> Pr_Offline) (online_users s)))"

text \<open>An entry takes over the presence and the voice status that are known for the user.\<close>

definition sync_presence :: "app_state \<Rightarrow> channel_user_info \<Rightarrow> channel_user_info" where
  "sync_presence s info =
     (case map_of (online_users s) (cu_user_id info) of None \<Rightarrow> info | Some p \<Rightarrow> info\<lparr>cu_presence := pi_status p\<rparr>)"

definition sync_voice :: "app_state \<Rightarrow> channel_user_info \<Rightarrow> channel_user_info" where
  "sync_voice s info =
     (case user_voice_status s (cu_user_id info) of None \<Rightarrow> info | Some v \<Rightarrow> info\<lparr>cu_voice := v\<rparr>)"

definition synced :: "app_state \<Rightarrow> channel_user_info \<Rightarrow> channel_user_info" where
  "synced s info = sync_voice s (sync_presence s info)"

definition set_channel_users :: "string \<Rightarrow> channel_user_info list \<Rightarrow> app_state \<Rightarrow> app_state" where
  "set_channel_users c users s =
     s\<lparr>channel_users := mput c (fold (\<lambda>u us. mput (cu_user_id u) (synced s u) us) users []) (channel_users s)\<rparr>"

definition add_channel_user :: "string \<Rightarrow> channel_user_info \<Rightarrow> app_state \<Rightarrow> app_state" where
  "add_channel_user c user s =
     (let us = (case users_at s c of None \<Rightarrow> [] | Some us \<Rightarrow> us)
      in s\<lparr>channel_users := mput c (mput (cu_user_id user) (synced s user) us) (channel_users s)\<rparr>)"

definition remove_channel_user :: "string \<Rightarrow> string \<Rightarrow> app_state \<Rightarrow> app_state" where
  "remove_channel_user c u s =
     (case users_at s c of None \<Rightarrow> s | Some us \<Rightarrow> s\<lparr>channel_users := mput c (mdel u us) (channel_users s)\<rparr>)"

definition set_user_role :: "string \<Rightarrow> string \<Rightarrow> user_role \<Rightarrow> app_state \<Rightarrow> app_state" where
  "set_user_role c u r s =
     (case users_at s c of
        None \<Rightarrow> s
      | Some us \<Rightarrow>
          (case map_of us u of
             None \<Rightarrow> s
           | Some info \<Rightarrow> s\<lparr>channel_users := mput c (mput u (info\<lparr>cu_role := r\<rparr>) us) (channel_users s)\<rparr>))"

definition role_rank :: "user_role \<Rightarrow> nat" where
  "role_rank r = (case r of Role_Regular \<Rightarrow> 0 | Role_Voice \<Rightarrow> 1 | Role_Admin \<Rightarrow> 2)"

definition get_channel_users :: "string \<Rightarrow> app_state \<Rightarrow> channel_user_info list" where
  "get_channel_users c s =
     (case users_at s c of
        None \<Rightarrow> []
      | Some us \<Rightarrow> sort_key (\<lambda>info. 2 - role_rank (cu_role info)) (sort_key cu_user_id (map snd us)))"

definition channel_user :: "string \<Rightarrow> string \<Rightarrow> app_state \<Rightarrow> channel_user_info option" where
  "channel_user c u s = (case users_at s c of None \<Rightarrow> None | Some us \<Rightarrow> map_of us u)"

definition ensure_channel_users_from_online :: "string \<Rightarrow> app_state \<Rightarrow> app_state" where
  "ensure_channel_users_from_online c s =
     (if users_at s c \<noteq> None then s
      else
        let online = filter (\<lambda>(u, p). pi_status p \<noteq> Pr_Offline) (online_users s);
            us = fold (\<lambda>(u, p) us. mput u \<lparr>cu_user_id = u, cu_role = Role_Regular, cu_presence = pi_status p,
                                           cu_voice = Voice_Off\<rparr> us) online []
        in s\<lparr>channel_users := mput c us (channel_users s)\<rparr>)"

definition set_user_voice_status :: "string \<Rightarrow> voice_status \<Rightarrow> app_state \<Rightarrow> app_state" where
  "set_user_voice_status u v s =
     upd_everywhere u (\<lambda>info. info\<lparr>cu_voice := v\<rparr>) (s\<lparr>user_voice_status := (user_voice_status s)(u \<mapsto> v)\<rparr>)"

definition get_user_voice_status :: "string \<Rightarrow> app_state \<Rightarrow> voice_status" where
  "get_user_voice_status u s = (case user_voice_status s u of None \<Rightarrow> Voice_Off | Some v \<Rightarrow> v)"

text \<open>The list of a direct conversation: the local user, online until known otherwise, and the peer.\<close>

definition set_direct_message_users :: "string \<Rightarrow> string \<Rightarrow> string \<Rightarrow> app_state \<Rightarrow> app_state" where
  "set_direct_message_users c me peer s =
     (let build = (\<lambda>u is_local. synced s \<lparr>cu_user_id = u, cu_role = Role_Regular,
                     cu_presence = (if is_local then Pr_Online else Pr_Offline), cu_voice = Voice_Off\<rparr>);
          us = (if me \<noteq> [] then mput me (build me True) [] else []);
          us = (if peer \<noteq> [] \<and> peer \<noteq> me then mput peer (build peer False) us else us)
      in s\<lparr>channel_users := mput c us (channel_users s)\<rparr>)"

subsection \<open>Voice, connection, search, files\<close>

definition set_voice_state :: "voice_state \<Rightarrow> app_state \<Rightarrow> app_state" where
  "set_voice_state v s = s\<lparr>voice := v\<rparr>"

definition set_voice_room_users :: "string \<Rightarrow> string list \<Rightarrow> app_state \<Rightarrow> app_state" where
  "set_voice_room_users c users s =
     s\<lparr>voice_room_users := mput c (fold uinsert users []) (voice_room_users s)\<rparr>"

definition add_voice_room_user :: "string \<Rightarrow> string \<Rightarrow> app_state \<Rightarrow> app_state" where
  "add_voice_room_user c u s =
     (let us = (case map_of (voice_room_users s) c of None \<Rightarrow> [] | Some us \<Rightarrow> us)
      in s\<lparr>voice_room_users := mput c (uinsert u us) (voice_room_users s)\<rparr>)"

definition remove_voice_room_user :: "string \<Rightarrow> string \<Rightarrow> app_state \<Rightarrow> app_state" where
  "remove_voice_room_user c u s =
     (case map_of (voice_room_users s) c of
        None \<Rightarrow> s
      | Some us \<Rightarrow>
          let us = uerase u us
          in if us = [] then s\<lparr>voice_room_users := mdel c (voice_room_users s)\<rparr>
             else s\<lparr>voice_room_users := mput c us (voice_room_users s)\<rparr>)"

definition voice_room_user_count :: "string \<Rightarrow> app_state \<Rightarrow> nat" where
  "voice_room_user_count c s = (case map_of (voice_room_users s) c of None \<Rightarrow> 0 | Some us \<Rightarrow> length us)"

definition set_runtime_ice :: "runtime_ice \<Rightarrow> app_state \<Rightarrow> app_state" where
  "set_runtime_ice r s = s\<lparr>runtime_ice_config := r\<rparr>"

definition set_connected :: "bool \<Rightarrow> app_state \<Rightarrow> app_state" where
  "set_connected b s = s\<lparr>connected := b\<rparr>"

definition set_connecting :: "bool \<Rightarrow> app_state \<Rightarrow> app_state" where
  "set_connecting b s = s\<lparr>connecting := b\<rparr>"

definition set_local_user_id :: "string \<Rightarrow> app_state \<Rightarrow> app_state" where
  "set_local_user_id u s = s\<lparr>local_user := u\<rparr>"

definition set_search_results :: "search_result list \<Rightarrow> app_state \<Rightarrow> app_state" where
  "set_search_results rs s = s\<lparr>search_results := rs\<rparr>"

definition clear_search_results :: "app_state \<Rightarrow> app_state" where
  "clear_search_results s = s\<lparr>search_results := []\<rparr>"

definition set_channel_files :: "string \<Rightarrow> remote_file_entry list \<Rightarrow> app_state \<Rightarrow> app_state" where
  "set_channel_files c fs s = s\<lparr>channel_files := (channel_files s)(c \<mapsto> fs)\<rparr>"

definition get_channel_files :: "string \<Rightarrow> app_state \<Rightarrow> remote_file_entry list" where
  "get_channel_files c s = (case channel_files s c of None \<Rightarrow> [] | Some fs \<Rightarrow> fs)"

definition clear_channel_files :: "string \<Rightarrow> app_state \<Rightarrow> app_state" where
  "clear_channel_files c s = s\<lparr>channel_files := (channel_files s)(c := None)\<rparr>"

subsection \<open>Invariant\<close>

text \<open>
  Channels are bounded and scrolled without going below zero, every user appears once in a list under the
  own name, and the presence an entry shows is the one known for the user.
\<close>

definition channel_ok :: "channel_state \<Rightarrow> bool" where
  "channel_ok ch \<longleftrightarrow> length (cs_messages ch) \<le> kMaxMessages \<and> 0 \<le> cs_scroll ch"

definition entry_ok :: "(string \<times> presence_info) list \<Rightarrow> string \<Rightarrow> channel_user_info \<Rightarrow> bool" where
  "entry_ok online u info \<longleftrightarrow>
     cu_user_id info = u \<and> (\<forall>p. map_of online u = Some p \<longrightarrow> cu_presence info = pi_status p)"

definition users_ok :: "(string \<times> presence_info) list \<Rightarrow> (string \<times> channel_user_info) list \<Rightarrow> bool" where
  "users_ok online us \<longleftrightarrow> keys_distinct us \<and> (\<forall>u info. map_of us u = Some info \<longrightarrow> entry_ok online u info)"

definition app_ok :: "app_state \<Rightarrow> bool" where
  "app_ok s \<longleftrightarrow>
     keys_distinct (shown_channels s) \<and> (\<forall>c ch. channel_at s c = Some ch \<longrightarrow> channel_ok ch) \<and>
     keys_distinct (online_users s) \<and>
     keys_distinct (channel_users s) \<and> (\<forall>c us. users_at s c = Some us \<longrightarrow> users_ok (online_users s) us) \<and>
     keys_distinct (voice_room_users s) \<and> (\<forall>c us. map_of (voice_room_users s) c = Some us \<longrightarrow> distinct us)"

lemma app_okD:
  assumes "app_ok s"
  shows "channel_at s c = Some ch \<Longrightarrow> channel_ok ch" "users_at s c = Some us \<Longrightarrow> users_ok (online_users s) us"
    "map_of (voice_room_users s) c = Some rs \<Longrightarrow> distinct rs"
  using assms by (auto simp: app_ok_def)

lemma new_app_state_ok: "app_ok new_app_state"
  by (simp add: app_ok_def new_app_state_def)

text \<open>Updates of one part keep the invariant when the new part is right.\<close>

lemma put_channel_ok: "app_ok s \<Longrightarrow> channel_ok ch \<Longrightarrow> app_ok (s\<lparr>shown_channels := mput c ch (shown_channels s)\<rparr>)"
  by (auto simp: app_ok_def)

lemma put_users_ok:
  "app_ok s \<Longrightarrow> users_ok (online_users s) us \<Longrightarrow> app_ok (s\<lparr>channel_users := mput c us (channel_users s)\<rparr>)"
  by (auto simp: app_ok_def)

lemma upd_channel_ok:
  assumes "app_ok s" "\<And>ch. channel_ok ch \<Longrightarrow> channel_ok (f ch)"
  shows "app_ok (upd_channel c f s)"
  using assms app_okD(1) [OF assms(1)] by (auto simp: upd_channel_def intro: put_channel_ok split: option.split)

lemma empty_channel_ok: "channel_ok empty_channel"
  by (simp add: channel_ok_def empty_channel_def)

lemma push_message_ok:
  assumes "app_ok s"
  shows "app_ok (push_message c m s)"
proof -
  have "channel_ok (case channel_at s c of None \<Rightarrow> empty_channel | Some ch \<Rightarrow> ch)"
    using app_okD(1) [OF assms] empty_channel_ok by (auto split: option.split)
  then show ?thesis unfolding push_message_def Let_def
    by (intro put_channel_ok assms) (auto simp: channel_ok_def)
qed

lemma mark_remote_ok: "app_ok s \<Longrightarrow> app_ok (snd (mark_direct_messages_read_by_remote c u i t s))"
  using app_okD(1) [of s c]
  by (auto simp: mark_direct_messages_read_by_remote_def Let_def channel_ok_def intro!: put_channel_ok split: option.split)

text \<open>Entries of the user lists.\<close>

lemma synced_ok: "entry_ok online (cu_user_id info) (synced s info)" if "online = online_users s"
  using that by (auto simp: entry_ok_def synced_def sync_presence_def sync_voice_def split: option.split)

lemma users_ok_mput: "users_ok online us \<Longrightarrow> entry_ok online u info \<Longrightarrow> users_ok online (mput u info us)"
  by (auto simp: users_ok_def)

lemma users_ok_mdel: "users_ok online us \<Longrightarrow> users_ok online (mdel u us)"
  by (auto simp: users_ok_def)

lemma users_ok_Nil: "users_ok online []"
  by (simp add: users_ok_def)

lemma users_ok_fold:
  "(\<And>x. x \<in> set xs \<Longrightarrow> entry_ok online (key x) (val x)) \<Longrightarrow> users_ok online us \<Longrightarrow>
     users_ok online (fold (\<lambda>x us. mput (key x) (val x) us) xs us)"
  by (induction xs arbitrary: us) (simp_all add: users_ok_mput)

lemma map_of_map_key: "map_of (map (\<lambda>(k, v). (k, f k v)) xs) k = map_option (f k) (map_of xs k)"
  by (induction xs) auto

lemma keys_map_key: "map fst (map (\<lambda>(k, v). (k, f k v)) xs) = map fst xs"
  by (induction xs) auto

lemma replace_users_ok:
  assumes "app_ok s" "keys_distinct online" "keys_distinct uss"
    and "\<And>c us. map_of uss c = Some us \<Longrightarrow> users_ok online us"
  shows "app_ok (s\<lparr>online_users := online, channel_users := uss\<rparr>)"
  using assms unfolding app_ok_def by simp

lemma upd_everywhere_ok:
  assumes "app_ok s" and "keys_distinct online"
    and entry: "\<And>v info. entry_ok (online_users s) v info \<Longrightarrow> entry_ok online v (if v = u then f info else info)"
  shows "app_ok (upd_everywhere u f (s\<lparr>online_users := online\<rparr>))"
proof -
  let ?g = "\<lambda>us. map (\<lambda>(v, info). (v, if v = u then f info else info)) us"
  have "users_ok online (?g us)" if us: "users_ok (online_users s) us" for us
    unfolding users_ok_def
  proof (intro conjI allI impI)
    show "keys_distinct (?g us)" using us unfolding users_ok_def keys_map_key by simp
    fix v info assume "map_of (?g us) v = Some info"
    then obtain i where "map_of us v = Some i" "info = (if v = u then f i else i)"
      using map_of_map_key [where f = "\<lambda>v info. if v = u then f info else info" and xs = us and k = v] by auto
    with us entry show "entry_ok online v info" by (auto simp: users_ok_def)
  qed
  moreover have "keys_distinct (map (\<lambda>(c, us). (c, ?g us)) (channel_users s))"
    using assms(1) unfolding app_ok_def keys_map_key by simp
  moreover have "map_of (map (\<lambda>(c, us). (c, ?g us)) (channel_users s)) c = map_option ?g (users_at s c)" for c
    using map_of_map_key [where f = "\<lambda>c us. ?g us"] .
  ultimately have "app_ok (s\<lparr>online_users := online, channel_users := map (\<lambda>(c, us). (c, ?g us)) (channel_users s)\<rparr>)"
    using app_okD(2) [OF assms(1)] by (intro replace_users_ok [OF assms(1,2)]) auto
  then show ?thesis by (simp add: upd_everywhere_def)
qed

lemma set_presence_ok:
  assumes "app_ok s"
  shows "app_ok (set_presence u st text since s)"
proof -
  let ?online = "mput u \<lparr>pi_status = st, pi_text = text, pi_since = since\<rparr> (online_users s)"
  have "keys_distinct ?online" using assms by (simp add: app_ok_def)
  then show ?thesis unfolding set_presence_def
    by (rule upd_everywhere_ok [OF assms]) (auto simp: entry_ok_def)
qed

lemma set_voice_status_ok:
  assumes "app_ok s"
  shows "app_ok (set_user_voice_status u v s)"
proof -
  have "app_ok (upd_everywhere u (\<lambda>info. info\<lparr>cu_voice := v\<rparr>) (s\<lparr>online_users := online_users s\<rparr>))"
    using assms by (intro upd_everywhere_ok) (auto simp: app_ok_def entry_ok_def)
  then show ?thesis by (simp add: set_user_voice_status_def upd_everywhere_def app_ok_def)
qed

lemma set_channel_users_ok: "app_ok s \<Longrightarrow> app_ok (set_channel_users c users s)"
  unfolding set_channel_users_def by (intro put_users_ok users_ok_fold users_ok_Nil synced_ok refl)

lemma add_channel_user_ok:
  assumes "app_ok s"
  shows "app_ok (add_channel_user c info s)"
proof -
  have "users_ok (online_users s) (case users_at s c of None \<Rightarrow> [] | Some us \<Rightarrow> us)"
    using app_okD(2) [OF assms] users_ok_Nil by (auto split: option.split)
  then show ?thesis unfolding add_channel_user_def Let_def
    by (intro put_users_ok users_ok_mput synced_ok assms refl)
qed

lemma remove_channel_user_ok: "app_ok s \<Longrightarrow> app_ok (remove_channel_user c u s)"
  using app_okD(2) [of s c] by (auto simp: remove_channel_user_def intro: put_users_ok users_ok_mdel split: option.split)

lemma set_user_role_ok: "app_ok s \<Longrightarrow> app_ok (set_user_role c u r s)"
  using app_okD(2) [of s c]
  by (auto simp: set_user_role_def users_ok_def entry_ok_def intro!: put_users_ok users_ok_mput split: option.split)

lemma users_from_online_ok:
  assumes "app_ok s"
  shows "app_ok (ensure_channel_users_from_online c s)"
proof -
  have p: "map_of (online_users s) u = Some p" if "(u, p) \<in> set (online_users s)" for u p
    using assms that by (auto simp: app_ok_def)
  let ?e = "\<lambda>(u, p). \<lparr>cu_user_id = u, cu_role = Role_Regular, cu_presence = pi_status p, cu_voice = Voice_Off\<rparr>"
  let ?on = "filter (\<lambda>(u, p). pi_status p \<noteq> Pr_Offline) (online_users s)"
  have "users_ok (online_users s) (fold (\<lambda>x us. mput (fst x) (?e x) us) ?on [])"
    by (intro users_ok_fold users_ok_Nil) (auto simp: entry_ok_def p)
  then show ?thesis unfolding ensure_channel_users_from_online_def Let_def
    using assms by (auto intro!: put_users_ok simp: split_def)
qed

lemma dm_users_ok: "app_ok s \<Longrightarrow> app_ok (set_direct_message_users c me peer s)"
proof -
  have e: "entry_ok (online_users s) u (synced s \<lparr>cu_user_id = u, cu_role = r, cu_presence = p, cu_voice = v\<rparr>)" for u r p v
    using synced_ok [OF refl, of s "\<lparr>cu_user_id = u, cu_role = r, cu_presence = p, cu_voice = v\<rparr>"] by simp
  assume "app_ok s"
  then show ?thesis unfolding set_direct_message_users_def Let_def
    by (intro put_users_ok) (auto intro!: users_ok_mput users_ok_Nil e simp del: update.simps)
qed

lemma distinct_fold_uinsert: "distinct us \<Longrightarrow> distinct (fold uinsert xs us)"
  by (induction xs arbitrary: us) simp_all

subsection \<open>Steps\<close>

datatype app_op =
    Ensure_channel string | Push_message string message | Mark_remote string string string int
  | Set_active_channel string | Remove_channel string | Scroll_up string int int | Scroll_down string int
  | Scroll_to_bottom string | Mark_read string | Set_presence string presence_view string int
  | Set_channel_users string "channel_user_info list" | Add_channel_user string channel_user_info
  | Remove_channel_user string string | Set_user_role string string user_role
  | Users_from_online string | Set_user_voice_status string voice_status | Set_dm_users string string string
  | Set_voice_state voice_state | Set_voice_room_users string "string list" | Add_voice_room_user string string
  | Remove_voice_room_user string string | Set_ice runtime_ice | Set_connected bool | Set_connecting bool
  | Set_local_user string | Set_search_results "search_result list" | Set_channel_files string "remote_file_entry list"
  | Clear_channel_files string

fun app_step :: "app_op \<Rightarrow> app_state \<Rightarrow> app_state" where
  "app_step (Ensure_channel c) = ensure_channel c"
| "app_step (Push_message c m) = push_message c m"
| "app_step (Mark_remote c u i t) = snd \<circ> mark_direct_messages_read_by_remote c u i t"
| "app_step (Set_active_channel c) = set_active_channel c"
| "app_step (Remove_channel c) = remove_channel c"
| "app_step (Scroll_up c n k) = scroll_up c n k"
| "app_step (Scroll_down c n) = scroll_down c n"
| "app_step (Scroll_to_bottom c) = scroll_to_bottom c"
| "app_step (Mark_read c) = mark_read c"
| "app_step (Set_presence u p x t) = set_presence u p x t"
| "app_step (Set_channel_users c us) = set_channel_users c us"
| "app_step (Add_channel_user c i) = add_channel_user c i"
| "app_step (Remove_channel_user c u) = remove_channel_user c u"
| "app_step (Set_user_role c u r) = set_user_role c u r"
| "app_step (Users_from_online c) = ensure_channel_users_from_online c"
| "app_step (Set_user_voice_status u v) = set_user_voice_status u v"
| "app_step (Set_dm_users c me peer) = set_direct_message_users c me peer"
| "app_step (Set_voice_state v) = set_voice_state v"
| "app_step (Set_voice_room_users c us) = set_voice_room_users c us"
| "app_step (Add_voice_room_user c u) = add_voice_room_user c u"
| "app_step (Remove_voice_room_user c u) = remove_voice_room_user c u"
| "app_step (Set_ice r) = set_runtime_ice r"
| "app_step (Set_connected b) = set_connected b"
| "app_step (Set_connecting b) = set_connecting b"
| "app_step (Set_local_user u) = set_local_user_id u"
| "app_step (Set_search_results rs) = set_search_results rs"
| "app_step (Set_channel_files c fs) = set_channel_files c fs"
| "app_step (Clear_channel_files c) = clear_channel_files c"

lemma put_room_ok: "app_ok s \<Longrightarrow> distinct us \<Longrightarrow> app_ok (s\<lparr>voice_room_users := mput c us (voice_room_users s)\<rparr>)"
  unfolding app_ok_def by simp

lemma app_ok_same:
  "app_ok (s\<lparr>active_channel := c\<rparr>) = app_ok s" "app_ok (s\<lparr>voice := v\<rparr>) = app_ok s"
  "app_ok (s\<lparr>runtime_ice_config := r\<rparr>) = app_ok s" "app_ok (s\<lparr>connected := b\<rparr>) = app_ok s"
  "app_ok (s\<lparr>connecting := b\<rparr>) = app_ok s" "app_ok (s\<lparr>local_user := u\<rparr>) = app_ok s"
  "app_ok (s\<lparr>search_results := rs\<rparr>) = app_ok s" "app_ok (s\<lparr>channel_files := fs\<rparr>) = app_ok s"
  by (simp_all add: app_ok_def)

lemma app_step_ok:
  assumes "app_ok s"
  shows "app_ok (app_step e s)"
proof (cases e)
  case (Ensure_channel c)
  have "app_ok (if channel_at s c = None then s\<lparr>shown_channels := mput c empty_channel (shown_channels s)\<rparr> else s)"
    using assms by (auto intro: put_channel_ok empty_channel_ok)
  with Ensure_channel show ?thesis by (simp add: ensure_channel_def app_ok_same Let_def)
next
  case (Set_active_channel c)
  have "app_ok (s\<lparr>active_channel := c\<rparr>)" using assms by (simp add: app_ok_same)
  with Set_active_channel show ?thesis by (auto simp: set_active_channel_def channel_ok_def intro: upd_channel_ok)
next
  case (Remove_channel c)
  have "app_ok (s\<lparr>shown_channels := mdel c (shown_channels s), voice_room_users := mdel c (voice_room_users s)\<rparr>)"
    using assms unfolding app_ok_def by simp
  with Remove_channel show ?thesis by (simp add: remove_channel_def app_ok_same Let_def)
next
  case (Scroll_up c n k)
  with assms show ?thesis by (auto simp: scroll_up_def channel_ok_def intro: upd_channel_ok)
next
  case (Scroll_down c n)
  with assms show ?thesis by (auto simp: scroll_down_def channel_ok_def intro: upd_channel_ok)
next
  case (Scroll_to_bottom c)
  with assms show ?thesis by (auto simp: scroll_to_bottom_def channel_ok_def intro: upd_channel_ok)
next
  case (Mark_read c)
  with assms show ?thesis by (auto simp: mark_read_def channel_ok_def intro: upd_channel_ok)
next
  case (Set_voice_room_users c us)
  with assms show ?thesis by (simp add: set_voice_room_users_def put_room_ok distinct_fold_uinsert)
next
  case (Add_voice_room_user c u)
  with assms app_okD(3) [OF assms, of c] show ?thesis
    by (cases "map_of (voice_room_users s) c") (simp_all add: add_voice_room_user_def put_room_ok)
next
  case (Remove_voice_room_user c u)
  have "app_ok (s\<lparr>voice_room_users := mdel c (voice_room_users s)\<rparr>)" using assms unfolding app_ok_def by simp
  with Remove_voice_room_user assms app_okD(3) [OF assms, of c] show ?thesis
    by (cases "map_of (voice_room_users s) c") (simp_all add: remove_voice_room_user_def put_room_ok Let_def)
qed (use assms in \<open>auto simp: push_message_ok mark_remote_ok set_presence_ok set_channel_users_ok add_channel_user_ok
  remove_channel_user_ok set_user_role_ok users_from_online_ok set_voice_status_ok dm_users_ok app_ok_same set_voice_state_def
  set_runtime_ice_def set_connected_def set_connecting_def set_local_user_id_def set_search_results_def
  set_channel_files_def clear_channel_files_def\<close>)

lemma app_steps_ok: "app_ok s \<Longrightarrow> app_ok (fold app_step es s)"
  by (induction es arbitrary: s) (simp_all add: app_step_ok)

subsection \<open>Unread counts\<close>

text \<open>An unread count is never above the number of messages pushed, and goes up by one at most.\<close>

fun pushes :: "app_op \<Rightarrow> nat" where
  "pushes (Push_message c m) = 1"
| "pushes _ = 0"

definition unread_within :: "nat \<Rightarrow> app_state \<Rightarrow> bool" where
  "unread_within n s \<longleftrightarrow> (\<forall>c ch. channel_at s c = Some ch \<longrightarrow> 0 \<le> cs_unread ch \<and> cs_unread ch \<le> int n)"

lemma unread_within_same: "unread_within n s \<Longrightarrow> shown_channels s' = shown_channels s \<Longrightarrow> unread_within n s'"
  by (simp add: unread_within_def)

lemma unread_within_put:
  "unread_within n s \<Longrightarrow> 0 \<le> cs_unread ch \<Longrightarrow> cs_unread ch \<le> int n \<Longrightarrow>
   unread_within n (s\<lparr>shown_channels := mput c ch (shown_channels s)\<rparr>)"
  by (auto simp: unread_within_def)

lemma unread_within_upd:
  assumes "unread_within n s" "\<And>ch. cs_unread (f ch) = cs_unread ch \<or> cs_unread (f ch) = 0"
  shows "unread_within n (upd_channel c f s)"
proof (cases "channel_at s c")
  case (Some ch)
  then have "0 \<le> cs_unread (f ch)" "cs_unread (f ch) \<le> int n"
    using assms(2) [of ch] assms(1) by (auto simp: unread_within_def)
  then show ?thesis using Some assms(1) by (simp add: upd_channel_def unread_within_put)
qed (use assms(1) in \<open>simp add: upd_channel_def\<close>)

lemma push_message_unread:
  assumes "unread_within n s" "n + 1 < 2 ^ 31"
  shows "unread_within (n + 1) (push_message c m s)"
proof -
  let ?ch = "case channel_at s c of None \<Rightarrow> empty_channel | Some ch \<Rightarrow> ch"
  have ch: "0 \<le> cs_unread ?ch" "cs_unread ?ch \<le> int n"
    using assms(1) by (auto simp: unread_within_def empty_channel_def split: option.split)
  have "int n + 1 < 2 ^ 31" using assms(2) by simp
  with ch have "to_int32 (cs_unread ?ch + 1) = cs_unread ?ch + 1"
    by (intro to_int32_same) simp_all
  moreover have "unread_within (n + 1) s" using assms(1) by (force simp: unread_within_def)
  ultimately show ?thesis using ch unfolding push_message_def Let_def
    by (intro unread_within_put) auto
qed

lemma shown_channels_frame [simp]:
  "shown_channels (set_presence u p x t s) = shown_channels s" "shown_channels (set_channel_users c us s) = shown_channels s"
  "shown_channels (add_channel_user c i s) = shown_channels s" "shown_channels (remove_channel_user c u s) = shown_channels s"
  "shown_channels (set_user_role c u r s) = shown_channels s"
  "shown_channels (ensure_channel_users_from_online c s) = shown_channels s"
  "shown_channels (set_user_voice_status u v s) = shown_channels s"
  "shown_channels (set_direct_message_users c me peer s) = shown_channels s"
  "shown_channels (set_voice_state vs s) = shown_channels s" "shown_channels (set_voice_room_users c rs s) = shown_channels s"
  "shown_channels (add_voice_room_user c u s) = shown_channels s"
  "shown_channels (remove_voice_room_user c u s) = shown_channels s" "shown_channels (set_runtime_ice ice s) = shown_channels s"
  "shown_channels (set_connected b s) = shown_channels s" "shown_channels (set_connecting b s) = shown_channels s"
  "shown_channels (set_local_user_id u s) = shown_channels s" "shown_channels (set_search_results srs s) = shown_channels s"
  "shown_channels (set_channel_files c fs s) = shown_channels s" "shown_channels (clear_channel_files c s) = shown_channels s"
  by (simp_all add: set_presence_def upd_everywhere_def set_channel_users_def add_channel_user_def
  remove_channel_user_def set_user_role_def ensure_channel_users_from_online_def set_user_voice_status_def
  set_direct_message_users_def set_voice_state_def set_voice_room_users_def add_voice_room_user_def
  remove_voice_room_user_def set_runtime_ice_def set_connected_def set_connecting_def set_local_user_id_def
  set_search_results_def set_channel_files_def clear_channel_files_def Let_def split: option.split)

lemma quiet_step_unread:
  assumes "unread_within n s" "pushes e = 0" shows "unread_within n (app_step e s)"
proof (cases e)
  case (Ensure_channel c)
  then show ?thesis
    using assms(1) unread_within_put [OF assms(1), of empty_channel c]
    by (auto simp: ensure_channel_def empty_channel_def Let_def unread_within_def)
next
  case (Mark_remote c u i t)
  then show ?thesis
    using assms(1)
    by (auto simp: mark_direct_messages_read_by_remote_def Let_def unread_within_def split: option.split)
next
  case (Set_active_channel c)
  have "unread_within n (s\<lparr>active_channel := c\<rparr>)" using assms(1) by (simp add: unread_within_def)
  then show ?thesis unfolding Set_active_channel app_step.simps set_active_channel_def by (rule unread_within_upd) simp
next
  case (Remove_channel c)
  then show ?thesis using assms(1) by (auto simp: remove_channel_def Let_def unread_within_def)
next
  case (Push_message c m)
  then show ?thesis using assms(2) by simp
qed (use assms(1) in \<open>simp_all add: scroll_up_def scroll_down_def scroll_to_bottom_def mark_read_def unread_within_upd
  unread_within_same [OF assms(1)]\<close>)

lemma steps_unread:
  "unread_within n s \<Longrightarrow> n + sum_list (map pushes es) < 2 ^ 31 \<Longrightarrow>
   unread_within (n + sum_list (map pushes es)) (fold app_step es s)"
proof (induction es arbitrary: n s)
  case (Cons e es)
  have "unread_within (n + pushes e) (app_step e s)"
  proof (cases "pushes e = 0")
    case True
    then show ?thesis using quiet_step_unread [OF Cons.prems(1)] by simp
  next
    case False
    then obtain c m where "e = Push_message c m" by (cases e) simp_all
    then show ?thesis using push_message_unread [OF Cons.prems(1)] Cons.prems(2) by simp
  qed
  from Cons.IH [OF this] Cons.prems(2) show ?case by (simp add: add.assoc)
qed simp

text \<open>After 2^31 messages in a channel that is not the active one the count is negative.\<close>

lemma unread_count_wraps:
  assumes "channel_at s c = Some ch" "cs_unread ch = 2 ^ 31 - 1" "c \<noteq> active_channel s"
  shows "unread_count c (push_message c m s) < 0"
  using assms by (simp add: push_message_def unread_count_def Let_def to_int32_def)

subsection \<open>Read receipts\<close>

lemma last_index_snoc: "last_index P (xs @ [x]) = (if P x then int (length xs) else last_index P xs)"
proof -
  have "fold (\<lambda>i r. if P ((xs @ [x]) ! i) then int i else r) [0..<length xs] (- 1) =
      fold (\<lambda>i r. if P (xs ! i) then int i else r) [0..<length xs] (- 1)"
    by (rule fold_cong) (simp_all add: nth_append fun_eq_iff)
  then show ?thesis by (simp add: last_index_def)
qed

lemma last_index_Nil: "last_index P [] = - 1"
  by (simp add: last_index_def)

lemma last_index_bounds: "- 1 \<le> last_index P xs" "last_index P xs < int (length xs)"
  by (induction xs rule: rev_induct) (auto simp: last_index_snoc last_index_Nil)

lemma last_index_holds: "0 \<le> last_index P xs \<Longrightarrow> P (xs ! nat (last_index P xs))"
proof (induction xs rule: rev_induct)
  case (snoc x xs)
  then show ?case using last_index_bounds(2) [of P xs] by (auto simp: last_index_snoc nth_append split: if_splits)
qed (simp add: last_index_Nil)

lemma last_index_none: "last_index P xs < 0 \<longleftrightarrow> (\<forall>x \<in> set xs. \<not> P x)"
  by (induction xs rule: rev_induct) (auto simp: last_index_snoc last_index_Nil)

lemma last_index_unique:
  assumes "k < length xs" "P (xs ! k)" "\<And>j. j < length xs \<Longrightarrow> P (xs ! j) \<Longrightarrow> j = k"
  shows "last_index P xs = int k"
proof -
  have "\<not> last_index P xs < 0" using assms(1,2) by (auto simp: last_index_none)
  then have "P (xs ! nat (last_index P xs))" "nat (last_index P xs) < length xs"
    using last_index_holds [of P xs] last_index_bounds [of P xs] by auto
  from assms(3) [OF this(2,1)] \<open>\<not> last_index P xs < 0\<close> show ?thesis by simp
qed

text \<open>The position of the last own message shown as read, and how many are.\<close>

definition read_mark :: "string \<Rightarrow> message list \<Rightarrow> int" where
  "read_mark u ms = last_index (\<lambda>m. own_chat u m \<and> m_read_by_remote m) ms"

definition read_marks :: "string \<Rightarrow> message list \<Rightarrow> nat" where
  "read_marks u ms = length (filter (\<lambda>m. own_chat u m \<and> m_read_by_remote m) ms)"

lemma marked_list:
  assumes "k < length ms" "own_chat u (ms ! k)"
  shows "read_mark u ((map (\<lambda>m. if own_chat u m then m\<lparr>m_read_by_remote := False, m_read_at := 0\<rparr> else m) ms)
      [k := (ms ! k)\<lparr>m_read_by_remote := True, m_read_at := t\<rparr>]) = int k"
    "read_marks u ((map (\<lambda>m. if own_chat u m then m\<lparr>m_read_by_remote := False, m_read_at := 0\<rparr> else m) ms)
      [k := (ms ! k)\<lparr>m_read_by_remote := True, m_read_at := t\<rparr>]) = 1"
proof -
  let ?ms = "map (\<lambda>m. if own_chat u m then m\<lparr>m_read_by_remote := False, m_read_at := 0\<rparr> else m) ms"
  let ?t = "(ms ! k)\<lparr>m_read_by_remote := True, m_read_at := t\<rparr>"
  let ?P = "\<lambda>m. own_chat u m \<and> m_read_by_remote m"
  have none: "\<not> ?P (?ms ! j)" if "j < length ms" for j using that by (auto simp: own_chat_def)
  have t: "?P ?t" using assms(2) by (simp add: own_chat_def)
  show "read_mark u (?ms[k := ?t]) = int k" unfolding read_mark_def
    using none t assms(1) by (intro last_index_unique) (auto simp: nth_list_update split: if_splits)
  have "filter ?P (take k ?ms) = []" "filter ?P (drop (Suc k) ?ms) = []"
    using none by (auto simp: filter_empty_conv in_set_conv_nth)
  then show "read_marks u (?ms[k := ?t]) = 1" using t assms(1)
    by (simp add: read_marks_def upd_conv_take_nth_drop)
qed

subsection \<open>Properties\<close>

definition demo_message :: "string \<Rightarrow> message" where
  "demo_message i = \<lparr>m_id = i, m_sender = ''me'', m_content = ''hi'', m_timestamp = 1, m_read_by_remote = False,
     m_read_at = 0, m_kind = Kind_Chat\<rparr>"

text \<open>
  C33: the state the client shows is consistent after any sequence of its operations in which fewer than 2^31 messages
  are pushed: no channel holds more than 1000 messages, scroll positions are not negative, an unread count is
  between zero and the number of messages pushed, every user list has each user
  once and under the own name, and shows for a user whose presence is known exactly that presence.  The unread counts
  are \<open>int\<close>s that nothing bounds, hence the condition.
\<close>

theorem client_state_consistent:
  assumes "sum_list (map pushes es) < 2 ^ 31"
  shows "app_ok (fold app_step es new_app_state) \<and>
    0 \<le> unread_count c (fold app_step es new_app_state) \<and>
    unread_count c (fold app_step es new_app_state) \<le> int (sum_list (map pushes es))"
proof -
  have "unread_within 0 new_app_state" by (simp add: unread_within_def new_app_state_def)
  from steps_unread [OF this, of es] assms have "unread_within (sum_list (map pushes es)) (fold app_step es new_app_state)"
    by simp
  then show ?thesis
    using app_steps_ok [OF new_app_state_ok] by (auto simp: unread_within_def unread_count_def split: option.split)
qed

theorem client_state_consistent_witness:
  "let s = fold app_step [Ensure_channel ''#a'', Push_message ''bob'' (demo_message ''1''), Scroll_up ''bob'' 3 9] new_app_state
   in app_ok s \<and> unread_count ''bob'' s \<le> 1"
  using client_state_consistent [of "[Ensure_channel ''#a'', Push_message ''bob'' (demo_message ''1''), Scroll_up ''bob'' 3 9]" "''bob''"]
  by (simp add: Let_def)

text \<open>
  Read receipts move forward.  A receipt is accepted exactly when the channel has an own chat message
  with its id; then at most one own message is shown as read: the mark goes to the last message with the
  id, or stays where it is when that lies earlier.  No text, sender, time stamp or order changes.
\<close>

theorem read_receipts_move_forward:
  assumes "channel_at s c = Some ch" and "read_marks u (cs_messages ch) \<le> 1"
    and "mark_direct_messages_read_by_remote c u i t s = (ok, s')"
  shows "\<exists>ch'. channel_at s' c = Some ch' \<and>
    (ok \<longleftrightarrow> i \<noteq> [] \<and> (\<exists>m \<in> set (cs_messages ch). own_chat u m \<and> m_id m = i)) \<and>
    read_marks u (cs_messages ch') \<le> 1 \<and>
    read_mark u (cs_messages ch') = (if ok then max (read_mark u (cs_messages ch)) (last_index (\<lambda>m. own_chat u m \<and> m_id m = i) (cs_messages ch))
                                     else read_mark u (cs_messages ch)) \<and>
    map (\<lambda>m. (m_id m, m_sender m, m_content m, m_timestamp m, m_kind m)) (cs_messages ch') =
    map (\<lambda>m. (m_id m, m_sender m, m_content m, m_timestamp m, m_kind m)) (cs_messages ch)"
proof -
  let ?ms = "cs_messages ch"
  let ?Q = "\<lambda>m. own_chat u m \<and> m_id m = i"
  let ?e = "last_index (\<lambda>m. own_chat u m \<and> m_read_by_remote m) ?ms" and ?g = "last_index ?Q ?ms"
  have found: "?g < 0 \<longleftrightarrow> \<not> (\<exists>m \<in> set ?ms. ?Q m)" using last_index_none [of ?Q ?ms] by auto
  note def = assms(3) [unfolded mark_direct_messages_read_by_remote_def assms(1) option.case Let_def]
  consider "i = []" | "i \<noteq> []" "?g < 0" | "i \<noteq> []" "0 \<le> ?g" "?e > ?g" | "i \<noteq> []" "0 \<le> ?g" "?e \<le> ?g" by linarith
  then show ?thesis
  proof cases
    case 4
    have k: "nat ?g < length ?ms" "own_chat u (?ms ! nat ?g)" "int (nat ?g) = ?g"
      using last_index_bounds [of ?Q ?ms] last_index_holds [of ?Q ?ms] 4 by auto
    let ?new = "(map (\<lambda>m. if own_chat u m then m\<lparr>m_read_by_remote := False, m_read_at := 0\<rparr> else m) ?ms)
      [nat ?g := (?ms ! nat ?g)\<lparr>m_read_by_remote := True, m_read_at := max 0 t\<rparr>]"
    have "ok \<and> s' = s\<lparr>shown_channels := mput c (ch\<lparr>cs_messages := ?new\<rparr>) (shown_channels s)\<rparr>"
      using def 4 k by simp
    moreover have "map (\<lambda>m. (m_id m, m_sender m, m_content m, m_timestamp m, m_kind m)) ?new =
        map (\<lambda>m. (m_id m, m_sender m, m_content m, m_timestamp m, m_kind m)) ?ms"
      using k(1) by (intro nth_equalityI) (auto simp: nth_list_update)
    ultimately show ?thesis
      using marked_list [OF k(1,2)] found 4 k(3) by (auto simp: read_mark_def max_def)
  next
    case 1
    then have "\<not> ok \<and> s' = s" using def by auto
    then show ?thesis using assms(1,2) 1 by simp
  next
    case 2
    then have "\<not> ok \<and> s' = s" using def by auto
    moreover have "\<not> (\<exists>m \<in> set ?ms. ?Q m)" using found 2(2) by (rule iffD1)
    ultimately show ?thesis using assms(1,2) by auto
  next
    case 3
    then have "ok \<and> s' = s" using def by auto
    moreover have "\<exists>m \<in> set ?ms. ?Q m" using found 3(2) by linarith
    moreover have "max (read_mark u ?ms) ?g = read_mark u ?ms" using 3(3) by (simp add: read_mark_def)
    ultimately show ?thesis using assms(1,2) 3(1) by auto
  qed
qed

theorem read_receipts_move_forward_witness:
  "let s = fold app_step [Push_message ''bob'' (demo_message ''1''), Push_message ''bob'' (demo_message ''2'')] new_app_state
   in fst (mark_direct_messages_read_by_remote ''bob'' ''me'' ''2'' 5 s)"
proof -
  let ?s = "fold app_step [Push_message ''bob'' (demo_message ''1''), Push_message ''bob'' (demo_message ''2'')] new_app_state"
  let ?ch = "\<lparr>cs_messages = [demo_message ''1'', demo_message ''2''], cs_unread = 2, cs_scroll = 0\<rparr>"
  have ch: "channel_at ?s ''bob'' = Some ?ch"
    by (simp add: push_message_def new_app_state_def empty_channel_def kMaxMessages_def to_int32_same)
  moreover have "read_marks ''me'' (cs_messages ?ch) \<le> 1" by (simp add: read_marks_def demo_message_def)
  ultimately show ?thesis
    using read_receipts_move_forward [OF _ _ surjective_pairing, of ?s "''bob''" ?ch "''me''" "''2''" 5]
    by (auto simp: Let_def own_chat_def demo_message_def)
qed

text \<open>Two gaps: an update from the online list forgets what is known about voice.\<close>

lemma online_list_forgets_voice:
  "let s = ensure_channel_users_from_online ''#c'' (set_user_voice_status ''bob'' Voice_Talking (set_presence ''bob'' Pr_Online [] 0 new_app_state))
   in get_user_voice_status ''bob'' s = Voice_Talking \<and>
      map_option cu_voice (channel_user ''#c'' ''bob'' s) = Some Voice_Off"
  by (simp add: ensure_channel_users_from_online_def set_user_voice_status_def set_presence_def new_app_state_def
      upd_everywhere_def get_user_voice_status_def channel_user_def)

end
