(* ===== verification/Client_Transfer.thy ===== *)
theory Client_Transfer
  imports Protocol
begin

text \<open>
  The client's file transfers, from \<open>grotto-chat-client/src/file/file_transfer.cpp\<close>: the records of the
  manager, the workers that send an upload chunk by chunk, and the handlers of the server's messages.
  The file system is a map from paths to contents; which paths can be opened, the clock, the random
  file id, SHA-256 and the size of an envelope on the wire are given by the context.  Each critical
  section is one step, so an upload is a step function of a worker, between whose steps anything may
  happen; \<open>download\<close> is taken as one step.  The float \<open>progress\<close> of a transfer, shown in the user interface only, is left out.
\<close>

subsection \<open>State\<close>

datatype transfer_direction = UPLOAD | DOWNLOAD

datatype transfer_state = PENDING | UPLOADING | DOWNLOADING | COMPLETED | FAILED | CANCELLED

record transfer_info =
  ti_transfer_id :: string
  ti_file_id :: string
  ti_filename :: string
  ti_mime_type :: string
  ti_file_size :: u64
  ti_bytes :: u64
  ti_direction :: transfer_direction
  ti_state :: transfer_state
  ti_error :: string
  ti_local_path :: string
  ti_recipient :: string
  ti_channel :: string
  ti_created_at :: int
  ti_updated_at :: int

record verification_state = vs_saw_last :: bool vs_complete :: bool

text \<open>The messages the manager hands to its send function.\<close>

datatype client_msg =
    C_UploadRequest file_upload_request
  | C_UploadChunk file_upload_chunk
  | C_Download file_download_request

record transfers =
  tx_infos :: "(string \<times> transfer_info) list"
  tx_by_file :: "string \<Rightarrow> string option"
  tx_verify :: "string \<Rightarrow> verification_state option"
  tx_next_id :: u64
  tx_pending :: "string list"
  tx_can_send :: bool
  tx_shutdown :: bool
  tx_sent :: "client_msg list"
  tx_disk :: "string \<Rightarrow> bytes option"

record client_ctx =
  cc_now :: int
  cc_random_id :: string
  cc_sha256 :: "bytes \<Rightarrow> bytes"
  cc_wire_bytes :: "file_upload_chunk \<Rightarrow> nat"
  cc_readable :: "string \<Rightarrow> bool"
  cc_writable :: "string \<Rightarrow> bool"

definition new_transfers :: "(string \<Rightarrow> bytes option) \<Rightarrow> transfers" where
  "new_transfers disk = \<lparr>tx_infos = [], tx_by_file = (\<lambda>_. None), tx_verify = (\<lambda>_. None), tx_next_id = 1,
     tx_pending = [], tx_can_send = False, tx_shutdown = False, tx_sent = [], tx_disk = disk\<rparr>"

abbreviation CHUNK_SIZE :: nat where "CHUNK_SIZE \<equiv> 61440"
abbreviation kMaxWireEnvelopeBytes :: nat where "kMaxWireEnvelopeBytes \<equiv> 65536"

subsection \<open>Paths and types\<close>

definition path_filename :: "string \<Rightarrow> string" where
  "path_filename p = rev (takeWhile (\<lambda>c. c \<noteq> CHR ''/'') (rev p))"

text \<open>\<open>std::filesystem::path::extension\<close>: from the last dot of the file name, unless the name begins with it.\<close>

definition path_extension :: "string \<Rightarrow> string" where
  "path_extension p =
     (let n = path_filename p; e = rev (takeWhile (\<lambda>c. c \<noteq> CHR ''.'') (rev n))
      in if n = ''..'' \<or> length e + 1 \<ge> length n then [] else CHR ''.'' # e)"

definition detect_mime_type :: "string \<Rightarrow> string" where
  "detect_mime_type path =
     (let ext = lower_string (path_extension path)
      in if ext = ''.txt'' \<or> ext = ''.md'' \<or> ext = ''.log'' then ''text/plain''
         else if ext = ''.jpg'' \<or> ext = ''.jpeg'' then ''image/jpeg''
         else if ext = ''.png'' then ''image/png''
         else if ext = ''.gif'' then ''image/gif''
         else if ext = ''.webp'' then ''image/webp''
         else if ext = ''.pdf'' then ''application/pdf''
         else if ext = ''.json'' then ''application/json''
         else if ext = ''.zip'' then ''application/zip''
         else if ext = ''.mp3'' then ''audio/mpeg''
         else if ext = ''.wav'' then ''audio/wav''
         else if ext = ''.ogg'' then ''audio/ogg''
         else ''application/octet-stream'')"

subsection \<open>Records\<close>

definition get_transfer :: "transfers \<Rightarrow> string \<Rightarrow> transfer_info option" where
  "get_transfer t i = map_of (tx_infos t) i"

definition get_transfer_by_file_id :: "transfers \<Rightarrow> string \<Rightarrow> transfer_info option" where
  "get_transfer_by_file_id t f = (case tx_by_file t f of None \<Rightarrow> None | Some i \<Rightarrow> get_transfer t i)"

definition put_info :: "transfer_info \<Rightarrow> transfers \<Rightarrow> transfers" where
  "put_info info t = t\<lparr>tx_infos := mput (ti_transfer_id info) info (tx_infos t)\<rparr>"

definition upd_info :: "string \<Rightarrow> (transfer_info \<Rightarrow> transfer_info) \<Rightarrow> transfers \<Rightarrow> transfers" where
  "upd_info i f t = (case get_transfer t i of None \<Rightarrow> t | Some info \<Rightarrow> t\<lparr>tx_infos := mput i (f info) (tx_infos t)\<rparr>)"

definition set_ti_state :: "client_ctx \<Rightarrow> transfer_state \<Rightarrow> transfer_info \<Rightarrow> transfer_info" where
  "set_ti_state C st info = info\<lparr>ti_state := st, ti_updated_at := cc_now C\<rparr>"

definition fail_transfer :: "client_ctx \<Rightarrow> string \<Rightarrow> transfer_info \<Rightarrow> transfer_info" where
  "fail_transfer C text info = info\<lparr>ti_state := FAILED, ti_error := text, ti_updated_at := cc_now C\<rparr>"

definition send_fn :: "client_msg \<Rightarrow> transfers \<Rightarrow> transfers" where
  "send_fn m t = t\<lparr>tx_sent := tx_sent t @ [m]\<rparr>"

definition set_send_function :: "transfers \<Rightarrow> transfers" where
  "set_send_function t = t\<lparr>tx_can_send := True\<rparr>"

definition generate_transfer_id :: "transfers \<Rightarrow> string \<times> transfers" where
  "generate_transfer_id t = (''xfer_'' @ show_nat (unat (tx_next_id t)), t\<lparr>tx_next_id := tx_next_id t + 1\<rparr>)"

definition upload :: "client_ctx \<Rightarrow> string \<Rightarrow> string \<Rightarrow> string \<Rightarrow> transfers \<Rightarrow> string \<times> transfers" where
  "upload C path recipient channel t =
     (case tx_disk t path of
        None \<Rightarrow> ([], t)
      | Some content \<Rightarrow>
          let (i, t) = generate_transfer_id t;
              info = \<lparr>ti_transfer_id = i, ti_file_id = cc_random_id C, ti_filename = path_filename path,
                      ti_mime_type = detect_mime_type path, ti_file_size = of_nat (length content), ti_bytes = 0,
                      ti_direction = UPLOAD, ti_state = PENDING, ti_error = [], ti_local_path = path,
                      ti_recipient = recipient, ti_channel = channel, ti_created_at = cc_now C,
                      ti_updated_at = cc_now C\<rparr>;
              t = put_info info t;
              t = t\<lparr>tx_by_file := (tx_by_file t)(ti_file_id info \<mapsto> i)\<rparr>
          in (i, t\<lparr>tx_pending := tx_pending t @ [i]\<rparr>))"

definition download :: "client_ctx \<Rightarrow> string \<Rightarrow> string \<Rightarrow> transfers \<Rightarrow> string \<times> transfers" where
  "download C f path t =
     (let (i, t) = generate_transfer_id t;
          info = \<lparr>ti_transfer_id = i, ti_file_id = f, ti_filename = path_filename path, ti_mime_type = [],
                  ti_file_size = 0, ti_bytes = 0, ti_direction = DOWNLOAD, ti_state = PENDING, ti_error = [],
                  ti_local_path = path, ti_recipient = [], ti_channel = [], ti_created_at = cc_now C,
                  ti_updated_at = cc_now C\<rparr>;
          t = put_info info t;
          t = t\<lparr>tx_by_file := (tx_by_file t)(f \<mapsto> i),
                tx_verify := (tx_verify t)(f \<mapsto> \<lparr>vs_saw_last = False, vs_complete = False\<rparr>)\<rparr>
      in if tx_can_send t
         then (i, put_info (set_ti_state C DOWNLOADING info) (send_fn (C_Download \<lparr>fdr_file_id = f, fdr_chunk_index = 0\<rparr>) t))
         else (i, put_info (fail_transfer C ''Network not available'' info) t))"

definition cancel_transfer :: "client_ctx \<Rightarrow> string \<Rightarrow> transfers \<Rightarrow> transfers" where
  "cancel_transfer C i t = upd_info i (set_ti_state C CANCELLED) t"

text \<open>Most recently updated first, and among those most recently created.\<close>

definition recent_first :: "transfer_info list \<Rightarrow> transfer_info list" where
  "recent_first infos = sort_key (\<lambda>i. - ti_updated_at i) (sort_key (\<lambda>i. - ti_created_at i) infos)"

definition get_active_transfers :: "transfers \<Rightarrow> transfer_info list" where
  "get_active_transfers t =
     recent_first (filter (\<lambda>i. ti_state i \<in> {UPLOADING, DOWNLOADING, PENDING}) (map snd (tx_infos t)))"

definition list_transfers :: "nat \<Rightarrow> transfers \<Rightarrow> transfer_info list" where
  "list_transfers limit t =
     (let result = recent_first (map snd (tx_infos t))
      in if limit > 0 \<and> length result > limit then take limit result else result)"

definition finished :: "transfer_info \<Rightarrow> bool" where
  "finished info \<longleftrightarrow> ti_state info \<in> {COMPLETED, FAILED, CANCELLED}"

fun clear_loop :: "(string \<times> transfer_info) list \<Rightarrow> transfers \<Rightarrow> transfers" where
  "clear_loop [] t = t"
| "clear_loop ((i, info) # rest) t =
     clear_loop rest
       (if finished info
        then t\<lparr>tx_by_file := (tx_by_file t)(ti_file_id info := None),
               tx_verify := (tx_verify t)(ti_file_id info := None),
               tx_infos := mdel i (tx_infos t)\<rparr>
        else t)"

definition clear_completed :: "transfers \<Rightarrow> transfers" where
  "clear_completed t = clear_loop (tx_infos t) t"

subsection \<open>Messages of the server\<close>

text \<open>\<open>client::file::FileChunk\<close>, made from the protocol message.\<close>

record file_chunk = fk_file_id :: string fk_index :: u32 fk_data :: bytes fk_is_last :: bool

definition transfer_of :: "transfers \<Rightarrow> string \<Rightarrow> (string \<times> transfer_info) option" where
  "transfer_of t f =
     (case tx_by_file t f of
        None \<Rightarrow> None
      | Some i \<Rightarrow> map_option (Pair i) (get_transfer t i))"

definition on_file_chunk :: "client_ctx \<Rightarrow> file_chunk \<Rightarrow> transfers \<Rightarrow> transfers" where
  "on_file_chunk C c t =
     (case transfer_of t (fk_file_id c) of
        None \<Rightarrow> t
      | Some (i, info) \<Rightarrow>
          let path = ti_local_path info
          in if ti_state info = CANCELLED then t
             else if \<not> cc_writable C path then upd_info i (fail_transfer C ''Failed to write file'') t
             else
               let old = (case tx_disk t path of None \<Rightarrow> [] | Some b \<Rightarrow> b);
                   t = t\<lparr>tx_disk := (tx_disk t)(path \<mapsto> old @ fk_data c)\<rparr>;
                   t = upd_info i (\<lambda>info. info\<lparr>ti_bytes := ti_bytes info + of_nat (length (fk_data c)),
                                              ti_updated_at := cc_now C\<rparr>) t
               in if fk_is_last c
                  then t\<lparr>tx_verify := (tx_verify t)(fk_file_id c \<mapsto>
                         (case tx_verify t (fk_file_id c) of
                            None \<Rightarrow> \<lparr>vs_saw_last = True, vs_complete = False\<rparr>
                          | Some v \<Rightarrow> v\<lparr>vs_saw_last := True\<rparr>))\<rparr>
                  else t)"

definition on_file_progress :: "client_ctx \<Rightarrow> string \<Rightarrow> u64 \<Rightarrow> u64 \<Rightarrow> string \<Rightarrow> transfers \<Rightarrow> transfers" where
  "on_file_progress C f done_bytes total_bytes status t =
     (case transfer_of t f of
        None \<Rightarrow> t
      | Some (i, _) \<Rightarrow>
          upd_info i (\<lambda>info.
            let info = info\<lparr>ti_file_size := total_bytes,
                  ti_bytes := (if ti_direction info = UPLOAD then max (ti_bytes info) done_bytes else done_bytes),
                  ti_updated_at := cc_now C\<rparr>
            in if status = ''uploading'' then info\<lparr>ti_state := UPLOADING\<rparr>
               else if status = ''downloading'' then info\<lparr>ti_state := DOWNLOADING\<rparr>
               else info) t)"

definition sha256_file :: "client_ctx \<Rightarrow> string \<Rightarrow> transfers \<Rightarrow> bytes" where
  "sha256_file C path t =
     (if \<not> cc_readable C path then []
      else case tx_disk t path of None \<Rightarrow> [] | Some content \<Rightarrow> cc_sha256 C content)"

definition checksum_matches_path :: "client_ctx \<Rightarrow> string \<Rightarrow> bytes \<Rightarrow> transfers \<Rightarrow> bool" where
  "checksum_matches_path C path expected t \<longleftrightarrow> expected = [] \<or> sha256_file C path t = expected"

definition on_file_complete :: "client_ctx \<Rightarrow> string \<Rightarrow> u64 \<Rightarrow> bytes \<Rightarrow> transfers \<Rightarrow> transfers" where
  "on_file_complete C f total_bytes checksum t =
     (case transfer_of t f of
        None \<Rightarrow> t
      | Some (i, info) \<Rightarrow>
          let t = upd_info i (\<lambda>info. info\<lparr>ti_bytes := total_bytes, ti_file_size := total_bytes,
                                           ti_updated_at := cc_now C\<rparr>) t;
              t = t\<lparr>tx_verify := (case tx_verify t f of None \<Rightarrow> tx_verify t
                                   | Some v \<Rightarrow> (tx_verify t)(f \<mapsto> v\<lparr>vs_complete := True\<rparr>))\<rparr>
          in if checksum \<noteq> [] \<and> \<not> checksum_matches_path C (ti_local_path info) checksum t
             then upd_info i (\<lambda>info. info\<lparr>ti_state := FAILED, ti_error := ''Checksum mismatch after transfer''\<rparr>) t
             else upd_info i (\<lambda>info. info\<lparr>ti_state := COMPLETED\<rparr>) t)"

definition on_file_error :: "client_ctx \<Rightarrow> string \<Rightarrow> string \<Rightarrow> transfers \<Rightarrow> transfers" where
  "on_file_error C f text t =
     (case transfer_of t f of
        None \<Rightarrow> t
      | Some (i, info) \<Rightarrow>
          if ti_state info = FAILED \<and> ti_error info = text then t
          else (upd_info i (fail_transfer C text) t)\<lparr>tx_verify := (tx_verify t)(f := None)\<rparr>)"

subsection \<open>The upload workers\<close>

definition upload_request :: "transfer_info \<Rightarrow> file_upload_request" where
  "upload_request info = \<lparr>fur_file_id = ti_file_id info, fur_filename = ti_filename info,
     fur_file_size = ti_file_size info, fur_mime_type = ti_mime_type info, fur_recipient_id = ti_recipient info,
     fur_channel_id = ti_channel info, fur_chunk_size = of_nat CHUNK_SIZE\<rparr>"

definition send_file_request :: "transfer_info \<Rightarrow> transfers \<Rightarrow> transfers" where
  "send_file_request info t = (if tx_can_send t then send_fn (C_UploadRequest (upload_request info)) t else t)"

definition send_file_chunk :: "client_ctx \<Rightarrow> string \<Rightarrow> u32 \<Rightarrow> bytes \<Rightarrow> bool \<Rightarrow> transfers \<Rightarrow> transfers" where
  "send_file_chunk C i k data is_last t =
     (if \<not> tx_can_send t then t
      else case get_transfer t i of
        None \<Rightarrow> t
      | Some info \<Rightarrow>
          let c = \<lparr>fuc_file_id = ti_file_id info, fuc_chunk_index = k, fuc_data = data, fuc_is_last = is_last,
                   fuc_checksum = cc_sha256 C data\<rparr>
          in if cc_wire_bytes C c > kMaxWireEnvelopeBytes
             then upd_info i (fail_transfer C ''Upload chunk exceeds wire size limit'') t
             else send_fn (C_UploadChunk c) t)"

text \<open>A worker in the middle of a file: its copy of the record, and where it reads.\<close>

record worker =
  w_transfer :: string
  w_info :: transfer_info
  w_offset :: nat
  w_index :: u32
  w_sent :: u64
  w_good :: bool

definition begin_upload :: "client_ctx \<Rightarrow> string \<Rightarrow> transfer_info \<Rightarrow> transfers \<Rightarrow> worker option \<times> transfers" where
  "begin_upload C i info t =
     (if \<not> tx_can_send t then (None, upd_info i (fail_transfer C ''Network not available'') t)
      else
        let t = upd_info i (set_ti_state C UPLOADING) (send_file_request info t);
            path = ti_local_path info
        in if tx_disk t path = None \<or> \<not> cc_readable C path
           then (None, upd_info i (fail_transfer C ''Failed to read file'') t)
           else (Some \<lparr>w_transfer = i, w_info = info, w_offset = 0, w_index = 0, w_sent = 0, w_good = True\<rparr>, t))"

text \<open>One round of the loop; no worker is left when it ends.  A short read sets the end-of-file state.\<close>

definition upload_step :: "client_ctx \<Rightarrow> worker \<Rightarrow> transfers \<Rightarrow> worker option \<times> transfers" where
  "upload_step C w t =
     (let i = w_transfer w
      in if \<not> w_good w \<or> tx_shutdown t then (None, t)
         else if (case get_transfer t i of None \<Rightarrow> False | Some info \<Rightarrow> ti_state info \<in> {CANCELLED, FAILED})
         then (None, t)
         else
           let content = (case tx_disk t (ti_local_path (w_info w)) of None \<Rightarrow> [] | Some b \<Rightarrow> b);
               data = take CHUNK_SIZE (drop (w_offset w) content);
               n = length data
           in if n = 0 then (None, t)
              else
                let is_last = (n < CHUNK_SIZE \<or> w_sent w + of_nat n \<ge> ti_file_size (w_info w))
                in (Some (w\<lparr>w_offset := w_offset w + n, w_index := w_index w + 1, w_sent := w_sent w + of_nat n,
                             w_good := n = CHUNK_SIZE\<rparr>),
                    send_file_chunk C i (w_index w) data is_last t))"

text \<open>A worker takes the next queued upload.\<close>

definition take_upload :: "client_ctx \<Rightarrow> transfers \<Rightarrow> worker option \<times> transfers" where
  "take_upload C t =
     (case tx_pending t of
        [] \<Rightarrow> (None, t)
      | i # rest \<Rightarrow>
          let t = t\<lparr>tx_pending := rest\<rparr>
          in case get_transfer t i of
               None \<Rightarrow> (None, t)
             | Some info \<Rightarrow> if ti_state info = CANCELLED then (None, t) else begin_upload C i info t)"

text \<open>The upload when nothing else happens in between; \<open>None\<close> if it never ended.\<close>

partial_function (option) run_worker :: "client_ctx \<Rightarrow> worker option \<times> transfers \<Rightarrow> transfers option" where
  "run_worker C wt =
     (case wt of (None, t) \<Rightarrow> Some t | (Some w, t) \<Rightarrow> run_worker C (upload_step C w t))"

subsection \<open>What progress messages and existing files do\<close>

text \<open>A late progress message takes a cancelled (or failed) upload up again: the state is overwritten.\<close>

lemma progress_undoes_cancel:
  assumes "tx_by_file t f = Some i" "get_transfer t i = Some info" "ti_state info = CANCELLED"
  shows "\<exists>info'. get_transfer (on_file_progress C f a b ''uploading'' t) i = Some info' \<and> ti_state info' = UPLOADING"
  using assms by (auto simp: on_file_progress_def transfer_of_def upd_info_def get_transfer_def Let_def)

text \<open>A download appends to whatever is at its destination; indices are not looked at.\<close>

lemma chunk_appends_to_existing_file:
  assumes "tx_by_file t f = Some i" "get_transfer t i = Some info" "ti_state info \<noteq> CANCELLED"
    "cc_writable C (ti_local_path info)" "tx_disk t (ti_local_path info) = Some old"
  shows "tx_disk (on_file_chunk C \<lparr>fk_file_id = f, fk_index = k, fk_data = b, fk_is_last = l\<rparr> t) (ti_local_path info) = Some (old @ b)"
  using assms by (auto simp: on_file_chunk_def transfer_of_def upd_info_def get_transfer_def Let_def split: option.splits)

end
