(* ===== verification/Client_Commands.thy ===== *)
theory Client_Commands
  imports Grotto_Text
begin

text \<open>
  The command line of the terminal client, \<open>input/command_parser.cpp\<close> and \<open>input/tab_complete.cpp\<close>: the
  tokeniser with quotes and backslashes, aliases, pasted paths, and the cycle of completions.  Characters
  are bytes; the character classes are those of the C locale.
\<close>

subsection \<open>Tables\<close>

definition kKnownCommands :: "string list" where
  "kKnownCommands =
     [''/join'', ''/part'', ''/msg'', ''/me'', ''/call'', ''/hangup'', ''/accept'',
      ''/voice'', ''/voicetest'', ''/mute'', ''/deafen'', ''/vmode'', ''/ptt'', ''/trust'', ''/safety'',
      ''/away'', ''/afk'', ''/back'', ''/dnd'', ''/set'', ''/clear'', ''/search'',
      ''/quit'', ''/disconnect'', ''/status'', ''/help'', ''/reload_help'', ''/settings'', ''/version'',
      ''/diag'', ''/names'', ''/whois'',
      ''/upload'', ''/download'', ''/transfers'', ''/files'', ''/downloads'', ''/quota'', ''/rmfile'',
      ''/j'', ''/p'', ''/w'', ''/q'', ''/h'', ''/rh'', ''/st'', ''/ns'', ''/ver'', ''/up'', ''/dl'', ''/xfers'', ''/ls'', ''/dir'']"

definition kCommandAliases :: "(string \<times> string) list" where
  "kCommandAliases =
     [(''/j'', ''/join''), (''/p'', ''/part''), (''/w'', ''/msg''), (''/afk'', ''/away''), (''/q'', ''/quit''),
      (''/h'', ''/help''), (''/rh'', ''/reload_help''), (''/st'', ''/status''), (''/ns'', ''/names''),
      (''/ver'', ''/version''), (''/up'', ''/upload''), (''/dl'', ''/download''), (''/xfers'', ''/transfers''),
      (''/ls'', ''/files''), (''/dir'', ''/downloads''), (''/ptt'', ''/vmode'')]"

abbreviation backslash :: char where "backslash \<equiv> CHR 0x5C"
abbreviation dquote :: char where "dquote \<equiv> CHR 0x22"
abbreviation squote :: char where "squote \<equiv> CHR 0x27"

subsection \<open>Tokeniser\<close>

text \<open>
  The loop of \<open>tokenize_command\<close>: the open quote if there is one, the current token, the finished ones and
  the characters still to read.
\<close>

fun tokenize_loop :: "char option \<Rightarrow> string \<Rightarrow> string list \<Rightarrow> string \<Rightarrow> string list" where
  "tokenize_loop q current tokens [] = (if current \<noteq> [] then tokens @ [current] else tokens)"
| "tokenize_loop (Some q) current tokens (ch # line) =
     (if ch = q then tokenize_loop None current tokens line
      else case line of
             [] \<Rightarrow> tokenize_loop (Some q) (current @ [ch]) tokens line
           | next # line' \<Rightarrow>
               if ch = backslash \<and> (next = q \<or> next = backslash)
               then tokenize_loop (Some q) (current @ [next]) tokens line'
               else tokenize_loop (Some q) (current @ [ch]) tokens line)"
| "tokenize_loop None current tokens (ch # line) =
     (if c_isspace ch
      then if current \<noteq> [] then tokenize_loop None [] (tokens @ [current]) line
           else tokenize_loop None current tokens line
      else if ch = dquote \<or> ch = squote then tokenize_loop (Some ch) current tokens line
      else case line of
             [] \<Rightarrow> tokenize_loop None (current @ [ch]) tokens line
           | next # line' \<Rightarrow>
               if ch = backslash \<and> (c_isspace next \<or> next = dquote \<or> next = squote \<or> next = backslash)
               then tokenize_loop None (current @ [next]) tokens line'
               else tokenize_loop None (current @ [ch]) tokens line)"

definition tokenize_command :: "string \<Rightarrow> string list" where
  "tokenize_command line = tokenize_loop None [] [] line"

record parsed_command = pc_name :: string pc_args :: "string list"

definition parse_command :: "string \<Rightarrow> parsed_command option" where
  "parse_command line =
     (if line = [] \<or> hd line \<noteq> CHR ''/'' then None
      else case tokenize_command (tl line) of
             [] \<Rightarrow> None
           | token # args \<Rightarrow>
               let name = lower_string (''/'' @ token);
                   name = (case map_of kCommandAliases name of Some n \<Rightarrow> n | None \<Rightarrow> name)
               in Some \<lparr>pc_name = name, pc_args = args\<rparr>)"

subsection \<open>Pasted paths\<close>

definition trim_ascii :: "string \<Rightarrow> string" where
  "trim_ascii text = rev (dropWhile c_isspace (rev (dropWhile c_isspace text)))"

definition unquote :: "string \<Rightarrow> string" where
  "unquote text =
     (if 2 \<le> length text \<and> (hd text = dquote \<and> last text = dquote \<or> hd text = squote \<and> last text = squote)
      then take (length text - 2) (tl text) else text)"

definition path_escape :: "char \<Rightarrow> bool" where
  "path_escape c \<longleftrightarrow> c_isspace c \<or> c = dquote \<or> c = squote \<or> c = CHR ''('' \<or> c = CHR '')'' \<or> c = CHR ''['' \<or> c = CHR '']''"

fun unescape_pasted_path :: "string \<Rightarrow> string" where
  "unescape_pasted_path [] = []"
| "unescape_pasted_path [c] = [c]"
| "unescape_pasted_path (c # d # cs) =
     (if c = backslash \<and> path_escape d then d # unescape_pasted_path cs
      else c # unescape_pasted_path (d # cs))"

text \<open>The file system says which paths exist and which are regular files; an error counts as no.\<close>

definition detect_local_file_from_paste :: "(string \<Rightarrow> bool) \<Rightarrow> (string \<Rightarrow> bool) \<Rightarrow> string \<Rightarrow> string option" where
  "detect_local_file_from_paste exists regular text =
     (let trimmed = trim_ascii text
      in if trimmed = [] then None
         else if CHR ''\<newline>'' \<in> set trimmed \<or> CHR 0x0D \<in> set trimmed then None
         else
           let trimmed = unescape_pasted_path (unquote trimmed)
           in if trimmed = [] then None
              else if \<not> exists trimmed then None
              else if \<not> regular trimmed then None
              else Some trimmed)"

definition quote_for_upload_command :: "string \<Rightarrow> string" where
  "quote_for_upload_command text =
     dquote # concat (map (\<lambda>ch. if ch = dquote then [backslash, dquote] else [ch]) text) @ [dquote]"

definition make_upload_command_for_path :: "string \<Rightarrow> string" where
  "make_upload_command_for_path path = ''/upload '' @ quote_for_upload_command path"

subsection \<open>Completion\<close>

record tab_completer =
  tc_in_cycle :: bool
  tc_stem :: string
  tc_candidates :: "string list"
  tc_cycle_pos :: nat

definition tab_reset :: "tab_completer \<Rightarrow> tab_completer" where
  "tab_reset t = t\<lparr>tc_in_cycle := False, tc_candidates := [], tc_cycle_pos := 0\<rparr>"

definition build_candidates :: "string \<Rightarrow> string list \<Rightarrow> string list \<Rightarrow> string list \<Rightarrow> string list" where
  "build_candidates partial online_users channels commands =
     (if partial = [] then []
      else
        let lp = lower_string partial;
            matches = filter (\<lambda>x. starts_with lp (lower_string x))
        in sort (if hd partial = CHR ''/'' then map (\<lambda>cmd. cmd @ '' '') (matches commands)
                 else if hd partial = CHR ''#'' then matches channels
                 else map (\<lambda>nick. nick @ '': '') (matches online_users)))"

definition tab_complete ::
  "string \<Rightarrow> string list \<Rightarrow> string list \<Rightarrow> string list \<Rightarrow> tab_completer \<Rightarrow> string \<times> tab_completer" where
  "tab_complete partial online_users channels commands t =
     (let t = (if tc_in_cycle t then t
               else t\<lparr>tc_stem := partial,
                      tc_candidates := build_candidates partial online_users channels commands,
                      tc_cycle_pos := 0, tc_in_cycle := True\<rparr>)
      in if tc_candidates t = [] then (partial, t)
         else (tc_candidates t ! tc_cycle_pos t,
               t\<lparr>tc_cycle_pos := (tc_cycle_pos t + 1) mod length (tc_candidates t)\<rparr>))"

subsection \<open>The tokeniser against a split at white space\<close>

text \<open>Without quotes and backslashes the tokens are the maximal runs without white space.\<close>

definition plain_char :: "char \<Rightarrow> bool" where
  "plain_char c \<longleftrightarrow> c \<noteq> backslash \<and> c \<noteq> dquote \<and> c \<noteq> squote"

lemma tokenize_loop_None_plain:
  assumes "plain_char ch"
  shows "tokenize_loop None current tokens (ch # line) =
    (if c_isspace ch then tokenize_loop None [] (if current \<noteq> [] then tokens @ [current] else tokens) line
     else tokenize_loop None (current @ [ch]) tokens line)"
  using assms by (cases line) (auto simp: plain_char_def)

lemma tokenize_plain_loop:
  assumes "list_all plain_char line"
  shows "tokenize_loop None current tokens line = tokens @
    (if current = [] then words_of line
     else (current @ takeWhile (\<lambda>c. \<not> c_isspace c) line) # words_of (dropWhile (\<lambda>c. \<not> c_isspace c) line))"
  using assms
proof (induction line arbitrary: current tokens)
  case Nil
  show ?case by (simp add: words_of.simps)
next
  case (Cons c cs)
  then have c: "plain_char c" and cs: "list_all plain_char cs" by auto
  have space: "words_of (c # cs) = words_of cs" if "c_isspace c"
    using that by (subst (1 2) words_of.simps) simp
  have word: "words_of (c # cs) = takeWhile (\<lambda>c. \<not> c_isspace c) (c # cs) # words_of (dropWhile (\<lambda>c. \<not> c_isspace c) (c # cs))"
    if "\<not> c_isspace c"
    using that by (subst words_of.simps) simp
  show ?case
    unfolding tokenize_loop_None_plain [OF c] Cons.IH [OF cs] by (simp add: space word)
qed

lemma tokenize_plain: "list_all plain_char line \<Longrightarrow> tokenize_command line = words_of line"
  by (simp add: tokenize_command_def tokenize_plain_loop)

subsection \<open>Quoted paths\<close>

text \<open>
  Paths the quoting is safe for: no backslash at the end, and none before another backslash or a double
  quote.  The quoting leaves backslashes alone, but the tokeniser reads them as escapes.
\<close>

fun quotable :: "string \<Rightarrow> bool" where
  "quotable [] \<longleftrightarrow> True"
| "quotable (c # cs) \<longleftrightarrow> (c = backslash \<longrightarrow> cs \<noteq> [] \<and> hd cs \<noteq> backslash \<and> hd cs \<noteq> dquote) \<and> quotable cs"

lemma tokenize_quoted:
  assumes "quotable p"
  shows "tokenize_loop (Some dquote) current tokens
      (concat (map (\<lambda>ch. if ch = dquote then [backslash, dquote] else [ch]) p) @ dquote # line) =
    tokenize_loop None (current @ p) tokens line"
  using assms
proof (induction p arbitrary: current)
  case Nil
  show ?case by simp
next
  case (Cons c cs)
  then have IH: "tokenize_loop (Some dquote) (current @ [c]) tokens
      (concat (map (\<lambda>ch. if ch = dquote then [backslash, dquote] else [ch]) cs) @ dquote # line) =
    tokenize_loop None (current @ c # cs) tokens line" by simp
  show ?case
  proof (cases "c = dquote")
    case True
    then show ?thesis using IH by simp
  next
    case False
    have "concat (map (\<lambda>ch. if ch = dquote then [backslash, dquote] else [ch]) cs) @ dquote # line = n # rest \<Longrightarrow>
        c = backslash \<Longrightarrow> n \<noteq> dquote \<and> n \<noteq> backslash" for n rest
      using Cons.prems by (cases cs) (auto split: if_splits)
    then show ?thesis using False IH
      by (cases "concat (map (\<lambda>ch. if ch = dquote then [backslash, dquote] else [ch]) cs) @ dquote # line") auto
  qed
qed

lemma tokenize_upload:
  assumes "quotable p" "p \<noteq> []"
  shows "tokenize_command (''upload '' @ quote_for_upload_command p) = [''upload'', p]"
proof -
  have "tokenize_command (''upload '' @ dquote # line) = tokenize_loop (Some dquote) [] [''upload''] line" for line
    by (simp add: tokenize_command_def char_class_defs)
  then show ?thesis
    using tokenize_quoted [OF assms(1), of "[]" "[''upload'']" "[]"] assms(2)
    by (simp add: quote_for_upload_command_def)
qed

text \<open>A network path of Windows does not survive the quoting, although it is a path the paste accepts.\<close>

lemma unc_path_mangled:
  "let p = [backslash, backslash] @ ''srv'' @ [backslash] @ ''a.txt''
   in parse_command (make_upload_command_for_path p) = Some \<lparr>pc_name = ''/upload'', pc_args = [backslash # ''srv'' @ [backslash] @ ''a.txt'']\<rparr>"
  by code_simp

text \<open>An empty argument in quotes disappears.\<close>

lemma empty_argument_lost:
  "parse_command (''/msg bob '' @ [dquote, dquote]) = Some \<lparr>pc_name = ''/msg'', pc_args = [''bob'']\<rparr>"
  by code_simp

lemma aliases_resolved:
  "n \<in> snd ` set kCommandAliases \<Longrightarrow> map_of kCommandAliases n = None \<and> n \<in> set kKnownCommands"
proof -
  have "list_all (\<lambda>m. map_of kCommandAliases m = None \<and> m \<in> set kKnownCommands) (map snd kCommandAliases)"
    by code_simp
  moreover assume "n \<in> snd ` set kCommandAliases"
  ultimately show ?thesis by (auto simp: list_all_iff)
qed

subsection \<open>Properties\<close>

text \<open>
  A path the client offers to upload is the path it uploads.  When pasted text is taken for a local
  file, the command line built for it is parsed as \<open>/upload\<close> with exactly that path as its one argument,
  white space, quotes and all, if no backslash of the path stands before a backslash or a double quote or
  at its end.
\<close>

theorem pasted_path_roundtrip:
  assumes "detect_local_file_from_paste exists regular text = Some p" and "quotable p"
  shows "exists p \<and> regular p \<and>
    parse_command (make_upload_command_for_path p) = Some \<lparr>pc_name = ''/upload'', pc_args = [p]\<rparr>"
proof -
  have p: "exists p" "regular p" "p \<noteq> []"
    using assms(1) by (auto simp: detect_local_file_from_paste_def Let_def split: if_splits)
  have "lower_string (''/'' @ ''upload'') = ''/upload''" by code_simp
  moreover have "map_of kCommandAliases ''/upload'' = None" by (simp add: kCommandAliases_def)
  moreover have "make_upload_command_for_path p = CHR ''/'' # (''upload '' @ quote_for_upload_command p)"
    by (simp add: make_upload_command_for_path_def)
  ultimately show ?thesis
    using p tokenize_upload [OF assms(2) p(3)] by (simp add: parse_command_def)
qed

theorem pasted_path_roundtrip_witness:
  "let p = ''/home/a b'' @ [dquote] @ ''c''
   in parse_command (make_upload_command_for_path p) = Some \<lparr>pc_name = ''/upload'', pc_args = [p]\<rparr>"
proof -
  let ?p = "''/home/a b'' @ [dquote] @ ''c''"
  have "detect_local_file_from_paste (\<lambda>_. True) (\<lambda>_. True) ('' /home/a'' @ [backslash] @ '' b'' @ [backslash, dquote] @ ''c '') = Some ?p"
    by code_simp
  from pasted_path_roundtrip [OF this] show ?thesis by simp
qed

text \<open>
  A command line without quotes and backslashes is read as its words: the parser finds no command
  exactly when the line does not begin with a slash or only white space follows it, and otherwise the
  first word, in lower case and with its alias resolved, and the other words as arguments; the name it
  gives is never an alias.
\<close>

theorem parse_command_words:
  assumes "list_all plain_char line"
  shows "parse_command (CHR ''/'' # line) =
      (case words_of line of [] \<Rightarrow> None
       | w # args \<Rightarrow> Some \<lparr>pc_name = (case map_of kCommandAliases (CHR ''/'' # lower_string w) of
                                          Some n \<Rightarrow> n | None \<Rightarrow> CHR ''/'' # lower_string w), pc_args = args\<rparr>)
    \<and> (parse_command (CHR ''/'' # line) = Some cmd \<longrightarrow> map_of kCommandAliases (pc_name cmd) = None)"
proof -
  have slash: "c_tolower CHR ''/'' = CHR ''/''" by code_simp
  have none: "map_of kCommandAliases (case map_of kCommandAliases m of Some n \<Rightarrow> n | None \<Rightarrow> m) = None" for m
  proof (cases "map_of kCommandAliases m")
    case (Some n)
    then have "n \<in> snd ` set kCommandAliases" by (force dest: map_of_SomeD)
    with Some show ?thesis using aliases_resolved by simp
  qed simp
  show ?thesis
  proof (cases "words_of line")
    case (Cons w args)
    with none [of "CHR ''/'' # lower_string w"] slash show ?thesis
      by (auto simp: parse_command_def tokenize_plain [OF assms] Let_def)
  qed (simp add: parse_command_def tokenize_plain [OF assms])
qed

theorem parse_command_words_witness:
  "parse_command ''/J  #grotto secret '' = Some \<lparr>pc_name = ''/join'', pc_args = [''#grotto'', ''secret'']\<rparr>"
proof -
  have w: "words_of ''J  #grotto secret '' = [''J'', ''#grotto'', ''secret'']" by code_simp
  have l: "lower_string ''J'' = ''j''" by code_simp
  have "list_all plain_char ''J  #grotto secret ''" by code_simp
  note words = parse_command_words [OF this, THEN conjunct1]
  have "map_of kCommandAliases (CHR ''/'' # lower_string ''J'') = Some ''/join''" by code_simp
  with words show ?thesis by (simp only: w list.case option.case)
qed

subsection \<open>The completion cycle\<close>

fun complete_n :: "nat \<Rightarrow> string \<Rightarrow> string list \<Rightarrow> string list \<Rightarrow> string list \<Rightarrow> tab_completer \<Rightarrow> string list" where
  "complete_n 0 p us chs cs t = []"
| "complete_n (Suc n) p us chs cs t = (let (r, t') = tab_complete p us chs cs t in r # complete_n n p us chs cs t')"

lemma complete_n_in_cycle:
  assumes "tc_in_cycle t" "tc_candidates t = cands" "cands \<noteq> []" "tc_cycle_pos t < length cands"
  shows "complete_n n p us chs cs t = map (\<lambda>k. cands ! ((tc_cycle_pos t + k) mod length cands)) [0..<n]"
  using assms
proof (induction n arbitrary: t)
  case (Suc n)
  let ?t = "t\<lparr>tc_cycle_pos := (tc_cycle_pos t + 1) mod length cands\<rparr>"
  have step: "tab_complete p us chs cs t = (cands ! tc_cycle_pos t, ?t)"
    using Suc.prems by (simp add: tab_complete_def)
  have rest: "complete_n n p us chs cs ?t = map (\<lambda>k. cands ! ((tc_cycle_pos t + Suc k) mod length cands)) [0..<n]"
    using Suc.prems Suc.IH [of ?t] by (simp add: mod_add_left_eq)
  have "[0..<Suc n] = 0 # map Suc [0..<n]" by (simp add: upt_conv_Cons map_Suc_upt del: upt_Suc)
  with rest show ?case using Suc.prems(4) by (simp add: step comp_def del: upt_Suc)
qed simp

text \<open>Repeated completion walks the sorted candidates round and round, each of them an extension of the word.\<close>

lemma completion_cycles:
  assumes "\<not> tc_in_cycle t" "build_candidates p us chs cs = cands" "cands \<noteq> []"
  shows "complete_n n p us chs cs t = map (\<lambda>k. cands ! (k mod length cands)) [0..<n]"
proof (cases n)
  case (Suc m)
  let ?t = "t\<lparr>tc_stem := p, tc_candidates := cands, tc_cycle_pos := 0, tc_in_cycle := True\<rparr>"
  have "tab_complete p us chs cs t = tab_complete p us chs cs ?t"
    using assms by (simp add: tab_complete_def)
  then have "complete_n n p us chs cs t = complete_n n p us chs cs ?t" by (simp add: Suc)
  also have "\<dots> = map (\<lambda>k. cands ! (k mod length cands)) [0..<n]"
    using assms(3) by (subst complete_n_in_cycle [of ?t cands]) simp_all
  finally show ?thesis .
qed simp

lemma prefix_of_append: "starts_with p x \<Longrightarrow> starts_with p (x @ y)"
  by (cases "length p \<le> length x") (auto simp: starts_with_def)

lemma candidates_extend:
  assumes "c \<in> set (build_candidates p us chs cs)"
  shows "starts_with (lower_string p) (lower_string c)"
  using assms by (auto simp: build_candidates_def Let_def prefix_of_append split: if_splits)

end
