(* ===== verification/Client_Status.thy ===== *)
theory Client_Status
  imports Client_Commands
begin

text \<open>
  The texts about the connection that the terminal client shows, \<open>connection_status.cpp\<close>, and the keys of
  translated texts, \<open>i18n/strings.hpp\<close>, as far as the modelled code uses them.  The translations
  are tables of constants; they appear as a function from a key and its arguments, an argument of what uses them.
\<close>

datatype i18n_key =
    AUTHENTICATED_AS | AUTH_FAILED | AUTH_FAILED_CHECK_KEY | AUTH_FAILED_IDENTITY_PASSWORD_MISMATCH
  | AUTH_FAILED_IDENTITY_RECOVERY_REQUIRED | REPAIRING_SECURE_SESSION | OFFLINE_MESSAGES_MARKER
  | FAILED_ESTABLISH_SESSION | FAILED_SEND_MESSAGES | USER_NOT_FOUND | SERVER_ERROR | COMMAND_RESPONSE
  | COULD_NOT_ESTABLISH_SESSION | FILE_TRANSFER_COMPLETED | FILE_TRANSFER_ERROR
  | CONNECTION_SUMMARY_RESOLVING | CONNECTION_SUMMARY_TLS | CONNECTION_SUMMARY_VERIFYING_CERT
  | CONNECTION_SUMMARY_AUTHENTICATING | CONNECTION_SUMMARY_RETRY_IN
  | NO_ACTIVE_CHANNEL | CANNOT_SEND_MESSAGES_HERE | MESSAGE_TOO_LONG | UNKNOWN_COMMAND
  | NOT_CONNECTED_CHECK_STATUS | CANNOT_LEAVE_SERVER_CHANNEL | INVALID_CHANNEL_NAME | SERVER_RESERVED_TAB
  | ONLINE_USERS | NONE_LABEL | SEARCH_RESULTS | NO_RESULTS | CALLING | ACCEPTED_CALL | CALL_ENDED
  | LEFT_VOICE_ROOM | JOINING_VOICE_ROOM | MUTED | UNMUTED | DEAFENED | UNDEAFENED | VOICE_MODE
  | FILE_NOT_FOUND | UPLOAD_FAILED | UPLOADING_FILE | DOWNLOAD_FAILED | DOWNLOADING_FILE
  | SAFETY_NUMBER_WITH | SWITCHED_TO

type_synonym tr_fun = "i18n_key \<Rightarrow> string list \<Rightarrow> string"

definition contains_text :: "string \<Rightarrow> string \<Rightarrow> bool" where
  "contains_text p s \<longleftrightarrow> str_find p s \<noteq> None"

definition kMaxReasonLength :: nat where "kMaxReasonLength = 120"

definition sanitize_disconnect_reason :: "string \<Rightarrow> string" where
  "sanitize_disconnect_reason reason =
     (let sanitized = trim_ascii reason
      in if sanitized = [] then ''connection closed''
         else
           let lowered = lower_string sanitized; has = (\<lambda>p. contains_text p lowered)
           in if has ''multiple exceptions'' then ''connection lost''
              else if has ''actively refused'' \<or> has ''system:10061'' then ''connection refused''
              else if has ''end of file'' then ''connection closed by server''
              else if has ''connection reset by peer'' then ''connection reset by peer''
              else if has ''certificate pinning check failed'' then ''TLS certificate pin check failed''
              else if has ''handshake'' then ''TLS handshake failed''
              else if has ''resolve'' \<or> has ''host not found'' \<or> has ''no such host is known'' \<or>
                      has ''name or service not known'' then ''could not resolve server address''
              else
                let sanitized = (case str_find '' ['' sanitized of None \<Rightarrow> sanitized | Some i \<Rightarrow> take i sanitized)
                in if length sanitized > kMaxReasonLength then take kMaxReasonLength sanitized @ ''...'' else sanitized)"

definition connection_summary_for_phase :: "tr_fun \<Rightarrow> string \<Rightarrow> string" where
  "connection_summary_for_phase tr phase =
     (if phase = ''Resolving server address'' then tr CONNECTION_SUMMARY_RESOLVING []
      else if phase = ''TCP connected'' \<or> phase = ''TLS handshake done'' then tr CONNECTION_SUMMARY_TLS []
      else if phase = ''Certificate verified'' then tr CONNECTION_SUMMARY_VERIFYING_CERT []
      else if phase = ''HELLO sent'' \<or> phase = ''Auth challenge received'' \<or> phase = ''Auth response sent''
      then tr CONNECTION_SUMMARY_AUTHENTICATING []
      else
        let p = ''reconnect in ''
        in if starts_with p phase then
             (case str_find ''s'' (drop (length p) phase) of
                Some i \<Rightarrow> if i > 0 then tr CONNECTION_SUMMARY_RETRY_IN [take i (drop (length p) phase)] else []
              | None \<Rightarrow> [])
           else [])"

definition normalize_auth_failure_detail :: "tr_fun \<Rightarrow> string \<Rightarrow> string" where
  "normalize_auth_failure_detail tr detail =
     (let trimmed = trim_ascii detail
      in if trimmed = [] then []
         else if lower_string trimmed = ''identity key mismatch and password incorrect''
         then tr AUTH_FAILED_IDENTITY_PASSWORD_MISMATCH []
         else if lower_string trimmed =
                   ''identity key mismatch. set a password with /password to enable key recovery.''
         then tr AUTH_FAILED_IDENTITY_RECOVERY_REQUIRED []
         else trimmed)"

subsection \<open>Properties\<close>

text \<open>A reason is shown in a line of bounded length, whatever text the transport gave.\<close>

lemma disconnect_reason_bounded: "length (sanitize_disconnect_reason r) \<le> 123"
  by (auto simp: sanitize_disconnect_reason_def kMaxReasonLength_def Let_def)

end
