(* ===== verification/Client_Messages.thy ===== *)
theory Client_Messages
  imports Client_Crypto Client_State Client_Transfer Client_Status Protocol
begin

text \<open>
  The message handler of the terminal client, \<open>net/message_handler.cpp\<close>: every kind of envelope it
  receives, the queue of what waits for authentication, and the pending direct messages that wait for a
  key bundle.  A closure posted to the drawing thread is a value of \<open>ui_task\<close>, run by \<open>drain_ui\<close>.  What the
  handler calls outside of itself (the callbacks the application registers, the voice engine, saving the configuration) is recorded
  in \<open>h_calls\<close>, what it hands to the network client in \<open>h_sent\<close>; the application registers all of them.
  The generated protobuf code is the record \<open>client_codec\<close>; a field of it returns \<open>None\<close> where parsing fails.
\<close>

subsection \<open>Messages\<close>

record receipt_msg = rc_reader :: string rc_target :: string rc_message :: string rc_read_at :: int

record typing_msg = ty_sender :: string ty_target :: string ty_is_typing :: bool

record presence_msg = pm_user :: string pm_status :: presence_status pm_text :: string pm_since :: int

record room_state_msg = rs_channel :: string rs_participants :: "string list"

record ice_msg = ic_servers :: "string list" ic_username :: string ic_password :: string

record policy_msg =
  po_max_upload :: u64
  po_allowed :: "string list"
  po_blocked :: "string list"
  po_max_total :: u64
  po_max_user :: u64

record file_list_msg = fl_recipient :: string fl_channel :: string fl_files :: "remote_file_entry list"

record file_changed_msg = fc_file_id :: string fc_recipient :: string fc_channel :: string

datatype outgoing =
    O_Hello nat string
  | O_AuthResponse auth_response
  | O_KeyUpload upload_msg
  | O_KeyRequest string
  | O_Chat chat_message
  | O_ReadReceipt receipt_msg
  | O_FileList string string u32
  | O_Command string "string list"

record client_codec =
  cp_challenge :: "bytes \<Rightarrow> bytes option"
  cp_error :: "bytes \<Rightarrow> (nat \<times> string) option"
  cp_chat :: "bytes \<Rightarrow> chat_message option"
  cp_typing :: "bytes \<Rightarrow> typing_msg option"
  cp_receipt :: "bytes \<Rightarrow> receipt_msg option"
  cp_sync :: "bytes \<Rightarrow> bool option"
  cp_bundle :: "bytes \<Rightarrow> bundle_msg option"
  cp_reset :: "bytes \<Rightarrow> string option"
  cp_presence :: "bytes \<Rightarrow> presence_msg option"
  cp_signal :: "bytes \<Rightarrow> voice_signal option"
  cp_room :: "bytes \<Rightarrow> voice_room_msg option"
  cp_room_state :: "bytes \<Rightarrow> room_state_msg option"
  cp_ice :: "bytes \<Rightarrow> ice_msg option"
  cp_command_response :: "bytes \<Rightarrow> command_response option"
  cp_file_chunk :: "bytes \<Rightarrow> file_chunk option"
  cp_file_progress :: "bytes \<Rightarrow> (string \<times> u64 \<times> u64 \<times> string) option"
  cp_file_complete :: "bytes \<Rightarrow> (string \<times> u64 \<times> bytes) option"
  cp_file_error :: "bytes \<Rightarrow> (string \<times> string) option"
  cp_policy :: "bytes \<Rightarrow> policy_msg option"
  cp_file_list :: "bytes \<Rightarrow> file_list_msg option"
  cp_file_changed :: "bytes \<Rightarrow> file_changed_msg option"
  cs_msg :: "outgoing \<Rightarrow> bytes"

subsection \<open>State\<close>

datatype ui_task =
    Ui_message string message
  | Ui_system string message
  | Ui_presence string presence_view string int
  | Ui_room_state string "string list"
  | Ui_room_join string string
  | Ui_room_leave string string
  | Ui_ice runtime_ice
  | Ui_log string message bool
  | Ui_open string
  | Ui_names string "channel_user_info list"
  | Ui_remove string
  | Ui_receipt string string int
  | Ui_files string "remote_file_entry list"

datatype call =
    Call_persist string message
  | Call_dm_read string message
  | Call_preview string string
  | Call_trace string
  | Call_command_response command_response
  | Call_policy policy_msg
  | Call_file_list file_list_msg
  | Call_file_changed file_changed_msg
  | Call_file_error string string
  | Call_typing typing_msg
  | Call_read_receipt receipt_msg
  | Voice_on_signal voice_signal
  | Voice_on_room_joined string "string list"
  | Voice_on_peer_joined string
  | Voice_on_peer_left string
  | Voice_call string
  | Voice_accept_call string
  | Voice_hangup
  | Voice_join_room string
  | Voice_leave_room
  | Voice_stop_local_test
  | Voice_set_muted bool
  | Voice_set_deafened bool
  | Voice_toggle_mode
  | Call_save_config

record pending_send = ps_plaintext :: string ps_message_id :: string

record client_config =
  cl_user_id :: string
  cl_password :: string
  cl_auto_reconnect :: bool
  cl_language :: string

text \<open>What the surroundings answer during one call: the libraries, the codec, the clock, the translations, the
  file system, and whether the application handles a file error itself.\<close>

record client_env =
  ce_lib :: crypto_lib
  ce_codec :: client_codec
  ce_now :: int
  ce_tr :: tr_fun
  ce_files :: client_ctx
  ce_version :: string
  ce_error_handled :: "string \<Rightarrow> bool"

record handler =
  h_cfg :: client_config
  h_state :: app_state
  h_ui :: "ui_task list"
  h_engine :: crypto_engine
  h_transfers :: transfers
  h_net :: "bool option"
  h_sent :: "envelope list"
  h_calls :: "call list"
  h_authenticated :: bool
  h_onboarding_shown :: bool
  h_next_seq :: u64
  h_pending_sends :: "(string \<times> pending_send list) list"
  h_repairs :: "string list"
  h_outbound :: "envelope list"
  h_sync_active :: bool
  h_marked :: "string set"

definition new_handler :: "client_config \<Rightarrow> crypto_engine \<Rightarrow> transfers \<Rightarrow> handler" where
  "new_handler C g t = \<lparr>h_cfg = C, h_state = new_app_state, h_ui = [], h_engine = g, h_transfers = t, h_net = None,
     h_sent = [], h_calls = [], h_authenticated = False, h_onboarding_shown = False, h_next_seq = 1,
     h_pending_sends = [], h_repairs = [], h_outbound = [], h_sync_active = False, h_marked = {}\<rparr>"

abbreviation me :: "handler \<Rightarrow> string" where
  "me h \<equiv> cl_user_id (h_cfg h)"

definition call_out :: "call \<Rightarrow> handler \<Rightarrow> handler" where
  "call_out c h = h\<lparr>h_calls := h_calls h @ [c]\<rparr>"

definition post_ui :: "ui_task \<Rightarrow> handler \<Rightarrow> handler" where
  "post_ui t h = h\<lparr>h_ui := h_ui h @ [t]\<rparr>"

definition upd_state :: "(app_state \<Rightarrow> app_state) \<Rightarrow> handler \<Rightarrow> handler" where
  "upd_state f h = h\<lparr>h_state := f (h_state h)\<rparr>"

subsection \<open>Sending\<close>

definition can_send_authenticated :: "handler \<Rightarrow> bool" where
  "can_send_authenticated h \<longleftrightarrow> h_authenticated h \<and> h_net h = Some True"

definition make_envelope :: "client_env \<Rightarrow> message_type \<Rightarrow> outgoing \<Rightarrow> handler \<Rightarrow> envelope \<times> handler" where
  "make_envelope E ty m h =
     (\<lparr>env_seq = h_next_seq h, env_ts = ce_now E, env_type = ty, env_payload = cs_msg (ce_codec E) m\<rparr>,
      h\<lparr>h_next_seq := h_next_seq h + 1\<rparr>)"

definition send_env :: "envelope \<Rightarrow> handler \<Rightarrow> handler" where
  "send_env e h = (if h_net h = None then h else h\<lparr>h_sent := h_sent h @ [e]\<rparr>)"

definition send_msg :: "client_env \<Rightarrow> message_type \<Rightarrow> outgoing \<Rightarrow> handler \<Rightarrow> handler" where
  "send_msg E ty m h = (let (e, h) = make_envelope E ty m h in send_env e h)"

definition send_or_queue_authenticated :: "envelope \<Rightarrow> handler \<Rightarrow> handler" where
  "send_or_queue_authenticated e h =
     (if can_send_authenticated h then send_env e h else h\<lparr>h_outbound := h_outbound h @ [e]\<rparr>)"

definition queue_msg :: "client_env \<Rightarrow> message_type \<Rightarrow> outgoing \<Rightarrow> handler \<Rightarrow> handler" where
  "queue_msg E ty m h = (let (e, h) = make_envelope E ty m h in send_or_queue_authenticated e h)"

definition flush_pending_authenticated :: "handler \<Rightarrow> handler" where
  "flush_pending_authenticated h =
     (if \<not> can_send_authenticated h then h else fold send_env (h_outbound h) (h\<lparr>h_outbound := []\<rparr>))"

definition send_key_request_now :: "client_env \<Rightarrow> string \<Rightarrow> handler \<Rightarrow> handler" where
  "send_key_request_now E r h = send_msg E MT_KEY_REQUEST (O_KeyRequest r) h"

definition resend_pending_key_requests :: "client_env \<Rightarrow> handler \<Rightarrow> handler" where
  "resend_pending_key_requests E h =
     (if \<not> can_send_authenticated h then h
      else fold (send_key_request_now E)
             (map fst (filter (\<lambda>(r, q). q \<noteq> []) (h_pending_sends h)) @ h_repairs h) h)"

definition send_chat_envelope :: "client_env \<Rightarrow> chat_message \<Rightarrow> handler \<Rightarrow> handler" where
  "send_chat_envelope E c h = queue_msg E MT_CHAT_ENVELOPE (O_Chat c) h"

definition send_read_receipt :: "client_env \<Rightarrow> receipt_msg \<Rightarrow> handler \<Rightarrow> handler" where
  "send_read_receipt E r h = queue_msg E MT_READ_RECEIPT (O_ReadReceipt r) h"

definition send_command :: "client_env \<Rightarrow> string \<Rightarrow> string list \<Rightarrow> handler \<Rightarrow> handler" where
  "send_command E cmd args h = queue_msg E MT_COMMAND (O_Command cmd args) h"

definition request_file_list :: "client_env \<Rightarrow> string \<Rightarrow> string \<Rightarrow> u32 \<Rightarrow> handler \<Rightarrow> handler" where
  "request_file_list E r c limit h = queue_msg E MT_FILE_LIST_REQUEST (O_FileList r c limit) h"

definition send_hello :: "client_env \<Rightarrow> handler \<Rightarrow> handler" where
  "send_hello E h = send_msg E MT_HELLO (O_Hello 1 (''grotto-client/'' @ ce_version E)) h"

definition system_message :: "client_env \<Rightarrow> string \<Rightarrow> message" where
  "system_message E text = \<lparr>m_id = [], m_sender = ''system'', m_content = text, m_timestamp = ce_now E,
     m_read_by_remote = False, m_read_at = 0, m_kind = Kind_System\<rparr>"

definition push_system_to_channel :: "client_env \<Rightarrow> string \<Rightarrow> string \<Rightarrow> handler \<Rightarrow> handler" where
  "push_system_to_channel E c text h = post_ui (Ui_system c (system_message E text)) h"

definition push_system :: "client_env \<Rightarrow> string \<Rightarrow> handler \<Rightarrow> handler" where
  "push_system E text h = push_system_to_channel E ''server'' text h"

definition pending_delivery_count :: "handler \<Rightarrow> nat" where
  "pending_delivery_count h =
     length (h_outbound h) + sum_list (map (\<lambda>(r, q). length q) (h_pending_sends h))"

subsection \<open>Authentication\<close>

text \<open>Signing throws when no identity is loaded; the exception leaves the handler and nothing is sent.\<close>

definition handle_auth_challenge_c :: "client_env \<Rightarrow> envelope \<Rightarrow> handler \<Rightarrow> handler" where
  "handle_auth_challenge_c E env h =
     (case cp_challenge (ce_codec E) (env_payload env) of
        None \<Rightarrow> h
      | Some nonce \<Rightarrow>
          let h = call_out (Call_trace ''Auth challenge received'') h; g = h_engine h
          in case sign_challenge (ce_lib E) nonce (me h) g of
               None \<Rightarrow> h
             | Some sig \<Rightarrow>
                 call_out (Call_trace ''Auth response sent'')
                   (send_msg E MT_AUTH_RESPONSE (O_AuthResponse
                     \<lparr>auth_user_id = me h, auth_identity_pub = ed_pub (g_pair g), auth_signature = sig,
                      auth_signed_prekey = dh_pub (spk_pair (g_spk g)), auth_spk_sig = spk_signature (g_spk g),
                      auth_password = cl_password (h_cfg h), auth_spk_id = spk_no (g_spk g)\<rparr>) h))"

definition onboarding_lines :: "string \<Rightarrow> string list" where
  "onboarding_lines language =
     (if language = ''fi''
      then [''Aloitus: liity kanavalle komennolla /join #<kanava>'',
            ''Pika-apu: /help tai /help commands'',
            ''Yksityisviesti: /msg <nimi> <teksti> (alias /w)'',
            ''Asetukset: F12'']
      else [''Getting started: join a channel with /join #<channel>'',
            ''Quick help: /help or /help commands'',
            ''Private message: /msg <name> <text> (alias /w)'',
            ''Settings: F12''])"

definition on_auth_ok :: "client_env \<Rightarrow> handler \<Rightarrow> handler" where
  "on_auth_ok E h =
     (let (ku, g) = prepare_key_upload (ce_lib E) 100 (h_engine h);
          h = send_msg E MT_KEY_UPLOAD (O_KeyUpload ku) (h\<lparr>h_engine := g\<rparr>);
          h = flush_pending_authenticated (resend_pending_key_requests E h)
      in if h_onboarding_shown h then h
         else fold (push_system E) (onboarding_lines (cl_language (h_cfg h))) (h\<lparr>h_onboarding_shown := True\<rparr>))"

definition handle_auth_ok_c :: "client_env \<Rightarrow> handler \<Rightarrow> handler" where
  "handle_auth_ok_c E h =
     (let h = call_out (Call_trace ''Authenticated'') (h\<lparr>h_authenticated := True\<rparr>);
          h = push_system E (ce_tr E AUTHENTICATED_AS [me h]) h
      in on_auth_ok E (upd_state (\<lambda>s. set_connecting False (set_connected True s)) h))"

definition handle_auth_fail_c :: "client_env \<Rightarrow> envelope \<Rightarrow> handler \<Rightarrow> handler" where
  "handle_auth_fail_c E env h =
     (let h = call_out (Call_trace ''AUTH_FAIL received'') (h\<lparr>h_authenticated := False\<rparr>);
          detail = (case cp_error (ce_codec E) (env_payload env) of Some (_, text) \<Rightarrow> text | None \<Rightarrow> []);
          h = push_system E (if detail \<noteq> []
                             then ce_tr E AUTH_FAILED [normalize_auth_failure_detail (ce_tr E) detail]
                             else ce_tr E AUTH_FAILED_CHECK_KEY []) h
      in upd_state (\<lambda>s. set_connecting False (set_connected False s)) h)"

definition on_transport_disconnected :: "handler \<Rightarrow> handler" where
  "on_transport_disconnected h =
     (let h = h\<lparr>h_authenticated := False\<rparr>;
          h = (if cl_auto_reconnect (h_cfg h) then h
               else h\<lparr>h_pending_sends := [], h_repairs := [], h_outbound := []\<rparr>)
      in h\<lparr>h_engine := reset_all_dm_sessions (h_engine h)\<rparr>)"

subsection \<open>Keys\<close>

definition request_key :: "client_env \<Rightarrow> string \<Rightarrow> string \<Rightarrow> string \<Rightarrow> handler \<Rightarrow> handler" where
  "request_key E r plaintext i h =
     (let queued = map_of (h_pending_sends h) r;
          p = \<lparr>ps_plaintext = plaintext, ps_message_id = i\<rparr>;
          h = h\<lparr>h_pending_sends := mput r (case queued of None \<Rightarrow> [p] | Some q \<Rightarrow> q @ [p]) (h_pending_sends h)\<rparr>
      in if queued = None \<and> can_send_authenticated h then send_key_request_now E r h else h)"

definition request_key_bundle_only :: "client_env \<Rightarrow> string \<Rightarrow> handler \<Rightarrow> bool \<times> handler" where
  "request_key_bundle_only E r h =
     (if map_of (h_pending_sends h) r \<noteq> None \<or> r \<in> set (h_repairs h) then (False, h)
      else
        let h = h\<lparr>h_repairs := uinsert r (h_repairs h)\<rparr>
        in (True, if can_send_authenticated h then send_key_request_now E r h else h))"

text \<open>One of the messages that waited for the bundle, with the count of those that could not be encrypted.\<close>

definition flush_one :: "client_env \<Rightarrow> string \<Rightarrow> pending_send \<Rightarrow> nat \<times> handler \<Rightarrow> nat \<times> handler" where
  "flush_one E r p = (\<lambda>(failed, h).
     let (chat, _, g) = encrypt (ce_lib E) (me h) r (ps_plaintext p) (h_engine h);
         h = h\<lparr>h_engine := g\<rparr>
     in if cm_sender chat \<noteq> [] then
          (failed, send_msg E MT_CHAT_ENVELOPE (O_Chat (if ps_message_id p \<noteq> []
                      then chat\<lparr>cm_message_id := ps_message_id p\<rparr> else chat)) h)
        else (failed + 1, h))"

definition handle_key_bundle_c :: "client_env \<Rightarrow> envelope \<Rightarrow> handler \<Rightarrow> handler" where
  "handle_key_bundle_c E env h =
     (case cp_bundle (ce_codec E) (env_payload env) of
        None \<Rightarrow> h
      | Some b \<Rightarrow>
          let r = bm_recipient_for b
          in if r = [] then h
             else
               let (ok, g) = on_key_bundle (ce_lib E) b r (h_engine h); h = h\<lparr>h_engine := g\<rparr>
               in if \<not> ok then push_system E (ce_tr E FAILED_ESTABLISH_SESSION [r]) h
                  else
                    let h = h\<lparr>h_repairs := uerase r (h_repairs h)\<rparr>
                    in case map_of (h_pending_sends h) r of
                         None \<Rightarrow> h
                       | Some queued \<Rightarrow>
                           let h = h\<lparr>h_pending_sends := mdel r (h_pending_sends h)\<rparr>;
                               (failed, h) = fold (flush_one E r) queued (0, h)
                           in if failed > 0
                              then push_system E (ce_tr E FAILED_SEND_MESSAGES [show_nat failed, r]) h else h)"

definition handle_identity_reset_c :: "client_env \<Rightarrow> envelope \<Rightarrow> handler \<Rightarrow> handler" where
  "handle_identity_reset_c E env h =
     (case cp_reset (ce_codec E) (env_payload env) of
        None \<Rightarrow> h
      | Some u \<Rightarrow>
          if u = [] \<or> u = me h then h
          else h\<lparr>h_engine := forget_peer_identity u (reset_dm_session u (h_engine h)),
                 h_pending_sends := mdel u (h_pending_sends h), h_repairs := uerase u (h_repairs h)\<rparr>)"

text \<open>
  The threads that wait for a bundle look every 200 ms.  Time counts only while the client can send; after
  ten seconds of it the messages are dropped, or the repair is given up.  The argument \<open>elapsed\<close> is the
  time since the last look in milliseconds; the result is the time that remains, or \<open>None\<close> when the thread ends.
\<close>

definition kPendingTimeout :: int where "kPendingTimeout = 10000"

definition drop_pending_sends :: "client_env \<Rightarrow> string \<Rightarrow> handler \<Rightarrow> handler" where
  "drop_pending_sends E r h =
     (case map_of (h_pending_sends h) r of
        None \<Rightarrow> h
      | Some q \<Rightarrow>
          let h = h\<lparr>h_pending_sends := mdel r (h_pending_sends h)\<rparr>
          in if q = [] then h
             else push_system E (ce_tr E COULD_NOT_ESTABLISH_SESSION [r] @ '' (timeout) '' @
                    map char_of [0xE2, 0x80, 0x94 :: nat] @ '' '' @ show_nat (length q) @ '' message(s) dropped'') h)"

definition await_pending_send_tick ::
  "client_env \<Rightarrow> string \<Rightarrow> int \<Rightarrow> int \<Rightarrow> handler \<Rightarrow> int option \<times> handler" where
  "await_pending_send_tick E r remaining elapsed h =
     (let remaining = (if can_send_authenticated h then remaining - elapsed else remaining)
      in if map_of (h_pending_sends h) r = None then (None, h)
         else if remaining > 0 then (Some remaining, h)
         else (None, drop_pending_sends E r h))"

definition await_pending_repair_tick :: "string \<Rightarrow> int \<Rightarrow> int \<Rightarrow> handler \<Rightarrow> int option \<times> handler" where
  "await_pending_repair_tick r remaining elapsed h =
     (let remaining = (if can_send_authenticated h then remaining - elapsed else remaining)
      in if r \<notin> set (h_repairs h) then (None, h)
         else if remaining > 0 then (Some remaining, h)
         else (None, h\<lparr>h_repairs := uerase r (h_repairs h)\<rparr>))"

subsection \<open>Chat\<close>

text \<open>The channel a message is shown in: the channel, or the other side of a direct message.\<close>

definition chat_channel :: "string \<Rightarrow> chat_message \<Rightarrow> string" where
  "chat_channel my_id c =
     (let ch = (if is_channel (cm_recipient c) then cm_recipient c
                else if cm_recipient c = my_id then cm_sender c
                else cm_recipient c)
      in if ch = [] then cm_sender c else ch)"

definition show_chat :: "client_env \<Rightarrow> envelope \<Rightarrow> chat_message \<Rightarrow> string \<Rightarrow> handler \<Rightarrow> handler" where
  "show_chat E env c plaintext h =
     (let ch = chat_channel (me h) c; sender = cm_sender c;
          h = upd_state (ensure_channel ch) h;
          m = \<lparr>m_id = cm_message_id c, m_sender = sender, m_content = plaintext,
               m_timestamp = (if env_ts env = 0 then ce_now E else env_ts env),
               m_read_by_remote = False, m_read_at = 0, m_kind = Kind_Chat\<rparr>;
          h = call_out (Call_persist ch m) h;
          h = (if is_channel ch \<and> sender \<noteq> [] then
                 (if channel_user ch sender (h_state h) = None
                  then upd_state (add_channel_user ch \<lparr>cu_user_id = sender, cu_role = Role_Regular,
                         cu_presence = Pr_Online, cu_voice = Voice_Off\<rparr>) h
                  else h)
               else if ch \<noteq> [] \<and> \<not> is_channel ch then upd_state (set_direct_message_users ch (me h) ch) h
               else h);
          h = (if h_sync_active h \<and> ch \<notin> h_marked h
               then push_system_to_channel E ch (ce_tr E OFFLINE_MESSAGES_MARKER [])
                      (h\<lparr>h_marked := insert ch (h_marked h)\<rparr>)
               else h);
          h = post_ui (Ui_message ch m) h;
          h = (if ch \<noteq> [] \<and> \<not> is_channel ch \<and> sender \<noteq> me h \<and> cm_message_id c \<noteq> []
               then call_out (Call_dm_read ch m) h else h)
      in call_out (Call_preview ch plaintext) h)"

definition handle_chat_c :: "client_env \<Rightarrow> envelope \<Rightarrow> handler \<Rightarrow> handler" where
  "handle_chat_c E env h =
     (case cp_chat (ce_codec E) (env_payload env) of
        None \<Rightarrow> h
      | Some c \<Rightarrow>
          if cm_type c = 0 then show_chat E env c (of_bytes (cm_ciphertext c)) h
          else
            let (r, g) = decrypt (ce_lib E) c (h_engine h); h = h\<lparr>h_engine := g\<rparr>
            in if dr_success r then show_chat E env c (dr_plaintext r) h
               else if \<not> is_channel (cm_recipient c) \<and> cm_sender c \<noteq> [] \<and> cm_sender c \<noteq> me h then
                 let ch = (if cm_recipient c = me h then cm_sender c else cm_recipient c);
                     (asked, h) = request_key_bundle_only E (cm_sender c) h
                 in if asked \<and> ch \<noteq> []
                    then push_system_to_channel E ch (ce_tr E REPAIRING_SECURE_SESSION [cm_sender c]) h else h
               else show_chat E env c ''[decryption failed]'' h)"

definition handle_offline_sync_c :: "client_env \<Rightarrow> envelope \<Rightarrow> handler \<Rightarrow> handler" where
  "handle_offline_sync_c E env h =
     (case cp_sync (ce_codec E) (env_payload env) of
        None \<Rightarrow> h
      | Some start \<Rightarrow> h\<lparr>h_sync_active := start, h_marked := {}\<rparr>)"

definition handle_typing_c :: "client_env \<Rightarrow> envelope \<Rightarrow> handler \<Rightarrow> handler" where
  "handle_typing_c E env h =
     (case cp_typing (ce_codec E) (env_payload env) of None \<Rightarrow> h | Some t \<Rightarrow> call_out (Call_typing t) h)"

definition handle_read_receipt_c :: "client_env \<Rightarrow> envelope \<Rightarrow> handler \<Rightarrow> handler" where
  "handle_read_receipt_c E env h =
     (case cp_receipt (ce_codec E) (env_payload env) of None \<Rightarrow> h | Some r \<Rightarrow> call_out (Call_read_receipt r) h)"

subsection \<open>Presence and voice\<close>

definition presence_view_of :: "presence_status \<Rightarrow> presence_view" where
  "presence_view_of st = (case st of ONLINE \<Rightarrow> Pr_Online | AWAY \<Rightarrow> Pr_Away | DND \<Rightarrow> Pr_Dnd | OFFLINE \<Rightarrow> Pr_Offline)"

definition handle_presence_c :: "client_env \<Rightarrow> envelope \<Rightarrow> handler \<Rightarrow> handler" where
  "handle_presence_c E env h =
     (case cp_presence (ce_codec E) (env_payload env) of
        None \<Rightarrow> h
      | Some p \<Rightarrow> post_ui (Ui_presence (pm_user p) (presence_view_of (pm_status p)) (pm_text p) (pm_since p)) h)"

definition handle_voice_signal_c :: "client_env \<Rightarrow> envelope \<Rightarrow> handler \<Rightarrow> handler" where
  "handle_voice_signal_c E env h =
     (case cp_signal (ce_codec E) (env_payload env) of None \<Rightarrow> h | Some v \<Rightarrow> call_out (Voice_on_signal v) h)"

definition handle_voice_room_state_c :: "client_env \<Rightarrow> envelope \<Rightarrow> handler \<Rightarrow> handler" where
  "handle_voice_room_state_c E env h =
     (case cp_room_state (ce_codec E) (env_payload env) of
        None \<Rightarrow> h
      | Some r \<Rightarrow> post_ui (Ui_room_state (rs_channel r) (rs_participants r))
          (call_out (Voice_on_room_joined (rs_channel r) (filter (\<lambda>p. p \<noteq> me h) (rs_participants r))) h))"

definition handle_voice_room_join_c :: "client_env \<Rightarrow> envelope \<Rightarrow> handler \<Rightarrow> handler" where
  "handle_voice_room_join_c E env h =
     (case cp_room (ce_codec E) (env_payload env) of
        None \<Rightarrow> h
      | Some j \<Rightarrow> post_ui (Ui_room_join (vr_channel j) (vr_user j)) (call_out (Voice_on_peer_joined (vr_user j)) h))"

definition handle_voice_room_leave_c :: "client_env \<Rightarrow> envelope \<Rightarrow> handler \<Rightarrow> handler" where
  "handle_voice_room_leave_c E env h =
     (case cp_room (ce_codec E) (env_payload env) of
        None \<Rightarrow> h
      | Some l \<Rightarrow> post_ui (Ui_room_leave (vr_channel l) (vr_user l)) (call_out (Voice_on_peer_left (vr_user l)) h))"

definition handle_voice_ice_config_c :: "client_env \<Rightarrow> envelope \<Rightarrow> handler \<Rightarrow> handler" where
  "handle_voice_ice_config_c E env h =
     (case cp_ice (ce_codec E) (env_payload env) of
        None \<Rightarrow> h
      | Some c \<Rightarrow> post_ui (Ui_ice \<lparr>ice_servers = filter (\<lambda>s. s \<noteq> []) (ic_servers c), ice_username = ic_username c,
                            ice_password = ic_password c, ice_from_server = True\<rparr>) h)"

subsection \<open>Ping, errors and responses\<close>

definition handle_ping_c :: "client_env \<Rightarrow> handler \<Rightarrow> handler" where
  "handle_ping_c E h =
     send_env \<lparr>env_seq = h_next_seq h, env_ts = ce_now E, env_type = MT_PONG, env_payload = []\<rparr>
       (h\<lparr>h_next_seq := h_next_seq h + 1\<rparr>)"

definition recipient_from_not_found_error :: "string \<Rightarrow> string" where
  "recipient_from_not_found_error text =
     (let p = ''User not found: '' in if starts_with p text then drop (length p) text else [])"

definition handle_error_c :: "client_env \<Rightarrow> envelope \<Rightarrow> handler \<Rightarrow> handler" where
  "handle_error_c E env h =
     (case cp_error (ce_codec E) (env_payload env) of
        None \<Rightarrow> h
      | Some (n, text) \<Rightarrow>
          let r = (if n \<noteq> 4060 then []
                   else let r = recipient_from_not_found_error text
                        in if r = [] \<and> length (h_pending_sends h) = 1 then fst (hd (h_pending_sends h)) else r)
          in if r \<noteq> []
             then push_system E (ce_tr E USER_NOT_FOUND [r]) (h\<lparr>h_pending_sends := mdel r (h_pending_sends h)\<rparr>)
             else push_system E (ce_tr E SERVER_ERROR [text]) h)"

definition handle_command_response_c :: "client_env \<Rightarrow> envelope \<Rightarrow> handler \<Rightarrow> handler" where
  "handle_command_response_c E env h =
     (case cp_command_response (ce_codec E) (env_payload env) of
        None \<Rightarrow> h | Some r \<Rightarrow> call_out (Call_command_response r) h)"

subsection \<open>Files\<close>

definition upd_transfers :: "(transfers \<Rightarrow> transfers) \<Rightarrow> handler \<Rightarrow> handler" where
  "upd_transfers f h = h\<lparr>h_transfers := f (h_transfers h)\<rparr>"

definition handle_file_chunk_c :: "client_env \<Rightarrow> envelope \<Rightarrow> handler \<Rightarrow> handler" where
  "handle_file_chunk_c E env h =
     (case cp_file_chunk (ce_codec E) (env_payload env) of
        None \<Rightarrow> h | Some c \<Rightarrow> upd_transfers (on_file_chunk (ce_files E) c) h)"

definition handle_file_progress_c :: "client_env \<Rightarrow> envelope \<Rightarrow> handler \<Rightarrow> handler" where
  "handle_file_progress_c E env h =
     (case cp_file_progress (ce_codec E) (env_payload env) of
        None \<Rightarrow> h
      | Some (f, n, whole, st) \<Rightarrow> upd_transfers (on_file_progress (ce_files E) f n whole st) h)"

definition handle_file_complete_c :: "client_env \<Rightarrow> envelope \<Rightarrow> handler \<Rightarrow> handler" where
  "handle_file_complete_c E env h =
     (case cp_file_complete (ce_codec E) (env_payload env) of
        None \<Rightarrow> h
      | Some (f, whole, checksum) \<Rightarrow>
          let h = upd_transfers (on_file_complete (ce_files E) f whole checksum) h;
              detail = (case get_transfer_by_file_id (h_transfers h) f of
                          None \<Rightarrow> f
                        | Some info \<Rightarrow> if ti_direction info = DOWNLOAD
                            then ti_filename info @ '' -> '' @ ti_local_path info
                            else ti_filename info @ '' ('' @ f @ '')'')
          in push_system E (ce_tr E FILE_TRANSFER_COMPLETED [detail]) h)"

definition handle_file_error_c :: "client_env \<Rightarrow> envelope \<Rightarrow> handler \<Rightarrow> handler" where
  "handle_file_error_c E env h =
     (case cp_file_error (ce_codec E) (env_payload env) of
        None \<Rightarrow> h
      | Some (f, text) \<Rightarrow>
          let (reported, detail) =
                (case get_transfer_by_file_id (h_transfers h) f of
                   None \<Rightarrow> (False, text)
                 | Some info \<Rightarrow> (ti_state info = FAILED \<and> ti_error info = text, ti_filename info @ '': '' @ text));
              h = call_out (Call_file_error f text) (upd_transfers (on_file_error (ce_files E) f text) h)
          in if \<not> reported \<and> \<not> ce_error_handled E text
             then push_system E (ce_tr E FILE_TRANSFER_ERROR [detail]) h else h)"

definition handle_file_policy_c :: "client_env \<Rightarrow> envelope \<Rightarrow> handler \<Rightarrow> handler" where
  "handle_file_policy_c E env h =
     (case cp_policy (ce_codec E) (env_payload env) of None \<Rightarrow> h | Some p \<Rightarrow> call_out (Call_policy p) h)"

definition handle_file_list_response_c :: "client_env \<Rightarrow> envelope \<Rightarrow> handler \<Rightarrow> handler" where
  "handle_file_list_response_c E env h =
     (case cp_file_list (ce_codec E) (env_payload env) of None \<Rightarrow> h | Some l \<Rightarrow> call_out (Call_file_list l) h)"

definition handle_file_changed_c :: "client_env \<Rightarrow> envelope \<Rightarrow> handler \<Rightarrow> handler" where
  "handle_file_changed_c E env h =
     (case cp_file_changed (ce_codec E) (env_payload env) of None \<Rightarrow> h | Some l \<Rightarrow> call_out (Call_file_changed l) h)"

subsection \<open>Dispatch\<close>

definition dispatch :: "client_env \<Rightarrow> envelope \<Rightarrow> handler \<Rightarrow> handler" where
  "dispatch E env h =
     (case env_type env of
        MT_AUTH_CHALLENGE \<Rightarrow> handle_auth_challenge_c E env h
      | MT_AUTH_OK \<Rightarrow> handle_auth_ok_c E h
      | MT_AUTH_FAIL \<Rightarrow> handle_auth_fail_c E env h
      | MT_CHAT_ENVELOPE \<Rightarrow> handle_chat_c E env h
      | MT_TYPING \<Rightarrow> handle_typing_c E env h
      | MT_READ_RECEIPT \<Rightarrow> handle_read_receipt_c E env h
      | MT_OFFLINE_SYNC \<Rightarrow> handle_offline_sync_c E env h
      | MT_KEY_BUNDLE \<Rightarrow> handle_key_bundle_c E env h
      | MT_IDENTITY_RESET \<Rightarrow> handle_identity_reset_c E env h
      | MT_PRESENCE \<Rightarrow> handle_presence_c E env h
      | MT_VOICE_SIGNAL \<Rightarrow> handle_voice_signal_c E env h
      | MT_VOICE_ROOM_JOIN \<Rightarrow> handle_voice_room_join_c E env h
      | MT_VOICE_ROOM_LEAVE \<Rightarrow> handle_voice_room_leave_c E env h
      | MT_VOICE_ROOM_STATE \<Rightarrow> handle_voice_room_state_c E env h
      | MT_VOICE_ICE_CONFIG \<Rightarrow> handle_voice_ice_config_c E env h
      | MT_PING \<Rightarrow> handle_ping_c E h
      | MT_ERROR \<Rightarrow> handle_error_c E env h
      | MT_COMMAND_RESPONSE \<Rightarrow> handle_command_response_c E env h
      | MT_FILE_CHUNK \<Rightarrow> handle_file_chunk_c E env h
      | MT_FILE_PROGRESS \<Rightarrow> handle_file_progress_c E env h
      | MT_FILE_COMPLETE \<Rightarrow> handle_file_complete_c E env h
      | MT_FILE_ERROR \<Rightarrow> handle_file_error_c E env h
      | MT_FILE_POLICY \<Rightarrow> handle_file_policy_c E env h
      | MT_FILE_LIST_RESPONSE \<Rightarrow> handle_file_list_response_c E env h
      | MT_FILE_CHANGED \<Rightarrow> handle_file_changed_c E env h
      | _ \<Rightarrow> h)"

subsection \<open>The drawing thread\<close>

definition presence_line :: "string \<Rightarrow> presence_view \<Rightarrow> string \<Rightarrow> string" where
  "presence_line u st text =
     (let line = u @ (case st of Pr_Online \<Rightarrow> '' is now online'' | Pr_Away \<Rightarrow> '' is away''
                       | Pr_Dnd \<Rightarrow> '' is in do not disturb'' | Pr_Offline \<Rightarrow> '' went offline'')
      in if (st = Pr_Away \<or> st = Pr_Dnd) \<and> text \<noteq> [] then line @ '': '' @ text else line)"

text \<open>\<open>UIManager::push_system_msg_to_channel\<close>, as it runs on the drawing thread.\<close>

definition log_message :: "string \<Rightarrow> message \<Rightarrow> bool \<Rightarrow> app_state \<Rightarrow> app_state" where
  "log_message c m activate s =
     (let c = (if c = [] then ''server'' else c);
          s = ensure_channel c s;
          s = (if activate then set_active_channel c s else s);
          s = push_message c m s
      in if get_active_channel s = Some c then mark_read c (scroll_to_bottom c s) else s)"

fun run_task :: "client_env \<Rightarrow> ui_task \<Rightarrow> handler \<Rightarrow> handler" where
  "run_task E (Ui_message c m) h = upd_state (push_message c m) h"
| "run_task E (Ui_system c m) h = upd_state (\<lambda>s. push_message c m (ensure_channel c s)) h"
| "run_task E (Ui_presence u st text since) h =
     push_system E (presence_line u st text) (upd_state (set_presence u st text since) h)"
| "run_task E (Ui_room_state c ps) h =
     upd_state (\<lambda>s. set_voice_room_users c ps
       (set_voice_state ((voice s)\<lparr>vst_in_voice := True, vst_active_channel := c, vst_participants := ps\<rparr>) s)) h"
| "run_task E (Ui_room_join c u) h =
     upd_state (\<lambda>s. push_message c (system_message E (u @ '' joined voice''))
       (add_voice_room_user c u
         (set_voice_state ((voice s)\<lparr>vst_participants := vst_participants (voice s) @ [u]\<rparr>) s))) h"
| "run_task E (Ui_room_leave c u) h =
     upd_state (\<lambda>s. push_message c (system_message E (u @ '' left voice''))
       (remove_voice_room_user c u
         (set_voice_state ((voice s)\<lparr>vst_participants := filter (\<lambda>p. p \<noteq> u) (vst_participants (voice s))\<rparr>) s))) h"
| "run_task E (Ui_ice c) h = upd_state (set_runtime_ice c) h"
| "run_task E (Ui_log c m activate) h = upd_state (log_message c m activate) h"
| "run_task E (Ui_open c) h = upd_state (\<lambda>s. set_active_channel c (ensure_channel c s)) h"
| "run_task E (Ui_names c us) h = upd_state (set_channel_users c us) h"
| "run_task E (Ui_remove c) h = upd_state (remove_channel c) h"
| "run_task E (Ui_receipt c i t) h = upd_state (\<lambda>s. snd (mark_direct_messages_read_by_remote c (me h) i t s)) h"
| "run_task E (Ui_files c fs) h = upd_state (set_channel_files c fs) h"

text \<open>What the tasks post themselves runs with the next batch.\<close>

definition drain_ui :: "client_env \<Rightarrow> handler \<Rightarrow> handler" where
  "drain_ui E h = fold (run_task E) (h_ui h) (h\<lparr>h_ui := []\<rparr>)"

end
