(* ===== verification/Client_App.thy ===== *)
theory Client_App
  imports Client_Messages
begin

text \<open>
  The application object of the terminal client, \<open>app.cpp\<close>: what the user's input and the callbacks of the
  message handler do.  Input runs on the drawing thread, so its texts go to the shown state at once; a
  callback runs on the network thread and posts.  Timers are left out except where they decide what is
  sent.  Saving the configuration is the call \<open>Call_save_config\<close>.
\<close>

subsection \<open>Targets\<close>

definition kMaxPlaintextMessageBytes :: nat where "kMaxPlaintextMessageBytes = 4096"
definition kMaxRememberedTargets :: nat where "kMaxRememberedTargets = 24"

definition is_server_channel :: "string \<Rightarrow> bool" where
  "is_server_channel c \<longleftrightarrow> length c = 6 \<and> lower_string c = ''server''"

definition canonical_channel_id :: "string \<Rightarrow> string" where
  "canonical_channel_id c = (if is_server_channel c then ''server'' else c)"

definition is_direct_target :: "string \<Rightarrow> bool" where
  "is_direct_target c \<longleftrightarrow> c \<noteq> [] \<and> \<not> is_server_channel c \<and> \<not> is_channel c"

definition canonical_file_target :: "string \<Rightarrow> string \<Rightarrow> string" where
  "canonical_file_target recipient channel = (if channel \<noteq> [] then canonical_channel_id channel else recipient)"

definition typing_target_for_active_channel :: "string \<Rightarrow> string" where
  "typing_target_for_active_channel active = (if active = [] \<or> is_server_channel active then [] else active)"

definition client_channel_char :: "char \<Rightarrow> bool" where
  "client_channel_char c \<longleftrightarrow> c_isalnum c \<or> c = CHR ''_'' \<or> c = CHR ''-'' \<or> c = CHR ''.''"

definition client_sanitize_channel :: "string \<Rightarrow> string option" where
  "client_sanitize_channel raw =
     (let channel = trim_ascii raw
      in if channel = [] then None
         else if is_server_channel channel then Some ''server''
         else
           let channel = (if hd channel \<noteq> CHR ''#'' then CHR ''#'' # channel else channel)
           in if length channel = 1 then None
              else if list_all client_channel_char (tl channel) then Some channel else None)"

subsection \<open>File policy\<close>

definition mime_rule_matches :: "string \<Rightarrow> string \<Rightarrow> bool" where
  "mime_rule_matches rule mime \<longleftrightarrow>
     rule \<noteq> [] \<and> mime \<noteq> [] \<and>
     (if last rule = CHR ''*'' then starts_with (butlast rule) mime
      else if last rule = CHR ''/'' then starts_with rule mime
      else mime = rule)"

definition mime_allowed_by_policy :: "string \<Rightarrow> string list \<Rightarrow> string list \<Rightarrow> bool" where
  "mime_allowed_by_policy mime allowed blocked \<longleftrightarrow>
     \<not> (mime \<noteq> [] \<and> list_ex (\<lambda>r. mime_rule_matches r mime) blocked) \<and>
     (allowed = [] \<or> mime \<noteq> [] \<and> list_ex (\<lambda>r. mime_rule_matches r mime) allowed)"

definition is_quota_error_message :: "string \<Rightarrow> bool" where
  "is_quota_error_message m \<longleftrightarrow> m = ''User storage quota exceeded'' \<or> m = ''Server storage quota exceeded''"

subsection \<open>State\<close>

record app =
  ap_h :: handler
  ap_share_receipts :: bool
  ap_share_typing :: bool
  ap_notices :: "(string \<times> string) list"
  ap_receipts :: "(string \<times> string) list"
  ap_joins :: "string list"
  ap_parts :: "string list"
  ap_channels :: "string list"
  ap_dms :: "string list"
  ap_typing_target :: "string option"
  ap_typing_sent :: int
  ap_remote_typing :: "(string \<times> (string \<times> int) list) list"
  ap_quota_text :: string
  ap_policy :: "policy_msg option"
  ap_echo_targets :: "string set"
  ap_auto_away :: bool

text \<open>Beside the answers for the handler: a fresh message id, the steady clock in milliseconds, a time of day in
  words, the files of the disk with their sizes, and the state of the voice engine.\<close>

record app_env = client_env +
  ae_message_id :: string
  ae_steady :: int
  ae_hhmm :: "int \<Rightarrow> string"
  ae_exists :: "string \<Rightarrow> bool"
  ae_file_size :: "string \<Rightarrow> u64"
  ae_matches :: "string \<Rightarrow> string \<Rightarrow> bool"
  ae_typing :: "typing_msg \<Rightarrow> bytes"
  ae_in_voice :: bool
  ae_local_test :: bool
  ae_mode_label :: string

definition new_app :: "handler \<Rightarrow> app" where
  "new_app h = \<lparr>ap_h = h, ap_share_receipts = True, ap_share_typing = True, ap_notices = [], ap_receipts = [],
     ap_joins = [], ap_parts = [], ap_channels = [], ap_dms = [], ap_typing_target = None, ap_typing_sent = 0,
     ap_remote_typing = [], ap_quota_text = [], ap_policy = None, ap_echo_targets = {}, ap_auto_away = False\<rparr>"

abbreviation my_id :: "app \<Rightarrow> string" where
  "my_id a \<equiv> me (ap_h a)"

definition upd_h :: "(handler \<Rightarrow> handler) \<Rightarrow> app \<Rightarrow> app" where
  "upd_h f a = a\<lparr>ap_h := f (ap_h a)\<rparr>"

definition env_of :: "app_env \<Rightarrow> client_env" where
  "env_of E = client_env.truncate E"

definition active_or_empty :: "app \<Rightarrow> string" where
  "active_or_empty a = active_channel (h_state (ap_h a))"

definition canonical_active :: "app \<Rightarrow> string" where
  "canonical_active a = canonical_channel_id (active_or_empty a)"

text \<open>\<open>push_system_msg\<close> and \<open>log_system_message\<close> on the drawing thread, and posted by another thread.\<close>

definition ui_log :: "app_env \<Rightarrow> string \<Rightarrow> string \<Rightarrow> bool \<Rightarrow> app \<Rightarrow> app" where
  "ui_log E c text activate a = upd_h (upd_state (log_message c (system_message (env_of E) text) activate)) a"

definition ui_say :: "app_env \<Rightarrow> string \<Rightarrow> app \<Rightarrow> app" where
  "ui_say E text a = ui_log E (if active_or_empty a = [] then ''server'' else active_or_empty a) text False a"

definition net_log :: "app_env \<Rightarrow> string \<Rightarrow> string \<Rightarrow> bool \<Rightarrow> app \<Rightarrow> app" where
  "net_log E c text activate a =
     upd_h (post_ui (Ui_log (if c = [] then ''server'' else c) (system_message (env_of E) text) activate)) a"

definition net_say :: "app_env \<Rightarrow> string \<Rightarrow> app \<Rightarrow> app" where
  "net_say E text a = net_log E (if active_or_empty a = [] then ''server'' else active_or_empty a) text False a"

subsection \<open>Remembered targets\<close>

definition remember_into :: "string \<Rightarrow> string list \<Rightarrow> string list" where
  "remember_into v ts =
     (let ts = filter (\<lambda>t. t \<noteq> v) ts @ [v] in drop (length ts - kMaxRememberedTargets) ts)"

definition remember_target :: "string \<Rightarrow> app \<Rightarrow> app" where
  "remember_target c a =
     (let t = canonical_channel_id (trim_ascii c)
      in if t = [] \<or> is_server_channel t then a
         else upd_h (call_out Call_save_config)
           (if is_channel t then a\<lparr>ap_channels := remember_into t (ap_channels a)\<rparr>
            else a\<lparr>ap_dms := remember_into t (ap_dms a)\<rparr>))"

definition forget_target :: "string \<Rightarrow> app \<Rightarrow> app" where
  "forget_target c a =
     (let t = canonical_channel_id (trim_ascii c)
      in if t = [] \<or> is_server_channel t then a
         else upd_h (call_out Call_save_config)
           (a\<lparr>ap_channels := filter (\<lambda>x. x \<noteq> t) (ap_channels a), ap_dms := filter (\<lambda>x. x \<noteq> t) (ap_dms a)\<rparr>))"

definition restore_remembered_targets :: "app \<Rightarrow> app" where
  "restore_remembered_targets a =
     (let channel = (\<lambda>c s. case client_sanitize_channel c of
                 Some t \<Rightarrow> if is_server_channel t then s else ensure_channel t s | None \<Rightarrow> s);
          direct = (\<lambda>d s. let t = canonical_channel_id (trim_ascii d)
                 in if is_direct_target t then set_direct_message_users t (my_id a) t (ensure_channel t s) else s)
      in upd_h (upd_state (fold direct (ap_dms a) \<circ> fold channel (ap_channels a))) a)"

subsection \<open>Chat\<close>

definition quote :: string where "quote = [CHR 0x27]"

definition dm_presence_notice :: "app_env \<Rightarrow> presence_info \<Rightarrow> string \<Rightarrow> string" where
  "dm_presence_notice E p u =
     (if pi_status p \<noteq> Pr_Away \<and> pi_status p \<noteq> Pr_Dnd then []
      else
        let since = (if pi_since p \<le> 0 then [] else ae_hhmm E (pi_since p))
        in u @ (if pi_status p = Pr_Away then '' is away right now'' else '' is in do not disturb right now'')
             @ (if pi_text p \<noteq> [] then '': '' @ quote @ pi_text p @ quote else [])
             @ (if since \<noteq> [] then '' ('' @ since @ '')'' else []))"

definition presence_number :: "presence_view \<Rightarrow> nat" where
  "presence_number st = (case st of Pr_Offline \<Rightarrow> 0 | Pr_Online \<Rightarrow> 1 | Pr_Away \<Rightarrow> 2 | Pr_Dnd \<Rightarrow> 3)"

definition dm_presence_notice_key :: "presence_info \<Rightarrow> string" where
  "dm_presence_notice_key p =
     (if pi_status p \<noteq> Pr_Away \<and> pi_status p \<noteq> Pr_Dnd then []
      else show_nat (presence_number (pi_status p)) @ ''|'' @ pi_text p @ ''|'' @ show_int (pi_since p))"

text \<open>The notice that the other side is away is given once for each such state.\<close>

definition presence_notice :: "app_env \<Rightarrow> string \<Rightarrow> app \<Rightarrow> app" where
  "presence_notice E peer a =
     (let p = presence_info_of peer (h_state (ap_h a))
      in if pi_status p = Pr_Away \<or> pi_status p = Pr_Dnd then
           let key = dm_presence_notice_key p
           in if map_of (ap_notices a) peer = Some key then a
              else
                let notice = dm_presence_notice E p peer;
                    a = (if notice \<noteq> [] then ui_log E peer notice False a else a)
                in a\<lparr>ap_notices := mput peer key (ap_notices a)\<rparr>
         else a\<lparr>ap_notices := mdel peer (ap_notices a)\<rparr>)"

text \<open>The id of a message is its random bytes in hexadecimal, an argument of the model.\<close>

definition own_message :: "app_env \<Rightarrow> string \<Rightarrow> app \<Rightarrow> message" where
  "own_message E text a = \<lparr>m_id = ae_message_id E, m_sender = my_id a, m_content = text, m_timestamp = ce_now E,
     m_read_by_remote = False, m_read_at = 0, m_kind = Kind_Chat\<rparr>"

definition save_row :: "string \<Rightarrow> message \<Rightarrow> handler \<Rightarrow> handler" where
  "save_row c m h =
     (let g = h_engine h;
          kind = (case m_kind m of Kind_Chat \<Rightarrow> 0 | Kind_System \<Rightarrow> 1 | Kind_VoiceEvent \<Rightarrow> 2 | Kind_Preview \<Rightarrow> 3)
      in h\<lparr>h_engine := g\<lparr>g_store := save_message \<lparr>mr_id = 0, mr_channel_id = c, mr_sender_id = m_sender m,
            mr_content = m_content m, mr_timestamp_ms = m_timestamp m, mr_type = kind\<rparr> (g_store g)\<rparr>\<rparr>)"

text \<open>Encrypting and sending: with no session yet the text waits in the handler for a key bundle.\<close>

definition encrypt_and_send :: "app_env \<Rightarrow> string \<Rightarrow> string \<Rightarrow> app \<Rightarrow> app" where
  "encrypt_and_send E target text a =
     (let h = ap_h a;
          (env, requests, g) = encrypt (ce_lib E) (me h) target text (h_engine h);
          h = fold (\<lambda>r. request_key (env_of E) r text (ae_message_id E)) requests (h\<lparr>h_engine := g\<rparr>)
      in if cm_sender env = [] then a\<lparr>ap_h := h\<rparr>
         else
           let h = send_chat_envelope (env_of E) (env\<lparr>cm_message_id := ae_message_id E\<rparr>) h; a = a\<lparr>ap_h := h\<rparr>
           in if h_authenticated h then a
              else ui_log E ''server'' ''message queued until connection/auth recovers'' False a)"

definition send_chat :: "app_env \<Rightarrow> string \<Rightarrow> app \<Rightarrow> app" where
  "send_chat E text a =
     (let h = ap_h a; up = (h_net h = Some True)
      in if \<not> h_authenticated h \<and> \<not> (connecting (h_state h) \<or> up)
         then ui_log E ''server'' ''message blocked: not connected'' True a
         else
           let active = canonical_active a
           in if active = [] then ui_say E (ce_tr E NO_ACTIVE_CHANNEL []) a
              else if is_server_channel active then ui_say E (ce_tr E CANNOT_SEND_MESSAGES_HERE []) a
              else if length text > kMaxPlaintextMessageBytes
              then ui_say E (ce_tr E MESSAGE_TOO_LONG [show_nat (length text), show_nat kMaxPlaintextMessageBytes]) a
              else
                let a = (if is_direct_target active then presence_notice E active a else a);
                    m = own_message E text a;
                    a = upd_h (save_row active m \<circ> upd_state (push_message active m)) a;
                    a = encrypt_and_send E active text a
                in upd_h (call_out (Call_preview active text)) a)"

text \<open>The persist callback of the handler.\<close>

definition persist_message :: "string \<Rightarrow> message \<Rightarrow> app \<Rightarrow> app" where
  "persist_message c m a =
     (let a = upd_h (save_row c m) a in if m_kind m = Kind_Chat then remember_target c a else a)"

subsection \<open>Read receipts\<close>

definition app_read_receipt :: "app_env \<Rightarrow> string \<Rightarrow> string \<Rightarrow> app \<Rightarrow> app" where
  "app_read_receipt E target i a =
     (if \<not> ap_share_receipts a \<or> target = [] \<or> \<not> is_direct_target target \<or> i = [] then a
      else upd_h (send_read_receipt (env_of E) \<lparr>rc_reader = my_id a, rc_target = target, rc_message = i,
                    rc_read_at = ce_now E\<rparr>) a)"

definition track_dm_read_candidate :: "app_env \<Rightarrow> string \<Rightarrow> message \<Rightarrow> app \<Rightarrow> app" where
  "track_dm_read_candidate E c m a =
     (if \<not> is_direct_target c \<or> m_id m = [] then a
      else if ap_share_receipts a \<and> canonical_active a = c then app_read_receipt E c (m_id m) a
      else a\<lparr>ap_receipts := mput c (m_id m) (ap_receipts a)\<rparr>)"

definition flush_pending_read_receipt_for_channel :: "app_env \<Rightarrow> string \<Rightarrow> app \<Rightarrow> app" where
  "flush_pending_read_receipt_for_channel E c a =
     (if \<not> ap_share_receipts a \<or> \<not> is_direct_target c then a
      else case map_of (ap_receipts a) c of
             None \<Rightarrow> a
           | Some i \<Rightarrow> app_read_receipt E c i (a\<lparr>ap_receipts := mdel c (ap_receipts a)\<rparr>))"

definition app_handle_read_receipt :: "receipt_msg \<Rightarrow> app \<Rightarrow> app" where
  "app_handle_read_receipt r a =
     (if rc_reader r = [] \<or> rc_target r \<noteq> my_id a \<or> rc_message r = [] then a
      else upd_h (post_ui (Ui_receipt (rc_reader r) (rc_message r) (rc_read_at r))) a)"

subsection \<open>Typing\<close>

definition kTypingRefreshInterval :: int where "kTypingRefreshInterval = 2000"
definition kTypingRemoteTtl :: int where "kTypingRemoteTtl = 5000"

definition online :: "app \<Rightarrow> bool" where
  "online a \<longleftrightarrow> h_authenticated (ap_h a) \<and> h_net (ap_h a) = Some True"

definition send_typing_update :: "app_env \<Rightarrow> string \<Rightarrow> bool \<Rightarrow> app \<Rightarrow> app" where
  "send_typing_update E target on a =
     (if \<not> online a \<or> on \<and> \<not> ap_share_typing a then a
      else upd_h (send_env \<lparr>env_seq = 0, env_ts = ce_now E, env_type = MT_TYPING,
             env_payload = ae_typing E \<lparr>ty_sender = my_id a, ty_target = target, ty_is_typing = on\<rparr>\<rparr>) a)"

definition stop_local_typing :: "app_env \<Rightarrow> app \<Rightarrow> app" where
  "stop_local_typing E a =
     (case ap_typing_target a of
        None \<Rightarrow> a
      | Some t \<Rightarrow> (send_typing_update E t False a)\<lparr>ap_typing_target := None\<rparr>)"

text \<open>A change of the input line; the activity that ends the away state is noted first, by \<open>note_local_activity\<close>.\<close>

definition note_local_activity :: "app_env \<Rightarrow> bool \<Rightarrow> app \<Rightarrow> app" where
  "note_local_activity E trigger a =
     (if ap_auto_away a \<and> trigger \<and> online a
      then (upd_h (send_command (env_of E) ''back'' []) a)\<lparr>ap_auto_away := False\<rparr> else a)"

definition on_input_changed :: "app_env \<Rightarrow> string \<Rightarrow> app \<Rightarrow> app" where
  "on_input_changed E text a =
     (let command = (text \<noteq> [] \<and> hd text = CHR ''/'');
          a = note_local_activity E (text \<noteq> [] \<and> \<not> command) a;
          target = typing_target_for_active_channel (canonical_active a)
      in if \<not> ap_share_typing a \<or> target = [] \<or> text = [] \<or> command \<or> \<not> online a then stop_local_typing E a
         else
           let a = (case ap_typing_target a of
                      Some t \<Rightarrow> if t \<noteq> target then (send_typing_update E t False a)\<lparr>ap_typing_target := None\<rparr> else a
                    | None \<Rightarrow> a)
           in if ap_typing_target a \<noteq> Some target \<or> ae_steady E - ap_typing_sent a \<ge> kTypingRefreshInterval
              then (send_typing_update E target True a)\<lparr>ap_typing_target := Some target, ap_typing_sent := ae_steady E\<rparr>
              else a)"

definition prune_remote_typing :: "int \<Rightarrow> (string \<times> (string \<times> int) list) list \<Rightarrow> (string \<times> (string \<times> int) list) list" where
  "prune_remote_typing now m =
     filter (\<lambda>(t, us). us \<noteq> []) (map (\<lambda>(t, us). (t, filter (\<lambda>(u, expiry). expiry > now) us)) m)"

definition handle_typing_update :: "app_env \<Rightarrow> typing_msg \<Rightarrow> app \<Rightarrow> app" where
  "handle_typing_update E ty a =
     (if ty_sender ty = [] \<or> ty_sender ty = my_id a \<or> ty_target ty = [] then a
      else
        let target = (if hd (ty_target ty) \<noteq> CHR ''#'' then ty_sender ty else ty_target ty);
            m = ap_remote_typing a;
            us = (case map_of m target of None \<Rightarrow> [] | Some us \<Rightarrow> us);
            m = (if ty_is_typing ty then mput target (mput (ty_sender ty) (ae_steady E + kTypingRemoteTtl) us) m
                 else if map_of m target = None then m
                 else
                   let us = mdel (ty_sender ty) us in if us = [] then mdel target m else mput target us m)
        in a\<lparr>ap_remote_typing := prune_remote_typing (ae_steady E) m\<rparr>)"

definition build_typing_summary :: "app_env \<Rightarrow> app \<Rightarrow> string" where
  "build_typing_summary E a =
     (let active = canonical_active a
      in if active = [] \<or> is_server_channel active then []
         else
           case map_of (prune_remote_typing (ae_steady E) (ap_remote_typing a)) active of
             None \<Rightarrow> []
           | Some us \<Rightarrow>
               (case sort (map fst us) of
                  [] \<Rightarrow> []
                | [u] \<Rightarrow> u @ '' is typing...''
                | [u, v] \<Rightarrow> u @ '' and '' @ v @ '' are typing...''
                | u # v # rest \<Rightarrow> u @ '', '' @ v @ '' +'' @ show_nat (length rest) @ '' typing...''))"

subsection \<open>Responses of the server\<close>

text \<open>\<open>std::getline\<close> in a loop: the lines without their ends; an empty rest gives no line.\<close>

fun getlines :: "string \<Rightarrow> string \<Rightarrow> string list" where
  "getlines cur [] = (if cur = [] then [] else [cur])"
| "getlines cur (c # cs) = (if c = CHR 0x0A then cur # getlines [] cs else getlines (cur @ [c]) cs)"

definition names_entry :: "string \<Rightarrow> channel_user_info" where
  "names_entry line =
     (let (role, u) = (case line of
            CHR ''@'' # u \<Rightarrow> (Role_Admin, u) | CHR ''+'' # u \<Rightarrow> (Role_Voice, u) | _ \<Rightarrow> (Role_Regular, line))
      in \<lparr>cu_user_id = u, cu_role = role, cu_presence = Pr_Offline, cu_voice = Voice_Off\<rparr>)"

text \<open>
  A text of fewer than nine characters makes \<open>substr\<close> throw, which ends the handling as no header does; a header that
  ends earlier makes the length wrap around, so that the rest of the text is taken.
\<close>

definition parse_names :: "string \<Rightarrow> (string \<times> channel_user_info list) option" where
  "parse_names text =
     (case str_find ('':'' @ [CHR 0x0A]) text of
        None \<Rightarrow> None
      | Some i \<Rightarrow>
          if length text < 9 then None
          else Some (if i < 9 then drop 9 text else take (i - 9) (drop 9 text),
                     map names_entry (filter (\<lambda>l. l \<noteq> []) (getlines [] (drop (i + 2) text)))))"

definition request_quota_summary :: "app_env \<Rightarrow> app \<Rightarrow> app" where
  "request_quota_summary E a =
     (if h_authenticated (ap_h a) then upd_h (send_command (env_of E) ''quota'' []) a else a)"

text \<open>The regular expression replaces a carriage return, with the line feed that may follow it, by a line feed.\<close>

fun replace_crlf :: "string \<Rightarrow> string" where
  "replace_crlf [] = []"
| "replace_crlf (c # cs) =
     (if c = CHR 0x0D then CHR 0x0A # (case cs of d # ds \<Rightarrow> if d = CHR 0x0A then replace_crlf ds else replace_crlf cs
                                       | [] \<Rightarrow> [])
      else c # replace_crlf cs)"

definition quota_summary :: "string \<Rightarrow> string" where
  "quota_summary text =
     (let text = (case str_find [CHR 0x0A] text of None \<Rightarrow> text | Some i \<Rightarrow> drop (i + 1) text)
      in trim_ascii (replace_crlf text))"

definition strip_cr :: "string \<Rightarrow> string" where
  "strip_cr l = (if l \<noteq> [] \<and> last l = CHR 0x0D then butlast l else l)"

definition app_handle_command_response :: "app_env \<Rightarrow> command_response \<Rightarrow> app \<Rightarrow> app" where
  "app_handle_command_response E r a =
     (let command = lower_string (cr_command r);
          text = (if cr_success r then ''[ok] '' else ''[fail] '') @ command @ '': '' @ cr_message r
      in if command = ''whois'' \<and> cr_success r then
           fold (\<lambda>l a. let l = trim_ascii (strip_cr l) in if l \<noteq> [] then net_say E l a else a)
             (getlines [] (cr_message r)) (net_log E ''server'' ''[ok] whois'' False a)
         else
           let a = net_log E ''server'' text False a;
               a = (if command = ''quota'' \<and> cr_success r then a\<lparr>ap_quota_text := quota_summary (cr_message r)\<rparr> else a);
               active = active_or_empty a;
               a = (if \<not> cr_success r \<and> active \<noteq> [] \<and> active \<noteq> ''server'' then net_log E active text False a else a);
               a = (if command = ''rmfile'' \<and> cr_success r then request_quota_summary E a else a)
           in if command = ''join'' then
                (case ap_joins a of
                   [] \<Rightarrow> a
                 | t # rest \<Rightarrow>
                     let a = a\<lparr>ap_joins := rest\<rparr>
                     in if cr_success r then remember_target t (upd_h (post_ui (Ui_open t)) a) else a)
              else if command = ''names'' \<and> cr_success r then
                (case parse_names (cr_message r) of
                   None \<Rightarrow> a | Some (c, us) \<Rightarrow> upd_h (post_ui (Ui_names c us)) a)
              else if command = ''part'' then
                (case ap_parts a of
                   [] \<Rightarrow> a
                 | t # rest \<Rightarrow>
                     let a = a\<lparr>ap_parts := rest\<rparr>
                     in if cr_success r then forget_target t (upd_h (post_ui (Ui_remove t)) a) else a)
              else a)"

definition app_policy :: "policy_msg \<Rightarrow> app \<Rightarrow> app" where
  "app_policy p a = a\<lparr>ap_policy := Some (p\<lparr>po_allowed := map lower_string (po_allowed p),
                                          po_blocked := map lower_string (po_blocked p)\<rparr>)\<rparr>"

definition request_remote_files_for_target :: "app_env \<Rightarrow> string \<Rightarrow> bool \<Rightarrow> app \<Rightarrow> app" where
  "request_remote_files_for_target E target echo a =
     (if \<not> h_authenticated (ap_h a) \<and> \<not> connecting (h_state (ap_h a))
      then (if echo then ui_say E (ce_tr E NOT_CONNECTED_CHECK_STATUS []) a else a)
      else
        let t = canonical_channel_id target
        in if t = [] \<or> is_server_channel t
           then (if echo then ui_say E ''Open a channel or DM before listing files.'' a else a)
           else
             let a = (if echo then a\<lparr>ap_echo_targets := insert t (ap_echo_targets a)\<rparr> else a)
             in upd_h (request_file_list (env_of E) (if is_direct_target t then t else []) (if is_channel t then t else []) 100) a)"

definition app_handle_file_changed :: "app_env \<Rightarrow> file_changed_msg \<Rightarrow> app \<Rightarrow> app" where
  "app_handle_file_changed E c a =
     (let target = canonical_file_target (fc_recipient c) (fc_channel c)
      in if target = [] then a
         else
           let a = request_quota_summary E a
           in if canonical_active a \<noteq> target \<or> is_server_channel target then a
              else request_remote_files_for_target E target False a)"

end
