(* ===== verification/Client_Slash.thy ===== *)
theory Client_Slash
  imports Client_App Client_Commands
begin

text \<open>
  The slash commands of the terminal client, \<open>App::handle_command\<close> in \<open>app.cpp\<close>, with what they call: ending the session,
  the checks before an upload, the place of a download.  The handler, the message store and the transfer
  manager exist from start to end, so their null checks always pass.  The settings screen, the diagnostics and
  the microphone test, which drive the terminal and the sound card, are left out: for them \<open>app_handle_command\<close> is
  \<open>None\<close>.  Numbers are put into words for display by floating point, which is an argument.
\<close>

subsection \<open>Surroundings\<close>

datatype command_text =
    DISCONNECTED_FROM_SERVER | NOT_CONNECTED | CLIENT_VERSION | SERVER_VERSION | CONNECTION_STATUS | TEXT_CONNECTED
  | TEXT_DISCONNECTED | AUTH_STATUS | TEXT_AUTHENTICATED | TEXT_NOT_AUTHENTICATED | USER_LABEL | ACTIVE_CHANNEL
  | HELP_USAGE | AVAILABLE_TOPICS | TOPIC_NOT_FOUND | HELP_RELOADED | TEXT_CLEARED

record slash_env = app_env +
  se_tr :: "command_text \<Rightarrow> string list \<Rightarrow> string"
  se_server_version :: string
  se_help :: "string \<Rightarrow> string option"
  se_topics :: "string list"
  se_bytes :: "u64 \<Rightarrow> string"
  se_progress :: "transfer_info \<Rightarrow> string"

record shell =
  sh_app :: app
  sh_stopping :: bool
  sh_saved :: bool
  sh_exit :: bool

definition aenv :: "slash_env \<Rightarrow> app_env" where
  "aenv E = app_env.truncate E"

definition upd_app :: "(app \<Rightarrow> app) \<Rightarrow> shell \<Rightarrow> shell" where
  "upd_app f w = w\<lparr>sh_app := f (sh_app w)\<rparr>"

abbreviation say :: "slash_env \<Rightarrow> string \<Rightarrow> app \<Rightarrow> app" where
  "say E \<equiv> ui_say (aenv E)"

abbreviation say_server :: "slash_env \<Rightarrow> string \<Rightarrow> bool \<Rightarrow> app \<Rightarrow> app" where
  "say_server E text activate \<equiv> ui_log (aenv E) ''server'' text activate"

abbreviation command_out :: "slash_env \<Rightarrow> string \<Rightarrow> string list \<Rightarrow> app \<Rightarrow> app" where
  "command_out E c args \<equiv> upd_h (send_command (env_of (aenv E)) c args)"

abbreviation voice_out :: "call \<Rightarrow> app \<Rightarrow> app" where
  "voice_out c \<equiv> upd_h (call_out c)"

definition say_all :: "slash_env \<Rightarrow> string list \<Rightarrow> app \<Rightarrow> app" where
  "say_all E ls a = fold (say E) ls a"

subsection \<open>Ending the session\<close>

definition shutdown_voice_session :: "slash_env \<Rightarrow> app \<Rightarrow> app" where
  "shutdown_voice_session E a =
     (let c = vst_active_channel (voice (h_state (ap_h a)))
      in if \<not> ae_in_voice E then a
         else if c = [] then voice_out Voice_hangup a
         else if hd c = CHR ''#'' then voice_out Voice_leave_room a
         else voice_out Voice_hangup a)"

definition begin_shutdown :: "slash_env \<Rightarrow> bool \<Rightarrow> bool \<Rightarrow> shell \<Rightarrow> shell" where
  "begin_shutdown E request_exit persist w =
     (let w1 = (if persist \<and> \<not> sh_saved w then (upd_app (upd_h (call_out Call_save_config)) w)\<lparr>sh_saved := True\<rparr> else w);
          w2 = (if sh_stopping w then w1
                else upd_app (\<lambda>a.
                   let a = stop_local_typing (aenv E) a;
                       a = a\<lparr>ap_joins := [], ap_parts := [], ap_remote_typing := [], ap_receipts := []\<rparr>;
                       a = shutdown_voice_session E a
                   in upd_h (\<lambda>h. (on_transport_disconnected h)\<lparr>h_net := None\<rparr>) a) (w1\<lparr>sh_stopping := True\<rparr>))
      in if request_exit then w2\<lparr>sh_exit := True\<rparr> else w2)"

definition disconnect_command :: "slash_env \<Rightarrow> app \<Rightarrow> app" where
  "disconnect_command E a =
     (if h_net (ap_h a) = Some True
      then say E (se_tr E DISCONNECTED_FROM_SERVER [])
        (upd_h (upd_state (\<lambda>s. s\<lparr>connected := False, connecting := False\<rparr>) \<circ> on_transport_disconnected) a)
      else say E (se_tr E NOT_CONNECTED []) a)"

subsection \<open>Information\<close>

definition status_command :: "slash_env \<Rightarrow> app \<Rightarrow> app" where
  "status_command E a =
     say_all E
       [se_tr E CONNECTION_STATUS [se_tr E (if h_net (ap_h a) = Some True then TEXT_CONNECTED else TEXT_DISCONNECTED) []],
        se_tr E AUTH_STATUS [se_tr E (if h_authenticated (ap_h a) then TEXT_AUTHENTICATED else TEXT_NOT_AUTHENTICATED) []],
        se_tr E USER_LABEL [my_id a],
        se_tr E ACTIVE_CHANNEL [if active_or_empty a = [] then ce_tr E NONE_LABEL [] else active_or_empty a]] a"

definition help_command :: "slash_env \<Rightarrow> string list \<Rightarrow> app \<Rightarrow> app" where
  "help_command E args a =
     (let list = concat (map (\<lambda>t. t @ '' '') (se_topics E));
          more = (if list = [] then [] else [se_tr E AVAILABLE_TOPICS [list]])
      in case args of
           [] \<Rightarrow> (case se_help E ''help'' of
                    Some content \<Rightarrow> say E content a
                  | None \<Rightarrow> say_all E (se_tr E HELP_USAGE [] # more) a)
         | topic # _ \<Rightarrow> (case se_help E topic of
                    Some content \<Rightarrow> say E content a
                  | None \<Rightarrow> say_all E (se_tr E TOPIC_NOT_FOUND [topic] # more) a))"

definition names_command :: "slash_env \<Rightarrow> app \<Rightarrow> app" where
  "names_command E a =
     (let list = concat (map (\<lambda>(u, p). u @ '' '') (online_users (h_state (ap_h a))))
      in say E (ce_tr E ONLINE_USERS [if list = [] then ce_tr E NONE_LABEL [] else list]) a)"

definition result_line :: "message_row \<Rightarrow> string" where
  "result_line r =
     (let t = mr_content r; preview = (if length t > 60 then take 57 t @ ''...'' else t)
      in ''  ['' @ mr_channel_id r @ ''] <'' @ mr_sender_id r @ ''>: '' @ preview)"

definition search_command :: "slash_env \<Rightarrow> string list \<Rightarrow> app \<Rightarrow> app" where
  "search_command E args a =
     (let query = join_words args;
          filters = \<lparr>sf_channel_id = None, sf_sender_id = None, sf_after_ms = None, sf_before_ms = None, sf_limit = 20\<rparr>;
          results = search_messages (ae_matches E) query filters (g_store (h_engine (ap_h a)));
          a = say E (ce_tr E SEARCH_RESULTS [query]) a
      in if results = [] then say E (ce_tr E NO_RESULTS []) a else say_all E (map result_line results) a)"

subsection \<open>Channels and messages\<close>

definition part_command :: "slash_env \<Rightarrow> app \<Rightarrow> app" where
  "part_command E a =
     (let c = active_or_empty a
      in if c = [] \<or> is_server_channel c then say E (ce_tr E CANNOT_LEAVE_SERVER_CHANNEL []) a
         else if c \<in> set (ap_parts a) then say_server E (''part already pending for '' @ c) True a
         else say_server E (''part requested for '' @ c) False (command_out E ''part'' [c] (a\<lparr>ap_parts := ap_parts a @ [c]\<rparr>)))"

definition join_command :: "slash_env \<Rightarrow> string \<Rightarrow> app \<Rightarrow> app" where
  "join_command E arg a =
     (case client_sanitize_channel arg of
        None \<Rightarrow> say E (ce_tr E INVALID_CHANNEL_NAME []) a
      | Some c \<Rightarrow>
          if is_server_channel c then say E (ce_tr E SERVER_RESERVED_TAB []) a
          else if c \<in> set (ap_joins a) then say_server E (''join already pending for '' @ c) True a
          else say_server E (''join requested for '' @ c) False (command_out E ''join'' [c] (a\<lparr>ap_joins := ap_joins a @ [c]\<rparr>)))"

definition msg_command :: "slash_env \<Rightarrow> string \<Rightarrow> string list \<Rightarrow> app \<Rightarrow> app" where
  "msg_command E target words a =
     send_chat (aenv E) (join_words words)
       (remember_target target (upd_h (upd_state (set_active_channel target \<circ> ensure_channel target)) a))"

definition me_command :: "slash_env \<Rightarrow> string list \<Rightarrow> app \<Rightarrow> app" where
  "me_command E args a =
     (let action = join_words args;
          c = (if active_or_empty a = [] then ''#general'' else active_or_empty a);
          m = \<lparr>m_id = [], m_sender = my_id a, m_content = ''* '' @ my_id a @ '' '' @ action, m_timestamp = ce_now E,
               m_read_by_remote = False, m_read_at = 0, m_kind = Kind_System\<rparr>
      in upd_h (upd_state (push_message c m)) (command_out E ''me'' [action] a))"

subsection \<open>Voice\<close>

definition stop_test :: "slash_env \<Rightarrow> app \<Rightarrow> app" where
  "stop_test E a = say E ''Voice self-test stopped.'' (voice_out Voice_stop_local_test a)"

definition hangup_command :: "slash_env \<Rightarrow> app \<Rightarrow> app" where
  "hangup_command E a =
     (if ae_local_test E then stop_test E a else say E (ce_tr E CALL_ENDED []) (voice_out Voice_hangup a))"

definition voice_command :: "slash_env \<Rightarrow> string list \<Rightarrow> app \<Rightarrow> app" where
  "voice_command E args a =
     (let leave = say E (ce_tr E LEFT_VOICE_ROOM []) (voice_out Voice_leave_room a)
      in if args \<noteq> [] \<and> hd args = ''leave'' then leave
         else if ae_local_test E then stop_test E a
         else if ae_in_voice E then leave
         else
           let c = (case args of x # _ \<Rightarrow> x | [] \<Rightarrow> if active_or_empty a = [] then ''#general'' else active_or_empty a)
           in if is_server_channel c then say E (ce_tr E SERVER_RESERVED_TAB []) a
              else say E (ce_tr E JOINING_VOICE_ROOM [c]) (voice_out (Voice_join_room c) a))"

definition mute_command :: "slash_env \<Rightarrow> app \<Rightarrow> app" where
  "mute_command E a =
     (let m = (\<not> vst_muted (voice (h_state (ap_h a))))
      in say E (ce_tr E (if m then MUTED else UNMUTED) []) (voice_out (Voice_set_muted m) a))"

definition deafen_command :: "slash_env \<Rightarrow> app \<Rightarrow> app" where
  "deafen_command E a =
     (let d = (\<not> vst_deafened (voice (h_state (ap_h a))))
      in say E (ce_tr E (if d then DEAFENED else UNDEAFENED) []) (voice_out (Voice_set_deafened d) a))"

text \<open>The mode the engine reports after the change comes from the surroundings, with its label.\<close>

definition vmode_command :: "slash_env \<Rightarrow> app \<Rightarrow> app" where
  "vmode_command E a = say E (ce_tr E VOICE_MODE [ae_mode_label E]) (voice_out Voice_toggle_mode a)"

subsection \<open>Files\<close>

text \<open>\<open>std::stoul\<close>: a minus sign negates in 64 bits.\<close>

definition stoul10 :: "string \<Rightarrow> nat option" where
  "stoul10 s =
     (let s = dropWhile c_isspace s;
          v = (\<lambda>r neg. case digits_value r of
                 None \<Rightarrow> None
               | Some n \<Rightarrow> if n \<ge> 2 ^ 64 then None else Some (if neg then (2 ^ 64 - n) mod 2 ^ 64 else n))
      in case s of
           [] \<Rightarrow> None
         | c # r \<Rightarrow> if c = CHR ''-'' then v r True else if c = CHR ''+'' then v r False else v s False)"

definition transfer_state_label :: "transfer_state \<Rightarrow> string" where
  "transfer_state_label st =
     (case st of PENDING \<Rightarrow> ''queued'' | UPLOADING \<Rightarrow> ''uploading'' | DOWNLOADING \<Rightarrow> ''downloading''
      | COMPLETED \<Rightarrow> ''completed'' | FAILED \<Rightarrow> ''failed'' | CANCELLED \<Rightarrow> ''cancelled'')"

definition transfer_direction_label :: "transfer_direction \<Rightarrow> string" where
  "transfer_direction_label d = (if d = UPLOAD then ''upload'' else ''download'')"

definition transfer_target_label :: "transfer_info \<Rightarrow> string" where
  "transfer_target_label i =
     (if ti_channel i \<noteq> [] then ti_channel i
      else if ti_recipient i \<noteq> [] then ''dm:'' @ ti_recipient i
      else if ti_local_path i \<noteq> [] then ti_local_path i
      else ''-'')"

definition transfer_line :: "slash_env \<Rightarrow> transfer_info \<Rightarrow> string" where
  "transfer_line E i =
     ''  ['' @ transfer_direction_label (ti_direction i) @ ''] '' @ ti_transfer_id i @ '' '' @
     transfer_state_label (ti_state i) @ '' '' @ se_progress E i @ '' '' @
     (if ti_filename i = [] then ti_file_id i else ti_filename i) @
     (if ti_direction i = UPLOAD then '' -> '' @ transfer_target_label i
      else if ti_local_path i \<noteq> [] then '' -> '' @ ti_local_path i else []) @
     (if ti_error i \<noteq> [] then '' | '' @ ti_error i else [])"

definition format_transfer_lines :: "slash_env \<Rightarrow> nat \<Rightarrow> transfers \<Rightarrow> string list" where
  "format_transfer_lines E limit t =
     (let is = list_transfers limit t in if is = [] then [] else ''Recent transfers:'' # map (transfer_line E) is)"

definition transfers_command :: "slash_env \<Rightarrow> string list \<Rightarrow> app \<Rightarrow> app" where
  "transfers_command E args a =
     (let run = (\<lambda>limit.
            let ls = format_transfer_lines E limit (h_transfers (ap_h a))
            in if ls = [] then say E ''No file transfers yet.'' a else say_all E ls a)
      in case args of
           [] \<Rightarrow> run 8
         | n # _ \<Rightarrow> (case stoul10 n of
               None \<Rightarrow> say E ''Usage: /transfers [limit]'' a
             | Some limit \<Rightarrow> run (if limit = 0 then 8 else limit)))"

definition files_command :: "slash_env \<Rightarrow> app \<Rightarrow> app" where
  "files_command E a =
     (let active = canonical_active a
      in if active = [] \<or> is_server_channel active then say E ''Open a channel or DM before listing files.'' a
         else request_remote_files_for_target (aenv E) active True a)"

definition rmfile_command :: "slash_env \<Rightarrow> string list \<Rightarrow> app \<Rightarrow> app" where
  "rmfile_command E args a =
     (case args of
        [] \<Rightarrow> say E ''Usage: /rmfile <file-id>'' a
      | f # _ \<Rightarrow> say_server E (''file delete requested: '' @ f) False (command_out E ''rmfile'' [f] a))"

definition quota_preflight_message :: "slash_env \<Rightarrow> string \<Rightarrow> u64 \<Rightarrow> u64 \<Rightarrow> string" where
  "quota_preflight_message E label n limit =
     ''Upload blocked: file exceeds the '' @ label @ '' ('' @ se_bytes E n @ '' > '' @ se_bytes E limit @ '')''"

text \<open>What the policy the server has sent forbids; \<open>None\<close> when the upload may start.\<close>

definition upload_blocked :: "slash_env \<Rightarrow> policy_msg option \<Rightarrow> u64 \<Rightarrow> string \<Rightarrow> string option" where
  "upload_blocked E policy n mime =
     (case policy of
        None \<Rightarrow> None
      | Some p \<Rightarrow>
          if po_max_upload p > 0 \<and> n > po_max_upload p
          then Some (quota_preflight_message E ''upload limit'' n (po_max_upload p))
          else if po_max_total p > 0 \<and> n > po_max_total p
          then Some (quota_preflight_message E ''server storage quota'' n (po_max_total p))
          else if po_max_user p > 0 \<and> n > po_max_user p
          then Some (quota_preflight_message E ''your storage quota'' n (po_max_user p))
          else if \<not> mime_allowed_by_policy mime (po_allowed p) (po_blocked p)
          then Some (''Upload blocked by server policy: MIME type not allowed ('' @ mime @ '')'')
          else None)"

definition start_file_upload :: "slash_env \<Rightarrow> string \<Rightarrow> string \<Rightarrow> app \<Rightarrow> app" where
  "start_file_upload E path active a =
     (let (tid, t) = upload (ce_files E) path (if is_direct_target active then active else [])
                       (if is_channel active then active else []) (h_transfers (ap_h a));
          a = upd_h (\<lambda>h. h\<lparr>h_transfers := t\<rparr>) a
      in if tid = [] then say E (ce_tr E UPLOAD_FAILED []) a
         else say_all E [ce_tr E UPLOADING_FILE [path_filename path, show_nat (unat (ae_file_size E path))],
                ''Upload queued for '' @ active @ '' (transfer '' @ tid @ '', see /transfers)''] a)"

definition upload_command :: "slash_env \<Rightarrow> string list \<Rightarrow> app \<Rightarrow> app" where
  "upload_command E args a =
     (case args of
        [] \<Rightarrow> say E ''Usage: /upload <local-file-path>'' a
      | path # _ \<Rightarrow>
          if \<not> ae_exists E path then say E (ce_tr E FILE_NOT_FOUND [path]) a
          else
            case upload_blocked E (ap_policy a) (ae_file_size E path) (lower_string (detect_mime_type path)) of
              Some msg \<Rightarrow> say E msg a
            | None \<Rightarrow>
                let active = canonical_active a
                in if active = [] \<or> is_server_channel active then say E ''Open a channel or DM before uploading.'' a
                   else start_file_upload E path active a)"

definition path_join :: "string \<Rightarrow> string \<Rightarrow> string" where
  "path_join base p = (if p \<noteq> [] \<and> hd p = CHR ''/'' then p else base @ ''/'' @ p)"

definition path_stem :: "string \<Rightarrow> string" where
  "path_stem p = take (length (path_filename p) - length (path_extension p)) (path_filename p)"

definition default_download_path :: "slash_env \<Rightarrow> string \<Rightarrow> string \<Rightarrow> string" where
  "default_download_path E file_id filename =
     (let preferred = (if filename = [] then file_id else filename);
          preferred = (if preferred = [] then ''download.bin'' else preferred);
          candidate = path_join ''downloads'' preferred;
          stem = path_stem candidate; ext = path_extension candidate
      in if \<not> ae_exists E candidate then candidate
         else case find (\<lambda>p. \<not> ae_exists E p)
                (map (\<lambda>i. path_join ''downloads'' (stem @ '' ('' @ show_nat i @ '')'' @ ext)) [2..<1000]) of
                Some p \<Rightarrow> p | None \<Rightarrow> path_join ''downloads'' (file_id @ ext))"

definition download_command :: "slash_env \<Rightarrow> string list \<Rightarrow> app \<Rightarrow> app" where
  "download_command E args a =
     (case args of
        [] \<Rightarrow> say E ''Usage: /download <file-id> [save-path]'' a
      | f # rest \<Rightarrow>
          let path = (case rest of p # _ \<Rightarrow> p | [] \<Rightarrow> default_download_path E f f);
              (tid, t) = download (ce_files E) f path (h_transfers (ap_h a));
              a = upd_h (\<lambda>h. h\<lparr>h_transfers := t\<rparr>) a
          in if tid = [] then say E (ce_tr E DOWNLOAD_FAILED []) a
             else say_all E [ce_tr E DOWNLOADING_FILE [f, path],
                    ''Download queued as transfer '' @ tid @ '' (see /transfers)''] a)"

definition engine_safety_number :: "slash_env \<Rightarrow> string \<Rightarrow> crypto_engine \<Rightarrow> string" where
  "engine_safety_number E peer g =
     (case load_peer_identity peer (g_store g) of
        Some k \<Rightarrow> if length k \<noteq> 32 then ''(no key on file for '' @ peer @ '')''
                  else safety_number (ce_lib E) (ed_pub (g_pair g)) k
      | None \<Rightarrow> ''(no key on file for '' @ peer @ '')'')"

definition trust_command :: "slash_env \<Rightarrow> string \<Rightarrow> app \<Rightarrow> app" where
  "trust_command E peer a =
     (let a = say_all E [ce_tr E SAFETY_NUMBER_WITH [peer], ''  '' @ engine_safety_number E peer (h_engine (ap_h a))] a
      in upd_h (\<lambda>h. let g = h_engine h in
           case load_peer_identity peer (g_store g) of
             None \<Rightarrow> h
           | Some k \<Rightarrow> h\<lparr>h_engine := g\<lparr>g_store := save_peer_identity peer k ''verified'' (g_store g)\<rparr>\<rparr>) a)"

subsection \<open>Dispatch\<close>

datatype slash_word =
    W_quit | W_disconnect | W_version | W_status | W_help | W_reload_help | W_clear | W_screen | W_names | W_search | W_whois
  | W_away | W_part | W_join | W_msg | W_call | W_accept | W_hangup | W_voice | W_mute | W_deafen | W_vmode | W_transfers
  | W_files | W_downloads | W_rmfile | W_quota | W_upload | W_download | W_trust | W_me

definition slash_words :: "(string \<times> slash_word) list" where
  "slash_words =
     [(''/quit'', W_quit), (''/exit'', W_quit), (''/disconnect'', W_disconnect), (''/version'', W_version),
      (''/status'', W_status), (''/settings'', W_screen), (''/help'', W_help), (''/reload_help'', W_reload_help),
      (''/clear'', W_clear), (''/diag'', W_screen), (''/voicetest'', W_screen), (''/names'', W_names),
      (''/search'', W_search), (''/whois'', W_whois), (''/away'', W_away), (''/back'', W_away), (''/dnd'', W_away),
      (''/part'', W_part), (''/join'', W_join), (''/msg'', W_msg), (''/call'', W_call), (''/accept'', W_accept),
      (''/hangup'', W_hangup), (''/voice'', W_voice), (''/mute'', W_mute), (''/deafen'', W_deafen),
      (''/vmode'', W_vmode), (''/ptt'', W_vmode), (''/transfers'', W_transfers), (''/files'', W_files),
      (''/downloads'', W_downloads), (''/rmfile'', W_rmfile), (''/quota'', W_quota), (''/upload'', W_upload),
      (''/download'', W_download), (''/trust'', W_trust), (''/me'', W_me)]"

text \<open>The commands that need an authenticated session.\<close>

definition online_command :: "slash_env \<Rightarrow> string \<Rightarrow> slash_word option \<Rightarrow> string list \<Rightarrow> app \<Rightarrow> app" where
  "online_command E name w args a =
     (let unknown = say E (ce_tr E UNKNOWN_COMMAND [name]) a;
          need = (\<lambda>f. case args of [] \<Rightarrow> unknown | x # _ \<Rightarrow> f x)
      in case w of
           Some W_away \<Rightarrow> command_out E (tl name) args (a\<lparr>ap_auto_away := False\<rparr>)
         | Some W_whois \<Rightarrow> command_out E ''whois'' [hd args] a
         | Some W_part \<Rightarrow> part_command E a
         | Some W_join \<Rightarrow> need (\<lambda>c. join_command E c a)
         | Some W_msg \<Rightarrow> (case args of t # x # ws \<Rightarrow> msg_command E t (x # ws) a | _ \<Rightarrow> unknown)
         | Some W_call \<Rightarrow> need (\<lambda>u. say E (ce_tr E CALLING [u]) (voice_out (Voice_call u) a))
         | Some W_accept \<Rightarrow> need (\<lambda>u. say E (ce_tr E ACCEPTED_CALL [u]) (voice_out (Voice_accept_call u) a))
         | Some W_hangup \<Rightarrow> hangup_command E a
         | Some W_voice \<Rightarrow> voice_command E args a
         | Some W_mute \<Rightarrow> mute_command E a
         | Some W_deafen \<Rightarrow> deafen_command E a
         | Some W_vmode \<Rightarrow> vmode_command E a
         | Some W_transfers \<Rightarrow> transfers_command E args a
         | Some W_files \<Rightarrow> files_command E a
         | Some W_downloads \<Rightarrow> say E ''Opened downloads folder: downloads'' a
         | Some W_rmfile \<Rightarrow> rmfile_command E args a
         | Some W_quota \<Rightarrow> say_server E ''quota requested'' False (command_out E ''quota'' [] a)
         | Some W_upload \<Rightarrow> upload_command E args a
         | Some W_download \<Rightarrow> download_command E args a
         | Some W_trust \<Rightarrow> need (\<lambda>p. trust_command E p a)
         | Some W_me \<Rightarrow> need (\<lambda>_. me_command E args a)
         | _ \<Rightarrow> unknown)"

definition app_handle_command :: "slash_env \<Rightarrow> parsed_command \<Rightarrow> shell \<Rightarrow> shell option" where
  "app_handle_command E cmd sh =
     (let w = map_of slash_words (pc_name cmd); args = pc_args cmd;
          rest = upd_app (\<lambda>a.
            if w = Some W_whois \<and> args = [] then say E ''Usage: /whois <name>'' a
            else if \<not> h_authenticated (ap_h a) then say E (ce_tr E NOT_CONNECTED_CHECK_STATUS []) a
            else online_command E (pc_name cmd) w args a) sh
      in case w of
           Some W_screen \<Rightarrow> None
         | Some W_quit \<Rightarrow> Some (begin_shutdown E True True sh)
         | Some W_disconnect \<Rightarrow> Some (upd_app (disconnect_command E) sh)
         | Some W_version \<Rightarrow> Some (upd_app (say_all E [se_tr E CLIENT_VERSION [ce_version E], se_tr E SERVER_VERSION [se_server_version E]]) sh)
         | Some W_status \<Rightarrow> Some (upd_app (status_command E) sh)
         | Some W_help \<Rightarrow> Some (upd_app (help_command E args) sh)
         | Some W_reload_help \<Rightarrow> Some (upd_app (say E (se_tr E HELP_RELOADED [])) sh)
         | Some W_clear \<Rightarrow> Some (upd_app (say E (se_tr E TEXT_CLEARED [])) sh)
         | Some W_names \<Rightarrow> Some (upd_app (names_command E) sh)
         | Some W_search \<Rightarrow> Some (if args = [] then rest else upd_app (search_command E args) sh)
         | _ \<Rightarrow> Some rest)"

subsection \<open>What commands leave alone\<close>

text \<open>What a step does not touch: the messages on the way to the server, and the transfers.\<close>

definition quiet_step :: "app \<Rightarrow> app \<Rightarrow> bool" where
  "quiet_step a b \<longleftrightarrow> h_sent (ap_h b) = h_sent (ap_h a) \<and> h_outbound (ap_h b) = h_outbound (ap_h a) \<and>
     h_authenticated (ap_h b) = h_authenticated (ap_h a)"

definition same_transfers :: "app \<Rightarrow> app \<Rightarrow> bool" where
  "same_transfers a b \<longleftrightarrow> h_transfers (ap_h b) = h_transfers (ap_h a)"

lemma quiet_refl [simp]: "quiet_step a a" and same_transfers_refl [simp]: "same_transfers a a"
  by (simp_all add: quiet_step_def same_transfers_def)

lemma quiet_trans [trans]: "quiet_step a b \<Longrightarrow> quiet_step b c \<Longrightarrow> quiet_step a c"
  and same_transfers_trans [trans]: "same_transfers a b \<Longrightarrow> same_transfers b c \<Longrightarrow> same_transfers a c"
  by (simp_all add: quiet_step_def same_transfers_def)

lemma ui_log_frame [simp]:
  "h_sent (ap_h (ui_log E c text act a)) = h_sent (ap_h a)" "h_outbound (ap_h (ui_log E c text act a)) = h_outbound (ap_h a)"
  "h_authenticated (ap_h (ui_log E c text act a)) = h_authenticated (ap_h a)"
  "h_transfers (ap_h (ui_log E c text act a)) = h_transfers (ap_h a)"
  "ap_policy (ui_log E c text act a) = ap_policy a" "ap_joins (ui_log E c text act a) = ap_joins a"
  "ap_parts (ui_log E c text act a) = ap_parts a" "h_net (ap_h (ui_log E c text act a)) = h_net (ap_h a)"
  by (simp_all add: ui_log_def upd_h_def upd_state_def)

lemma ui_say_frame [simp]:
  "h_sent (ap_h (ui_say E text a)) = h_sent (ap_h a)" "h_outbound (ap_h (ui_say E text a)) = h_outbound (ap_h a)"
  "h_authenticated (ap_h (ui_say E text a)) = h_authenticated (ap_h a)"
  "h_transfers (ap_h (ui_say E text a)) = h_transfers (ap_h a)" "ap_policy (ui_say E text a) = ap_policy a"
  "ap_joins (ui_say E text a) = ap_joins a" "ap_parts (ui_say E text a) = ap_parts a" "h_net (ap_h (ui_say E text a)) = h_net (ap_h a)"
  by (simp_all add: ui_say_def)

lemma say_all_frame [simp]:
  "h_sent (ap_h (say_all E ls a)) = h_sent (ap_h a)" "h_outbound (ap_h (say_all E ls a)) = h_outbound (ap_h a)"
  "h_authenticated (ap_h (say_all E ls a)) = h_authenticated (ap_h a)"
  "h_transfers (ap_h (say_all E ls a)) = h_transfers (ap_h a)"
proof -
  have "h_sent (ap_h (say_all E ls a)) = h_sent (ap_h a) \<and> h_outbound (ap_h (say_all E ls a)) = h_outbound (ap_h a) \<and>
    h_authenticated (ap_h (say_all E ls a)) = h_authenticated (ap_h a) \<and> h_transfers (ap_h (say_all E ls a)) = h_transfers (ap_h a)"
    by (induction ls arbitrary: a) (simp_all add: say_all_def)
  then show "h_sent (ap_h (say_all E ls a)) = h_sent (ap_h a)" "h_outbound (ap_h (say_all E ls a)) = h_outbound (ap_h a)"
    "h_authenticated (ap_h (say_all E ls a)) = h_authenticated (ap_h a)"
    "h_transfers (ap_h (say_all E ls a)) = h_transfers (ap_h a)" by simp_all
qed

lemma information_quiet:
  "quiet_step a (status_command E a)" "quiet_step a (help_command E args a)" "quiet_step a (names_command E a)"
  "quiet_step a (search_command E args a)"
  by (simp_all add: quiet_step_def status_command_def help_command_def names_command_def search_command_def Let_def
      split: list.split option.split)

lemma disconnect_frame:
  "h_sent (ap_h (disconnect_command E a)) = h_sent (ap_h a)"
  "set (h_outbound (ap_h (disconnect_command E a))) \<subseteq> set (h_outbound (ap_h a))"
  by (auto simp: disconnect_command_def upd_h_def upd_state_def on_transport_disconnected_def Let_def)

lemma app_shutdown_frame:
  assumes "\<not> h_authenticated (ap_h (sh_app sh))"
  shows "h_sent (ap_h (sh_app (begin_shutdown E x p sh))) = h_sent (ap_h (sh_app sh))"
    "set (h_outbound (ap_h (sh_app (begin_shutdown E x p sh)))) \<subseteq> set (h_outbound (ap_h (sh_app sh)))"
  using assms
  by (auto simp: begin_shutdown_def upd_app_def upd_h_def call_out_def shutdown_voice_session_def stop_local_typing_def
      send_typing_update_def online_def on_transport_disconnected_def Let_def split: option.splits)

lemma send_frame [simp]:
  "h_transfers (send_env e h) = h_transfers h" "h_transfers (queue_msg E' ty m h) = h_transfers h"
  "h_transfers (send_msg E' ty m h) = h_transfers h" "h_transfers (request_key E' r text i h) = h_transfers h"
  by (simp_all add: send_env_def queue_msg_def send_msg_def send_or_queue_authenticated_def make_envelope_def
      request_key_def send_key_request_now_def Let_def)

lemma command_frame [simp]:
  "h_transfers (ap_h (upd_h (send_command E' c args) a)) = h_transfers (ap_h a)"
  "h_transfers (ap_h (upd_h (call_out k) a)) = h_transfers (ap_h a)"
  "h_transfers (ap_h (upd_h (upd_state f) a)) = h_transfers (ap_h a)"
  by (simp_all add: upd_h_def send_command_def call_out_def upd_state_def)

lemma presence_notice_frame [simp]: "h_transfers (ap_h (presence_notice E' peer a)) = h_transfers (ap_h a)"
  by (simp add: presence_notice_def Let_def)

lemma encrypt_and_send_frame [simp]: "h_transfers (ap_h (encrypt_and_send E' target text a)) = h_transfers (ap_h a)"
proof -
  have "h_transfers (fold (\<lambda>r. request_key E'' r text i) rs h) = h_transfers h" for E'' rs i h
    by (induction rs arbitrary: h) simp_all
  then show ?thesis by (simp add: encrypt_and_send_def send_chat_envelope_def Let_def split: prod.split)
qed

lemma send_chat_frame [simp]: "h_transfers (ap_h (send_chat E' text a)) = h_transfers (ap_h a)"
proof -
  have "h_transfers (ap_h (upd_h (save_row c m \<circ> upd_state f) a)) = h_transfers (ap_h a)" for c m f a
    by (simp add: upd_h_def save_row_def upd_state_def Let_def)
  then show ?thesis by (simp add: send_chat_def Let_def)
qed

lemma remember_frame [simp]: "h_transfers (ap_h (remember_target c a)) = h_transfers (ap_h a)"
  by (simp add: remember_target_def Let_def upd_h_def call_out_def)

lemma request_files_frame [simp]: "h_transfers (ap_h (request_remote_files_for_target E' c echo a)) = h_transfers (ap_h a)"
  by (simp add: request_remote_files_for_target_def request_file_list_def Let_def upd_h_def)

lemma command_transfers [simp]:
  "h_transfers (ap_h (part_command E a)) = h_transfers (ap_h a)" "h_transfers (ap_h (join_command E x a)) = h_transfers (ap_h a)"
  "h_transfers (ap_h (msg_command E x xs a)) = h_transfers (ap_h a)" "h_transfers (ap_h (me_command E xs a)) = h_transfers (ap_h a)"
  "h_transfers (ap_h (hangup_command E a)) = h_transfers (ap_h a)" "h_transfers (ap_h (voice_command E xs a)) = h_transfers (ap_h a)"
  "h_transfers (ap_h (mute_command E a)) = h_transfers (ap_h a)" "h_transfers (ap_h (deafen_command E a)) = h_transfers (ap_h a)"
  "h_transfers (ap_h (vmode_command E a)) = h_transfers (ap_h a)" "h_transfers (ap_h (transfers_command E xs a)) = h_transfers (ap_h a)"
  "h_transfers (ap_h (files_command E a)) = h_transfers (ap_h a)" "h_transfers (ap_h (rmfile_command E xs a)) = h_transfers (ap_h a)"
  by (simp_all add: part_command_def join_command_def msg_command_def me_command_def hangup_command_def voice_command_def
      mute_command_def deafen_command_def vmode_command_def transfers_command_def files_command_def rmfile_command_def
      stop_test_def Let_def split: option.split list.split)

lemma trust_frame [simp]: "h_transfers (ap_h (trust_command E p a)) = h_transfers (ap_h a)"
  by (simp add: trust_command_def upd_h_def Let_def split: option.split)

lemma local_transfers [simp]:
  "h_transfers (ap_h (status_command E a)) = h_transfers (ap_h a)" "h_transfers (ap_h (help_command E xs a)) = h_transfers (ap_h a)"
  "h_transfers (ap_h (names_command E a)) = h_transfers (ap_h a)" "h_transfers (ap_h (search_command E xs a)) = h_transfers (ap_h a)"
  "h_transfers (ap_h (disconnect_command E a)) = h_transfers (ap_h a)"
  by (simp_all add: status_command_def help_command_def names_command_def search_command_def disconnect_command_def
      upd_h_def upd_state_def on_transport_disconnected_def Let_def split: list.split option.split)

lemma shutdown_transfers [simp]: "h_transfers (ap_h (sh_app (begin_shutdown E x p sh))) = h_transfers (ap_h (sh_app sh))"
proof -
  have "h_transfers (ap_h (stop_local_typing E' a)) = h_transfers (ap_h a)" for E' a
    by (simp add: stop_local_typing_def send_typing_update_def upd_h_def split: option.split)
  then show ?thesis
    by (simp add: begin_shutdown_def upd_app_def upd_h_def call_out_def shutdown_voice_session_def
        on_transport_disconnected_def Let_def)
qed

lemma download_pending: "tx_pending (snd (download C f path t)) = tx_pending t"
  by (simp add: download_def generate_transfer_id_def put_info_def send_fn_def Let_def)

lemma upload_pending:
  assumes "upload C path r c t = (i, t')"
  shows "tx_pending t' = tx_pending t \<or> tx_pending t' = tx_pending t @ [i] \<and>
    (\<exists>info. get_transfer t' i = Some info \<and> ti_local_path info = path \<and> ti_recipient info = r \<and> ti_channel info = c)"
  using assms
  by (auto simp: upload_def generate_transfer_id_def put_info_def get_transfer_def Let_def split: option.splits)

lemma online_transfers:
  assumes "tx_pending (h_transfers (ap_h (online_command E name w args a))) \<noteq> tx_pending (h_transfers (ap_h a))"
  shows "w = Some W_upload"
  using assms
  by (auto simp: online_command_def Let_def download_command_def download_pending split_def upd_h_def send_command_def call_out_def
      split: option.splits slash_word.splits list.splits if_splits)

definition within :: "u64 \<Rightarrow> u64 \<Rightarrow> bool" where
  "within n limit \<longleftrightarrow> limit = 0 \<or> n \<le> limit"

definition policy_allows :: "policy_msg option \<Rightarrow> u64 \<Rightarrow> string \<Rightarrow> bool" where
  "policy_allows policy n mime \<longleftrightarrow>
     (\<forall>p. policy = Some p \<longrightarrow> within n (po_max_upload p) \<and> within n (po_max_total p) \<and> within n (po_max_user p) \<and>
        mime_allowed_by_policy mime (po_allowed p) (po_blocked p))"

lemma upload_blocked_None: "upload_blocked E policy n mime = None \<Longrightarrow> policy_allows policy n mime"
  by (auto simp: upload_blocked_def policy_allows_def within_def word_gt_0 split: option.splits if_splits)

end
