(* ===== verification/Chat_End_To_End.thy ===== *)
theory Chat_End_To_End
  imports Client_App Session_Dispatch
begin

text \<open>
  A conversation between two terminal clients through the server.  The state of the conversation is two
  applications, the server, what lies between them, and two records of the past: the texts each user
  typed, and the texts each client has drawn.  Typing, serving, receiving and drawing happen in any order.
\<close>

subsection \<open>What libsignal promises\<close>

text \<open>
  A pair of sessions is a relation between the databases of the two sides and the messages in flight in
  either direction, each with its type, ciphertext and plaintext.  In a session a message is encrypted to a
  Signal message or, until the other side has answered, to a pre-key message, never to one of the types
  0 and 4, and a ciphertext is at most 64 KiB longer than its plaintext; the first message in flight decrypts to its plaintext, after which the receiver has a session too;
  and the history of messages does not matter.
\<close>

type_synonym flight = "(u32 \<times> bytes \<times> bytes) list"

definition signal_contract ::
  "(crypto_lib \<Rightarrow> bool) \<Rightarrow> (lib_view \<Rightarrow> lib_view \<Rightarrow> local_store \<Rightarrow> local_store \<Rightarrow> flight \<Rightarrow> flight \<Rightarrow> bool) \<Rightarrow> bool" where
  "signal_contract ok link \<longleftrightarrow>
     (\<forall>v w d e q r. link v w d e q r \<longrightarrow> link w v e d r q) \<and>
     (\<forall>v w d e q r row. link v w d e q r \<longrightarrow> link v w (save_message row d) e q r) \<and>
     (\<forall>L v w d e q r p. ok L \<and> link v w d e q r \<and> contains_session (lv_user w) 1 d \<longrightarrow>
        l_cipher L \<and>
        (\<exists>ct ty d'. l_encrypt L v (lv_user w) p d = (Some (ct, ty), d') \<and> ty \<noteq> 0 \<and> ty \<noteq> 4 \<and>
           length ct \<le> length p + 65536 \<and>
           contains_session (lv_user w) 1 d' \<and> link v w d' e (q @ [(ty, ct, p)]) r)) \<and>
     (\<forall>L v w d e q r ty ct p. ok L \<and> link v w d e ((ty, ct, p) # q) r \<longrightarrow>
        l_cipher L \<and>
        (\<exists>e'. (if ty = 3 then l_decrypt_pre_key L w (lv_user v) ct e else l_decrypt_message L w (lv_user v) ct e) = (Some p, e') \<and>
           contains_session (lv_user v) 1 e' \<and> link v w d e' q r))"

lemma signal_contractD:
  assumes "signal_contract ok link"
  shows "link v w d e q r \<Longrightarrow> link w v e d r q"
    and "link v w d e q r \<Longrightarrow> link v w (save_message row d) e q r"
    and "ok L \<Longrightarrow> link v w d e q r \<Longrightarrow> contains_session (lv_user w) 1 d \<Longrightarrow>
      l_cipher L \<and> (\<exists>ct ty d'. l_encrypt L v (lv_user w) p d = (Some (ct, ty), d') \<and> ty \<noteq> 0 \<and> ty \<noteq> 4 \<and>
        length ct \<le> length p + 65536 \<and> contains_session (lv_user w) 1 d' \<and> link v w d' e (q @ [(ty, ct, p)]) r)"
    and "ok L \<Longrightarrow> link v w d e ((ty, ct, p) # q) r \<Longrightarrow>
      l_cipher L \<and> (\<exists>e'. (if ty = 3 then l_decrypt_pre_key L w (lv_user v) ct e else l_decrypt_message L w (lv_user v) ct e) = (Some p, e') \<and>
        contains_session (lv_user v) 1 e' \<and> link v w d e' q r)"
proof -
  note c = assms [unfolded signal_contract_def]
  show "link v w d e q r \<Longrightarrow> link w v e d r q" using c [THEN conjunct1] by blast
  show "link v w d e q r \<Longrightarrow> link v w (save_message row d) e q r" using c [THEN conjunct2, THEN conjunct1] by blast
  show "ok L \<Longrightarrow> link v w d e q r \<Longrightarrow> contains_session (lv_user w) 1 d \<Longrightarrow>
      l_cipher L \<and> (\<exists>ct ty d'. l_encrypt L v (lv_user w) p d = (Some (ct, ty), d') \<and> ty \<noteq> 0 \<and> ty \<noteq> 4 \<and>
        length ct \<le> length p + 65536 \<and> contains_session (lv_user w) 1 d' \<and> link v w d' e (q @ [(ty, ct, p)]) r)"
    using c [THEN conjunct2, THEN conjunct2, THEN conjunct1] by blast
  show "ok L \<Longrightarrow> link v w d e ((ty, ct, p) # q) r \<Longrightarrow>
      l_cipher L \<and> (\<exists>e'. (if ty = 3 then l_decrypt_pre_key L w (lv_user v) ct e else l_decrypt_message L w (lv_user v) ct e) = (Some p, e') \<and>
        contains_session (lv_user v) 1 e' \<and> link v w d e' q r)"
    using c [THEN conjunct2, THEN conjunct2, THEN conjunct2] by blast
qed

subsection \<open>What the generated codecs promise\<close>

text \<open>
  Protocol buffers write a message with nothing set as no bytes at all, and a reader refuses a string field that
  is not UTF-8 and messages of two gigabytes and more.  So the law is about chat messages that name their
  sender, in texts of valid UTF-8, and of a bounded size; those a client makes in a conversation are of this form.
\<close>

definition within :: "byte \<Rightarrow> byte \<Rightarrow> byte \<Rightarrow> bool" where
  "within l u b \<longleftrightarrow> l \<le> b \<and> b \<le> u"

fun valid_utf8 :: "bytes \<Rightarrow> bool" where
  "valid_utf8 [] \<longleftrightarrow> True"
| "valid_utf8 (a # r) \<longleftrightarrow>
     (if a < 0x80 then valid_utf8 r
      else case r of [] \<Rightarrow> False
           | b # r2 \<Rightarrow>
               if within 0xC2 0xDF a then within 0x80 0xBF b \<and> valid_utf8 r2
               else case r2 of [] \<Rightarrow> False
                    | c # r3 \<Rightarrow>
                        if within 0xE0 0xEF a
                        then within (if a = 0xE0 then 0xA0 else 0x80) (if a = 0xED then 0x9F else 0xBF) b \<and>
                             within 0x80 0xBF c \<and> valid_utf8 r3
                        else case r3 of [] \<Rightarrow> False
                             | d # r4 \<Rightarrow> within 0xF0 0xF4 a \<and>
                                 within (if a = 0xF0 then 0x90 else 0x80) (if a = 0xF4 then 0x8F else 0xBF) b \<and>
                                 within 0x80 0xBF c \<and> within 0x80 0xBF d \<and> valid_utf8 r4)"

lemma valid_utf8_ascii: "list_all (\<lambda>a. a < 0x80) bs \<Longrightarrow> valid_utf8 bs"
  by (induction bs) simp_all

definition wire_text :: "string \<Rightarrow> bool" where
  "wire_text s \<longleftrightarrow> length s \<le> 65536 \<and> valid_utf8 (to_bytes s)"

lemma wire_text_ascii: "list_all (\<lambda>c. code c < 128) s \<Longrightarrow> length s \<le> 65536 \<Longrightarrow> wire_text s"
  unfolding wire_text_def to_bytes_def
  by (auto simp: list_all_iff word_less_nat_alt unat_of_nat intro!: valid_utf8_ascii)

definition proper_chat :: "chat_message \<Rightarrow> bool" where
  "proper_chat c \<longleftrightarrow> cm_sender c \<noteq> [] \<and> wire_text (cm_sender c) \<and> wire_text (cm_recipient c) \<and>
     wire_text (cm_message_id c) \<and> length (cm_ciphertext c) < 2 ^ 30 \<and> cm_skdm c = []"

definition chat_codecs_agree :: "client_codec \<Rightarrow> codec \<Rightarrow> bool" where
  "chat_codecs_agree K C \<longleftrightarrow>
     (\<forall>c. proper_chat c \<longrightarrow> cp_chat K (cs_msg K (O_Chat c)) = Some c \<and> cs_msg K (O_Chat c) \<noteq> [] \<and>
        parse_chat C (cs_msg K (O_Chat c)) = Some \<lparr>chat_sender = cm_sender c, chat_recipient = cm_recipient c\<rparr>)"

subsection \<open>Sending\<close>

lemma encrypt_direct:
  assumes "signal_contract ok link" "ok L" "link (view_of g) w (g_store g) e q r" "\<not> is_channel (lv_user w)"
    and "contains_session (lv_user w) 1 (g_store g)"
  shows "\<exists>ct ty d'. encrypt L u (lv_user w) text g =
      (empty_chat\<lparr>cm_sender := u, cm_recipient := lv_user w, cm_ciphertext := ct, cm_type := ty\<rparr>, [], g\<lparr>g_store := d'\<rparr>) \<and>
    ty \<noteq> 0 \<and> ty \<noteq> 4 \<and> length ct \<le> length text + 65536 \<and> contains_session (lv_user w) 1 d' \<and>
    link (view_of g) w d' e (q @ [(ty, ct, to_bytes text)]) r"
proof -
  obtain ct ty d' where "l_cipher L" "l_encrypt L (view_of g) (lv_user w) (to_bytes text) (g_store g) = (Some (ct, ty), d')"
    "ty \<noteq> 0" "ty \<noteq> 4" "length ct \<le> length text + 65536" "contains_session (lv_user w) 1 d'"
    "link (view_of g) w d' e (q @ [(ty, ct, to_bytes text)]) r"
    using signal_contractD(3) [OF assms(1,2,3,5), of "to_bytes text"] by auto
  with assms(4,5) show ?thesis by (intro exI [of _ ct] exI [of _ ty] exI [of _ d']) (simp add: encrypt_def)
qed

lemma decrypt_direct:
  assumes "signal_contract ok link" "ok L" "link v (view_of g) d (g_store g) ((ty, ct, p) # q) r" "ty \<noteq> 4"
    and "cm_type c = ty" "cm_ciphertext c = ct" "cm_sender c = lv_user v"
  shows "\<exists>e'. decrypt L c g = (\<lparr>dr_plaintext = of_bytes p, dr_sender = lv_user v, dr_success = True\<rparr>, g\<lparr>g_store := e'\<rparr>) \<and>
    contains_session (lv_user v) 1 e' \<and> link v (view_of g) d e' q r"
proof -
  obtain e' where "l_cipher L" "(if ty = 3 then l_decrypt_pre_key L (view_of g) (lv_user v) ct (g_store g)
        else l_decrypt_message L (view_of g) (lv_user v) ct (g_store g)) = (Some p, e')"
      "contains_session (lv_user v) 1 e'" "link v (view_of g) d e' q r"
    using signal_contractD(4) [OF assms(1,2,3)] by blast
  with assms(4-7) show ?thesis by (intro exI [of _ e'], cases "ty = 3") (simp_all add: decrypt_def Let_def)
qed

text \<open>What a notice or a log line leaves alone: everything but the shown state.\<close>

definition same_but_state :: "handler \<Rightarrow> handler \<Rightarrow> bool" where
  "same_but_state h h' \<longleftrightarrow> (\<exists>s. h' = h\<lparr>h_state := s\<rparr>)"

lemma same_but_state_refl: "same_but_state h h"
  by (auto simp: same_but_state_def intro: exI [of _ "h_state h"])

lemma same_but_stateD:
  assumes "same_but_state h h'"
  shows "h_cfg h' = h_cfg h" "h_engine h' = h_engine h" "h_sent h' = h_sent h" "h_net h' = h_net h"
    "h_authenticated h' = h_authenticated h" "h_ui h' = h_ui h" "h_sync_active h' = h_sync_active h"
  using assms by (auto simp: same_but_state_def)

lemma same_but_state_log: "same_but_state (ap_h a) (ap_h (ui_log E c text b a))"
  by (auto simp: same_but_state_def ui_log_def upd_h_def upd_state_def)

lemma same_but_state_notice: "same_but_state (ap_h a) (ap_h (presence_notice E peer a))"
  using same_but_state_log [of a E peer "dm_presence_notice E (presence_info_of peer (h_state (ap_h a))) peer" False]
  by (auto simp: presence_notice_def Let_def same_but_state_refl)

subsection \<open>What the other user has sent, as it is shown\<close>

text \<open>The chat messages of \<open>u\<close> in a channel; \<open>None\<close> when the channel is full, so that early ones may be gone.\<close>

definition shown :: "string \<Rightarrow> string \<Rightarrow> app_state \<Rightarrow> string list option" where
  "shown c u s =
     (case channel_at s c of
        None \<Rightarrow> Some []
      | Some ch \<Rightarrow>
          if length (cs_messages ch) < kMaxMessages
          then Some (map m_content (filter (\<lambda>m. m_kind m = Kind_Chat \<and> m_sender m = u) (cs_messages ch)))
          else None)"

lemma shown_push_other:
  assumes "shown c u (push_message c' m s) = Some xs" "\<not> (m_kind m = Kind_Chat \<and> m_sender m = u)"
  shows "shown c u s = Some xs"
  using assms
  by (auto simp: shown_def push_message_def empty_channel_def kMaxMessages_def Let_def split: option.splits if_splits)

lemma shown_push_chat:
  assumes "shown c u (push_message c m s) = Some xs" "m_kind m = Kind_Chat" "m_sender m = u"
  shows "\<exists>ys. shown c u s = Some ys \<and> xs = ys @ [m_content m]"
  using assms
  by (auto simp: shown_def push_message_def empty_channel_def kMaxMessages_def Let_def split: option.splits if_splits)

lemma shown_ensure [simp]: "shown c u (ensure_channel c' s) = shown c u s"
  by (auto simp: shown_def ensure_channel_def empty_channel_def kMaxMessages_def Let_def)

lemma shown_upd_channel:
  assumes "\<And>ch. cs_messages (f ch) = cs_messages ch"
  shows "shown c u (upd_channel c' f s) = shown c u s"
  by (auto simp: shown_def upd_channel_def assms split: option.splits)

lemma shown_views [simp]:
  "shown c u (mark_read c' s) = shown c u s" "shown c u (scroll_to_bottom c' s) = shown c u s"
  "shown c u (set_active_channel c' s) = shown c u s"
  by (simp_all add: mark_read_def scroll_to_bottom_def set_active_channel_def shown_upd_channel Let_def)
     (simp add: shown_def)

lemma shown_dm_users [simp]: "shown c u (set_direct_message_users c' x y s) = shown c u s"
  by (simp add: set_direct_message_users_def shown_def Let_def)

lemma shown_log:
  assumes "shown c u (log_message c' m b s) = Some xs" "\<not> (m_kind m = Kind_Chat \<and> m_sender m = u)"
  shows "shown c u s = Some xs"
  using assms by (auto simp: log_message_def Let_def split: if_splits dest!: shown_push_other)

lemma env_of_simps [simp]:
  "ce_lib (env_of E) = ce_lib E" "ce_codec (env_of E) = ce_codec E" "ce_now (env_of E) = ce_now E" "ce_tr (env_of E) = ce_tr E"
  by (simp_all add: env_of_def client_env.defs)

lemma shown_presence_notice:
  "shown c u (h_state (ap_h (presence_notice E peer a))) = Some xs \<Longrightarrow> shown c u (h_state (ap_h a)) = Some xs"
  by (auto simp: presence_notice_def Let_def ui_log_def upd_h_def upd_state_def system_message_def
      split: if_splits dest!: shown_log)

text \<open>The envelope of a direct message.\<close>

definition dm_envelope :: "client_codec \<Rightarrow> string \<Rightarrow> string \<Rightarrow> u32 \<times> bytes \<times> bytes \<Rightarrow> envelope \<Rightarrow> bool" where
  "dm_envelope K sender recipient = (\<lambda>(ty, ct, p) e. env_type e = MT_CHAT_ENVELOPE \<and> ty \<noteq> 0 \<and> ty \<noteq> 4 \<and>
     (\<exists>i. length ct < 2 ^ 30 \<and> wire_text i \<and> env_payload e = cs_msg K (O_Chat \<lparr>cm_sender = sender, cm_recipient = recipient, cm_ciphertext = ct,
             cm_type = ty, cm_skdm = [], cm_message_id = i\<rparr>)))"

lemma send_direct:
  assumes contract: "signal_contract ok link" "ok (ce_lib E)" "link (view_of (h_engine (ap_h a))) w (g_store (h_engine (ap_h a))) e q r"
    and target: "canonical_active a = lv_user w" "is_direct_target (lv_user w)"
    and on: "h_authenticated (ap_h a)" "h_net (ap_h a) = Some True" and len: "length body \<le> kMaxPlaintextMessageBytes"
    and session: "contains_session (lv_user w) 1 (g_store (h_engine (ap_h a)))" and named: "my_id a \<noteq> []"
    and id: "wire_text (ae_message_id E)"
  defines "h \<equiv> ap_h a" and "h' \<equiv> ap_h (send_chat E body a)"
  shows "\<exists>x env d'. h_sent h' = h_sent h @ [env] \<and> dm_envelope (ce_codec E) (me h) (lv_user w) x env \<and>
    snd (snd x) = to_bytes body \<and> h_engine h' = (h_engine h)\<lparr>g_store := d'\<rparr> \<and> contains_session (lv_user w) 1 d' \<and>
    link (view_of (h_engine h)) w d' e (q @ [x]) r \<and>
    h_cfg h' = h_cfg h \<and> h_net h' = h_net h \<and> h_authenticated h' = h_authenticated h \<and> h_ui h' = h_ui h \<and>
    (\<forall>c u xs. u \<noteq> me h \<longrightarrow> shown c u (h_state h') = Some xs \<longrightarrow> shown c u (h_state h) = Some xs)"
proof -
  let ?t = "lv_user w"
  let ?a1 = "presence_notice E ?t a"
  let ?m = "own_message E body ?a1"
  let ?a2 = "upd_h (save_row ?t ?m \<circ> upd_state (push_message ?t ?m)) ?a1"
  note s1 = same_but_stateD [OF same_but_state_notice [of a E ?t]]
  have g2: "h_engine (ap_h ?a2) = (h_engine h)\<lparr>g_store := save_message \<lparr>mr_id = 0, mr_channel_id = ?t,
      mr_sender_id = my_id a, mr_content = body, mr_timestamp_ms = ce_now E, mr_type = 0\<rparr> (g_store (h_engine h))\<rparr>"
    by (simp add: upd_h_def upd_state_def save_row_def Let_def own_message_def s1 h_def)
  have view2: "view_of (h_engine (ap_h ?a2)) = view_of (h_engine h)" unfolding g2 by (simp add: view_of_def)
  have link2: "link (view_of (h_engine (ap_h ?a2))) w (g_store (h_engine (ap_h ?a2))) e q r"
    unfolding view2 unfolding g2 using signal_contractD(2) [OF contract(1,3)] by (simp add: h_def)
  have session2: "contains_session ?t 1 (g_store (h_engine (ap_h ?a2)))"
    unfolding g2 using session by (simp add: contains_session_def load_session_def save_message_def h_def Let_def)
  have nc: "\<not> is_channel ?t" using target(2) by (simp add: is_direct_target_def)
  obtain ct ty d' where enc: "encrypt (ce_lib E) (my_id a) ?t body (h_engine (ap_h ?a2)) =
      (empty_chat\<lparr>cm_sender := my_id a, cm_recipient := ?t, cm_ciphertext := ct, cm_type := ty\<rparr>, [],
       (h_engine (ap_h ?a2))\<lparr>g_store := d'\<rparr>)" "ty \<noteq> 0" "ty \<noteq> 4" "length ct \<le> length body + 65536" "contains_session ?t 1 d'"
      "link (view_of (h_engine (ap_h ?a2))) w d' e (q @ [(ty, ct, to_bytes body)]) r"
    using encrypt_direct [OF contract(1,2) link2 nc session2] by blast
  have me2: "my_id ?a2 = my_id a" and on2: "h_authenticated (ap_h ?a2)" "h_net (ap_h ?a2) = Some True"
    and sent2: "h_sent (ap_h ?a2) = h_sent h" and ui2: "h_ui (ap_h ?a2) = h_ui h" and cfg2: "h_cfg (ap_h ?a2) = h_cfg h"
    using on by (simp_all add: upd_h_def upd_state_def save_row_def Let_def s1 h_def)
  have path: "send_chat E body a = upd_h (call_out (Call_preview ?t body)) (encrypt_and_send E ?t body ?a2)"
    using on target len nc by (simp add: send_chat_def Let_def is_direct_target_def)
  let ?c = "\<lparr>cm_sender = my_id a, cm_recipient = ?t, cm_ciphertext = ct, cm_type = ty, cm_skdm = [],
             cm_message_id = ae_message_id E\<rparr>"
  let ?env = "\<lparr>env_seq = h_next_seq (ap_h ?a2), env_ts = ce_now E, env_type = MT_CHAT_ENVELOPE,
              env_payload = cs_msg (ce_codec E) (O_Chat ?c)\<rparr>"
  have send: "ap_h (encrypt_and_send E ?t body ?a2) =
      (ap_h ?a2)\<lparr>h_engine := (h_engine (ap_h ?a2))\<lparr>g_store := d'\<rparr>, h_next_seq := h_next_seq (ap_h ?a2) + 1,
                h_sent := h_sent (ap_h ?a2) @ [?env]\<rparr>"
    using enc(1) on2 named me2
    by (simp add: encrypt_and_send_def Let_def send_chat_envelope_def queue_msg_def make_envelope_def
        send_or_queue_authenticated_def can_send_authenticated_def send_env_def empty_chat_def)
  have h': "h' = call_out (Call_preview ?t body) (ap_h (encrypt_and_send E ?t body ?a2))"
    by (simp add: h'_def path upd_h_def)
  have state: "h_state h' = push_message ?t ?m (h_state (ap_h ?a1))"
  proof -
    have "h_state (ap_h ?a2) = push_message ?t ?m (h_state (ap_h ?a1))"
      by (simp add: upd_h_def upd_state_def save_row_def Let_def)
    then show ?thesis by (simp add: h' send call_out_def)
  qed
  have shown: "shown c u (h_state h') = Some xs \<longrightarrow> shown c u (h_state h) = Some xs" if "u \<noteq> me h" for c u xs
  proof
    assume "shown c u (h_state h') = Some xs"
    then have "shown c u (h_state (ap_h ?a1)) = Some xs"
      unfolding state using that by (rule_tac shown_push_other) (auto simp: own_message_def s1 h_def)
    then show "shown c u (h_state h) = Some xs" unfolding h_def by (rule shown_presence_notice)
  qed
  show ?thesis
  proof (intro exI conjI)
    show "dm_envelope (ce_codec E) (me h) ?t (ty, ct, to_bytes body) ?env"
      using enc(2,3,4) len id by (auto simp: dm_envelope_def h_def kMaxPlaintextMessageBytes_def)
    show "h_engine h' = (h_engine h)\<lparr>g_store := d'\<rparr>" by (simp add: h' send call_out_def g2)
    show "link (view_of (h_engine h)) w d' e (q @ [(ty, ct, to_bytes body)]) r" using enc(6) unfolding view2 .
  qed (use enc(5) shown in \<open>simp_all add: h' send call_out_def sent2 ui2 cfg2 on2 on [folded h_def]\<close>)
qed

subsection \<open>Receiving and drawing\<close>

fun task_text :: "string \<Rightarrow> ui_task \<Rightarrow> string list" where
  "task_text u (Ui_message c m) = (if m_sender m = u then [m_content m] else [])"
| "task_text u _ = []"

definition posted_texts :: "string \<Rightarrow> handler \<Rightarrow> string list" where
  "posted_texts u h = concat (map (task_text u) (h_ui h))"

text \<open>The tasks a conversation with \<open>u\<close> posts: its messages, and lines of the system.\<close>

fun fine_task :: "string \<Rightarrow> ui_task \<Rightarrow> bool" where
  "fine_task u (Ui_message c m) \<longleftrightarrow> c = u \<and> m_sender m = u \<and> m_kind m = Kind_Chat"
| "fine_task u (Ui_system c m) \<longleftrightarrow> m_kind m = Kind_System"
| "fine_task u _ \<longleftrightarrow> False"

definition fine_tasks :: "string \<Rightarrow> handler \<Rightarrow> bool" where
  "fine_tasks u h \<longleftrightarrow> list_all (fine_task u) (h_ui h)"

lemma show_chat_direct:
  fixes E :: client_env and env :: envelope and body :: string
  assumes "is_direct_target u" "is_direct_target (me h)" "u \<noteq> me h" "cm_sender c = u" "cm_recipient c = me h"
  defines "h' \<equiv> show_chat E env c body h"
  shows "h_sent h' = h_sent h" "h_engine h' = h_engine h" "h_cfg h' = h_cfg h" "h_net h' = h_net h"
    "h_authenticated h' = h_authenticated h" "posted_texts u h' = posted_texts u h @ [body]"
    "fine_tasks u h \<Longrightarrow> fine_tasks u h'" "shown x y (h_state h') = shown x y (h_state h)"
  using assms(1-5)
  by (auto simp: h'_def show_chat_def chat_channel_def is_direct_target_def Let_def upd_state_def call_out_def
      post_ui_def push_system_to_channel_def posted_texts_def fine_tasks_def system_message_def)

lemma receive_direct:
  assumes contract: "signal_contract ok link" "ok (ce_lib E)"
    "link v (view_of (h_engine h)) d (g_store (h_engine h)) (x # q) r"
    and codecs: "chat_codecs_agree (ce_codec E) C" and env: "dm_envelope (ce_codec E) (lv_user v) (me h) x env"
    and names: "is_direct_target (lv_user v)" "is_direct_target (me h)" "lv_user v \<noteq> me h"
    and wire: "wire_text (lv_user v)" "wire_text (me h)"
  defines "h' \<equiv> dispatch E env h"
  shows "\<exists>e'. h_sent h' = h_sent h \<and> h_engine h' = (h_engine h)\<lparr>g_store := e'\<rparr> \<and> contains_session (lv_user v) 1 e' \<and>
    link v (view_of (h_engine h)) d e' q r \<and> h_cfg h' = h_cfg h \<and> h_net h' = h_net h \<and>
    h_authenticated h' = h_authenticated h \<and>
    posted_texts (lv_user v) h' = posted_texts (lv_user v) h @ [of_bytes (snd (snd x))] \<and>
    (fine_tasks (lv_user v) h \<longrightarrow> fine_tasks (lv_user v) h') \<and>
    (\<forall>c u. shown c u (h_state h') = shown c u (h_state h))"
proof -
  obtain ty ct p where x: "x = (ty, ct, p)" by (cases x)
  obtain i where e: "env_type env = MT_CHAT_ENVELOPE" "ty \<noteq> 0" "ty \<noteq> 4" "length ct < 2 ^ 30" "wire_text i"
    "env_payload env = cs_msg (ce_codec E) (O_Chat \<lparr>cm_sender = lv_user v, cm_recipient = me h, cm_ciphertext = ct,
             cm_type = ty, cm_skdm = [], cm_message_id = i\<rparr>)"
    using env unfolding x dm_envelope_def by auto
  let ?c = "\<lparr>cm_sender = lv_user v, cm_recipient = me h, cm_ciphertext = ct, cm_type = ty, cm_skdm = [], cm_message_id = i\<rparr>"
  have "proper_chat ?c" using names wire e(4,5) by (simp add: proper_chat_def is_direct_target_def)
  with codecs e(6) have c: "cp_chat (ce_codec E) (env_payload env) = Some ?c" by (simp add: chat_codecs_agree_def)
  obtain e' where d: "decrypt (ce_lib E) ?c (h_engine h) =
      (\<lparr>dr_plaintext = of_bytes p, dr_sender = lv_user v, dr_success = True\<rparr>, (h_engine h)\<lparr>g_store := e'\<rparr>)"
      "contains_session (lv_user v) 1 e'" "link v (view_of (h_engine h)) d e' q r"
    using decrypt_direct [OF contract(1,2) contract(3) [unfolded x] e(3), of ?c] by auto
  let ?h = "h\<lparr>h_engine := (h_engine h)\<lparr>g_store := e'\<rparr>\<rparr>"
  have h': "h' = show_chat E env ?c (of_bytes p) ?h"
    using e(1,2) c d(1) by (simp add: h'_def dispatch_def handle_chat_c_def)
  have "me ?h = me h" by simp
  note s = show_chat_direct [where u = "lv_user v" and h = ?h and c = ?c and E = E and env = env and body = "of_bytes p",
      folded h']
  show ?thesis
    using s names d(2,3) by (auto intro!: exI [of _ e'] simp: x posted_texts_def fine_tasks_def)
qed

lemma run_fine_task:
  assumes "fine_task u t" "shown u u (h_state (run_task E t h)) = Some xs"
  shows "\<exists>ys. shown u u (h_state h) = Some ys \<and> xs = ys @ task_text u t"
  using assms by (cases t) (auto simp: upd_state_def dest!: shown_push_chat dest: shown_push_other)

lemma run_fine_task_same: "fine_task u t \<Longrightarrow> same_but_state h (run_task E t h)"
  by (cases t) (auto simp: upd_state_def same_but_state_def)

lemma run_fine_tasks:
  assumes "list_all (fine_task u) ts"
  shows "same_but_state h (fold (run_task E) ts h) \<and>
    (\<forall>xs. shown u u (h_state (fold (run_task E) ts h)) = Some xs \<longrightarrow>
       (\<exists>ys. shown u u (h_state h) = Some ys \<and> xs = ys @ concat (map (task_text u) ts)))"
  using assms
proof (induction ts arbitrary: h)
  case (Cons t ts)
  then have t: "fine_task u t" "list_all (fine_task u) ts" by simp_all
  note IH = Cons.IH [OF t(2), of "run_task E t h"]
  have "same_but_state h (fold (run_task E) (t # ts) h)"
    using IH run_fine_task_same [OF t(1), of h E] by (auto simp: same_but_state_def)
  moreover have "\<exists>ys. shown u u (h_state h) = Some ys \<and> xs = ys @ concat (map (task_text u) (t # ts))"
    if xs: "shown u u (h_state (fold (run_task E) (t # ts) h)) = Some xs" for xs
  proof -
    from xs IH obtain zs where "shown u u (h_state (run_task E t h)) = Some zs" "xs = zs @ concat (map (task_text u) ts)"
      by auto
    with run_fine_task [OF t(1)] show ?thesis by fastforce
  qed
  ultimately show ?case by blast
qed (simp add: same_but_state_refl)

lemma draw_direct:
  assumes "fine_tasks u h"
  shows "\<exists>s. drain_ui E h = h\<lparr>h_ui := [], h_state := s\<rparr> \<and>
    (\<forall>xs. shown u u s = Some xs \<longrightarrow> (\<exists>ys. shown u u (h_state h) = Some ys \<and> xs = ys @ posted_texts u h))"
proof -
  have "same_but_state (h\<lparr>h_ui := []\<rparr>) (drain_ui E h)" "\<forall>xs. shown u u (h_state (drain_ui E h)) = Some xs \<longrightarrow>
       (\<exists>ys. shown u u (h_state (h\<lparr>h_ui := []\<rparr>)) = Some ys \<and> xs = ys @ posted_texts u h)"
    using run_fine_tasks [OF assms [unfolded fine_tasks_def], of "h\<lparr>h_ui := []\<rparr>" E]
    by (simp_all add: drain_ui_def posted_texts_def)
  then show ?thesis by (auto simp: same_but_state_def)
qed

subsection \<open>The server in between\<close>

text \<open>A limiter that lets a message through in every window.\<close>

definition has_room :: "rate_limiter option \<Rightarrow> bool" where
  "has_room r \<longleftrightarrow> (case r of None \<Rightarrow> True | Some l \<Rightarrow> 0 < max_tokens l)"

lemma serve_direct:
  assumes "handle_envelope X i env s = Some (oc, s')" and "dm_envelope K u w x env"
    and "chat_codecs_agree K (codec X)" and "established s i" "the_user s i = u" "find_session s w = Some j"
    and "fst (msg_rate_ok X i s)" "length (env_payload env) \<le> max_chat_payload_bytes (cfg s)" "is_direct_target w" "is_direct_target u"
    and "wire_text u" "wire_text w"
  shows "out s' = out s @ [Send j env] \<and> lst s' = lst s \<and> cfg s' = cfg s \<and>
    (\<forall>k. ss_state (sess s' k) = ss_state (sess s k) \<and> the_user s' k = the_user s k \<and>
       has_room (msg_rate_limiter (sess s' k)) = has_room (msg_rate_limiter (sess s k)))"
proof -
  obtain ty ct p where x: "x = (ty, ct, p)" by (cases x)
  obtain m where e: "env_type env = MT_CHAT_ENVELOPE" "env_payload env = cs_msg K (O_Chat m)" "cm_sender m = u" "cm_recipient m = w"
    "length (cm_ciphertext m) < 2 ^ 30" "wire_text (cm_message_id m)" "cm_skdm m = []"
    using assms(2) unfolding x dm_envelope_def by auto
  moreover have "proper_chat m" using calculation assms(10-12) by (simp add: proper_chat_def is_direct_target_def)
  ultimately have parse: "parsed (parse_chat (codec X)) env = Some \<lparr>chat_sender = u, chat_recipient = w\<rparr>"
    using assms(3) by (simp add: chat_codecs_agree_def parsed_def)
  have w: "w \<noteq> []" "\<not> is_hash w" using assms(9) by (auto simp: is_direct_target_def is_channel_def is_hash_def)
  obtain s1 where s1: "msg_rate_ok X i s = (True, s1)" using assms(7) by (cases "msg_rate_ok X i s") auto
  have frame: "out s1 = out s" "lst s1 = lst s" "cfg s1 = cfg s" "find_session s1 = find_session s"
    "\<forall>k. ss_state (sess s1 k) = ss_state (sess s k) \<and> the_user s1 k = the_user s k \<and>
       has_room (msg_rate_limiter (sess s1 k)) = has_room (msg_rate_limiter (sess s k))"
    using s1 by (auto simp: msg_rate_ok_def upd_sess_def the_user_def find_session_def has_room_def rl_allow_def Let_def fun_eq_iff
        split: option.splits prod.splits if_splits)
  have "s' = post j env s1"
    using assms(1,4-6,8) e(1) parse s1 w frame
    by (simp add: handle_envelope_def dispatch_chat_def handle_chat_def deliver_dm_def)
  with frame show ?thesis by (simp add: post_def the_user_def)
qed

subsection \<open>The conversation\<close>

text \<open>
  The two sides are named by \<open>True\<close> and \<open>False\<close>.  \<open>up\<close> holds what a client has sent and the server not yet taken,
  \<open>down\<close> what the server has posted to the session of a client and the client not yet received; \<open>said\<close> lists the
  texts typed on a side, \<open>drawn\<close> the texts of the other side that were drawn there.
\<close>

record talk =
  tk_app :: "bool \<Rightarrow> app"
  tk_server :: server
  tk_up :: "bool \<Rightarrow> envelope list"
  tk_down :: "bool \<Rightarrow> envelope list"
  tk_said :: "bool \<Rightarrow> string list"
  tk_drawn :: "bool \<Rightarrow> string list"

abbreviation h_of :: "talk \<Rightarrow> bool \<Rightarrow> handler" where
  "h_of T b \<equiv> ap_h (tk_app T b)"

definition put_app :: "bool \<Rightarrow> app \<Rightarrow> talk \<Rightarrow> talk" where
  "put_app b a T = T\<lparr>tk_app := (tk_app T)(b := a),
     tk_up := (tk_up T)(b := tk_up T b @ drop (length (h_sent (h_of T b))) (h_sent (ap_h a)))\<rparr>"

text \<open>What the server has posted to session \<open>j\<close> since \<open>n\<close> posts.\<close>

definition posted_to :: "sid \<Rightarrow> nat \<Rightarrow> server \<Rightarrow> envelope list" where
  "posted_to j n s = concat (map (\<lambda>ev. case ev of Send k e \<Rightarrow> if k = j then [e] else [] | _ \<Rightarrow> []) (drop n (out s)))"

text \<open>
  The steps.  A user types while the direct message is the active channel; the client has a session with the
  other side and the text is not too long.  The server serves a message that is within its limits of rate
  and size.
\<close>

inductive talk_step ::
  "(crypto_lib \<Rightarrow> bool) \<Rightarrow> client_codec \<Rightarrow> codec \<Rightarrow> (bool \<Rightarrow> string) \<Rightarrow> (bool \<Rightarrow> sid) \<Rightarrow> talk \<Rightarrow> talk \<Rightarrow> bool"
  for ok K C name sid where
  type_text: "ok (ce_lib E) \<Longrightarrow> ce_codec E = K \<Longrightarrow> canonical_active (tk_app T b) = name (\<not> b) \<Longrightarrow>
     length msg \<le> kMaxPlaintextMessageBytes \<Longrightarrow>
     contains_session (name (\<not> b)) 1 (g_store (h_engine (h_of T b))) \<Longrightarrow> wire_text (ae_message_id E) \<Longrightarrow>
     talk_step ok K C name sid T
       ((put_app b (send_chat E msg (tk_app T b)) T)\<lparr>tk_said := (tk_said T)(b := tk_said T b @ [msg])\<rparr>)"
| serve: "tk_up T b = env # rest \<Longrightarrow> codec X = C \<Longrightarrow> fst (msg_rate_ok X (sid b) (tk_server T)) \<Longrightarrow>
     length (env_payload env) \<le> max_chat_payload_bytes (cfg (tk_server T)) \<Longrightarrow>
     handle_envelope X (sid b) env (tk_server T) = Some (oc, s') \<Longrightarrow>
     talk_step ok K C name sid T
       (T\<lparr>tk_server := s', tk_up := (tk_up T)(b := rest),
          tk_down := (\<lambda>c. tk_down T c @ posted_to (sid c) (length (out (tk_server T))) s')\<rparr>)"
| receive: "tk_down T b = env # rest \<Longrightarrow> ok (ce_lib E) \<Longrightarrow> ce_codec E = K \<Longrightarrow>
     talk_step ok K C name sid T
       (put_app b (upd_h (dispatch E env) (tk_app T b)) (T\<lparr>tk_down := (tk_down T)(b := rest)\<rparr>))"
| draw: "talk_step ok K C name sid T
     ((put_app b (upd_h (drain_ui E) (tk_app T b)) T)
        \<lparr>tk_drawn := (tk_drawn T)(b := tk_drawn T b @ posted_texts (name (\<not> b)) (h_of T b))\<rparr>)"

text \<open>Both sides are logged in and connected under different names; nothing has been said.\<close>

definition side_ready :: "(bool \<Rightarrow> string) \<Rightarrow> talk \<Rightarrow> bool \<Rightarrow> bool" where
  "side_ready name T b \<longleftrightarrow> me (h_of T b) = name b \<and> h_authenticated (h_of T b) \<and> h_net (h_of T b) = Some True \<and>
     g_user (h_engine (h_of T b)) = name b \<and> fine_tasks (name (\<not> b)) (h_of T b)"

definition server_ready :: "(bool \<Rightarrow> string) \<Rightarrow> (bool \<Rightarrow> sid) \<Rightarrow> server \<Rightarrow> bool" where
  "server_ready name sid s \<longleftrightarrow> (\<forall>b. established s (sid b) \<and> the_user s (sid b) = name b \<and> find_session s (name b) = Some (sid b))"

definition talk_start ::
  "(lib_view \<Rightarrow> lib_view \<Rightarrow> local_store \<Rightarrow> local_store \<Rightarrow> flight \<Rightarrow> flight \<Rightarrow> bool) \<Rightarrow> (bool \<Rightarrow> string) \<Rightarrow> (bool \<Rightarrow> sid) \<Rightarrow> talk \<Rightarrow> bool" where
  "talk_start link name sid T \<longleftrightarrow>
     sid True \<noteq> sid False \<and> name True \<noteq> name False \<and> (\<forall>b. is_direct_target (name b)) \<and> (\<forall>b. wire_text (name b)) \<and>
     server_ready name sid (tk_server T) \<and>
     (\<forall>b. side_ready name T b \<and> h_ui (h_of T b) = [] \<and> tk_up T b = [] \<and> tk_down T b = [] \<and> tk_said T b = [] \<and>
          tk_drawn T b = [] \<and> channel_at (h_state (h_of T b)) (name (\<not> b)) = None) \<and>
     link (view_of (h_engine (h_of T True))) (view_of (h_engine (h_of T False)))
       (g_store (h_engine (h_of T True))) (g_store (h_engine (h_of T False))) [] []"

definition talk_inv ::
  "(lib_view \<Rightarrow> lib_view \<Rightarrow> local_store \<Rightarrow> local_store \<Rightarrow> flight \<Rightarrow> flight \<Rightarrow> bool) \<Rightarrow> client_codec \<Rightarrow> (bool \<Rightarrow> string) \<Rightarrow>
   (bool \<Rightarrow> sid) \<Rightarrow> (bool \<Rightarrow> flight) \<Rightarrow> talk \<Rightarrow> bool" where
  "talk_inv link K name sid q T \<longleftrightarrow>
     server_ready name sid (tk_server T) \<and>
     (\<forall>b. side_ready name T b \<and>
       list_all2 (dm_envelope K (name b) (name (\<not> b))) (q b) (tk_down T (\<not> b) @ tk_up T b) \<and>
       tk_said T b = tk_drawn T (\<not> b) @ posted_texts (name b) (h_of T (\<not> b)) @ map (of_bytes \<circ> snd \<circ> snd) (q b) \<and>
       (\<forall>xs. shown (name (\<not> b)) (name (\<not> b)) (h_state (h_of T b)) = Some xs \<longrightarrow> xs = tk_drawn T b) \<and>
       link (view_of (h_engine (h_of T b))) (view_of (h_engine (h_of T (\<not> b))))
         (g_store (h_engine (h_of T b))) (g_store (h_engine (h_of T (\<not> b)))) (q b) (q (\<not> b)))"

lemma all_sides: "(\<forall>c. P c) \<longleftrightarrow> P b \<and> P (\<not> b)"
  by (cases b) (auto simp: all_bool_eq)

lemma put_app_other [simp]: "tk_app (put_app b a T) b = a" "c \<noteq> b \<Longrightarrow> tk_app (put_app b a T) c = tk_app T c"
  "tk_server (put_app b a T) = tk_server T" "tk_down (put_app b a T) = tk_down T"
  "tk_said (put_app b a T) = tk_said T" "tk_drawn (put_app b a T) = tk_drawn T"
  "c \<noteq> b \<Longrightarrow> tk_up (put_app b a T) c = tk_up T c"
  by (simp_all add: put_app_def)

lemma put_app_up: "h_sent (ap_h a) = h_sent (h_of T b) @ es \<Longrightarrow> tk_up (put_app b a T) b = tk_up T b @ es"
  by (simp add: put_app_def)

lemma talk_invD:
  assumes "talk_inv link K name sid q T"
  shows "server_ready name sid (tk_server T)" "side_ready name T b"
    "list_all2 (dm_envelope K (name b) (name (\<not> b))) (q b) (tk_down T (\<not> b) @ tk_up T b)"
    "tk_said T b = tk_drawn T (\<not> b) @ posted_texts (name b) (h_of T (\<not> b)) @ map (of_bytes \<circ> snd \<circ> snd) (q b)"
    "shown (name (\<not> b)) (name (\<not> b)) (h_state (h_of T b)) = Some xs \<Longrightarrow> xs = tk_drawn T b"
    "link (view_of (h_engine (h_of T b))) (view_of (h_engine (h_of T (\<not> b))))
         (g_store (h_engine (h_of T b))) (g_store (h_engine (h_of T (\<not> b)))) (q b) (q (\<not> b))"
  using assms unfolding talk_inv_def by blast+

lemma view_of_store [simp]: "view_of (g\<lparr>g_store := d\<rparr>) = view_of g"
  by (simp add: view_of_def)

lemma inv_type_text:
  assumes contract: "signal_contract ok link" and names: "\<And>c. is_direct_target (name c)" "name True \<noteq> name False"
    and inv: "talk_inv link K name sid q T"
    and E: "ok (ce_lib E)" "ce_codec E = K" "canonical_active (tk_app T b) = name (\<not> b)" "length msg \<le> kMaxPlaintextMessageBytes"
    "contains_session (name (\<not> b)) 1 (g_store (h_engine (h_of T b)))"
    "wire_text (ae_message_id E)"
  shows "\<exists>q'. talk_inv link K name sid q'
    ((put_app b (send_chat E msg (tk_app T b)) T)\<lparr>tk_said := (tk_said T)(b := tk_said T b @ [msg])\<rparr>)"
proof -
  note I = talk_invD [OF inv]
  have ready: "side_ready name T b" "side_ready name T (\<not> b)" by (rule I(2))+
  have other: "name (\<not> b) \<noteq> name b" using names(2) by (cases b) auto
  let ?a = "tk_app T b" and ?w = "view_of (h_engine (h_of T (\<not> b)))" and ?h' = "ap_h (send_chat E msg (tk_app T b))"
  have w: "lv_user ?w = name (\<not> b)" using ready(2) by (simp add: side_ready_def view_of_def)
  have on: "h_authenticated (h_of T b)" "h_net (h_of T b) = Some True" "me (h_of T b) = name b" "me (h_of T b) \<noteq> []"
    using ready(1) names(1) [of b] by (simp_all add: side_ready_def is_direct_target_def)
  have c: "canonical_active ?a = lv_user ?w" "is_direct_target (lv_user ?w)"
    "contains_session (lv_user ?w) 1 (g_store (h_engine (h_of T b)))"
    using E(3,5) names(1) by (simp_all only: w)
  obtain x env d' where s: "h_sent ?h' = h_sent (h_of T b) @ [env]" "dm_envelope K (name b) (name (\<not> b)) x env"
    "snd (snd x) = to_bytes msg" "h_engine ?h' = (h_engine (h_of T b))\<lparr>g_store := d'\<rparr>"
    "link (view_of (h_engine (h_of T b))) ?w d' (g_store (h_engine (h_of T (\<not> b)))) (q b @ [x]) (q (\<not> b))"
    "h_cfg ?h' = h_cfg (h_of T b)" "h_net ?h' = h_net (h_of T b)" "h_authenticated ?h' = h_authenticated (h_of T b)"
    "h_ui ?h' = h_ui (h_of T b)"
    and sh: "\<forall>c u xs. u \<noteq> name b \<longrightarrow> shown c u (h_state ?h') = Some xs \<longrightarrow> shown c u (h_state (h_of T b)) = Some xs"
    using send_direct [OF contract E(1) I(6) [of b] c(1,2) on(1,2) E(4) c(3) on(4) E(6), unfolded w on(3) E(2)] by blast
  let ?q = "q(b := q b @ [x])"
  let ?T = "(put_app b (send_chat E msg ?a) T)\<lparr>tk_said := (tk_said T)(b := tk_said T b @ [msg])\<rparr>"
  have apps: "h_of ?T b = ?h'" "h_of ?T (\<not> b) = h_of T (\<not> b)" by simp_all
  have flows: "tk_up ?T b = tk_up T b @ [env]" "tk_up ?T (\<not> b) = tk_up T (\<not> b)" "tk_down ?T = tk_down T"
    "tk_drawn ?T = tk_drawn T" "tk_server ?T = tk_server T"
    using put_app_up [OF s(1)] by simp_all
  have texts: "posted_texts u ?h' = posted_texts u (h_of T b)" for u using s(9) by (simp add: posted_texts_def)
  have ready': "side_ready name ?T b" "side_ready name ?T (\<not> b)"
    using ready s(4,6-9) unfolding side_ready_def apps by (simp_all add: fine_tasks_def)
  have link': "link (view_of (h_engine ?h')) ?w (g_store (h_engine ?h')) (g_store (h_engine (h_of T (\<not> b)))) (?q b) (?q (\<not> b))"
    using s(4,5) by simp
  have "talk_inv link K name sid ?q ?T"
    unfolding talk_inv_def
  proof (intro conjI)
    show "server_ready name sid (tk_server ?T)" using I(1) by simp
    show "\<forall>c. side_ready name ?T c \<and>
       list_all2 (dm_envelope K (name c) (name (\<not> c))) (?q c) (tk_down ?T (\<not> c) @ tk_up ?T c) \<and>
       tk_said ?T c = tk_drawn ?T (\<not> c) @ posted_texts (name c) (h_of ?T (\<not> c)) @ map (of_bytes \<circ> snd \<circ> snd) (?q c) \<and>
       (\<forall>xs. shown (name (\<not> c)) (name (\<not> c)) (h_state (h_of ?T c)) = Some xs \<longrightarrow> xs = tk_drawn ?T c) \<and>
       link (view_of (h_engine (h_of ?T c))) (view_of (h_engine (h_of ?T (\<not> c))))
         (g_store (h_engine (h_of ?T c))) (g_store (h_engine (h_of ?T (\<not> c)))) (?q c) (?q (\<not> c))"
      unfolding all_sides [of _ b]
    proof (intro conjI)
      show "list_all2 (dm_envelope K (name b) (name (\<not> b))) (?q b) (tk_down ?T (\<not> b) @ tk_up ?T b)"
        unfolding flows using list_all2_appendI [OF I(3) [of b], of "[x]" "[env]"] s(2) by simp
      show "tk_said ?T b = tk_drawn ?T (\<not> b) @ posted_texts (name b) (h_of ?T (\<not> b)) @ map (of_bytes \<circ> snd \<circ> snd) (?q b)"
        using I(4) [of b] s(3) by simp
      show "\<forall>xs. shown (name (\<not> b)) (name (\<not> b)) (h_state (h_of ?T b)) = Some xs \<longrightarrow> xs = tk_drawn ?T b"
        using sh other I(5) [of b] unfolding apps flows by blast
      show "tk_said ?T (\<not> b) = tk_drawn ?T (\<not> \<not> b) @ posted_texts (name (\<not> b)) (h_of ?T (\<not> \<not> b)) @
          map (of_bytes \<circ> snd \<circ> snd) (?q (\<not> b))"
        using I(4) [of "\<not> b"] texts by simp
    qed (use ready' I(3,5) [of "\<not> b"] link' signal_contractD(1) [OF contract link'] flows in \<open>simp_all\<close>)
  qed
  then show ?thesis by blast
qed


lemma inv_serve:
  assumes names: "\<And>c. is_direct_target (name c)" "\<And>c. wire_text (name c)" "sid True \<noteq> sid False" and codecs: "chat_codecs_agree K (codec X)"
    and inv: "talk_inv link K name sid q T"
    and E: "tk_up T b = env # rest" "fst (msg_rate_ok X (sid b) (tk_server T))"
      "length (env_payload env) \<le> max_chat_payload_bytes (cfg (tk_server T))"
      "handle_envelope X (sid b) env (tk_server T) = Some (oc, s')"
  shows "talk_inv link K name sid q (T\<lparr>tk_server := s', tk_up := (tk_up T)(b := rest),
          tk_down := (\<lambda>c. tk_down T c @ posted_to (sid c) (length (out (tk_server T))) s')\<rparr>)"
proof -
  note I = talk_invD [OF inv]
  have other: "sid (\<not> b) \<noteq> sid b" using names(3) by (cases b) auto
  obtain x where x: "dm_envelope K (name b) (name (\<not> b)) x env"
    using I(3) [of b] unfolding E(1) list_all2_append2 list_all2_Cons2 by blast
  have srv: "established (tk_server T) (sid b)" "the_user (tk_server T) (sid b) = name b"
    "find_session (tk_server T) (name (\<not> b)) = Some (sid (\<not> b))"
    using I(1) by (simp_all add: server_ready_def)
  note s = serve_direct [OF E(4) x codecs srv E(2,3) names(1) names(1) names(2) names(2)]
  have posts: "posted_to (sid (\<not> b)) (length (out (tk_server T))) s' = [env]"
    "posted_to (sid b) (length (out (tk_server T))) s' = []"
    using s other by (simp_all add: posted_to_def)
  have "server_ready name sid s'" using I(1) s by (simp add: server_ready_def find_session_def)
  moreover note I(2-6) [of b] I(2-6) [of "\<not> b"]
  ultimately show ?thesis
    unfolding talk_inv_def all_sides [of _ b] using posts E(1) by (simp add: side_ready_def)
qed

lemma inv_receive:
  assumes contract: "signal_contract ok link" and names: "\<And>c. is_direct_target (name c)" "\<And>c. wire_text (name c)" "name True \<noteq> name False"
    and codecs: "chat_codecs_agree K C" and inv: "talk_inv link K name sid q T"
    and E: "tk_down T b = env # rest" "ok (ce_lib E)" "ce_codec E = K"
  shows "\<exists>q'. talk_inv link K name sid q'
    (put_app b (upd_h (dispatch E env) (tk_app T b)) (T\<lparr>tk_down := (tk_down T)(b := rest)\<rparr>)) \<and>
    tk_up (put_app b (upd_h (dispatch E env) (tk_app T b)) (T\<lparr>tk_down := (tk_down T)(b := rest)\<rparr>)) = tk_up T"
proof -
  note I = talk_invD [OF inv]
  have ready: "side_ready name T b" "side_ready name T (\<not> b)" by (rule I(2))+
  have other: "name (\<not> b) \<noteq> name b" using names(3) by (cases b) auto
  let ?v = "view_of (h_engine (h_of T (\<not> b)))" and ?h = "h_of T b" and ?h' = "dispatch E env (h_of T b)"
  have v: "lv_user ?v = name (\<not> b)" "me ?h = name b" using ready by (simp_all add: side_ready_def view_of_def)
  obtain x q2 where q: "q (\<not> b) = x # q2" "dm_envelope K (name (\<not> b)) (name b) x env"
    "list_all2 (dm_envelope K (name (\<not> b)) (name b)) q2 (rest @ tk_up T (\<not> b))"
    using I(3) [of "\<not> b"] E(1) by (auto simp: list_all2_Cons2)
  have link: "link ?v (view_of (h_engine ?h)) (g_store (h_engine (h_of T (\<not> b)))) (g_store (h_engine ?h)) (x # q2) (q b)"
    using I(6) [of "\<not> b"] q(1) by simp
  obtain e' where r: "h_sent ?h' = h_sent ?h" "h_engine ?h' = (h_engine ?h)\<lparr>g_store := e'\<rparr>"
    "link ?v (view_of (h_engine ?h)) (g_store (h_engine (h_of T (\<not> b)))) e' q2 (q b)"
    "h_cfg ?h' = h_cfg ?h" "h_net ?h' = h_net ?h" "h_authenticated ?h' = h_authenticated ?h"
    "posted_texts (name (\<not> b)) ?h' = posted_texts (name (\<not> b)) ?h @ [of_bytes (snd (snd x))]"
    "fine_tasks (name (\<not> b)) ?h \<longrightarrow> fine_tasks (name (\<not> b)) ?h'"
    "\<And>c u. shown c u (h_state ?h') = shown c u (h_state ?h)"
    using receive_direct [OF contract E(2) link, of C env] codecs q(2) names(1,2) other unfolding v E(3) by auto
  let ?q = "q((\<not> b) := q2)"
  let ?T = "put_app b (upd_h (dispatch E env) (tk_app T b)) (T\<lparr>tk_down := (tk_down T)(b := rest)\<rparr>)"
  have apps: "h_of ?T b = ?h'" "h_of ?T (\<not> b) = h_of T (\<not> b)" by (simp_all add: upd_h_def)
  have ups: "tk_up ?T b = tk_up T b" "tk_up ?T (\<not> b) = tk_up T (\<not> b)" using r(1) by (simp_all add: put_app_def upd_h_def)
  have flows: "tk_down ?T = (tk_down T)(b := rest)" "tk_said ?T = tk_said T" "tk_drawn ?T = tk_drawn T" "tk_server ?T = tk_server T"
    by simp_all
  have ready': "side_ready name ?T b" "side_ready name ?T (\<not> b)"
    using ready r(2,4-6,8) unfolding side_ready_def apps by simp_all
  have link': "link ?v (view_of (h_engine ?h')) (g_store (h_engine (h_of T (\<not> b)))) (g_store (h_engine ?h')) q2 (q b)"
    using r(2,3) by simp
  note rest = I(1) I(3-5) [of b] I(4,5) [of "\<not> b"]
  have "talk_inv link K name sid ?q ?T"
    unfolding talk_inv_def all_sides [of _ b] flows ups apps
    using rest ready' link' signal_contractD(1) [OF contract link'] q(1,3) r(7,9) apps by simp
  moreover have "tk_up ?T = tk_up T" using r(1) by (simp add: put_app_def upd_h_def fun_eq_iff)
  ultimately show ?thesis by blast
qed

lemma inv_draw:
  assumes names: "\<And>c. is_direct_target (name c)" and inv: "talk_inv link K name sid q T"
  shows "talk_inv link K name sid q
    ((put_app b (upd_h (drain_ui E) (tk_app T b)) T)
        \<lparr>tk_drawn := (tk_drawn T)(b := tk_drawn T b @ posted_texts (name (\<not> b)) (h_of T b))\<rparr>)"
proof -
  note I = talk_invD [OF inv]
  have ready: "side_ready name T b" "side_ready name T (\<not> b)" by (rule I(2))+
  then obtain s where d: "drain_ui E (h_of T b) = (h_of T b)\<lparr>h_ui := [], h_state := s\<rparr>"
    "\<And>xs. shown (name (\<not> b)) (name (\<not> b)) s = Some xs \<Longrightarrow>
       \<exists>ys. shown (name (\<not> b)) (name (\<not> b)) (h_state (h_of T b)) = Some ys \<and> xs = ys @ posted_texts (name (\<not> b)) (h_of T b)"
    using draw_direct [of "name (\<not> b)" "h_of T b" E] by (auto simp: side_ready_def)
  let ?T = "(put_app b (upd_h (drain_ui E) (tk_app T b)) T)
        \<lparr>tk_drawn := (tk_drawn T)(b := tk_drawn T b @ posted_texts (name (\<not> b)) (h_of T b))\<rparr>"
  have apps: "h_of ?T b = (h_of T b)\<lparr>h_ui := [], h_state := s\<rparr>" "h_of ?T (\<not> b) = h_of T (\<not> b)"
    by (simp_all add: upd_h_def d(1))
  have ups: "tk_up ?T b = tk_up T b" "tk_up ?T (\<not> b) = tk_up T (\<not> b)" by (simp_all add: put_app_def upd_h_def d(1))
  have flows: "tk_down ?T = tk_down T" "tk_said ?T = tk_said T" "tk_server ?T = tk_server T"
    "tk_drawn ?T = (tk_drawn T)(b := tk_drawn T b @ posted_texts (name (\<not> b)) (h_of T b))"
    by simp_all
  have ready': "side_ready name ?T b" "side_ready name ?T (\<not> b)"
    using ready unfolding side_ready_def apps by (simp_all add: fine_tasks_def)
  have sh: "xs = tk_drawn T b @ posted_texts (name (\<not> b)) (h_of T b)" if "shown (name (\<not> b)) (name (\<not> b)) s = Some xs" for xs
    using d(2) [OF that] I(5) [of b] by auto
  note rest = I(1) I(3,4,6) [of b] I(3-6) [of "\<not> b"]
  show ?thesis
    unfolding talk_inv_def all_sides [of _ b] flows ups apps
    using rest ready' sh by (simp add: apps posted_texts_def upd_h_def d(1))
qed

lemma talk_inv_step:
  assumes "talk_step ok K C name sid T T'" and "signal_contract ok link" and "\<And>c. is_direct_target (name c)"
    and "name True \<noteq> name False" and "sid True \<noteq> sid False" and "chat_codecs_agree K C" and "talk_inv link K name sid q T"
    and "\<And>c. wire_text (name c)"
  shows "\<exists>q'. talk_inv link K name sid q' T'"
  using assms(1)
proof cases
  case (type_text E b msg)
  then show ?thesis using inv_type_text [OF assms(2-4,7)] by simp
next
  case (serve b env rest X oc s')
  then show ?thesis using inv_serve [OF assms(3,8,5) _ assms(7), of X b env rest oc s'] assms(6) by blast
next
  case (receive b env rest E)
  then show ?thesis using inv_receive [OF assms(2,3,8,4,6,7)] by blast
next
  case (draw b E)
  then show ?thesis using inv_draw [OF assms(3,7)] by blast
qed

lemma talk_startD:
  assumes "talk_start link name sid T"
  shows "sid True \<noteq> sid False" "name True \<noteq> name False" "is_direct_target (name c)" "wire_text (name c)"
  using assms by (simp_all add: talk_start_def)

lemma talk_inv_start:
  assumes "signal_contract ok link" "talk_start link name sid T"
  shows "talk_inv link K name sid (\<lambda>_. []) T"
proof -
  have link: "link (view_of (h_engine (h_of T True))) (view_of (h_engine (h_of T False)))
       (g_store (h_engine (h_of T True))) (g_store (h_engine (h_of T False))) [] []"
    using assms(2) by (simp add: talk_start_def)
  show ?thesis
    unfolding talk_inv_def all_sides [of _ True]
    using assms(2) link signal_contractD(1) [OF assms(1) link]
    by (auto simp: talk_start_def posted_texts_def shown_def all_bool_eq)
qed

lemma talk_inv_reachable:
  assumes "signal_contract ok link" "chat_codecs_agree K C" "talk_start link name sid T0"
    and "(talk_step ok K C name sid)\<^sup>*\<^sup>* T0 T"
  shows "\<exists>q. talk_inv link K name sid q T"
  using assms(4)
proof (induction rule: rtranclp_induct)
  case base
  then show ?case using talk_inv_start [OF assms(1,3)] by blast
next
  case (step T T')
  then show ?case
    using talk_inv_step [OF step(2) assms(1) talk_startD(3,2,1) [OF assms(3)] assms(2) _ talk_startD(4) [OF assms(3)]] by blast
qed

lemma talk_all_drawn:
  assumes "talk_inv link K name sid q T" "tk_up T b = []" "tk_down T (\<not> b) = []" "h_ui (h_of T (\<not> b)) = []"
  shows "tk_said T b = tk_drawn T (\<not> b)"
  using talk_invD(3,4) [OF assms(1), of b] assms(2-4) by (simp add: posted_texts_def)

subsection \<open>Everything typed can arrive\<close>

text \<open>
  The server can serve what is under way: its limiters leave room for a message in every window, and no
  message is above its limit of size.
\<close>

definition servable :: "(bool \<Rightarrow> sid) \<Rightarrow> talk \<Rightarrow> bool" where
  "servable sid T \<longleftrightarrow> (\<forall>b. has_room (msg_rate_limiter (sess (tk_server T) (sid b))) \<and>
     list_all (\<lambda>e. length (env_payload e) \<le> max_chat_payload_bytes (cfg (tk_server T))) (tk_up T b))"

lemma serve_possible:
  assumes "has_room (msg_rate_limiter (sess s i))" "env_type env = MT_CHAT_ENVELOPE"
  shows "\<exists>X oc s'. codec X = C \<and> fst (msg_rate_ok X i s) \<and> handle_envelope X i env s = Some (oc, s')"
proof -
  let ?t = "case msg_rate_limiter (sess s i) of None \<Rightarrow> 0 | Some l \<Rightarrow> window_start l + window l"
  let ?X = "demo_ctx\<lparr>codec := C, steady_now := ?t\<rparr>"
  have "fst (msg_rate_ok ?X i s)"
    using assms(1) by (auto simp: msg_rate_ok_def has_room_def rl_allow_def Let_def split: option.split)
  moreover have "\<exists>oc s'. handle_envelope ?X i env s = Some (oc, s')"
    using assms(2) by (auto simp: handle_envelope_def dispatch_chat_def split_def Let_def split: option.split)
  ultimately show ?thesis by (intro exI [of _ ?X]) simp
qed

lemma serve_one:
  assumes names: "\<And>c. is_direct_target (name c)" "\<And>c. wire_text (name c)" "sid True \<noteq> sid False" and codecs: "chat_codecs_agree K C"
    and inv: "talk_inv link K name sid q T" and can: "servable sid T" and up: "tk_up T b = env # rest"
  shows "\<exists>T'. talk_step ok K C name sid T T' \<and> talk_inv link K name sid q T' \<and> servable sid T' \<and>
    tk_said T' = tk_said T \<and> tk_up T' = (tk_up T)(b := rest)"
proof -
  note I = talk_invD [OF inv]
  obtain x where x: "dm_envelope K (name b) (name (\<not> b)) x env"
    using I(3) [of b] unfolding up list_all2_append2 list_all2_Cons2 by blast
  then have ty: "env_type env = MT_CHAT_ENVELOPE" by (auto simp: dm_envelope_def)
  have room: "has_room (msg_rate_limiter (sess (tk_server T) (sid b)))"
    and size: "length (env_payload env) \<le> max_chat_payload_bytes (cfg (tk_server T))"
    using can up by (auto simp: servable_def dest: spec [of _ b])
  obtain X oc s' where X: "codec X = C" "fst (msg_rate_ok X (sid b) (tk_server T))"
    "handle_envelope X (sid b) env (tk_server T) = Some (oc, s')"
    using serve_possible [OF room ty] by blast
  let ?T = "T\<lparr>tk_server := s', tk_up := (tk_up T)(b := rest),
          tk_down := (\<lambda>c. tk_down T c @ posted_to (sid c) (length (out (tk_server T))) s')\<rparr>"
  have srv: "established (tk_server T) (sid b)" "the_user (tk_server T) (sid b) = name b"
    "find_session (tk_server T) (name (\<not> b)) = Some (sid (\<not> b))"
    using I(1) by (simp_all add: server_ready_def)
  note s = serve_direct [OF X(3) x codecs [folded X(1)] srv X(2) size names(1) names(1) names(2) names(2)]
  have "talk_inv link K name sid q ?T" using inv_serve [OF names codecs [folded X(1)] inv up X(2) size X(3)] .
  moreover have "servable sid ?T"
    using can up s by (auto simp: servable_def dest: spec [of _ b])
  moreover have "talk_step ok K C name sid T ?T" using up X(1,2) size X(3) by (rule talk_step.serve)
  ultimately show ?thesis by (intro exI [of _ ?T]) simp
qed

lemma serve_all:
  assumes names: "\<And>c. is_direct_target (name c)" "\<And>c. wire_text (name c)" "sid True \<noteq> sid False" and codecs: "chat_codecs_agree K C"
    and inv: "talk_inv link K name sid q T" and can: "servable sid T"
  shows "\<exists>T'. (talk_step ok K C name sid)\<^sup>*\<^sup>* T T' \<and> talk_inv link K name sid q T' \<and> servable sid T' \<and>
    tk_said T' = tk_said T \<and> tk_up T' = (tk_up T)(b := [])"
  using inv can
proof (induction "tk_up T b" arbitrary: T)
  case Nil
  then have "tk_up T = (tk_up T)(b := [])" by (simp add: fun_eq_iff)
  with Nil show ?case by blast
next
  case (Cons env rest)
  from serve_one [OF names codecs Cons(3,4), of b env rest] Cons(2)
  obtain T1 where T1: "talk_step ok K C name sid T T1" "talk_inv link K name sid q T1" "servable sid T1"
    "tk_said T1 = tk_said T" "tk_up T1 = (tk_up T)(b := rest)" by metis
  with Cons(1) [of T1] obtain T' where "(talk_step ok K C name sid)\<^sup>*\<^sup>* T1 T'" "talk_inv link K name sid q T'" "servable sid T'"
    "tk_said T' = tk_said T1" "tk_up T' = (tk_up T1)(b := [])" by auto
  with T1 show ?case by (intro exI [of _ T']) (simp add: converse_rtranclp_into_rtranclp)
qed

abbreviation no_files :: client_ctx where
  "no_files \<equiv> \<lparr>cc_now = 0, cc_random_id = [], cc_sha256 = (\<lambda>b. b), cc_wire_bytes = (\<lambda>_. 0), cc_readable = (\<lambda>_. False),
     cc_writable = (\<lambda>_. False)\<rparr>"

lemma receive_all:
  assumes contract: "signal_contract ok link" and names: "\<And>c. is_direct_target (name c)" "\<And>c. wire_text (name c)" "name True \<noteq> name False"
    and codecs: "chat_codecs_agree K C" and L: "ok L" and inv: "talk_inv link K name sid q T"
  shows "\<exists>T' q'. (talk_step ok K C name sid)\<^sup>*\<^sup>* T T' \<and> talk_inv link K name sid q' T' \<and>
    tk_said T' = tk_said T \<and> tk_up T' = tk_up T \<and> tk_down T' = (tk_down T)(b := [])"
  using inv
proof (induction "tk_down T b" arbitrary: T q)
  case Nil
  then have "tk_down T = (tk_down T)(b := [])" by (simp add: fun_eq_iff)
  with Nil show ?case by blast
next
  case (Cons env rest)
  let ?E = "\<lparr>ce_lib = L, ce_codec = K, ce_now = 0, ce_tr = (\<lambda>_ _. []), ce_files = no_files, ce_version = [],
     ce_error_handled = (\<lambda>_. False)\<rparr>"
  have E: "tk_down T b = env # rest" "ok (ce_lib ?E)" "ce_codec ?E = K" using Cons(2) L by simp_all
  let ?T1 = "put_app b (upd_h (dispatch ?E env) (tk_app T b)) (T\<lparr>tk_down := (tk_down T)(b := rest)\<rparr>)"
  obtain q1 where T1: "talk_inv link K name sid q1 ?T1" "tk_up ?T1 = tk_up T"
    using inv_receive [OF contract names codecs Cons(3) E] by blast
  have flows: "tk_down ?T1 = (tk_down T)(b := rest)" "tk_said ?T1 = tk_said T" by simp_all
  have "talk_step ok K C name sid T ?T1" using E by (rule talk_step.receive)
  moreover have "rest = tk_down ?T1 b" by simp
  ultimately show ?case
    using Cons(1) [OF _ T1(1)] unfolding T1(2) flows by (metis converse_rtranclp_into_rtranclp fun_upd_upd)
qed

lemma draw_all:
  assumes names: "\<And>c. is_direct_target (name c)" and inv: "talk_inv link K name sid q T"
  shows "\<exists>T'. talk_step ok K C name sid T T' \<and> talk_inv link K name sid q T' \<and> tk_said T' = tk_said T \<and>
    tk_up T' = tk_up T \<and> tk_down T' = tk_down T \<and> h_ui (h_of T' b) = [] \<and> h_of T' (\<not> b) = h_of T (\<not> b)"
proof -
  note I = talk_invD [OF inv]
  let ?E = "\<lparr>ce_lib = demo_lib, ce_codec = K, ce_now = 0, ce_tr = (\<lambda>_ _. []), ce_files = no_files, ce_version = [],
     ce_error_handled = (\<lambda>_. False)\<rparr>"
  let ?T = "(put_app b (upd_h (drain_ui ?E) (tk_app T b)) T)
        \<lparr>tk_drawn := (tk_drawn T)(b := tk_drawn T b @ posted_texts (name (\<not> b)) (h_of T b))\<rparr>"
  obtain s where d: "drain_ui ?E (h_of T b) = (h_of T b)\<lparr>h_ui := [], h_state := s\<rparr>"
    using draw_direct [of "name (\<not> b)" "h_of T b" ?E] I(2) [of b] by (auto simp: side_ready_def)
  have "tk_up ?T = tk_up T" by (simp add: put_app_def upd_h_def d fun_eq_iff)
  moreover have "h_ui (h_of ?T b) = []" by (simp add: upd_h_def d)
  ultimately show ?thesis
    using inv_draw [OF names inv, of b ?E] talk_step.draw [of ok K C name sid T b ?E] by (intro exI [of _ ?T]) simp
qed

lemma all_can_arrive:
  assumes "signal_contract ok link" and "chat_codecs_agree K C" and "ok L" and "talk_start link name sid T0"
    and "(talk_step ok K C name sid)\<^sup>*\<^sup>* T0 T" and "servable sid T"
  shows "\<exists>T'. (talk_step ok K C name sid)\<^sup>*\<^sup>* T T' \<and> tk_said T' = tk_said T \<and> (\<forall>b. tk_drawn T' (\<not> b) = tk_said T b)"
proof -
  let ?R = "talk_step ok K C name sid"
  note start = talk_startD [OF assms(4)]
  obtain q where inv: "talk_inv link K name sid q T" using talk_inv_reachable [OF assms(1,2,4,5)] by blast
  obtain T1 where 1: "?R\<^sup>*\<^sup>* T T1" "talk_inv link K name sid q T1" "servable sid T1" "tk_said T1 = tk_said T"
      "tk_up T1 = (tk_up T)(True := [])"
    using serve_all [OF start(3,4,1) assms(2) inv assms(6), of ok True] by blast
  obtain T2 where 2: "?R\<^sup>*\<^sup>* T1 T2" "talk_inv link K name sid q T2" "tk_said T2 = tk_said T1" "tk_up T2 = (tk_up T1)(False := [])"
    using serve_all [OF start(3,4,1) assms(2) 1(2,3), of ok False] by blast
  obtain T3 q3 where 3: "?R\<^sup>*\<^sup>* T2 T3" "talk_inv link K name sid q3 T3" "tk_said T3 = tk_said T2" "tk_up T3 = tk_up T2"
      "tk_down T3 = (tk_down T2)(True := [])"
    using receive_all [OF assms(1) start(3,4,2) assms(2,3) 2(2), of True] by blast
  obtain T4 q4 where 4: "?R\<^sup>*\<^sup>* T3 T4" "talk_inv link K name sid q4 T4" "tk_said T4 = tk_said T3" "tk_up T4 = tk_up T3"
      "tk_down T4 = (tk_down T3)(False := [])"
    using receive_all [OF assms(1) start(3,4,2) assms(2,3) 3(2), of False] by blast
  obtain T5 where 5: "?R T4 T5" "talk_inv link K name sid q4 T5" "tk_said T5 = tk_said T4" "tk_up T5 = tk_up T4"
      "tk_down T5 = tk_down T4" "h_ui (h_of T5 True) = []"
    using draw_all [OF start(3) 4(2), of ok C True] by blast
  obtain T6 where 6: "?R T5 T6" "talk_inv link K name sid q4 T6" "tk_said T6 = tk_said T5" "tk_up T6 = tk_up T5"
      "tk_down T6 = tk_down T5" "h_ui (h_of T6 False) = []" "h_of T6 (\<not> False) = h_of T5 (\<not> False)"
    using draw_all [OF start(3) 5(2), of ok C False] by blast
  have "?R\<^sup>*\<^sup>* T T6" using 1(1) 2(1) 3(1) 4(1) 5(1) 6(1) by (meson rtranclp_trans r_into_rtranclp)
  moreover have said: "tk_said T6 = tk_said T" by (simp add: 1(4) 2(3) 3(3) 4(3) 5(3) 6(3))
  moreover have "tk_drawn T6 (\<not> b) = tk_said T b" for b
  proof -
    have "h_ui (h_of T6 (\<not> b)) = []" using 5(6) 6(6,7) by (cases b) simp_all
    moreover have "tk_up T6 b = []" by (cases b) (simp_all add: 1(5) 2(4) 3(4) 4(4) 5(4) 6(4))
    moreover have "tk_down T6 (\<not> b) = []" by (cases b) (simp_all add: 3(5) 4(5) 5(5) 6(5))
    ultimately show ?thesis using talk_all_drawn [OF 6(2), of b] by (simp add: said)
  qed
  ultimately show ?thesis using said by blast
qed

subsection \<open>A closed example\<close>

text \<open>A codec that writes a chat message as its fields, each ended by a zero.\<close>

definition field_bytes :: "bytes \<Rightarrow> bytes" where
  "field_bytes bs = concat (map (\<lambda>b. [1, b]) bs) @ [0]"

fun read_field :: "bytes \<Rightarrow> bytes \<times> bytes" where
  "read_field (t # b # r) = (if t = 0 then ([], b # r) else (let (x, r) = read_field r in (b # x, r)))"
| "read_field _ = ([], [])"

lemma read_field_bytes [simp]: "read_field (field_bytes bs @ rest) = (bs, rest)"
proof (induction bs)
  case Nil
  then show ?case by (cases rest) (simp_all add: field_bytes_def)
qed (simp add: field_bytes_def)

fun read_fields :: "nat \<Rightarrow> bytes \<Rightarrow> bytes list" where
  "read_fields 0 _ = []"
| "read_fields (Suc n) bs = (let (x, r) = read_field bs in x # read_fields n r)"

lemma read_fields_concat: "read_fields (length fs) (concat (map field_bytes fs) @ rest) = fs"
  by (induction fs) simp_all

definition chat_fields :: "chat_message \<Rightarrow> bytes list" where
  "chat_fields c = [to_bytes (cm_sender c), to_bytes (cm_recipient c), cm_ciphertext c, be_bytes 4 (unat (cm_type c)),
     cm_skdm c, to_bytes (cm_message_id c)]"

definition chat_of_fields :: "bytes list \<Rightarrow> chat_message" where
  "chat_of_fields fs = \<lparr>cm_sender = of_bytes (fs ! 0), cm_recipient = of_bytes (fs ! 1), cm_ciphertext = fs ! 2,
     cm_type = word_of_nat (be_value (fs ! 3)), cm_skdm = fs ! 4, cm_message_id = of_bytes (fs ! 5)\<rparr>"

definition demo_parse_chat :: "bytes \<Rightarrow> chat_message option" where
  "demo_parse_chat bs = Some (chat_of_fields (read_fields 6 bs))"

lemma chat_of_chat_fields: "chat_of_fields (chat_fields c) = c"
proof -
  have "unat (cm_type c) < 256 ^ 4" using unsigned_less [of "cm_type c"] by (simp add: )
  then show ?thesis by (simp add: chat_of_fields_def chat_fields_def be_value_be_bytes)
qed

lemma demo_parse_chat_fields: "demo_parse_chat (concat (map field_bytes (chat_fields c))) = Some c"
proof -
  have "length (chat_fields c) = 6" by (simp add: chat_fields_def)
  then have "read_fields 6 (concat (map field_bytes (chat_fields c))) = chat_fields c"
    using read_fields_concat [of "chat_fields c" "[]"] by simp
  then show ?thesis by (simp only: demo_parse_chat_def chat_of_chat_fields)
qed

definition demo_talk_codec :: client_codec where
  "demo_talk_codec = \<lparr>cp_challenge = (\<lambda>_. None), cp_error = (\<lambda>_. None), cp_chat = demo_parse_chat, cp_typing = (\<lambda>_. None),
     cp_receipt = (\<lambda>_. None), cp_sync = (\<lambda>_. None), cp_bundle = (\<lambda>_. None), cp_reset = (\<lambda>_. None),
     cp_presence = (\<lambda>_. None), cp_signal = (\<lambda>_. None), cp_room = (\<lambda>_. None), cp_room_state = (\<lambda>_. None),
     cp_ice = (\<lambda>_. None), cp_command_response = (\<lambda>_. None), cp_file_chunk = (\<lambda>_. None), cp_file_progress = (\<lambda>_. None),
     cp_file_complete = (\<lambda>_. None), cp_file_error = (\<lambda>_. None), cp_policy = (\<lambda>_. None), cp_file_list = (\<lambda>_. None),
     cp_file_changed = (\<lambda>_. None),
     cs_msg = (\<lambda>m. case m of O_Chat c \<Rightarrow> concat (map field_bytes (chat_fields c)) | _ \<Rightarrow> [])\<rparr>"

definition demo_server_codec :: codec where
  "demo_server_codec = demo_codec\<lparr>parse_chat := \<lambda>bs. map_option
     (\<lambda>c. \<lparr>chat_sender = cm_sender c, chat_recipient = cm_recipient c\<rparr>) (demo_parse_chat bs)\<rparr>"

lemma demo_codecs_agree: "chat_codecs_agree demo_talk_codec demo_server_codec"
proof -
  have "concat (map field_bytes (chat_fields c)) \<noteq> []" for c by (simp add: chat_fields_def field_bytes_def)
  then show ?thesis
    by (auto simp: chat_codecs_agree_def demo_talk_codec_def demo_server_codec_def demo_parse_chat_fields)
qed

text \<open>With the stand-in library a session holds as long as both databases have one.\<close>

definition demo_link :: "lib_view \<Rightarrow> lib_view \<Rightarrow> local_store \<Rightarrow> local_store \<Rightarrow> flight \<Rightarrow> flight \<Rightarrow> bool" where
  "demo_link v w d e q r \<longleftrightarrow> contains_session (lv_user w) 1 d \<and> contains_session (lv_user v) 1 e \<and>
     list_all (\<lambda>(ty, ct, p). ty = 2 \<and> ct = 0 # p) (q @ r)"

lemma demo_contract: "signal_contract (\<lambda>L. L = demo_lib) demo_link"
  by (auto simp: signal_contract_def demo_link_def demo_lib_def contains_session_def load_session_def save_message_def Let_def)

definition demo_talk_env :: app_env where
  "demo_talk_env = \<lparr>ce_lib = demo_lib, ce_codec = demo_talk_codec, ce_now = 5, ce_tr = (\<lambda>_ _. []),
     ce_files = \<lparr>cc_now = 5, cc_random_id = ''id'', cc_sha256 = (\<lambda>b. b), cc_wire_bytes = (\<lambda>_. 0),
       cc_readable = (\<lambda>_. False), cc_writable = (\<lambda>_. False)\<rparr>,
     ce_version = ''1'', ce_error_handled = (\<lambda>_. False), ae_message_id = ''m1'', ae_steady = 5, ae_hhmm = (\<lambda>_. ''00:00''),
     ae_exists = (\<lambda>_. False), ae_file_size = (\<lambda>_. 0), ae_matches = (\<lambda>_ _. False), ae_typing = (\<lambda>_. []),
     ae_in_voice = False, ae_local_test = False, ae_mode_label = []\<rparr>"

definition demo_side :: "string \<Rightarrow> string \<Rightarrow> app" where
  "demo_side u w = new_app ((new_handler \<lparr>cl_user_id = u, cl_password = [], cl_auto_reconnect = False, cl_language = ''en''\<rparr>
       ((new_engine (save_session w 1 [1] new_local_store))\<lparr>g_user := u\<rparr>) (new_transfers (\<lambda>_. None)))
       \<lparr>h_net := Some True, h_authenticated := True, h_state := new_app_state\<lparr>active_channel := w\<rparr>\<rparr>)"

definition demo_talk :: talk where
  "demo_talk = \<lparr>tk_app = (\<lambda>b. if b then demo_side ''ann'' ''bob'' else demo_side ''bob'' ''ann''),
     tk_server = upd_sess 5 (\<lambda>ss. ss\<lparr>ss_state := Established\<rparr>) (upd_sess 7 (\<lambda>ss. ss\<lparr>ss_state := Established\<rparr>)
       (log_in demo_ctx 7 ''bob'' (log_in demo_ctx 5 ''ann'' (new_server default_config empty_db)))),
     tk_up = (\<lambda>_. []), tk_down = (\<lambda>_. []), tk_said = (\<lambda>_. []), tk_drawn = (\<lambda>_. [])\<rparr>"

abbreviation demo_name :: "bool \<Rightarrow> string" where "demo_name b \<equiv> (if b then ''ann'' else ''bob'')"
abbreviation demo_sid :: "bool \<Rightarrow> sid" where "demo_sid b \<equiv> (if b then 5 else 7)"


lemma demo_talk_start: "talk_start demo_link demo_name demo_sid demo_talk"
proof -
  have srv: "server_ready demo_name demo_sid (tk_server demo_talk)"
    unfolding server_ready_def all_bool_eq by code_simp
  have side: "\<forall>b. side_ready demo_name demo_talk b \<and> h_ui (h_of demo_talk b) = [] \<and> tk_up demo_talk b = [] \<and>
      tk_down demo_talk b = [] \<and> tk_said demo_talk b = [] \<and> tk_drawn demo_talk b = [] \<and>
      channel_at (h_state (h_of demo_talk b)) (demo_name (\<not> b)) = None"
    by (simp add: side_ready_def fine_tasks_def demo_talk_def demo_side_def new_app_def new_handler_def new_engine_def
        new_app_state_def)
  have link: "demo_link (view_of (h_engine (h_of demo_talk True))) (view_of (h_engine (h_of demo_talk False)))
       (g_store (h_engine (h_of demo_talk True))) (g_store (h_engine (h_of demo_talk False))) [] []"
    by code_simp
  have "is_direct_target ''ann''" "is_direct_target ''bob''" by code_simp+
  then have "is_direct_target (demo_name b)" for b by simp
  moreover have "wire_text ''ann''" "wire_text ''bob''"
    by (rule wire_text_ascii, code_simp, simp)+
  then have "wire_text (demo_name b)" for b by simp
  ultimately show ?thesis using srv side link unfolding talk_start_def by simp
qed

lemma demo_typed:
  "\<exists>T. (talk_step (\<lambda>L. L = demo_lib) demo_talk_codec demo_server_codec demo_name demo_sid)\<^sup>*\<^sup>* demo_talk T \<and>
     tk_said T True = [''hi''] \<and> servable demo_sid T"
proof -
  let ?R = "talk_step (\<lambda>L. L = demo_lib) demo_talk_codec demo_server_codec demo_name demo_sid"
  let ?E = demo_talk_env
  let ?T1 = "(put_app True (send_chat ?E ''hi'' (tk_app demo_talk True)) demo_talk)
    \<lparr>tk_said := (tk_said demo_talk)(True := tk_said demo_talk True @ [''hi''])\<rparr>"
  have E: "ce_lib ?E = demo_lib" "ce_codec ?E = demo_talk_codec" by (simp_all add: demo_talk_env_def)
  have 1: "?R demo_talk ?T1"
  proof (rule talk_step.type_text)
    show "canonical_active (tk_app demo_talk True) = demo_name (\<not> True)" by code_simp
    show "contains_session (demo_name (\<not> True)) 1 (g_store (h_engine (h_of demo_talk True)))" by code_simp
    show "wire_text (ae_message_id ?E)" by (rule wire_text_ascii, code_simp, simp add: demo_talk_env_def)
  qed (simp_all add: E kMaxPlaintextMessageBytes_def)
  have "map (\<lambda>e. length (env_payload e)) (tk_up ?T1 True) = [36]" "tk_up ?T1 False = []" by code_simp+
  moreover have "has_room (msg_rate_limiter (sess (tk_server ?T1) 5))" "has_room (msg_rate_limiter (sess (tk_server ?T1) 7))"
    by (simp_all add: demo_talk_def new_server_def log_in_def frame_simps has_room_def new_session_def)
  moreover have "cfg (tk_server ?T1) = default_config"
    by (simp add: demo_talk_def new_server_def log_in_def frame_simps)
  ultimately have "servable demo_sid ?T1"
    by (auto simp: servable_def all_bool_eq default_config_def map_eq_Cons_conv)
  moreover have "tk_said ?T1 True = [''hi'']" by (simp add: demo_talk_def)
  ultimately show ?thesis using 1 by blast
qed

subsection \<open>The properties\<close>

text \<open>
  C8: a conversation arrives whole and in order.  Two users who are logged in, under names of valid UTF-8, and have
  a session with each other type as they like, while the server serves, the network delivers and the clients draw in
  any order.  The runs are those in which the server refuses nothing: every message is within its rate limit and its
  limit of size when it is served; one above them would be dropped and never arrive.
  What was drawn on a side is at any time a prefix of what was typed on the other; when nothing is
  under way any more it is all of it; and as long as the channel of the conversation is not full, the chat
  messages of the other user it shows are exactly the drawn ones, in their order.
\<close>

theorem conversation_arrives_in_order:
  assumes "signal_contract ok link" and "chat_codecs_agree K C" and "talk_start link name sid T0"
    and "(talk_step ok K C name sid)\<^sup>*\<^sup>* T0 T"
  shows "(\<exists>later. tk_said T b = tk_drawn T (\<not> b) @ later) \<and>
    (tk_up T b = [] \<and> tk_down T (\<not> b) = [] \<and> h_ui (h_of T (\<not> b)) = [] \<longrightarrow> tk_said T b = tk_drawn T (\<not> b)) \<and>
    (\<forall>xs. shown (name b) (name b) (h_state (h_of T (\<not> b))) = Some xs \<longrightarrow> xs = tk_drawn T (\<not> b))"
proof -
  obtain q where inv: "talk_inv link K name sid q T" using talk_inv_reachable [OF assms] by blast
  show ?thesis
    using talk_invD(4) [OF inv, of b] talk_invD(5) [OF inv, of "\<not> b"] talk_all_drawn [OF inv, of b] by auto
qed

theorem conversation_arrives_in_order_witness:
  "\<exists>T later. (talk_step (\<lambda>L. L = demo_lib) demo_talk_codec demo_server_codec demo_name demo_sid)\<^sup>*\<^sup>* demo_talk T \<and>
     tk_drawn T False = [''hi''] \<and> tk_said T True = tk_drawn T False @ later"
proof -
  obtain T where T: "(talk_step (\<lambda>L. L = demo_lib) demo_talk_codec demo_server_codec demo_name demo_sid)\<^sup>*\<^sup>* demo_talk T"
    "tk_said T True = [''hi'']" "servable demo_sid T"
    using demo_typed by blast
  from all_can_arrive [OF demo_contract demo_codecs_agree _ demo_talk_start T(1,3)]
  obtain T' where T': "(talk_step (\<lambda>L. L = demo_lib) demo_talk_codec demo_server_codec demo_name demo_sid)\<^sup>*\<^sup>* T T'"
    "tk_said T' = tk_said T" "\<forall>b. tk_drawn T' (\<not> b) = tk_said T b" by blast
  have "tk_drawn T' (\<not> True) = tk_said T True" using T'(3) by (rule spec)
  moreover note run = rtranclp_trans [OF T(1) T'(1)]
  moreover note conversation_arrives_in_order [OF demo_contract demo_codecs_agree demo_talk_start run, of True]
  ultimately show ?thesis using T(2) by auto
qed

text \<open>
  C9: nothing typed has to be lost on the way.  Whatever has happened in a conversation of that kind, as long as
  no message under way is above the size limit of the server and its rate limiters admit messages at all, it can go on
  by serving (each message at a time at which the limiter admits it), receiving and drawing until each side has drawn
  exactly what was typed on the other, in its order.  A message served while the limiter refuses is dropped by the
  server and outside this statement.
\<close>

theorem everything_typed_can_arrive:
  assumes "signal_contract ok link" and "chat_codecs_agree K C" and "ok L" and "talk_start link name sid T0"
    and "(talk_step ok K C name sid)\<^sup>*\<^sup>* T0 T" and "servable sid T"
  shows "\<exists>T'. (talk_step ok K C name sid)\<^sup>*\<^sup>* T T' \<and> tk_said T' = tk_said T \<and> (\<forall>b. tk_drawn T' (\<not> b) = tk_said T b)"
  using assms by (rule all_can_arrive)

theorem everything_typed_can_arrive_witness:
  "\<exists>T. (talk_step (\<lambda>L. L = demo_lib) demo_talk_codec demo_server_codec demo_name demo_sid)\<^sup>*\<^sup>* demo_talk T \<and>
     tk_drawn T (\<not> True) = [''hi'']"
proof -
  obtain T where T: "(talk_step (\<lambda>L. L = demo_lib) demo_talk_codec demo_server_codec demo_name demo_sid)\<^sup>*\<^sup>* demo_talk T"
    "tk_said T True = [''hi'']" "servable demo_sid T"
    using demo_typed by blast
  from everything_typed_can_arrive [OF demo_contract demo_codecs_agree _ demo_talk_start T(1,3)]
  obtain T' where T': "(talk_step (\<lambda>L. L = demo_lib) demo_talk_codec demo_server_codec demo_name demo_sid)\<^sup>*\<^sup>* T T'"
    "\<forall>b. tk_drawn T' (\<not> b) = tk_said T b" by blast
  have "tk_drawn T' (\<not> True) = [''hi'']" using T'(2) [THEN spec, of True] T(2) by simp
  with rtranclp_trans [OF T(1) T'(1)] show ?thesis by blast
qed

end
