(* ===== verification/Commands_End_To_End.thy ===== *)
theory Commands_End_To_End
  imports Client_Slash Chat_End_To_End Channel_Rules
begin

text \<open>
  What the slash commands of the client bring about: nothing without a session, uploads within the server's policy,
  and, with the server's command handler at the other end, the channel a user joins is the one the client opens.
\<close>

subsection \<open>Commands and the session\<close>

text \<open>
  Without a session nothing leaves the client.  A command that is entered while the client is not
  authenticated, whatever its name and arguments, sends nothing to the server and queues nothing for it.
\<close>

theorem commands_need_a_session:
  assumes "app_handle_command E cmd sh = Some sh'" and "\<not> h_authenticated (ap_h (sh_app sh))"
  shows "h_sent (ap_h (sh_app sh')) = h_sent (ap_h (sh_app sh)) \<and>
    set (h_outbound (ap_h (sh_app sh'))) \<subseteq> set (h_outbound (ap_h (sh_app sh)))"
proof -
  note shut = app_shutdown_frame [OF assms(2), of E True True]
  show ?thesis using assms shut disconnect_frame [of E "sh_app sh"]
    by (auto simp: information_quiet [unfolded quiet_step_def] app_handle_command_def upd_app_def Let_def split: option.splits slash_word.splits if_splits)
qed

text \<open>
  C22: uploads keep to the server's policy.  Whatever command is entered, a transfer that it adds to the
  queue of uploads is that of an existing file, entered by an authenticated user in a channel or a
  conversation, whose size is within every limit the server has announced and whose type the policy
  allows, and it is addressed to the active channel or partner alone.
\<close>

theorem uploads_keep_to_policy:
  assumes "app_handle_command E cmd sh = Some sh'"
    and "tx_pending (h_transfers (ap_h (sh_app sh'))) \<noteq> tx_pending (h_transfers (ap_h (sh_app sh)))"
  shows "h_authenticated (ap_h (sh_app sh)) \<and>
    (\<exists>path i info active. active = canonical_active (sh_app sh) \<and> active \<noteq> [] \<and> \<not> is_server_channel active \<and> ae_exists E path \<and>
       policy_allows (ap_policy (sh_app sh)) (ae_file_size E path) (lower_string (detect_mime_type path)) \<and>
       tx_pending (h_transfers (ap_h (sh_app sh'))) = tx_pending (h_transfers (ap_h (sh_app sh))) @ [i] \<and>
       get_transfer (h_transfers (ap_h (sh_app sh'))) i = Some info \<and> ti_local_path info = path \<and>
       ti_recipient info = (if is_direct_target active then active else []) \<and>
       ti_channel info = (if is_channel active then active else []))"
proof -
  let ?a = "sh_app sh" and ?args = "pc_args cmd"
  let ?active = "canonical_active ?a"
  have on: "h_authenticated (ap_h ?a)" and
    app: "sh_app sh' = online_command E (pc_name cmd) (map_of slash_words (pc_name cmd)) ?args ?a"
    using assms by (auto simp: app_handle_command_def upd_app_def Let_def split: option.splits slash_word.splits if_splits)
  have w: "map_of slash_words (pc_name cmd) = Some W_upload" using assms(2) app online_transfers by metis
  then have up: "sh_app sh' = upload_command E ?args ?a" using app by (simp add: online_command_def)
  then obtain path rest where args: "?args = path # rest" using assms(2) by (cases ?args) (auto simp: upload_command_def)
  have cond: "ae_exists E path" "upload_blocked E (ap_policy ?a) (ae_file_size E path) (lower_string (detect_mime_type path)) = None"
    "?active \<noteq> []" "\<not> is_server_channel ?active" and start: "sh_app sh' = start_file_upload E path ?active ?a"
    using assms(2) up args by (auto simp: upload_command_def Let_def split: option.splits if_splits)
  obtain i t where u: "upload (ce_files E) path (if is_direct_target ?active then ?active else [])
      (if is_channel ?active then ?active else []) (h_transfers (ap_h ?a)) = (i, t)" by fastforce
  have "h_transfers (ap_h (sh_app sh')) = t" using start u by (simp add: start_file_upload_def upd_h_def Let_def)
  with upload_pending [OF u] assms(2) cond(1,3,4) on upload_blocked_None [OF cond(2)] show ?thesis by blast
qed

definition demo_slash_env :: slash_env where
  "demo_slash_env = app_env.extend (demo_talk_env\<lparr>ae_exists := (\<lambda>p. p = ''n.txt''), ae_file_size := (\<lambda>_. 3)\<rparr>)
     (slash_env.fields (\<lambda>_ _. []) ''1'' (\<lambda>_. None) [] (\<lambda>_. []) (\<lambda>_. []))"

definition demo_shell :: "bool \<Rightarrow> shell" where
  "demo_shell on = \<lparr>sh_app = upd_h (\<lambda>h. h\<lparr>h_authenticated := on, h_transfers := new_transfers [''n.txt'' \<mapsto> [1, 2, 3]]\<rparr>)
       ((demo_side ''ann'' ''bob'')\<lparr>ap_policy := Some \<lparr>po_max_upload = 10, po_allowed = [''text/''], po_blocked = [],
          po_max_total = 0, po_max_user = 0\<rparr>\<rparr>),
     sh_stopping = False, sh_saved = False, sh_exit = False\<rparr>"

lemma commands_need_a_session_witness:
  "\<exists>sh'. app_handle_command demo_slash_env \<lparr>pc_name = ''/upload'', pc_args = [''n.txt'']\<rparr> (demo_shell False) = Some sh' \<and>
     h_sent (ap_h (sh_app sh')) = []"
proof -
  have w: "map_of slash_words ''/upload'' = Some W_upload" by code_simp
  have off: "\<not> h_authenticated (ap_h (sh_app (demo_shell False)))" by (simp add: demo_shell_def upd_h_def)
  obtain sh' where sh': "app_handle_command demo_slash_env \<lparr>pc_name = ''/upload'', pc_args = [''n.txt'']\<rparr> (demo_shell False) = Some sh'"
    by (simp add: app_handle_command_def w Let_def)
  have "h_sent (ap_h (sh_app (demo_shell False))) = []"
    by (simp add: demo_shell_def demo_side_def new_app_def new_handler_def upd_h_def)
  with commands_need_a_session [OF sh' off] sh' show ?thesis by auto
qed

lemma uploads_keep_to_policy_witness:
  "\<exists>sh' i info. app_handle_command demo_slash_env \<lparr>pc_name = ''/upload'', pc_args = [''n.txt'']\<rparr> (demo_shell True) = Some sh' \<and>
     tx_pending (h_transfers (ap_h (sh_app sh'))) = [i] \<and> get_transfer (h_transfers (ap_h (sh_app sh'))) i = Some info \<and>
     ti_recipient info = ''bob'' \<and> ti_channel info = []"
proof -
  let ?cmd = "\<lparr>pc_name = ''/upload'', pc_args = [''n.txt'']\<rparr>" and ?a = "sh_app (demo_shell True)"
  have w: "map_of slash_words ''/upload'' = Some W_upload" by code_simp
  have a: "h_authenticated (ap_h ?a)" "ap_policy ?a = Some \<lparr>po_max_upload = 10, po_allowed = [''text/''], po_blocked = [],
      po_max_total = 0, po_max_user = 0\<rparr>" "h_transfers (ap_h ?a) = new_transfers [''n.txt'' \<mapsto> [1, 2, 3]]"
    "active_or_empty ?a = ''bob''"
    by (simp_all add: demo_shell_def demo_side_def new_app_def new_handler_def upd_h_def active_or_empty_def new_app_state_def)
  have act: "canonical_active ?a = ''bob''" "is_direct_target ''bob''" "\<not> is_channel ''bob''" "\<not> is_server_channel ''bob''"
    using a(4) by (simp_all add: canonical_active_def canonical_channel_id_def is_direct_target_def is_server_channel_def is_channel_def)
  have mime: "mime_allowed_by_policy (lower_string (detect_mime_type ''n.txt'')) [''text/''] []" by code_simp
  have env: "ae_exists demo_slash_env ''n.txt''" "ae_file_size demo_slash_env ''n.txt'' = 3"
    by (simp_all add: demo_slash_env_def app_env.defs slash_env.defs demo_talk_env_def)
  obtain sh' where sh': "app_handle_command demo_slash_env ?cmd (demo_shell True) = Some sh'"
    and up: "sh_app sh' = start_file_upload demo_slash_env ''n.txt'' ''bob'' ?a"
    using a(1,2) act mime env
    by (simp add: app_handle_command_def w Let_def online_command_def upd_app_def upload_command_def upload_blocked_def)
  have "tx_pending (h_transfers (ap_h (sh_app sh'))) \<noteq> tx_pending (h_transfers (ap_h ?a))"
    using up a(3) by (simp add: start_file_upload_def upload_def new_transfers_def generate_transfer_id_def put_info_def upd_h_def Let_def split_def)
  from uploads_keep_to_policy [OF sh' this] sh' act a(3) show ?thesis
    by (auto simp: new_transfers_def)
qed

subsection \<open>Joining a channel\<close>

lemma client_sanitized:
  assumes "client_sanitize_channel raw = Some c" and "\<not> is_server_channel c"
  shows "\<exists>n. c = CHR ''#'' # n \<and> n \<noteq> [] \<and> list_all client_channel_char n"
proof -
  let ?t = "trim_ascii raw" and ?d = "if hd (trim_ascii raw) \<noteq> CHR ''#'' then CHR ''#'' # trim_ascii raw else trim_ascii raw"
  have "is_server_channel ''server''" by code_simp
  with assms have c: "?t \<noteq> []" "length ?d \<noteq> 1" "list_all client_channel_char (tl ?d)" "c = ?d"
    by (auto simp: client_sanitize_channel_def Let_def simp del: length_greater_0_conv split: if_split_asm)
  obtain n where "?d = CHR ''#'' # n" using c(1) by (cases "hd ?t = CHR ''#''") (cases ?t; simp)+
  with c(2-4) show ?thesis by auto
qed

text \<open>Both sides mean the same channel by a name, unless it has a dot, which only the client allows.\<close>

lemma channel_names_agree:
  assumes "client_sanitize_channel raw = Some c" and "\<not> is_server_channel c" and "CHR ''.'' \<notin> set c"
  shows "sanitize_channel_name c = c \<and> is_valid_channel_name c"
proof -
  obtain n where n: "c = CHR ''#'' # n" "n \<noteq> []" "list_all client_channel_char n"
    using client_sanitized [OF assms(1,2)] by blast
  have valid: "is_valid_channel_char x" if "client_channel_char x" "x \<noteq> CHR ''.''" for x
    using that by (auto simp: client_channel_char_def is_valid_channel_char_def)
  have "\<forall>x \<in> set n. is_valid_channel_char x"
    using n(1,3) assms(3) by (auto simp: list_all_iff intro: valid)
  then have keep: "filter is_valid_channel_char n = n" by simp
  have hash: "is_channel_prefix CHR ''#''" by (simp add: is_channel_prefix_def)
  then have "\<not> is_valid_channel_char CHR ''#''" by (rule prefix_not_valid_char)
  then have "sanitize_channel_name c = c" using keep hash by (simp add: n(1) sanitize_unfold)
  moreover have "is_valid_channel_name c" using n(2) hash by (simp add: n(1) is_valid_channel_name_def)
  ultimately show ?thesis by simp
qed

lemma dotted_channel_differs:
  "client_sanitize_channel ''#a.b'' = Some ''#a.b''" "sanitize_channel_name ''#a.b'' = ''#ab''"
proof -
  have "client_channel_char CHR ''a''" "client_channel_char CHR ''.''" "client_channel_char CHR ''b''"
    by (simp_all add: client_channel_char_def char_class_defs)
  then show "client_sanitize_channel ''#a.b'' = Some ''#a.b''"
    by (simp add: client_sanitize_channel_def is_server_channel_def trim_ascii_def c_isspace_def code_def Let_def)
  have "is_valid_channel_char CHR ''a''" "\<not> is_valid_channel_char CHR ''.''" "is_valid_channel_char CHR ''b''"
    "\<not> is_valid_channel_char CHR ''#''" "is_channel_prefix CHR ''#''"
    by (simp_all add: is_valid_channel_char_def is_channel_prefix_def char_class_defs)
  then show "sanitize_channel_name ''#a.b'' = ''#ab''" by (simp add: sanitize_unfold)
qed

lemma join_success:
  assumes "cmd_join X [c] i s = (r, s')" and "cr_success r" and "sanitize_channel_name c = c"
  shows "cr_command r = ''join'' \<and> (\<exists>ch. chan_at s' c = Some ch \<and> the_user s i \<in> set (ch_members ch))"
proof -
  let ?u = "the_user s i"
  have valid: "is_valid_channel_name c" using assms by (auto simp: cmd_join_def make_response_def Let_def split: if_splits)
  obtain b jl where jl: "rl_allow (steady_now X) (join_limiter (limits_of X ?u s)) = (b, jl)" by fastforce
  have b: "b" using assms valid jl by (auto simp: cmd_join_def make_response_def Let_def split: if_splits)
  have enter: "?u \<in> set (ch_members (enter_channel ?u ch))" for ch by (simp add: enter_channel_def Let_def)
  show ?thesis
    using assms valid jl b enter
    by (cases "chan_at s c")
       (auto simp: cmd_join_def Let_def get_or_create_channel_def notify_defs make_response_def split: if_splits)
qed

text \<open>
  C21: the channel a user joins is the channel the client opens, for a name without a dot and while no other join
  is pending.  When an authenticated user enters a join with a name the client accepts, the command on its way to the
  server carries the name the client keeps as pending, the server, if it accepts, lets the user into exactly the
  channel of that name, and its answer makes the client open that channel and leaves no join pending.  (A dotted name
  is where the two differ, see \<open>dotted_channel_differs\<close>.)
\<close>

theorem joined_channel_is_opened:
  assumes "client_sanitize_channel raw = Some c" and "\<not> is_server_channel c" and "CHR ''.'' \<notin> set c" and "ap_joins a = []"
    and "cmd_join X [c] i s = (r, s')" and "cr_success r"
  shows "ap_joins (join_command E raw a) = [c] \<and>
    (\<exists>e \<in> set (h_sent (ap_h (join_command E raw a))) \<union> set (h_outbound (ap_h (join_command E raw a))).
       env_type e = MT_COMMAND \<and> env_payload e = cs_msg (ce_codec E) (O_Command ''join'' [c])) \<and>
    (\<exists>ch. chan_at s' c = Some ch \<and> the_user s i \<in> set (ch_members ch)) \<and>
    (let a' = app_handle_command_response (aenv E) r (join_command E raw a)
     in Ui_open c \<in> set (h_ui (ap_h a')) \<and> ap_joins a' = [])"
proof -
  let ?a = "join_command E raw a"
  have a: "?a = say_server E (''join requested for '' @ c) False (command_out E ''join'' [c] (a\<lparr>ap_joins := [c]\<rparr>))"
    using assms(1,2,4) by (simp add: join_command_def)
  have codec: "ce_codec (env_of (aenv E)) = ce_codec E" "ce_codec (aenv E) = ce_codec E"
    by (simp_all add: env_of_def aenv_def app_env.defs client_env.defs)
  have sent: "\<exists>e \<in> set (h_sent (ap_h ?a)) \<union> set (h_outbound (ap_h ?a)).
      env_type e = MT_COMMAND \<and> env_payload e = cs_msg (ce_codec E) (O_Command ''join'' [c])"
    by (simp add: a upd_h_def Client_Messages.send_command_def queue_msg_def make_envelope_def send_or_queue_authenticated_def
        send_env_def can_send_authenticated_def codec Let_def)
  have joins: "ap_joins ?a = [c]" by (simp add: a upd_h_def)
  have names: "sanitize_channel_name c = c" using channel_names_agree [OF assms(1-3)] by simp
  note won = join_success [OF assms(5,6) names]
  have low: "lower_string ''join'' = ''join''" by code_simp
  have opened: "h_ui (ap_h (remember_target c b)) = h_ui (ap_h b)" "ap_joins (remember_target c b) = ap_joins b" for b
    by (simp_all add: remember_target_def Let_def upd_h_def call_out_def)
  have "Ui_open c \<in> set (h_ui (ap_h (app_handle_command_response (aenv E) r ?a))) \<and>
      ap_joins (app_handle_command_response (aenv E) r ?a) = []"
    using won assms(6) joins low opened
    by (simp add: app_handle_command_response_def Let_def net_log_def upd_h_def post_ui_def)
  with joins sent won show ?thesis by (simp add: Let_def)
qed

lemma joined_channel_is_opened_witness:
  "\<exists>r s'. cmd_join demo_ctx [''#cave''] 5 (log_in demo_ctx 5 ''ann'' (new_server default_config empty_db)) = (r, s') \<and> cr_success r \<and>
     Ui_open ''#cave'' \<in> set (h_ui (ap_h (app_handle_command_response (aenv demo_slash_env) r
       (join_command demo_slash_env ''cave'' (demo_side ''ann'' ''bob'')))))"
proof -
  let ?s = "log_in demo_ctx 5 ''ann'' (new_server default_config empty_db)" and ?a = "demo_side ''ann'' ''bob''"
  have "client_channel_char CHR ''c''" "client_channel_char CHR ''a''" "client_channel_char CHR ''v''" "client_channel_char CHR ''e''"
    by (simp_all add: client_channel_char_def char_class_defs)
  then have name: "client_sanitize_channel ''cave'' = Some ''#cave''"
    by (simp add: client_sanitize_channel_def is_server_channel_def trim_ascii_def c_isspace_def code_def Let_def)
  have server: "\<not> is_server_channel ''#cave''" by (simp add: is_server_channel_def)
  have joins: "ap_joins ?a = []" by (simp add: demo_side_def new_app_def)
  have "cr_success (fst (cmd_join demo_ctx [''#cave''] 5 ?s))" by code_simp
  then obtain r s' where r: "cmd_join demo_ctx [''#cave''] 5 ?s = (r, s')" "cr_success r" by (metis prod.collapse)
  from joined_channel_is_opened [OF name server _ joins r] r show ?thesis by (auto simp: Let_def)
qed

end
