(* ===== verification/Transfer_End_To_End.thy ===== *)
theory Transfer_End_To_End
  imports Client_Transfer File_Roundtrip
begin

text \<open>
  A file from one client to another: the upload worker of the sender, the upload handlers of the
  server, a download, and the handlers of the receiving client, composed.
\<close>

subsection \<open>What the upload worker sends\<close>

lemma get_put_info [simp]: "get_transfer (put_info info t) i = (if i = ti_transfer_id info then Some info else get_transfer t i)"
  by (simp add: get_transfer_def put_info_def)

lemma get_upd_info [simp]:
  "get_transfer (upd_info i f t) j = (if j = i then map_option f (get_transfer t i) else get_transfer t j)"
  by (auto simp: upd_info_def get_transfer_def split: option.split)

lemma get_transfer_infos: "tx_infos t' = tx_infos t \<Longrightarrow> get_transfer t' = get_transfer t"
  by (simp add: get_transfer_def fun_eq_iff)

lemma upd_info_frame [simp]:
  "tx_by_file (upd_info i f t) = tx_by_file t" "tx_verify (upd_info i f t) = tx_verify t"
  "tx_next_id (upd_info i f t) = tx_next_id t" "tx_pending (upd_info i f t) = tx_pending t"
  "tx_can_send (upd_info i f t) = tx_can_send t" "tx_shutdown (upd_info i f t) = tx_shutdown t"
  "tx_sent (upd_info i f t) = tx_sent t" "tx_disk (upd_info i f t) = tx_disk t"
  by (simp_all add: upd_info_def split: option.split)

lemma put_info_frame [simp]:
  "tx_by_file (put_info info t) = tx_by_file t" "tx_verify (put_info info t) = tx_verify t"
  "tx_next_id (put_info info t) = tx_next_id t" "tx_pending (put_info info t) = tx_pending t"
  "tx_can_send (put_info info t) = tx_can_send t" "tx_shutdown (put_info info t) = tx_shutdown t"
  "tx_sent (put_info info t) = tx_sent t" "tx_disk (put_info info t) = tx_disk t"
  by (simp_all add: put_info_def)

text \<open>The upload messages for a file and its chunks from \<open>k\<close> on.\<close>

definition wire_chunk :: "client_ctx \<Rightarrow> string \<Rightarrow> bytes \<Rightarrow> nat \<Rightarrow> file_upload_chunk" where
  "wire_chunk C f content k =
     chunk_msg f CHUNK_SIZE content (cc_sha256 C (chunk_of CHUNK_SIZE content k)) k
       (Suc k = n_chunks CHUNK_SIZE content)"

definition uploading :: "client_ctx \<Rightarrow> string \<Rightarrow> string \<Rightarrow> string \<Rightarrow> bytes \<Rightarrow> transfers \<Rightarrow> bool" where
  "uploading C i f path content t \<longleftrightarrow>
     (\<exists>info. get_transfer t i = Some info \<and> ti_file_id info = f \<and> ti_state info \<notin> {CANCELLED, FAILED}) \<and>
     tx_disk t path = Some content \<and> tx_can_send t \<and> \<not> tx_shutdown t \<and>
     (\<forall>k. cc_wire_bytes C (wire_chunk C f content k) \<le> kMaxWireEnvelopeBytes)"

definition reading :: "string \<Rightarrow> transfer_info \<Rightarrow> nat \<Rightarrow> worker" where
  "reading i info k = \<lparr>w_transfer = i, w_info = info, w_offset = k * CHUNK_SIZE, w_index = of_nat k,
     w_sent = of_nat (k * CHUNK_SIZE), w_good = True\<rparr>"

lemma upload_step_chunk:
  assumes "uploading C i f path content t" "ti_local_path info = path" "ti_file_size info = of_nat (length content)"
    and "length content < 2 ^ 63" "k < n_chunks CHUNK_SIZE content"
  obtains w where "upload_step C (reading i info k) t =
      (Some w, t\<lparr>tx_sent := tx_sent t @ [C_UploadChunk (wire_chunk C f content k)]\<rparr>)"
    and "if Suc k * CHUNK_SIZE \<le> length content then w = reading i info (Suc k) else \<not> w_good w"
proof -
  let ?c = "chunk_of CHUNK_SIZE content k" and ?n = "length (chunk_of CHUNK_SIZE content k)"
  have k: "k * CHUNK_SIZE < length content" using assms(5) by (simp add: less_n_chunks)
  have n: "?n = min CHUNK_SIZE (length content - k * CHUNK_SIZE)" by (rule length_chunk_of)
  have sum: "unat (of_nat (k * CHUNK_SIZE) + of_nat ?n :: u64) = k * CHUNK_SIZE + ?n"
  proof -
    have "k * CHUNK_SIZE + ?n \<le> length content" using k n by simp
    then have "k * CHUNK_SIZE + ?n < 2 ^ 64" using assms(4) by simp
    then show ?thesis by (simp add: unat_of_nat del: of_nat_mult flip: of_nat_add)
  qed
  have "unat (of_nat (length content) :: u64) = length content" using assms(4) by (simp add: unat_of_nat)
  then have last: "?n < CHUNK_SIZE \<or> (of_nat (length content) :: u64) \<le> of_nat (k * CHUNK_SIZE) + of_nat ?n \<longleftrightarrow>
      Suc k = n_chunks CHUNK_SIZE content"
    unfolding word_le_nat_alt sum
    using less_n_chunks [of CHUNK_SIZE "Suc k" content] assms(5) k n by auto
  obtain info' where info': "get_transfer t i = Some info'" "ti_file_id info' = f" "ti_state info' \<notin> {CANCELLED, FAILED}"
    using assms(1) by (auto simp: uploading_def)
  let ?w = "\<lparr>w_transfer = i, w_info = info, w_offset = k * CHUNK_SIZE + ?n, w_index = of_nat k + 1,
       w_sent = of_nat (k * CHUNK_SIZE) + of_nat ?n, w_good = ?n = CHUNK_SIZE\<rparr>"
  have "?n \<noteq> 0" using k n by simp
  have wire: "\<lparr>fuc_file_id = f, fuc_chunk_index = of_nat k, fuc_data = ?c,
      fuc_is_last = (Suc k = n_chunks CHUNK_SIZE content), fuc_checksum = cc_sha256 C ?c\<rparr> = wire_chunk C f content k"
    by (simp add: wire_chunk_def chunk_msg_def)
  have small: "cc_wire_bytes C (wire_chunk C f content k) \<le> kMaxWireEnvelopeBytes"
    using assms(1) by (simp add: uploading_def)
  have "upload_step C (reading i info k) t =
      (Some ?w, send_file_chunk C i (of_nat k) ?c (Suc k = n_chunks CHUNK_SIZE content) t)"
    using assms(1-3) info' \<open>?n \<noteq> 0\<close> last
    by (simp add: upload_step_def reading_def uploading_def chunk_of_def Let_def)
  also have "send_file_chunk C i (of_nat k) ?c (Suc k = n_chunks CHUNK_SIZE content) t =
      t\<lparr>tx_sent := tx_sent t @ [C_UploadChunk (wire_chunk C f content k)]\<rparr>"
    using assms(1) info' leD [OF small] by (simp add: send_file_chunk_def uploading_def wire Let_def send_fn_def)
  finally have step: "upload_step C (reading i info k) t =
      (Some ?w, t\<lparr>tx_sent := tx_sent t @ [C_UploadChunk (wire_chunk C f content k)]\<rparr>)" .
  have "if Suc k * CHUNK_SIZE \<le> length content then ?w = reading i info (Suc k) else \<not> w_good ?w"
    using n by (auto simp: reading_def)
  with step show thesis by (rule that)
qed

lemma uploading_sent: "uploading C i f path content (t\<lparr>tx_sent := xs\<rparr>) = uploading C i f path content t"
  by (simp add: uploading_def get_transfer_def)

lemma run_worker_None [simp]: "run_worker C (None, t) = Some t"
  by (subst run_worker.simps) simp

lemma run_worker_Some: "run_worker C (Some w, t) = run_worker C (upload_step C w t)"
  by (subst run_worker.simps) simp

lemma run_worker_chunks:
  assumes "ti_local_path info = path" "ti_file_size info = of_nat (length content)" "length content < 2 ^ 63"
  shows "uploading C i f path content t \<Longrightarrow> k \<le> n_chunks CHUNK_SIZE content \<Longrightarrow>
    run_worker C (Some (reading i info k), t) =
      Some (t\<lparr>tx_sent := tx_sent t @ map (\<lambda>j. C_UploadChunk (wire_chunk C f content j)) [k..<n_chunks CHUNK_SIZE content]\<rparr>)"
proof (induction "n_chunks CHUNK_SIZE content - k" arbitrary: k t)
  case 0
  then have k: "\<not> k * CHUNK_SIZE < length content" "k = n_chunks CHUNK_SIZE content"
    using less_n_chunks [of CHUNK_SIZE k content] by simp_all
  obtain info' where "get_transfer t i = Some info'" "ti_state info' \<notin> {CANCELLED, FAILED}"
    using 0 by (auto simp: uploading_def)
  then have "upload_step C (reading i info k) t = (None, t)"
    using 0 assms k(1) by (simp add: upload_step_def reading_def uploading_def Let_def)
  then show ?case using k(2) by (simp add: run_worker_Some)
next
  case (Suc m)
  let ?n = "n_chunks CHUNK_SIZE content"
  let ?t = "t\<lparr>tx_sent := tx_sent t @ [C_UploadChunk (wire_chunk C f content k)]\<rparr>"
  have k: "k < ?n" using Suc.hyps(2) by simp
  obtain w where w: "upload_step C (reading i info k) t = (Some w, ?t)"
      "if Suc k * CHUNK_SIZE \<le> length content then w = reading i info (Suc k) else \<not> w_good w"
    by (rule upload_step_chunk [OF Suc.prems(1) assms k])
  show ?case
  proof (cases "Suc k * CHUNK_SIZE \<le> length content")
    case True
    have up: "uploading C i f path content ?t" using Suc.prems(1) by (simp add: uploading_sent)
    have "run_worker C (Some (reading i info (Suc k)), ?t) =
        Some (?t\<lparr>tx_sent := tx_sent ?t @ map (\<lambda>j. C_UploadChunk (wire_chunk C f content j)) [Suc k..<?n]\<rparr>)"
      by (rule Suc.hyps(1) [OF _ up]) (use Suc.hyps(2) k in simp_all)
    then show ?thesis using w True k by (simp add: run_worker_Some upt_conv_Cons del: upt_Suc)
  next
    case False
    then have "\<not> Suc k < ?n" using less_n_chunks [of CHUNK_SIZE "Suc k" content] by simp
    then have "?n = Suc k" using k by simp
    moreover have "upload_step C w ?t = (None, ?t)" using w(2) False by (simp add: upload_step_def Let_def)
    ultimately show ?thesis using w(1) by (simp add: run_worker_Some)
  qed
qed

subsection \<open>What the server makes of it\<close>

fun serve_uploads :: "ctx \<Rightarrow> sid \<Rightarrow> client_msg list \<Rightarrow> server \<Rightarrow> server" where
  "serve_uploads X i [] s = s"
| "serve_uploads X i (C_UploadRequest r # ms) s = serve_uploads X i ms (handle_file_request X i r s)"
| "serve_uploads X i (C_UploadChunk c # ms) s = serve_uploads X i ms (handle_file_upload X i c s)"
| "serve_uploads X i (C_Download r # ms) s = serve_uploads X i ms s"

lemma serve_chunks:
  assumes "k < n_chunks CHUNK_SIZE content"
  shows "serve_uploads X i (map (\<lambda>j. C_UploadChunk (wire_chunk C f content j)) [k..<n_chunks CHUNK_SIZE content]) s =
    send_chunks X i f CHUNK_SIZE content (\<lambda>j. cc_sha256 C (chunk_of CHUNK_SIZE content j))
      [k..<n_chunks CHUNK_SIZE content] s"
  using assms
proof (induction "n_chunks CHUNK_SIZE content - k" arbitrary: k s)
  case (Suc m)
  let ?n = "n_chunks CHUNK_SIZE content"
  have last: "wire_chunk C f content k =
      chunk_msg f CHUNK_SIZE content (cc_sha256 C (chunk_of CHUNK_SIZE content k)) k ([Suc k..<?n] = [])"
  proof -
    have "Suc k = ?n \<longleftrightarrow> [Suc k..<?n] = []" using Suc.prems by (simp del: upt_Suc) linarith
    then show ?thesis by (simp add: wire_chunk_def)
  qed
  show ?case
  proof (cases "Suc k < ?n")
    case True
    have "m = ?n - Suc k" using Suc.hyps(2) by simp
    from Suc.hyps(1) [OF this True] show ?thesis
      using Suc.prems by (simp add: upt_conv_Cons last del: upt_Suc)
  next
    case False
    then show ?thesis using Suc.prems by (simp add: upt_conv_Cons last del: upt_Suc)
  qed
qed simp

subsection \<open>What the receiver makes of it\<close>

text \<open>The dispatch of the file messages, from \<open>net/message_handler.cpp\<close>.\<close>

definition receive_file_msg :: "client_ctx \<Rightarrow> message_type \<times> msg \<Rightarrow> transfers \<Rightarrow> transfers" where
  "receive_file_msg C m t =
     (case snd m of
        M_FileChunk f k b l \<Rightarrow>
          if fst m = MT_FILE_CHUNK
          then on_file_chunk C \<lparr>fk_file_id = f, fk_index = k, fk_data = b, fk_is_last = l\<rparr> t else t
      | M_FileProgress f a b st \<Rightarrow> if fst m = MT_FILE_PROGRESS then on_file_progress C f a b st t else t
      | M_FileComplete f n ck \<Rightarrow> if fst m = MT_FILE_COMPLETE then on_file_complete C f n ck t else t
      | M_FileError f n text \<Rightarrow> if fst m = MT_FILE_ERROR then on_file_error C f text t else t
      | _ \<Rightarrow> t)"

fun receive_file :: "client_ctx \<Rightarrow> (message_type \<times> msg) list \<Rightarrow> transfers \<Rightarrow> transfers" where
  "receive_file C [] t = t"
| "receive_file C (m # ms) t = receive_file C ms (receive_file_msg C m t)"

lemma receive_file_append: "receive_file C (ms @ ms') t = receive_file C ms' (receive_file C ms t)"
  by (induction C ms t rule: receive_file.induct) simp_all

text \<open>A download that has written \<open>b\<close> so far.\<close>

definition downloading :: "string \<Rightarrow> string \<Rightarrow> string \<Rightarrow> bytes \<Rightarrow> transfers \<Rightarrow> bool" where
  "downloading i f path b t \<longleftrightarrow>
     tx_by_file t f = Some i \<and> (case tx_disk t path of None \<Rightarrow> b = [] | Some c \<Rightarrow> c = b) \<and>
     (\<exists>info. get_transfer t i = Some info \<and> ti_direction info = DOWNLOAD \<and> ti_local_path info = path \<and>
        ti_state info \<noteq> CANCELLED)"

fun slice_data :: "message_type \<times> msg \<Rightarrow> bytes" where
  "slice_data m = concat (map (fst \<circ> snd) (payload m))"

lemma about_cases:
  assumes "about f m"
  obtains (chunk) k b l where "m = (MT_FILE_CHUNK, M_FileChunk f k b l)"
  | (progress) x y where "m = (MT_FILE_PROGRESS, M_FileProgress f x y ''downloading'')"
  using assms by (cases m) (auto simp: about_def split: msg.splits)

lemma downloading_upd_info:
  assumes "downloading i f path b t" "\<And>info. ti_direction (g info) = ti_direction info"
    "\<And>info. ti_local_path (g info) = ti_local_path info"
    "\<And>info. ti_state info \<noteq> CANCELLED \<Longrightarrow> ti_state (g info) \<noteq> CANCELLED"
  shows "downloading i f path b (upd_info i g t)"
  using assms by (auto simp: downloading_def)

lemma downloading_verify: "downloading i f path b (t\<lparr>tx_verify := v\<rparr>) = downloading i f path b t"
  by (simp add: downloading_def get_transfer_def)

lemma downloading_write:
  "downloading i f path b t \<Longrightarrow>
   downloading i f path (b @ c) (t\<lparr>tx_disk := (tx_disk t)(path \<mapsto> (case tx_disk t path of None \<Rightarrow> [] | Some x \<Rightarrow> x) @ c)\<rparr>)"
  by (auto simp: downloading_def get_transfer_def split: option.splits)

lemma downloading_transfer: "downloading i f path b t \<Longrightarrow> \<exists>info. transfer_of t f = Some (i, info) \<and>
    ti_local_path info = path \<and> ti_state info \<noteq> CANCELLED"
  by (auto simp: downloading_def transfer_of_def)

lemma receive_chunk:
  assumes "downloading i f path b t" "cc_writable C path"
  shows "downloading i f path (b @ data) (on_file_chunk C \<lparr>fk_file_id = f, fk_index = k, fk_data = data, fk_is_last = l\<rparr> t)"
    and "tx_disk (on_file_chunk C \<lparr>fk_file_id = f, fk_index = k, fk_data = data, fk_is_last = l\<rparr> t) path = Some (b @ data)"
proof -
  obtain info where info: "transfer_of t f = Some (i, info)" "ti_local_path info = path" "ti_state info \<noteq> CANCELLED"
    using downloading_transfer [OF assms(1)] by blast
  note w = downloading_write [OF assms(1), of data]
  show "downloading i f path (b @ data) (on_file_chunk C \<lparr>fk_file_id = f, fk_index = k, fk_data = data, fk_is_last = l\<rparr> t)"
    using info assms(2) w by (auto simp: on_file_chunk_def Let_def downloading_verify intro!: downloading_upd_info)
  show "tx_disk (on_file_chunk C \<lparr>fk_file_id = f, fk_index = k, fk_data = data, fk_is_last = l\<rparr> t) path = Some (b @ data)"
    using info assms by (auto simp: on_file_chunk_def Let_def downloading_def split: option.splits)
qed

lemma receive_progress:
  assumes "downloading i f path b t"
  shows "downloading i f path b (on_file_progress C f x y ''downloading'' t)"
    and "tx_disk (on_file_progress C f x y ''downloading'' t) = tx_disk t"
  using downloading_transfer [OF assms] assms
  by (auto simp: on_file_progress_def Let_def intro!: downloading_upd_info)

lemma receive_slices:
  assumes "cc_writable C path"
  shows "downloading i f path b t \<Longrightarrow> \<forall>m \<in> set ms. about f m \<Longrightarrow>
    downloading i f path (b @ concat (map (fst \<circ> snd) (slices_of ms))) (receive_file C ms t) \<and>
    (tx_disk t path \<noteq> None \<or> slices_of ms \<noteq> [] \<longrightarrow>
      tx_disk (receive_file C ms t) path = Some (b @ concat (map (fst \<circ> snd) (slices_of ms))))"
proof (induction ms arbitrary: b t)
  case Nil
  then show ?case by (auto simp: downloading_def split: option.splits)
next
  case (Cons m ms)
  have rest: "\<forall>m \<in> set ms. about f m" using Cons.prems(2) by simp
  from Cons.prems(2) have "about f m" by simp
  then show ?case
  proof (cases rule: about_cases)
    case (chunk k data l)
    note r = receive_chunk [OF Cons.prems(1) assms, where data = data and k = k and l = l]
    from Cons.IH [OF r(1) rest] r(2) chunk show ?thesis by (simp add: receive_file_msg_def)
  next
    case (progress x y)
    note r = receive_progress [OF Cons.prems(1), where C = C and x = x and y = y]
    from Cons.IH [OF r(1) rest] r(2) progress show ?thesis by (simp add: receive_file_msg_def)
  qed
qed

subsection \<open>From one client to the other\<close>

text \<open>
  What protobuf adds to the fields of a chunk: their tags and lengths, the two integers, and the envelope with its
  own, together less than 128 bytes.
\<close>

definition wire_overhead :: "client_ctx \<Rightarrow> bool" where
  "wire_overhead C \<longleftrightarrow> (\<forall>c. cc_wire_bytes C c \<le>
     length (fuc_file_id c) + length (fuc_data c) + length (fuc_checksum c) + 128)"

definition sender_ready :: "client_ctx \<Rightarrow> string \<Rightarrow> bytes \<Rightarrow> transfers \<Rightarrow> bool" where
  "sender_ready C path content t \<longleftrightarrow>
     tx_disk t path = Some content \<and> cc_readable C path \<and> tx_pending t = [] \<and> tx_can_send t \<and> \<not> tx_shutdown t \<and>
     wire_overhead C \<and> length (cc_random_id C) \<le> 64 \<and> (\<forall>b. length (cc_sha256 C b) \<le> 64)"

lemma chunk_fits_wire:
  assumes "sender_ready C path content t"
  shows "cc_wire_bytes C (wire_chunk C (cc_random_id C) content k) \<le> kMaxWireEnvelopeBytes"
proof -
  let ?b = "chunk_of CHUNK_SIZE content k"
  have "cc_wire_bytes C (wire_chunk C (cc_random_id C) content k) \<le>
      length (cc_random_id C) + length ?b + length (cc_sha256 C ?b) + 128"
    using assms unfolding sender_ready_def wire_overhead_def wire_chunk_def chunk_msg_def
    by (metis file_upload_chunk.select_convs(1,3,5))
  moreover have "length ?b \<le> CHUNK_SIZE" by (simp add: length_chunk_of)
  moreover have "length (cc_random_id C) \<le> 64" "length (cc_sha256 C ?b) \<le> 64"
    using assms by (simp_all add: sender_ready_def)
  ultimately show ?thesis by linarith
qed

definition file_request :: "client_ctx \<Rightarrow> string \<Rightarrow> bytes \<Rightarrow> string \<Rightarrow> string \<Rightarrow> file_upload_request" where
  "file_request C path content recipient channel =
     \<lparr>fur_file_id = cc_random_id C, fur_filename = path_filename path, fur_file_size = of_nat (length content),
      fur_mime_type = detect_mime_type path, fur_recipient_id = recipient, fur_channel_id = channel,
      fur_chunk_size = of_nat CHUNK_SIZE\<rparr>"

text \<open>The messages that an upload makes a worker send.\<close>

definition upload_messages :: "client_ctx \<Rightarrow> string \<Rightarrow> string \<Rightarrow> string \<Rightarrow> transfers \<Rightarrow> client_msg list option" where
  "upload_messages C path recipient channel t =
     map_option (\<lambda>t'. drop (length (tx_sent t)) (tx_sent t'))
       (run_worker C (take_upload C (snd (upload C path recipient channel t))))"

lemma get_transfer_frame [simp]:
  "get_transfer (t\<lparr>tx_pending := xs\<rparr>) = get_transfer t" "get_transfer (send_fn m t) = get_transfer t"
  "get_transfer (t\<lparr>tx_by_file := m1\<rparr>) = get_transfer t" "get_transfer (t\<lparr>tx_next_id := n\<rparr>) = get_transfer t"
  "get_transfer (t\<lparr>tx_verify := v\<rparr>) = get_transfer t"
  by (rule get_transfer_infos, simp add: send_fn_def)+

lemma take_upload_reading:
  assumes "get_transfer t i = Some info" "ti_state info \<noteq> CANCELLED" "tx_pending t = [i]" "tx_can_send t"
    "tx_disk t (ti_local_path info) \<noteq> None" "cc_readable C (ti_local_path info)"
  shows "take_upload C t = (Some (reading i info 0),
    upd_info i (set_ti_state C UPLOADING) (send_fn (C_UploadRequest (upload_request info)) (t\<lparr>tx_pending := []\<rparr>)))"
proof -
  let ?t = "upd_info i (set_ti_state C UPLOADING) (send_fn (C_UploadRequest (upload_request info)) (t\<lparr>tx_pending := []\<rparr>))"
  have "tx_disk ?t (ti_local_path info) \<noteq> None" using assms(5) by (simp add: send_fn_def)
  then have "begin_upload C i info (t\<lparr>tx_pending := []\<rparr>) = (Some (reading i info 0), ?t)"
    using assms(4,6) by (simp add: begin_upload_def reading_def send_file_request_def Let_def)
  then show ?thesis using assms(1-3) by (simp add: take_upload_def)
qed

lemma upload_queues:
  assumes "tx_disk t path = Some content" "tx_pending t = []"
  obtains i info t1 where "snd (upload C path recipient channel t) = t1" "get_transfer t1 i = Some info"
    "ti_state info = PENDING" "ti_file_id info = cc_random_id C" "ti_local_path info = path"
    "ti_file_size info = of_nat (length content)"
    "upload_request info = file_request C path content recipient channel"
    "tx_pending t1 = [i]" "tx_can_send t1 = tx_can_send t" "tx_disk t1 = tx_disk t"
    "tx_shutdown t1 = tx_shutdown t" "tx_sent t1 = tx_sent t"
proof -
  let ?i = "fst (generate_transfer_id t)"
  let ?info = "\<lparr>ti_transfer_id = ?i, ti_file_id = cc_random_id C, ti_filename = path_filename path,
                      ti_mime_type = detect_mime_type path, ti_file_size = of_nat (length content), ti_bytes = 0,
                      ti_direction = UPLOAD, ti_state = PENDING, ti_error = [], ti_local_path = path,
                      ti_recipient = recipient, ti_channel = channel, ti_created_at = cc_now C,
                      ti_updated_at = cc_now C\<rparr>"
  let ?t1 = "snd (upload C path recipient channel t)"
  have "?t1 = (put_info ?info (snd (generate_transfer_id t)))
      \<lparr>tx_by_file := (tx_by_file t)(cc_random_id C \<mapsto> ?i), tx_pending := [?i]\<rparr>"
    using assms by (simp add: upload_def generate_transfer_id_def Let_def)
  then have "get_transfer ?t1 ?i = Some ?info" "tx_pending ?t1 = [?i]" "tx_can_send ?t1 = tx_can_send t"
      "tx_disk ?t1 = tx_disk t" "tx_shutdown ?t1 = tx_shutdown t" "tx_sent ?t1 = tx_sent t"
    by (simp_all add: generate_transfer_id_def)
  then show thesis
    by (intro that [of ?t1 ?i ?info]) (simp_all add: upload_request_def file_request_def)
qed

lemma upload_messages_eq:
  assumes "sender_ready C path content t" "length content < 2 ^ 63"
  shows "upload_messages C path recipient channel t =
    Some (C_UploadRequest (file_request C path content recipient channel) #
      map (\<lambda>j. C_UploadChunk (wire_chunk C (cc_random_id C) content j)) [0..<n_chunks CHUNK_SIZE content])"
proof -
  have ready: "tx_disk t path = Some content" "tx_pending t = []" "cc_readable C path" "tx_can_send t" "\<not> tx_shutdown t"
    using assms(1) by (simp_all add: sender_ready_def)
  obtain i info t1 where t1: "snd (upload C path recipient channel t) = t1"
    and u: "get_transfer t1 i = Some info" "ti_state info = PENDING" "ti_file_id info = cc_random_id C"
      "ti_local_path info = path" "ti_file_size info = of_nat (length content)"
      "upload_request info = file_request C path content recipient channel"
      "tx_pending t1 = [i]" "tx_can_send t1 = tx_can_send t" "tx_disk t1 = tx_disk t"
      "tx_shutdown t1 = tx_shutdown t" "tx_sent t1 = tx_sent t"
    by (rule upload_queues [OF ready(1,2)])
  let ?req = "C_UploadRequest (file_request C path content recipient channel)"
  let ?t2 = "upd_info i (set_ti_state C UPLOADING) (send_fn ?req (t1\<lparr>tx_pending := []\<rparr>))"
  have t2: "take_upload C t1 = (Some (reading i info 0), ?t2)"
    unfolding u(6) [symmetric] by (rule take_upload_reading) (use u ready in simp_all)
  have sent: "tx_sent ?t2 = tx_sent t @ [?req]" using u(11) by (simp add: send_fn_def)
  have up: "uploading C i (cc_random_id C) path content ?t2"
    using u ready chunk_fits_wire [OF assms(1)] by (simp add: uploading_def set_ti_state_def) (simp add: send_fn_def)
  have "run_worker C (Some (reading i info 0), ?t2) = Some (?t2\<lparr>tx_sent := tx_sent ?t2 @
      map (\<lambda>j. C_UploadChunk (wire_chunk C (cc_random_id C) content j)) [0..<n_chunks CHUNK_SIZE content]\<rparr>)"
    by (rule run_worker_chunks [OF u(4,5) assms(2) up]) simp
  then show ?thesis unfolding upload_messages_def t1 t2 sent by simp
qed

lemma length_pieces: "0 < n \<Longrightarrow> length (pieces n xs) = (length xs + n - 1) div n"
proof (induction n xs rule: pieces.induct)
  case (1 n xs)
  show ?case
  proof (cases "xs = []")
    case True
    then show ?thesis using 1(2) by (subst pieces.simps) simp
  next
    case False
    then have "length (pieces n xs) = Suc ((length (drop n xs) + n - 1) div n)"
      using 1 by (simp add: pieces_step)
    also have "\<dots> = (length xs + n - 1) div n"
    proof (cases "length xs < n")
      case True
      have "(length xs + n - 1) div n = 1" by (rule div_nat_eqI) (use True False in \<open>cases xs; simp\<close>)+
      then show ?thesis using True by simp
    next
      case ge: False
      then have "length (drop n xs) + n - 1 = length xs - 1" by simp
      moreover have "length xs + n - 1 = n + (length xs - 1)" using False by (cases xs) simp_all
      ultimately show ?thesis using 1(2) by (simp only: div_add_self1)
    qed
    finally show ?thesis .
  qed
qed

text \<open>A stored chunk of the client's size is sent back in at most two slices.\<close>

lemma slices_bound:
  assumes "length content \<le> 2 ^ 46"
  shows "length (concat (map (pieces wire_chunk_size \<circ> chunk_of CHUNK_SIZE content) [0..<n_chunks CHUNK_SIZE content])) \<le> 2 ^ 32"
proof -
  have two: "length (pieces wire_chunk_size (chunk_of CHUNK_SIZE content k)) \<le> 2" for k
    using length_chunk_of [of CHUNK_SIZE content k] by (simp add: length_pieces)
  have "length (concat (map (pieces wire_chunk_size \<circ> chunk_of CHUNK_SIZE content) ks)) \<le> 2 * length ks" for ks
  proof (induction ks)
    case (Cons k ks)
    then show ?case using two [of k] by simp
  qed simp
  from this [of "[0..<n_chunks CHUNK_SIZE content]"] show ?thesis using assms by (simp add: n_chunks_def)
qed

lemma upload_fits_client: "content \<noteq> [] \<Longrightarrow> length content \<le> 2 ^ 46 \<Longrightarrow> upload_fits CHUNK_SIZE content"
  by (simp add: upload_fits_def n_chunks_def)

definition receiver_ready :: "client_ctx \<Rightarrow> string \<Rightarrow> transfers \<Rightarrow> bool" where
  "receiver_ready D dest t \<longleftrightarrow> tx_disk t dest = None \<and> tx_can_send t \<and> cc_writable D dest \<and> cc_readable D dest"

lemma send_list_append: "send_list X j (ms @ ms') s = send_list X j ms' (send_list X j ms s)"
  by (induction X j ms s rule: send_list.induct) simp_all

lemma download_starts:
  assumes "receiver_ready D dest t" "download D f dest t = (i, t')"
  shows "downloading i f dest [] t'"
  using assms
  by (auto simp: download_def generate_transfer_id_def receiver_ready_def downloading_def Let_def
      set_ti_state_def send_fn_def)

lemma complete_download:
  assumes "downloading i f dest content t" "tx_disk t dest = Some content" "cc_readable D dest"
    "cc_sha256 D content = ck" "ck \<noteq> []"
  shows "\<exists>info. get_transfer (on_file_complete D f n ck t) i = Some info \<and> ti_state info = COMPLETED"
    and "tx_disk (on_file_complete D f n ck t) dest = Some content"
  using downloading_transfer [OF assms(1)] assms(2-) assms(1)
  by (auto simp: on_file_complete_def Let_def checksum_matches_path_def sha256_file_def downloading_def)

lemma slices_concat:
  "concat (map (fst \<circ> snd) (map (\<lambda>j. (of_nat j :: u32, P ! j, Suc j = length P)) [0..<length P])) = concat P"
  by (simp add: comp_def map_nth)

text \<open>
  C7: a file arrives at the other client as it left the first.  Let a user upload a readable, non-empty
  file of at most \<open>2^46\<close> bytes.  The worker ends; when the server, which accepts the request and passes
  the scan, has handled the messages it sent, a download of that file by a user with access ends; and
  the other client, which had no file at the destination, then has exactly the content there, with the
  transfer completed after the checksum was compared.
\<close>

theorem file_arrives_at_other_client:
  assumes "sender_ready C path content tu" and "content \<noteq> []" and "length content \<le> 2 ^ 46"
    and "quiet X" and "sha256 X content \<noteq> []" and "cc_sha256 C = sha256 X" and "cc_sha256 D = sha256 X"
    and "r = file_request C path content recipient channel" and "f = fur_file_id r"
    and "file_request_error X i r s = None" and "map_of (files (sdb s)) f = None" and "upload_at s i f = None"
    and "scan_passes X content (scanner s)"
    and "can_download_file s (request_metadata (the_user s i) r) (the_user s j)"
    and "receiver_ready D dest td" and "download D f dest td = (n, td')"
  shows "\<exists>up down. upload_messages C path recipient channel tu = Some up \<and>
    (let s' = serve_uploads X i up s
     in handle_file_download X j \<lparr>fdr_file_id = f, fdr_chunk_index = 0\<rparr> s' = Some (send_list X j down s')) \<and>
    tx_disk (receive_file D down td') dest = Some content \<and>
    (\<exists>info. get_transfer (receive_file D down td') n = Some info \<and> ti_state info = COMPLETED)"
proof -
  let ?n = "n_chunks CHUNK_SIZE content" and ?ck = "\<lambda>j. cc_sha256 C (chunk_of CHUNK_SIZE content j)"
  let ?P = "concat (map (pieces wire_chunk_size \<circ> chunk_of CHUNK_SIZE content) [0..<?n])"
  let ?up = "C_UploadRequest r # map (\<lambda>j. C_UploadChunk (wire_chunk C f content j)) [0..<?n]"
  let ?s' = "serve_uploads X i ?up s"
  have f: "f = cc_random_id C" and r: "fur_file_id r = f" "fur_file_size r = of_nat (length content)"
      "fur_chunk_size r = of_nat CHUNK_SIZE"
    using assms(8,9) by (simp_all add: file_request_def)
  have up: "upload_messages C path recipient channel tu = Some ?up"
    unfolding assms(8) f using assms(3) by (intro upload_messages_eq [OF assms(1)]) simp
  have pos: "0 < ?n" using assms(2) less_n_chunks [of CHUNK_SIZE 0 content] by simp
  have s': "?s' = send_chunks X i f CHUNK_SIZE content ?ck [0..<?n] (handle_file_request X i r s)"
    using serve_chunks [OF pos, of X i C f "handle_file_request X i r s"] by simp
  have ck: "checksum_matches X (chunk_of CHUNK_SIZE content k) (?ck k)" for k
    by (simp add: checksum_matches_def assms(6))
  have ks: "distinct [0..<?n]" "set [0..<?n] = {..<?n}" by (simp_all add: lessThan_atLeast0)
  from transfer_roundtrip [OF upload_fits_client [OF assms(2,3)] assms(4,5) ck r assms(10-13) ks assms(14) refl
      slices_bound [OF assms(3)] s', of 0]
  obtain msgs where msgs: "handle_file_download X j \<lparr>fdr_file_id = f, fdr_chunk_index = 0\<rparr> ?s' =
         Some (send_envelope X j MT_FILE_COMPLETE (M_FileComplete f (of_nat (length content)) (sha256 X content))
           (send_list X j msgs ?s'))"
       "slices_of msgs = map (\<lambda>j. (of_nat j, ?P ! j, Suc j = length ?P)) [0..<length ?P]"
       "\<forall>m \<in> set msgs. about f m" "concat ?P = content"
    by auto
  let ?down = "msgs @ [(MT_FILE_COMPLETE, M_FileComplete f (of_nat (length content)) (sha256 X content))]"
  have served: "handle_file_download X j \<lparr>fdr_file_id = f, fdr_chunk_index = 0\<rparr> ?s' = Some (send_list X j ?down ?s')"
    using msgs(1) by (simp add: send_list_append)
  have data: "concat (map (fst \<circ> snd) (slices_of msgs)) = content"
    unfolding msgs(2) slices_concat by (rule msgs(4))
  then have "slices_of msgs \<noteq> []" using assms(2) by auto
  have dest: "cc_writable D dest" "cc_readable D dest" using assms(15) by (simp_all add: receiver_ready_def)
  from receive_slices [OF dest(1) download_starts [OF assms(15,16)] msgs(3)] data \<open>slices_of msgs \<noteq> []\<close>
  have t: "downloading n f dest content (receive_file D msgs td')"
      "tx_disk (receive_file D msgs td') dest = Some content" by simp_all
  have last: "receive_file D ?down td' = on_file_complete D f (of_nat (length content)) (sha256 X content)
      (receive_file D msgs td')"
    by (simp add: receive_file_append receive_file_msg_def)
  have "cc_sha256 D content = sha256 X content" by (simp add: assms(7))
  note got = complete_download [OF t dest(2) this assms(5), where n = "of_nat (length content)", folded last]
  show ?thesis
    by (intro exI [of _ ?up] exI [of _ ?down] conjI up got) (simp only: Let_def served)
qed

definition demo_client :: client_ctx where
  "demo_client = \<lparr>cc_now = 0, cc_random_id = ''f'', cc_sha256 = sha256 demo_ctx, cc_wire_bytes = (\<lambda>c. length (fuc_file_id c) + length (fuc_data c) + length (fuc_checksum c) + 40),
     cc_readable = (\<lambda>_. True), cc_writable = (\<lambda>_. True)\<rparr>"

theorem file_arrives_at_other_client_witness:
  "let t = new_transfers (\<lambda>p. if p = ''/a.png'' then Some [1, 2, 3] else None)\<lparr>tx_can_send := True\<rparr>
   in \<exists>down. tx_disk (receive_file demo_client down (snd (download demo_client ''f'' ''/b'' t))) ''/b'' = Some [1, 2, 3]"
proof -
  let ?t = "new_transfers (\<lambda>p. if p = ''/a.png'' then Some [1, 2, 3] else None)\<lparr>tx_can_send := True\<rparr>"
  let ?r = "file_request demo_client ''/a.png'' [1, 2, 3] [] []"
  have s: "sender_ready demo_client ''/a.png'' [1, 2, 3] ?t" and d: "receiver_ready demo_client ''/b'' ?t"
    by (simp_all add: sender_ready_def wire_overhead_def receiver_ready_def new_transfers_def demo_client_def demo_ctx_simps min_def)
  have "detect_mime_type ''/a.png'' = ''image/png''" by code_simp
  moreover have "mime_is_allowed (ascii_lower_copy ''image/png'') [''image/*''] []" by code_simp
  ultimately have ok: "file_request_error demo_ctx 0 ?r demo_upload_server = None"
    by (simp add: file_request_error_def file_request_def demo_client_def demo_upload_server_def new_server_def
        default_config_def path_filename_def)
  have can: "can_download_file demo_upload_server (request_metadata (the_user demo_upload_server 0) ?r)
      (the_user demo_upload_server 0)"
    by (simp add: can_download_file_def request_metadata_def file_request_def)
  have sha: "sha256 demo_ctx [1, 2, 3] \<noteq> []" "cc_sha256 demo_client = sha256 demo_ctx"
    by (simp_all add: demo_client_def)
  have "''f'' = fur_file_id ?r" by (simp add: file_request_def demo_client_def)
  from file_arrives_at_other_client [OF s _ _ quiet_demo sha(1,2,2) refl this ok _ _ demo_upload_simps(4) can d
      surjective_pairing] demo_upload_simps(2,3)
  show ?thesis by (auto simp: Let_def)
qed

end
