(* ===== verification/Client_Input.thy ===== *)
theory Client_Input
  imports Grotto_Prelude
begin

unbundle bit_operations_syntax

text \<open>
  The input line of the terminal client, \<open>ui/input_line.cpp\<close>: a buffer of code points with a cursor, a
  selection of all or nothing, a history, and the conversions from and to UTF-8.
\<close>

subsection \<open>UTF-8\<close>

text \<open>The bytes of one code point, cut to 8 bits as the casts of the code do.\<close>

definition utf8_of :: "u32 \<Rightarrow> bytes" where
  "utf8_of cp =
     (if cp < 0x80 then [ucast cp]
      else if cp < 0x800 then [ucast (0xC0 OR drop_bit 6 cp), ucast (0x80 OR (cp AND 0x3F))]
      else if cp < 0x10000
      then [ucast (0xE0 OR drop_bit 12 cp), ucast (0x80 OR (drop_bit 6 cp AND 0x3F)), ucast (0x80 OR (cp AND 0x3F))]
      else [ucast (0xF0 OR drop_bit 18 cp), ucast (0x80 OR (drop_bit 12 cp AND 0x3F)),
            ucast (0x80 OR (drop_bit 6 cp AND 0x3F)), ucast (0x80 OR (cp AND 0x3F))])"

definition to_utf8 :: "u32 list \<Rightarrow> bytes" where
  "to_utf8 s = concat (map utf8_of s)"

text \<open>The first byte: the bits it contributes and the number of bytes that must follow; \<open>n\<close> are left.\<close>

definition utf8_lead :: "byte \<Rightarrow> nat \<Rightarrow> (u32 \<times> nat) option" where
  "utf8_lead c n =
     (if c < 0x80 then Some (ucast c, 0)
      else if c AND 0xE0 = 0xC0 \<and> 1 \<le> n then Some (ucast (c AND 0x1F), 1)
      else if c AND 0xF0 = 0xE0 \<and> 2 \<le> n then Some (ucast (c AND 0x0F), 2)
      else if c AND 0xF8 = 0xF0 \<and> 3 \<le> n then Some (ucast (c AND 0x07), 3)
      else None)"

fun utf8_tail :: "u32 \<Rightarrow> bytes \<Rightarrow> u32 option" where
  "utf8_tail cp [] = Some cp"
| "utf8_tail cp (next # bs) =
     (if next AND 0xC0 \<noteq> 0x80 then None else utf8_tail (push_bit 6 cp OR ucast (next AND 0x3F)) bs)"

text \<open>Carriage returns and control characters are dropped, a tab becomes a space.\<close>

definition sanitize_cp :: "u32 \<Rightarrow> u32 list" where
  "sanitize_cp cp =
     (if cp = 0x0D then []
      else let cp = (if cp = 0x09 then 0x20 else cp)
           in if cp < 32 \<or> cp = 127 then [] else [cp])"

function from_utf8 :: "bytes \<Rightarrow> u32 list" where
  "from_utf8 [] = []"
| "from_utf8 (c # s) =
     (case utf8_lead c (length s) of
        None \<Rightarrow> from_utf8 s
      | Some (cp, n) \<Rightarrow>
          (case utf8_tail cp (take n s) of
             None \<Rightarrow> from_utf8 s
           | Some cp \<Rightarrow> sanitize_cp cp @ from_utf8 (drop n s)))"
  by pat_completeness auto
termination by (relation "measure length") auto

text \<open>The bits of a number below a power of two.\<close>

lemma bit_bound:
  fixes w :: "'a::len word"
  assumes "unat w < 2 ^ n" "bit w k"
  shows "k < n"
proof -
  have "bit (unat w) k" using assms(2) by (simp add: bit_unsigned_iff)
  moreover have "take_bit n (unat w) = unat w" by (rule take_bit_nat_eq_self [OF assms(1)])
  ultimately show ?thesis using bit_take_bit_iff [of n "unat w" k] by simp
qed

lemma less_8_cases: "(n::nat) < 8 \<longleftrightarrow> n = 0 \<or> n = 1 \<or> n = 2 \<or> n = 3 \<or> n = 4 \<or> n = 5 \<or> n = 6 \<or> n = 7"
  by auto

text \<open>A continuation byte, and what it adds to the bits read before.\<close>

lemma mask6: "(0x3F :: u32) = mask 6" "(0x3F :: byte) = mask 6"
  by (simp_all add: mask_eq_exp_minus_1)

lemma continuation:
  fixes x :: u32
  shows "(ucast (0x80 OR (x AND 0x3F)) :: byte) AND 0xC0 = 0x80"
    "(ucast ((ucast (0x80 OR (x AND 0x3F)) :: byte) AND 0x3F) :: u32) = take_bit 6 x"
proof -
  show "(ucast (0x80 OR (x AND 0x3F)) :: byte) AND 0xC0 = 0x80"
    by (rule bit_word_eqI) (auto simp: less_8_cases bit_simps)
  have "n < 6 \<Longrightarrow> \<not> bit (0x80 :: u32) n" for n
    using less_8_cases [of n] by auto
  then show "(ucast ((ucast (0x80 OR (x AND 0x3F)) :: byte) AND 0x3F) :: u32) = take_bit 6 x"
    unfolding mask6 by (intro bit_word_eqI) (auto simp: bit_simps simp flip: take_bit_eq_mask)
qed

lemma join_bits:
  fixes x :: u32
  shows "push_bit 6 (drop_bit (n + 6) x) OR take_bit 6 (drop_bit n x) = drop_bit n x"
proof (rule bit_word_eqI)
  fix k assume "k < LENGTH(32)"
  have "6 \<le> k \<Longrightarrow> n + 6 + (k - 6) = n + k" by simp
  then show "bit (push_bit 6 (drop_bit (n + 6) x) OR take_bit 6 (drop_bit n x)) k = bit (drop_bit n x) k"
    using \<open>k < LENGTH(32)\<close> by (cases "k < 6") (simp_all add: bit_simps)
qed

text \<open>Lead bytes.\<close>

lemma lead_byte:
  fixes x :: u32
  shows "unat x < 32 \<Longrightarrow> (ucast (0xC0 OR x) :: byte) AND 0xE0 = 0xC0"
    "unat x < 16 \<Longrightarrow> (ucast (0xE0 OR x) :: byte) AND 0xF0 = 0xE0"
    "unat x < 8 \<Longrightarrow> (ucast (0xF0 OR x) :: byte) AND 0xF8 = 0xF0"
    "unat x < 16 \<Longrightarrow> (ucast (0xE0 OR x) :: byte) AND 0xE0 \<noteq> 0xC0"
    "unat x < 8 \<Longrightarrow> (ucast (0xF0 OR x) :: byte) AND 0xE0 \<noteq> 0xC0"
    "unat x < 8 \<Longrightarrow> (ucast (0xF0 OR x) :: byte) AND 0xF0 \<noteq> 0xE0"
proof -
  have small: "\<not> bit x k" if "unat x < 2 ^ n" "n \<le> k" for n k using bit_bound [OF that(1)] that(2) by force
  show "(ucast (0xC0 OR x) :: byte) AND 0xE0 = 0xC0" if "unat x < 32"
    using that small [of 5] by (intro bit_word_eqI) (auto simp: less_8_cases bit_simps)
  show e: "(ucast (0xE0 OR x) :: byte) AND 0xF0 = 0xE0" if "unat x < 16" 
    using that small [of 4] by (intro bit_word_eqI) (auto simp: less_8_cases bit_simps)
  show f: "(ucast (0xF0 OR x) :: byte) AND 0xF8 = 0xF0" if "unat x < 8" 
    using that small [of 3] by (intro bit_word_eqI) (auto simp: less_8_cases bit_simps)
  have "bit ((ucast (0xE0 OR x) :: byte) AND 0xE0) 5" "bit ((ucast (0xF0 OR x) :: byte) AND 0xE0) 5"
      "bit ((ucast (0xF0 OR x) :: byte) AND 0xF0) 4"
    by (simp_all add: bit_simps)
  moreover have "\<not> bit (0xC0 :: byte) 5" "\<not> bit (0xE0 :: byte) 4" by simp_all
  ultimately show "(ucast (0xE0 OR x) :: byte) AND 0xE0 \<noteq> 0xC0" "(ucast (0xF0 OR x) :: byte) AND 0xE0 \<noteq> 0xC0"
      "(ucast (0xF0 OR x) :: byte) AND 0xF0 \<noteq> 0xE0"
    by metis+
qed

lemma lead_value:
  fixes x :: u32
  shows "unat x < 32 \<Longrightarrow> (ucast ((ucast (0xC0 OR x) :: byte) AND 0x1F) :: u32) = x"
    "unat x < 16 \<Longrightarrow> (ucast ((ucast (0xE0 OR x) :: byte) AND 0x0F) :: u32) = x"
    "unat x < 8 \<Longrightarrow> (ucast ((ucast (0xF0 OR x) :: byte) AND 0x07) :: u32) = x"
proof -
  have small: "\<not> bit x k" if "unat x < 2 ^ n" "n \<le> k" for n k using bit_bound [OF that(1)] that(2) by force
  have masks: "(0x1F :: byte) = mask 5" "(0x0F :: byte) = mask 4" "(0x07 :: byte) = mask 3"
    by (simp_all add: mask_eq_exp_minus_1)
  have tops: "n < 5 \<Longrightarrow> \<not> bit (0xC0 :: u32) n" "n < 4 \<Longrightarrow> \<not> bit (0xE0 :: u32) n" "n < 3 \<Longrightarrow> \<not> bit (0xF0 :: u32) n" for n
    using less_8_cases [of n] by auto
  show "(ucast ((ucast (0xC0 OR x) :: byte) AND 0x1F) :: u32) = x" if "unat x < 32"
    using that small [of 5] tops unfolding masks
    by (intro bit_word_eqI) (auto simp: bit_simps not_le [symmetric] simp flip: take_bit_eq_mask)
  show "(ucast ((ucast (0xE0 OR x) :: byte) AND 0x0F) :: u32) = x" if "unat x < 16"
    using that small [of 4] tops unfolding masks
    by (intro bit_word_eqI) (auto simp: bit_simps not_le [symmetric] simp flip: take_bit_eq_mask)
  show "(ucast ((ucast (0xF0 OR x) :: byte) AND 0x07) :: u32) = x" if "unat x < 8"
    using that small [of 3] tops unfolding masks
    by (intro bit_word_eqI) (auto simp: bit_simps not_le [symmetric] simp flip: take_bit_eq_mask)
qed

lemma unat_drop_bit: "unat (drop_bit n (x :: u32)) = unat x div 2 ^ n"
proof -
  have "take_bit LENGTH(32) (unat x) = unat x" using unsigned_less [of x] by (intro take_bit_nat_eq_self) simp
  then show ?thesis by (simp add: unsigned_drop_bit_eq flip: drop_bit_eq_div)
qed

text \<open>A code point that fits four bytes is read back from its bytes, whatever follows.\<close>

lemma from_utf8_of:
  assumes "cp < 0x200000"
  shows "from_utf8 (utf8_of cp @ rest) = sanitize_cp cp @ from_utf8 rest"
proof -
  have cp: "unat cp < 2097152" using assms by (simp add: word_less_nat_alt)
  have join: "push_bit 6 (drop_bit 6 cp) OR take_bit 6 cp = cp"
      "push_bit 6 (drop_bit 12 cp) OR take_bit 6 (drop_bit 6 cp) = drop_bit 6 cp"
      "push_bit 6 (drop_bit 18 cp) OR take_bit 6 (drop_bit 12 cp) = drop_bit 12 cp"
    using join_bits [of 0 cp] join_bits [of 6 cp] join_bits [of 12 cp] by simp_all
  have high: "\<not> (ucast (x OR y) :: byte) < 0x80" if "bit x 7" for x y :: u32
  proof
    assume "(ucast (x OR y) :: byte) < 0x80"
    then have "unat (ucast (x OR y) :: byte) < 2 ^ 7" by (simp add: word_less_nat_alt)
    from bit_bound [OF this, of 7] that show False by (simp add: bit_simps)
  qed
  have high: "\<not> (ucast (0xC0 OR x) :: byte) < 0x80" "\<not> (ucast (0xE0 OR x) :: byte) < 0x80"
      "\<not> (ucast (0xF0 OR x) :: byte) < 0x80" for x :: u32
    by (simp_all add: high)
  have lead: "unat x < 32 \<Longrightarrow> 1 \<le> n \<Longrightarrow> utf8_lead (ucast (0xC0 OR x)) n = Some (x, 1)"
      "unat x < 16 \<Longrightarrow> 2 \<le> n \<Longrightarrow> utf8_lead (ucast (0xE0 OR x)) n = Some (x, 2)"
      "unat x < 8 \<Longrightarrow> 3 \<le> n \<Longrightarrow> utf8_lead (ucast (0xF0 OR x)) n = Some (x, 3)" for x :: u32 and n
    using high lead_byte [of x] lead_value [of x] by (simp_all add: utf8_lead_def)
  have sizes: "cp < 0x80 \<longleftrightarrow> unat cp < 128" "cp < 0x800 \<longleftrightarrow> unat cp < 2048" "cp < 0x10000 \<longleftrightarrow> unat cp < 65536"
    by (simp_all add: word_less_nat_alt)
  consider "unat cp < 128" | "128 \<le> unat cp" "unat cp < 2048" | "2048 \<le> unat cp" "unat cp < 65536"
    | "65536 \<le> unat cp" by linarith
  then show ?thesis
  proof cases
    case 1
    then have "(ucast cp :: byte) < 0x80" "(ucast (ucast cp :: byte) :: u32) = cp"
      by (simp_all add: word_less_nat_alt unsigned_ucast_eq unsigned_take_bit_eq take_bit_nat_eq_self
          word_eq_iff_unsigned [where ?'a = nat])
    with 1 show ?thesis by (simp add: utf8_of_def utf8_lead_def sizes)
  next
    case 2
    then have "unat (drop_bit 6 cp) < 32" by (simp add: unat_drop_bit)
    with 2 show ?thesis by (simp add: utf8_of_def sizes lead continuation join)
  next
    case 3
    then have "unat (drop_bit 12 cp) < 16" by (simp add: unat_drop_bit)
    with 3 show ?thesis by (simp add: utf8_of_def sizes lead continuation join)
  next
    case 4
    then have "unat (drop_bit 18 cp) < 8" using cp by (simp add: unat_drop_bit)
    with 4 show ?thesis by (simp add: utf8_of_def sizes lead continuation join)
  qed
qed

lemma from_utf8_to_utf8:
  "list_all (\<lambda>cp. cp < 0x200000) s \<Longrightarrow> from_utf8 (to_utf8 s @ rest) = concat (map sanitize_cp s) @ from_utf8 rest"
  by (induction s) (simp_all add: to_utf8_def from_utf8_of)

text \<open>What the decoder lets through: code points of at most 21 bits, no control characters.\<close>

definition clean_cp :: "u32 \<Rightarrow> bool" where
  "clean_cp cp \<longleftrightarrow> 32 \<le> cp \<and> cp \<noteq> 127 \<and> cp < 0x200000"

lemma sanitize_clean: "clean_cp cp \<Longrightarrow> sanitize_cp cp = [cp]"
  by (auto simp: clean_cp_def sanitize_cp_def word_le_nat_alt word_less_nat_alt)

lemma sanitize_clean_list: "list_all clean_cp s \<Longrightarrow> concat (map sanitize_cp s) = s"
  by (induction s) (simp_all add: sanitize_clean)

lemma clean_sanitized: "cp < 0x200000 \<Longrightarrow> list_all clean_cp (sanitize_cp cp)"
  by (auto simp: sanitize_cp_def clean_cp_def Let_def not_less)

lemma unat_bound_bits:
  fixes w :: u32
  assumes "\<And>k. n \<le> k \<Longrightarrow> \<not> bit w k"
  shows "unat w < 2 ^ n"
proof -
  have "bit w k \<Longrightarrow> k < n" for k using assms [of k] by force
  then have "take_bit n w = w" by (intro bit_word_eqI) (auto simp: bit_take_bit_iff)
  then have "unat w = take_bit n (unat w)" using unsigned_take_bit_eq  [of n w] by metis
  then show ?thesis using take_bit_nat_less_exp [of n "unat w"] by simp
qed

lemma utf8_tail_bound:
  assumes "utf8_tail cp bs = Some cp'" "unat cp < 2 ^ n"
  shows "unat cp' < 2 ^ (n + 6 * length bs)"
  using assms
proof (induction cp bs arbitrary: n rule: utf8_tail.induct)
  case (2 cp d bs)
  let ?cp = "push_bit 6 cp OR ucast (d AND 0x3F)"
  have "unat ?cp < 2 ^ (n + 6)"
  proof (rule unat_bound_bits)
    fix k assume k: "n + 6 \<le> k"
    have "\<not> bit cp (k - 6)" using bit_bound [OF 2(3), of "k - 6"] k by force
    with k show "\<not> bit ?cp k" unfolding mask6 by (simp add: bit_simps)
  qed
  from 2(1) [OF _ _ this] 2(2) show ?case by (simp add: ac_simps split: if_splits)
qed simp

lemma utf8_lead_bound:
  assumes "utf8_lead c n = Some (cp, m)"
  shows "unat cp < 2 ^ (21 - 6 * m) \<and> m \<le> 3 \<and> m \<le> n"
proof -
  have masks: "(0x1F :: byte) = mask 5" "(0x0F :: byte) = mask 4" "(0x07 :: byte) = mask 3"
    by (simp_all add: mask_eq_exp_minus_1)
  have low: "unat (ucast (c AND mask k) :: u32) < 2 ^ k" for k
    by (rule unat_bound_bits) (simp add: bit_simps)
  have "unat (ucast c :: u32) < 2 ^ 8" by (rule unat_bound_bits) (auto simp: bit_simps dest: bit_imp_le_length)
  then show ?thesis
    using assms low [of 5] low [of 4] low [of 3]
    by (auto simp: utf8_lead_def masks split: if_splits)
qed

lemma from_utf8_clean: "list_all clean_cp (from_utf8 bs)"
proof (induction bs rule: from_utf8.induct)
  case (2 c s)
  show ?case
  proof (cases "utf8_lead c (length s)")
    case (Some a)
    obtain cp n where a: "a = (cp, n)" by (cases a)
    show ?thesis
    proof (cases "utf8_tail cp (take n s)")
      case tail: (Some cp')
      note bound = utf8_lead_bound [OF Some [unfolded a]]
      then have "n = 0 \<or> n = 1 \<or> n = 2 \<or> n = 3" by auto
      moreover have "length (take n s) = n" using bound by simp
      ultimately have "unat cp' < 2 ^ 21" using utf8_tail_bound [OF tail bound [THEN conjunct1]] by (auto simp del: length_take)
      then have "cp' < 0x200000" by (simp add: word_less_nat_alt)
      then show ?thesis using 2 Some a tail clean_sanitized by simp
    qed (use 2 Some a in simp)
  qed (use 2 in simp)
qed simp

lemma from_utf8_clean_id:
  assumes "list_all clean_cp s"
  shows "from_utf8 (to_utf8 s) = s"
proof -
  have "list_all (\<lambda>cp. cp < 0x200000) s" using assms by (auto simp: list_all_iff clean_cp_def)
  from from_utf8_to_utf8 [OF this, of "[]"] show ?thesis by (simp add: sanitize_clean_list [OF assms])
qed

subsection \<open>The editor\<close>

record input_line =
  buf :: "u32 list"
  cursor :: nat
  full_selection_active :: bool
  history :: "u32 list list"
  hist_pos :: int
  saved_input :: "u32 list"
  max_history :: int

definition new_input_line :: "int \<Rightarrow> input_line" where
  "new_input_line n =
     \<lparr>buf = [], cursor = 0, full_selection_active = False, history = [], hist_pos = - 1, saved_input = [],
      max_history = n\<rparr>"

definition newline_cp :: u32 where "newline_cp = 0x0A"
definition space_cp :: u32 where "space_cp = 0x20"

definition clear_full_selection :: "input_line \<Rightarrow> input_line" where
  "clear_full_selection l = l\<lparr>full_selection_active := False\<rparr>"

definition delete_full_selection_if_active :: "input_line \<Rightarrow> bool \<times> input_line" where
  "delete_full_selection_if_active l =
     (if \<not> full_selection_active l then (False, l)
      else (True, clear_full_selection (l\<lparr>buf := [], cursor := 0, hist_pos := - 1\<rparr>)))"

text \<open>
  \<open>buf.insert(cursor, ...)\<close> and \<open>buf.erase(cursor, n)\<close>; both would throw for a cursor beyond the end, which
  \<open>input_line_ok\<close> excludes.
\<close>

definition insert_at :: "nat \<Rightarrow> u32 list \<Rightarrow> u32 list \<Rightarrow> u32 list" where
  "insert_at k s b = take k b @ s @ drop k b"

definition erase_at :: "nat \<Rightarrow> nat \<Rightarrow> u32 list \<Rightarrow> u32 list" where
  "erase_at k n b = take k b @ drop (k + n) b"

definition insert_cp :: "u32 \<Rightarrow> input_line \<Rightarrow> input_line" where
  "insert_cp ch l =
     (let l = snd (delete_full_selection_if_active l)
      in l\<lparr>buf := insert_at (cursor l) [ch] (buf l), cursor := cursor l + 1, hist_pos := - 1\<rparr>)"

definition insert_text :: "bytes \<Rightarrow> input_line \<Rightarrow> input_line" where
  "insert_text utf8 l =
     (let decoded = from_utf8 utf8
      in if decoded = [] then l
         else
           let l = snd (delete_full_selection_if_active l)
           in l\<lparr>buf := insert_at (cursor l) decoded (buf l), cursor := cursor l + length decoded, hist_pos := - 1\<rparr>)"

text \<open>The deleting operations stop after a selection was deleted.\<close>

definition unless_selected :: "(input_line \<Rightarrow> input_line) \<Rightarrow> input_line \<Rightarrow> input_line" where
  "unless_selected f l = (case delete_full_selection_if_active l of (True, l) \<Rightarrow> l | (False, l) \<Rightarrow> f l)"

definition backspace :: "input_line \<Rightarrow> input_line" where
  "backspace = unless_selected (\<lambda>l. if cursor l = 0 then l
     else l\<lparr>buf := erase_at (cursor l - 1) 1 (buf l), cursor := cursor l - 1\<rparr>)"

definition del_forward :: "input_line \<Rightarrow> input_line" where
  "del_forward = unless_selected (\<lambda>l. if cursor l \<ge> length (buf l) then l
     else l\<lparr>buf := erase_at (cursor l) 1 (buf l)\<rparr>)"

text \<open>\<open>find\<close> and \<open>rfind\<close> of a newline from a position.\<close>

definition find_nl :: "u32 list \<Rightarrow> nat \<Rightarrow> nat option" where
  "find_nl b pos = find (\<lambda>k. b ! k = newline_cp) [pos..<length b]"

definition rfind_nl :: "u32 list \<Rightarrow> nat \<Rightarrow> nat option" where
  "rfind_nl b pos = find (\<lambda>k. b ! k = newline_cp) (rev [0..<min (Suc pos) (length b)])"

definition kill_to_end :: "input_line \<Rightarrow> input_line" where
  "kill_to_end = unless_selected (\<lambda>l. if cursor l \<ge> length (buf l) then l
     else case find_nl (buf l) (cursor l) of
            None \<Rightarrow> l\<lparr>buf := take (cursor l) (buf l)\<rparr>
          | Some e \<Rightarrow>
              if e = cursor l then l\<lparr>buf := erase_at (cursor l) 1 (buf l)\<rparr>
              else l\<lparr>buf := erase_at (cursor l) (e - cursor l) (buf l)\<rparr>)"

text \<open>A loop stepping back while the code point before the position satisfies a condition.\<close>

fun step_back :: "(u32 \<Rightarrow> bool) \<Rightarrow> u32 list \<Rightarrow> nat \<Rightarrow> nat" where
  "step_back P b 0 = 0"
| "step_back P b (Suc pos) = (if P (b ! pos) then step_back P b pos else Suc pos)"

definition delete_word_backward :: "input_line \<Rightarrow> input_line" where
  "delete_word_backward = unless_selected (\<lambda>l. if cursor l = 0 then l
     else
       let pos = step_back (\<lambda>c. c = space_cp) (buf l) (cursor l);
           pos = step_back (\<lambda>c. c \<noteq> space_cp \<and> c \<noteq> newline_cp) (buf l) pos
       in l\<lparr>buf := erase_at pos (cursor l - pos) (buf l), cursor := pos\<rparr>)"

definition move_left :: "input_line \<Rightarrow> input_line" where
  "move_left l =
     (if full_selection_active l then clear_full_selection (l\<lparr>cursor := 0\<rparr>)
      else if cursor l > 0 then l\<lparr>cursor := cursor l - 1\<rparr> else l)"

definition move_right :: "input_line \<Rightarrow> input_line" where
  "move_right l =
     (if full_selection_active l then clear_full_selection (l\<lparr>cursor := length (buf l)\<rparr>)
      else if cursor l < length (buf l) then l\<lparr>cursor := cursor l + 1\<rparr> else l)"

definition move_home :: "input_line \<Rightarrow> input_line" where
  "move_home l = clear_full_selection (l\<lparr>cursor := 0\<rparr>)"

definition move_end :: "input_line \<Rightarrow> input_line" where
  "move_end l = clear_full_selection (l\<lparr>cursor := length (buf l)\<rparr>)"

definition move_up :: "input_line \<Rightarrow> bool \<times> input_line" where
  "move_up l =
     (if full_selection_active l then (True, clear_full_selection (l\<lparr>cursor := 0\<rparr>))
      else if cursor l = 0 then (False, l)
      else case rfind_nl (buf l) (if cursor l > 0 then cursor l - 1 else 0) of
             None \<Rightarrow> (False, l)
           | Some cur_line_start \<Rightarrow>
               let col = cursor l - cur_line_start - 1;
                   prev_line_start =
                     (if cur_line_start > 0
                      then case rfind_nl (buf l) (cur_line_start - 1) of None \<Rightarrow> 0 | Some p \<Rightarrow> p + 1
                      else 0);
                   prev_line_len = cur_line_start - prev_line_start
               in (True, l\<lparr>cursor := prev_line_start + min col prev_line_len\<rparr>))"

definition move_down :: "input_line \<Rightarrow> bool \<times> input_line" where
  "move_down l =
     (if full_selection_active l then (True, clear_full_selection (l\<lparr>cursor := length (buf l)\<rparr>))
      else case find_nl (buf l) (cursor l) of
             None \<Rightarrow> (False, l)
           | Some next_nl \<Rightarrow>
               let cur_line_start =
                     (if cursor l > 0
                      then case rfind_nl (buf l) (cursor l - 1) of None \<Rightarrow> 0 | Some p \<Rightarrow> p + 1
                      else 0);
                   col = cursor l - cur_line_start;
                   next_line_start = next_nl + 1;
                   next_line_end =
                     (case find_nl (buf l) next_line_start of None \<Rightarrow> length (buf l) | Some e \<Rightarrow> e);
                   next_line_len = next_line_end - next_line_start
               in (True, l\<lparr>cursor := next_line_start + min col next_line_len\<rparr>))"

definition history_prev :: "input_line \<Rightarrow> input_line" where
  "history_prev l =
     (let l = clear_full_selection l;
          browse = (\<lambda>p l. l\<lparr>hist_pos := p, buf := history l ! nat p, cursor := length (history l ! nat p)\<rparr>)
      in if history l = [] then l
         else if hist_pos l = - 1 then browse 0 (l\<lparr>saved_input := buf l\<rparr>)
         else if hist_pos l < int (length (history l)) - 1 then browse (hist_pos l + 1) l
         else l)"

definition history_next :: "input_line \<Rightarrow> input_line" where
  "history_next l =
     (let l = clear_full_selection l
      in if hist_pos l = - 1 then l
         else
           let l = (if hist_pos l = 0 then l\<lparr>hist_pos := - 1, buf := saved_input l\<rparr>
                    else l\<lparr>hist_pos := hist_pos l - 1, buf := history l ! nat (hist_pos l - 1)\<rparr>)
           in l\<lparr>cursor := length (buf l)\<rparr>)"

definition select_all :: "input_line \<Rightarrow> input_line" where
  "select_all l = (if buf l = [] then l else l\<lparr>full_selection_active := True, cursor := length (buf l)\<rparr>)"

definition commit :: "input_line \<Rightarrow> bytes \<times> input_line" where
  "commit l =
     (let result = to_utf8 (buf l);
          l = (if buf l \<noteq> []
               then let h = buf l # history l
                    in l\<lparr>history := if int (length h) > max_history l then butlast h else h\<rparr>
               else l)
      in (result, clear_full_selection (l\<lparr>buf := [], cursor := 0, hist_pos := - 1\<rparr>)))"

definition clear_line :: "input_line \<Rightarrow> input_line" where
  "clear_line l = clear_full_selection (l\<lparr>buf := [], cursor := 0, hist_pos := - 1\<rparr>)"

definition set_text :: "bytes \<Rightarrow> input_line \<Rightarrow> input_line" where
  "set_text utf8 l =
     clear_full_selection (l\<lparr>buf := from_utf8 utf8, cursor := length (from_utf8 utf8), hist_pos := - 1\<rparr>)"

definition line_text :: "input_line \<Rightarrow> bytes" where
  "line_text l = to_utf8 (buf l)"

definition cursor_byte_offset :: "input_line \<Rightarrow> nat" where
  "cursor_byte_offset l = length (to_utf8 (take (cursor l) (buf l)))"

text \<open>What the user interface calls, as one step.\<close>

datatype edit =
    Insert u32 | Insert_text bytes | Backspace | Del_forward | Kill_to_end | Delete_word_backward
  | Move_left | Move_right | Move_home | Move_end | Move_up | Move_down
  | History_prev | History_next | Select_all | Commit | Clear | Set_text bytes

fun edit_step :: "edit \<Rightarrow> input_line \<Rightarrow> input_line" where
  "edit_step (Insert c) = insert_cp c"
| "edit_step (Insert_text s) = insert_text s"
| "edit_step Backspace = backspace"
| "edit_step Del_forward = del_forward"
| "edit_step Kill_to_end = kill_to_end"
| "edit_step Delete_word_backward = delete_word_backward"
| "edit_step Move_left = move_left"
| "edit_step Move_right = move_right"
| "edit_step Move_home = move_home"
| "edit_step Move_end = move_end"
| "edit_step Move_up = snd \<circ> move_up"
| "edit_step Move_down = snd \<circ> move_down"
| "edit_step History_prev = history_prev"
| "edit_step History_next = history_next"
| "edit_step Select_all = select_all"
| "edit_step Commit = snd \<circ> commit"
| "edit_step Clear = clear_line"
| "edit_step (Set_text s) = set_text s"

subsection \<open>Invariant\<close>

text \<open>
  The cursor is inside the buffer, a selection covers a non-empty buffer, the place in the history
  exists, and the history is no longer than its maximum.
\<close>

definition input_line_ok :: "input_line \<Rightarrow> bool" where
  "input_line_ok l \<longleftrightarrow>
     cursor l \<le> length (buf l) \<and> (full_selection_active l \<longrightarrow> buf l \<noteq> [] \<and> cursor l = length (buf l)) \<and>
     - 1 \<le> hist_pos l \<and> hist_pos l < int (length (history l)) \<and>
     (0 \<le> max_history l \<longrightarrow> int (length (history l)) \<le> max_history l)"

lemma new_input_line_ok: "input_line_ok (new_input_line n)"
  by (simp add: input_line_ok_def new_input_line_def)

lemmas edit_defs =
  delete_full_selection_if_active_def clear_full_selection_def unless_selected_def insert_at_def erase_at_def

lemma step_back_le: "step_back P b pos \<le> pos"
  by (induction pos) (auto intro: le_SucI)

lemma take_step_back:
  assumes "pos \<le> length b"
  shows "take (step_back P b pos) b = rev (dropWhile P (rev (take pos b)))"
  using assms by (induction pos) (simp_all add: take_Suc_conv_app_nth)

declare dropWhile_eq_Nil_conv [simp del]

lemma find_nl_drop:
  "find_nl b pos =
     (let t = takeWhile (\<lambda>c. c \<noteq> newline_cp) (drop pos b)
      in if pos + length t < length b then Some (pos + length t) else None)"
proof (induction "length b - pos" arbitrary: pos)
  case 0
  then show ?case by (simp add: find_nl_def)
next
  case (Suc n)
  then have pos: "pos < length b" and IH: "find_nl b (Suc pos) = (let t = takeWhile (\<lambda>c. c \<noteq> newline_cp) (drop (Suc pos) b)
      in if Suc pos + length t < length b then Some (Suc pos + length t) else None)"
    by auto
  from pos have "find_nl b pos = (if b ! pos = newline_cp then Some pos else find_nl b (Suc pos))"
    by (simp add: find_nl_def upt_conv_Cons)
  moreover have "drop pos b = b ! pos # drop (Suc pos) b" using pos by (simp add: Cons_nth_drop_Suc)
  ultimately show ?case using pos IH by (simp add: Let_def)
qed

lemma rfind_nl_take:
  assumes "pos < length b"
  shows "rfind_nl b pos =
    (let up = dropWhile (\<lambda>c. c \<noteq> newline_cp) (rev (take (Suc pos) b))
     in if up = [] then None else Some (length up - 1))"
proof -
  have "find (\<lambda>k. b ! k = newline_cp) (rev [0..<n]) =
      (let up = dropWhile (\<lambda>c. c \<noteq> newline_cp) (rev (take n b))
       in if up = [] then None else Some (length up - 1))" if "n \<le> length b" for n
    using that by (induction n) (auto simp: take_Suc_conv_app_nth Let_def)
  from this [of "Suc pos"] assms show ?thesis by (simp add: rfind_nl_def min_def del: upt_Suc)
qed

subsection \<open>The editor as a pair of texts\<close>

text \<open>
  The abstract editor: what stands before and after the cursor, and whether all is selected.  Lines are
  separated by newlines; \<open>place p s\<close> puts the cursor at position \<open>p\<close> of \<open>s\<close>.
\<close>

type_synonym view = "bool \<times> u32 list \<times> u32 list"

definition view_of :: "input_line \<Rightarrow> view" where
  "view_of l = (full_selection_active l, take (cursor l) (buf l), drop (cursor l) (buf l))"

definition place :: "nat \<Rightarrow> u32 list \<Rightarrow> view" where
  "place p s = (False, take p s, drop p s)"

abbreviation until_nl :: "u32 list \<Rightarrow> u32 list" where
  "until_nl \<equiv> takeWhile (\<lambda>c. c \<noteq> newline_cp)"

abbreviation from_nl :: "u32 list \<Rightarrow> u32 list" where
  "from_nl \<equiv> dropWhile (\<lambda>c. c \<noteq> newline_cp)"

text \<open>One line up or down: the same column, or the end of a line that is shorter.\<close>

definition line_up :: "u32 list \<Rightarrow> u32 list \<Rightarrow> view" where
  "line_up b a =
     (case from_nl (rev b) of
        [] \<Rightarrow> (False, b, a)
      | nl # up \<Rightarrow>
          place (length (from_nl up) + min (length (until_nl (rev b))) (length (until_nl up))) (b @ a))"

definition line_down :: "u32 list \<Rightarrow> u32 list \<Rightarrow> view" where
  "line_down b a =
     (case from_nl a of
        [] \<Rightarrow> (False, b, a)
      | nl # below \<Rightarrow>
          place (length b + length (until_nl a) + 1 + min (length (until_nl (rev b))) (length (until_nl below))) (b @ a))"

fun view_step :: "edit \<Rightarrow> view \<Rightarrow> view" where
  "view_step (Insert c) (sel, b, a) = (if sel then (False, [c], []) else (False, b @ [c], a))"
| "view_step (Insert_text s) (sel, b, a) =
     (if from_utf8 s = [] then (sel, b, a) else if sel then (False, from_utf8 s, []) else (False, b @ from_utf8 s, a))"
| "view_step Backspace (sel, b, a) = (if sel then (False, [], []) else (False, butlast b, a))"
| "view_step Del_forward (sel, b, a) = (if sel then (False, [], []) else (False, b, tl a))"
| "view_step Kill_to_end (sel, b, a) =
     (if sel then (False, [], [])
      else (False, b, if a \<noteq> [] \<and> hd a = newline_cp then tl a else from_nl a))"
| "view_step Delete_word_backward (sel, b, a) =
     (if sel then (False, [], [])
      else (False, rev (dropWhile (\<lambda>c. c \<noteq> space_cp \<and> c \<noteq> newline_cp) (dropWhile (\<lambda>c. c = space_cp) (rev b))), a))"
| "view_step Move_left (sel, b, a) = (if sel then place 0 (b @ a) else place (length b - 1) (b @ a))"
| "view_step Move_right (sel, b, a) =
     (if sel then place (length (b @ a)) (b @ a) else place (min (length b + 1) (length (b @ a))) (b @ a))"
| "view_step Move_home (sel, b, a) = place 0 (b @ a)"
| "view_step Move_end (sel, b, a) = place (length (b @ a)) (b @ a)"
| "view_step Move_up (sel, b, a) = (if sel then place 0 (b @ a) else line_up b a)"
| "view_step Move_down (sel, b, a) = (if sel then place (length (b @ a)) (b @ a) else line_down b a)"
| "view_step Select_all (sel, b, a) = (if b @ a = [] then (sel, b, a) else (True, b @ a, []))"
| "view_step Commit (sel, b, a) = (False, [], [])"
| "view_step Clear (sel, b, a) = (False, [], [])"
| "view_step (Set_text s) (sel, b, a) = (False, from_utf8 s, [])"
| "view_step History_prev v = v"
| "view_step History_next v = v"

subsection \<open>The input line implements the editor\<close>

lemma view_split: "view_of l = (sel, b, a) \<Longrightarrow> buf l = b @ a"
  by (auto simp: view_of_def)

lemma place_take: "place p (take c s @ drop c s) = place p s"
  by simp

lemma line_start:
  assumes "c \<le> length b"
  shows "(if c > 0 then case rfind_nl b (c - 1) of None \<Rightarrow> 0 | Some p \<Rightarrow> p + 1 else 0) = length (from_nl (rev (take c b)))"
proof (cases "c > 0")
  case True
  then have "c - 1 < length b" "Suc (c - 1) = c" using assms by auto
  from rfind_nl_take [OF this(1)] this(2) True show ?thesis
    by (cases "from_nl (rev (take c b))") (auto simp: Let_def)
qed simp

lemma move_up_view:
  assumes "cursor l \<le> length (buf l)" "\<not> full_selection_active l"
  shows "view_of (snd (move_up l)) = line_up (take (cursor l) (buf l)) (drop (cursor l) (buf l)) \<and>
    cursor (snd (move_up l)) \<le> length (buf l)"
proof (cases "cursor l = 0")
  case True
  with assms show ?thesis by (simp add: move_up_def line_up_def view_of_def)
next
  case False
  let ?b = "take (cursor l) (buf l)"
  have c: "cursor l - 1 < length (buf l)" "Suc (cursor l - 1) = cursor l" "cursor l > 0" using assms(1) False by auto
  have r: "rfind_nl (buf l) (cursor l - 1) = (if from_nl (rev ?b) = [] then None else Some (length (from_nl (rev ?b)) - 1))"
    using rfind_nl_take [OF c(1)] unfolding c(2) by (simp add: Let_def)
  show ?thesis
  proof (cases "from_nl (rev ?b)")
    case Nil
    then have "line_up ?b (drop (cursor l) (buf l)) = (False, ?b, drop (cursor l) (buf l))"
      unfolding line_up_def by (simp only: list.case)
    moreover have "rfind_nl (buf l) (cursor l - 1) = None" using r unfolding Nil by simp
    ultimately show ?thesis using c assms(2) by (simp add: move_up_def view_of_def)
  next
    case (Cons nl up)
    let ?cur = "until_nl (rev ?b)"
    have revb: "rev ?b = ?cur @ nl # up" using Cons takeWhile_dropWhile_id [of "\<lambda>c. c \<noteq> newline_cp" "rev ?b"] by metis
    have len: "cursor l = length ?cur + 1 + length up"
      using arg_cong [OF revb, of length] assms(1) by simp
    have up: "take (length up) (buf l) = rev up"
    proof -
      have "?b = rev up @ nl # rev ?cur" using arg_cong [OF revb, of rev] by simp
      then have "take (length up) ?b = rev up" by (metis append_eq_conv_conj length_rev)
      with len show ?thesis by (simp add: min_def split: if_splits)
    qed
    have prev: "(if length up > 0 then case rfind_nl (buf l) (length up - 1) of None \<Rightarrow> 0 | Some p \<Rightarrow> p + 1 else 0)
        = length (from_nl up)"
      using line_start [of "length up" "buf l"] len assms(1) by (simp add: up)
    have parts: "length up = length (until_nl up) + length (from_nl up)"
      by (metis length_append takeWhile_dropWhile_id)
    have r': "rfind_nl (buf l) (cursor l - 1) = Some (length up)" using r Cons by simp
    have col: "cursor l - length up - 1 = length ?cur" using len by simp
    have prev_len: "length up - length (from_nl up) = length (until_nl up)" using parts by simp
    have "snd (move_up l) = l\<lparr>cursor := length (from_nl up) + min (length ?cur) (length (until_nl up))\<rparr>"
      unfolding move_up_def Let_def
      by (simp only: assms(2) False c(3) if_False if_True r' option.case prev col prev_len snd_conv)
    moreover have "line_up ?b (drop (cursor l) (buf l)) =
        place (length (from_nl up) + min (length ?cur) (length (until_nl up))) (buf l)"
      unfolding line_up_def Cons by (simp only: list.case append_take_drop_id)
    moreover have "length (from_nl up) + min (length ?cur) (length (until_nl up)) \<le> length (buf l)"
      using parts len assms(1) by simp
    ultimately show ?thesis using assms(2) by (simp add: view_of_def place_def)
  qed
qed

lemma move_down_view:
  assumes "cursor l \<le> length (buf l)" "\<not> full_selection_active l"
  shows "view_of (snd (move_down l)) = line_down (take (cursor l) (buf l)) (drop (cursor l) (buf l)) \<and>
    cursor (snd (move_down l)) \<le> length (buf l)"
proof -
  let ?b = "take (cursor l) (buf l)" and ?a = "drop (cursor l) (buf l)"
  have f: "find_nl (buf l) (cursor l) =
      (if cursor l + length (until_nl ?a) < length (buf l) then Some (cursor l + length (until_nl ?a)) else None)"
    by (simp add: find_nl_drop Let_def)
  have lena: "length ?a = length (until_nl ?a) + length (from_nl ?a)"
    by (metis length_append takeWhile_dropWhile_id)
  show ?thesis
  proof (cases "from_nl ?a")
    case Nil
    then have "line_down ?b ?a = (False, ?b, ?a)" unfolding line_down_def by (simp only: list.case)
    moreover have "\<not> cursor l + length (until_nl ?a) < length (buf l)" using lena Nil by simp
    ultimately show ?thesis using f assms by (simp add: move_down_def view_of_def)
  next
    case (Cons nl below)
    let ?n = "cursor l + length (until_nl ?a)"
    have less: "?n < length (buf l)" using lena Cons by simp
    have "?a = until_nl ?a @ nl # below" using Cons takeWhile_dropWhile_id [of "\<lambda>c. c \<noteq> newline_cp" ?a] by metis
    then have "drop (length (until_nl ?a) + 1) ?a = below" by (metis Cons add.commute drop_drop drop0 drop_Suc_Cons dropWhile_eq_drop plus_1_eq_Suc)
    then have below: "drop (?n + 1) (buf l) = below" by (simp add: ac_simps)
    have lenb: "length (buf l) = ?n + 1 + length below" using lena Cons less assms(1) by simp
    have lenbelow: "length below = length (until_nl below) + length (from_nl below)"
      by (metis length_append takeWhile_dropWhile_id)
    have next_end: "(case find_nl (buf l) (?n + 1) of None \<Rightarrow> length (buf l) | Some e \<Rightarrow> e) - (?n + 1) = length (until_nl below)"
      using lenb lenbelow unfolding find_nl_drop below by (auto simp: Let_def)
    have col: "cursor l - length (from_nl (rev ?b)) = length (until_nl (rev ?b))"
    proof -
      have "length (rev ?b) = length (until_nl (rev ?b)) + length (from_nl (rev ?b))"
        by (metis length_append takeWhile_dropWhile_id)
      with assms(1) show ?thesis by simp
    qed
    have "snd (move_down l) = l\<lparr>cursor := ?n + 1 + min (length (until_nl (rev ?b))) (length (until_nl below))\<rparr>"
      using f less assms(2) line_start [OF assms(1)] next_end col by (simp add: move_down_def Let_def)
    moreover have "line_down ?b ?a = place (?n + 1 + min (length (until_nl (rev ?b))) (length (until_nl below))) (buf l)"
      using assms(1) unfolding line_down_def Cons by (simp add: min_def)
    moreover have "?n + 1 + length (until_nl below) \<le> length (buf l)" using lenb lenbelow by simp
    ultimately show ?thesis using assms(2) by (simp add: view_of_def place_def)
  qed
qed

lemma kill_to_end_view:
  assumes "cursor l \<le> length (buf l)" "\<not> full_selection_active l"
  shows "view_of (kill_to_end l) = view_step Kill_to_end (view_of l)"
proof -
  let ?a = "drop (cursor l) (buf l)"
  have lena: "length ?a = length (until_nl ?a) + length (from_nl ?a)"
    by (metis length_append takeWhile_dropWhile_id)
  have f: "find_nl (buf l) (cursor l) =
      (if cursor l + length (until_nl ?a) < length (buf l) then Some (cursor l + length (until_nl ?a)) else None)"
    by (simp add: find_nl_drop Let_def)
  have d: "drop (length (until_nl ?a)) ?a = from_nl ?a" by (simp add: dropWhile_eq_drop)
  show ?thesis
  proof (cases "cursor l + length (until_nl ?a) < length (buf l)")
    case True
    have "until_nl ?a = [] \<longleftrightarrow> ?a \<noteq> [] \<and> hd ?a = newline_cp"
      using True by (cases ?a) auto
    with True f d assms show ?thesis
      by (auto simp: kill_to_end_def view_of_def edit_defs ac_simps drop_Suc tl_drop)
  next
    case False
    then have "length (from_nl ?a) = 0" using lena assms(1) by (simp del: length_0_conv)
    then have "from_nl ?a = []" by (simp only: length_0_conv)
    moreover then have "?a = [] \<or> hd ?a \<noteq> newline_cp" by (cases ?a) (auto split: if_splits)
    ultimately show ?thesis using False f assms by (auto simp: kill_to_end_def view_of_def edit_defs)
  qed
qed

lemma delete_word_view:
  assumes "cursor l \<le> length (buf l)" "\<not> full_selection_active l"
  shows "view_of (delete_word_backward l) = view_step Delete_word_backward (view_of l)"
proof (cases "cursor l = 0")
  case False
  let ?p = "step_back (\<lambda>c. c = space_cp) (buf l) (cursor l)"
  let ?q = "step_back (\<lambda>c. c \<noteq> space_cp \<and> c \<noteq> newline_cp) (buf l) ?p"
  have le: "?q \<le> ?p" "?p \<le> cursor l" by (rule step_back_le)+
  then have "take ?q (buf l) =
      rev (dropWhile (\<lambda>c. c \<noteq> space_cp \<and> c \<noteq> newline_cp) (dropWhile (\<lambda>c. c = space_cp) (rev (take (cursor l) (buf l)))))"
    using assms(1) by (simp add: take_step_back)
  moreover have "length (take ?q (buf l)) = ?q" using le assms(1) by simp
  ultimately show ?thesis using False le assms
    by (simp add: delete_word_backward_def view_of_def edit_defs Let_def)
qed (use assms in \<open>simp add: delete_word_backward_def view_of_def edit_defs\<close>)

lemma edit_view_unselected:
  assumes "cursor l \<le> length (buf l)" "\<not> full_selection_active l"
    and "e \<noteq> History_prev" "e \<noteq> History_next"
  shows "view_of (edit_step e l) = view_step e (view_of l)"
proof (cases e)
  case Move_up
  with move_up_view [OF assms(1,2)] assms(2) show ?thesis by (simp add: view_of_def)
next
  case Move_down
  with move_down_view [OF assms(1,2)] assms(2) show ?thesis by (simp add: view_of_def)
next
  case Kill_to_end
  with kill_to_end_view [OF assms(1,2)] show ?thesis by simp
next
  case Delete_word_backward
  with delete_word_view [OF assms(1,2)] show ?thesis by simp
next
  case Backspace
  with assms show ?thesis
    by (cases "cursor l") (auto simp: backspace_def view_of_def edit_defs butlast_take)
next
  case Del_forward
  with assms show ?thesis by (auto simp: del_forward_def view_of_def edit_defs drop_Suc tl_drop)
qed (use assms in \<open>auto simp: view_of_def edit_defs place_def insert_cp_def insert_text_def move_left_def move_right_def
  move_home_def move_end_def select_all_def commit_def clear_line_def set_text_def Let_def min_def\<close>)

lemma edit_view_selected:
  assumes "full_selection_active l" "cursor l = length (buf l)" "buf l \<noteq> []"
    and "e \<noteq> History_prev" "e \<noteq> History_next"
  shows "view_of (edit_step e l) = view_step e (view_of l)"
  using assms
  by (cases e) (auto simp: view_of_def edit_defs place_def insert_cp_def insert_text_def move_left_def move_right_def
    move_home_def move_end_def select_all_def commit_def clear_line_def set_text_def backspace_def del_forward_def
    kill_to_end_def delete_word_backward_def move_up_def move_down_def Let_def)

text \<open>The cursor is inside the buffer after every step since the view says where it is.\<close>

lemma edit_step_keeps_ok:
  assumes ok: "input_line_ok l"
  shows "input_line_ok (edit_step e l)"
proof -
  have c: "cursor l \<le> length (buf l)" using ok by (simp add: input_line_ok_def)
  show ?thesis
  proof (cases e)
    case Move_up
    have "buf (snd (move_up l)) = buf l \<and> history (snd (move_up l)) = history l \<and> hist_pos (snd (move_up l)) = hist_pos l
        \<and> max_history (snd (move_up l)) = max_history l \<and> \<not> full_selection_active (snd (move_up l))"
      by (auto simp: move_up_def edit_defs Let_def split: option.split)
    moreover have "cursor (snd (move_up l)) \<le> length (buf l)"
      using move_up_view [OF c] by (cases "full_selection_active l") (simp_all add: move_up_def edit_defs)
    ultimately show ?thesis using ok Move_up by (simp add: input_line_ok_def)
  next
    case Move_down
    have "buf (snd (move_down l)) = buf l \<and> history (snd (move_down l)) = history l \<and> hist_pos (snd (move_down l)) = hist_pos l
        \<and> max_history (snd (move_down l)) = max_history l \<and> \<not> full_selection_active (snd (move_down l))"
      by (auto simp: move_down_def edit_defs Let_def split: option.split)
    moreover have "cursor (snd (move_down l)) \<le> length (buf l)"
      using move_down_view [OF c] by (cases "full_selection_active l") (simp_all add: move_down_def edit_defs)
    ultimately show ?thesis using ok Move_down by (simp add: input_line_ok_def)
  next
    case Delete_word_backward
    have "step_back P (buf l) (step_back Q (buf l) (cursor l)) \<le> cursor l" for P Q using step_back_le le_trans by blast
    from this [of "\<lambda>c. c \<noteq> space_cp \<and> c \<noteq> newline_cp" "\<lambda>c. c = space_cp"]
    have "step_back (\<lambda>c. c \<noteq> space_cp \<and> c \<noteq> newline_cp) (buf l) (step_back (\<lambda>c. c = space_cp) (buf l) (cursor l)) \<le> cursor l" .
    with ok Delete_word_backward show ?thesis
      by (auto simp: input_line_ok_def delete_word_backward_def edit_defs Let_def min_def intro: le_trans)
  next
    case Kill_to_end
    with ok show ?thesis
      by (auto simp: input_line_ok_def kill_to_end_def edit_defs Let_def min_def split: option.split)
  qed (use ok in \<open>auto simp: input_line_ok_def edit_defs insert_cp_def insert_text_def move_left_def move_right_def
    move_home_def move_end_def select_all_def commit_def clear_line_def set_text_def backspace_def del_forward_def
    history_prev_def history_next_def Let_def\<close>)
qed

fun edit_all :: "edit list \<Rightarrow> input_line \<Rightarrow> input_line" where
  "edit_all [] l = l"
| "edit_all (e # es) l = edit_all es (edit_step e l)"

lemma edit_all_ok: "input_line_ok l \<Longrightarrow> input_line_ok (edit_all es l)"
  by (induction es l rule: edit_all.induct) (simp_all add: edit_step_keeps_ok)

lemma edit_view:
  assumes "input_line_ok l" "e \<noteq> History_prev" "e \<noteq> History_next"
  shows "view_of (edit_step e l) = view_step e (view_of l)"
  using assms edit_view_unselected [of l e] edit_view_selected [of l e]
  by (cases "full_selection_active l") (auto simp: input_line_ok_def)

subsection \<open>History\<close>

lemma history_prev_pow:
  assumes "hist_pos l = - 1" "0 < k" "k \<le> length (history l)"
  shows "(history_prev ^^ k) l = l\<lparr>full_selection_active := False, hist_pos := int k - 1, saved_input := buf l,
    buf := history l ! (k - 1), cursor := length (history l ! (k - 1))\<rparr>"
  using assms(2,3)
proof (induction k)
  case (Suc k)
  show ?case
  proof (cases "k = 0")
    case True
    with Suc.prems assms(1) show ?thesis by (auto simp: history_prev_def edit_defs Let_def)
  next
    case False
    with Suc have "(history_prev ^^ k) l = l\<lparr>full_selection_active := False, hist_pos := int k - 1, saved_input := buf l,
        buf := history l ! (k - 1), cursor := length (history l ! (k - 1))\<rparr>" by simp
    moreover have "history_prev (l\<lparr>full_selection_active := False, hist_pos := int k - 1, saved_input := buf l,
        buf := history l ! (k - 1), cursor := length (history l ! (k - 1))\<rparr>) =
      l\<lparr>full_selection_active := False, hist_pos := int k, saved_input := buf l,
        buf := history l ! k, cursor := length (history l ! k)\<rparr>"
      using False Suc.prems by (auto simp: history_prev_def edit_defs Let_def)
    ultimately show ?thesis by simp
  qed
qed simp

lemma history_next_pow:
  assumes "hist_pos l = int k - 1" "k \<le> length (history l)"
  shows "0 < k \<Longrightarrow> buf ((history_next ^^ k) l) = saved_input l \<and> hist_pos ((history_next ^^ k) l) = - 1"
  using assms
proof (induction k arbitrary: l)
  case (Suc k)
  have "(history_next ^^ Suc k) l = (history_next ^^ k) (history_next l)" by (simp add: funpow_swap1)
  moreover have "hist_pos (history_next l) = int k - 1" "history (history_next l) = history l"
      "saved_input (history_next l) = saved_input l" "k = 0 \<Longrightarrow> buf (history_next l) = saved_input l"
    using Suc.prems by (auto simp: history_next_def edit_defs Let_def)
  ultimately show ?case using Suc by (cases "k = 0") auto
qed simp

subsection \<open>Properties\<close>

text \<open>
  C31: the input line is a text editor.  From a new line and any sequence of edits the cursor stays
  inside the buffer, a selection is never empty, and the place in the history exists, so no access is
  out of range; and any further edit but a move through the history does to the text before and after
  the cursor, and to the selection, what the abstract editor does: insertion and deletion at the cursor,
  deletion of a word and to the end of a line, and moves up and down that keep the column or stop at the
  end of a shorter line.
\<close>

theorem input_line_is_an_editor:
  "input_line_ok (edit_all es (new_input_line n)) \<and>
   (e \<noteq> History_prev \<and> e \<noteq> History_next \<longrightarrow>
     view_of (edit_step e (edit_all es (new_input_line n))) = view_step e (view_of (edit_all es (new_input_line n))))"
proof -
  have "input_line_ok (edit_all es (new_input_line n))" by (intro edit_all_ok new_input_line_ok)
  with edit_view show ?thesis by blast
qed

theorem input_line_is_an_editor_witness:
  "view_of (edit_step Move_up (edit_all [Insert 0x61, Insert 0x0A, Insert 0x62, Insert 0x63] (new_input_line 200)))
     = (False, [0x61], [0x0A, 0x62, 0x63])"
proof -
  have "view_of (edit_all [Insert 0x61, Insert 0x0A, Insert 0x62, Insert 0x63] (new_input_line 200)) =
      (False, [0x61, 0x0A, 0x62, 0x63], [])" by code_simp
  moreover have "view_step Move_up (False, [0x61, 0x0A, 0x62, 0x63], []) = (False, [0x61], [0x0A, 0x62, 0x63])"
    by code_simp
  ultimately show ?thesis
    using input_line_is_an_editor [of "[Insert 0x61, Insert 0x0A, Insert 0x62, Insert 0x63]" 200 Move_up] by simp
qed

text \<open>
  Text and bytes.  Decoding never lets a control character or a number beyond 21 bits through;
  encoding and decoding the result again changes nothing; and text that was committed comes back from the
  history, and the unfinished line with it when the user returns.
\<close>

theorem text_survives_utf8_and_history:
  assumes "l = set_text bs (edit_all es (new_input_line n))" and "0 < n" and "from_utf8 bs \<noteq> []"
  shows "list_all clean_cp (buf l) \<and> from_utf8 (line_text l) = buf l \<and> set_text (line_text l) l = l \<and>
    fst (commit l) = line_text l \<and> line_text (history_prev (set_text draft (snd (commit l)))) = line_text l \<and>
    line_text (history_next (history_prev (set_text draft (snd (commit l))))) = to_utf8 (from_utf8 draft)"
proof -
  let ?l0 = "edit_all es (new_input_line n)"
  have max: "max_history ?l0 = n"
  proof -
    have keep: "max_history (edit_step e l) = max_history l" for e l
      by (cases e) (auto simp: edit_defs insert_cp_def insert_text_def move_left_def move_right_def move_home_def
        move_end_def select_all_def commit_def clear_line_def set_text_def backspace_def del_forward_def
        kill_to_end_def delete_word_backward_def move_up_def move_down_def history_prev_def history_next_def Let_def
        split: option.split)
    have "max_history (edit_all es l) = max_history l" for l
      by (induction es l rule: edit_all.induct) (simp_all add: keep)
    then show ?thesis by (simp add: new_input_line_def)
  qed
  have clean: "list_all clean_cp (buf l)" using from_utf8_clean assms(1) by (simp add: set_text_def edit_defs)
  have bufl: "buf l = from_utf8 bs" "hist_pos l = - 1" "cursor l = length (buf l)" "\<not> full_selection_active l" "max_history l = n"
    using assms(1) max by (simp_all add: set_text_def edit_defs)
  have again: "from_utf8 (line_text l) = buf l" by (simp add: line_text_def from_utf8_clean_id clean)
  let ?c = "snd (commit l)" and ?d = "set_text draft (snd (commit l))"
  have hist: "\<exists>hs. history ?d = buf l # hs"
    using assms(2,3) bufl by (cases "history l" rule: rev_cases) (auto simp: commit_def set_text_def edit_defs Let_def)
  have d: "hist_pos ?d = - 1" "buf ?d = from_utf8 draft" by (simp_all add: set_text_def edit_defs)
  have prev: "buf (history_prev ?d) = buf l" "saved_input (history_prev ?d) = from_utf8 draft"
      "hist_pos (history_prev ?d) = 0"
    using hist history_prev_pow [OF d(1), of 1] d(2) by auto
  have nxt: "buf (history_next (history_prev ?d)) = from_utf8 draft"
    using prev by (simp add: history_next_def edit_defs Let_def)
  have "set_text (line_text l) l = l" using again bufl by (simp add: set_text_def edit_defs)
  moreover have "fst (commit l) = line_text l" by (simp add: commit_def line_text_def Let_def)
  ultimately show ?thesis using clean again prev(1) nxt by (simp add: line_text_def)
qed

theorem text_survives_utf8_and_history_witness:
  "line_text (history_prev (set_text [0x61] (snd (commit (set_text [0xC3, 0xA4, 0x07, 0x62] (new_input_line 1)))))) = [0xC3, 0xA4, 0x62]"
proof -
  have "line_text (set_text [0xC3, 0xA4, 0x07, 0x62] (new_input_line 1)) = [0xC3, 0xA4, 0x62]" by code_simp
  moreover have "from_utf8 [0xC3, 0xA4, 0x07, 0x62] \<noteq> []" by code_simp
  ultimately show ?thesis
    using text_survives_utf8_and_history [where es = "[]" and n = 1 and bs = "[0xC3, 0xA4, 0x07, 0x62]" and draft = "[0x61]", OF refl] by simp
qed

end
