(* ===== verification/Names_End_To_End.thy ===== *)
theory Names_End_To_End
  imports Chat_End_To_End Channel_Rules
begin

text \<open>The user list of a channel: the text the server writes, and the list the client reads from it.\<close>

definition role_on :: "channel_state \<Rightarrow> string \<Rightarrow> user_role" where
  "role_on ch u = (if u \<in> set (ch_operators ch) then Role_Admin else if u \<in> set (ch_voiced ch) then Role_Voice else Role_Regular)"

definition listed_user :: "server \<Rightarrow> channel_state \<Rightarrow> string \<Rightarrow> channel_user_info" where
  "listed_user s ch u = \<lparr>cu_user_id = display_nick s u, cu_role = role_on ch u, cu_presence = Pr_Offline, cu_voice = Voice_Off\<rparr>"

text \<open>A nickname the format can carry.\<close>

definition plain_nick :: "string \<Rightarrow> bool" where
  "plain_nick n \<longleftrightarrow> n \<noteq> [] \<and> hd n \<noteq> CHR ''@'' \<and> hd n \<noteq> CHR ''+'' \<and> CHR 0x0A \<notin> set n"

lemma getlines_line: "CHR 0x0A \<notin> set l \<Longrightarrow> getlines cur (l @ CHR 0x0A # rest) = (cur @ l) # getlines [] rest"
  by (induction l arbitrary: cur) auto

lemma getlines_lines:
  "list_all (\<lambda>l. CHR 0x0A \<notin> set l) ls \<Longrightarrow> getlines [] (concat (map (\<lambda>l. l @ nl) ls)) = ls"
  by (induction ls) (simp_all add: getlines_line)

lemma find_header: "CHR 0x0A \<notin> set c \<Longrightarrow> str_find_from i ('':'' @ nl) (c @ '':'' @ nl @ rest) = Some (i + length c)"
proof (induction c arbitrary: i)
  case (Cons x c)
  then have "\<not> starts_with ('':'' @ nl) ((x # c) @ '':'' @ nl @ rest)"
    by (cases c) (auto simp: starts_with_def)
  with Cons show ?case by simp
qed (simp add: starts_with_def)

lemma names_entry_mark:
  assumes "plain_nick n"
  shows "names_entry ((case r of Role_Admin \<Rightarrow> ''@'' | Role_Voice \<Rightarrow> ''+'' | Role_Regular \<Rightarrow> []) @ n) =
    \<lparr>cu_user_id = n, cu_role = r, cu_presence = Pr_Offline, cu_voice = Voice_Off\<rparr>"
  using assms by (cases r; cases n) (auto simp: names_entry_def plain_nick_def split: char.splits bool.splits)


definition list_line :: "server \<Rightarrow> channel_state \<Rightarrow> string \<Rightarrow> string" where
  "list_line s ch u = (case role_on ch u of Role_Admin \<Rightarrow> ''@'' | Role_Voice \<Rightarrow> ''+'' | Role_Regular \<Rightarrow> []) @ display_nick s u"

lemma user_list_lines:
  "user_list_text s c ch = (''Users in '' @ c) @ '':'' @ nl @ concat (map (\<lambda>l. l @ nl) (map (list_line s ch) (ch_members ch)))"
proof -
  have "(if u \<in> set (ch_operators ch) then ''@'' else if u \<in> set (ch_voiced ch) then ''+'' else []) @ display_nick s u @ nl =
      list_line s ch u @ nl" for u
    by (simp add: list_line_def role_on_def)
  then show ?thesis unfolding user_list_text_def by (simp only: comp_def map_map append_assoc)
qed

lemma parse_user_list:
  assumes "CHR 0x0A \<notin> set c" and "\<forall>u \<in> set (ch_members ch). plain_nick (display_nick s u)"
  shows "parse_names (user_list_text s c ch) = Some (c, map (listed_user s ch) (ch_members ch))"
proof -
  let ?ls = "map (list_line s ch) (ch_members ch)" and ?text = "concat (map (\<lambda>l. l @ nl) (map (list_line s ch) (ch_members ch)))"
  have "CHR 0x0A \<notin> set (''Users in '' @ c)" using assms(1) by simp
  from find_header [OF this, of 0 ?text] have find: "str_find ('':'' @ nl) (user_list_text s c ch) = Some (9 + length c)"
    unfolding user_list_lines str_find_def by simp
  have plain: "list_all (\<lambda>l. CHR 0x0A \<notin> set l \<and> l \<noteq> []) ?ls"
    using assms(2) by (auto simp: list_all_iff list_line_def plain_nick_def split: user_role.split)
  then have "list_all (\<lambda>l. CHR 0x0A \<notin> set l) ?ls" by (auto simp: list_all_iff)
  from getlines_lines [OF this] have lines: "getlines [] ?text = ?ls" .
  have "filter (\<lambda>l. l \<noteq> []) ?ls = ?ls" using plain by (auto simp: list_all_iff filter_id_conv)
  moreover have "map names_entry ?ls = map (listed_user s ch) (ch_members ch)"
    using assms(2) by (simp add: list_line_def listed_user_def names_entry_mark)
  moreover have "drop (9 + length c + 2) (user_list_text s c ch) = ?text"
    unfolding user_list_lines by (simp add: eval_nat_numeral drop_append)
  moreover have "take (length c) (drop 9 (user_list_text s c ch)) = c" unfolding user_list_lines by simp
  moreover have "9 \<le> length (user_list_text s c ch)" unfolding user_list_lines by simp
  ultimately show ?thesis using find lines by (simp add: parse_names_def)
qed

text \<open>
  C38: the client reads the user list the server writes, as long as its nicknames are plain: not empty, without line
  breaks and not beginning with a role mark.  Then the text of the reply to names is read back as the channel with its
  members in the order of the server, each under its nickname and with the role of operator, voiced or regular user it
  has there, and handed to the drawing thread.
\<close>

theorem user_list_read_back:
  assumes "CHR 0x0A \<notin> set c" and "\<forall>u \<in> set (ch_members ch). plain_nick (display_nick s u)"
  shows "last (h_ui (ap_h (app_handle_command_response E (make_response True (user_list_text s c ch) ''names'') a))) =
    Ui_names c (map (listed_user s ch) (ch_members ch))"
proof -
  have "lower_string ''names'' = ''names''" by code_simp
  then show ?thesis
    using parse_user_list [OF assms]
    by (simp add: app_handle_command_response_def make_response_def Let_def upd_h_def post_ui_def)
qed

theorem user_list_read_back_witness:
  "last (h_ui (ap_h (app_handle_command_response demo_talk_env
       (make_response True (user_list_text (new_server default_config empty_db) ''#a''
         ((new_channel ''#a'')\<lparr>ch_members := [''ann'', ''bob''], ch_operators := [''ann'']\<rparr>)) ''names'') (demo_side ''ann'' ''bob'')))) =
    Ui_names ''#a'' [\<lparr>cu_user_id = ''ann'', cu_role = Role_Admin, cu_presence = Pr_Offline, cu_voice = Voice_Off\<rparr>,
      \<lparr>cu_user_id = ''bob'', cu_role = Role_Regular, cu_presence = Pr_Offline, cu_voice = Voice_Off\<rparr>]"
proof -
  let ?ch = "(new_channel ''#a'')\<lparr>ch_members := [''ann'', ''bob''], ch_operators := [''ann'']\<rparr>" and ?s = "new_server default_config empty_db"
  have nick: "display_nick ?s u = u" for u by (simp add: new_server_def display_nick_def)
  have "\<forall>u \<in> set (ch_members ?ch). plain_nick (display_nick ?s u)" by (simp add: nick plain_nick_def)
  from user_list_read_back [OF _ this, of "''#a''"] show ?thesis
    by (simp add: nick listed_user_def role_on_def new_channel_def)
qed

text \<open>
  Nothing makes a nickname plain: the nick command takes any word, so a user without any role who calls himself
  \<open>@bob\<close> is read back as the operator \<open>bob\<close>.
\<close>

lemma marked_nickname_is_read_as_role:
  "let (r, s) = cmd_nick demo_ctx [''@bob''] 0
       (upd_sess 0 (\<lambda>ss. ss\<lparr>ss_user_id := ''eve''\<rparr>) (new_server default_config empty_db))
   in cr_success r \<and> display_nick s ''eve'' = ''@bob'' \<and>
      map_option (map (\<lambda>u. (cu_user_id u, cu_role u)) \<circ> snd)
        (parse_names (user_list_text s ''#a'' ((new_channel ''#a'')\<lparr>ch_members := [''eve'']\<rparr>))) = Some [(''bob'', Role_Admin)]"
  by code_simp

end
